(* ===== verification/Prelude.thy ===== *)
theory Prelude
  imports Complex_Main "HOL-Library.Monad_Syntax"
begin

text \<open>
  What every component of the security suite shares: clock readings, Python's string
  methods on ASCII text, JSON values, Python truthiness, the environment an operation runs
  in (one clock reading and the stream of \<open>uuid4\<close> values it draws), and row-level access to
  the tables of the store (\<open>select .. where\<close>, \<open>.first()\<close>, attribute assignment on the rows
  of a query).  The generic lemmas on those row operations are collected in
  \<open>row_simps\<close>; facts that say which tables an operation leaves alone are in \<open>frame\<close>, and
  facts that say an operation keeps an invariant are in \<open>keeps\<close>.
\<close>

named_theorems row_simps \<comment> \<open>rewriting of row updates and row queries\<close>
named_theorems frame \<comment> \<open>tables an operation does not touch\<close>
named_theorems keeps \<comment> \<open>operations keep the invariants\<close>

subsection \<open>Time\<close>

text \<open>A \<open>datetime\<close> is a number of microseconds; a \<open>timedelta\<close> is a difference of two.\<close>

type_synonym time = int

definition seconds :: "int \<Rightarrow> time" where
  "seconds n = n * 1000000"

definition minutes :: "int \<Rightarrow> time" where
  "minutes n = seconds (60 * n)"

definition hours :: "int \<Rightarrow> time" where
  "hours n = minutes (60 * n)"

definition days :: "int \<Rightarrow> time" where
  "days n = hours (24 * n)"

lemmas time_defs = seconds_def minutes_def hours_def days_def

subsection \<open>Environment\<close>

text \<open>
  The clock reading an operation takes and the \<open>uuid.uuid4()\<close> values it draws, in order.
  An operation that calls \<open>_utcnow()\<close> several times runs at one instant in the model.
\<close>

record env =
  now :: time
  uuids :: "nat \<Rightarrow> string"

definition env_shift :: "nat \<Rightarrow> env \<Rightarrow> env" where
  "env_shift k e = e\<lparr>uuids := (\<lambda>i. uuids e (i + k))\<rparr>"

lemma env_shift_simps [simp]:
  "now (env_shift k e) = now e"
  "uuids (env_shift k e) i = uuids e (i + k)"
  by (simp_all add: env_shift_def)

subsection \<open>Strings\<close>

text \<open>Python's \<open>str.upper\<close>, \<open>str.lower\<close>, \<open>str.strip\<close> and friends, on ASCII text.\<close>

definition upper_char :: "char \<Rightarrow> char" where
  "upper_char c = (let n = of_char c :: nat in if 97 \<le> n \<and> n \<le> 122 then char_of (n - 32) else c)"

definition lower_char :: "char \<Rightarrow> char" where
  "lower_char c = (let n = of_char c :: nat in if 65 \<le> n \<and> n \<le> 90 then char_of (n + 32) else c)"

definition str_upper :: "string \<Rightarrow> string" where
  "str_upper s = map upper_char s"

definition str_lower :: "string \<Rightarrow> string" where
  "str_lower s = map lower_char s"

definition is_space :: "char \<Rightarrow> bool" where
  "is_space c = (let n = of_char c :: nat in (9 \<le> n \<and> n \<le> 13) \<or> (28 \<le> n \<and> n \<le> 32))"

definition str_strip :: "string \<Rightarrow> string" where
  "str_strip s = rev (dropWhile is_space (rev (dropWhile is_space s)))"

fun starts_with :: "string \<Rightarrow> string \<Rightarrow> bool" where
  "starts_with [] s = True"
| "starts_with (p # ps) [] = False"
| "starts_with (p # ps) (c # cs) = (p = c \<and> starts_with ps cs)"

fun contains :: "string \<Rightarrow> string \<Rightarrow> bool" where
  \<comment> \<open>\<open>contains sub s\<close> is Python's \<open>sub in s\<close>\<close>
  "contains sub [] = (sub = [])"
| "contains sub (c # cs) = (starts_with sub (c # cs) \<or> contains sub cs)"

definition digit :: "nat \<Rightarrow> char" where
  "digit n = char_of (48 + n)"

fun show_nat :: "nat \<Rightarrow> string" where
  "show_nat n = (if n < 10 then [digit n] else show_nat (n div 10) @ [digit (n mod 10)])"

declare show_nat.simps [simp del]

text \<open>
  \<open>strftime('%Y%m%d%H%M')\<close> of an instant: the proleptic Gregorian date of the day number,
  then hour and minute, zero-padded.
\<close>

definition civil_date :: "int \<Rightarrow> int \<times> int \<times> int" where
  "civil_date n =
     (let z = n + 719468; era = z div 146097; doe = z mod 146097;
          yoe = (doe - doe div 1460 + doe div 36524 - doe div 146096) div 365;
          doy = doe - (365 * yoe + yoe div 4 - yoe div 100);
          mp = (5 * doy + 2) div 153;
          d = doy - (153 * mp + 2) div 5 + 1;
          m = (if mp < 10 then mp + 3 else mp - 9);
          y = yoe + era * 400
      in (if m \<le> 2 then y + 1 else y, m, d))"

definition pad2 :: "int \<Rightarrow> string" where
  "pad2 n = (if n < 10 then ''0'' @ show_nat (nat n) else show_nat (nat n))"

definition strftime_minute :: "time \<Rightarrow> string" where
  "strftime_minute t =
     (let mins = t div 60000000; (y, m, d) = civil_date (mins div 1440)
      in show_nat (nat y) @ pad2 m @ pad2 d @ pad2 (mins mod 1440 div 60) @ pad2 (mins mod 60))"

lemma strftime_minute_example: "strftime_minute (seconds 1767225600) = ''202601010000''"
  by code_simp

lemma length_str_upper [simp]: "length (str_upper s) = length s"
  by (simp add: str_upper_def)

lemma length_str_strip: "length (str_strip s) \<le> length s"
proof -
  have "length (str_strip s) \<le> length (dropWhile is_space s)"
    using length_dropWhile_le [of is_space "rev (dropWhile is_space s)"]
    by (simp add: str_strip_def)
  also have "\<dots> \<le> length s"
    by (rule length_dropWhile_le)
  finally show ?thesis .
qed

subsection \<open>JSON values\<close>

text \<open>
  A Python \<open>dict\<close> is the list of its items in insertion order.  An ISO timestamp is kept
  as the instant it renders.
\<close>

datatype json =
    JNull
  | JBool bool
  | JInt int
  | JNum rat
  | JStr string
  | JTime time
  | JList "json list"
  | JObj "(string \<times> json) list"

type_synonym dict = "(string \<times> json) list"

definition json_str :: "string option \<Rightarrow> json" where
  "json_str x = (case x of None \<Rightarrow> JNull | Some s \<Rightarrow> JStr s)"

definition json_nat :: "nat option \<Rightarrow> json" where
  "json_nat x = (case x of None \<Rightarrow> JNull | Some n \<Rightarrow> JInt (int n))"

definition dict_get :: "dict \<Rightarrow> string \<Rightarrow> json option" where
  "dict_get d k = map_of d k"

subsection \<open>Python truthiness\<close>

definition truthy_str :: "string option \<Rightarrow> bool" where
  "truthy_str x = (case x of None \<Rightarrow> False | Some s \<Rightarrow> s \<noteq> [])"

definition truthy_nat :: "nat option \<Rightarrow> bool" where
  "truthy_nat x = (case x of None \<Rightarrow> False | Some n \<Rightarrow> n \<noteq> 0)"

definition str_or :: "string option \<Rightarrow> string option \<Rightarrow> string option" where
  \<comment> \<open>\<open>a or b\<close> on optional strings\<close>
  "str_or a b = (if truthy_str a then a else b)"

fun truthy_json :: "json \<Rightarrow> bool" where
  "truthy_json JNull = False"
| "truthy_json (JBool b) = b"
| "truthy_json (JInt i) = (i \<noteq> 0)"
| "truthy_json (JNum q) = (q \<noteq> 0)"
| "truthy_json (JStr s) = (s \<noteq> [])"
| "truthy_json (JTime t) = True"
| "truthy_json (JList xs) = (xs \<noteq> [])"
| "truthy_json (JObj d) = (d \<noteq> [])"

lemma truthy_str_simps [simp]:
  "truthy_str None = False" "truthy_str (Some s) = (s \<noteq> [])"
  by (simp_all add: truthy_str_def)

lemma truthy_nat_simps [simp]:
  "truthy_nat None = False" "truthy_nat (Some n) = (n \<noteq> 0)"
  by (simp_all add: truthy_nat_def)

lemma truthy_nat_Some: "truthy_nat x \<Longrightarrow> x = Some (the x) \<and> the x \<noteq> 0"
  by (cases x) auto

subsection \<open>Rounding\<close>

text \<open>Python's \<open>round(q, k)\<close> on the exact value: to the nearest multiple, ties to even.\<close>

definition round_half_even :: "rat \<Rightarrow> int" where
  "round_half_even q =
     (let f = floor q; r = q - of_int f
      in if r < 1 / 2 then f else if r > 1 / 2 then f + 1 else if even f then f else f + 1)"

definition py_round :: "nat \<Rightarrow> rat \<Rightarrow> rat" where
  "py_round k q = of_int (round_half_even (q * 10 ^ k)) / 10 ^ k"

subsection \<open>Rows\<close>

definition upd_rows :: "('r \<Rightarrow> bool) \<Rightarrow> ('r \<Rightarrow> 'r) \<Rightarrow> 'r list \<Rightarrow> 'r list" where
  \<comment> \<open>assign the attributes \<open>f\<close> on every row that satisfies \<open>p\<close>\<close>
  "upd_rows p f rs = map (\<lambda>r. if p r then f r else r) rs"

definition first_desc :: "('r \<Rightarrow> int) \<Rightarrow> 'r list \<Rightarrow> 'r option" where
  \<comment> \<open>\<open>.order_by(key.desc()).first()\<close>; rows with equal keys keep the table's order\<close>
  "first_desc key rs = (case sort_key (\<lambda>r. - key r) rs of [] \<Rightarrow> None | r # _ \<Rightarrow> Some r)"

definition first_row :: "'r list \<Rightarrow> 'r option" where
  \<comment> \<open>\<open>.first()\<close>\<close>
  "first_row rs = (case rs of [] \<Rightarrow> None | r # _ \<Rightarrow> Some r)"

definition page_rows :: "nat \<Rightarrow> nat \<Rightarrow> 'r list \<Rightarrow> 'r list" where
  \<comment> \<open>\<open>.offset(n).limit(k)\<close>\<close>
  "page_rows off k rs = take k (drop off rs)"

lemma length_upd_rows [simp, row_simps]: "length (upd_rows p f rs) = length rs"
  by (simp add: upd_rows_def)

lemma upd_rows_Nil [simp, row_simps]: "upd_rows p f [] = []"
  by (simp add: upd_rows_def)

lemma upd_rows_Cons [row_simps]:
  "upd_rows p f (r # rs) = (if p r then f r else r) # upd_rows p f rs"
  by (simp add: upd_rows_def)

lemma upd_rows_append [row_simps]: "upd_rows p f (xs @ ys) = upd_rows p f xs @ upd_rows p f ys"
  by (simp add: upd_rows_def)

lemma in_upd_rows: "r \<in> set (upd_rows p f rs) \<longleftrightarrow> (\<exists>x\<in>set rs. r = (if p x then f x else x))"
  by (auto simp: upd_rows_def)

lemma upd_rows_keep: "r \<in> set rs \<Longrightarrow> \<not> p r \<Longrightarrow> r \<in> set (upd_rows p f rs)"
  by (force simp: in_upd_rows)

lemma upd_rows_id: "(\<And>r. r \<in> set rs \<Longrightarrow> \<not> p r) \<Longrightarrow> upd_rows p f rs = rs"
  by (simp add: upd_rows_def map_idI)

lemma map_upd_rows: "(\<And>r. p r \<Longrightarrow> g (f r) = g r) \<Longrightarrow> map g (upd_rows p f rs) = map g rs"
  by (simp add: upd_rows_def)

lemma ball_upd_rows:
  "(\<And>r. r \<in> set rs \<Longrightarrow> P r) \<Longrightarrow> (\<And>r. r \<in> set rs \<Longrightarrow> p r \<Longrightarrow> P r \<Longrightarrow> P (f r)) \<Longrightarrow>
   (\<forall>r\<in>set (upd_rows p f rs). P r)"
  by (auto simp: in_upd_rows)

lemma first_row_Some: "first_row rs = Some r \<Longrightarrow> r \<in> set rs"
  by (auto simp: first_row_def split: list.splits)

lemma first_row_None [simp]: "first_row rs = None \<longleftrightarrow> rs = []"
  by (auto simp: first_row_def split: list.splits)

lemma first_desc_None [simp]: "first_desc key rs = None \<longleftrightarrow> rs = []"
proof -
  have "sort_key (\<lambda>r. - key r) rs = [] \<longleftrightarrow> rs = []"
    by (metis length_0_conv length_sort)
  then show ?thesis
    by (auto simp: first_desc_def split: list.splits)
qed

lemma first_desc_Nil [simp]: "first_desc key [] = None"
  by simp

lemma first_desc_Some: "first_desc key rs = Some r \<Longrightarrow> r \<in> set rs"
proof -
  assume "first_desc key rs = Some r"
  then obtain xs where "sort_key (\<lambda>r. - key r) rs = r # xs"
    by (auto simp: first_desc_def split: list.splits)
  then have "r \<in> set (sort_key (\<lambda>r. - key r) rs)"
    by simp
  then show ?thesis by simp
qed

lemma first_desc_max: "first_desc key rs = Some r \<Longrightarrow> x \<in> set rs \<Longrightarrow> key x \<le> key r"
proof -
  assume f: "first_desc key rs = Some r" and x: "x \<in> set rs"
  obtain xs where s: "sort_key (\<lambda>r. - key r) rs = r # xs"
    using f by (auto simp: first_desc_def split: list.splits)
  have "sorted (map (\<lambda>r. - key r) (r # xs))"
    by (metis s sorted_sort_key)
  moreover have "x \<in> set (r # xs)"
    using x by (metis s set_sort)
  ultimately show ?thesis by auto
qed

lemma find_SomeD: "find p xs = Some x \<Longrightarrow> p x"
  by (induction xs) (auto split: if_splits)

lemma set_page_rows: "set (page_rows off k rs) \<subseteq> set rs"
  unfolding page_rows_def by (meson order_trans set_drop_subset set_take_subset)

lemma length_page_rows: "length (page_rows off k rs) \<le> k"
  by (simp add: page_rows_def)

subsection \<open>Unique keys\<close>

definition unique_by :: "('r \<Rightarrow> 'k) \<Rightarrow> 'r list \<Rightarrow> bool" where
  "unique_by key rs = distinct (map key rs)"

lemma unique_by_eq:
  "unique_by key rs \<Longrightarrow> r \<in> set rs \<Longrightarrow> r' \<in> set rs \<Longrightarrow> key r = key r' \<Longrightarrow> r = r'"
  by (auto simp: unique_by_def distinct_map dest: inj_onD)

lemma unique_by_upd [keeps]:
  "unique_by key rs \<Longrightarrow> (\<And>r. p r \<Longrightarrow> key (f r) = key r) \<Longrightarrow> unique_by key (upd_rows p f rs)"
  by (simp add: unique_by_def map_upd_rows)

lemma unique_by_snoc:
  "unique_by key rs \<Longrightarrow> key r \<notin> key ` set rs \<Longrightarrow> unique_by key (rs @ [r])"
  by (simp add: unique_by_def)

subsection \<open>Append-only logs with a running cursor\<close>

text \<open>
  The durable event stream and the audit trail are only ever appended to, and each entry
  takes the next value of a sequence.  A client of such a log may rely on the entries being
  strictly ordered by cursor and on a later entry having a larger cursor than any earlier one.
\<close>

definition cursor_ordered :: "('e \<Rightarrow> nat) \<Rightarrow> nat \<Rightarrow> 'e list \<Rightarrow> bool" where
  "cursor_ordered cur n es \<longleftrightarrow> sorted_wrt (<) (map cur es) \<and> (\<forall>e\<in>set es. cur e < n)"

locale cursor_log =
  fixes log :: "'s \<Rightarrow> 'e list"
    and nxt :: "'s \<Rightarrow> nat"
    and cur :: "'e \<Rightarrow> nat"
    and emit :: "'p \<Rightarrow> 's \<Rightarrow> 's"
  assumes emit_log: "\<exists>r. log (emit p s) = log s @ [r] \<and> cur r = nxt s"
    and emit_nxt: "nxt (emit p s) = Suc (nxt s)"
begin

lemma emit_ordered:
  assumes "cursor_ordered cur (nxt s) (log s)"
  shows "cursor_ordered cur (nxt (emit p s)) (log (emit p s))"
proof -
  obtain r where r: "log (emit p s) = log s @ [r]" "cur r = nxt s"
    using emit_log by blast
  have "sorted_wrt (<) (map cur (log s @ [r]))"
    using assms r(2) by (auto simp: cursor_ordered_def sorted_wrt_append)
  then show ?thesis
    using assms r by (auto simp: cursor_ordered_def emit_nxt less_Suc_eq)
qed

lemma emit_keeps: "x \<in> set (log s) \<Longrightarrow> x \<in> set (log (emit p s))"
  using emit_log [of p s] by auto

lemma emit_new: "\<exists>r\<in>set (log (emit p s)). cur r = nxt s"
  using emit_log [of p s] by auto

lemma emits_ordered:
  "cursor_ordered cur (nxt s) (log s) \<Longrightarrow>
   cursor_ordered cur (nxt (fold emit ps s)) (log (fold emit ps s))"
  by (induction ps arbitrary: s) (auto intro: emit_ordered)

lemma emits_keep: "x \<in> set (log s) \<Longrightarrow> x \<in> set (log (fold emit ps s))"
  by (induction ps arbitrary: s) (auto intro: emit_keeps)

lemma emits_nxt: "nxt (fold emit ps s) = nxt s + length ps"
  by (induction ps arbitrary: s) (auto simp: emit_nxt)

end

subsection \<open>Tenant isolation\<close>

text \<open>
  Commands carry the tenant they act for (none for an administrator, who may touch every row).
  A component is isolated when a command of one tenant leaves the rows of all other owners as
  they are; then so does every sequence of commands of other tenants.
\<close>

lemma filter_eq_mem: "filter p xs = filter p ys \<Longrightarrow> x \<in> set ys \<Longrightarrow> p x \<Longrightarrow> x \<in> set xs"
  proof -
  assume "filter p xs = filter p ys" "x \<in> set ys" "p x"
  then have "x \<in> set (filter p xs)" by simp
  then show "x \<in> set xs" by simp
qed

lemma filter_map_upd:
  "(\<And>x. x \<in> set xs \<Longrightarrow> p x \<or> p (f x) \<Longrightarrow> f x = x) \<Longrightarrow> filter p (map f xs) = filter p xs"
proof (induction xs)
  case (Cons x xs)
  then show ?case
    by (metis filter.simps(2) list.set_intros(1,2) list.simps(9))
qed simp

locale tenant_isolated =
  fixes owner :: "'r \<Rightarrow> nat option"
    and rows :: "'s \<Rightarrow> 'r list"
    and actor :: "'c \<Rightarrow> nat option"
    and exec :: "'c \<Rightarrow> 's \<Rightarrow> 's"
    and inv :: "'s \<Rightarrow> bool"
  assumes exec_inv: "inv s \<Longrightarrow> inv (exec c s)"
    and exec_foreign: "inv s \<Longrightarrow> actor c = Some u \<Longrightarrow> v \<noteq> Some u \<Longrightarrow>
      filter (\<lambda>r. owner r = v) (rows (exec c s)) = filter (\<lambda>r. owner r = v) (rows s)"
begin

lemma run_inv: "inv s \<Longrightarrow> inv (fold exec cs s)"
  by (induction cs arbitrary: s) (auto intro: exec_inv)

lemma run_foreign:
  "inv s \<Longrightarrow> (\<And>c. c \<in> set cs \<Longrightarrow> \<exists>u. actor c = Some u \<and> v \<noteq> Some u) \<Longrightarrow>
   filter (\<lambda>r. owner r = v) (rows (fold exec cs s)) = filter (\<lambda>r. owner r = v) (rows s)"
proof (induction cs arbitrary: s)
  case Nil
  then show ?case by simp
next
  case (Cons c cs)
  obtain u where "actor c = Some u" "v \<noteq> Some u"
    using Cons.prems(2) by force
  then show ?case
    using Cons.IH [OF exec_inv [OF Cons.prems(1)]] Cons.prems exec_foreign by simp
qed

lemma run_row_kept:
  "inv s \<Longrightarrow> r \<in> set (rows s) \<Longrightarrow> owner r = v \<Longrightarrow>
   (\<And>c. c \<in> set cs \<Longrightarrow> \<exists>u. actor c = Some u \<and> v \<noteq> Some u) \<Longrightarrow> r \<in> set (rows (fold exec cs s))"
  by (rule filter_eq_mem [OF run_foreign]) auto

end

subsection \<open>Fenced leases\<close>

text \<open>
  A worker holds a claim and may commit a result under it any number of times, while other
  operations run in between.  \<open>replay\<close> lists the answers to the commits.
\<close>

fun replay ::
  "('w \<Rightarrow> 's \<Rightarrow> bool \<times> 's) \<Rightarrow> ('o \<Rightarrow> 's \<Rightarrow> 's) \<Rightarrow> ('w + 'o) list \<Rightarrow> 's \<Rightarrow> bool list" where
  "replay cm oth [] s = []"
| "replay cm oth (Inl w # es) s = (case cm w s of (b, s') \<Rightarrow> b # replay cm oth es s')"
| "replay cm oth (Inr x # es) s = replay cm oth es (oth x s)"

text \<open>
  What a store of leases promises: a commit succeeds only while the claim is held, a failed one
  changes nothing, a successful one ends the claim, and operations that do not hand the claim
  out again never bring it back.  Then at most one commit of a claim succeeds, and none does once
  the claim is lost.
\<close>

locale fenced_lease =
  fixes holds :: "'c \<Rightarrow> 's \<Rightarrow> bool"
    and commit :: "'c \<Rightarrow> 'w \<Rightarrow> 's \<Rightarrow> bool \<times> 's"
    and other :: "'o \<Rightarrow> 's \<Rightarrow> 's"
    and fresh :: "'o \<Rightarrow> 'c \<Rightarrow> bool"
    and inv :: "'s \<Rightarrow> bool"
  assumes commit_holds: "fst (commit c w s) \<Longrightarrow> holds c s"
    and commit_stale: "\<not> fst (commit c w s) \<Longrightarrow> snd (commit c w s) = s"
    and commit_ends: "inv s \<Longrightarrow> fst (commit c w s) \<Longrightarrow> \<not> holds c (snd (commit c w s))"
    and commit_inv: "inv s \<Longrightarrow> inv (snd (commit c w s))"
    and other_inv: "inv s \<Longrightarrow> inv (other x s)"
    and other_lost: "inv s \<Longrightarrow> fresh x c \<Longrightarrow> \<not> holds c s \<Longrightarrow> \<not> holds c (other x s)"
begin

lemma lost_forever:
  "inv s \<Longrightarrow> \<not> holds c s \<Longrightarrow> (\<And>x. Inr x \<in> set es \<Longrightarrow> fresh x c) \<Longrightarrow>
   b \<in> set (replay (commit c) other es s) \<Longrightarrow> \<not> b"
proof (induction es arbitrary: s)
  case (Cons a es)
  show ?case
  proof (cases a)
    case (Inl w)
    have "\<not> fst (commit c w s)" using Cons.prems(2) commit_holds by blast
    then have cm: "commit c w s = (False, s)"
      using commit_stale [of c w s] by (metis prod.collapse)
    have fr: "Inr x \<in> set es \<Longrightarrow> fresh x c" for x
      using Cons.prems(3) by simp
    from Cons.prems(4) have "\<not> b \<or> b \<in> set (replay (commit c) other es s)"
      by (auto simp: Inl cm)
    then show ?thesis
      using Cons.IH [OF Cons.prems(1,2) fr] by blast
  next
    case (Inr x)
    have "inv (other x s)" "\<not> holds c (other x s)"
      using Cons.prems other_inv other_lost Inr by simp_all
    then show ?thesis
      using Cons.IH [of "other x s"] Cons.prems(3,4) Inr by simp
  qed
qed simp

lemma at_most_once:
  "inv s \<Longrightarrow> (\<And>x. Inr x \<in> set es \<Longrightarrow> fresh x c) \<Longrightarrow>
   length (filter (\<lambda>b. b) (replay (commit c) other es s)) \<le> 1"
proof (induction es arbitrary: s)
  case (Cons a es)
  have fr: "Inr x \<in> set es \<Longrightarrow> fresh x c" for x
    using Cons.prems(2) by simp
  show ?case
  proof (cases a)
    case (Inl w)
    obtain b s' where cm: "commit c w s = (b, s')" by fastforce
    have inv': "inv s'" using commit_inv [of s c w] Cons.prems(1) cm by simp
    show ?thesis
    proof (cases b)
      case True
      then have lost: "\<not> holds c s'"
        using commit_ends [of s c w] Cons.prems(1) cm by simp
      have "filter (\<lambda>b. b) (replay (commit c) other es s') = []"
        using lost_forever [OF inv' lost fr] by (auto simp: filter_empty_conv)
      then show ?thesis by (simp add: Inl cm True)
    next
      case False
      then show ?thesis using Cons.IH [OF inv' fr] by (simp add: Inl cm)
    qed
  next
    case (Inr x)
    then show ?thesis
      using Cons.IH [OF _ fr, of "other x s"] other_inv Cons.prems(1) by simp
  qed
qed simp

end

subsection \<open>Counting rows by key\<close>

definition count_rows :: "('r \<Rightarrow> string) \<Rightarrow> string list \<Rightarrow> 'r list \<Rightarrow> (string \<times> nat) list" where
  "count_rows f keys rs = map (\<lambda>k. (k, length (filter (\<lambda>r. f r = k) rs))) keys"

lemma count_rows_total:
  "distinct keys \<Longrightarrow> (\<And>r. r \<in> set rs \<Longrightarrow> f r \<in> set keys) \<Longrightarrow>
   sum_list (map snd (count_rows f keys rs)) = length rs"
proof (induction rs)
  case Nil
  then show ?case by (simp add: count_rows_def)
next
  case (Cons r rs)
  have "sum_list (map (\<lambda>k. length (filter (\<lambda>x. f x = k) (r # rs))) keys) =
        sum_list (map (\<lambda>k. (if k = f r then 1 else 0) + length (filter (\<lambda>x. f x = k) rs)) keys)"
    by (intro arg_cong [where f = sum_list] map_cong) auto
  also have "\<dots> = sum_list (map (\<lambda>k. if k = f r then 1 else 0) keys) +
        sum_list (map (\<lambda>k. length (filter (\<lambda>x. f x = k) rs)) keys)"
    by (rule sum_list_addf)
  also have "sum_list (map (\<lambda>k. if k = f r then 1 else 0) keys) = (1::nat)"
    using Cons.prems by (simp add: sum_list_distinct_conv_sum_set)
  finally show ?case
    using Cons by (simp add: count_rows_def comp_def)
qed

lemma map_of_count_rows:
  "k \<in> set keys \<Longrightarrow> map_of (count_rows f keys rs) k = Some (length (filter (\<lambda>r. f r = k) rs))"
  by (induction keys) (auto simp: count_rows_def)

end
