(* ===== verification/Schemas.thy ===== *)
theory Schemas
  imports Prelude
begin

text \<open>
  The enumerations and request schemas of \<open>backend/schemas/soc.py\<close> and
  \<open>backend/schemas/alerts.py\<close>, the severity order every service shares, the two status
  lifecycles (alerts, incidents) and the validation of security events
  (\<open>SecurityEventCreate\<close>, \<open>EventEngine.create_event\<close>).  Database columns hold the strings
  of the enumerations, so each enumeration comes with its value and its parser.
\<close>

subsection \<open>Enumerations\<close>

datatype EventType =
  SCAN_COMPLETED | ZERO_DAY_DETECTED | REPUTATION_CHANGED | TARGET_STATUS_CHANGED
| HIGH_RISK_ENRICHMENT | SYSTEM_AUDIT

primrec EventType_value :: "EventType \<Rightarrow> string" where
  "EventType_value SCAN_COMPLETED = ''SCAN_COMPLETED''"
| "EventType_value ZERO_DAY_DETECTED = ''ZERO_DAY_DETECTED''"
| "EventType_value REPUTATION_CHANGED = ''REPUTATION_CHANGED''"
| "EventType_value TARGET_STATUS_CHANGED = ''TARGET_STATUS_CHANGED''"
| "EventType_value HIGH_RISK_ENRICHMENT = ''HIGH_RISK_ENRICHMENT''"
| "EventType_value SYSTEM_AUDIT = ''SYSTEM_AUDIT''"

datatype EventSeverity = INFO | LOW | MEDIUM | HIGH | CRITICAL

primrec EventSeverity_value :: "EventSeverity \<Rightarrow> string" where
  "EventSeverity_value INFO = ''INFO''"
| "EventSeverity_value LOW = ''LOW''"
| "EventSeverity_value MEDIUM = ''MEDIUM''"
| "EventSeverity_value HIGH = ''HIGH''"
| "EventSeverity_value CRITICAL = ''CRITICAL''"

datatype IndicatorType = URL | DOMAIN | IP | HASH | USER

primrec IndicatorType_value :: "IndicatorType \<Rightarrow> string" where
  "IndicatorType_value URL = ''URL''"
| "IndicatorType_value DOMAIN = ''DOMAIN''"
| "IndicatorType_value IP = ''IP''"
| "IndicatorType_value HASH = ''HASH''"
| "IndicatorType_value USER = ''USER''"

datatype AlertStatus = A_OPEN | A_ACKNOWLEDGED | A_RESOLVED | A_DISMISSED

primrec AlertStatus_value :: "AlertStatus \<Rightarrow> string" where
  "AlertStatus_value A_OPEN = ''OPEN''"
| "AlertStatus_value A_ACKNOWLEDGED = ''ACKNOWLEDGED''"
| "AlertStatus_value A_RESOLVED = ''RESOLVED''"
| "AlertStatus_value A_DISMISSED = ''DISMISSED''"

datatype IncidentStatus = I_OPEN | I_INVESTIGATING | I_CONTAINED | I_RESOLVED | I_CLOSED

primrec IncidentStatus_value :: "IncidentStatus \<Rightarrow> string" where
  "IncidentStatus_value I_OPEN = ''OPEN''"
| "IncidentStatus_value I_INVESTIGATING = ''INVESTIGATING''"
| "IncidentStatus_value I_CONTAINED = ''CONTAINED''"
| "IncidentStatus_value I_RESOLVED = ''RESOLVED''"
| "IncidentStatus_value I_CLOSED = ''CLOSED''"

text \<open>\<open>Enum(value)\<close>: \<open>None\<close> stands for the \<open>ValueError\<close> of an unknown value.\<close>

definition EventType_of :: "string \<Rightarrow> EventType option" where
  "EventType_of s = find (\<lambda>t. EventType_value t = s)
     [SCAN_COMPLETED, ZERO_DAY_DETECTED, REPUTATION_CHANGED, TARGET_STATUS_CHANGED,
      HIGH_RISK_ENRICHMENT, SYSTEM_AUDIT]"

definition EventSeverity_of :: "string \<Rightarrow> EventSeverity option" where
  "EventSeverity_of s = find (\<lambda>t. EventSeverity_value t = s) [INFO, LOW, MEDIUM, HIGH, CRITICAL]"

definition IndicatorType_of :: "string \<Rightarrow> IndicatorType option" where
  "IndicatorType_of s = find (\<lambda>t. IndicatorType_value t = s) [URL, DOMAIN, IP, HASH, USER]"

definition AlertStatus_of :: "string \<Rightarrow> AlertStatus option" where
  "AlertStatus_of s = find (\<lambda>t. AlertStatus_value t = s)
     [A_OPEN, A_ACKNOWLEDGED, A_RESOLVED, A_DISMISSED]"

definition IncidentStatus_of :: "string \<Rightarrow> IncidentStatus option" where
  "IncidentStatus_of s = find (\<lambda>t. IncidentStatus_value t = s)
     [I_OPEN, I_INVESTIGATING, I_CONTAINED, I_RESOLVED, I_CLOSED]"

lemma EventType_roundtrip [simp]: "EventType_of (EventType_value t) = Some t"
  by (cases t) (simp_all add: EventType_of_def)

lemma EventSeverity_roundtrip [simp]: "EventSeverity_of (EventSeverity_value v) = Some v"
  by (cases v) (simp_all add: EventSeverity_of_def)

lemma IndicatorType_roundtrip [simp]: "IndicatorType_of (IndicatorType_value i) = Some i"
  by (cases i) (simp_all add: IndicatorType_of_def)

lemma AlertStatus_roundtrip [simp]: "AlertStatus_of (AlertStatus_value a) = Some a"
  by (cases a) (simp_all add: AlertStatus_of_def)

lemma IncidentStatus_roundtrip [simp]: "IncidentStatus_of (IncidentStatus_value c) = Some c"
  by (cases c) (simp_all add: IncidentStatus_of_def)

lemma AlertStatus_of_Some: "AlertStatus_of s = Some a \<longleftrightarrow> s = AlertStatus_value a"
proof
  assume "AlertStatus_of s = Some a"
  then have "AlertStatus_value a = s"
    unfolding AlertStatus_of_def by (rule find_SomeD)
  then show "s = AlertStatus_value a" by (rule sym)
qed simp

lemma IncidentStatus_of_Some: "IncidentStatus_of s = Some a \<longleftrightarrow> s = IncidentStatus_value a"
proof
  assume "IncidentStatus_of s = Some a"
  then have "IncidentStatus_value a = s"
    unfolding IncidentStatus_of_def by (rule find_SomeD)
  then show "s = IncidentStatus_value a" by (rule sym)
qed simp

lemma EventSeverity_of_Some: "EventSeverity_of s = Some a \<longleftrightarrow> s = EventSeverity_value a"
proof
  assume "EventSeverity_of s = Some a"
  then have "EventSeverity_value a = s"
    unfolding EventSeverity_of_def by (rule find_SomeD)
  then show "s = EventSeverity_value a" by (rule sym)
qed simp

lemma AlertStatus_value_inj [simp]: "AlertStatus_value a = AlertStatus_value b \<longleftrightarrow> a = b"
  by (cases a; cases b) simp_all

lemma IncidentStatus_value_inj [simp]:
  "IncidentStatus_value a = IncidentStatus_value b \<longleftrightarrow> a = b"
  by (cases a; cases b) simp_all

subsection \<open>Severity\<close>

text \<open>
  \<open>SEVERITY_RANKS\<close>, \<open>_get_severity_rank\<close> and \<open>_higher_severity\<close> appear with the same bodies
  in the alert, incident, notification and broadcaster services; the model has them once.
\<close>

definition SEVERITY_RANKS :: "string \<Rightarrow> nat option" where
  "SEVERITY_RANKS = map_of
     [(''INFO'', 1), (''LOW'', 2), (''MEDIUM'', 3), (''HIGH'', 4), (''CRITICAL'', 5)]"

definition get_severity_rank :: "string \<Rightarrow> nat" where
  "get_severity_rank sev = (case SEVERITY_RANKS (str_upper sev) of None \<Rightarrow> 1 | Some r \<Rightarrow> r)"

definition higher_severity :: "string \<Rightarrow> string \<Rightarrow> string" where
  "higher_severity sev1 sev2 =
     (if get_severity_rank sev1 \<ge> get_severity_rank sev2 then sev1 else sev2)"

text \<open>The contract of a severity merge: it picks one of its arguments, of maximal rank.\<close>

locale severity_merge =
  fixes rank :: "'v \<Rightarrow> nat"
    and merge :: "'v \<Rightarrow> 'v \<Rightarrow> 'v"
  assumes rank_merge: "rank (merge a b) = max (rank a) (rank b)"
    and merge_choice: "merge a b = a \<or> merge a b = b"
    and merge_stable: "rank b \<le> rank a \<Longrightarrow> merge a b = a"
begin

lemma merge_ge: "rank a \<le> rank (merge a b)" "rank b \<le> rank (merge a b)"
  by (simp_all add: rank_merge)

lemma merge_same [simp]: "merge a a = a"
  by (simp add: merge_stable)

lemma rank_merges: "rank (fold (\<lambda>x acc. merge acc x) xs a) = Max (insert (rank a) (rank ` set xs))"
proof (induction xs arbitrary: a)
  case Nil
  then show ?case by simp
next
  case (Cons x xs)
  show ?case
    by (simp add: Cons.IH rank_merge Max_insert2 insert_commute)
       (cases "xs = []"; simp add: max.assoc max.left_commute max.commute)
qed

lemma merges_ge: "rank a \<le> rank (fold (\<lambda>x acc. merge acc x) xs a)"
  by (simp add: rank_merges)

lemma merges_upper: "x \<in> set xs \<Longrightarrow> rank x \<le> rank (fold (\<lambda>x acc. merge acc x) xs a)"
  by (simp add: rank_merges)

lemma merges_choice: "fold (\<lambda>x acc. merge acc x) xs a \<in> insert a (set xs)"
proof (induction xs arbitrary: a)
  case Nil
  then show ?case by simp
next
  case (Cons x xs)
  have "fold (\<lambda>x acc. merge acc x) xs (merge a x) \<in> insert (merge a x) (set xs)"
    by (rule Cons.IH)
  then show ?case
    using merge_choice [of a x] by auto
qed

lemma merges_stable: "(\<And>x. x \<in> set xs \<Longrightarrow> rank x \<le> rank a) \<Longrightarrow> fold (\<lambda>x acc. merge acc x) xs a = a"
  by (induction xs) (auto simp: merge_stable)

end

interpretation sev: severity_merge get_severity_rank higher_severity
  by unfold_locales (auto simp: higher_severity_def)

lemma rank_value [simp]:
  "get_severity_rank ''INFO'' = 1" "get_severity_rank ''LOW'' = 2"
  "get_severity_rank ''MEDIUM'' = 3" "get_severity_rank ''HIGH'' = 4"
  "get_severity_rank ''CRITICAL'' = 5"
  by (simp_all add: get_severity_rank_def SEVERITY_RANKS_def str_upper_def upper_char_def)

lemma rank_bounds: "1 \<le> get_severity_rank s" "get_severity_rank s \<le> 5"
  by (auto simp: get_severity_rank_def SEVERITY_RANKS_def)

text \<open>The enumeration itself is ordered by rank.\<close>

instantiation EventSeverity :: linorder
begin

definition less_eq_EventSeverity :: "EventSeverity \<Rightarrow> EventSeverity \<Rightarrow> bool" where
  "a \<le> b \<longleftrightarrow> get_severity_rank (EventSeverity_value a) \<le> get_severity_rank (EventSeverity_value b)"

definition less_EventSeverity :: "EventSeverity \<Rightarrow> EventSeverity \<Rightarrow> bool" where
  "a < b \<longleftrightarrow> get_severity_rank (EventSeverity_value a) < get_severity_rank (EventSeverity_value b)"

instance
proof
  fix x y z :: EventSeverity
  show "x < y \<longleftrightarrow> x \<le> y \<and> \<not> y \<le> x" "x \<le> x" "x \<le> y \<Longrightarrow> y \<le> z \<Longrightarrow> x \<le> z" "x \<le> y \<or> y \<le> x"
    by (auto simp: less_eq_EventSeverity_def less_EventSeverity_def)
  show "x \<le> y \<Longrightarrow> y \<le> x \<Longrightarrow> x = y"
    by (cases x; cases y) (simp_all add: less_eq_EventSeverity_def)
qed

end

subsection \<open>Status lifecycles\<close>

primrec ALERT_STATUS_TRANSITIONS :: "AlertStatus \<Rightarrow> AlertStatus set" where
  "ALERT_STATUS_TRANSITIONS A_OPEN = {A_ACKNOWLEDGED, A_RESOLVED, A_DISMISSED}"
| "ALERT_STATUS_TRANSITIONS A_ACKNOWLEDGED = {A_RESOLVED, A_DISMISSED, A_OPEN}"
| "ALERT_STATUS_TRANSITIONS A_RESOLVED = {A_OPEN}"
| "ALERT_STATUS_TRANSITIONS A_DISMISSED = {A_OPEN}"

primrec INCIDENT_STATUS_TRANSITIONS :: "IncidentStatus \<Rightarrow> IncidentStatus set" where
  "INCIDENT_STATUS_TRANSITIONS I_OPEN = {I_INVESTIGATING, I_CLOSED}"
| "INCIDENT_STATUS_TRANSITIONS I_INVESTIGATING = {I_CONTAINED, I_OPEN, I_RESOLVED, I_CLOSED}"
| "INCIDENT_STATUS_TRANSITIONS I_CONTAINED = {I_INVESTIGATING, I_RESOLVED, I_CLOSED}"
| "INCIDENT_STATUS_TRANSITIONS I_RESOLVED = {I_CLOSED, I_OPEN}"
| "INCIDENT_STATUS_TRANSITIONS I_CLOSED = {I_OPEN}"

text \<open>
  What the services rely on: no state has itself as a target (so a self-transition is always
  the idempotent branch) and from every state the entity can be brought back to the initial
  one.  A client whose steps stay put or follow the table only ever visits states that the
  table connects.
\<close>

locale status_machine =
  fixes trans :: "'s \<Rightarrow> 's set"
    and init :: 's
  assumes no_self: "s \<notin> trans s"
    and recoverable: "(s, init) \<in> {(a, b). b \<in> trans a}\<^sup>*"
    and generated: "(init, s) \<in> {(a, b). b \<in> trans a}\<^sup>*"
begin

lemma connected: "(s, t) \<in> {(a, b). b \<in> trans a}\<^sup>*"
  using recoverable [of s] generated [of t] by (rule rtrancl_trans)

lemma not_stuck: "s \<noteq> init \<Longrightarrow> trans s \<noteq> {}"
  using recoverable [of s] by (auto elim: converse_rtranclE)

lemma run_path:
  assumes "\<And>c x. st (step c x) = st x \<or> st (step c x) \<in> trans (st x)"
  shows "(st x, st (fold step cs x)) \<in> {(a, b). b \<in> trans a}\<^sup>*"
proof (induction cs arbitrary: x)
  case Nil
  then show ?case by simp
next
  case (Cons c cs)
  have "(st x, st (step c x)) \<in> {(a, b). b \<in> trans a}\<^sup>*"
    using assms [of c x] by auto
  then show ?case
    using Cons.IH [of "step c x"] by simp
qed

end

lemma alert_edges: "b \<in> ALERT_STATUS_TRANSITIONS a \<Longrightarrow>
  (a, b) \<in> {(a, b). b \<in> ALERT_STATUS_TRANSITIONS a}\<^sup>*"
  by auto

lemma incident_edges: "b \<in> INCIDENT_STATUS_TRANSITIONS a \<Longrightarrow>
  (a, b) \<in> {(a, b). b \<in> INCIDENT_STATUS_TRANSITIONS a}\<^sup>*"
  by auto

interpretation alert_sm: status_machine ALERT_STATUS_TRANSITIONS A_OPEN
proof
  fix s
  show "s \<notin> ALERT_STATUS_TRANSITIONS s" by (cases s) auto
  show "(s, A_OPEN) \<in> {(a, b). b \<in> ALERT_STATUS_TRANSITIONS a}\<^sup>*"
    by (cases s) (auto intro: alert_edges)
  show "(A_OPEN, s) \<in> {(a, b). b \<in> ALERT_STATUS_TRANSITIONS a}\<^sup>*"
    by (cases s) (auto intro: alert_edges)
qed

interpretation incident_sm: status_machine INCIDENT_STATUS_TRANSITIONS I_OPEN
proof
  fix s
  show "s \<notin> INCIDENT_STATUS_TRANSITIONS s" by (cases s) auto
  have c: "(I_CONTAINED, I_OPEN) \<in> {(a, b). b \<in> INCIDENT_STATUS_TRANSITIONS a}\<^sup>*"
    by (rule rtrancl_trans [of _ I_INVESTIGATING]; rule incident_edges) simp_all
  show "(s, I_OPEN) \<in> {(a, b). b \<in> INCIDENT_STATUS_TRANSITIONS a}\<^sup>*"
    using c by (cases s) (auto intro: incident_edges)
  have o: "(I_OPEN, t) \<in> {(a, b). b \<in> INCIDENT_STATUS_TRANSITIONS a}\<^sup>*"
    if "t \<in> INCIDENT_STATUS_TRANSITIONS I_INVESTIGATING" for t
    by (rule rtrancl_trans [of _ I_INVESTIGATING]; rule incident_edges) (use that in simp_all)
  show "(I_OPEN, s) \<in> {(a, b). b \<in> INCIDENT_STATUS_TRANSITIONS a}\<^sup>*"
    using o by (cases s) (auto intro: incident_edges)
qed

subsection \<open>Security events\<close>

text \<open>
  \<open>SecurityEventSchema\<close>, and its construction by \<open>EventEngine.create_event\<close> through the
  validators of \<open>SecurityEventCreate\<close>.  \<open>json_size d\<close> is the number of UTF-8 bytes of
  \<open>json.dumps(d, default=str)\<close>, \<open>None\<close> when the payload does not serialise.
\<close>

record SecurityEvent =
  event_uuid :: string
  event_type :: EventType
  ev_severity :: EventSeverity
  indicator_type :: IndicatorType
  indicator_value :: string
  ev_user_id :: "nat option"
  ev_payload :: dict
  ev_timestamp :: time

datatype event_error = EventEngineError string

definition MAX_PAYLOAD_SIZE_BYTES :: nat where
  "MAX_PAYLOAD_SIZE_BYTES = 10240"

definition MAX_INDICATOR_VALUE_LENGTH :: nat where
  "MAX_INDICATOR_VALUE_LENGTH = 512"

definition validate_indicator_value :: "string \<Rightarrow> string option" where
  "validate_indicator_value v =
     (if length v > MAX_INDICATOR_VALUE_LENGTH then None
      else if v = [] \<or> str_strip v = [] then None else Some (str_strip v))"

definition validate_payload_size :: "(dict \<Rightarrow> nat option) \<Rightarrow> dict \<Rightarrow> bool" where
  "validate_payload_size json_size v =
     (case json_size v of None \<Rightarrow> False | Some n \<Rightarrow> n \<le> MAX_PAYLOAD_SIZE_BYTES)"

definition create_event ::
  "(dict \<Rightarrow> nat option) \<Rightarrow> env \<Rightarrow> string \<Rightarrow> string \<Rightarrow> string \<Rightarrow> string \<Rightarrow> nat option \<Rightarrow> dict \<Rightarrow>
   time option \<Rightarrow> event_error + SecurityEvent" where
  "create_event json_size e etype sev itype ivalue uid payload ts =
     (case (EventType_of etype, EventSeverity_of sev, IndicatorType_of itype,
            validate_indicator_value ivalue, validate_payload_size json_size payload) of
        (Some t, Some s, Some i, Some v, True) \<Rightarrow>
          Inr \<lparr>event_uuid = uuids e 0, event_type = t, ev_severity = s, indicator_type = i,
               indicator_value = v, ev_user_id = uid, ev_payload = payload,
               ev_timestamp = (case ts of None \<Rightarrow> now e | Some w \<Rightarrow> w)\<rparr>
      | _ \<Rightarrow> Inl (EventEngineError ''SecurityEvent creation failed''))"

definition is_system_event :: "SecurityEvent \<Rightarrow> bool" where
  "is_system_event ev = (ev_user_id ev = None \<or> event_type ev = SYSTEM_AUDIT)"

lemma validate_indicator_value_Some:
  "validate_indicator_value v = Some w \<Longrightarrow> w = str_strip v \<and> w \<noteq> [] \<and> length w \<le> 512"
  using length_str_strip [of v]
  by (auto simp: validate_indicator_value_def MAX_INDICATOR_VALUE_LENGTH_def split: if_splits)

lemma create_event_Inr:
  assumes "create_event js e etype sev itype ivalue uid payload ts = Inr ev"
  shows "EventType_of etype = Some (event_type ev)" "EventSeverity_of sev = Some (ev_severity ev)"
    "IndicatorType_of itype = Some (indicator_type ev)" "ev_user_id ev = uid"
    "validate_indicator_value ivalue = Some (indicator_value ev)" "ev_payload ev = payload"
    "validate_payload_size js payload"
  using assms
  by (auto simp: create_event_def split: option.splits bool.splits)

end
