(* ===== verification/Models.thy ===== *)
theory Models
  imports Schemas
begin

text \<open>
  The ORM rows of \<open>backend/database/models.py\<close> (and \<open>NotificationOutbox\<close>, which
  \<open>notification_service.py\<close> declares), and the store: every table as the list of its rows in
  insertion order, one id sequence per table, and the calls of
  \<open>EventBroadcaster.publish_event_nowait\<close> in the order they were made.  Columns keep their
  Python types: enumerations are stored as strings, nullable columns are options.
\<close>

subsection \<open>Rows\<close>

record user =
  usr_id :: nat
  usr_role :: string
  usr_is_active :: bool

record alert =
  al_id :: nat
  al_uuid :: string
  al_title :: string
  al_description :: "string option"
  al_severity :: string
  al_status :: string
  al_rule_name :: string
  al_indicator_type :: string
  al_indicator_value :: string
  al_fingerprint :: "string option"
  al_occurrence_count :: nat
  al_first_seen_at :: time
  al_last_seen_at :: time
  al_acknowledged_at :: "time option"
  al_resolved_at :: "time option"
  al_dismissed_at :: "time option"
  al_dismiss_reason :: "string option"
  al_triage_notes :: "string option"
  al_user_id :: "nat option"
  al_incident_id :: "nat option"

record incident =
  in_id :: nat
  in_uuid :: string
  in_title :: string
  in_description :: "string option"
  in_severity :: string
  in_status :: string
  in_assigned_to_user_id :: "nat option"
  in_created_by_user_id :: "nat option"
  in_created_at :: time
  in_updated_at :: time
  in_closed_at :: "time option"
  in_resolution_notes :: "string option"

record target =
  tg_id :: nat
  tg_uuid :: string
  tg_url :: string
  tg_normalized_domain :: string
  tg_check_interval_minutes :: int
  tg_is_active :: bool
  tg_last_checked_at :: "time option"
  tg_next_check_at :: time
  tg_last_prediction :: "string option"
  tg_last_confidence :: "rat option"
  tg_consecutive_failures :: nat
  tg_last_status_code :: "int option"
  tg_last_response_time_ms :: "rat option"
  tg_last_error_message :: "string option"
  tg_execution_token :: "string option"
  tg_execution_epoch :: "nat option"
  tg_execution_expires_at :: "time option"
  tg_user_id :: nat
  tg_created_at :: time

record sched =
  ss_current_epoch :: nat
  ss_leader_pod_id :: "string option"
  ss_lease_acquired_at :: "time option"
  ss_lease_expires_at :: "time option"
  ss_updated_at :: time

record pref =
  pf_id :: nat
  pf_user_id :: nat
  pf_in_app_enabled :: bool
  pf_email_enabled :: bool
  pf_webhook_enabled :: bool
  pf_webhook_url :: "string option"
  pf_webhook_secret :: "string option"
  pf_encrypted_webhook_secret :: "string option"
  pf_min_severity :: string
  pf_consecutive_failures :: nat
  pf_circuit_broken :: bool
  pf_circuit_broken_at :: "time option"
  pf_updated_at :: time

record notification =
  nf_id :: nat
  nf_uuid :: string
  nf_user_id :: nat
  nf_title :: string
  nf_message :: string
  nf_severity :: string
  nf_is_read :: bool
  nf_link_url :: "string option"
  nf_created_at :: time

record outbox =
  ob_id :: nat
  ob_uuid :: string
  ob_user_id :: nat
  ob_channel :: string
  ob_destination_url :: string
  ob_payload :: dict
  ob_idempotency_key :: string
  ob_status :: string
  ob_attempt_count :: nat
  ob_max_attempts :: nat
  ob_next_attempt_at :: time
  ob_locked_at :: "time option"
  ob_locked_by :: "string option"
  ob_delivered_at :: "time option"
  ob_last_error :: "string option"
  ob_created_at :: time

record audit =
  au_id :: nat
  au_uuid :: string
  au_action :: string
  au_actor_user_id :: "nat option"
  au_target_resource :: string
  au_resource_id :: string
  au_details :: dict
  au_ip_address :: "string option"
  au_created_at :: time

record soc_event =
  se_cursor_id :: nat
  se_event_id :: string
  se_tenant_id :: nat
  se_channel :: string
  se_event_type :: string
  se_aggregate_id :: "string option"
  se_payload :: dict
  se_created_at :: time

text \<open>The keyword arguments of one \<open>publish_event_nowait\<close> call.\<close>

record publish =
  pb_cursor_id :: nat
  pb_event_id :: "string option"
  pb_tenant_id :: nat
  pb_channel :: string
  pb_event_type :: string
  pb_aggregate_id :: "string option"
  pb_payload :: dict

subsection \<open>The store\<close>

record store =
  st_alerts :: "alert list"
  st_incidents :: "incident list"
  st_targets :: "target list"
  st_sched :: "sched option"
  st_prefs :: "pref list"
  st_notifications :: "notification list"
  st_outbox :: "outbox list"
  st_audits :: "audit list"
  st_stream :: "soc_event list"
  st_bus :: "publish list"
  sq_alert :: nat
  sq_incident :: nat
  sq_target :: nat
  sq_pref :: nat
  sq_notification :: nat
  sq_outbox :: nat
  sq_audit :: nat
  sq_stream :: nat

definition empty_store :: store where
  "empty_store =
     \<lparr>st_alerts = [], st_incidents = [], st_targets = [], st_sched = None, st_prefs = [],
      st_notifications = [], st_outbox = [], st_audits = [], st_stream = [], st_bus = [],
      sq_alert = 1, sq_incident = 1, sq_target = 1, sq_pref = 1, sq_notification = 1,
      sq_outbox = 1, sq_audit = 1, sq_stream = 1\<rparr>"

lemma empty_store_simps [simp]:
  "st_alerts empty_store = []" "st_incidents empty_store = []" "st_targets empty_store = []"
  "st_sched empty_store = None" "st_prefs empty_store = []" "st_notifications empty_store = []"
  "st_outbox empty_store = []" "st_audits empty_store = []" "st_stream empty_store = []"
  "st_bus empty_store = []" "sq_alert empty_store = 1" "sq_incident empty_store = 1"
  "sq_target empty_store = 1" "sq_stream empty_store = 1" "sq_audit empty_store = 1"
  by (simp_all add: empty_store_def)

text \<open>
  \<open>session.add(SOCEventStream(..))\<close> and \<open>session.add(AuditEvent(..))\<close>: the row as the caller
  builds it, completed with the next id of its table's sequence at the flush.
\<close>

definition add_soc_event :: "soc_event \<Rightarrow> store \<Rightarrow> store" where
  "add_soc_event r s =
     s\<lparr>st_stream := st_stream s @ [r\<lparr>se_cursor_id := sq_stream s\<rparr>], sq_stream := Suc (sq_stream s)\<rparr>"

definition add_audit :: "audit \<Rightarrow> store \<Rightarrow> store" where
  "add_audit r s =
     s\<lparr>st_audits := st_audits s @ [r\<lparr>au_id := sq_audit s\<rparr>], sq_audit := Suc (sq_audit s)\<rparr>"

definition add_notification :: "notification \<Rightarrow> store \<Rightarrow> store" where
  "add_notification r s =
     s\<lparr>st_notifications := st_notifications s @ [r\<lparr>nf_id := sq_notification s\<rparr>],
       sq_notification := Suc (sq_notification s)\<rparr>"

definition add_outbox :: "outbox \<Rightarrow> store \<Rightarrow> store" where
  "add_outbox r s =
     s\<lparr>st_outbox := st_outbox s @ [r\<lparr>ob_id := sq_outbox s\<rparr>], sq_outbox := Suc (sq_outbox s)\<rparr>"

definition add_alert :: "alert \<Rightarrow> store \<Rightarrow> store" where
  "add_alert r s =
     s\<lparr>st_alerts := st_alerts s @ [r\<lparr>al_id := sq_alert s\<rparr>], sq_alert := Suc (sq_alert s)\<rparr>"

definition add_incident :: "incident \<Rightarrow> store \<Rightarrow> store" where
  "add_incident r s =
     s\<lparr>st_incidents := st_incidents s @ [r\<lparr>in_id := sq_incident s\<rparr>],
       sq_incident := Suc (sq_incident s)\<rparr>"

definition add_target :: "target \<Rightarrow> store \<Rightarrow> store" where
  "add_target r s =
     s\<lparr>st_targets := st_targets s @ [r\<lparr>tg_id := sq_target s\<rparr>], sq_target := Suc (sq_target s)\<rparr>"

definition add_pref :: "pref \<Rightarrow> store \<Rightarrow> store" where
  "add_pref r s =
     s\<lparr>st_prefs := st_prefs s @ [r\<lparr>pf_id := sq_pref s\<rparr>], sq_pref := Suc (sq_pref s)\<rparr>"

definition publish_event :: "publish \<Rightarrow> store \<Rightarrow> store" where
  "publish_event p s = s\<lparr>st_bus := st_bus s @ [p]\<rparr>"

text \<open>Attribute assignment on the row with a given primary key.\<close>

definition set_alert :: "nat \<Rightarrow> (alert \<Rightarrow> alert) \<Rightarrow> store \<Rightarrow> store" where
  "set_alert i f s = s\<lparr>st_alerts := upd_rows (\<lambda>a. al_id a = i) f (st_alerts s)\<rparr>"

definition set_incident :: "nat \<Rightarrow> (incident \<Rightarrow> incident) \<Rightarrow> store \<Rightarrow> store" where
  "set_incident i f s = s\<lparr>st_incidents := upd_rows (\<lambda>a. in_id a = i) f (st_incidents s)\<rparr>"

definition set_target :: "nat \<Rightarrow> (target \<Rightarrow> target) \<Rightarrow> store \<Rightarrow> store" where
  "set_target i f s = s\<lparr>st_targets := upd_rows (\<lambda>a. tg_id a = i) f (st_targets s)\<rparr>"

definition set_pref :: "nat \<Rightarrow> (pref \<Rightarrow> pref) \<Rightarrow> store \<Rightarrow> store" where
  "set_pref i f s = s\<lparr>st_prefs := upd_rows (\<lambda>a. pf_id a = i) f (st_prefs s)\<rparr>"

definition set_notifications ::
  "(notification \<Rightarrow> bool) \<Rightarrow> (notification \<Rightarrow> notification) \<Rightarrow> store \<Rightarrow> store" where
  "set_notifications p f s = s\<lparr>st_notifications := upd_rows p f (st_notifications s)\<rparr>"

lemmas add_defs =
  add_soc_event_def add_audit_def add_notification_def add_outbox_def add_alert_def
  add_incident_def add_target_def add_pref_def publish_event_def

lemmas set_defs =
  set_alert_def set_incident_def set_target_def set_pref_def set_notifications_def

subsection \<open>The logs\<close>

interpretation stream: cursor_log st_stream sq_stream se_cursor_id add_soc_event
  by unfold_locales (auto simp: add_soc_event_def)

interpretation trail: cursor_log st_audits sq_audit au_id add_audit
  by unfold_locales (auto simp: add_audit_def)

interpretation inbox: cursor_log st_notifications sq_notification nf_id add_notification
  by unfold_locales (auto simp: add_notification_def)

interpretation alerts_log: cursor_log st_alerts sq_alert al_id add_alert
  by unfold_locales (auto simp: add_alert_def)

interpretation incidents_log: cursor_log st_incidents sq_incident in_id add_incident
  by unfold_locales (auto simp: add_incident_def)

interpretation targets_log: cursor_log st_targets sq_target tg_id add_target
  by unfold_locales (auto simp: add_target_def)

interpretation outbox_log: cursor_log st_outbox sq_outbox ob_id add_outbox
  by unfold_locales (auto simp: add_outbox_def)

interpretation prefs_log: cursor_log st_prefs sq_pref pf_id add_pref
  by unfold_locales (auto simp: add_pref_def)

subsection \<open>Ids\<close>

text \<open>
  Every table is ordered by its id and every id has been handed out by the table's sequence.
  Insertions take the next id and updates never write the id, so all operations keep this.
\<close>

definition store_ids :: "store \<Rightarrow> bool" where
  "store_ids s \<longleftrightarrow>
     cursor_ordered al_id (sq_alert s) (st_alerts s) \<and>
     cursor_ordered in_id (sq_incident s) (st_incidents s) \<and>
     cursor_ordered tg_id (sq_target s) (st_targets s) \<and>
     cursor_ordered pf_id (sq_pref s) (st_prefs s) \<and>
     cursor_ordered nf_id (sq_notification s) (st_notifications s) \<and>
     cursor_ordered ob_id (sq_outbox s) (st_outbox s) \<and>
     cursor_ordered au_id (sq_audit s) (st_audits s) \<and>
     cursor_ordered se_cursor_id (sq_stream s) (st_stream s)"

lemma cursor_ordered_upd [keeps]:
  "cursor_ordered k n rs \<Longrightarrow> (\<And>r. p r \<Longrightarrow> k (f r) = k r) \<Longrightarrow> cursor_ordered k n (upd_rows p f rs)"
  by (auto simp: cursor_ordered_def map_upd_rows in_upd_rows)

lemma cursor_ordered_unique: "cursor_ordered k n rs \<Longrightarrow> unique_by k rs"
  by (auto simp: cursor_ordered_def unique_by_def strict_sorted_iff)

lemma cursor_ordered_eq:
  "cursor_ordered k n rs \<Longrightarrow> r \<in> set rs \<Longrightarrow> r' \<in> set rs \<Longrightarrow> k r = k r' \<Longrightarrow> r = r'"
  by (rule unique_by_eq [OF cursor_ordered_unique])

lemma store_ids_alerts: "store_ids s \<Longrightarrow> unique_by al_id (st_alerts s)"
  and store_ids_incidents: "store_ids s \<Longrightarrow> unique_by in_id (st_incidents s)"
  and store_ids_targets: "store_ids s \<Longrightarrow> unique_by tg_id (st_targets s)"
  and store_ids_prefs: "store_ids s \<Longrightarrow> unique_by pf_id (st_prefs s)"
  by (auto simp: store_ids_def intro: cursor_ordered_unique)

lemma store_ids_empty [keeps, simp]: "store_ids empty_store"
  by (simp add: store_ids_def empty_store_def cursor_ordered_def)

lemma cursor_ordered_snoc:
  "cursor_ordered k n rs \<Longrightarrow> k r = n \<Longrightarrow> cursor_ordered k (Suc n) (rs @ [r])"
  by (auto simp: cursor_ordered_def sorted_wrt_append less_Suc_eq)

lemma store_ids_add [keeps, simp]:
  "store_ids s \<Longrightarrow> store_ids (add_soc_event r1 s)"
  "store_ids s \<Longrightarrow> store_ids (add_audit r2 s)"
  "store_ids s \<Longrightarrow> store_ids (add_notification r3 s)"
  "store_ids s \<Longrightarrow> store_ids (add_outbox r4 s)"
  "store_ids s \<Longrightarrow> store_ids (add_alert r5 s)"
  "store_ids s \<Longrightarrow> store_ids (add_incident r6 s)"
  "store_ids s \<Longrightarrow> store_ids (add_target r7 s)"
  "store_ids s \<Longrightarrow> store_ids (add_pref r8 s)"
  "store_ids s \<Longrightarrow> store_ids (publish_event p s)"
  by (simp_all add: store_ids_def add_defs cursor_ordered_snoc)

lemma cursor_ordered_upd_key [keeps]:
  "cursor_ordered k n rs \<Longrightarrow> (\<And>r. k r = i \<Longrightarrow> k (f r) = i) \<Longrightarrow>
   cursor_ordered k n (upd_rows (\<lambda>r. k r = i) f rs)"
  by (rule cursor_ordered_upd) simp_all

lemma store_ids_set [keeps]:
  "store_ids s \<Longrightarrow> (\<And>a. al_id a = i \<Longrightarrow> al_id (fa a) = al_id a) \<Longrightarrow> store_ids (set_alert i fa s)"
  "store_ids s \<Longrightarrow> (\<And>a. in_id a = i \<Longrightarrow> in_id (fi a) = in_id a) \<Longrightarrow> store_ids (set_incident i fi s)"
  "store_ids s \<Longrightarrow> (\<And>a. tg_id a = i \<Longrightarrow> tg_id (ft a) = tg_id a) \<Longrightarrow> store_ids (set_target i ft s)"
  "store_ids s \<Longrightarrow> (\<And>a. pf_id a = i \<Longrightarrow> pf_id (fp a) = pf_id a) \<Longrightarrow> store_ids (set_pref i fp s)"
  "store_ids s \<Longrightarrow> (\<And>a. nf_id (fn a) = nf_id a) \<Longrightarrow> store_ids (set_notifications p fn s)"
  by (simp_all add: store_ids_def set_defs cursor_ordered_upd cursor_ordered_upd_key)

subsection \<open>Which tables an update touches\<close>

lemma alerts_frame [frame, simp]:
  "st_alerts (set_notifications q fn s) = st_alerts s"
  "st_alerts (add_soc_event r1 s) = st_alerts s" "st_alerts (add_audit r2 s) = st_alerts s"
  "st_alerts (add_notification r3 s) = st_alerts s" "st_alerts (add_outbox r4 s) = st_alerts s"
  "st_alerts (add_incident r5 s) = st_alerts s" "st_alerts (add_target r6 s) = st_alerts s"
  "st_alerts (add_pref r7 s) = st_alerts s" "st_alerts (publish_event p s) = st_alerts s"
  "st_alerts (set_incident i fi s) = st_alerts s" "st_alerts (set_target i ft s) = st_alerts s"
  "st_alerts (set_pref i fp s) = st_alerts s"
  "st_alerts (add_alert a s) = st_alerts s @ [a\<lparr>al_id := sq_alert s\<rparr>]"
  "st_alerts (set_alert i fa s) = upd_rows (\<lambda>a. al_id a = i) fa (st_alerts s)"
  by (simp_all add: add_defs set_defs)

lemma incidents_frame [frame, simp]:
  "st_incidents (set_notifications q fn s) = st_incidents s"
  "st_incidents (add_soc_event r1 s) = st_incidents s" "st_incidents (add_audit r2 s) = st_incidents s"
  "st_incidents (add_notification r3 s) = st_incidents s" "st_incidents (add_outbox r4 s) = st_incidents s"
  "st_incidents (add_alert r5 s) = st_incidents s" "st_incidents (add_target r6 s) = st_incidents s"
  "st_incidents (add_pref r7 s) = st_incidents s" "st_incidents (publish_event p s) = st_incidents s"
  "st_incidents (set_alert i fa s) = st_incidents s" "st_incidents (set_target i ft s) = st_incidents s"
  "st_incidents (set_pref i fp s) = st_incidents s"
  "st_incidents (add_incident a s) = st_incidents s @ [a\<lparr>in_id := sq_incident s\<rparr>]"
  "st_incidents (set_incident i fi s) = upd_rows (\<lambda>a. in_id a = i) fi (st_incidents s)"
  by (simp_all add: add_defs set_defs)

lemma targets_frame [frame, simp]:
  "st_targets (set_notifications q fn s) = st_targets s"
  "st_targets (add_soc_event r1 s) = st_targets s" "st_targets (add_audit r2 s) = st_targets s"
  "st_targets (add_notification r3 s) = st_targets s" "st_targets (add_outbox r4 s) = st_targets s"
  "st_targets (add_alert r5 s) = st_targets s" "st_targets (add_incident r6 s) = st_targets s"
  "st_targets (add_pref r7 s) = st_targets s" "st_targets (publish_event p s) = st_targets s"
  "st_targets (set_alert i fa s) = st_targets s" "st_targets (set_incident i fi s) = st_targets s"
  "st_targets (set_pref i fp s) = st_targets s"
  "st_targets (add_target a s) = st_targets s @ [a\<lparr>tg_id := sq_target s\<rparr>]"
  "st_targets (set_target i ft s) = upd_rows (\<lambda>a. tg_id a = i) ft (st_targets s)"
  by (simp_all add: add_defs set_defs)

lemma notifications_frame [frame, simp]:
  "st_notifications (add_soc_event r1 s) = st_notifications s"
  "st_notifications (add_audit r2 s) = st_notifications s"
  "st_notifications (add_alert r3 s) = st_notifications s"
  "st_notifications (add_outbox r4 s) = st_notifications s"
  "st_notifications (add_incident r5 s) = st_notifications s"
  "st_notifications (add_target r6 s) = st_notifications s"
  "st_notifications (add_pref r7 s) = st_notifications s"
  "st_notifications (publish_event p s) = st_notifications s"
  "st_notifications (set_alert i fa s) = st_notifications s"
  "st_notifications (set_incident i fi s) = st_notifications s"
  "st_notifications (set_target i ft s) = st_notifications s"
  "st_notifications (set_pref i fp s) = st_notifications s"
  "st_notifications (set_notifications q fn s) = upd_rows q fn (st_notifications s)"
  "st_notifications (add_notification n s) = st_notifications s @ [n\<lparr>nf_id := sq_notification s\<rparr>]"
  by (simp_all add: add_defs set_defs)

lemma outbox_frame [frame, simp]:
  "st_outbox (set_notifications q fn s) = st_outbox s"
  "st_outbox (add_soc_event r1 s) = st_outbox s" "st_outbox (add_audit r2 s) = st_outbox s"
  "st_outbox (add_notification r3 s) = st_outbox s" "st_outbox (add_alert r4 s) = st_outbox s"
  "st_outbox (add_incident r5 s) = st_outbox s" "st_outbox (add_target r6 s) = st_outbox s"
  "st_outbox (add_pref r7 s) = st_outbox s" "st_outbox (publish_event p s) = st_outbox s"
  "st_outbox (set_alert i fa s) = st_outbox s" "st_outbox (set_incident i fi s) = st_outbox s"
  "st_outbox (set_target i ft s) = st_outbox s" "st_outbox (set_pref i fp s) = st_outbox s"
  "st_outbox (add_outbox r s) = st_outbox s @ [r\<lparr>ob_id := sq_outbox s\<rparr>]"
  by (simp_all add: add_defs set_defs)

lemma audits_frame [frame, simp]:
  "st_audits (set_notifications q fn s) = st_audits s"
  "st_audits (add_soc_event r1 s) = st_audits s" "st_audits (add_alert r2 s) = st_audits s"
  "st_audits (add_notification r3 s) = st_audits s" "st_audits (add_outbox r4 s) = st_audits s"
  "st_audits (add_incident r5 s) = st_audits s" "st_audits (add_target r6 s) = st_audits s"
  "st_audits (add_pref r7 s) = st_audits s" "st_audits (publish_event p s) = st_audits s"
  "st_audits (set_alert i fa s) = st_audits s" "st_audits (set_incident i fi s) = st_audits s"
  "st_audits (set_target i ft s) = st_audits s" "st_audits (set_pref i fp s) = st_audits s"
  "st_audits (add_audit r s) = st_audits s @ [r\<lparr>au_id := sq_audit s\<rparr>]"
  by (simp_all add: add_defs set_defs)

lemma stream_frame [frame, simp]:
  "st_stream (set_notifications q fn s) = st_stream s"
  "st_stream (add_alert r1 s) = st_stream s" "st_stream (add_audit r2 s) = st_stream s"
  "st_stream (add_notification r3 s) = st_stream s" "st_stream (add_outbox r4 s) = st_stream s"
  "st_stream (add_incident r5 s) = st_stream s" "st_stream (add_target r6 s) = st_stream s"
  "st_stream (add_pref r7 s) = st_stream s" "st_stream (publish_event p s) = st_stream s"
  "st_stream (set_alert i fa s) = st_stream s" "st_stream (set_incident i fi s) = st_stream s"
  "st_stream (set_target i ft s) = st_stream s" "st_stream (set_pref i fp s) = st_stream s"
  "st_stream (add_soc_event r s) = st_stream s @ [r\<lparr>se_cursor_id := sq_stream s\<rparr>]"
  by (simp_all add: add_defs set_defs)

lemma prefs_frame [frame, simp]:
  "st_prefs (set_notifications q fn s) = st_prefs s"
  "st_prefs (add_soc_event r1 s) = st_prefs s" "st_prefs (add_audit r2 s) = st_prefs s"
  "st_prefs (add_notification r3 s) = st_prefs s" "st_prefs (add_outbox r4 s) = st_prefs s"
  "st_prefs (add_alert r5 s) = st_prefs s" "st_prefs (add_incident r6 s) = st_prefs s"
  "st_prefs (add_target r7 s) = st_prefs s" "st_prefs (publish_event p s) = st_prefs s"
  "st_prefs (set_alert i fa s) = st_prefs s" "st_prefs (set_incident i fi s) = st_prefs s"
  "st_prefs (set_target i ft s) = st_prefs s"
  "st_prefs (add_pref r s) = st_prefs s @ [r\<lparr>pf_id := sq_pref s\<rparr>]"
  "st_prefs (set_pref i fp s) = upd_rows (\<lambda>a. pf_id a = i) fp (st_prefs s)"
  by (simp_all add: add_defs set_defs)

lemma seq_frame [simp]:
  "sq_stream (set_notifications q fn s) = sq_stream s" "sq_stream (set_target i ft s) = sq_stream s"
  "sq_alert (add_soc_event r1 s) = sq_alert s" "sq_alert (add_audit r2 s) = sq_alert s"
  "sq_alert (add_notification r3 s) = sq_alert s" "sq_alert (add_outbox r4 s) = sq_alert s"
  "sq_alert (publish_event p s) = sq_alert s" "sq_alert (set_alert i fa s) = sq_alert s"
  "sq_alert (add_alert a s) = Suc (sq_alert s)"
  "sq_stream (add_soc_event r1 s) = Suc (sq_stream s)" "sq_stream (add_audit r2 s) = sq_stream s"
  "sq_stream (add_notification r3 s) = sq_stream s" "sq_stream (add_outbox r4 s) = sq_stream s"
  "sq_stream (publish_event p s) = sq_stream s" "sq_stream (set_alert i fa s) = sq_stream s"
  "sq_stream (add_alert a s) = sq_stream s"
  "sq_incident (add_incident r6 s) = Suc (sq_incident s)" "sq_incident (add_audit r2 s) = sq_incident s"
  "sq_incident (set_alert i fa s) = sq_incident s" "sq_incident (set_incident i fi s) = sq_incident s"
  by (simp_all add: add_defs set_defs)

lemma bus_frame [simp]:
  "st_bus (set_notifications q fn s) = st_bus s"
  "st_bus (set_target i ft s) = st_bus s" "st_bus (set_incident i fi s) = st_bus s"
  "st_bus (publish_event p s) = st_bus s @ [p]"
  "st_bus (add_soc_event r1 s) = st_bus s" "st_bus (add_audit r2 s) = st_bus s"
  "st_bus (add_notification r3 s) = st_bus s" "st_bus (add_outbox r4 s) = st_bus s"
  "st_bus (add_alert r5 s) = st_bus s" "st_bus (set_alert i fa s) = st_bus s"
  by (simp_all add: add_defs set_defs)

text \<open>A tenant's id for the event stream: \<open>user_id if user_id is not None else 0\<close>.\<close>

definition tenant_of :: "nat option \<Rightarrow> nat" where
  "tenant_of u = (case u of None \<Rightarrow> 0 | Some i \<Rightarrow> i)"

lemma tenant_of_simps [simp]: "tenant_of None = 0" "tenant_of (Some i) = i"
  by (simp_all add: tenant_of_def)

definition is_admin :: "user \<Rightarrow> bool" where
  "is_admin u = (usr_role u = ''admin'')"

end
