(* ===== verification/Notifications.thy ===== *)
theory Notifications
  imports Models
begin

text \<open>
  \<open>backend/services/notification_service.py\<close>: preferences with their default row, the in-app
  inbox (list, unread count, mark as read), and the transactional enqueueing of in-app
  notifications and webhook outbox jobs for alerts and suspended targets.  Preference updates
  and webhook secrets are in theory \<open>Preferences\<close>.
\<close>

datatype notif_error =
    NotificationNotFoundError
  | AttributeError

definition MAX_UNREAD_NOTIFICATIONS :: nat where
  "MAX_UNREAD_NOTIFICATIONS = 1000"

subsection \<open>Preferences\<close>

definition pref_of :: "nat \<Rightarrow> store \<Rightarrow> pref option" where
  "pref_of uid s = first_row (filter (\<lambda>p. pf_user_id p = uid) (st_prefs s))"

definition default_pref :: "env \<Rightarrow> nat \<Rightarrow> pref" where
  "default_pref e uid =
     \<lparr>pf_id = 0, pf_user_id = uid, pf_in_app_enabled = True, pf_email_enabled = False,
      pf_webhook_enabled = False, pf_webhook_url = None, pf_webhook_secret = None,
      pf_encrypted_webhook_secret = None, pf_min_severity = ''HIGH'',
      pf_consecutive_failures = 0, pf_circuit_broken = False, pf_circuit_broken_at = None,
      pf_updated_at = now e\<rparr>"

definition get_or_create_preferences :: "env \<Rightarrow> nat \<Rightarrow> store \<Rightarrow> pref \<times> store" where
  "get_or_create_preferences e uid s =
     (case pref_of uid s of
        Some p \<Rightarrow> (p, s)
      | None \<Rightarrow>
          let p = (default_pref e uid)\<lparr>pf_id := sq_pref s\<rparr>
          in (p, add_pref (default_pref e uid) s))"

subsection \<open>The in-app inbox\<close>

definition unread_rows :: "nat \<Rightarrow> store \<Rightarrow> notification list" where
  "unread_rows uid s = filter (\<lambda>n. nf_user_id n = uid \<and> \<not> nf_is_read n) (st_notifications s)"

definition get_unread_count :: "user \<Rightarrow> store \<Rightarrow> nat" where
  "get_unread_count u s = length (unread_rows (usr_id u) s)"

record notif_page =
  np_items :: "notification list"
  np_total :: nat
  np_unread_count :: nat
  np_page :: nat
  np_page_size :: nat
  np_has_next :: bool

definition list_notifications ::
  "user \<Rightarrow> int \<Rightarrow> int \<Rightarrow> bool option \<Rightarrow> string option \<Rightarrow> store \<Rightarrow> notif_page" where
  "list_notifications u page page_size is_read sev s =
     (let page' = nat (max 1 page);
          size = nat (min 100 (max 1 page_size));
          off = (page' - 1) * size;
          q = filter (\<lambda>n. nf_user_id n = usr_id u \<and>
                (case is_read of None \<Rightarrow> True | Some b \<Rightarrow> nf_is_read n = b) \<and>
                (case sev of None \<Rightarrow> True | Some v \<Rightarrow> nf_severity n = str_strip (str_upper v)))
                (st_notifications s);
          total = length q
      in \<lparr>np_items = page_rows off size (sort_key (\<lambda>n. - nf_created_at n) q), np_total = total,
          np_unread_count = get_unread_count u s, np_page = page', np_page_size = size,
          np_has_next = off + size < total\<rparr>)"

definition unread_event :: "env \<Rightarrow> nat \<Rightarrow> nat \<Rightarrow> string \<Rightarrow> dict \<Rightarrow> soc_event" where
  "unread_event e i uid agg payload =
     \<lparr>se_cursor_id = 0, se_event_id = uuids e i, se_tenant_id = uid, se_channel = ''notifications'',
      se_event_type = ''unread_count_updated'', se_aggregate_id = Some agg, se_payload = payload,
      se_created_at = now e\<rparr>"

definition publish_unread :: "nat \<Rightarrow> nat \<Rightarrow> string \<Rightarrow> dict \<Rightarrow> store \<Rightarrow> store" where
  "publish_unread cursor uid agg payload =
     publish_event \<lparr>pb_cursor_id = cursor, pb_event_id = None, pb_tenant_id = uid,
       pb_channel = ''notifications'', pb_event_type = ''unread_count_updated'',
       pb_aggregate_id = Some agg, pb_payload = payload\<rparr>"

text \<open>
  The request sessions are created with \<open>autoflush=False\<close>, so the count that
  \<open>mark_as_read\<close> takes after assigning \<open>is_read\<close> still sees the old row.
\<close>

definition mark_as_read ::
  "env \<Rightarrow> string \<Rightarrow> user \<Rightarrow> store \<Rightarrow> (notif_error + notification) \<times> store" where
  "mark_as_read e uuid u s =
     (case first_row (filter (\<lambda>n. nf_uuid n = str_strip uuid \<and> nf_user_id n = usr_id u)
             (st_notifications s)) of
        None \<Rightarrow> (Inl NotificationNotFoundError, s)
      | Some n \<Rightarrow>
          if nf_is_read n then (Inr n, s)
          else
            let n' = n\<lparr>nf_is_read := True\<rparr>;
                unread = get_unread_count u s;
                payload = [(''id'', JStr (nf_uuid n)), (''is_read'', JBool True),
                           (''unread_count'', JInt (max 0 (int unread - 1)))];
                s1 = set_notifications (\<lambda>m. nf_id m = nf_id n) (nf_is_read_update (\<lambda>_. True)) s;
                s2 = add_soc_event (unread_event e 0 (usr_id u) (nf_uuid n) payload) s1
            in (Inr n', publish_unread (sq_stream s1) (usr_id u) (nf_uuid n) payload s2))"

definition mark_all_as_read :: "env \<Rightarrow> user \<Rightarrow> store \<Rightarrow> nat \<times> store" where
  "mark_all_as_read e u s =
     (let unread = (\<lambda>n. nf_user_id n = usr_id u \<and> \<not> nf_is_read n);
          rowcount = length (filter unread (st_notifications s));
          s1 = set_notifications unread (nf_is_read_update (\<lambda>_. True)) s;
          agg = ''user_'' @ show_nat (usr_id u);
          payload = [(''all_read'', JBool True), (''unread_count'', JInt 0)];
          s2 = add_soc_event (unread_event e 0 (usr_id u) agg payload) s1
      in (rowcount, publish_unread (sq_stream s1) (usr_id u) agg payload s2))"

subsection \<open>Enqueueing for alerts\<close>

definition alert_notification :: "env \<Rightarrow> nat \<Rightarrow> alert \<Rightarrow> bool \<Rightarrow> string option \<Rightarrow> notification" where
  "alert_notification e uid a esc old =
     \<lparr>nf_id = 0, nf_uuid = uuids e 0, nf_user_id = uid,
      nf_title = take 255
        (if esc then ''['' @ al_severity a @ ''] Alert Escalated: '' @ al_title a
         else ''['' @ al_severity a @ ''] Security Alert: '' @ al_title a),
      nf_message =
        (if esc
         then ''Threat severity escalated from '' @ (case old of None \<Rightarrow> ''None'' | Some v \<Rightarrow> v)
              @ '' to '' @ al_severity a @ ''. Rule: '' @ al_rule_name a @ ''.''
         else the (str_or (al_description a)
           (Some (''Rule '' @ al_rule_name a @ '' triggered on '' @ al_indicator_value a @ ''.'')))),
      nf_severity = al_severity a, nf_is_read = False,
      nf_link_url = Some (''/alerts/'' @ al_uuid a), nf_created_at = now e\<rparr>"

definition dispatched_event :: "env \<Rightarrow> nat \<Rightarrow> alert \<Rightarrow> notification \<Rightarrow> nat \<Rightarrow> soc_event" where
  "dispatched_event e uid a n unread =
     \<lparr>se_cursor_id = 0, se_event_id = uuids e 1, se_tenant_id = uid, se_channel = ''notifications'',
      se_event_type = ''notification_dispatched'', se_aggregate_id = Some (nf_uuid n),
      se_payload = [(''id'', JStr (nf_uuid n)), (''title'', JStr (nf_title n)),
        (''severity'', JStr (nf_severity n)), (''alert_uuid'', JStr (al_uuid a)),
        (''unread_count'', JInt (int unread + 1))],
      se_created_at = now e\<rparr>"

definition outbox_key :: "alert \<Rightarrow> bool \<Rightarrow> string" where
  "outbox_key a esc =
     ''wh:'' @ al_uuid a @ (if esc then '':ESCALATED:'' else '':OPEN:'') @ al_severity a @ '':''
       @ show_nat (al_occurrence_count a)"

definition alert_outbox_job :: "env \<Rightarrow> nat \<Rightarrow> string \<Rightarrow> alert \<Rightarrow> bool \<Rightarrow> outbox" where
  "alert_outbox_job e uid url a esc =
     \<lparr>ob_id = 0, ob_uuid = uuids e 2, ob_user_id = uid, ob_channel = ''WEBHOOK'',
      ob_destination_url = url,
      ob_payload =
        [(''event'', JStr (if esc then ''ALERT_ESCALATED'' else ''ALERT_TRIGGERED'')),
         (''alert_uuid'', JStr (al_uuid a)), (''title'', JStr (al_title a)),
         (''description'', json_str (al_description a)), (''severity'', JStr (al_severity a)),
         (''status'', JStr (al_status a)), (''rule_name'', JStr (al_rule_name a)),
         (''indicator_type'', JStr (al_indicator_type a)),
         (''indicator_value'', JStr (al_indicator_value a)),
         (''occurrence_count'', JInt (int (al_occurrence_count a))),
         (''first_seen_at'', JTime (al_first_seen_at a)),
         (''last_seen_at'', JTime (al_last_seen_at a))],
      ob_idempotency_key = outbox_key a esc, ob_status = ''PENDING'', ob_attempt_count = 0,
      ob_max_attempts = 3, ob_next_attempt_at = now e, ob_locked_at = None, ob_locked_by = None,
      ob_delivered_at = None, ob_last_error = None, ob_created_at = now e\<rparr>"

definition webhook_ready :: "pref \<Rightarrow> bool" where
  "webhook_ready p =
     (pf_webhook_enabled p \<and> \<not> pf_circuit_broken p \<and> truthy_str (pf_webhook_url p))"

definition enqueue_outbox :: "outbox \<Rightarrow> store \<Rightarrow> store" where
  \<comment> \<open>insert unless a row with the same idempotency key exists\<close>
  "enqueue_outbox job s =
     (if filter (\<lambda>o'. ob_idempotency_key o' = ob_idempotency_key job) (st_outbox s) = []
      then add_outbox job s else s)"

definition alert_in_app ::
  "env \<Rightarrow> nat \<Rightarrow> alert \<Rightarrow> bool \<Rightarrow> string option \<Rightarrow> store \<Rightarrow> soc_event option \<times> store" where
  "alert_in_app e uid a esc old s =
     (let unread = length (unread_rows uid s)
      in if (case pref_of uid s of None \<Rightarrow> True | Some p \<Rightarrow> pf_in_app_enabled p) \<and>
            unread < MAX_UNREAD_NOTIFICATIONS
         then let n = alert_notification e uid a esc old;
                  ev = dispatched_event e uid a n unread
              in (Some (ev\<lparr>se_cursor_id := sq_stream s\<rparr>), add_soc_event ev (add_notification n s))
         else (None, s))"

definition create_in_app_and_outbox_for_alert ::
  "env \<Rightarrow> alert \<Rightarrow> bool \<Rightarrow> string option \<Rightarrow> store \<Rightarrow> soc_event option \<times> store" where
  "create_in_app_and_outbox_for_alert e a esc old s =
     (if \<not> truthy_nat (al_user_id a) then (None, s)
      else
        let uid = the (al_user_id a);
            pref = pref_of uid s;
            (ev, s1) = alert_in_app e uid a esc old s
        in case pref of
             None \<Rightarrow> (ev, s1)
           | Some p \<Rightarrow>
               if webhook_ready p \<and>
                  get_severity_rank (al_severity a) \<ge> get_severity_rank (pf_min_severity p)
               then (ev, enqueue_outbox
                          (alert_outbox_job e uid (the (pf_webhook_url p)) a esc) s1)
               else (ev, s1))"

subsection \<open>Enqueueing for suspended targets\<close>

text \<open>
  The attributes the function reads from its \<open>target\<close> argument.  \<open>su_uuid\<close> is \<open>None\<close> when the
  object passed in has no attribute \<open>target_uuid\<close>: evaluating the arguments of the
  \<open>Notification\<close> or the idempotency key then raises, before anything is added to the session.
\<close>

record suspension =
  su_user_id :: nat
  su_normalized_domain :: string
  su_url :: string
  su_uuid :: "string option"

definition suspension_severity :: "bool \<Rightarrow> string" where
  "suspension_severity is_ssrf = (if is_ssrf then ''CRITICAL'' else ''MEDIUM'')"

definition suspension_message :: "suspension \<Rightarrow> bool \<Rightarrow> string" where
  "suspension_message t is_ssrf =
     (if is_ssrf
      then ''Autonomous monitoring probe aborted due to restricted IP resolution on '' @ su_url t @ ''.''
      else ''Monitoring target '' @ su_normalized_domain t
           @ '' was auto-suspended after 5 consecutive failed checks.'')"

definition suspension_in_app ::
  "env \<Rightarrow> suspension \<Rightarrow> string \<Rightarrow> bool \<Rightarrow> string \<Rightarrow> store \<Rightarrow> soc_event option \<times> store" where
  "suspension_in_app e t subtype is_ssrf uuid s =
     (let title = (if is_ssrf then ''[CRITICAL] SSRF Probe Aborted: '' @ su_normalized_domain t
                   else ''[MEDIUM] Target Suspended: '' @ su_normalized_domain t);
          n = \<lparr>nf_id = 0, nf_uuid = uuids e 0, nf_user_id = su_user_id t, nf_title = take 255 title,
               nf_message = suspension_message t is_ssrf,
               nf_severity = suspension_severity is_ssrf, nf_is_read = False,
               nf_link_url = Some (''/monitor?target='' @ uuid), nf_created_at = now e\<rparr>;
          ev = \<lparr>se_cursor_id = 0, se_event_id = uuids e 1, se_tenant_id = su_user_id t,
                se_channel = ''monitor'', se_event_type = ''target_status_changed'',
                se_aggregate_id = Some uuid,
                se_payload = [(''id'', JStr uuid), (''url'', JStr (su_url t)),
                  (''normalized_domain'', JStr (su_normalized_domain t)),
                  (''status'', JStr ''SUSPENDED''), (''subtype'', JStr subtype),
                  (''severity'', JStr (suspension_severity is_ssrf))],
                se_created_at = now e\<rparr>
      in (Some (ev\<lparr>se_cursor_id := sq_stream s\<rparr>), add_soc_event ev (add_notification n s)))"

definition suspension_job :: "env \<Rightarrow> suspension \<Rightarrow> string \<Rightarrow> bool \<Rightarrow> string \<Rightarrow> string \<Rightarrow> outbox" where
  "suspension_job e t subtype is_ssrf uuid url =
     \<lparr>ob_id = 0, ob_uuid = uuids e 2, ob_user_id = su_user_id t, ob_channel = ''WEBHOOK'',
      ob_destination_url = url,
      ob_payload = [(''event'', JStr subtype), (''target_uuid'', JStr uuid), (''url'', JStr (su_url t)),
        (''normalized_domain'', JStr (su_normalized_domain t)),
        (''severity'', JStr (suspension_severity is_ssrf)), (''timestamp'', JTime (now e)),
        (''reason'', JStr (suspension_message t is_ssrf))],
      ob_idempotency_key =
        ''wh:target:'' @ uuid @ '':'' @ subtype @ '':'' @ strftime_minute (now e),
      ob_status = ''PENDING'', ob_attempt_count = 0, ob_max_attempts = 3,
      ob_next_attempt_at = now e, ob_locked_at = None, ob_locked_by = None,
      ob_delivered_at = None, ob_last_error = None, ob_created_at = now e\<rparr>"

definition create_target_suspension_notification ::
  "env \<Rightarrow> suspension \<Rightarrow> string \<Rightarrow> bool \<Rightarrow> store \<Rightarrow> (notif_error + soc_event option) \<times> store" where
  "create_target_suspension_notification e t subtype is_ssrf s =
     (if su_user_id t = 0 then (Inr None, s)
      else
        let pref = pref_of (su_user_id t) s;
            in_app = (case pref of None \<Rightarrow> True | Some p \<Rightarrow> pf_in_app_enabled p);
            hook = (case pref of None \<Rightarrow> None
                    | Some p \<Rightarrow> if webhook_ready p then pf_webhook_url p else None)
        in case su_uuid t of
             None \<Rightarrow> if in_app \<or> hook \<noteq> None then (Inl AttributeError, s) else (Inr None, s)
           | Some uuid \<Rightarrow>
               let (ev, s1) = (if in_app then suspension_in_app e t subtype is_ssrf uuid s
                               else (None, s));
                   s2 = (case hook of None \<Rightarrow> s1
                         | Some url \<Rightarrow>
                             enqueue_outbox (suspension_job e t subtype is_ssrf uuid url) s1)
               in (Inr ev, s2))"

subsection \<open>Lemmas\<close>

lemma pref_of_Some: "pref_of uid s = Some p \<Longrightarrow> p \<in> set (st_prefs s) \<and> pf_user_id p = uid"
  by (auto simp: pref_of_def dest!: first_row_Some)

lemma enqueue_outbox_unique:
  "unique_by ob_idempotency_key (st_outbox s) \<Longrightarrow>
   unique_by ob_idempotency_key (st_outbox (enqueue_outbox job s))"
  by (auto simp: enqueue_outbox_def filter_empty_conv intro!: unique_by_snoc)

lemma enqueue_outbox_frame [frame, simp]:
  "st_alerts (enqueue_outbox job s) = st_alerts s"
  "st_incidents (enqueue_outbox job s) = st_incidents s"
  "st_targets (enqueue_outbox job s) = st_targets s"
  "st_notifications (enqueue_outbox job s) = st_notifications s"
  "st_audits (enqueue_outbox job s) = st_audits s"
  "st_stream (enqueue_outbox job s) = st_stream s"
  "st_prefs (enqueue_outbox job s) = st_prefs s"
  "st_bus (enqueue_outbox job s) = st_bus s"
  "sq_stream (enqueue_outbox job s) = sq_stream s"
  "sq_alert (enqueue_outbox job s) = sq_alert s"
  by (simp_all add: enqueue_outbox_def)

lemma enqueue_outbox_ids [keeps, simp]: "store_ids s \<Longrightarrow> store_ids (enqueue_outbox job s)"
  by (simp add: enqueue_outbox_def)

text \<open>Enqueueing for an alert only appends to the inbox, the outbox and the event stream.\<close>

lemma create_for_alert_frame [frame, simp]:
  "st_alerts (snd (create_in_app_and_outbox_for_alert e a esc old s)) = st_alerts s"
  "st_incidents (snd (create_in_app_and_outbox_for_alert e a esc old s)) = st_incidents s"
  "st_targets (snd (create_in_app_and_outbox_for_alert e a esc old s)) = st_targets s"
  "st_audits (snd (create_in_app_and_outbox_for_alert e a esc old s)) = st_audits s"
  "st_prefs (snd (create_in_app_and_outbox_for_alert e a esc old s)) = st_prefs s"
  "st_bus (snd (create_in_app_and_outbox_for_alert e a esc old s)) = st_bus s"
  "sq_alert (snd (create_in_app_and_outbox_for_alert e a esc old s)) = sq_alert s"
  by (simp_all add: create_in_app_and_outbox_for_alert_def alert_in_app_def Let_def
        split: option.splits prod.splits)

lemma create_for_alert_ids [keeps, simp]:
  "store_ids s \<Longrightarrow> store_ids (snd (create_in_app_and_outbox_for_alert e a esc old s))"
  by (simp add: create_in_app_and_outbox_for_alert_def alert_in_app_def Let_def
        split: option.splits prod.splits)

lemma create_for_alert_outbox_unique:
  "unique_by ob_idempotency_key (st_outbox s) \<Longrightarrow>
   unique_by ob_idempotency_key (st_outbox (snd (create_in_app_and_outbox_for_alert e a esc old s)))"
  by (auto simp: create_in_app_and_outbox_for_alert_def alert_in_app_def Let_def
        split: option.splits prod.splits intro!: enqueue_outbox_unique)

lemma create_for_alert_stream:
  "fst (create_in_app_and_outbox_for_alert e a esc old s) = None \<and>
   st_stream (snd (create_in_app_and_outbox_for_alert e a esc old s)) = st_stream s \<and>
   sq_stream (snd (create_in_app_and_outbox_for_alert e a esc old s)) = sq_stream s \<or>
   (\<exists>ev. fst (create_in_app_and_outbox_for_alert e a esc old s) = Some ev \<and>
      se_cursor_id ev = sq_stream s \<and> Some (se_tenant_id ev) = al_user_id a \<and>
      st_stream (snd (create_in_app_and_outbox_for_alert e a esc old s)) = st_stream s @ [ev] \<and>
      sq_stream (snd (create_in_app_and_outbox_for_alert e a esc old s)) = Suc (sq_stream s))"
  by (auto simp: create_in_app_and_outbox_for_alert_def alert_in_app_def dispatched_event_def
        Let_def dest: truthy_nat_Some split: option.splits prod.splits)

lemma mark_as_read_frame [frame, simp]:
  "st_alerts (snd (mark_as_read e uuid u s)) = st_alerts s"
  "st_incidents (snd (mark_as_read e uuid u s)) = st_incidents s"
  by (simp_all add: mark_as_read_def publish_unread_def Let_def split: option.splits)

lemma mark_as_read_ids [keeps, simp]:
  "store_ids s \<Longrightarrow> store_ids (snd (mark_as_read e uuid u s))"
  by (auto simp: mark_as_read_def publish_unread_def Let_def intro!: keeps split: option.splits)

lemma mark_all_as_read_ids [keeps, simp]:
  "store_ids s \<Longrightarrow> store_ids (snd (mark_all_as_read e u s))"
  by (auto simp: mark_all_as_read_def publish_unread_def Let_def intro!: keeps)

lemma mark_all_notifications:
  "st_notifications (snd (mark_all_as_read e u s)) =
     map (\<lambda>n. if nf_user_id n = usr_id u then n\<lparr>nf_is_read := True\<rparr> else n) (st_notifications s)"
  by (auto simp: mark_all_as_read_def publish_unread_def Let_def upd_rows_def)

end
