(* ===== verification/PyNet.thy ===== *)
theory PyNet
  imports Prelude
begin

text \<open>
  What the suite uses of Python's \<open>str\<close> methods, \<open>urllib.parse.urlparse\<close> and \<open>ipaddress\<close>, on
  ASCII text: splitting and partitioning, the fields \<open>hostname\<close>, \<open>path\<close> and \<open>query\<close> of a parsed
  URL, and parsing and printing of IPv4 and IPv6 addresses.  \<open>None\<close> stands for \<open>ValueError\<close>.
  Encoding to IDNA leaves ASCII text alone, so it does not appear.
\<close>

subsection \<open>Splitting\<close>

fun split_on :: "char \<Rightarrow> string \<Rightarrow> string list" where
  \<comment> \<open>\<open>s.split(c)\<close>\<close>
  "split_on c [] = [[]]"
| "split_on c (x # xs) =
     (if x = c then [] # split_on c xs
      else case split_on c xs of [] \<Rightarrow> [[x]] | p # ps \<Rightarrow> (x # p) # ps)"

definition before :: "(char \<Rightarrow> bool) \<Rightarrow> string \<Rightarrow> string" where
  \<comment> \<open>the text up to the first character that satisfies \<open>p\<close>\<close>
  "before p s = takeWhile (\<lambda>c. \<not> p c) s"

definition after :: "(char \<Rightarrow> bool) \<Rightarrow> string \<Rightarrow> string" where
  \<comment> \<open>the text after that character, empty when there is none\<close>
  "after p s = drop 1 (dropWhile (\<lambda>c. \<not> p c) s)"

definition after_last :: "char \<Rightarrow> string \<Rightarrow> string" where
  \<comment> \<open>\<open>s.rpartition(c)[2]\<close>\<close>
  "after_last c s = rev (before (\<lambda>x. x = c) (rev s))"

definition rstrip_char :: "char \<Rightarrow> string \<Rightarrow> string" where
  "rstrip_char c s = rev (dropWhile (\<lambda>x. x = c) (rev s))"

definition ends_with :: "string \<Rightarrow> string \<Rightarrow> bool" where
  "ends_with suffix s = starts_with (rev suffix) (rev s)"

lemma split_on_nonempty [simp]: "split_on c s \<noteq> []"
  by (induction s) (auto split: list.splits)

lemma split_on_no_sep: "p \<in> set (split_on c s) \<Longrightarrow> c \<notin> set p"
  by (induction s arbitrary: p) (auto split: if_splits list.splits)

lemma takeWhile_no_sep: "c \<notin> set (before (\<lambda>x. x = c) s)"
  by (auto simp: before_def dest: set_takeWhileD)

subsection \<open>Internet addresses\<close>

definition digit_value :: "char \<Rightarrow> int option" where
  "digit_value c = (let n = of_char c :: int in if 48 \<le> n \<and> n \<le> 57 then Some (n - 48) else None)"

definition hex_value :: "char \<Rightarrow> int option" where
  "hex_value c =
     (let n = of_char c :: int
      in if 48 \<le> n \<and> n \<le> 57 then Some (n - 48)
         else if 97 \<le> n \<and> n \<le> 102 then Some (n - 87)
         else if 65 \<le> n \<and> n \<le> 70 then Some (n - 55) else None)"

fun read_base :: "(char \<Rightarrow> int option) \<Rightarrow> int \<Rightarrow> int \<Rightarrow> string \<Rightarrow> int option" where
  "read_base val b acc [] = Some acc"
| "read_base val b acc (c # cs) =
     (case val c of None \<Rightarrow> None | Some d \<Rightarrow> read_base val b (acc * b + d) cs)"

lemma read_base_chars: "read_base val b acc s = Some n \<Longrightarrow> \<forall>c\<in>set s. val c \<noteq> None"
  by (induction s arbitrary: acc) (auto split: option.splits)

definition parse_octet :: "string \<Rightarrow> int option" where
  "parse_octet s =
     (if s = [] \<or> length s > 3 \<or> (s \<noteq> ''0'' \<and> hd s = CHR ''0'') then None
      else case read_base digit_value 10 0 s of
             None \<Rightarrow> None | Some n \<Rightarrow> if n > 255 then None else Some n)"

definition parse_hextet :: "string \<Rightarrow> int option" where
  "parse_hextet s = (if s = [] \<or> length s > 4 then None else read_base hex_value 16 0 s)"

fun options :: "'a option list \<Rightarrow> 'a list option" where
  "options [] = Some []"
| "options (None # xs) = None"
| "options (Some x # xs) = map_option (Cons x) (options xs)"

datatype ip_address =
    IPv4 "int list" \<comment> \<open>four octets\<close>
  | IPv6 "int list" "string option" \<comment> \<open>eight hextets and a scope id\<close>

definition parse_ipv4 :: "string \<Rightarrow> int list option" where
  "parse_ipv4 s =
     (let ps = split_on (CHR ''.'') s
      in if length ps = 4 then options (map parse_octet ps) else None)"

definition expand_ipv6 :: "string list \<Rightarrow> int list \<Rightarrow> int list option" where
  \<comment> \<open>\<open>tail\<close> holds the two hextets of a dotted IPv4 tail, if there was one; \<open>ps\<close> the rest\<close>
  "expand_ipv6 ps tail =
     (let mids = filter (\<lambda>i. 1 \<le> i \<and> i + 1 < length ps + length tail \<and> i < length ps \<and> ps ! i = [])
                   [0..<length ps];
          total = length ps + length tail
      in if total > 9 then None
         else case mids of
           [] \<Rightarrow>
             if total \<noteq> 8 then None
             else map_option (\<lambda>hs. hs @ tail) (options (map parse_hextet ps))
         | [k] \<Rightarrow>
             let hi = take k ps; lo = drop (Suc k) ps;
                 hi' = (if hi \<noteq> [] \<and> hd hi = [] then tl hi else hi);
                 lo' = (if tail = [] \<and> lo \<noteq> [] \<and> last lo = [] then butlast lo else lo);
                 bad_hi = hi \<noteq> [] \<and> hd hi = [] \<and> hi' \<noteq> [];
                 bad_lo = tail = [] \<and> lo \<noteq> [] \<and> last lo = [] \<and> lo' \<noteq> [];
                 n = length hi' + length lo' + length tail
             in if bad_hi \<or> bad_lo \<or> n > 7 then None
                else (case (options (map parse_hextet hi'), options (map parse_hextet lo')) of
                        (Some h, Some l) \<Rightarrow> Some (h @ replicate (8 - n) 0 @ l @ tail)
                      | _ \<Rightarrow> None)
         | _ \<Rightarrow> None)"

definition parse_hextets :: "string \<Rightarrow> int list option" where
  "parse_hextets s =
     (let ps = split_on (CHR '':'') s
      in if length ps < 3 then None
         else if CHR ''.'' \<in> set (last ps) then
           case parse_ipv4 (last ps) of
             Some [a, b, c, d] \<Rightarrow> expand_ipv6 (butlast ps) [a * 256 + b, c * 256 + d]
           | _ \<Rightarrow> None
         else expand_ipv6 ps [])"

definition parse_ip :: "string \<Rightarrow> ip_address option" where
  \<comment> \<open>\<open>ipaddress.ip_address\<close>\<close>
  "parse_ip s =
     (case parse_ipv4 s of
        Some os \<Rightarrow> Some (IPv4 os)
      | None \<Rightarrow>
          let addr = before (\<lambda>c. c = CHR ''%'') s; scope = after (\<lambda>c. c = CHR ''%'') s
          in if CHR ''%'' \<in> set s \<and> (scope = [] \<or> CHR ''%'' \<in> set scope) then None
             else map_option (\<lambda>hs. IPv6 hs (if CHR ''%'' \<in> set s then Some scope else None))
                    (parse_hextets addr))"

definition ipv4_mapped :: "ip_address \<Rightarrow> ip_address" where
  \<comment> \<open>the embedded address of \<open>::ffff:a.b.c.d\<close>, any other address itself\<close>
  "ipv4_mapped ip =
     (case ip of
        IPv6 [a, b, c, d, e, m, h, l] sc \<Rightarrow>
          if [a, b, c, d, e, m] = [0, 0, 0, 0, 0, 65535] then IPv4 [h div 256, h mod 256, l div 256, l mod 256] else ip
      | _ \<Rightarrow> ip)"

fun join :: "string \<Rightarrow> string list \<Rightarrow> string" where
  "join sep [] = []"
| "join sep [p] = p"
| "join sep (p # ps) = p @ sep @ join sep ps"

definition hex_digit :: "int \<Rightarrow> char" where
  "hex_digit n = (if n < 10 then digit (nat n) else char_of (87 + n))"

definition show_hextet :: "int \<Rightarrow> string" where
  "show_hextet n =
     (let ds = [n div 4096 mod 16, n div 256 mod 16, n div 16 mod 16, n mod 16];
          sig = dropWhile (\<lambda>d. d = 0) ds
      in if sig = [] then ''0'' else map hex_digit sig)"

definition zero_run :: "int list \<Rightarrow> nat \<Rightarrow> nat" where
  "zero_run hs i = length (takeWhile (\<lambda>h. h = 0) (drop i hs))"

definition best_run :: "int list \<Rightarrow> nat \<times> nat" where
  \<comment> \<open>start and length of the first longest run of zero hextets\<close>
  "best_run hs = fold (\<lambda>i (st, n). if zero_run hs i > n then (i, zero_run hs i) else (st, n))
                   [0..<length hs] (0, 0)"

definition show_ip :: "ip_address \<Rightarrow> string" where
  "show_ip ip =
     (case ip of
        IPv4 os \<Rightarrow> join ''.'' (map (\<lambda>b. show_nat (nat b)) os)
      | IPv6 hs sc \<Rightarrow>
          let (st, n) = best_run hs;
              body = (if n > 1
                      then join '':'' (map show_hextet (take st hs)) @ ''::''
                           @ join '':'' (map show_hextet (drop (st + n) hs))
                      else join '':'' (map show_hextet hs))
          in body @ (case sc of None \<Rightarrow> [] | Some z \<Rightarrow> ''%'' @ z))"

lemma parse_ip_examples:
  "parse_ip ''192.168.1.1'' = Some (IPv4 [192, 168, 1, 1])"
  "parse_ip ''192.168.01.1'' = None"
  "parse_ip ''::1'' = Some (IPv6 [0, 0, 0, 0, 0, 0, 0, 1] None)"
  "map_option ipv4_mapped (parse_ip ''::ffff:10.0.0.1'') = Some (IPv4 [10, 0, 0, 1])"
  "map_option show_ip (parse_ip ''2001:db8:0:0:1:0:0:1'') = Some ''2001:db8::1:0:0:1''"
  "parse_ip ''1::2::3'' = None" "parse_ip '':::'' = None" "parse_ip ''::'' = Some (IPv6 [0,0,0,0,0,0,0,0] None)"
  "parse_ip ''example.com:80'' = None"
  by code_simp+

subsection \<open>URLs\<close>

text \<open>
  \<open>urlparse\<close>: leading control characters and blanks are dropped and tabs and newlines removed;
  the scheme is cut off when it has the form of one; \<open>//\<close> opens the network location; then the
  fragment, the query and (for schemes that have them) the parameters of the last path segment
  are cut off.  \<open>None\<close> is the \<open>ValueError\<close> of an unbalanced or invalid bracketed host.
\<close>

record url_parts =
  ur_scheme :: string
  ur_netloc :: string
  ur_path :: string
  ur_query :: string

definition is_alpha :: "char \<Rightarrow> bool" where
  "is_alpha c = (let n = of_char c :: nat in (65 \<le> n \<and> n \<le> 90) \<or> (97 \<le> n \<and> n \<le> 122))"

definition is_scheme_char :: "char \<Rightarrow> bool" where
  "is_scheme_char c = (is_alpha c \<or> digit_value c \<noteq> None \<or> c \<in> {CHR ''+'', CHR ''-'', CHR ''.''})"

definition clean_url :: "string \<Rightarrow> string" where
  "clean_url s =
     filter (\<lambda>c. c \<notin> {CHR 9, CHR 10, CHR 13}) (dropWhile (\<lambda>c. (of_char c :: nat) \<le> 32) s)"

definition split_scheme :: "string \<Rightarrow> string \<times> string" where
  "split_scheme s =
     (let sch = before (\<lambda>c. c = CHR '':'') s
      in if CHR '':'' \<in> set s \<and> sch \<noteq> [] \<and> is_alpha (hd sch) \<and> list_all is_scheme_char sch
         then (str_lower sch, after (\<lambda>c. c = CHR '':'') s) else ([], s))"

definition uses_params :: "string list" where
  "uses_params = ['''', ''ftp'', ''hdl'', ''prospero'', ''http'', ''https'', ''shttp'', ''rtsp'',
     ''rtspu'', ''sip'', ''sips'', ''mms'', ''sftp'', ''tel'']"

definition cut_params :: "string \<Rightarrow> string" where
  \<comment> \<open>drop \<open>;params\<close> from the last segment of a path\<close>
  "cut_params p =
     (let seg = after_last (CHR ''/'') p; dir = take (length p - length seg) p
      in dir @ before (\<lambda>c. c = CHR '';'') seg)"

definition bracketed_ok :: "string \<Rightarrow> bool" where
  "bracketed_ok netloc =
     (let host = before (\<lambda>c. c = CHR '']'') (after (\<lambda>c. c = CHR ''['') (after_last (CHR ''@'') netloc))
      in if CHR ''['' \<in> set netloc \<and> CHR '']'' \<in> set netloc
         then (case parse_ip host of Some (IPv6 hs sc) \<Rightarrow> True | _ \<Rightarrow> False)
         else CHR ''['' \<notin> set netloc \<and> CHR '']'' \<notin> set netloc)"

definition urlparse :: "string \<Rightarrow> url_parts option" where
  "urlparse s =
     (let (sch, rest) = split_scheme (clean_url s);
          has_netloc = starts_with ''//'' rest;
          delim = (\<lambda>c. c \<in> {CHR ''/'', CHR ''?'', CHR ''#''});
          netloc = (if has_netloc then before delim (drop 2 rest) else []);
          body = (if has_netloc then dropWhile (\<lambda>c. \<not> delim c) (drop 2 rest) else rest);
          nofrag = before (\<lambda>c. c = CHR ''#'') body;
          path = before (\<lambda>c. c = CHR ''?'') nofrag;
          query = after (\<lambda>c. c = CHR ''?'') nofrag
      in if has_netloc \<and> \<not> bracketed_ok netloc then None
         else Some \<lparr>ur_scheme = sch, ur_netloc = netloc,
                ur_path = (if sch \<in> set uses_params then cut_params path else path),
                ur_query = query\<rparr>)"

definition url_hostname :: "url_parts \<Rightarrow> string option" where
  "url_hostname u =
     (let hi = after_last (CHR ''@'') (ur_netloc u);
          h = (if CHR ''['' \<in> set hi
               then before (\<lambda>c. c = CHR '']'') (after (\<lambda>c. c = CHR ''['') hi)
               else before (\<lambda>c. c = CHR '':'') hi);
          z = dropWhile (\<lambda>c. c \<noteq> CHR ''%'') h
      in if h = [] then None else Some (str_lower (before (\<lambda>c. c = CHR ''%'') h) @ z))"

lemma urlparse_examples:
  "map_option url_hostname (urlparse ''https://bob@Evil.example.com:8443/a/b;p?q=1#f'')
     = Some (Some ''evil.example.com'')"
  "map_option ur_path (urlparse ''https://bob@Evil.example.com:8443/a/b;p?q=1#f'') = Some ''/a/b''"
  "map_option ur_query (urlparse ''https://bob@Evil.example.com:8443/a/b;p?q=1#f'') = Some ''q=1''"
  "map_option url_hostname (urlparse ''http://[::1]:80/x'') = Some (Some ''::1'')"
  "urlparse ''http://[::1/x'' = None"
  by code_simp+

subsection \<open>Numbers and UUIDs\<close>

text \<open>
  \<open>int(s)\<close> and \<open>int(s, 16)\<close>: blanks around, a sign, (in base 16) a prefix \<open>0x\<close>, digits with
  single underscores between them; and \<open>uuid.UUID(s)\<close>, which drops \<open>urn:\<close>, \<open>uuid:\<close>, braces and
  hyphens and wants 32 hexadecimal digits.
\<close>

fun read_digits :: "(char \<Rightarrow> int option) \<Rightarrow> int \<Rightarrow> int \<Rightarrow> string \<Rightarrow> int option" where
  "read_digits val b acc [] = Some acc"
| "read_digits val b acc (c # cs) =
     (case (if c = CHR ''_'' then cs else c # cs) of
        [] \<Rightarrow> None
      | d # ds \<Rightarrow> (case val d of None \<Rightarrow> None
          | Some v \<Rightarrow> if c = CHR ''_'' then (case cs of [] \<Rightarrow> None | _ # ys \<Rightarrow> read_digits val b (acc * b + v) ys)
                      else read_digits val b (acc * b + v) cs))"

definition py_int :: "(char \<Rightarrow> int option) \<Rightarrow> int \<Rightarrow> string \<Rightarrow> int option" where
  "py_int val b s =
     (let t = str_strip s;
          neg = starts_with ''-'' t;
          u = (if neg \<or> starts_with ''+'' t then tl t else t);
          w = (if b = 16 \<and> (starts_with ''0x'' u \<or> starts_with ''0X'' u) then drop 2 u else u)
      in case w of [] \<Rightarrow> None
         | c # cs \<Rightarrow>
             (case (if c = CHR ''_'' \<and> w = u then None else read_digits val b 0 w) of
                None \<Rightarrow> None | Some n \<Rightarrow> Some (if neg then - n else n)))"

fun remove_sub :: "nat \<Rightarrow> string \<Rightarrow> string \<Rightarrow> string" where
  \<comment> \<open>\<open>s.replace(p, '')\<close>; the counter bounds the number of replacements by the length\<close>
  "remove_sub 0 p s = s"
| "remove_sub (Suc n) p [] = []"
| "remove_sub (Suc n) p (c # cs) =
     (if starts_with p (c # cs) then remove_sub n p (drop (length p) (c # cs))
      else c # remove_sub n p cs)"

definition is_uuid :: "string \<Rightarrow> bool" where
  "is_uuid s =
     (let t = remove_sub (length s) ''uuid:'' (remove_sub (length s) ''urn:'' s);
          braces = (\<lambda>c. c = CHR ''{'' \<or> c = CHR ''}'');
          u = rev (dropWhile braces (rev (dropWhile braces t)));
          h = filter (\<lambda>c. c \<noteq> CHR ''-'') u
      in length h = 32 \<and> py_int hex_value 16 h \<noteq> None)"

lemma py_int_examples:
  "py_int digit_value 10 '' 42 '' = Some 42" "py_int digit_value 10 ''-7'' = Some (- 7)"
  "py_int digit_value 10 ''1_000'' = Some 1000" "py_int digit_value 10 ''_1'' = None"
  "py_int digit_value 10 ''1__0'' = None" "py_int digit_value 10 ''12a'' = None"
  "py_int digit_value 10 '''' = None"
  "is_uuid ''9f0c1d2e-3a4b-4c5d-8e6f-7a8b9c0d1e2f''" "\<not> is_uuid ''abc''"
  by code_simp+

end
