(* ===== verification/Domain.thy ===== *)
theory Domain
  imports PyNet
begin

text \<open>
  \<open>backend/utils/domain.py\<close>: canonical domain normalisation.  The Public Suffix List lookup
  \<open>tldextract.extract\<close> is the parameter \<open>psl\<close>, which gives the registered domain and the
  subdomain of a host (either may be empty).
\<close>

record norm_domain =
  nd_raw :: string
  nd_registered_domain :: "string option"
  nd_fqdn :: "string option"
  nd_path :: string
  nd_is_ip :: bool
  nd_is_shared_infra :: bool

definition SHARED_INFRASTRUCTURE_DOMAINS :: "string list" where
  "SHARED_INFRASTRUCTURE_DOMAINS =
     [''github.io'', ''workers.dev'', ''vercel.app'', ''netlify.app'', ''awsapprunner.com'',
      ''herokuapp.com'', ''azurewebsites.net'', ''cloudfront.net'', ''firebaseapp.com'',
      ''pages.dev'']"

definition clean_input :: "string \<Rightarrow> string" where
  \<comment> \<open>\<open>raw_input.strip().lower().rstrip(".")\<close>\<close>
  "clean_input raw = rstrip_char (CHR ''.'') (str_lower (str_strip raw))"

definition strip_ipv6_brackets :: "string \<Rightarrow> string" where
  "strip_ipv6_brackets s =
     (if starts_with ''['' s \<and> CHR '']'' \<in> set s then before (\<lambda>c. c = CHR '']'') (tl s) else s)"

definition host_and_path :: "string \<Rightarrow> string \<times> string" where
  "host_and_path s =
     (if CHR ''/'' \<in> set s then
        case urlparse (if contains ''://'' s then s else ''http://'' @ s) of
          None \<Rightarrow> (s, ''/'')
        | Some u \<Rightarrow>
            let p = (if ur_path u = [] then ''/'' else ur_path u)
            in (case url_hostname u of None \<Rightarrow> s | Some h \<Rightarrow> h,
                if ur_query u = [] then p else p @ ''?'' @ ur_query u)
      else (strip_ipv6_brackets s, ''/''))"

definition unbracket :: "string \<Rightarrow> string" where
  "unbracket s = (if starts_with ''['' s \<and> ends_with '']'' s then butlast (tl s) else s)"

definition strip_port :: "string \<Rightarrow> string" where
  "strip_port s =
     (if CHR '':'' \<in> set s \<and> \<not> starts_with ''['' s \<and> \<not> ends_with '']'' s \<and> parse_ip s = None
      then before (\<lambda>c. c = CHR '':'') s else s)"

definition empty_norm :: "string \<Rightarrow> norm_domain" where
  "empty_norm raw =
     \<lparr>nd_raw = raw, nd_registered_domain = None, nd_fqdn = None, nd_path = ''/'',
      nd_is_ip = False, nd_is_shared_infra = False\<rparr>"

definition normalize_canonical_domain ::
  "(string \<Rightarrow> string \<times> string) \<Rightarrow> string \<Rightarrow> norm_domain" where
  "normalize_canonical_domain psl raw =
     (let s0 = clean_input raw
      in if raw = [] \<or> s0 = [] then empty_norm raw
         else
           let (h0, path) = host_and_path s0;
               h = strip_port (unbracket h0)
           in case parse_ip h of
                Some ip \<Rightarrow>
                  let t = show_ip (ipv4_mapped ip)
                  in \<lparr>nd_raw = raw, nd_registered_domain = Some t, nd_fqdn = Some t,
                      nd_path = path, nd_is_ip = True, nd_is_shared_infra = False\<rparr>
              | None \<Rightarrow>
                  let (rd, sub) = psl h;
                      reg = (if rd = [] then None else Some (str_lower rd));
                      sub' = str_lower sub
                  in \<lparr>nd_raw = raw, nd_registered_domain = reg,
                      nd_fqdn =
                        (case reg of
                           Some r \<Rightarrow> Some (if sub' = [] then r else sub' @ ''.'' @ r)
                         | None \<Rightarrow> if h = [] then None else Some h),
                      nd_path = path, nd_is_ip = False,
                      nd_is_shared_infra =
                        (case reg of None \<Rightarrow> False
                         | Some r \<Rightarrow> r \<in> set SHARED_INFRASTRUCTURE_DOMAINS)\<rparr>)"

subsection \<open>Shape of the result\<close>

lemma join_nonempty: "length ps \<ge> 2 \<Longrightarrow> sep \<noteq> [] \<Longrightarrow> join sep ps \<noteq> []"
  by (cases ps; cases "tl ps") auto

lemma options_length: "options xs = Some ys \<Longrightarrow> length ys = length xs"
  by (induction xs arbitrary: ys rule: options.induct) auto

lemma parse_ipv4_length: "parse_ipv4 s = Some os \<Longrightarrow> length os = 4"
  by (auto simp: parse_ipv4_def Let_def dest: options_length split: if_splits)

lemma expand_ipv6_length: "expand_ipv6 ps tl4 = Some hs \<Longrightarrow> length hs = 8"
  by (auto simp: expand_ipv6_def Let_def dest!: options_length split: if_splits list.splits option.splits)

lemma parse_hextets_length: "parse_hextets s = Some hs \<Longrightarrow> length hs = 8"
  by (auto simp: parse_hextets_def Let_def dest: expand_ipv6_length
        split: if_splits list.splits option.splits)

definition ip_ok :: "ip_address \<Rightarrow> bool" where
  "ip_ok ip = (case ip of IPv4 os \<Rightarrow> length os = 4 | IPv6 hs sc \<Rightarrow> length hs = 8)"

lemma parse_ip_ok: "parse_ip s = Some ip \<Longrightarrow> ip_ok ip"
  by (auto simp: parse_ip_def ip_ok_def Let_def dest: parse_ipv4_length parse_hextets_length
        split: if_splits option.splits)

lemma mapped_ok: "ip_ok ip \<Longrightarrow> ip_ok (ipv4_mapped ip)"
  by (auto simp: ip_ok_def ipv4_mapped_def split: ip_address.splits list.splits)

lemma show_ip_nonempty: "ip_ok ip \<Longrightarrow> show_ip ip \<noteq> []"
  by (cases ip) (auto simp: ip_ok_def show_ip_def Let_def join_nonempty split: prod.splits)

definition norm_ok :: "norm_domain \<Rightarrow> bool" where
  "norm_ok n \<longleftrightarrow>
     nd_registered_domain n \<noteq> Some [] \<and>
     (nd_is_ip n \<longrightarrow> nd_registered_domain n \<noteq> None \<and> nd_fqdn n = nd_registered_domain n \<and>
        \<not> nd_is_shared_infra n) \<and>
     (nd_is_shared_infra n \<longleftrightarrow> \<not> nd_is_ip n \<and>
        (\<exists>r\<in>set SHARED_INFRASTRUCTURE_DOMAINS. nd_registered_domain n = Some r)) \<and>
     (\<forall>r. nd_registered_domain n = Some r \<longrightarrow> (\<exists>f. nd_fqdn n = Some f \<and> ends_with r f))"

lemma starts_with_append [simp]: "starts_with p (p @ s)"
  by (induction p) auto

lemma starts_with_refl [simp]: "starts_with p p"
  using starts_with_append [of p "[]"] by simp

lemma ends_with_refl [simp]: "ends_with r r"
  by (simp add: ends_with_def)

lemma ends_with_append [simp]: "ends_with r (xs @ r)"
  by (simp add: ends_with_def)

lemma ends_with_dotted [simp]: "ends_with r (xs @ c # r)"
  using ends_with_append [of r "xs @ [c]"] by simp

lemma normalize_norm_ok: "norm_ok (normalize_canonical_domain psl raw)"
  by (auto simp: normalize_canonical_domain_def norm_ok_def empty_norm_def Let_def str_lower_def
        dest!: parse_ip_ok dest: show_ip_nonempty [OF mapped_ok]
        split: prod.splits option.splits if_splits)

text \<open>
  The normal form of an indicator.  The registered domain is never the empty text, the host
  name ends with it, an IP literal is its own domain and host and is never shared
  infrastructure, and the shared flag is set exactly for the listed domains.
\<close>

theorem normalize_canonical_domain_wf: "norm_ok (normalize_canonical_domain psl raw)"
  by (rule normalize_norm_ok)

text \<open>
  An IPv4 address and its IPv4-mapped IPv6 form (\<open>::ffff:a.b.c.d\<close>, bare or in brackets) have
  the same normal form but for the raw text, on the loopback and on a private address.
\<close>

theorem ipv4_mapped_same_domain:
  "let f = (\<lambda>s. (normalize_canonical_domain psl s)\<lparr>nd_raw := []\<rparr>) in
     f ''::ffff:127.0.0.1'' = f ''127.0.0.1'' \<and> f ''[::ffff:127.0.0.1]'' = f ''127.0.0.1'' \<and>
     f ''http://[::FFFF:10.0.0.1]:8080/'' = f ''http://10.0.0.1/''"
proof -
  have e: "normalize_canonical_domain psl s =
      (if parse_ip (strip_port (unbracket (fst (host_and_path (clean_input s))))) = None
       then normalize_canonical_domain psl s
       else normalize_canonical_domain (\<lambda>_. ([], [])) s)" for s
    by (auto simp: normalize_canonical_domain_def Let_def split: prod.splits option.splits)
  have p: "parse_ip (strip_port (unbracket (fst (host_and_path (clean_input s))))) \<noteq> None"
    if "s \<in> {''::ffff:127.0.0.1'', ''127.0.0.1'', ''[::ffff:127.0.0.1]'',
      ''http://[::FFFF:10.0.0.1]:8080/'', ''http://10.0.0.1/''}" for s
    using that by (elim insertE emptyE; hypsubst; code_simp)
  show ?thesis
    unfolding Let_def
    by (subst (1 2 3 4 5 6) e) (simp add: p, code_simp)
qed

end
