(* ===== verification/Samples.thy ===== *)
theory Samples
  imports Models
begin

text \<open>
  Concrete inputs for the witnesses: clock readings with pairwise different uuids, two tenants
  and an administrator, a Public Suffix List that knows one domain, and events.
\<close>

definition sample_env :: "time \<Rightarrow> env" where
  "sample_env t = \<lparr>now = t, uuids = (\<lambda>i. ''uuid-'' @ replicate i (CHR ''x''))\<rparr>"

definition alice :: user where
  "alice = \<lparr>usr_id = 1, usr_role = ''user'', usr_is_active = True\<rparr>"

definition bob :: user where
  "bob = \<lparr>usr_id = 2, usr_role = ''user'', usr_is_active = True\<rparr>"

definition root_user :: user where
  "root_user = \<lparr>usr_id = 3, usr_role = ''admin'', usr_is_active = True\<rparr>"

definition sample_psl :: "string \<Rightarrow> string \<times> string" where
  "sample_psl h = (if h = ''www.evil.com'' then (''evil.com'', ''www'') else (h, []))"

definition sample_sha :: "string \<Rightarrow> string" where
  "sample_sha s = s"

definition sample_event :: "EventSeverity \<Rightarrow> nat option \<Rightarrow> SecurityEvent" where
  "sample_event sev uid =
     \<lparr>event_uuid = ''ev'', event_type = ZERO_DAY_DETECTED, ev_severity = sev, indicator_type = URL,
      indicator_value = ''http://evil.com/x'', ev_user_id = uid, ev_payload = [], ev_timestamp = 0\<rparr>"

lemmas sample_defs = sample_env_def alice_def bob_def root_user_def sample_event_def

lemma sample_users [simp]:
  "usr_id alice = 1" "usr_id bob = 2" "usr_id root_user = 3"
  "\<not> is_admin alice" "\<not> is_admin bob" "is_admin root_user"
  by (simp_all add: sample_defs is_admin_def)

lemma sample_env_simps [simp]:
  "now (sample_env t) = t"
  by (simp add: sample_env_def)

end
