(* ===== verification/Alerts.thy ===== *)
theory Alerts
  imports Notifications Domain Samples
begin

text \<open>
  \<open>backend/services/alert_service.py\<close>: fingerprints, the processing of a security event into a
  new or a deduplicated alert, the listing of alerts, the four triage operations and the
  telemetry.  The parameters are \<open>sha256\<close> (the hexadecimal digest), \<open>psl\<close> (\<open>tldextract\<close>) and, for
  \<open>process_event\<close>, \<open>race\<close>: \<open>None\<close> when the insert commits, \<open>Some s'\<close> when it fails and \<open>s'\<close> is the
  store that other sessions have committed by then.
\<close>

datatype alert_error =
    AlertNotFoundError
  | AlertInvalidTransitionError
  | AlertValidationError
  | AlertStatusValueError \<comment> \<open>\<open>AlertStatus(alert.status)\<close> of an unknown status\<close>
  | AlertInsertError \<comment> \<open>the exception of the failed insert, raised again\<close>

definition ALERT_DEDUPLICATION_WINDOW_MIN :: int where
  "ALERT_DEDUPLICATION_WINDOW_MIN = 15"

subsection \<open>Fingerprints\<close>

definition fingerprint_key ::
  "(string \<Rightarrow> string \<times> string) \<Rightarrow> string \<Rightarrow> string \<Rightarrow> string \<Rightarrow> nat option \<Rightarrow> string" where
  "fingerprint_key psl rule itype ivalue uid =
     (let n = normalize_canonical_domain psl ivalue;
          domain = (case str_or (nd_registered_domain n) (nd_fqdn n) of None \<Rightarrow> '''' | Some d \<Rightarrow> d);
          path = (if nd_path n = [] then ''/'' else nd_path n);
          usr = (case uid of None \<Rightarrow> ''SYSTEM'' | Some i \<Rightarrow> show_nat i)
      in str_upper rule @ '':'' @ str_upper itype @ '':'' @ str_lower (str_strip ivalue) @ '':''
           @ domain @ '':'' @ path @ '':'' @ usr)"

definition compute_fingerprint ::
  "(string \<Rightarrow> string) \<Rightarrow> (string \<Rightarrow> string \<times> string) \<Rightarrow> string \<Rightarrow> string \<Rightarrow> string \<Rightarrow> nat option \<Rightarrow>
   string" where
  "compute_fingerprint sha256 psl rule itype ivalue uid =
     sha256 (fingerprint_key psl rule itype ivalue uid)"

subsection \<open>Auditing and publishing\<close>

definition create_audit_event ::
  "env \<Rightarrow> nat \<Rightarrow> string \<Rightarrow> nat option \<Rightarrow> string \<Rightarrow> string \<Rightarrow> dict \<Rightarrow> string option \<Rightarrow> audit" where
  "create_audit_event e i action actor res rid details ip =
     \<lparr>au_id = 0, au_uuid = uuids e i, au_action = action, au_actor_user_id = actor,
      au_target_resource = res, au_resource_id = rid, au_details = details, au_ip_address = ip,
      au_created_at = now e\<rparr>"

definition alert_soc_event ::
  "env \<Rightarrow> nat \<Rightarrow> nat option \<Rightarrow> string \<Rightarrow> string option \<Rightarrow> dict \<Rightarrow> soc_event" where
  "alert_soc_event e i uid etype agg payload =
     \<lparr>se_cursor_id = 0, se_event_id = uuids e i, se_tenant_id = tenant_of uid,
      se_channel = ''alerts'', se_event_type = etype, se_aggregate_id = agg,
      se_payload = payload, se_created_at = now e\<rparr>"

definition publish_of :: "soc_event \<Rightarrow> publish" where
  \<comment> \<open>the \<open>publish_event_nowait\<close> call made for a flushed stream row\<close>
  "publish_of ev =
     \<lparr>pb_cursor_id = se_cursor_id ev, pb_event_id = None, pb_tenant_id = se_tenant_id ev,
      pb_channel = se_channel ev, pb_event_type = se_event_type ev,
      pb_aggregate_id = se_aggregate_id ev, pb_payload = se_payload ev\<rparr>"

definition emit_soc :: "soc_event \<Rightarrow> store \<Rightarrow> store" where
  \<comment> \<open>add the stream row, flush, commit, then broadcast it under the cursor it was given\<close>
  "emit_soc ev s = publish_event (publish_of (ev\<lparr>se_cursor_id := sq_stream s\<rparr>)) (add_soc_event ev s)"

definition publish_notif :: "soc_event option \<Rightarrow> store \<Rightarrow> store" where
  \<comment> \<open>\<open>if notif_soc_event and notif_cursor_id\<close>\<close>
  "publish_notif nev s =
     (case nev of None \<Rightarrow> s
      | Some ev \<Rightarrow> if se_cursor_id ev \<noteq> 0 then publish_event (publish_of ev) s else s)"

subsection \<open>Processing an event\<close>

definition effective_rule :: "string option \<Rightarrow> SecurityEvent \<Rightarrow> string" where
  "effective_rule rule ev =
     (if truthy_str rule then the rule else ''RULE_'' @ EventType_value (event_type ev))"

definition active_statuses :: "string list" where
  "active_statuses = [AlertStatus_value A_OPEN, AlertStatus_value A_ACKNOWLEDGED]"

definition dedup_candidates ::
  "env \<Rightarrow> string \<Rightarrow> string \<Rightarrow> SecurityEvent \<Rightarrow> store \<Rightarrow> alert list" where
  "dedup_candidates e rule fp ev s =
     filter (\<lambda>a. al_rule_name a = rule \<and>
        al_indicator_type a = IndicatorType_value (indicator_type ev) \<and>
        al_status a \<in> set active_statuses \<and>
        al_last_seen_at a \<ge> now e - minutes ALERT_DEDUPLICATION_WINDOW_MIN \<and>
        al_user_id a = ev_user_id ev \<and>
        (al_fingerprint a = Some fp \<or> al_indicator_value a = indicator_value ev))
       (st_alerts s)"

definition dedup_update ::
  "env \<Rightarrow> string \<Rightarrow> SecurityEvent \<Rightarrow> nat option \<Rightarrow> alert \<Rightarrow> alert" where
  "dedup_update e fp ev inc a =
     a\<lparr>al_occurrence_count := al_occurrence_count a + 1, al_last_seen_at := now e,
       al_fingerprint := Some fp,
       al_severity := higher_severity (al_severity a) (EventSeverity_value (ev_severity ev)),
       al_incident_id :=
         (if truthy_nat inc \<and> \<not> truthy_nat (al_incident_id a) then inc else al_incident_id a)\<rparr>"

definition updated_payload :: "alert \<Rightarrow> bool option \<Rightarrow> dict" where
  \<comment> \<open>\<open>is_escalation\<close> is only in the payload of the deduplication branch\<close>
  "updated_payload a esc =
     [(''id'', JStr (al_uuid a)), (''target_id'', JNull), (''severity'', JStr (al_severity a)),
      (''status'', JStr (al_status a)),
      (''occurrence_count'', JInt (int (al_occurrence_count a)))] @
     (case esc of None \<Rightarrow> [] | Some b \<Rightarrow> [(''is_escalation'', JBool b)]) @
     [(''rule_name'', JStr (al_rule_name a)), (''indicator_value'', JStr (al_indicator_value a))]"

definition process_duplicate ::
  "env \<Rightarrow> string \<Rightarrow> SecurityEvent \<Rightarrow> nat option \<Rightarrow> alert \<Rightarrow> store \<Rightarrow> alert \<times> store" where
  "process_duplicate e fp ev inc a s =
     (let a' = dedup_update e fp ev inc a;
          esc = get_severity_rank (al_severity a') > get_severity_rank (al_severity a);
          s1 = set_alert (al_id a) (dedup_update e fp ev inc) s;
          (nev, s2) = (if esc
                       then create_in_app_and_outbox_for_alert e a' True (Some (al_severity a)) s1
                       else (None, s1));
          sev = alert_soc_event e 4 (al_user_id a') ''alert_updated'' (Some (al_uuid a'))
                  (updated_payload a' (Some esc))
      in (a', publish_notif nev (emit_soc sev s2)))"

definition new_alert ::
  "env \<Rightarrow> string \<Rightarrow> string \<Rightarrow> SecurityEvent \<Rightarrow> nat option \<Rightarrow> alert" where
  "new_alert e rule fp ev inc =
     \<lparr>al_id = 0, al_uuid = uuids e 3, al_title = rule @ '': '' @ take 64 (indicator_value ev),
      al_description = Some (''Security event '' @ EventType_value (event_type ev)
        @ '' triggered rule '' @ rule @ ''.''),
      al_severity = EventSeverity_value (ev_severity ev), al_status = AlertStatus_value A_OPEN,
      al_rule_name = rule, al_indicator_type = IndicatorType_value (indicator_type ev),
      al_indicator_value = indicator_value ev, al_fingerprint = Some fp,
      al_occurrence_count = 1, al_first_seen_at = now e, al_last_seen_at = now e,
      al_acknowledged_at = None, al_resolved_at = None, al_dismissed_at = None,
      al_dismiss_reason = None, al_triage_notes = None, al_user_id = ev_user_id ev,
      al_incident_id = inc\<rparr>"

text \<open>
  The uuid of a new alert is a column default, set when the row is flushed.  The session
  flushes automatically at the queries of \<open>create_in_app_and_outbox_for_alert\<close>, which are only
  reached for an alert with a (true) \<open>user_id\<close>; without one the payload is built from an object
  whose \<open>alert_uuid\<close> is still \<open>None\<close>.
\<close>

definition visible_uuid :: "alert \<Rightarrow> string option" where
  "visible_uuid a = (if truthy_nat (al_user_id a) then Some (al_uuid a) else None)"

definition created_payload :: "alert \<Rightarrow> dict" where
  "created_payload a =
     [(''id'', json_str (visible_uuid a)), (''target_id'', JNull),
      (''severity'', JStr (al_severity a)), (''status'', JStr (al_status a)),
      (''rule_name'', JStr (al_rule_name a)), (''indicator_type'', JStr (al_indicator_type a)),
      (''indicator_value'', JStr (al_indicator_value a)), (''occurrence_count'', JInt 1)]"

definition process_new ::
  "env \<Rightarrow> string \<Rightarrow> string \<Rightarrow> SecurityEvent \<Rightarrow> nat option \<Rightarrow> store \<Rightarrow> alert \<times> store" where
  "process_new e rule fp ev inc s =
     (let a = (new_alert e rule fp ev inc)\<lparr>al_id := sq_alert s\<rparr>;
          (nev, s2) = create_in_app_and_outbox_for_alert e a False None
                        (add_alert (new_alert e rule fp ev inc) s);
          sev = alert_soc_event e 4 (al_user_id a) ''alert_created'' (visible_uuid a)
                  (created_payload a)
      in (a, publish_notif nev (emit_soc sev s2)))"

definition retry_update :: "env \<Rightarrow> SecurityEvent \<Rightarrow> alert \<Rightarrow> alert" where
  "retry_update e ev a =
     a\<lparr>al_occurrence_count := al_occurrence_count a + 1, al_last_seen_at := now e,
       al_severity := higher_severity (al_severity a) (EventSeverity_value (ev_severity ev))\<rparr>"

definition process_retry ::
  "env \<Rightarrow> string \<Rightarrow> string \<Rightarrow> SecurityEvent \<Rightarrow> store \<Rightarrow> (alert_error + alert \<times> bool) \<times> store" where
  "process_retry e rule fp ev s =
     (case first_row (dedup_candidates e rule fp ev s) of
        None \<Rightarrow> (Inl AlertInsertError, s)
      | Some a \<Rightarrow>
          let a' = retry_update e ev a;
              s1 = set_alert (al_id a) (retry_update e ev) s;
              sev = alert_soc_event e 4 (al_user_id a') ''alert_updated'' (Some (al_uuid a'))
                      (updated_payload a' None)
          in (Inr (a', False), emit_soc sev s1))"

definition process_event ::
  "(string \<Rightarrow> string) \<Rightarrow> (string \<Rightarrow> string \<times> string) \<Rightarrow> store option \<Rightarrow> env \<Rightarrow> SecurityEvent \<Rightarrow>
   string option \<Rightarrow> nat option \<Rightarrow> store \<Rightarrow> (alert_error + alert \<times> bool) \<times> store" where
  "process_event sha256 psl race e ev rule inc s =
     (let rl = effective_rule rule ev;
          fp = compute_fingerprint sha256 psl rl (IndicatorType_value (indicator_type ev))
                 (indicator_value ev) (ev_user_id ev)
      in case first_desc al_last_seen_at (dedup_candidates e rl fp ev s) of
           Some a \<Rightarrow>
             let (a', s') = process_duplicate e fp ev inc a s in (Inr (a', False), s')
         | None \<Rightarrow>
             (case race of
                None \<Rightarrow> let (a, s') = process_new e rl fp ev inc s in (Inr (a, True), s')
              | Some s' \<Rightarrow> process_retry e rl fp ev s'))"

subsection \<open>Reading alerts\<close>

definition visible_alerts :: "user \<Rightarrow> store \<Rightarrow> alert list" where
  \<comment> \<open>the tenant scope every query carries: all rows for an admin\<close>
  "visible_alerts u s =
     filter (\<lambda>a. is_admin u \<or> al_user_id a = Some (usr_id u)) (st_alerts s)"

record alert_page =
  ap_items :: "alert list"
  ap_total :: nat
  ap_page :: int
  ap_page_size :: nat
  ap_has_next :: bool

definition str_filter :: "string option \<Rightarrow> (string \<Rightarrow> string) \<Rightarrow> string \<Rightarrow> bool" where
  \<comment> \<open>\<open>if arg: query.where(column == canon(arg))\<close>\<close>
  "str_filter arg canon col = (if truthy_str arg then col = canon (the arg) else True)"

definition list_alerts ::
  "user \<Rightarrow> int \<Rightarrow> nat \<Rightarrow> string option \<Rightarrow> string option \<Rightarrow> string option \<Rightarrow> string option \<Rightarrow>
   nat option \<Rightarrow> store \<Rightarrow> alert_page" where
  "list_alerts u page psize sev status rule itype inc s =
     (let up = (\<lambda>x. str_strip (str_upper x));
          q = filter (\<lambda>a. str_filter sev up (al_severity a) \<and> str_filter status up (al_status a) \<and>
                str_filter rule str_strip (al_rule_name a) \<and>
                str_filter itype up (al_indicator_type a) \<and>
                (case inc of None \<Rightarrow> True | Some i \<Rightarrow> al_incident_id a = Some i))
                (visible_alerts u s);
          off = nat (max 0 ((page - 1) * int psize))
      in \<lparr>ap_items = page_rows off psize (sort_key (\<lambda>a. - al_last_seen_at a) q),
          ap_total = length q, ap_page = page, ap_page_size = psize,
          ap_has_next = page * int psize < int (length q)\<rparr>)"

definition find_alert :: "string \<Rightarrow> user \<Rightarrow> store \<Rightarrow> alert option" where
  "find_alert uuid u s = first_row (filter (\<lambda>a. al_uuid a = str_strip uuid) (visible_alerts u s))"

definition get_alert_by_uuid :: "string \<Rightarrow> user \<Rightarrow> store \<Rightarrow> alert_error + alert" where
  "get_alert_by_uuid uuid u s =
     (case find_alert uuid u s of None \<Rightarrow> Inl AlertNotFoundError | Some a \<Rightarrow> Inr a)"

definition lock_and_get_alert :: "string \<Rightarrow> user \<Rightarrow> store \<Rightarrow> alert_error + alert" where
  "lock_and_get_alert uuid u s =
     (case find_alert uuid u s of None \<Rightarrow> Inl AlertNotFoundError | Some a \<Rightarrow> Inr a)"

subsection \<open>Triage\<close>

text \<open>
  The guard the four handlers open with: the row under the tenant scope, the idempotent
  self-transition (\<open>Inr (a, True)\<close>) and the lookup in the transition table.
\<close>

definition triage_guard ::
  "AlertStatus \<Rightarrow> string \<Rightarrow> user \<Rightarrow> store \<Rightarrow> alert_error + alert \<times> bool" where
  "triage_guard tgt uuid u s =
     (case lock_and_get_alert uuid u s of
        Inl err \<Rightarrow> Inl err
      | Inr a \<Rightarrow>
          if al_status a = AlertStatus_value tgt then Inr (a, True)
          else case AlertStatus_of (al_status a) of
                 None \<Rightarrow> Inl AlertStatusValueError
               | Some cur \<Rightarrow>
                   if tgt \<in> ALERT_STATUS_TRANSITIONS cur then Inr (a, False)
                   else Inl AlertInvalidTransitionError)"

definition set_notes :: "string option \<Rightarrow> alert \<Rightarrow> alert" where
  "set_notes notes a = (if truthy_str notes then a\<lparr>al_triage_notes := notes\<rparr> else a)"

text \<open>
  What the handlers end with: write the row, add the audit row, the notification (when the
  handler has one) and the stream row, flush, commit and broadcast.
\<close>

definition triage_commit ::
  "env \<Rightarrow> user \<Rightarrow> string option \<Rightarrow> string \<Rightarrow> dict \<Rightarrow> dict \<Rightarrow> alert \<Rightarrow> (alert \<Rightarrow> alert) \<Rightarrow>
   notification option \<Rightarrow> store \<Rightarrow> alert \<times> store" where
  "triage_commit e u ip action details payload a f nt s =
     (let s1 = set_alert (al_id a) f s;
          s2 = add_audit (create_audit_event e 0 action (Some (usr_id u)) ''alerts'' (al_uuid a)
                 details ip) s1;
          s3 = (case nt of None \<Rightarrow> s2 | Some n \<Rightarrow> add_notification n s2)
      in (f a, emit_soc (alert_soc_event e 1 (al_user_id a) ''alert_updated''
                 (Some (al_uuid a)) payload) s3))"

definition ack_update :: "env \<Rightarrow> string option \<Rightarrow> alert \<Rightarrow> alert" where
  "ack_update e notes a =
     set_notes notes (a\<lparr>al_status := AlertStatus_value A_ACKNOWLEDGED,
       al_acknowledged_at := Some (now e)\<rparr>)"

definition acknowledge_alert ::
  "env \<Rightarrow> string \<Rightarrow> user \<Rightarrow> string option \<Rightarrow> string option \<Rightarrow> string option \<Rightarrow> store \<Rightarrow>
   (alert_error + alert) \<times> store" where
  "acknowledge_alert e uuid u notes triage_notes ip s =
     (case triage_guard A_ACKNOWLEDGED uuid u s of
        Inl err \<Rightarrow> (Inl err, s)
      | Inr (a, True) \<Rightarrow> (Inr a, s)
      | Inr (a, False) \<Rightarrow>
          let eff = str_or triage_notes notes;
              details = [(''previous_status'', JStr (al_status a)),
                         (''new_status'', JStr ''ACKNOWLEDGED'')];
              payload = [(''id'', JStr (al_uuid a)), (''status'', JStr ''ACKNOWLEDGED''),
                (''previous_status'', JStr (al_status a)), (''severity'', JStr (al_severity a)),
                (''acknowledged_at'', JTime (now e)), (''notes'', json_str eff)];
              (a', s') = triage_commit e u ip ''ALERT_ACKNOWLEDGED'' details payload a
                           (ack_update e eff) None s
          in (Inr a', s'))"

definition resolve_update :: "env \<Rightarrow> string option \<Rightarrow> alert \<Rightarrow> alert" where
  "resolve_update e notes a =
     set_notes notes (a\<lparr>al_status := AlertStatus_value A_RESOLVED,
       al_resolved_at := Some (now e)\<rparr>)"

definition resolve_alert ::
  "env \<Rightarrow> string \<Rightarrow> user \<Rightarrow> string option \<Rightarrow> string option \<Rightarrow> string option \<Rightarrow> string option \<Rightarrow>
   store \<Rightarrow> (alert_error + alert) \<times> store" where
  "resolve_alert e uuid u notes resolution_notes triage_notes ip s =
     (case triage_guard A_RESOLVED uuid u s of
        Inl err \<Rightarrow> (Inl err, s)
      | Inr (a, True) \<Rightarrow> (Inr a, s)
      | Inr (a, False) \<Rightarrow>
          let eff = str_or (str_or resolution_notes triage_notes) notes;
              details = [(''previous_status'', JStr (al_status a)),
                         (''new_status'', JStr ''RESOLVED''), (''notes'', json_str eff)];
              payload = [(''id'', JStr (al_uuid a)), (''status'', JStr ''RESOLVED''),
                (''previous_status'', JStr (al_status a)), (''severity'', JStr (al_severity a)),
                (''resolved_at'', JTime (now e)), (''notes'', json_str eff)];
              (a', s') = triage_commit e u ip ''ALERT_RESOLVED'' details payload a
                           (resolve_update e eff) None s
          in (Inr a', s'))"

definition dismiss_update :: "env \<Rightarrow> string \<Rightarrow> string option \<Rightarrow> alert \<Rightarrow> alert" where
  "dismiss_update e reason notes a =
     set_notes notes (a\<lparr>al_status := AlertStatus_value A_DISMISSED,
       al_dismissed_at := Some (now e), al_dismiss_reason := Some reason\<rparr>)"

definition dismiss_alert ::
  "env \<Rightarrow> string \<Rightarrow> user \<Rightarrow> string option \<Rightarrow> string option \<Rightarrow> string option \<Rightarrow> string option \<Rightarrow>
   string option \<Rightarrow> store \<Rightarrow> (alert_error + alert) \<times> store" where
  "dismiss_alert e uuid u dismiss_reason reason triage_notes notes ip s =
     (let clean_reason = str_strip (the (str_or (str_or dismiss_reason reason) (Some [])));
          clean_notes = str_or triage_notes notes
      in if length clean_reason < 3 then (Inl AlertValidationError, s)
         else case triage_guard A_DISMISSED uuid u s of
           Inl err \<Rightarrow> (Inl err, s)
         | Inr (a, True) \<Rightarrow> (Inr a, s)
         | Inr (a, False) \<Rightarrow>
             let details = [(''previous_status'', JStr (al_status a)),
                   (''new_status'', JStr ''DISMISSED''), (''dismiss_reason'', JStr clean_reason)];
                 payload = [(''id'', JStr (al_uuid a)), (''status'', JStr ''DISMISSED''),
                   (''previous_status'', JStr (al_status a)), (''severity'', JStr (al_severity a)),
                   (''dismissed_at'', JTime (now e)), (''dismiss_reason'', JStr clean_reason),
                   (''notes'', json_str clean_notes)];
                 (a', s') = triage_commit e u ip ''ALERT_DISMISSED'' details payload a
                              (dismiss_update e clean_reason clean_notes) None s
             in (Inr a', s'))"

definition reopen_update :: "string option \<Rightarrow> alert \<Rightarrow> alert" where
  "reopen_update notes a =
     set_notes notes (a\<lparr>al_status := AlertStatus_value A_OPEN, al_resolved_at := None,
       al_dismissed_at := None, al_acknowledged_at := None, al_dismiss_reason := None\<rparr>)"

definition reopen_notification :: "env \<Rightarrow> nat \<Rightarrow> alert \<Rightarrow> notification" where
  "reopen_notification e uid a =
     \<lparr>nf_id = 0, nf_uuid = uuids e 2, nf_user_id = uid,
      nf_title = take 255 (''Alert Reopened: '' @ al_title a),
      nf_message = ''Alert '' @ al_uuid a @ '' was reopened. Triage resumed.'',
      nf_severity = al_severity a, nf_is_read = False,
      nf_link_url = Some (''/alerts/'' @ al_uuid a), nf_created_at = now e\<rparr>"

definition reopen_alert ::
  "env \<Rightarrow> string \<Rightarrow> user \<Rightarrow> string option \<Rightarrow> string option \<Rightarrow> string option \<Rightarrow> string option \<Rightarrow>
   store \<Rightarrow> (alert_error + alert) \<times> store" where
  "reopen_alert e uuid u reopen_notes notes triage_notes ip s =
     (case triage_guard A_OPEN uuid u s of
        Inl err \<Rightarrow> (Inl err, s)
      | Inr (a, True) \<Rightarrow> (Inr a, s)
      | Inr (a, False) \<Rightarrow>
          let eff = str_or (str_or reopen_notes triage_notes) notes;
              details = [(''previous_status'', JStr (al_status a)),
                         (''new_status'', JStr ''OPEN''), (''reopen_notes'', json_str eff)];
              payload = [(''id'', JStr (al_uuid a)), (''status'', JStr ''OPEN''),
                (''previous_status'', JStr (al_status a)), (''severity'', JStr (al_severity a)),
                (''notes'', json_str eff)];
              (a', s') = triage_commit e u ip ''ALERT_REOPENED'' details payload a
                           (reopen_update eff)
                           (map_option (\<lambda>uid. reopen_notification e uid a) (al_user_id a)) s
          in (Inr a', s'))"

subsection \<open>Telemetry\<close>

record AlertStatsResponse =
  total_alerts :: nat
  open_alerts :: nat
  acknowledged_alerts :: nat
  resolved_alerts :: nat
  dismissed_alerts :: nat
  by_severity :: "(string \<times> nat) list"
  by_status :: "(string \<times> nat) list"
  alerts_last_24h :: nat
  alert_velocity_per_hour :: rat
  dedup_savings_ratio :: rat

definition status_key :: "alert \<Rightarrow> string" where
  "status_key a = (if al_status a = [] then ''OPEN'' else str_upper (al_status a))"

definition severity_key :: "alert \<Rightarrow> string" where
  "severity_key a = (if al_severity a = [] then ''MEDIUM'' else str_upper (al_severity a))"

definition savings_ratio :: "nat \<Rightarrow> nat \<Rightarrow> rat" where
  "savings_ratio d n =
     (if n = 0 \<or> d = 0 then 0
      else max 0 (min 1 (py_round 4 (1 - of_nat d / of_nat n))))"

definition get_alert_stats :: "env \<Rightarrow> user \<Rightarrow> store \<Rightarrow> AlertStatsResponse" where
  "get_alert_stats e u s =
     (let all = visible_alerts u s;
          st = count_rows status_key [''OPEN'', ''ACKNOWLEDGED'', ''RESOLVED'', ''DISMISSED''] all;
          n = (\<lambda>k. the (map_of st k));
          recent = filter (\<lambda>a. al_last_seen_at a \<ge> now e - hours 24) all;
          d = length recent
      in \<lparr>total_alerts = length all, open_alerts = n ''OPEN'',
          acknowledged_alerts = n ''ACKNOWLEDGED'', resolved_alerts = n ''RESOLVED'',
          dismissed_alerts = n ''DISMISSED'',
          by_severity = count_rows severity_key [''CRITICAL'', ''HIGH'', ''MEDIUM'', ''LOW'', ''INFO''] all,
          by_status = st, alerts_last_24h = d,
          alert_velocity_per_hour = py_round 2 (of_nat d / 24),
          dedup_savings_ratio = savings_ratio d (sum_list (map al_occurrence_count recent))\<rparr>)"

subsection \<open>Frames\<close>

lemma emit_soc_frame [frame, simp]:
  "st_alerts (emit_soc ev s) = st_alerts s" "st_incidents (emit_soc ev s) = st_incidents s"
  "st_targets (emit_soc ev s) = st_targets s" "st_audits (emit_soc ev s) = st_audits s"
  "st_prefs (emit_soc ev s) = st_prefs s" "st_outbox (emit_soc ev s) = st_outbox s"
  "st_notifications (emit_soc ev s) = st_notifications s"
  "st_stream (emit_soc ev s) = st_stream s @ [ev\<lparr>se_cursor_id := sq_stream s\<rparr>]"
  "st_bus (emit_soc ev s) = st_bus s @ [publish_of (ev\<lparr>se_cursor_id := sq_stream s\<rparr>)]"
  "sq_stream (emit_soc ev s) = Suc (sq_stream s)" "sq_alert (emit_soc ev s) = sq_alert s"
  by (simp_all add: emit_soc_def)

lemma emit_soc_ids [keeps, simp]: "store_ids s \<Longrightarrow> store_ids (emit_soc ev s)"
  by (simp add: emit_soc_def)

lemma publish_notif_frame [frame, simp]:
  "st_alerts (publish_notif nev s) = st_alerts s"
  "st_incidents (publish_notif nev s) = st_incidents s"
  "st_targets (publish_notif nev s) = st_targets s"
  "st_audits (publish_notif nev s) = st_audits s"
  "st_outbox (publish_notif nev s) = st_outbox s"
  "st_stream (publish_notif nev s) = st_stream s"
  "st_notifications (publish_notif nev s) = st_notifications s"
  "sq_stream (publish_notif nev s) = sq_stream s"
  by (simp_all add: publish_notif_def split: option.splits)

lemma publish_notif_ids [keeps, simp]: "store_ids s \<Longrightarrow> store_ids (publish_notif nev s)"
  by (simp add: publish_notif_def split: option.splits)

lemma triage_commit_frame [frame, simp]:
  "fst (triage_commit e u ip action details payload a f nt s) = f a"
  "st_alerts (snd (triage_commit e u ip action details payload a f nt s)) =
     upd_rows (\<lambda>x. al_id x = al_id a) f (st_alerts s)"
  "st_incidents (snd (triage_commit e u ip action details payload a f nt s)) = st_incidents s"
  "st_targets (snd (triage_commit e u ip action details payload a f nt s)) = st_targets s"
  "st_outbox (snd (triage_commit e u ip action details payload a f nt s)) = st_outbox s"
  by (simp_all add: triage_commit_def Let_def split: option.splits)

lemma triage_commit_ids [keeps]:
  "store_ids s \<Longrightarrow> (\<And>x. al_id (f x) = al_id x) \<Longrightarrow>
   store_ids (snd (triage_commit e u ip action details payload a f nt s))"
  by (auto simp: triage_commit_def Let_def intro!: keeps split: option.splits)

text \<open>The columns a row update of this service never writes.\<close>

definition same_identity :: "alert \<Rightarrow> alert \<Rightarrow> bool" where
  "same_identity a b \<longleftrightarrow>
     al_id a = al_id b \<and> al_uuid a = al_uuid b \<and> al_user_id a = al_user_id b \<and>
     al_rule_name a = al_rule_name b \<and> al_indicator_type a = al_indicator_type b \<and>
     al_indicator_value a = al_indicator_value b \<and> al_first_seen_at a = al_first_seen_at b"

lemma same_identity_refl [simp]: "same_identity a a"
  by (simp add: same_identity_def)

lemma set_notes_frame [simp]:
  "al_id (set_notes notes a) = al_id a" "al_status (set_notes notes a) = al_status a"
  "al_user_id (set_notes notes a) = al_user_id a"
  "al_acknowledged_at (set_notes notes a) = al_acknowledged_at a"
  "al_resolved_at (set_notes notes a) = al_resolved_at a"
  "al_dismissed_at (set_notes notes a) = al_dismissed_at a"
  "al_dismiss_reason (set_notes notes a) = al_dismiss_reason a"
  "al_severity (set_notes notes a) = al_severity a"
  "al_occurrence_count (set_notes notes a) = al_occurrence_count a"
  "al_incident_id (set_notes notes a) = al_incident_id a"
  "same_identity b (set_notes notes a) = same_identity b a"
  by (simp_all add: set_notes_def same_identity_def)

lemma update_ids [simp]:
  "al_id (ack_update e notes a) = al_id a" "al_id (resolve_update e notes a) = al_id a"
  "al_id (dismiss_update e r notes a) = al_id a" "al_id (reopen_update notes a) = al_id a"
  "al_id (dedup_update e fp ev inc a) = al_id a" "al_id (retry_update e ev a) = al_id a"
  by (simp_all add: ack_update_def resolve_update_def dismiss_update_def reopen_update_def
        dedup_update_def retry_update_def)

lemma update_identity [simp]:
  "same_identity a (ack_update e notes a)" "same_identity a (resolve_update e notes a)"
  "same_identity a (dismiss_update e r notes a)" "same_identity a (reopen_update notes a)"
  "same_identity a (dedup_update e fp ev inc a)" "same_identity a (retry_update e ev a)"
  by (simp_all add: ack_update_def resolve_update_def dismiss_update_def reopen_update_def
        dedup_update_def retry_update_def, simp_all add: same_identity_def)

subsection \<open>What a triage operation does\<close>

text \<open>
  Every handler either leaves the store alone (an error, or the idempotent branch) or applies
  its row update to one visible alert along an edge of the transition table, with one audit
  row and one stream row that is broadcast under its own cursor.
\<close>

lemma find_alert_Some:
  "find_alert uuid u s = Some a \<Longrightarrow> a \<in> set (st_alerts s) \<and> al_uuid a = str_strip uuid \<and>
     (is_admin u \<or> al_user_id a = Some (usr_id u))"
  by (auto simp: find_alert_def visible_alerts_def dest!: first_row_Some)

lemma triage_guard_False:
  "triage_guard tgt uuid u s = Inr (a, False) \<Longrightarrow>
     a \<in> set (st_alerts s) \<and> al_uuid a = str_strip uuid \<and>
     (is_admin u \<or> al_user_id a = Some (usr_id u)) \<and>
     (\<exists>cur. al_status a = AlertStatus_value cur \<and> tgt \<in> ALERT_STATUS_TRANSITIONS cur)"
  by (auto simp: triage_guard_def lock_and_get_alert_def AlertStatus_of_Some
        dest!: find_alert_Some split: option.splits if_splits)

lemma triage_guard_True:
  "triage_guard tgt uuid u s = Inr (a, True) \<Longrightarrow>
     a \<in> set (st_alerts s) \<and> al_status a = AlertStatus_value tgt \<and>
     (is_admin u \<or> al_user_id a = Some (usr_id u))"
  by (auto simp: triage_guard_def lock_and_get_alert_def
        dest!: find_alert_Some split: option.splits if_splits)

definition triage_effect ::
  "AlertStatus \<Rightarrow> (alert \<Rightarrow> alert) \<Rightarrow> string \<Rightarrow> user \<Rightarrow> store \<Rightarrow> store \<Rightarrow> alert \<Rightarrow> bool" where
  "triage_effect tgt f uuid u s s' a \<longleftrightarrow>
     triage_guard tgt uuid u s = Inr (a, False) \<and>
     (\<exists>e ip action details payload nt.
        s' = snd (triage_commit e u ip action details payload a f nt s) \<and>
        (\<forall>n. nt = Some n \<longrightarrow> al_user_id a = Some (nf_user_id n)))"

lemma triage_effectI:
  "triage_guard tgt uuid u s = Inr (a, False) \<Longrightarrow>
   (\<And>n. nt = Some n \<Longrightarrow> al_user_id a = Some (nf_user_id n)) \<Longrightarrow>
   triage_effect tgt f uuid u s (snd (triage_commit e u ip action details payload a f nt s)) a"
  unfolding triage_effect_def by blast

lemma triage_cases:
  assumes "(case triage_guard tgt uuid u s of Inl err \<Rightarrow> (Inl err, s) | Inr (a, True) \<Rightarrow> (Inr a, s)
              | Inr (a, False) \<Rightarrow> k a) = (r, s')"
    and "\<And>a. triage_guard tgt uuid u s = Inr (a, False) \<Longrightarrow>
           fst (k a) = Inr (f a) \<and> triage_effect tgt f uuid u s (snd (k a)) a"
  shows "s' = s \<and> (\<forall>a. r = Inr a \<longrightarrow> triage_guard tgt uuid u s = Inr (a, True)) \<or>
    (\<exists>a. triage_effect tgt f uuid u s s' a \<and> r = Inr (f a))"
proof (cases "triage_guard tgt uuid u s")
  case (Inl err)
  then show ?thesis using assms(1) by auto
next
  case (Inr p)
  obtain a b where p: "p = (a, b)" by (cases p)
  show ?thesis
  proof (cases b)
    case True
    then show ?thesis using assms(1) Inr p by auto
  next
    case False
    then have "k a = (r, s')" "fst (k a) = Inr (f a) \<and> triage_effect tgt f uuid u s (snd (k a)) a"
      using assms Inr p by simp_all
    then show ?thesis by (metis fst_conv snd_conv)
  qed
qed

lemma acknowledge_effect:
  assumes "acknowledge_alert e uuid u notes tn ip s = (r, s')"
  shows "s' = s \<and> (\<forall>a. r = Inr a \<longrightarrow> triage_guard A_ACKNOWLEDGED uuid u s = Inr (a, True)) \<or>
     (\<exists>a. triage_effect A_ACKNOWLEDGED (ack_update e (str_or tn notes)) uuid u s s' a \<and>
        r = Inr (ack_update e (str_or tn notes) a))"
  using assms unfolding acknowledge_alert_def
  by (rule triage_cases) (auto simp: Let_def split_beta intro!: triage_effectI)

lemma resolve_effect:
  assumes "resolve_alert e uuid u notes rn tn ip s = (r, s')"
  shows "s' = s \<and> (\<forall>a. r = Inr a \<longrightarrow> triage_guard A_RESOLVED uuid u s = Inr (a, True)) \<or>
     (\<exists>a. triage_effect A_RESOLVED (resolve_update e (str_or (str_or rn tn) notes)) uuid u s s' a \<and>
        r = Inr (resolve_update e (str_or (str_or rn tn) notes) a))"
  using assms unfolding resolve_alert_def
  by (rule triage_cases) (auto simp: Let_def split_beta intro!: triage_effectI)

lemma reopen_effect:
  assumes "reopen_alert e uuid u rn notes tn ip s = (r, s')"
  shows "s' = s \<and> (\<forall>a. r = Inr a \<longrightarrow> triage_guard A_OPEN uuid u s = Inr (a, True)) \<or>
     (\<exists>a. triage_effect A_OPEN (reopen_update (str_or (str_or rn tn) notes)) uuid u s s' a \<and>
        r = Inr (reopen_update (str_or (str_or rn tn) notes) a))"
  using assms unfolding reopen_alert_def
  by (rule triage_cases) (auto simp: Let_def split_beta reopen_notification_def intro!: triage_effectI)

definition dismiss_reason_of :: "string option \<Rightarrow> string option \<Rightarrow> string" where
  "dismiss_reason_of dr rs = str_strip (the (str_or (str_or dr rs) (Some [])))"

lemma dismiss_short:
  "length (dismiss_reason_of dr rs) < 3 \<Longrightarrow>
   dismiss_alert e uuid u dr rs tn notes ip s = (Inl AlertValidationError, s)"
  by (simp add: dismiss_alert_def dismiss_reason_of_def Let_def)

lemma dismiss_effect:
  assumes "dismiss_alert e uuid u dr rs tn notes ip s = (r, s')"
    and "length (dismiss_reason_of dr rs) \<ge> 3"
  shows "s' = s \<and> (\<forall>a. r = Inr a \<longrightarrow> triage_guard A_DISMISSED uuid u s = Inr (a, True)) \<or>
     (\<exists>a. triage_effect A_DISMISSED (dismiss_update e (dismiss_reason_of dr rs) (str_or tn notes))
            uuid u s s' a \<and>
        r = Inr (dismiss_update e (dismiss_reason_of dr rs) (str_or tn notes) a))"
proof -
  have n: "\<not> length (str_strip (the (str_or (str_or dr rs) (Some [])))) < 3"
    using assms(2) by (simp add: dismiss_reason_of_def)
  show ?thesis
    using assms(1) unfolding dismiss_alert_def Let_def if_not_P [OF n]
    by (rule triage_cases) (auto simp: split_beta dismiss_reason_of_def intro!: triage_effectI)
qed

subsection \<open>What processing an event does\<close>

lemma process_duplicate_frame [frame, simp]:
  "fst (process_duplicate e fp ev inc a s) = dedup_update e fp ev inc a"
  "st_alerts (snd (process_duplicate e fp ev inc a s)) =
     upd_rows (\<lambda>x. al_id x = al_id a) (dedup_update e fp ev inc) (st_alerts s)"
  "st_incidents (snd (process_duplicate e fp ev inc a s)) = st_incidents s"
  "st_targets (snd (process_duplicate e fp ev inc a s)) = st_targets s"
  by (auto simp: process_duplicate_def Let_def split_beta)

lemma process_new_frame [frame, simp]:
  "fst (process_new e rule fp ev inc s) = (new_alert e rule fp ev inc)\<lparr>al_id := sq_alert s\<rparr>"
  "st_alerts (snd (process_new e rule fp ev inc s)) =
     st_alerts s @ [(new_alert e rule fp ev inc)\<lparr>al_id := sq_alert s\<rparr>]"
  "st_incidents (snd (process_new e rule fp ev inc s)) = st_incidents s"
  "st_targets (snd (process_new e rule fp ev inc s)) = st_targets s"
  by (auto simp: process_new_def Let_def split_beta)

lemma process_duplicate_ids [keeps]:
  "store_ids s \<Longrightarrow> store_ids (snd (process_duplicate e fp ev inc a s))"
  by (auto simp: process_duplicate_def Let_def split_beta intro!: keeps)

lemma process_new_ids [keeps]: "store_ids s \<Longrightarrow> store_ids (snd (process_new e rule fp ev inc s))"
  by (auto simp: process_new_def Let_def split_beta intro!: keeps)

lemma process_retry_ids [keeps]: "store_ids s \<Longrightarrow> store_ids (snd (process_retry e rule fp ev s))"
  by (auto simp: process_retry_def Let_def intro!: keeps split: option.splits)

lemma dedup_candidates_set:
  "a \<in> set (dedup_candidates e rule fp ev s) \<Longrightarrow>
     a \<in> set (st_alerts s) \<and> al_status a \<in> set active_statuses \<and> al_rule_name a = rule \<and>
     al_user_id a = ev_user_id ev"
  by (simp add: dedup_candidates_def)

definition event_fingerprint ::
  "(string \<Rightarrow> string) \<Rightarrow> (string \<Rightarrow> string \<times> string) \<Rightarrow> string option \<Rightarrow> SecurityEvent \<Rightarrow> string" where
  "event_fingerprint sha256 psl rule ev =
     compute_fingerprint sha256 psl (effective_rule rule ev)
       (IndicatorType_value (indicator_type ev)) (indicator_value ev) (ev_user_id ev)"

definition event_candidates ::
  "(string \<Rightarrow> string) \<Rightarrow> (string \<Rightarrow> string \<times> string) \<Rightarrow> env \<Rightarrow> SecurityEvent \<Rightarrow> string option \<Rightarrow>
   store \<Rightarrow> alert list" where
  "event_candidates sha256 psl e ev rule s =
     dedup_candidates e (effective_rule rule ev) (event_fingerprint sha256 psl rule ev) ev s"

lemma process_event_eq:
  "process_event sha psl race e ev rule inc s =
     (let rl = effective_rule rule ev; fp = event_fingerprint sha psl rule ev
      in case first_desc al_last_seen_at (event_candidates sha psl e ev rule s) of
           Some a \<Rightarrow> (Inr (dedup_update e fp ev inc a, False), snd (process_duplicate e fp ev inc a s))
         | None \<Rightarrow>
             (case race of
                None \<Rightarrow> (Inr ((new_alert e rl fp ev inc)\<lparr>al_id := sq_alert s\<rparr>, True),
                         snd (process_new e rl fp ev inc s))
              | Some s' \<Rightarrow> process_retry e rl fp ev s'))"
  by (simp add: process_event_def event_candidates_def event_fingerprint_def Let_def split_beta
        split: option.split)

lemma process_event_cases:
  assumes "process_event sha psl None e ev rule inc s = (r, s')"
  obtains (duplicate) a where "first_desc al_last_seen_at (event_candidates sha psl e ev rule s) = Some a"
      "r = Inr (dedup_update e (event_fingerprint sha psl rule ev) ev inc a, False)"
      "s' = snd (process_duplicate e (event_fingerprint sha psl rule ev) ev inc a s)"
    | (fresh) "event_candidates sha psl e ev rule s = []"
      "r = Inr ((new_alert e (effective_rule rule ev) (event_fingerprint sha psl rule ev) ev inc)
                  \<lparr>al_id := sq_alert s\<rparr>, True)"
      "s' = snd (process_new e (effective_rule rule ev) (event_fingerprint sha psl rule ev) ev inc s)"
proof (cases "first_desc al_last_seen_at (event_candidates sha psl e ev rule s)")
  case None
  then show thesis
    using assms unfolding process_event_eq by (intro fresh) (auto simp: Let_def)
next
  case (Some a)
  then show thesis
    using assms unfolding process_event_eq by (intro duplicate) (auto simp: Let_def)
qed

text \<open>
  The rows before an event are all still there afterwards: each is either unchanged or it is
  an active alert of the event's tenant, updated in place.
\<close>

definition absorbed :: "env \<Rightarrow> SecurityEvent \<Rightarrow> alert \<Rightarrow> alert \<Rightarrow> bool" where
  "absorbed e ev a b \<longleftrightarrow>
     same_identity a b \<and> al_status b = al_status a \<and> al_status a \<in> set active_statuses \<and>
     al_user_id a = ev_user_id ev \<and> al_occurrence_count b = Suc (al_occurrence_count a) \<and>
     al_last_seen_at b = now e \<and>
     al_severity b = higher_severity (al_severity a) (EventSeverity_value (ev_severity ev)) \<and>
     (truthy_nat (al_incident_id a) \<longrightarrow> al_incident_id b = al_incident_id a) \<and>
     al_acknowledged_at b = al_acknowledged_at a \<and> al_resolved_at b = al_resolved_at a \<and>
     al_dismissed_at b = al_dismissed_at a \<and> al_dismiss_reason b = al_dismiss_reason a"

lemma dedup_update_absorbed:
  "a \<in> set (dedup_candidates e rule fp ev s) \<Longrightarrow> absorbed e ev a (dedup_update e fp' ev inc a)"
  "a \<in> set (dedup_candidates e rule fp ev s) \<Longrightarrow> absorbed e ev a (retry_update e ev a)"
  by (auto simp: absorbed_def dest!: dedup_candidates_set)
     (auto simp: dedup_update_def retry_update_def same_identity_def)

lemma upd_by_id_absorbed:
  assumes "store_ids s" "a \<in> set (dedup_candidates e rule fp ev s)" "absorbed e ev a (f a)"
  shows "list_all2 (\<lambda>x y. y = x \<or> absorbed e ev x y) (st_alerts s)
           (upd_rows (\<lambda>x. al_id x = al_id a) f (st_alerts s))"
proof -
  have "f x = x \<or> absorbed e ev x (f x)" if "x \<in> set (st_alerts s)" "al_id x = al_id a" for x
    using that assms dedup_candidates_set [OF assms(2)] unique_by_eq [OF store_ids_alerts]
    by metis
  then show ?thesis
    by (simp add: upd_rows_def list_all2_conv_all_nth)
qed

lemma process_event_rows:
  assumes "store_ids s" "process_event sha psl None e ev rule inc s = (r, s')"
  shows "\<exists>new. list_all2 (\<lambda>x y. y = x \<or> absorbed e ev x y) (st_alerts s)
            (take (length (st_alerts s)) (st_alerts s')) \<and>
          st_alerts s' = take (length (st_alerts s)) (st_alerts s') @ new \<and>
          (new = [] \<or> new = [(new_alert e (effective_rule rule ev)
             (event_fingerprint sha psl rule ev) ev inc)\<lparr>al_id := sq_alert s\<rparr>])"
  using assms(2)
proof (cases rule: process_event_cases)
  case (duplicate a)
  have "a \<in> set (event_candidates sha psl e ev rule s)"
    using duplicate(1) by (rule first_desc_Some)
  then show ?thesis
    using assms(1) upd_by_id_absorbed dedup_update_absorbed(1) duplicate(3)
    by (fastforce simp: event_candidates_def)
next
  case fresh
  then show ?thesis by (simp add: list_all2_same)
qed

subsection \<open>The alert table's invariant\<close>

definition lifecycle_ok :: "AlertStatus \<Rightarrow> alert \<Rightarrow> bool" where
  "lifecycle_ok st a =
     (case st of
        A_OPEN \<Rightarrow> al_acknowledged_at a = None \<and> al_resolved_at a = None \<and>
                  al_dismissed_at a = None \<and> al_dismiss_reason a = None
      | A_ACKNOWLEDGED \<Rightarrow> al_acknowledged_at a \<noteq> None \<and> al_resolved_at a = None \<and>
                  al_dismissed_at a = None \<and> al_dismiss_reason a = None
      | A_RESOLVED \<Rightarrow> al_resolved_at a \<noteq> None \<and> al_dismissed_at a = None \<and>
                  al_dismiss_reason a = None
      | A_DISMISSED \<Rightarrow> al_dismissed_at a \<noteq> None \<and> al_resolved_at a = None \<and>
                  (\<exists>r. al_dismiss_reason a = Some r \<and> length r \<ge> 3))"

definition alert_ok :: "alert \<Rightarrow> bool" where
  "alert_ok a \<longleftrightarrow>
     al_occurrence_count a \<ge> 1 \<and> EventSeverity_of (al_severity a) \<noteq> None \<and>
     (\<exists>st. AlertStatus_of (al_status a) = Some st \<and> lifecycle_ok st a)"

definition alerts_ok :: "store \<Rightarrow> bool" where
  "alerts_ok s \<longleftrightarrow> store_ids s \<and> (\<forall>a\<in>set (st_alerts s). alert_ok a)"

lemma alerts_ok_empty: "alerts_ok empty_store"
  by (simp add: alerts_ok_def)

lemma higher_severity_known:
  "EventSeverity_of x \<noteq> None \<Longrightarrow> EventSeverity_of y \<noteq> None \<Longrightarrow>
   EventSeverity_of (higher_severity x y) \<noteq> None"
  by (simp add: higher_severity_def)

lemma absorbed_ok: "absorbed e ev a b \<Longrightarrow> alert_ok a \<Longrightarrow> alert_ok b"
  using higher_severity_known [of "al_severity a" "EventSeverity_value (ev_severity ev)"]
  by (auto simp: absorbed_def alert_ok_def lifecycle_ok_def split: AlertStatus.splits)

lemma new_alert_simps [simp]:
  "al_status (new_alert e rule fp ev inc) = AlertStatus_value A_OPEN"
  "al_occurrence_count (new_alert e rule fp ev inc) = 1"
  "al_severity (new_alert e rule fp ev inc) = EventSeverity_value (ev_severity ev)"
  "al_acknowledged_at (new_alert e rule fp ev inc) = None"
  "al_resolved_at (new_alert e rule fp ev inc) = None"
  "al_dismissed_at (new_alert e rule fp ev inc) = None"
  "al_dismiss_reason (new_alert e rule fp ev inc) = None"
  "al_user_id (new_alert e rule fp ev inc) = ev_user_id ev"
  "al_rule_name (new_alert e rule fp ev inc) = rule"
  "al_indicator_type (new_alert e rule fp ev inc) = IndicatorType_value (indicator_type ev)"
  "al_indicator_value (new_alert e rule fp ev inc) = indicator_value ev"
  "al_last_seen_at (new_alert e rule fp ev inc) = now e"
  "al_first_seen_at (new_alert e rule fp ev inc) = now e"
  by (simp_all only: new_alert_def alert.simps)

lemma new_alert_ok: "alert_ok ((new_alert e rule fp ev inc)\<lparr>al_id := i\<rparr>)"
  unfolding alert_ok_def
  by (simp del: AlertStatus_value.simps) (simp add: lifecycle_ok_def)

lemma triage_effect_rows:
  assumes "store_ids s" "triage_effect tgt f uuid u s s' a"
  shows "st_alerts s' = map (\<lambda>x. if x = a then f a else x) (st_alerts s)"
proof -
  have a: "a \<in> set (st_alerts s)"
    using assms(2) triage_guard_False by (auto simp: triage_effect_def)
  have "al_id x = al_id a \<longleftrightarrow> x = a" if "x \<in> set (st_alerts s)" for x
    using that a unique_by_eq [OF store_ids_alerts [OF assms(1)]] by blast
  then show ?thesis
    using assms(2) by (auto simp: triage_effect_def upd_rows_def)
qed

lemma triage_effect_ids:
  "store_ids s \<Longrightarrow> triage_effect tgt f uuid u s s' a \<Longrightarrow> (\<And>x. al_id (f x) = al_id x) \<Longrightarrow>
   store_ids s'"
  by (auto simp: triage_effect_def intro!: triage_commit_ids)

definition good_update :: "AlertStatus \<Rightarrow> (alert \<Rightarrow> alert) \<Rightarrow> bool" where
  "good_update tgt f \<longleftrightarrow>
     (\<forall>x. same_identity x (f x) \<and> al_status (f x) = AlertStatus_value tgt \<and>
        al_severity (f x) = al_severity x \<and> al_occurrence_count (f x) = al_occurrence_count x \<and>
        al_incident_id (f x) = al_incident_id x) \<and>
     (\<forall>x cur. lifecycle_ok cur x \<longrightarrow> tgt \<in> ALERT_STATUS_TRANSITIONS cur \<longrightarrow> lifecycle_ok tgt (f x))"

lemma good_updates [keeps]:
  "good_update A_ACKNOWLEDGED (ack_update e notes)"
  "good_update A_RESOLVED (resolve_update e notes)"
  "length r \<ge> 3 \<Longrightarrow> good_update A_DISMISSED (dismiss_update e r notes)"
  "good_update A_OPEN (reopen_update notes)"
proof -
  have fields: "al_status (ack_update e notes x) = ''ACKNOWLEDGED''"
    "al_status (resolve_update e notes x) = ''RESOLVED''"
    "al_status (dismiss_update e r notes x) = ''DISMISSED''"
    "al_status (reopen_update notes x) = ''OPEN''" for x
    by (simp_all add: ack_update_def resolve_update_def dismiss_update_def reopen_update_def)
  have edge: "P" if "t \<in> ALERT_STATUS_TRANSITIONS cur" "t \<noteq> A_OPEN"
      "cur = A_OPEN \<Longrightarrow> P" "cur = A_ACKNOWLEDGED \<Longrightarrow> t \<noteq> A_ACKNOWLEDGED \<Longrightarrow> P" for t cur P
    using that by (cases cur) auto
  show "good_update A_ACKNOWLEDGED (ack_update e notes)"
    unfolding good_update_def
    by (auto simp: fields elim!: edge) (auto simp: lifecycle_ok_def ack_update_def)
  show "good_update A_RESOLVED (resolve_update e notes)"
    unfolding good_update_def
    by (auto simp: fields elim!: edge) (auto simp: lifecycle_ok_def resolve_update_def)
  show "length r \<ge> 3 \<Longrightarrow> good_update A_DISMISSED (dismiss_update e r notes)"
    unfolding good_update_def
    by (auto simp: fields elim!: edge) (auto simp: lifecycle_ok_def dismiss_update_def)
  show "good_update A_OPEN (reopen_update notes)"
    unfolding good_update_def
    by (auto simp: fields) (auto simp: lifecycle_ok_def reopen_update_def)
qed

lemma good_update_ok:
  assumes "good_update tgt f" "triage_effect tgt f uuid u s s' a" "alert_ok a"
  shows "alert_ok (f a)"
proof -
  obtain cur where "al_status a = AlertStatus_value cur" "tgt \<in> ALERT_STATUS_TRANSITIONS cur"
    using assms(2) triage_guard_False by (fastforce simp: triage_effect_def)
  then show ?thesis
    using assms(1,3) by (auto simp: good_update_def alert_ok_def)
qed

lemma triage_effect_alerts_ok:
  assumes "alerts_ok s" "triage_effect tgt f uuid u s s' a" "good_update tgt f"
  shows "alerts_ok s'"
proof -
  have s: "store_ids s" using assms(1) by (simp add: alerts_ok_def)
  have "store_ids s'"
    using triage_effect_ids [OF s assms(2)] assms(3) by (simp add: good_update_def same_identity_def)
  moreover have "a \<in> set (st_alerts s)"
    using assms(2) triage_guard_False by (auto simp: triage_effect_def)
  then have "alert_ok (f a)"
    using assms good_update_ok by (auto simp: alerts_ok_def)
  ultimately show ?thesis
    using assms(1) triage_effect_rows [OF s assms(2)] by (auto simp: alerts_ok_def)
qed

lemma upd_row_alerts_ok:
  assumes "alerts_ok s" "a \<in> set (st_alerts s)" "absorbed e ev a (f a)" "store_ids s'"
    and "st_alerts s' = upd_rows (\<lambda>x. al_id x = al_id a) f (st_alerts s)"
  shows "alerts_ok s'"
proof -
  have "alert_ok (f x)" if "x \<in> set (st_alerts s)" "al_id x = al_id a" for x
  proof -
    have "x = a"
      using that assms(1,2) unique_by_eq [OF store_ids_alerts] by (auto simp: alerts_ok_def)
    then show ?thesis
      using assms(1,2,3) absorbed_ok by (auto simp: alerts_ok_def)
  qed
  then show ?thesis
    using assms by (auto simp: alerts_ok_def in_upd_rows)
qed

lemma process_event_alerts_ok:
  assumes "alerts_ok s" "process_event sha psl None e ev rule inc s = (r, s')"
  shows "alerts_ok s'"
  using assms(2)
proof (cases rule: process_event_cases)
  case (duplicate a)
  have "a \<in> set (event_candidates sha psl e ev rule s)"
    using duplicate(1) by (rule first_desc_Some)
  then have "absorbed e ev a (dedup_update e (event_fingerprint sha psl rule ev) ev inc a)"
      "a \<in> set (st_alerts s)"
    using dedup_update_absorbed(1) dedup_candidates_set by (auto simp: event_candidates_def)
  then show ?thesis
    using assms(1) duplicate(3) upd_row_alerts_ok process_duplicate_ids
    by (metis alerts_ok_def process_duplicate_frame(2))
next
  case fresh
  then show ?thesis
    using assms(1) new_alert_ok by (auto simp: alerts_ok_def process_new_ids)
qed

lemma process_retry_alerts_ok:
  assumes "alerts_ok s" "process_retry e rule fp ev s = (r, s')"
  shows "alerts_ok s'"
proof (cases "first_row (dedup_candidates e rule fp ev s)")
  case None
  then show ?thesis using assms by (auto simp: process_retry_def first_row_def)
next
  case (Some a)
  then have a: "absorbed e ev a (retry_update e ev a)" "a \<in> set (st_alerts s)"
    using dedup_update_absorbed(2) dedup_candidates_set by (auto dest: first_row_Some)
  have ids: "store_ids s'"
    using assms process_retry_ids [of s e rule fp ev] by (simp add: alerts_ok_def)
  have rows: "st_alerts s' = upd_rows (\<lambda>x. al_id x = al_id a) (retry_update e ev) (st_alerts s)"
    using assms(2) Some by (auto simp: process_retry_def Let_def)
  show ?thesis
    by (rule upd_row_alerts_ok [of s a e ev "retry_update e ev"]) (use assms(1) a ids rows in auto)
qed

subsection \<open>Runs of the service\<close>

text \<open>
  One step is one committed call, by any user at any time; \<open>race\<close> is an event whose insert
  loses against another session's step.
\<close>

inductive alert_step ::
  "(string \<Rightarrow> string) \<Rightarrow> (string \<Rightarrow> string \<times> string) \<Rightarrow> store \<Rightarrow> store \<Rightarrow> bool"
  for sha :: "string \<Rightarrow> string" and psl :: "string \<Rightarrow> string \<times> string" where
  event: "process_event sha psl None e ev rule inc s = (r, s') \<Longrightarrow> alert_step sha psl s s'"
| race: "alert_step sha psl s s1 \<Longrightarrow>
     process_event sha psl (Some s1) e ev rule inc s = (r, s') \<Longrightarrow> alert_step sha psl s s'"
| acknowledge: "acknowledge_alert e uuid u notes tn ip s = (r, s') \<Longrightarrow> alert_step sha psl s s'"
| resolve: "resolve_alert e uuid u notes rn tn ip s = (r, s') \<Longrightarrow> alert_step sha psl s s'"
| dismiss: "dismiss_alert e uuid u dr rs tn notes ip s = (r, s') \<Longrightarrow> alert_step sha psl s s'"
| reopen: "reopen_alert e uuid u rn notes tn ip s = (r, s') \<Longrightarrow> alert_step sha psl s s'"
| read: "mark_as_read e uuid u s = (r, s') \<Longrightarrow> alert_step sha psl s s'"
| read_all: "mark_all_as_read e u s = (n, s') \<Longrightarrow> alert_step sha psl s s'"

lemma mark_all_as_read_frame [frame, simp]:
  "st_alerts (snd (mark_all_as_read e u s)) = st_alerts s"
  by (simp add: mark_all_as_read_def publish_unread_def Let_def)

lemma process_event_race:
  "process_event sha psl (Some s1) e ev rule inc s = (r, s') \<Longrightarrow>
   process_event sha psl None e ev rule inc s = (r, s') \<or>
   process_retry e (effective_rule rule ev) (event_fingerprint sha psl rule ev) ev s1 = (r, s')"
  by (auto simp: process_event_eq Let_def split: option.splits)

lemma alert_step_ok: "alert_step sha psl s s' \<Longrightarrow> alerts_ok s \<Longrightarrow> alerts_ok s'"
proof (induction rule: alert_step.induct)
  case (event e ev rule inc s r s')
  then show ?case using process_event_alerts_ok by blast
next
  case (race s s1 e ev rule inc r s')
  then show ?case
    using process_event_race [OF race(2)] process_event_alerts_ok process_retry_alerts_ok
    by metis
next
  case (acknowledge e uuid u nts tn ip s r s')
  then show ?case
    using acknowledge_effect triage_effect_alerts_ok good_updates(1) by metis
next
  case (resolve e uuid u nts rn tn ip s r s')
  then show ?case
    using resolve_effect triage_effect_alerts_ok good_updates(2) by metis
next
  case (dismiss e uuid u dr rs tn nts ip s r s')
  then show ?case
    using dismiss_short [of dr rs] dismiss_effect triage_effect_alerts_ok good_updates(3)
    by (metis not_less old.prod.inject)
next
  case (reopen e uuid u rn nts tn ip s r s')
  then show ?case
    using reopen_effect triage_effect_alerts_ok good_updates(4) by metis
next
  case (read e uuid u s r s')
  then show ?case
    using mark_as_read_frame(1) mark_as_read_ids by (metis alerts_ok_def snd_conv)
next
  case (read_all e u s n s')
  then show ?case
    using mark_all_as_read_frame mark_all_as_read_ids by (metis alerts_ok_def snd_conv)
qed

lemma list_all2_in: "list_all2 P xs ys \<Longrightarrow> x \<in> set xs \<Longrightarrow> \<exists>y\<in>set ys. P x y"
  by (induction rule: list_all2_induct) auto

subsection \<open>Properties\<close>

lemma process_event_candidates:
  assumes "store_ids s" "process_event sha psl None e ev rule inc s = (Inr (a, created), s')"
  shows "(created \<longleftrightarrow> event_candidates sha psl e ev rule s = []) \<and>
    (created \<longrightarrow> st_alerts s' = st_alerts s @ [a] \<and> al_status a = ''OPEN'' \<and>
       al_occurrence_count a = 1 \<and> al_user_id a = ev_user_id ev \<and> al_last_seen_at a = now e) \<and>
    (\<not> created \<longrightarrow> (\<exists>b\<in>set (event_candidates sha psl e ev rule s). absorbed e ev b a \<and>
       (\<forall>c\<in>set (event_candidates sha psl e ev rule s). al_last_seen_at c \<le> al_last_seen_at b) \<and>
       st_alerts s' = map (\<lambda>x. if x = b then a else x) (st_alerts s)))"
  using assms(2)
proof (cases rule: process_event_cases)
  case (duplicate b)
  let ?C = "event_candidates sha psl e ev rule s"
  have b: "b \<in> set ?C" "\<forall>c\<in>set ?C. al_last_seen_at c \<le> al_last_seen_at b"
    using duplicate(1) first_desc_Some first_desc_max by metis+
  then have ab: "absorbed e ev b a" "b \<in> set (st_alerts s)"
    using duplicate(2) dedup_update_absorbed(1) dedup_candidates_set
    by (auto simp: event_candidates_def)
  have "al_id x = al_id b \<longleftrightarrow> x = b" if "x \<in> set (st_alerts s)" for x
    using that ab(2) unique_by_eq [OF store_ids_alerts [OF assms(1)]] by blast
  then have "st_alerts s' = map (\<lambda>x. if x = b then a else x) (st_alerts s)"
    using duplicate(2,3) by (simp add: upd_rows_def)
  then show ?thesis
    using duplicate(2) b ab by auto
next
  case fresh
  then show ?thesis by simp
qed

definition recent_twin ::
  "(string \<Rightarrow> string) \<Rightarrow> (string \<Rightarrow> string \<times> string) \<Rightarrow> env \<Rightarrow> SecurityEvent \<Rightarrow> string option \<Rightarrow>
   alert \<Rightarrow> bool" where
  \<comment> \<open>an active alert of the same tenant, rule and indicator that was seen in the last 15 minutes\<close>
  "recent_twin sha psl e ev rule b \<longleftrightarrow>
     al_user_id b = ev_user_id ev \<and> al_rule_name b = effective_rule rule ev \<and>
     al_indicator_type b = IndicatorType_value (indicator_type ev) \<and>
     (al_indicator_value b = indicator_value ev \<or>
      al_fingerprint b = Some (event_fingerprint sha psl rule ev)) \<and>
     al_status b \<in> {''OPEN'', ''ACKNOWLEDGED''} \<and> now e - al_last_seen_at b \<le> minutes 15"

lemma event_candidates_twins:
  "set (event_candidates sha psl e ev rule s) = {b \<in> set (st_alerts s). recent_twin sha psl e ev rule b}"
  by (auto simp: event_candidates_def dedup_candidates_def recent_twin_def active_statuses_def
      ALERT_DEDUPLICATION_WINDOW_MIN_def)

text \<open>
  C1: processing an event creates an alert exactly when no active alert of the same rule,
  indicator and tenant was seen in the last 15 minutes.  The new alert is open with one
  occurrence and is appended to the table; otherwise the most recently seen candidate absorbs
  the event in place (one more occurrence, seen now, the higher of the two severities, the
  same status) and no other row changes.
\<close>

theorem process_event_effect:
  assumes "store_ids s" "process_event sha psl None e ev rule inc s = (Inr (a, created), s')"
  shows "(created \<longleftrightarrow> {b \<in> set (st_alerts s). recent_twin sha psl e ev rule b} = {}) \<and>
    (created \<longrightarrow> st_alerts s' = st_alerts s @ [a] \<and> al_status a = ''OPEN'' \<and>
       al_occurrence_count a = 1 \<and> al_user_id a = ev_user_id ev \<and> al_last_seen_at a = now e) \<and>
    (\<not> created \<longrightarrow> (\<exists>b\<in>{b \<in> set (st_alerts s). recent_twin sha psl e ev rule b}. absorbed e ev b a \<and>
       (\<forall>c\<in>{b \<in> set (st_alerts s). recent_twin sha psl e ev rule b}.
          al_last_seen_at c \<le> al_last_seen_at b) \<and>
       st_alerts s' = map (\<lambda>x. if x = b then a else x) (st_alerts s)))"
proof -
  have none: "event_candidates sha psl e ev rule s = [] \<longleftrightarrow> {b \<in> set (st_alerts s). recent_twin sha psl e ev rule b} = {}"
    unfolding event_candidates_twins [symmetric] by simp
  show ?thesis by (rule process_event_candidates [OF assms, unfolded none event_candidates_twins])
qed

lemma first_event_created:
  "\<exists>a s'. process_event sha psl None e ev rule inc empty_store = (Inr (a, True), s')"
  by (simp add: process_event_eq event_candidates_def dedup_candidates_def Let_def)

theorem process_event_effect_witness:
  "\<exists>a s'. process_event sample_sha sample_psl None (sample_env 0) (sample_event HIGH (Some 1))
            None None empty_store = (Inr (a, True), s') \<and> st_alerts s' = [a]"
proof -
  obtain a s' where r: "process_event sample_sha sample_psl None (sample_env 0)
      (sample_event HIGH (Some 1)) None None empty_store = (Inr (a, True), s')"
    using first_event_created by blast
  then show ?thesis
    using process_event_effect [OF store_ids_empty r] by auto
qed

text \<open>
  Processing an event never loses or downgrades an alert.  Every earlier row is still in
  the table with its status and identity, its severity rank has not dropped, and a row that is
  resolved or dismissed, or that belongs to another tenant, is unchanged.
\<close>

theorem process_event_monotone:
  assumes "store_ids s" "process_event sha psl None e ev rule inc s = (r, s')"
    and "a \<in> set (st_alerts s)"
  shows "\<exists>b\<in>set (st_alerts s'). same_identity a b \<and> al_status b = al_status a \<and>
           get_severity_rank (al_severity a) \<le> get_severity_rank (al_severity b) \<and>
           al_occurrence_count a \<le> al_occurrence_count b \<and>
           (al_status a \<notin> {''OPEN'', ''ACKNOWLEDGED''} \<or> al_user_id a \<noteq> ev_user_id ev \<longrightarrow> b = a)"
proof -
  let ?n = "length (st_alerts s)"
  have "list_all2 (\<lambda>x y. y = x \<or> absorbed e ev x y) (st_alerts s) (take ?n (st_alerts s'))"
    using process_event_rows [OF assms(1,2)] by blast
  then have "\<exists>b\<in>set (take ?n (st_alerts s')). b = a \<or> absorbed e ev a b"
    using assms(3) by (rule list_all2_in)
  then obtain b where b: "b \<in> set (st_alerts s')" "b = a \<or> absorbed e ev a b"
    by (blast dest: in_set_takeD)
  show ?thesis
    by (rule bexI [OF _ b(1)]) (use b(2) in \<open>auto simp: absorbed_def active_statuses_def sev.merge_ge\<close>)
qed

theorem process_event_monotone_witness:
  "\<exists>a s1 r s2. process_event sample_sha sample_psl None (sample_env 0)
       (sample_event HIGH (Some 1)) None None empty_store = (Inr (a, True), s1) \<and>
     process_event sample_sha sample_psl None (sample_env (minutes 1))
       (sample_event LOW (Some 1)) None None s1 = (r, s2) \<and>
     (\<exists>b\<in>set (st_alerts s2). same_identity a b \<and> al_status b = al_status a \<and>
        get_severity_rank (al_severity a) \<le> get_severity_rank (al_severity b))"
proof -
  obtain a s1 where 1: "process_event sample_sha sample_psl None (sample_env 0)
      (sample_event HIGH (Some 1)) None None empty_store = (Inr (a, True), s1)"
    using first_event_created by blast
  have s1: "store_ids s1"
    using process_event_alerts_ok [OF alerts_ok_empty 1] by (simp add: alerts_ok_def)
  have a: "a \<in> set (st_alerts s1)"
    using 1 by (auto elim!: process_event_cases)
  obtain r s2 where 2: "process_event sample_sha sample_psl None (sample_env (minutes 1))
      (sample_event LOW (Some 1)) None None s1 = (r, s2)"
    by (cases "process_event sample_sha sample_psl None (sample_env (minutes 1))
      (sample_event LOW (Some 1)) None None s1") auto
  show ?thesis
    using 1 2 process_event_monotone [OF s1 2 a] by blast
qed

text \<open>Alert storms: the same event again and again, each time within the window of the last.\<close>

definition process_events ::
  "(string \<Rightarrow> string) \<Rightarrow> (string \<Rightarrow> string \<times> string) \<Rightarrow> SecurityEvent \<Rightarrow> string option \<Rightarrow>
   nat option \<Rightarrow> env list \<Rightarrow> store \<Rightarrow> store" where
  "process_events sha psl ev rule inc es s =
     fold (\<lambda>e s. snd (process_event sha psl None e ev rule inc s)) es s"

definition storm_row ::
  "(string \<Rightarrow> string) \<Rightarrow> (string \<Rightarrow> string \<times> string) \<Rightarrow> SecurityEvent \<Rightarrow> string option \<Rightarrow>
   nat \<Rightarrow> time \<Rightarrow> alert \<Rightarrow> bool" where
  "storm_row sha psl ev rule n t a \<longleftrightarrow>
     al_rule_name a = effective_rule rule ev \<and>
     al_indicator_type a = IndicatorType_value (indicator_type ev) \<and>
     al_indicator_value a = indicator_value ev \<and> al_status a = AlertStatus_value A_OPEN \<and>
     al_user_id a = ev_user_id ev \<and> al_last_seen_at a = t \<and> al_occurrence_count a = n"

lemma filter_earlier_Nil:
  assumes "dedup_candidates e rule fp ev s = []" "now e \<le> now e'"
  shows "dedup_candidates e' rule fp ev s = []"
  using assms by (force simp: dedup_candidates_def filter_empty_conv)

lemma storm_step:
  assumes ids: "store_ids s" and rows: "st_alerts s = base @ [a]"
    and row: "storm_row sha psl ev rule n t a"
    and base: "dedup_candidates e (effective_rule rule ev) (event_fingerprint sha psl rule ev) ev
                 (s\<lparr>st_alerts := base\<rparr>) = []"
    and near: "now e \<le> t + minutes 15"
    and p: "process_event sha psl None e ev rule inc s = (r, s')"
  shows "\<exists>b. st_alerts s' = base @ [b] \<and> storm_row sha psl ev rule (Suc n) (now e) b"
proof -
  have c: "event_candidates sha psl e ev rule s = [a]"
    using row near base
    by (auto simp: event_candidates_def dedup_candidates_def rows storm_row_def active_statuses_def
          ALERT_DEDUPLICATION_WINDOW_MIN_def)
  have "al_id x \<noteq> al_id a" if "x \<in> set base" for x
    using ids that
    by (auto simp: store_ids_def cursor_ordered_def rows sorted_wrt_append)
  then have "upd_rows (\<lambda>x. al_id x = al_id a) f (st_alerts s) = base @ [f a]" for f
    by (simp add: rows upd_rows_append upd_rows_Cons upd_rows_id)
  then show ?thesis
    using p c row
    by (elim process_event_cases)
       (auto simp: first_desc_def dedup_update_def storm_row_def)
qed

lemma storm:
  assumes "store_ids s" "st_alerts s = base @ [a]" "storm_row sha psl ev rule n t a"
    and "successively (\<lambda>x y. x \<le> y \<and> y \<le> x + minutes 15) (t # map now es)"
    and "\<And>e. t \<le> now e \<Longrightarrow> dedup_candidates e (effective_rule rule ev)
           (event_fingerprint sha psl rule ev) ev (s\<lparr>st_alerts := base\<rparr>) = []"
  shows "\<exists>b t'. st_alerts (process_events sha psl ev rule inc es s) = base @ [b] \<and>
           storm_row sha psl ev rule (n + length es) t' b"
  using assms
proof (induction es arbitrary: s a n t)
  case Nil
  then show ?case by (auto simp: process_events_def)
next
  case (Cons e es)
  obtain r s' where p: "process_event sha psl None e ev rule inc s = (r, s')"
    by (cases "process_event sha psl None e ev rule inc s")
  have near: "t \<le> now e" "now e \<le> t + minutes 15"
      "successively (\<lambda>x y. x \<le> y \<and> y \<le> x + minutes 15) (now e # map now es)"
    using Cons.prems(4) by (simp_all add: successively_Cons)
  obtain b where b: "st_alerts s' = base @ [b]" "storm_row sha psl ev rule (Suc n) (now e) b"
    using storm_step [OF Cons.prems(1,2,3) Cons.prems(5) [OF near(1)] near(2) p] by blast
  have ids: "store_ids s'"
    using p Cons.prems(1)
    by (auto elim!: process_event_cases simp: process_duplicate_ids process_new_ids)
  have base: "dedup_candidates e' (effective_rule rule ev)
           (event_fingerprint sha psl rule ev) ev (s'\<lparr>st_alerts := base\<rparr>) = []"
      if "now e \<le> now e'" for e'
    using Cons.prems(5) [of e'] that near(1) by (simp add: dedup_candidates_def)
  have "\<exists>b t'. st_alerts (process_events sha psl ev rule inc es s') = base @ [b] \<and>
           storm_row sha psl ev rule (Suc n + length es) t' b"
    by (rule Cons.IH [OF ids b near(3) base])
  then show ?case
    using p by (simp add: process_events_def)
qed

text \<open>
  Alert storm suppression.  When an event that matches no active alert arrives and then
  repeats any number of times, never more than 15 minutes after the previous one, exactly one
  alert is added to the table and its occurrence count is the number of events.
\<close>

theorem storm_suppressed:
  assumes "store_ids s" "event_candidates sha psl e ev rule s = []"
    and "successively (\<lambda>x y. x \<le> y \<and> y \<le> x + minutes 15) (map now (e # es))"
  shows "\<exists>a. st_alerts (process_events sha psl ev rule inc (e # es) s) = st_alerts s @ [a] \<and>
           al_occurrence_count a = length (e # es) \<and> al_status a = ''OPEN''"
proof -
  obtain r s' where p: "process_event sha psl None e ev rule inc s = (r, s')"
    by (cases "process_event sha psl None e ev rule inc s")
  let ?a = "(new_alert e (effective_rule rule ev) (event_fingerprint sha psl rule ev) ev inc)
              \<lparr>al_id := sq_alert s\<rparr>"
  have s': "st_alerts s' = st_alerts s @ [?a]" "store_ids s'"
    using p assms(1,2) by (auto elim!: process_event_cases simp: process_new_ids)
  have row: "storm_row sha psl ev rule 1 (now e) ?a"
    by (simp add: storm_row_def del: AlertStatus_value.simps)
  have base: "dedup_candidates e' (effective_rule rule ev) (event_fingerprint sha psl rule ev) ev
        (s'\<lparr>st_alerts := st_alerts s\<rparr>) = []" if "now e \<le> now e'" for e'
    using filter_earlier_Nil [OF assms(2) [unfolded event_candidates_def] that]
    by (simp add: dedup_candidates_def)
  have "\<exists>b t'. st_alerts (process_events sha psl ev rule inc es s') = st_alerts s @ [b] \<and>
          storm_row sha psl ev rule (1 + length es) t' b"
    by (rule storm [OF s'(2,1) row _ base]) (use assms(3) in auto)
  then show ?thesis
    using p by (auto simp: process_events_def storm_row_def)
qed

theorem storm_suppressed_witness:
  "\<exists>a. st_alerts (process_events sample_sha sample_psl (sample_event LOW None) None None
           [sample_env 0, sample_env (minutes 14), sample_env (minutes 29)] empty_store) =
         st_alerts empty_store @ [a] \<and> al_occurrence_count a = 3 \<and> al_status a = ''OPEN''"
  using storm_suppressed [of empty_store sample_sha sample_psl "sample_env 0" "sample_event LOW None"
      None "[sample_env (minutes 14), sample_env (minutes 29)]" None]
  by (simp add: event_candidates_def dedup_candidates_def time_defs numeral_3_eq_3)

definition sample_alert :: alert where
  "sample_alert = (new_alert (sample_env 0) ''RULE'' ''fp'' (sample_event HIGH (Some 2)) None)\<lparr>al_id := 1\<rparr>"

definition sample_store :: store where
  "sample_store = add_alert sample_alert empty_store"

lemma sample_store_ids: "store_ids sample_store"
  by (simp add: sample_store_def)

lemma sample_alert_simps [simp]:
  "al_uuid sample_alert = ''uuid-xxx''" "al_status sample_alert = ''OPEN''"
  "al_user_id sample_alert = Some 2" "al_id sample_alert = 1"
  by (simp_all add: sample_alert_def new_alert_def sample_event_def sample_env_def numeral_3_eq_3)

lemma sample_store_alerts [simp]: "st_alerts sample_store = [sample_alert]"
  by (simp add: sample_store_def sample_alert_def)

text \<open>The four triage operations as commands.\<close>

datatype triage_cmd =
    Acknowledge string "string option" "string option" "string option"
  | Resolve string "string option" "string option" "string option" "string option"
  | Dismiss string "string option" "string option" "string option" "string option" "string option"
  | Reopen string "string option" "string option" "string option" "string option"

primrec run_triage ::
  "env \<Rightarrow> user \<Rightarrow> triage_cmd \<Rightarrow> store \<Rightarrow> (alert_error + alert) \<times> store" where
  "run_triage e u (Acknowledge uuid notes tn ip) s = acknowledge_alert e uuid u notes tn ip s"
| "run_triage e u (Resolve uuid notes rn tn ip) s = resolve_alert e uuid u notes rn tn ip s"
| "run_triage e u (Dismiss uuid dr rs tn notes ip) s = dismiss_alert e uuid u dr rs tn notes ip s"
| "run_triage e u (Reopen uuid rn notes tn ip) s = reopen_alert e uuid u rn notes tn ip s"

primrec triage_target :: "triage_cmd \<Rightarrow> AlertStatus" where
  "triage_target (Acknowledge uuid notes tn ip) = A_ACKNOWLEDGED"
| "triage_target (Resolve uuid notes rn tn ip) = A_RESOLVED"
| "triage_target (Dismiss uuid dr rs tn notes ip) = A_DISMISSED"
| "triage_target (Reopen uuid rn notes tn ip) = A_OPEN"

primrec triage_uuid :: "triage_cmd \<Rightarrow> string" where
  "triage_uuid (Acknowledge uuid notes tn ip) = uuid"
| "triage_uuid (Resolve uuid notes rn tn ip) = uuid"
| "triage_uuid (Dismiss uuid dr rs tn notes ip) = uuid"
| "triage_uuid (Reopen uuid rn notes tn ip) = uuid"

lemma run_triage_effect:
  assumes "run_triage e u c s = (r, s')"
  shows "s' = s \<and> (\<forall>a. r = Inr a \<longrightarrow>
           triage_guard (triage_target c) (triage_uuid c) u s = Inr (a, True)) \<or>
     (\<exists>a f. good_update (triage_target c) f \<and> r = Inr (f a) \<and>
        triage_effect (triage_target c) f (triage_uuid c) u s s' a)"
proof (cases c)
  case (Acknowledge uuid nts tn ip)
  then show ?thesis
    using assms acknowledge_effect good_updates(1) by (simp; blast)
next
  case (Resolve uuid nts rn tn ip)
  then show ?thesis
    using assms resolve_effect good_updates(2) by (simp; blast)
next
  case (Dismiss uuid dr rs tn nts ip)
  show ?thesis
  proof (cases "length (dismiss_reason_of dr rs) < 3")
    case True
    then show ?thesis using assms Dismiss dismiss_short by auto
  next
    case False
    then show ?thesis
      using assms Dismiss dismiss_effect [of e uuid u dr rs tn nts ip s r s'] good_updates(3)
      by (simp add: not_less) blast
  qed
next
  case (Reopen uuid rn nts tn ip)
  then show ?thesis
    using assms reopen_effect good_updates(4) by (simp; blast)
qed

lemma run_triage_ids: "store_ids s \<Longrightarrow> run_triage e u c s = (r, s') \<Longrightarrow> store_ids s'"
  by (drule run_triage_effect)
     (auto simp: good_update_def same_identity_def intro: triage_effect_ids)

definition triage_actor :: "env \<times> user \<times> triage_cmd \<Rightarrow> nat option" where
  "triage_actor x = (case x of (e, u, c) \<Rightarrow> if is_admin u then None else Some (usr_id u))"

definition triage_exec :: "env \<times> user \<times> triage_cmd \<Rightarrow> store \<Rightarrow> store" where
  "triage_exec x s = (case x of (e, u, c) \<Rightarrow> snd (run_triage e u c s))"

lemma triage_foreign:
  assumes "store_ids s" "run_triage e u c s = (r, s')" "\<not> is_admin u" "v \<noteq> Some (usr_id u)"
  shows "filter (\<lambda>a. al_user_id a = v) (st_alerts s') = filter (\<lambda>a. al_user_id a = v) (st_alerts s)"
  using run_triage_effect [OF assms(2)]
proof (elim disjE exE conjE)
  fix a f
  assume g: "good_update (triage_target c) f"
    and t: "triage_effect (triage_target c) f (triage_uuid c) u s s' a"
  have "al_user_id a = Some (usr_id u)"
    using t assms(3) triage_guard_False by (fastforce simp: triage_effect_def)
  then show ?thesis
    using g assms(4) unfolding triage_effect_rows [OF assms(1) t]
    by (intro filter_map_upd) (auto simp: good_update_def same_identity_def)
qed simp

interpretation alert_tenants: tenant_isolated al_user_id st_alerts triage_actor triage_exec store_ids
proof
  fix s c
  assume "store_ids s"
  then show "store_ids (triage_exec c s)"
    by (cases c) (auto simp: triage_exec_def intro: run_triage_ids [OF _ surjective_pairing])
next
  fix s c u v
  assume "store_ids s" "triage_actor c = Some u" "v \<noteq> Some u"
  then show "filter (\<lambda>r. al_user_id r = v) (st_alerts (triage_exec c s)) =
             filter (\<lambda>r. al_user_id r = v) (st_alerts s)"
    by (cases c) (auto simp: triage_actor_def triage_exec_def split: if_splits
          intro!: triage_foreign [OF _ surjective_pairing])
qed

text \<open>
  A triage call that changes anything follows the transition table.  Either the store is
  exactly as before (the errors, and the self-transition, which answers with the row itself),
  or one alert the caller can see moves from its status to the operation's target along an edge
  of \<open>ALERT_STATUS_TRANSITIONS\<close>, keeping its identity, severity and count, and every other row
  is untouched.
\<close>

theorem triage_follows_table:
  assumes "store_ids s" "run_triage e u c s = (r, s')"
  shows "s' = s \<and> (\<forall>a. r = Inr a \<longrightarrow> a \<in> set (st_alerts s) \<and>
            al_status a = AlertStatus_value (triage_target c)) \<or>
     (\<exists>a\<in>set (st_alerts s). \<exists>b cur. r = Inr b \<and> same_identity a b \<and>
        al_uuid a = str_strip (triage_uuid c) \<and>
        (is_admin u \<or> al_user_id a = Some (usr_id u)) \<and>
        al_status a = AlertStatus_value cur \<and> triage_target c \<in> ALERT_STATUS_TRANSITIONS cur \<and>
        al_status b = AlertStatus_value (triage_target c) \<and> al_severity b = al_severity a \<and>
        al_occurrence_count b = al_occurrence_count a \<and>
        st_alerts s' = map (\<lambda>x. if x = a then b else x) (st_alerts s))"
  using run_triage_effect [OF assms(2)]
proof (elim disjE exE conjE)
  fix a f
  assume g: "good_update (triage_target c) f" and r: "r = Inr (f a)"
    and t: "triage_effect (triage_target c) f (triage_uuid c) u s s' a"
  have "a \<in> set (st_alerts s) \<and> al_uuid a = str_strip (triage_uuid c) \<and>
      (is_admin u \<or> al_user_id a = Some (usr_id u)) \<and>
      (\<exists>cur. al_status a = AlertStatus_value cur \<and>
         triage_target c \<in> ALERT_STATUS_TRANSITIONS cur)"
    using t triage_guard_False unfolding triage_effect_def by blast
  then show ?thesis
    using g r triage_effect_rows [OF assms(1) t] unfolding good_update_def by blast
qed (auto dest: triage_guard_True)

lemma sample_resolve:
  "\<exists>b s'. run_triage (sample_env 5) bob (Resolve ''uuid-xxx'' None None None None) sample_store
            = (Inr b, s') \<and> al_status b = ''RESOLVED'' \<and> s' \<noteq> sample_store"
proof -
  have g: "triage_guard A_RESOLVED ''uuid-xxx'' bob sample_store = Inr (sample_alert, False)"
    by (simp add: triage_guard_def lock_and_get_alert_def find_alert_def visible_alerts_def
          first_row_def AlertStatus_of_def str_strip_def is_space_def)
  let ?s' = "snd (run_triage (sample_env 5) bob (Resolve ''uuid-xxx'' None None None None) sample_store)"
  have "st_audits ?s' \<noteq> st_audits sample_store"
    using g by (simp add: resolve_alert_def triage_commit_def Let_def)
  then have "?s' \<noteq> sample_store" by metis
  moreover have "fst (run_triage (sample_env 5) bob (Resolve ''uuid-xxx'' None None None None)
      sample_store) = Inr (resolve_update (sample_env 5) None sample_alert)"
    using g by (simp add: resolve_alert_def Let_def split_beta str_or_def)
  ultimately show ?thesis
    by (intro exI [of _ "resolve_update (sample_env 5) None sample_alert"] exI [of _ ?s'])
       (auto simp: resolve_update_def prod_eq_iff)
qed

theorem triage_follows_table_witness:
  "\<exists>b s'. run_triage (sample_env 5) bob (Resolve ''uuid-xxx'' None None None None) sample_store
            = (Inr b, s') \<and> al_status b = ''RESOLVED'' \<and> st_alerts s' = [b]"
proof -
  obtain b s' where r: "run_triage (sample_env 5) bob (Resolve ''uuid-xxx'' None None None None)
      sample_store = (Inr b, s')" "s' \<noteq> sample_store"
    using sample_resolve by blast
  show ?thesis
    using r(2) triage_follows_table [OF sample_store_ids r(1)] r(1) by auto
qed

text \<open>
  Tenant isolation of triage.  Whatever sequence of triage operations other tenants run
  (each by a user who is not an administrator), the alerts of a tenant, and the system alerts,
  stay in the table unchanged.
\<close>

theorem triage_isolated:
  assumes "store_ids s"
    and "\<forall>(e, u, c)\<in>set cs. \<not> is_admin u \<and> v \<noteq> Some (usr_id u)"
  shows "filter (\<lambda>a. al_user_id a = v) (st_alerts (fold triage_exec cs s)) =
         filter (\<lambda>a. al_user_id a = v) (st_alerts s)"
  using assms by (intro alert_tenants.run_foreign) (auto simp: triage_actor_def)

theorem triage_isolated_witness:
  "filter (\<lambda>a. al_user_id a = Some 2) (st_alerts (fold triage_exec
      [(sample_env 5, alice, Resolve (al_uuid sample_alert) None None None None),
       (sample_env 6, alice, Dismiss (al_uuid sample_alert) (Some ''noise'') None None None None)]
      sample_store)) = [sample_alert]"
  using triage_isolated [OF sample_store_ids, of
      "[(sample_env 5, alice, Resolve (al_uuid sample_alert) None None None None),
        (sample_env 6, alice, Dismiss (al_uuid sample_alert) (Some ''noise'') None None None None)]"
      "Some 2"]
  by simp

text \<open>
  A triage call that changes the store leaves exactly one audit row, by the caller and
  about the alert, and exactly one row in the event stream, for the alert's tenant; the row
  takes the next cursor of the stream and is broadcast once, under that cursor.
\<close>

theorem triage_audited:
  assumes "run_triage e u c s = (r, s')" "s' \<noteq> s"
  shows "\<exists>b au ev. r = Inr b \<and>
     st_audits s' = st_audits s @ [au] \<and> au_actor_user_id au = Some (usr_id u) \<and>
     au_target_resource au = ''alerts'' \<and> au_resource_id au = al_uuid b \<and>
     st_stream s' = st_stream s @ [ev] \<and> se_cursor_id ev = sq_stream s \<and>
     sq_stream s' = Suc (sq_stream s) \<and> se_tenant_id ev = tenant_of (al_user_id b) \<and>
     se_aggregate_id ev = Some (al_uuid b) \<and> st_bus s' = st_bus s @ [publish_of ev]"
proof -
  obtain a f where g: "good_update (triage_target c) f" and r: "r = Inr (f a)"
    and t: "triage_effect (triage_target c) f (triage_uuid c) u s s' a"
    using run_triage_effect [OF assms(1)] assms(2) by blast
  obtain e' ip action details payload nt where s':
      "s' = snd (triage_commit e' u ip action details payload a f nt s)"
    using t by (auto simp: triage_effect_def)
  have b: "al_uuid (f a) = al_uuid a" "al_user_id (f a) = al_user_id a"
    using g by (simp_all add: good_update_def same_identity_def)
  show ?thesis
    unfolding r s' triage_commit_def Let_def
    by (cases nt)
       (auto simp: b create_audit_event_def alert_soc_event_def add_notification_def)
qed

theorem triage_audited_witness:
  "\<exists>b s' au ev. run_triage (sample_env 5) bob (Resolve ''uuid-xxx'' None None None None) sample_store
            = (Inr b, s') \<and> st_audits s' = st_audits sample_store @ [au] \<and>
     st_stream s' = st_stream sample_store @ [ev] \<and>
     st_bus s' = st_bus sample_store @ [publish_of ev]"
proof -
  obtain b s' where r: "run_triage (sample_env 5) bob (Resolve ''uuid-xxx'' None None None None)
      sample_store = (Inr b, s')" "s' \<noteq> sample_store"
    using sample_resolve by blast
  show ?thesis
    using triage_audited [OF r(1,2)] r(1) by auto
qed

text \<open>
  C38: the alert table stays well formed in every run of the service, whatever the order of
  events, lost insert races and triage calls: each alert has a known severity and status, at
  least one occurrence, and exactly the lifecycle timestamps its status calls for (an open alert
  has none, a resolved one is never also dismissed, a dismissed one has a reason of at least
  three characters).
\<close>

theorem alert_lifecycle_invariant:
  assumes "(alert_step sha psl)\<^sup>*\<^sup>* s s'" "alerts_ok s"
  shows "alerts_ok s'"
  using assms by (induction rule: rtranclp_induct) (auto intro: alert_step_ok)

theorem alert_lifecycle_invariant_witness:
  "\<exists>s'. alert_step sample_sha sample_psl empty_store s' \<and> alerts_ok s' \<and> st_alerts s' \<noteq> []"
proof -
  obtain a s' where r: "process_event sample_sha sample_psl None (sample_env 0)
      (sample_event HIGH (Some 1)) None None empty_store = (Inr (a, True), s')"
    using first_event_created by blast
  then have st: "alert_step sample_sha sample_psl empty_store s'"
    by (rule alert_step.event)
  moreover have "st_alerts s' \<noteq> []"
    using r by (auto elim!: process_event_cases)
  ultimately show ?thesis
    using alert_lifecycle_invariant [OF r_into_rtranclp [of "alert_step sample_sha sample_psl", OF st]
        alerts_ok_empty] by blast
qed

text \<open>
  Telemetry.  On a well-formed table the counts per status add up to the alerts the caller
  can see, and so do the counts per severity; the 24-hour count is at most that, and the
  deduplication savings ratio lies between 0 and 1.
\<close>

theorem alert_stats_consistent:
  assumes "alerts_ok s"
  shows "let t = get_alert_stats e u s in
     total_alerts t = length (visible_alerts u s) \<and>
     open_alerts t + acknowledged_alerts t + resolved_alerts t + dismissed_alerts t = total_alerts t \<and>
     sum_list (map snd (by_status t)) = total_alerts t \<and>
     sum_list (map snd (by_severity t)) = total_alerts t \<and>
     alerts_last_24h t \<le> total_alerts t \<and>
     0 \<le> dedup_savings_ratio t \<and> dedup_savings_ratio t \<le> 1"
proof -
  let ?st = "[''OPEN'', ''ACKNOWLEDGED'', ''RESOLVED'', ''DISMISSED'']"
  let ?sv = "[''CRITICAL'', ''HIGH'', ''MEDIUM'', ''LOW'', ''INFO'']"
  have vis: "alert_ok a" if "a \<in> set (visible_alerts u s)" for a
    using that assms by (auto simp: alerts_ok_def visible_alerts_def)
  have "status_key a \<in> set ?st" if "alert_ok a" for a
    using that by (auto simp: alert_ok_def status_key_def AlertStatus_of_Some)
       (case_tac st; simp add: str_upper_def upper_char_def)
  then have 1: "sum_list (map snd (count_rows status_key ?st (visible_alerts u s))) =
      length (visible_alerts u s)"
    using vis by (intro count_rows_total) auto
  have "severity_key a \<in> set ?sv" if ok: "alert_ok a" for a
  proof -
    obtain v where "EventSeverity_of (al_severity a) = Some v"
      using ok by (cases "EventSeverity_of (al_severity a)") (simp_all add: alert_ok_def)
    then have "EventSeverity_value v = al_severity a"
      using EventSeverity_of_Some by simp
    then show ?thesis
      by (cases v) (auto simp: severity_key_def str_upper_def upper_char_def dest: sym)
  qed
  then have 2: "sum_list (map snd (count_rows severity_key ?sv (visible_alerts u s))) =
      length (visible_alerts u s)"
    using vis by (intro count_rows_total) auto
  have 3: "0 \<le> savings_ratio d n \<and> savings_ratio d n \<le> 1" for d n
    by (simp add: savings_ratio_def)
  show ?thesis
    using 1 2 3 by (simp add: get_alert_stats_def Let_def map_of_count_rows)
      (simp add: count_rows_def)
qed

theorem alert_stats_consistent_witness:
  "total_alerts (get_alert_stats (sample_env 0) alice empty_store) =
   length (visible_alerts alice empty_store)"
  using alert_stats_consistent [OF alerts_ok_empty, of "sample_env 0" alice] by (simp add: Let_def)

text \<open>
  The stream event of a new system alert carries no id.  When the event has no user (or
  user 0) the payload is built before the row is flushed, so both the payload's \<open>id\<close> and the
  aggregate id are null although the alert row has a uuid; for a tenant's alert both are the
  uuid.
\<close>

theorem system_alert_event_without_id:
  "let r = process_new e rule fp ev inc s; row = last (st_stream (snd r)) in
     (truthy_nat (ev_user_id ev) \<longrightarrow> se_aggregate_id row = Some (al_uuid (fst r)) \<and>
        dict_get (se_payload row) ''id'' = Some (JStr (al_uuid (fst r)))) \<and>
     (\<not> truthy_nat (ev_user_id ev) \<longrightarrow> se_aggregate_id row = None \<and>
        dict_get (se_payload row) ''id'' = Some JNull)"
  by (auto simp: process_new_def alert_soc_event_def visible_uuid_def created_payload_def
        dict_get_def json_str_def Let_def split_beta)

theorem system_alert_event_without_id_witness:
  "se_aggregate_id (last (st_stream (snd (process_new (sample_env 0) ''R'' ''fp''
      (sample_event HIGH None) None empty_store)))) = None"
  using system_alert_event_without_id [of "sample_env 0" "''R''" "''fp''" "sample_event HIGH None"
      None empty_store]
  by (simp add: Let_def sample_event_def)

end
