(* ===== verification/Correlation.thy ===== *)
theory Correlation
  imports Domain Samples
begin

text \<open>
  \<open>backend/services/correlation_engine.py\<close>: the weighted score of two normalised indicators
  and the correlation of an event with the tenant's alerts of the last 24 hours.  Scores are
  integers in units of 0.0001: every sum of weights is a multiple of it, so \<open>round(score, 4)\<close>
  changes nothing.  \<open>query_ok\<close> is whether the database query succeeds.
\<close>

definition CORRELATION_WEIGHT_DOMAIN :: int where "CORRELATION_WEIGHT_DOMAIN = 4000"
definition CORRELATION_WEIGHT_PATH :: int where "CORRELATION_WEIGHT_PATH = 2500"
definition CORRELATION_WEIGHT_INTEL :: int where "CORRELATION_WEIGHT_INTEL = 2500"
definition CORRELATION_WEIGHT_DEDICATED_IP :: int where "CORRELATION_WEIGHT_DEDICATED_IP = 1000"
definition CORRELATION_THRESHOLD :: int where "CORRELATION_THRESHOLD = 6500"
definition CORRELATION_WINDOW_HOURS :: int where "CORRELATION_WINDOW_HOURS = 24"

lemmas correlation_constants =
  CORRELATION_WEIGHT_DOMAIN_def CORRELATION_WEIGHT_PATH_def CORRELATION_WEIGHT_INTEL_def
  CORRELATION_WEIGHT_DEDICATED_IP_def CORRELATION_THRESHOLD_def

record CorrelationResult =
  cr_score :: int
  cr_is_correlated :: bool
  cr_matching_alert_ids :: "nat list"
  cr_matched_indicators :: "string list"
  cr_details :: dict

definition compute_correlation_score ::
  "norm_domain \<Rightarrow> norm_domain \<Rightarrow> bool \<Rightarrow> bool \<Rightarrow> int" where
  "compute_correlation_score ev cand ev_intel cand_intel =
     (if \<not> nd_is_shared_infra ev \<and> \<not> nd_is_shared_infra cand \<and>
         truthy_str (nd_registered_domain ev) \<and> truthy_str (nd_registered_domain cand) \<and>
         nd_registered_domain ev = nd_registered_domain cand
      then CORRELATION_WEIGHT_DOMAIN else 0) +
     (if nd_path ev \<noteq> ''/'' \<and> nd_path cand \<noteq> ''/'' \<and> nd_path ev = nd_path cand
      then CORRELATION_WEIGHT_PATH else 0) +
     (if ev_intel \<and> cand_intel then CORRELATION_WEIGHT_INTEL else 0) +
     (if nd_is_ip ev \<and> nd_is_ip cand \<and> nd_registered_domain ev = nd_registered_domain cand
      then CORRELATION_WEIGHT_DEDICATED_IP else 0)"

definition event_has_intel :: "SecurityEvent \<Rightarrow> bool" where
  "event_has_intel ev =
     (EventType_value (event_type ev) \<in> {''ZERO_DAY_DETECTED'', ''HIGH_RISK_ENRICHMENT''} \<or>
      (case dict_get (ev_payload ev) ''has_intel'' of None \<Rightarrow> False | Some j \<Rightarrow> truthy_json j))"

definition recent_alerts :: "env \<Rightarrow> SecurityEvent \<Rightarrow> store \<Rightarrow> alert list" where
  "recent_alerts e ev s =
     take 100 (sort_key (\<lambda>a. - al_last_seen_at a)
       (filter (\<lambda>a. al_first_seen_at a \<ge> now e - hours CORRELATION_WINDOW_HOURS \<and>
                   al_user_id a = ev_user_id ev) (st_alerts s)))"

definition alert_score ::
  "(string \<Rightarrow> string \<times> string) \<Rightarrow> SecurityEvent \<Rightarrow> alert \<Rightarrow> int" where
  "alert_score psl ev a =
     compute_correlation_score (normalize_canonical_domain psl (indicator_value ev))
       (normalize_canonical_domain psl (al_indicator_value a)) (event_has_intel ev)
       (al_rule_name a \<in> {''ZERO_DAY_INGESTION'', ''HIGH_RISK_ENRICHMENT''})"

definition correlate_step ::
  "(string \<Rightarrow> string \<times> string) \<Rightarrow> SecurityEvent \<Rightarrow> alert \<Rightarrow> int \<times> nat list \<times> string list \<Rightarrow>
   int \<times> nat list \<times> string list" where
  "correlate_step psl ev a acc =
     (case acc of (best, ids, inds) \<Rightarrow>
        let score = alert_score psl ev a;
            best' = (if score > best then score else best)
        in if score \<ge> CORRELATION_THRESHOLD
           then (best', ids @ [al_id a], inds @ [al_indicator_value a])
           else (best', ids, inds))"

definition correlate_event ::
  "(string \<Rightarrow> string \<times> string) \<Rightarrow> bool \<Rightarrow> env \<Rightarrow> SecurityEvent \<Rightarrow> store \<Rightarrow> CorrelationResult" where
  "correlate_event psl query_ok e ev s =
     (if \<not> query_ok
      then \<lparr>cr_score = 0, cr_is_correlated = False, cr_matching_alert_ids = [],
            cr_matched_indicators = [], cr_details = [(''error'', JStr ''query failed'')]\<rparr>
      else
        let n = normalize_canonical_domain psl (indicator_value ev);
            (best, ids, inds) = fold (correlate_step psl ev) (recent_alerts e ev s) (0, [], [])
        in \<lparr>cr_score = best, cr_is_correlated = best \<ge> CORRELATION_THRESHOLD,
            cr_matching_alert_ids = ids, cr_matched_indicators = inds,
            cr_details =
              [(''event_indicator'', JStr (indicator_value ev)),
               (''normalized_domain'', json_str (nd_registered_domain n)),
               (''is_shared_infra'', JBool (nd_is_shared_infra n)),
               (''candidates_evaluated'', JInt (int (length (recent_alerts e ev s))))]\<rparr>)"

subsection \<open>Lemmas\<close>

text \<open>
  Reaching the threshold takes the domain weight and, beside it, the path or the intelligence
  weight: the other factors together stay below.
\<close>

lemma score_threshold:
  "compute_correlation_score ev cand ei ci \<ge> CORRELATION_THRESHOLD \<longleftrightarrow>
     (\<not> nd_is_shared_infra ev \<and> \<not> nd_is_shared_infra cand \<and>
      truthy_str (nd_registered_domain ev) \<and> nd_registered_domain ev = nd_registered_domain cand) \<and>
     ((nd_path ev \<noteq> ''/'' \<and> nd_path ev = nd_path cand) \<or> (ei \<and> ci))"
  by (auto simp: compute_correlation_score_def correlation_constants)

lemma score_bounds:
  "0 \<le> compute_correlation_score ev cand ei ci" "compute_correlation_score ev cand ei ci \<le> 10000"
  by (auto simp: compute_correlation_score_def correlation_constants)

lemma score_sym:
  "compute_correlation_score ev cand ei ci = compute_correlation_score cand ev ci ei"
  by (auto simp: compute_correlation_score_def)

lemma correlate_fold:
  "fold (correlate_step psl ev) as (b, ids, inds) =
     (fold (\<lambda>a m. max m (alert_score psl ev a)) as b,
      ids @ map al_id (filter (\<lambda>a. alert_score psl ev a \<ge> CORRELATION_THRESHOLD) as),
      inds @ map al_indicator_value (filter (\<lambda>a. alert_score psl ev a \<ge> CORRELATION_THRESHOLD) as))"
  by (induction as arbitrary: b ids inds) (auto simp: correlate_step_def Let_def max_def)

lemma fold_max_ge: "(t::int) \<le> fold (\<lambda>a m. max m (f a)) as b \<longleftrightarrow> t \<le> b \<or> (\<exists>a\<in>set as. t \<le> f a)"
  by (induction as arbitrary: b) (auto simp: max_def)

lemma recent_alerts_set:
  "a \<in> set (recent_alerts e ev s) \<Longrightarrow>
   a \<in> set (st_alerts s) \<and> al_user_id a = ev_user_id ev \<and> al_first_seen_at a \<ge> now e - hours 24"
  by (auto simp: recent_alerts_def CORRELATION_WINDOW_HOURS_def dest!: in_set_takeD)

subsection \<open>Properties\<close>

text \<open>
  Correlation is sound, scoped and explained.  The alerts matched to an event are exactly
  those among the 100 most recent alerts of the event's own tenant, first seen in the last 24
  hours, whose indicator has the event's registered domain (one that is not shared
  infrastructure) and beside it the same path below the root or threat intelligence on both
  sides; the event counts as correlated if and only if there is such an alert, and the score
  stays between 0 and 1.
\<close>

theorem correlate_event_sound:
  "let r = correlate_event psl True e ev s;
       n = normalize_canonical_domain psl (indicator_value ev);
       hits = filter (\<lambda>a. let m = normalize_canonical_domain psl (al_indicator_value a) in
          \<not> nd_is_shared_infra n \<and> \<not> nd_is_shared_infra m \<and> nd_registered_domain n \<noteq> None \<and>
          nd_registered_domain n = nd_registered_domain m \<and>
          (nd_path n \<noteq> ''/'' \<and> nd_path n = nd_path m \<or>
           event_has_intel ev \<and> al_rule_name a \<in> {''ZERO_DAY_INGESTION'', ''HIGH_RISK_ENRICHMENT''}))
          (recent_alerts e ev s)
   in cr_matching_alert_ids r = map al_id hits \<and>
      cr_matched_indicators r = map al_indicator_value hits \<and>
      cr_is_correlated r = (hits \<noteq> []) \<and> 0 \<le> cr_score r \<and> cr_score r \<le> 10000 \<and>
      set hits \<subseteq> {a\<in>set (st_alerts s). al_user_id a = ev_user_id ev \<and>
                   al_first_seen_at a \<ge> now e - hours 24}"
proof -
  let ?n = "normalize_canonical_domain psl (indicator_value ev)"
  have reg: "truthy_str (nd_registered_domain ?n) \<longleftrightarrow> nd_registered_domain ?n \<noteq> None"
    using normalize_norm_ok [of psl "indicator_value ev"]
    by (cases "nd_registered_domain ?n") (auto simp: norm_ok_def)
  have thr: "alert_score psl ev a \<ge> CORRELATION_THRESHOLD \<longleftrightarrow>
      (let m = normalize_canonical_domain psl (al_indicator_value a) in
          \<not> nd_is_shared_infra ?n \<and> \<not> nd_is_shared_infra m \<and> nd_registered_domain ?n \<noteq> None \<and>
          nd_registered_domain ?n = nd_registered_domain m \<and>
          (nd_path ?n \<noteq> ''/'' \<and> nd_path ?n = nd_path m \<or>
           event_has_intel ev \<and> al_rule_name a \<in> {''ZERO_DAY_INGESTION'', ''HIGH_RISK_ENRICHMENT''}))"
    for a
    unfolding alert_score_def score_threshold reg Let_def by blast
  let ?A = "recent_alerts e ev s"
  have best: "fold (\<lambda>a m. max m (alert_score psl ev a)) as b \<le> 10000 \<and>
      0 \<le> fold (\<lambda>a m. max m (alert_score psl ev a)) as b" if "0 \<le> b" "b \<le> 10000" for as b
    using that
    by (induction as arbitrary: b) (auto simp: alert_score_def score_bounds)
  have corr: "CORRELATION_THRESHOLD \<le> fold (\<lambda>a m. max m (alert_score psl ev a)) ?A 0 \<longleftrightarrow>
      (\<exists>a\<in>set ?A. CORRELATION_THRESHOLD \<le> alert_score psl ev a)"
    unfolding fold_max_ge by (simp add: CORRELATION_THRESHOLD_def)
  have hits: "filter (\<lambda>a. CORRELATION_THRESHOLD \<le> alert_score psl ev a) ?A \<noteq> [] \<longleftrightarrow>
      (\<exists>a\<in>set ?A. CORRELATION_THRESHOLD \<le> alert_score psl ev a)"
    by (auto simp: filter_empty_conv)
  have sub: "set (filter p ?A) \<subseteq> {a\<in>set (st_alerts s). al_user_id a = ev_user_id ev \<and>
                   al_first_seen_at a \<ge> now e - hours 24}" for p
    using recent_alerts_set [of _ e ev s] by auto
  show ?thesis
    unfolding correlate_event_def Let_def thr [unfolded Let_def, symmetric] correlate_fold
    using best [of 0 ?A] corr hits sub by simp
qed

text \<open>
  Shared hosting never correlates.  The score is symmetric, and two indicators under a
  registered domain of shared infrastructure (github.io, vercel.app and the like) stay below the
  threshold, whatever their paths and intelligence.
\<close>

theorem shared_infrastructure_never_correlates:
  "compute_correlation_score n m ni mi = compute_correlation_score m n mi ni \<and>
   (nd_registered_domain (normalize_canonical_domain psl raw) \<in> Some ` set SHARED_INFRASTRUCTURE_DOMAINS \<and>
    \<not> nd_is_ip (normalize_canonical_domain psl raw) \<longrightarrow>
    compute_correlation_score (normalize_canonical_domain psl raw) m ni mi < CORRELATION_THRESHOLD)"
proof -
  have "\<not> CORRELATION_THRESHOLD \<le> compute_correlation_score (normalize_canonical_domain psl raw) m ni mi"
    if "nd_registered_domain (normalize_canonical_domain psl raw) \<in> Some ` set SHARED_INFRASTRUCTURE_DOMAINS"
      "\<not> nd_is_ip (normalize_canonical_domain psl raw)"
  proof -
    have "nd_is_shared_infra (normalize_canonical_domain psl raw)"
      using that normalize_norm_ok [of psl raw] unfolding norm_ok_def by auto
    then show ?thesis by (simp add: score_threshold)
  qed
  then show ?thesis
    using score_sym by auto
qed

definition pages_psl :: "string \<Rightarrow> string \<times> string" where
  "pages_psl h = (''github.io'', ''mallory'')"

theorem shared_infrastructure_never_correlates_witness:
  "compute_correlation_score (normalize_canonical_domain pages_psl ''http://mallory.github.io/login'')
     (normalize_canonical_domain pages_psl ''http://mallory.github.io/login'') True True
   < CORRELATION_THRESHOLD"
proof -
  have "nd_registered_domain (normalize_canonical_domain pages_psl ''http://mallory.github.io/login'')
      = Some ''github.io''"
    "\<not> nd_is_ip (normalize_canonical_domain pages_psl ''http://mallory.github.io/login'')"
    by code_simp+
  then show ?thesis
    using shared_infrastructure_never_correlates
    by (metis image_eqI list.set_intros(1) SHARED_INFRASTRUCTURE_DOMAINS_def)
qed

end
