(* ===== verification/Incidents.thy ===== *)
theory Incidents
  imports Alerts "HOL-Library.List_Lexorder" "HOL-Library.Char_ord"
begin

text \<open>
  \<open>backend/services/incident_service.py\<close>: audit sanitisation, the aggregate summary, and the
  operations on incidents (create, get or create for a threat, read, list, update, attach and
  detach alerts).  \<open>ok n\<close> is whether the \<open>n\<close>-th guarded commit of a call succeeds; when it does
  not, the session is rolled back and \<open>IncidentServiceError\<close> is raised.  An operation that
  raises leaves what it had committed before.
\<close>

datatype incident_error =
    IncidentServiceError
  | IncidentNotFoundError
  | IncidentAccessDeniedError
  | IncidentConflictError
  | IncidentValidationError

subsection \<open>Audit details\<close>

definition SENSITIVE_KEYWORDS :: "string list" where
  "SENSITIVE_KEYWORDS =
     [''password'', ''jwt'', ''secret'', ''token'', ''auth'', ''key'', ''authorization'',
      ''cookie'', ''api_key'', ''bearer'', ''passwd'', ''credential'']"

definition is_sensitive_key :: "string \<Rightarrow> bool" where
  "is_sensitive_key k = list_ex (\<lambda>kw. contains kw (str_lower k)) SENSITIVE_KEYWORDS"

definition is_container :: "json \<Rightarrow> bool" where
  "is_container j = (case j of JObj d \<Rightarrow> True | JList xs \<Rightarrow> True | _ \<Rightarrow> False)"

definition printable :: "char \<Rightarrow> bool" where
  "printable c =
     (let n = of_char c :: nat in n = 10 \<or> n = 9 \<or> (32 \<le> n \<and> n \<le> 126) \<or> n > 127)"

definition sanitize_text :: "string \<Rightarrow> string" where
  "sanitize_text s =
     (let clean = filter printable s
      in if starts_with ''bearer '' (str_lower clean) \<or> starts_with ''basic '' (str_lower clean)
         then ''[REDACTED]'' else clean)"

fun sanitize_details :: "json \<Rightarrow> json" where
  "sanitize_details (JObj d) =
     JObj (map (\<lambda>(k, v). (k, if \<not> is_container v \<and> is_sensitive_key k then JStr ''[REDACTED]''
                             else sanitize_details v)) d)"
| "sanitize_details (JList xs) = JList (map sanitize_details xs)"
| "sanitize_details (JStr s) = JStr (sanitize_text s)"
| "sanitize_details j = j"

definition sanitize_dict :: "dict \<Rightarrow> dict" where
  "sanitize_dict d = (case sanitize_details (JObj d) of JObj d' \<Rightarrow> d' | _ \<Rightarrow> d)"

definition incident_audit ::
  "env \<Rightarrow> nat \<Rightarrow> string \<Rightarrow> nat option \<Rightarrow> string \<Rightarrow> dict \<Rightarrow> string option \<Rightarrow> store \<Rightarrow> store" where
  "incident_audit e i action actor rid details ip s =
     add_audit (create_audit_event e i action actor ''Incident'' rid (sanitize_dict details) ip) s"

subsection \<open>Summaries\<close>

record IncidentAggregateSummary =
  sm_alert_count :: nat
  sm_highest_severity :: string
  sm_first_seen_at :: time
  sm_last_seen_at :: time
  sm_affected_indicators :: "string list"
  sm_affected_domains :: "string list"
  sm_affected_ips :: "string list"

definition incident_alerts :: "nat \<Rightarrow> store \<Rightarrow> alert list" where
  "incident_alerts i s = filter (\<lambda>a. al_incident_id a = Some i) (st_alerts s)"

text \<open>\<open>norm.get(key)\<close> on the dict that \<open>normalize_canonical_domain\<close> returns.\<close>

definition norm_get :: "norm_domain \<Rightarrow> string \<Rightarrow> json" where
  "norm_get n k =
     (case map_of
        [(''raw'', JStr (nd_raw n)), (''registered_domain'', json_str (nd_registered_domain n)),
         (''fqdn'', json_str (nd_fqdn n)), (''path'', JStr (nd_path n)),
         (''is_ip'', JBool (nd_is_ip n)), (''is_shared_infra'', JBool (nd_is_shared_infra n))] k of
        None \<Rightarrow> JNull | Some v \<Rightarrow> v)"

definition summary_domain :: "(string \<Rightarrow> string \<times> string) \<Rightarrow> alert \<Rightarrow> string list" where
  "summary_domain psl a =
     (let val = str_strip (al_indicator_value a); n = normalize_canonical_domain psl val;
          dom = str_or (nd_registered_domain n) (nd_fqdn n)
      in if str_upper (al_indicator_type a) = ''IP'' then []
         else if truthy_str dom then [the dom] else [])"

definition summary_ip :: "(string \<Rightarrow> string \<times> string) \<Rightarrow> alert \<Rightarrow> string list" where
  "summary_ip psl a =
     (let val = str_strip (al_indicator_value a); n = normalize_canonical_domain psl val
      in if str_upper (al_indicator_type a) = ''IP'' then [val]
         else if truthy_json (norm_get n ''has_ip'')
              then (case norm_get n ''host'' of JStr h \<Rightarrow> if h = [] then [val] else [h] | _ \<Rightarrow> [val])
              else [])"

definition highest_severity :: "string \<Rightarrow> alert list \<Rightarrow> string" where
  "highest_severity sev as =
     fold (\<lambda>a acc. if get_severity_rank (al_severity a) > get_severity_rank acc
                   then al_severity a else acc) as sev"

definition sorted_set :: "string list \<Rightarrow> string list" where
  "sorted_set xs = sort (remdups xs)"

definition build_summary ::
  "(string \<Rightarrow> string \<times> string) \<Rightarrow> incident \<Rightarrow> store \<Rightarrow> IncidentAggregateSummary" where
  "build_summary psl i s =
     (let as = incident_alerts (in_id i) s
      in if as = [] then
           \<lparr>sm_alert_count = 0, sm_highest_severity = in_severity i,
            sm_first_seen_at = in_created_at i, sm_last_seen_at = in_updated_at i,
            sm_affected_indicators = [], sm_affected_domains = [], sm_affected_ips = []\<rparr>
         else
           \<lparr>sm_alert_count = length as, sm_highest_severity = highest_severity (in_severity i) as,
            sm_first_seen_at = Min (set (map al_first_seen_at as)),
            sm_last_seen_at = Max (set (map al_last_seen_at as)),
            sm_affected_indicators = sorted_set (map (\<lambda>a. str_strip (al_indicator_value a)) as),
            sm_affected_domains = sorted_set (concat (map (summary_domain psl) as)),
            sm_affected_ips = sorted_set (concat (map (summary_ip psl) as))\<rparr>)"

subsection \<open>Reading incidents\<close>

datatype incident_ref = ByInt int | ByText string

definition owns_incident :: "user option \<Rightarrow> incident \<Rightarrow> bool" where
  \<comment> \<open>the negation of the ownership check; no user is the system\<close>
  "owns_incident u i =
     (case u of None \<Rightarrow> True
      | Some v \<Rightarrow> is_admin v \<or> in_created_by_user_id i = Some (usr_id v))"

definition owns_alert :: "user option \<Rightarrow> alert \<Rightarrow> bool" where
  "owns_alert u a =
     (case u of None \<Rightarrow> True | Some v \<Rightarrow> is_admin v \<or> al_user_id a = Some (usr_id v))"

definition parse_ref :: "incident_ref \<Rightarrow> (incident \<Rightarrow> bool) option" where
  "parse_ref r =
     (case r of
        ByInt n \<Rightarrow> Some (\<lambda>i. int (in_id i) = n)
      | ByText t \<Rightarrow>
          (case py_int digit_value 10 t of
             Some n \<Rightarrow> Some (\<lambda>i. int (in_id i) = n)
           | None \<Rightarrow> if is_uuid (str_strip t) then Some (\<lambda>i. in_uuid i = str_strip t) else None))"

definition get_incident ::
  "incident_ref \<Rightarrow> user option \<Rightarrow> store \<Rightarrow> incident_error + incident" where
  "get_incident r u s =
     (case parse_ref r of
        None \<Rightarrow> Inl IncidentValidationError
      | Some p \<Rightarrow>
          (case first_row (filter p (st_incidents s)) of
             None \<Rightarrow> Inl IncidentNotFoundError
           | Some i \<Rightarrow> if owns_incident u i then Inr i else Inl IncidentNotFoundError))"

definition list_incidents ::
  "user option \<Rightarrow> string option \<Rightarrow> string option \<Rightarrow> int \<Rightarrow> int \<Rightarrow> store \<Rightarrow> incident list \<times> nat" where
  "list_incidents u status sev lmt off s =
     (let q = filter (\<lambda>i.
            (case u of None \<Rightarrow> in_created_by_user_id i = None
             | Some v \<Rightarrow> is_admin v \<or> in_created_by_user_id i = Some (usr_id v)) \<and>
            str_filter status str_upper (in_status i) \<and> str_filter sev str_upper (in_severity i))
            (st_incidents s);
          ordered = sort_key (\<lambda>i. - in_created_at i) (sort_key (\<lambda>i. - int (in_id i)) q)
      in (page_rows (nat (max 0 off)) (nat (min (max 1 lmt) 100)) ordered, length q))"

subsection \<open>Attaching and detaching alerts\<close>

definition attach_check ::
  "user option \<Rightarrow> nat \<Rightarrow> alert list \<Rightarrow> incident_error option" where
  \<comment> \<open>the first alert that fails a check, in the order of the query's rows\<close>
  "attach_check u i as =
     fold (\<lambda>a acc. case acc of Some err \<Rightarrow> Some err
        | None \<Rightarrow> if \<not> owns_alert u a then Some IncidentAccessDeniedError
                 else if al_incident_id a \<noteq> None \<and> al_incident_id a \<noteq> Some i
                      then Some IncidentConflictError else None) as None"

definition attached_severity ::
  "incident \<Rightarrow> alert list \<Rightarrow> store \<Rightarrow> string" where
  \<comment> \<open>over the alerts attached so far, the new ones, and again what the database holds\<close>
  "attached_severity i as s =
     (let old = incident_alerts (in_id i) s;
          sv1 = fold (\<lambda>a acc. higher_severity acc (al_severity a)) old (in_severity i);
          sv2 = fold (\<lambda>a acc. higher_severity acc (al_severity a)) as sv1;
          sv3 = higher_severity sv2 (in_severity i)
      in fold (\<lambda>a acc. higher_severity acc (al_severity a)) old sv3)"

definition attach_alerts ::
  "(nat \<Rightarrow> bool) \<Rightarrow> env \<Rightarrow> incident_ref \<Rightarrow> nat list \<Rightarrow> user option \<Rightarrow> string option \<Rightarrow> store \<Rightarrow>
   (incident_error + incident) \<times> store" where
  "attach_alerts ok e r ids u ip s =
     (case get_incident r u s of
        Inl err \<Rightarrow> (Inl err, s)
      | Inr i \<Rightarrow>
          if ids = [] then (Inr i, s)
          else
            let as = filter (\<lambda>a. al_id a \<in> set ids) (st_alerts s)
            in if \<exists>k\<in>set ids. k \<notin> al_id ` set as then (Inl IncidentNotFoundError, s)
               else case attach_check u (in_id i) as of
                 Some err \<Rightarrow> (Inl err, s)
               | None \<Rightarrow>
                   if \<not> ok 0 then (Inl IncidentServiceError, s)
                   else
                     let sv = attached_severity i as s;
                         n = length (filter (\<lambda>a. al_incident_id a \<noteq> Some (in_id i)) as);
                         upd = (\<lambda>x. x\<lparr>in_severity := sv, in_updated_at := now e\<rparr>);
                         s1 = s\<lparr>st_alerts := upd_rows (\<lambda>a. al_id a \<in> set ids)
                                  (\<lambda>a. a\<lparr>al_incident_id := Some (in_id i)\<rparr>) (st_alerts s)\<rparr>;
                         s2 = set_incident (in_id i) upd s1
                     in (Inr (upd i),
                         if n > 0 then
                           incident_audit e 1 ''ALERT_ATTACHED'' (map_option usr_id u)
                             (show_nat (in_id i))
                             [(''attached_alert_ids'', JList (map (\<lambda>k. JInt (int k)) ids)),
                              (''incident_uuid'', JStr (in_uuid i)), (''new_severity'', JStr sv)]
                             ip s2
                         else s2))"

definition detach_alert ::
  "(nat \<Rightarrow> bool) \<Rightarrow> env \<Rightarrow> incident_ref \<Rightarrow> nat \<Rightarrow> user option \<Rightarrow> string option \<Rightarrow> store \<Rightarrow>
   (incident_error + incident) \<times> store" where
  "detach_alert ok e r alert_id u ip s =
     (case get_incident r u s of
        Inl err \<Rightarrow> (Inl err, s)
      | Inr i \<Rightarrow>
          (case first_row (filter (\<lambda>a. al_id a = alert_id \<and> al_incident_id a = Some (in_id i))
                  (st_alerts s)) of
             None \<Rightarrow> (Inl IncidentNotFoundError, s)
           | Some a \<Rightarrow>
               if \<not> owns_alert u a then (Inl IncidentAccessDeniedError, s)
               else if \<not> ok 0 then (Inl IncidentServiceError, s)
               else
                 let upd = in_updated_at_update (\<lambda>_. now e);
                     s1 = set_alert (al_id a) (al_incident_id_update (\<lambda>_. None)) s;
                     s2 = set_incident (in_id i) upd s1
                 in (Inr (upd i),
                     incident_audit e 1 ''ALERT_DETACHED'' (map_option usr_id u)
                       (show_nat (in_id i))
                       [(''detached_alert_id'', JInt (int alert_id)),
                        (''incident_uuid'', JStr (in_uuid i))] ip s2)))"

subsection \<open>Creating incidents\<close>

record IncidentCreate =
  ic_title :: string
  ic_description :: "string option"
  ic_severity :: EventSeverity
  ic_assigned_to_user_id :: "nat option"
  ic_alert_ids :: "nat list"

definition validate_title :: "string \<Rightarrow> string option" where
  "validate_title v = (if v = [] \<or> str_strip v = [] then None else Some (str_strip v))"

definition new_incident ::
  "env \<Rightarrow> string \<Rightarrow> string option \<Rightarrow> string \<Rightarrow> nat option \<Rightarrow> nat option \<Rightarrow> incident" where
  "new_incident e title desc sev assigned creator =
     \<lparr>in_id = 0, in_uuid = uuids e 0, in_title = title, in_description = desc,
      in_severity = sev, in_status = IncidentStatus_value I_OPEN,
      in_assigned_to_user_id = assigned, in_created_by_user_id = creator,
      in_created_at = now e, in_updated_at = now e, in_closed_at = None,
      in_resolution_notes = None\<rparr>"

definition attach_initial ::
  "(nat \<Rightarrow> bool) \<Rightarrow> env \<Rightarrow> incident \<Rightarrow> nat list \<Rightarrow> user option \<Rightarrow> string option \<Rightarrow> store \<Rightarrow>
   (incident_error + incident) \<times> store" where
  "attach_initial ok e i ids u ip s =
     (if ids = [] then (Inr i, s) else attach_alerts ok e (ByInt (int (in_id i))) ids u ip s)"

lemma new_incident_simps [simp]:
  "in_created_by_user_id (new_incident e title desc sev assigned creator) = creator"
  "in_status (new_incident e title desc sev assigned creator) = ''OPEN''"
  "in_closed_at (new_incident e title desc sev assigned creator) = None"
  "in_severity (new_incident e title desc sev assigned creator) = sev"
  "in_title (new_incident e title desc sev assigned creator) = title"
  by (simp_all add: new_incident_def)

definition create_incident ::
  "(nat \<Rightarrow> bool) \<Rightarrow> env \<Rightarrow> IncidentCreate \<Rightarrow> user option \<Rightarrow> string option \<Rightarrow> store \<Rightarrow>
   (incident_error + incident) \<times> store" where
  "create_incident ok e d u ip s =
     (let creator = map_option usr_id u;
          row = new_incident e (ic_title d) (ic_description d) (EventSeverity_value (ic_severity d))
                  (ic_assigned_to_user_id d) creator
      in if \<not> ok 0 then (Inl IncidentServiceError, s)
         else
           case attach_initial (\<lambda>n. ok (Suc n)) (env_shift 1 e) (row\<lparr>in_id := sq_incident s\<rparr>)
                  (ic_alert_ids d) u ip (add_incident row s) of
             (Inl err, s2) \<Rightarrow> (Inl err, s2)
           | (Inr i, s2) \<Rightarrow>
               (Inr i,
                incident_audit e 3 ''INCIDENT_CREATED'' creator (show_nat (in_id i))
                  [(''incident_uuid'', JStr (in_uuid i)), (''title'', JStr (in_title i)),
                   (''severity'', JStr (in_severity i)), (''status'', JStr (in_status i)),
                   (''alert_ids'', JList (map (\<lambda>k. JInt (int k)) (ic_alert_ids d)))] ip s2))"

definition open_threat_incidents :: "nat option \<Rightarrow> string \<Rightarrow> store \<Rightarrow> incident list" where
  "open_threat_incidents uid title s =
     filter (\<lambda>i. in_created_by_user_id i = uid \<and> in_title i = title \<and>
        in_status i \<in> {''OPEN'', ''INVESTIGATING''}) (st_incidents s)"

definition link_alert :: "nat option \<Rightarrow> nat \<Rightarrow> store \<Rightarrow> store" where
  \<comment> \<open>attach the initial alert, from whatever incident it was in\<close>
  "link_alert aid i s =
     (if truthy_nat aid then set_alert (the aid) (al_incident_id_update (\<lambda>_. Some i)) s else s)"

definition escalate_incident :: "env \<Rightarrow> string \<Rightarrow> incident \<Rightarrow> incident" where
  "escalate_incident e sev i =
     (if get_severity_rank sev > get_severity_rank (in_severity i)
      then i\<lparr>in_severity := sev, in_updated_at := now e\<rparr> else i)"

definition get_or_create_threat_incident ::
  "env \<Rightarrow> nat option \<Rightarrow> string \<Rightarrow> string \<Rightarrow> string \<Rightarrow> string option \<Rightarrow> nat option \<Rightarrow>
   string option \<Rightarrow> store \<Rightarrow> (incident \<times> bool) \<times> store" where
  "get_or_create_threat_incident e uid domain sev title desc aid ip s =
     (case first_desc (\<lambda>i. - int (in_id i)) (open_threat_incidents uid title s) of
        Some i \<Rightarrow>
          ((escalate_incident e sev i, False),
           link_alert aid (in_id i) (set_incident (in_id i) (escalate_incident e sev) s))
      | None \<Rightarrow>
          let d = the (str_or desc (Some (''Automated threat incident for domain '' @ domain @ ''.'')));
              row = new_incident e title (Some d) sev None uid;
              i = row\<lparr>in_id := sq_incident s\<rparr>;
              s1 = link_alert aid (in_id i) (add_incident row s)
          in ((i, True),
              incident_audit e 1 ''INCIDENT_CREATED_AUTOMATED'' uid (show_nat (in_id i))
                [(''incident_uuid'', JStr (in_uuid i)), (''title'', JStr title),
                 (''severity'', JStr sev), (''normalized_domain'', JStr domain),
                 (''initial_alert_id'', json_nat aid)] ip s1))"

subsection \<open>Updating incidents\<close>

record IncidentUpdate =
  iu_title :: "string option"
  iu_description :: "string option"
  iu_severity :: "EventSeverity option"
  iu_status :: "IncidentStatus option"
  iu_assigned_to_user_id :: "nat option"
  iu_resolution_notes :: "string option"

definition change_if ::
  "bool \<Rightarrow> dict \<Rightarrow> (incident \<Rightarrow> incident) \<Rightarrow> dict \<times> incident \<Rightarrow> dict \<times> incident" where
  \<comment> \<open>record the change and assign the column when the guard holds\<close>
  "change_if c entry f p = (if c then (fst p @ entry, f (snd p)) else p)"

definition update_fields :: "IncidentUpdate \<Rightarrow> incident \<Rightarrow> dict \<times> incident" where
  \<comment> \<open>the first four blocks: title, description, assignee, resolution notes\<close>
  "update_fields d i =
     change_if (iu_resolution_notes d \<noteq> None \<and> iu_resolution_notes d \<noteq> in_resolution_notes i)
       [(''resolution_notes'', JStr ''updated'')]
       (in_resolution_notes_update (\<lambda>_. iu_resolution_notes d))
     (change_if (iu_assigned_to_user_id d \<noteq> None \<and>
                 iu_assigned_to_user_id d \<noteq> in_assigned_to_user_id i)
       [(''assigned_to_user_id'', JObj [(''old'', json_nat (in_assigned_to_user_id i)),
                                        (''new'', json_nat (iu_assigned_to_user_id d))])]
       (in_assigned_to_user_id_update (\<lambda>_. iu_assigned_to_user_id d))
     (change_if (iu_description d \<noteq> None \<and> iu_description d \<noteq> in_description i)
       [(''description'', JStr ''updated'')]
       (in_description_update (\<lambda>_. iu_description d))
     (change_if (iu_title d \<noteq> None \<and> iu_title d \<noteq> Some (in_title i))
       [(''title'', JObj [(''old'', JStr (in_title i)), (''new'', JStr (the (iu_title d)))])]
       (in_title_update (\<lambda>_. the (iu_title d))) ([], i))))"

definition update_severity ::
  "user option \<Rightarrow> EventSeverity option \<Rightarrow> incident \<Rightarrow> incident_error + dict \<times> incident" where
  "update_severity u sev i =
     (case sev of
        None \<Rightarrow> Inr ([], i)
      | Some v \<Rightarrow>
          let new = EventSeverity_value v
          in if new = in_severity i then Inr ([], i)
             else if get_severity_rank new < get_severity_rank (in_severity i) \<and>
                     (case u of None \<Rightarrow> False | Some w \<Rightarrow> \<not> is_admin w)
                  then Inl IncidentAccessDeniedError
             else Inr ([(''severity'', JObj [(''old'', JStr (in_severity i)), (''new'', JStr new)])],
                       i\<lparr>in_severity := new\<rparr>))"

definition closing :: "IncidentStatus \<Rightarrow> bool" where
  "closing st = (st = I_RESOLVED \<or> st = I_CLOSED)"

definition update_status ::
  "env \<Rightarrow> IncidentStatus option \<Rightarrow> incident \<Rightarrow> incident_error + dict \<times> incident" where
  "update_status e status i =
     (case status of
        None \<Rightarrow> Inr ([], i)
      | Some new \<Rightarrow>
          let curr = str_upper (in_status i)
          in if IncidentStatus_value new = curr then Inr ([], i)
             else case IncidentStatus_of curr of
               None \<Rightarrow> Inl IncidentValidationError
             | Some cur \<Rightarrow>
                 if new \<notin> INCIDENT_STATUS_TRANSITIONS cur then Inl IncidentValidationError
                 else
                   Inr ([(''status'', JObj [(''old'', JStr curr),
                                            (''new'', JStr (IncidentStatus_value new))])],
                        i\<lparr>in_status := IncidentStatus_value new,
                          in_closed_at :=
                            (if closing new
                             then (if in_closed_at i = None then Some (now e) else in_closed_at i)
                             else if closing cur then None else in_closed_at i)\<rparr>))"

definition update_incident ::
  "(nat \<Rightarrow> bool) \<Rightarrow> env \<Rightarrow> incident_ref \<Rightarrow> IncidentUpdate \<Rightarrow> user option \<Rightarrow> string option \<Rightarrow>
   store \<Rightarrow> (incident_error + incident) \<times> store" where
  "update_incident ok e r d u ip s =
     (case get_incident r u s of
        Inl err \<Rightarrow> (Inl err, s)
      | Inr i \<Rightarrow>
          let (c1, i1) = update_fields d i
          in case update_severity u (iu_severity d) i1 of
               Inl err \<Rightarrow> (Inl err, s)
             | Inr (c2, i2) \<Rightarrow>
                 (case update_status e (iu_status d) i2 of
                    Inl err \<Rightarrow> (Inl err, s)
                  | Inr (c3, i3) \<Rightarrow>
                      let changes = c1 @ c2 @ c3; i4 = i3\<lparr>in_updated_at := now e\<rparr>
                      in if changes = [] then (Inr i, s)
                         else if \<not> ok 0 then (Inl IncidentServiceError, s)
                         else
                           (Inr i4,
                            incident_audit e 0 ''INCIDENT_UPDATED'' (map_option usr_id u)
                              (show_nat (in_id i4))
                              [(''changes'', JObj changes), (''incident_uuid'', JStr (in_uuid i4))]
                              ip (set_incident (in_id i) (\<lambda>_. i4) s))))"

subsection \<open>Effects of the operations\<close>

lemma incident_audit_frame [frame, simp]:
  "st_alerts (incident_audit e k action actor rid details ip s) = st_alerts s"
  "st_incidents (incident_audit e k action actor rid details ip s) = st_incidents s"
  "st_stream (incident_audit e k action actor rid details ip s) = st_stream s"
  "st_bus (incident_audit e k action actor rid details ip s) = st_bus s"
  "st_notifications (incident_audit e k action actor rid details ip s) = st_notifications s"
  "sq_incident (incident_audit e k action actor rid details ip s) = sq_incident s"
  by (simp_all add: incident_audit_def)

lemma incident_audit_ids [keeps, simp]:
  "store_ids s \<Longrightarrow> store_ids (incident_audit e k action actor rid details ip s)"
  by (simp add: incident_audit_def)

lemma st_alerts_update_frame [simp]:
  "st_incidents (s\<lparr>st_alerts := as\<rparr>) = st_incidents s"
  "store_ids s \<Longrightarrow> (\<And>a. al_id (f a) = al_id a) \<Longrightarrow>
   store_ids (s\<lparr>st_alerts := upd_rows p f (st_alerts s)\<rparr>)"
  by (simp_all add: store_ids_def cursor_ordered_upd)

lemma link_alert_frame [frame, simp]:
  "st_incidents (link_alert aid i s) = st_incidents s"
  "st_alerts (link_alert aid i s) = upd_rows (\<lambda>a. truthy_nat aid \<and> al_id a = the aid)
     (al_incident_id_update (\<lambda>_. Some i)) (st_alerts s)"
  "sq_incident (link_alert aid i s) = sq_incident s"
  by (simp_all add: link_alert_def upd_rows_def)

lemma link_alert_ids [keeps]: "store_ids s \<Longrightarrow> store_ids (link_alert aid i s)"
  by (auto simp: link_alert_def intro!: keeps)

lemma get_incident_Inr:
  "get_incident r u s = Inr i \<Longrightarrow> i \<in> set (st_incidents s) \<and> owns_incident u i"
  by (auto simp: get_incident_def dest!: first_row_Some split: option.splits if_splits)

lemma attach_check_Some: "fold (\<lambda>a acc. case acc of Some err \<Rightarrow> Some err | None \<Rightarrow> g a) as (Some x) = Some x"
  by (induction as) auto

lemma attach_check_None:
  "attach_check u i as = None \<Longrightarrow> a \<in> set as \<Longrightarrow>
   owns_alert u a \<and> (al_incident_id a = None \<or> al_incident_id a = Some i)"
proof (unfold attach_check_def, induction as)
  case (Cons b as)
  then show ?case
    by (auto simp: attach_check_Some split: if_splits)
qed simp

lemma fold_severity: "fold (\<lambda>a acc. higher_severity acc (al_severity a)) as sv =
    fold (\<lambda>x acc. higher_severity acc x) (map al_severity as) sv"
  by (induction as arbitrary: sv) auto

lemma fold_severity_bounds:
  "get_severity_rank sv \<le> get_severity_rank (fold (\<lambda>a acc. higher_severity acc (al_severity a)) as sv)"
  "a \<in> set as \<Longrightarrow> get_severity_rank (al_severity a) \<le>
     get_severity_rank (fold (\<lambda>a acc. higher_severity acc (al_severity a)) as sv)"
  "fold (\<lambda>a acc. higher_severity acc (al_severity a)) as sv \<in> insert sv (al_severity ` set as)"
  using sev.merges_choice [of "map al_severity as" sv]
  by (auto simp: fold_severity intro: sev.merges_ge sev.merges_upper)

text \<open>The severity written by an attachment is one of those involved, and of the highest rank.\<close>

definition severity_of_all :: "string \<Rightarrow> string \<Rightarrow> alert set \<Rightarrow> bool" where
  "severity_of_all sv own as \<longleftrightarrow>
     sv \<in> insert own (al_severity ` as) \<and> get_severity_rank own \<le> get_severity_rank sv \<and>
     (\<forall>a\<in>as. get_severity_rank (al_severity a) \<le> get_severity_rank sv)"

lemma severity_of_all_fold:
  assumes "severity_of_all sv own as"
  shows "severity_of_all (fold (\<lambda>a acc. higher_severity acc (al_severity a)) xs sv) own (as \<union> set xs)"
proof -
  let ?f = "fold (\<lambda>a acc. higher_severity acc (al_severity a)) xs sv"
  have sv: "sv \<in> insert own (al_severity ` as)" "get_severity_rank own \<le> get_severity_rank sv"
    "\<And>a. a \<in> as \<Longrightarrow> get_severity_rank (al_severity a) \<le> get_severity_rank sv"
    using assms by (simp_all add: severity_of_all_def)
  have ge: "get_severity_rank sv \<le> get_severity_rank ?f"
    by (rule fold_severity_bounds(1))
  have "?f \<in> insert own (al_severity ` (as \<union> set xs))"
    using fold_severity_bounds(3) [of xs sv] sv(1) by auto
  moreover have "get_severity_rank own \<le> get_severity_rank ?f"
    using sv(2) ge by (rule order_trans)
  moreover have "get_severity_rank (al_severity a) \<le> get_severity_rank ?f" if "a \<in> as \<union> set xs" for a
    using that order_trans [OF sv(3) ge] fold_severity_bounds(2) by blast
  ultimately show ?thesis by (simp add: severity_of_all_def)
qed

lemma severity_of_all_own: "severity_of_all sv own as \<Longrightarrow> severity_of_all (higher_severity sv own) own as"
  by (auto simp: severity_of_all_def sev.merge_stable)

lemma attached_severity_max:
  "severity_of_all (attached_severity i as s) (in_severity i)
     (set (incident_alerts (in_id i) s) \<union> set as)"
proof -
  have "severity_of_all (in_severity i) (in_severity i) {}"
    by (simp add: severity_of_all_def)
  from severity_of_all_fold [OF severity_of_all_own [OF severity_of_all_fold
      [OF severity_of_all_fold [OF this, of "incident_alerts (in_id i) s"], of as]],
      of "incident_alerts (in_id i) s"]
  show ?thesis
    by (simp add: attached_severity_def Let_def Un_ac)
qed

text \<open>A successful attachment, in full.\<close>

definition attach_effect ::
  "user option \<Rightarrow> env \<Rightarrow> incident \<Rightarrow> nat list \<Rightarrow> store \<Rightarrow> incident \<Rightarrow> store \<Rightarrow> bool" where
  "attach_effect u e i ids s j s' \<longleftrightarrow>
     i \<in> set (st_incidents s) \<and> owns_incident u i \<and> ids \<noteq> [] \<and>
     set ids \<subseteq> al_id ` set (st_alerts s) \<and>
     (\<forall>a\<in>set (st_alerts s). al_id a \<in> set ids \<longrightarrow>
        owns_alert u a \<and> (al_incident_id a = None \<or> al_incident_id a = Some (in_id i))) \<and>
     (\<exists>sv. severity_of_all sv (in_severity i) (set (incident_alerts (in_id i) s) \<union>
              {a\<in>set (st_alerts s). al_id a \<in> set ids}) \<and>
        j = i\<lparr>in_severity := sv, in_updated_at := now e\<rparr> \<and>
        st_incidents s' = upd_rows (\<lambda>x. in_id x = in_id i)
          (\<lambda>x. x\<lparr>in_severity := sv, in_updated_at := now e\<rparr>) (st_incidents s)) \<and>
     st_alerts s' = upd_rows (\<lambda>a. al_id a \<in> set ids)
       (\<lambda>a. a\<lparr>al_incident_id := Some (in_id i)\<rparr>) (st_alerts s)"

lemma attach_alerts_effect:
  assumes "attach_alerts ok e r ids u ip s = (res, s')"
  shows "s' = s \<and> (\<forall>j. res = Inr j \<longrightarrow> ids = [] \<and> get_incident r u s = Inr j) \<or>
    (\<exists>i j. get_incident r u s = Inr i \<and> res = Inr j \<and> attach_effect u e i ids s j s')"
proof (cases "get_incident r u s")
  case (Inl err)
  then show ?thesis using assms by (auto simp: attach_alerts_def)
next
  case (Inr i)
  let ?as = "filter (\<lambda>a. al_id a \<in> set ids) (st_alerts s)"
  show ?thesis
  proof (cases "ids = [] \<or> (\<exists>k\<in>set ids. k \<notin> al_id ` set ?as) \<or>
      attach_check u (in_id i) ?as \<noteq> None \<or> \<not> ok 0")
    case True
    then show ?thesis
      using assms Inr by (auto simp: attach_alerts_def Let_def split: if_splits option.splits)
  next
    case False
    then have n: "attach_check u (in_id i) ?as = None" by blast
    have "attach_effect u e i ids s
        (i\<lparr>in_severity := attached_severity i ?as s, in_updated_at := now e\<rparr>) s' \<and>
        res = Inr (i\<lparr>in_severity := attached_severity i ?as s, in_updated_at := now e\<rparr>)"
      using assms Inr False n attach_check_None [OF n] get_incident_Inr [OF Inr]
        attached_severity_max [of i ?as s]
      unfolding attach_effect_def
      by (auto simp: attach_alerts_def Let_def)
    then show ?thesis using Inr by blast
  qed
qed

lemma detach_alert_effect:
  assumes "detach_alert ok e r k u ip s = (res, s')"
  shows "s' = s \<and> (\<exists>err. res = Inl err) \<or>
    (\<exists>i a. get_incident r u s = Inr i \<and> a \<in> set (st_alerts s) \<and> al_id a = k \<and>
       al_incident_id a = Some (in_id i) \<and> owns_alert u a \<and> res = Inr (i\<lparr>in_updated_at := now e\<rparr>) \<and>
       st_alerts s' = upd_rows (\<lambda>x. al_id x = k) (al_incident_id_update (\<lambda>_. None)) (st_alerts s) \<and>
       st_incidents s' = upd_rows (\<lambda>x. in_id x = in_id i) (in_updated_at_update (\<lambda>_. now e))
         (st_incidents s))"
proof (cases "get_incident r u s")
  case (Inl err)
  then have "res = Inl err" "s' = s"
    using assms by (simp_all add: detach_alert_def)
  then show ?thesis by blast
next
  case (Inr i)
  then show ?thesis
    using assms
    by (auto simp: detach_alert_def Let_def dest!: first_row_Some split: option.splits if_splits)
qed

text \<open>What an update may change on its row.\<close>

lemma change_if_frame:
  "(\<And>x. g (f x) = g x) \<Longrightarrow> g (snd (change_if c entry f p)) = g (snd p)"
  by (simp add: change_if_def)

lemma update_fields_frame:
  assumes "update_fields d i = (c, j)"
  shows "in_id j = in_id i \<and> in_uuid j = in_uuid i \<and> in_severity j = in_severity i \<and>
     in_status j = in_status i \<and> in_closed_at j = in_closed_at i \<and>
     in_created_by_user_id j = in_created_by_user_id i \<and> in_created_at j = in_created_at i"
proof -
  have j: "j = snd (update_fields d i)" using assms by simp
  show ?thesis
    unfolding j update_fields_def
    by (simp add: change_if_frame [where g = in_id] change_if_frame [where g = in_uuid]
          change_if_frame [where g = in_severity] change_if_frame [where g = in_status]
          change_if_frame [where g = in_closed_at] change_if_frame [where g = in_created_by_user_id]
          change_if_frame [where g = in_created_at])
qed

lemma update_severity_frame:
  "update_severity u sev i = Inr (c, j) \<Longrightarrow>
     in_id j = in_id i \<and> in_uuid j = in_uuid i \<and> in_status j = in_status i \<and>
     in_closed_at j = in_closed_at i \<and> in_created_by_user_id j = in_created_by_user_id i \<and>
     in_created_at j = in_created_at i \<and>
     (in_severity j = in_severity i \<or> (\<exists>v. in_severity j = EventSeverity_value v)) \<and>
     (\<forall>w. u = Some w \<longrightarrow> \<not> is_admin w \<longrightarrow>
        get_severity_rank (in_severity i) \<le> get_severity_rank (in_severity j))"
  by (auto simp: update_severity_def Let_def split: option.splits if_splits)

lemma upper_status [simp]: "str_upper (IncidentStatus_value st) = IncidentStatus_value st"
  by (cases st) (simp_all add: str_upper_def upper_char_def)

definition status_step :: "incident \<Rightarrow> incident \<Rightarrow> bool" where
  "status_step i j \<longleftrightarrow>
     in_status j = in_status i \<and> in_closed_at j = in_closed_at i \<or>
     (\<exists>cur new. str_upper (in_status i) = IncidentStatus_value cur \<and>
        in_status j = IncidentStatus_value new \<and> new \<in> INCIDENT_STATUS_TRANSITIONS cur \<and>
        (closing new \<longrightarrow> in_closed_at j \<noteq> None \<and>
           (in_closed_at i \<noteq> None \<longrightarrow> in_closed_at j = in_closed_at i)) \<and>
        (\<not> closing new \<longrightarrow> in_closed_at j = (if closing cur then None else in_closed_at i)))"

lemma update_status_frame:
  "update_status e st i = Inr (c, j) \<Longrightarrow>
     in_id j = in_id i \<and> in_uuid j = in_uuid i \<and> in_severity j = in_severity i \<and>
     in_created_by_user_id j = in_created_by_user_id i \<and> in_created_at j = in_created_at i \<and>
     status_step i j"
  by (auto simp: update_status_def status_step_def IncidentStatus_of_Some Let_def
        split: option.splits if_splits)

definition update_effect ::
  "user option \<Rightarrow> env \<Rightarrow> incident \<Rightarrow> incident \<Rightarrow> bool" where
  "update_effect u e i j \<longleftrightarrow>
     in_id j = in_id i \<and> in_uuid j = in_uuid i \<and>
     in_created_by_user_id j = in_created_by_user_id i \<and> in_created_at j = in_created_at i \<and>
     in_updated_at j = now e \<and> status_step i j \<and>
     (in_severity j = in_severity i \<or> (\<exists>v. in_severity j = EventSeverity_value v)) \<and>
     (\<forall>w. u = Some w \<longrightarrow> \<not> is_admin w \<longrightarrow>
        get_severity_rank (in_severity i) \<le> get_severity_rank (in_severity j))"

lemma update_incident_effect:
  assumes "update_incident ok e r d u ip s = (res, s')"
  shows "s' = s \<and> (\<forall>j. res = Inr j \<longrightarrow> get_incident r u s = Inr j) \<or>
    (\<exists>i j. get_incident r u s = Inr i \<and> res = Inr j \<and> update_effect u e i j \<and>
       st_incidents s' = upd_rows (\<lambda>x. in_id x = in_id i) (\<lambda>_. j) (st_incidents s) \<and>
       st_alerts s' = st_alerts s)"
proof (cases "get_incident r u s")
  case (Inl err)
  then have "res = Inl err" "s' = s"
    using assms by (simp_all add: update_incident_def)
  then show ?thesis by simp
next
  case (Inr i)
  obtain c1 i1 where 1: "update_fields d i = (c1, i1)" by (cases "update_fields d i")
  show ?thesis
  proof (cases "update_severity u (iu_severity d) i1")
    case (Inl err)
    then have "res = Inl err" "s' = s"
      using assms Inr 1 by (simp_all add: update_incident_def)
    then show ?thesis by simp
  next
    case 2: (Inr p2)
    obtain c2 i2 where p2: "p2 = (c2, i2)" by (cases p2)
    show ?thesis
    proof (cases "update_status e (iu_status d) i2")
      case (Inl err)
      then have "res = Inl err" "s' = s"
        using assms Inr 1 2 p2 by (simp_all add: update_incident_def)
      then show ?thesis by simp
    next
      case 3: (Inr p3)
      obtain c3 i3 where p3: "p3 = (c3, i3)" by (cases p3)
      let ?j = "i3\<lparr>in_updated_at := now e\<rparr>"
      have eff: "update_effect u e i ?j"
        using update_fields_frame [OF 1] update_severity_frame [of u "iu_severity d" i1 c2 i2]
          update_status_frame [of e "iu_status d" i2 c3 i3] 2 3 p2 p3
        by (auto simp: update_effect_def status_step_def)
      have "s' = s \<and> (\<forall>j. res = Inr j \<longrightarrow> j = i) \<or> res = Inr ?j \<and>
          st_incidents s' = upd_rows (\<lambda>x. in_id x = in_id i) (\<lambda>_. ?j) (st_incidents s) \<and>
          st_alerts s' = st_alerts s"
        using assms Inr 1 2 3 p2 p3 by (auto simp: update_incident_def Let_def split: if_splits)
      then show ?thesis
        using Inr eff by auto
    qed
  qed
qed

subsection \<open>Commands of a user\<close>

datatype incident_cmd =
    Create IncidentCreate
  | Update incident_ref IncidentUpdate
  | Attach incident_ref "nat list"
  | Detach incident_ref nat

primrec run_incident ::
  "(nat \<Rightarrow> bool) \<Rightarrow> env \<Rightarrow> user option \<Rightarrow> string option \<Rightarrow> incident_cmd \<Rightarrow> store \<Rightarrow>
   (incident_error + incident) \<times> store" where
  "run_incident ok e u ip (Create d) s = create_incident ok e d u ip s"
| "run_incident ok e u ip (Update r d) s = update_incident ok e r d u ip s"
| "run_incident ok e u ip (Attach r ids) s = attach_alerts ok e r ids u ip s"
| "run_incident ok e u ip (Detach r k) s = detach_alert ok e r k u ip s"

text \<open>
  The shape of every command: it changes incidents of its user only, alerts of its user only
  (and of those only the incident they belong to), and adds at most one incident, in the
  user's name.
\<close>

definition incident_change :: "user option \<Rightarrow> incident \<Rightarrow> incident \<Rightarrow> bool" where
  "incident_change u i j \<longleftrightarrow>
     in_id j = in_id i \<and> in_uuid j = in_uuid i \<and> in_created_at j = in_created_at i \<and>
     in_created_by_user_id j = in_created_by_user_id i \<and> status_step i j \<and>
     (\<forall>w. u = Some w \<longrightarrow> \<not> is_admin w \<longrightarrow>
        get_severity_rank (in_severity i) \<le> get_severity_rank (in_severity j))"

definition relinked :: "user option \<Rightarrow> store \<Rightarrow> alert \<Rightarrow> alert \<Rightarrow> bool" where
  "relinked u s a b \<longleftrightarrow> owns_alert u a \<and>
     (\<exists>k. b = a\<lparr>al_incident_id := k\<rparr> \<and> (\<forall>i. k = Some i \<longrightarrow> i \<in> in_id ` set (st_incidents s)))"

definition incident_ok :: "incident \<Rightarrow> bool" where
  "incident_ok i \<longleftrightarrow>
     (\<exists>st. in_status i = IncidentStatus_value st \<and> (in_closed_at i \<noteq> None \<longleftrightarrow> closing st))"

lemma status_step_ok: "incident_ok i \<Longrightarrow> status_step i j \<Longrightarrow> incident_ok j"
  by (auto simp: incident_ok_def status_step_def)

lemma new_incident_ok: "incident_ok ((new_incident e title desc sev assigned creator)\<lparr>in_id := k\<rparr>)"
  unfolding incident_ok_def
  by (rule exI [of _ I_OPEN]) (simp add: closing_def)

definition command_shape :: "user option \<Rightarrow> store \<Rightarrow> store \<Rightarrow> bool" where
  "command_shape u s s' \<longleftrightarrow> store_ids s' \<and>
     (\<exists>f new. st_incidents s' = map f (st_incidents s) @ new \<and>
        (\<forall>i\<in>set (st_incidents s). f i = i \<or> owns_incident u i \<and> incident_change u i (f i)) \<and>
        (\<forall>i\<in>set new. in_created_by_user_id i = map_option usr_id u \<and> incident_ok i)) \<and>
     (\<exists>g. st_alerts s' = map g (st_alerts s) \<and>
        (\<forall>a\<in>set (st_alerts s). g a = a \<or> relinked u s' a (g a)))"

lemma upd_incident_rows:
  "store_ids s \<Longrightarrow> i \<in> set (st_incidents s) \<Longrightarrow>
   upd_rows (\<lambda>x. in_id x = in_id i) f (st_incidents s) =
     map (\<lambda>x. if x = i then f i else x) (st_incidents s)"
  using unique_by_eq [OF store_ids_incidents] by (auto simp: upd_rows_def)

lemma command_shape_refl: "store_ids s \<Longrightarrow> command_shape u s s"
  unfolding command_shape_def by (intro conjI exI [of _ id] exI [of _ "[]"]) auto

lemma command_shapeI:
  assumes "store_ids s" "store_ids s'" "i \<in> set (st_incidents s)" "owns_incident u i"
    and "incident_change u i (f i)"
    and "st_incidents s' = upd_rows (\<lambda>x. in_id x = in_id i) f (st_incidents s)"
    and "st_alerts s' = map g (st_alerts s)"
    and "\<And>a. a \<in> set (st_alerts s) \<Longrightarrow> g a = a \<or> relinked u s' a (g a)"
  shows "command_shape u s s'"
  unfolding command_shape_def
  using assms upd_incident_rows [OF assms(1,3)]
  by (intro conjI exI [of _ "\<lambda>x. if x = i then f i else x"] exI [of _ "[]"] exI [of _ g]) auto

lemma attach_ids: "store_ids s \<Longrightarrow> store_ids (snd (attach_alerts ok e r ids u ip s))"
  by (auto simp: attach_alerts_def Let_def intro!: keeps split: sum.splits option.splits)

lemma detach_ids: "store_ids s \<Longrightarrow> store_ids (snd (detach_alert ok e r k u ip s))"
  by (auto simp: detach_alert_def Let_def intro!: keeps split: sum.splits option.splits)

lemma status_step_refl [simp]: "status_step i (i\<lparr>in_severity := sv, in_updated_at := t\<rparr>)"
  "status_step i (i\<lparr>in_updated_at := t\<rparr>)"
  by (simp_all add: status_step_def)

lemma attach_shape:
  assumes "store_ids s" "attach_alerts ok e r ids u ip s = (res, s')"
  shows "command_shape u s s'"
  using attach_alerts_effect [OF assms(2)]
proof (elim disjE exE conjE)
  assume "s' = s"
  then show ?thesis using assms(1) command_shape_refl by simp
next
  fix i j
  assume "attach_effect u e i ids s j s'"
  then obtain sv where sv: "severity_of_all sv (in_severity i) (set (incident_alerts (in_id i) s) \<union>
        {a\<in>set (st_alerts s). al_id a \<in> set ids})"
      "st_incidents s' = upd_rows (\<lambda>x. in_id x = in_id i)
        (\<lambda>x. x\<lparr>in_severity := sv, in_updated_at := now e\<rparr>) (st_incidents s)"
    and i: "i \<in> set (st_incidents s)" "owns_incident u i"
    and al: "\<And>a. a \<in> set (st_alerts s) \<Longrightarrow> al_id a \<in> set ids \<Longrightarrow> owns_alert u a"
      "st_alerts s' = upd_rows (\<lambda>a. al_id a \<in> set ids)
        (\<lambda>a. a\<lparr>al_incident_id := Some (in_id i)\<rparr>) (st_alerts s)"
    by (auto simp: attach_effect_def)
  have ids': "store_ids s'"
    using attach_ids [OF assms(1), of ok e r ids u ip] assms(2) by simp
  have "map in_id (st_incidents s') = map in_id (st_incidents s)"
    unfolding sv(2) by (rule map_upd_rows) simp
  then have "in_id i \<in> in_id ` set (st_incidents s')"
    using i(1) by (metis image_eqI list.set_map)
  then have rl: "(if al_id a \<in> set ids then a\<lparr>al_incident_id := Some (in_id i)\<rparr> else a) = a \<or>
      relinked u s' a (if al_id a \<in> set ids then a\<lparr>al_incident_id := Some (in_id i)\<rparr> else a)"
    if "a \<in> set (st_alerts s)" for a
    using al(1) [OF that] unfolding relinked_def by auto
  have ch: "incident_change u i (i\<lparr>in_severity := sv, in_updated_at := now e\<rparr>)"
    using sv(1) by (simp add: incident_change_def severity_of_all_def)
  show ?thesis
    by (rule command_shapeI [OF assms(1) ids' i(1) i(2) ch sv(2) al(2) [unfolded upd_rows_def] rl])
qed

lemma detach_shape:
  assumes "store_ids s" "detach_alert ok e r k u ip s = (res, s')"
  shows "command_shape u s s'"
  using detach_alert_effect [OF assms(2)]
proof (elim disjE exE conjE)
  assume "s' = s"
  then show ?thesis using assms(1) command_shape_refl by simp
next
  fix i a
  assume g: "get_incident r u s = Inr i"
    and a: "a \<in> set (st_alerts s)" "al_id a = k" "owns_alert u a"
    and al: "st_alerts s' = upd_rows (\<lambda>x. al_id x = k) (al_incident_id_update (\<lambda>_. None)) (st_alerts s)"
    and inc: "st_incidents s' = upd_rows (\<lambda>x. in_id x = in_id i) (in_updated_at_update (\<lambda>_. now e))
         (st_incidents s)"
  have "x = a" if "x \<in> set (st_alerts s)" "al_id x = k" for x
    using that a unique_by_eq [OF store_ids_alerts [OF assms(1)]] by metis
  moreover have "store_ids s'"
    using detach_ids [OF assms(1), of ok e r k u ip] assms(2) by simp
  ultimately show ?thesis
    using get_incident_Inr [OF g] a(3)
    by (intro command_shapeI [OF assms(1) _ _ _ _ inc, of _
          "\<lambda>x. if al_id x = k then x\<lparr>al_incident_id := None\<rparr> else x"])
       (auto simp: incident_change_def relinked_def al upd_rows_def)
qed

lemma update_incident_ids:
  "store_ids s \<Longrightarrow> update_incident ok e r d u ip s = (res, s') \<Longrightarrow> store_ids s'"
proof -
  assume s: "store_ids s" and u: "update_incident ok e r d u ip s = (res, s')"
  show "store_ids s'"
    using u s
    by (auto simp: update_incident_def Let_def split: sum.splits prod.splits if_splits
          dest!: update_fields_frame update_severity_frame update_status_frame
          intro!: incident_audit_ids store_ids_set(2))
qed

lemma update_shape:
  assumes "store_ids s" "update_incident ok e r d u ip s = (res, s')"
  shows "command_shape u s s'"
  using update_incident_effect [OF assms(2)]
proof (elim disjE exE conjE)
  assume "s' = s"
  then show ?thesis using assms(1) command_shape_refl by simp
next
  fix i j
  assume g: "get_incident r u s = Inr i" and eff: "update_effect u e i j"
    and inc: "st_incidents s' = upd_rows (\<lambda>x. in_id x = in_id i) (\<lambda>_. j) (st_incidents s)"
    and al: "st_alerts s' = st_alerts s"
  show ?thesis
    using get_incident_Inr [OF g] eff al
    by (intro command_shapeI [OF assms(1) update_incident_ids [OF assms] _ _ _ inc, of _ id])
       (auto simp: incident_change_def update_effect_def)
qed

lemma create_shape:
  assumes "store_ids s" "create_incident ok e d u ip s = (res, s')"
  shows "command_shape u s s'"
proof (cases "ok 0")
  case False
  then show ?thesis
    using assms command_shape_refl by (simp add: create_incident_def Let_def)
next
  case True
  let ?row = "new_incident e (ic_title d) (ic_description d) (EventSeverity_value (ic_severity d))
                (ic_assigned_to_user_id d) (map_option usr_id u)"
  let ?s1 = "add_incident ?row s"
  have s1: "store_ids ?s1" using assms(1) by simp
  obtain att s2 where att: "attach_initial (\<lambda>n. ok (Suc n)) (env_shift 1 e)
      (?row\<lparr>in_id := sq_incident s\<rparr>) (ic_alert_ids d) u ip ?s1 = (att, s2)"
    by fastforce
  have sh: "command_shape u ?s1 s2"
    using att attach_shape [OF s1] command_shape_refl [OF s1]
    by (auto simp: attach_initial_def split: if_splits)
  then have "store_ids s2" by (simp add: command_shape_def)
  then have s': "st_incidents s' = st_incidents s2" "st_alerts s' = st_alerts s2" "store_ids s'"
    using assms(2) True att by (cases att; auto simp: create_incident_def Let_def)+
  obtain f new g where f: "st_incidents s2 = map f (st_incidents ?s1) @ new"
      "\<forall>i\<in>set (st_incidents ?s1). f i = i \<or> owns_incident u i \<and> incident_change u i (f i)"
      "\<forall>i\<in>set new. in_created_by_user_id i = map_option usr_id u \<and> incident_ok i"
    and g: "st_alerts s2 = map g (st_alerts ?s1)"
      "\<forall>a\<in>set (st_alerts ?s1). g a = a \<or> relinked u s2 a (g a)"
    using sh unfolding command_shape_def by blast
  let ?r = "?row\<lparr>in_id := sq_incident s\<rparr>"
  have "?r \<in> set (st_incidents ?s1)" by simp
  then have "f ?r = ?r \<or> incident_change u ?r (f ?r)"
    using f(2) by blast
  then have fr: "in_created_by_user_id (f ?r) = map_option usr_id u \<and> incident_ok (f ?r)"
  proof
    assume "f ?r = ?r"
    then show ?thesis using new_incident_ok by simp
  next
    assume c: "incident_change u ?r (f ?r)"
    have "incident_ok (f ?r)"
      using c new_incident_ok status_step_ok unfolding incident_change_def by blast
    then show ?thesis using c by (simp add: incident_change_def)
  qed
  show ?thesis
    unfolding command_shape_def relinked_def
    using s' f g fr
    by (intro conjI exI [of _ f] exI [of _ "f ?r # new"] exI [of _ g])
       (auto simp: relinked_def)
qed

lemma run_incident_shape:
  "store_ids s \<Longrightarrow> run_incident ok e u ip c s = (res, s') \<Longrightarrow> command_shape u s s'"
  by (cases c) (auto intro: create_shape update_shape attach_shape detach_shape)

type_synonym incident_call = "(nat \<Rightarrow> bool) \<times> env \<times> user \<times> string option \<times> incident_cmd"

definition incident_actor :: "incident_call \<Rightarrow> nat option" where
  "incident_actor x = (case x of (ok, e, u, ip, c) \<Rightarrow> if is_admin u then None else Some (usr_id u))"

definition incident_exec :: "incident_call \<Rightarrow> store \<Rightarrow> store" where
  "incident_exec x s = (case x of (ok, e, u, ip, c) \<Rightarrow> snd (run_incident ok e (Some u) ip c s))"

lemma command_shape_foreign:
  assumes "command_shape (Some u) s s'" "\<not> is_admin u" "v \<noteq> Some (usr_id u)"
  shows "filter (\<lambda>i. in_created_by_user_id i = v) (st_incidents s') =
           filter (\<lambda>i. in_created_by_user_id i = v) (st_incidents s)"
    "filter (\<lambda>a. al_user_id a = v) (st_alerts s') = filter (\<lambda>a. al_user_id a = v) (st_alerts s)"
proof -
  obtain f new g where f: "st_incidents s' = map f (st_incidents s) @ new"
      "\<And>i. i \<in> set (st_incidents s) \<Longrightarrow>
         f i = i \<or> owns_incident (Some u) i \<and> incident_change (Some u) i (f i)"
      "\<And>i. i \<in> set new \<Longrightarrow> in_created_by_user_id i = Some (usr_id u)"
    and g: "st_alerts s' = map g (st_alerts s)"
      "\<And>a. a \<in> set (st_alerts s) \<Longrightarrow> g a = a \<or> relinked (Some u) s' a (g a)"
    using assms(1) unfolding command_shape_def by (metis option.simps(9))
  have "filter (\<lambda>i. in_created_by_user_id i = v) new = []"
    using f(3) assms(3) by (auto simp: filter_empty_conv)
  moreover have "filter (\<lambda>i. in_created_by_user_id i = v) (map f (st_incidents s)) =
      filter (\<lambda>i. in_created_by_user_id i = v) (st_incidents s)"
    by (rule filter_map_upd)
       (use f(2) assms(2,3) in \<open>fastforce simp: owns_incident_def incident_change_def\<close>)
  ultimately show "filter (\<lambda>i. in_created_by_user_id i = v) (st_incidents s') =
           filter (\<lambda>i. in_created_by_user_id i = v) (st_incidents s)"
    by (simp add: f(1))
  show "filter (\<lambda>a. al_user_id a = v) (st_alerts s') = filter (\<lambda>a. al_user_id a = v) (st_alerts s)"
    unfolding g(1)
    by (rule filter_map_upd) (use g(2) assms(2,3) in \<open>fastforce simp: owns_alert_def relinked_def\<close>)
qed

lemma incident_exec_shape:
  "store_ids s \<Longrightarrow> command_shape (Some (fst (snd (snd x)))) s (incident_exec x s)"
  by (cases x) (auto simp: incident_exec_def intro: run_incident_shape [OF _ surjective_pairing])

lemma incident_actor_Some:
  "incident_actor x = Some v \<Longrightarrow> \<not> is_admin (fst (snd (snd x))) \<and> v = usr_id (fst (snd (snd x)))"
  by (cases x) (auto simp: incident_actor_def split: if_splits)

interpretation incident_tenants:
  tenant_isolated in_created_by_user_id st_incidents incident_actor incident_exec store_ids
proof
  fix s c u v
  assume s: "store_ids s"
  show "store_ids (incident_exec c s)"
    using incident_exec_shape [OF s] by (auto simp: command_shape_def)
  assume "incident_actor c = Some u" "v \<noteq> Some u"
  then show "filter (\<lambda>r. in_created_by_user_id r = v) (st_incidents (incident_exec c s)) =
      filter (\<lambda>r. in_created_by_user_id r = v) (st_incidents s)"
    using command_shape_foreign(1) [OF incident_exec_shape [OF s]] incident_actor_Some by blast
qed

interpretation incident_alert_tenants:
  tenant_isolated al_user_id st_alerts incident_actor incident_exec store_ids
proof
  fix s c u v
  assume s: "store_ids s"
  show "store_ids (incident_exec c s)"
    by (rule incident_tenants.exec_inv [OF s])
  assume "incident_actor c = Some u" "v \<noteq> Some u"
  then show "filter (\<lambda>r. al_user_id r = v) (st_alerts (incident_exec c s)) =
      filter (\<lambda>r. al_user_id r = v) (st_alerts s)"
    using command_shape_foreign(2) [OF incident_exec_shape [OF s]] incident_actor_Some by blast
qed

subsection \<open>Threat incidents\<close>

lemma escalate_simps [simp]:
  "in_id (escalate_incident e sev i) = in_id i"
  "in_title (escalate_incident e sev i) = in_title i"
  "in_status (escalate_incident e sev i) = in_status i"
  "in_closed_at (escalate_incident e sev i) = in_closed_at i"
  "in_created_by_user_id (escalate_incident e sev i) = in_created_by_user_id i"
  "get_severity_rank (in_severity (escalate_incident e sev i)) =
     max (get_severity_rank (in_severity i)) (get_severity_rank sev)"
  by (simp_all add: escalate_incident_def)

lemma filter_map_stable:
  "(\<And>x. x \<in> set xs \<Longrightarrow> p (f x) = p x) \<Longrightarrow> filter p (map f xs) = map f (filter p xs)"
  by (induction xs) auto

lemma threat_incident_cases:
  assumes "store_ids s" "get_or_create_threat_incident e uid dm sev title desc aid ip s = ((j, created), s')"
  shows "store_ids s'"
    "if open_threat_incidents uid title s = []
     then created \<and> st_incidents s' = st_incidents s @ [j] \<and> in_severity j = sev \<and> incident_ok j \<and>
          open_threat_incidents uid title s' = [j]
     else \<not> created \<and> (\<exists>i\<in>set (open_threat_incidents uid title s). j = escalate_incident e sev i \<and>
          st_incidents s' = map (\<lambda>x. if x = i then j else x) (st_incidents s) \<and>
          open_threat_incidents uid title s' =
            map (\<lambda>x. if x = i then j else x) (open_threat_incidents uid title s))"
proof -
  let ?O = "open_threat_incidents uid title s"
  show "store_ids s'"
    using assms
    by (auto simp: get_or_create_threat_incident_def Let_def intro!: keeps split: option.splits)
  show "if ?O = [] then created \<and> st_incidents s' = st_incidents s @ [j] \<and> in_severity j = sev \<and>
          incident_ok j \<and> open_threat_incidents uid title s' = [j]
     else \<not> created \<and> (\<exists>i\<in>set ?O. j = escalate_incident e sev i \<and>
          st_incidents s' = map (\<lambda>x. if x = i then j else x) (st_incidents s) \<and>
          open_threat_incidents uid title s' = map (\<lambda>x. if x = i then j else x) ?O)"
  proof (cases "first_desc (\<lambda>i. - int (in_id i)) ?O")
    case None
    then show ?thesis
      using assms(2) new_incident_ok
      by (auto simp: get_or_create_threat_incident_def Let_def open_threat_incidents_def)
  next
    case (Some i)
    then have i: "i \<in> set ?O" "i \<in> set (st_incidents s)"
      by (auto simp: open_threat_incidents_def dest!: first_desc_Some)
    have rows: "st_incidents s' = map (\<lambda>x. if x = i then j else x) (st_incidents s)"
        "j = escalate_incident e sev i" "\<not> created"
      using assms(2) Some upd_incident_rows [OF assms(1) i(2)]
      by (auto simp: get_or_create_threat_incident_def)
    then have "open_threat_incidents uid title s' = map (\<lambda>x. if x = i then j else x) ?O"
      unfolding open_threat_incidents_def rows(1) by (intro filter_map_stable) (simp add: rows(2))
    then show ?thesis
      using i rows by auto
  qed
qed

subsection \<open>Properties\<close>

text \<open>
  C2: an update of an incident either leaves the store as it was or writes one incident the
  caller may see.  Its status stays or moves along an edge of \<open>INCIDENT_STATUS_TRANSITIONS\<close>; it
  is given a closing time when it enters RESOLVED or CLOSED (and keeps the first one), loses it
  when it is reopened; its identity and owner stay, and a user who is not an administrator never
  lowers its severity.
\<close>

theorem incident_update_follows_table:
  assumes "store_ids s" "update_incident ok e r d (Some u) ip s = (res, s')"
  shows "s' = s \<or> (\<exists>i j. get_incident r (Some u) s = Inr i \<and> res = Inr j \<and>
     (is_admin u \<or> in_created_by_user_id i = Some (usr_id u)) \<and>
     in_id j = in_id i \<and> in_created_by_user_id j = in_created_by_user_id i \<and> status_step i j \<and>
     (\<not> is_admin u \<longrightarrow>
        get_severity_rank (in_severity i) \<le> get_severity_rank (in_severity j)) \<and>
     st_incidents s' = map (\<lambda>x. if x = i then j else x) (st_incidents s) \<and>
     st_alerts s' = st_alerts s)"
  using update_incident_effect [OF assms(2)]
proof (elim disjE exE conjE)
  fix i j
  assume g: "get_incident r (Some u) s = Inr i" "res = Inr j" and eff: "update_effect (Some u) e i j"
    and inc: "st_incidents s' = upd_rows (\<lambda>x. in_id x = in_id i) (\<lambda>_. j) (st_incidents s)"
    and al: "st_alerts s' = st_alerts s"
  have "st_incidents s' = map (\<lambda>x. if x = i then j else x) (st_incidents s)"
    using inc upd_incident_rows [OF assms(1)] get_incident_Inr [OF g(1)] by simp
  then show ?thesis
    using get_incident_Inr [OF g(1)] g eff al unfolding update_effect_def owns_incident_def
    by (intro disjI2 exI [of _ i] exI [of _ j]) simp
qed simp

definition sample_incident :: incident where
  "sample_incident = (new_incident (sample_env 0) ''Phish'' None ''HIGH'' None (Some 2))\<lparr>in_id := 1\<rparr>"

definition incident_store :: store where
  "incident_store = add_incident sample_incident sample_store"

lemma incident_store_simps [simp]:
  "store_ids incident_store" "st_incidents incident_store = [sample_incident]"
  "st_alerts incident_store = [sample_alert]" "in_id sample_incident = 1"
  "in_status sample_incident = ''OPEN''" "in_severity sample_incident = ''HIGH''"
  "in_created_by_user_id sample_incident = Some 2" "in_closed_at sample_incident = None"
  by (simp_all add: incident_store_def sample_store_ids sample_incident_def)
     (simp add: sample_store_def add_alert_def)

lemma sample_alert_free [simp]: "al_incident_id sample_alert = None"
  by (simp add: sample_alert_def new_alert_def)

definition no_update :: IncidentUpdate where
  "no_update = \<lparr>iu_title = None, iu_description = None, iu_severity = None, iu_status = None,
     iu_assigned_to_user_id = None, iu_resolution_notes = None\<rparr>"

lemma get_sample_incident: "get_incident (ByInt 1) (Some bob) incident_store = Inr sample_incident"
  by (simp add: get_incident_def parse_ref_def first_row_def owns_incident_def)

theorem incident_update_follows_table_witness:
  "\<exists>res s'. update_incident (\<lambda>_. True) (sample_env 5) (ByInt 1)
       (no_update\<lparr>iu_status := Some I_CLOSED\<rparr>) (Some bob) None incident_store = (res, s') \<and>
     s' \<noteq> incident_store \<and> (\<exists>j. res = Inr j \<and> status_step sample_incident j)"
proof -
  let ?r = "update_incident (\<lambda>_. True) (sample_env 5) (ByInt 1)
       (no_update\<lparr>iu_status := Some I_CLOSED\<rparr>) (Some bob) None incident_store"
  have up: "str_upper ''OPEN'' = ''OPEN''"
    by (simp add: str_upper_def upper_char_def)
  have "st_audits (snd ?r) \<noteq> st_audits incident_store"
    by (simp add: update_incident_def get_sample_incident no_update_def update_fields_def change_if_def
          update_severity_def update_status_def IncidentStatus_of_def up Let_def incident_audit_def
          closing_def)
  then have ne: "snd ?r \<noteq> incident_store" by metis
  obtain res s' where r: "?r = (res, s')" by (cases ?r)
  show ?thesis
    using incident_update_follows_table [OF incident_store_simps(1) r] ne r get_sample_incident
    by auto
qed

text \<open>
  Attaching alerts is all or nothing and never steals.  Either the call raises (or the list
  is empty) and nothing changes, or every requested alert exists, was free or already in this
  incident, and belongs to the caller unless the caller is an administrator; exactly those alerts
  now point to the incident, and the incident's severity is the highest of its own, of the alerts
  it had and of the new ones.
\<close>

theorem attach_all_or_nothing:
  assumes "store_ids s" "attach_alerts ok e r ids (Some u) ip s = (res, s')"
  shows "s' = s \<and> (\<forall>j. res = Inr j \<longrightarrow> ids = []) \<or>
    (\<exists>i sv. get_incident r (Some u) s = Inr i \<and>
       set ids \<subseteq> al_id ` set (st_alerts s) \<and>
       (\<forall>a\<in>set (st_alerts s). al_id a \<in> set ids \<longrightarrow>
          (is_admin u \<or> al_user_id a = Some (usr_id u)) \<and>
          (al_incident_id a = None \<or> al_incident_id a = Some (in_id i))) \<and>
       st_alerts s' = map (\<lambda>a. if al_id a \<in> set ids then a\<lparr>al_incident_id := Some (in_id i)\<rparr> else a)
         (st_alerts s) \<and>
       severity_of_all sv (in_severity i) (set (incident_alerts (in_id i) s) \<union>
         {a\<in>set (st_alerts s). al_id a \<in> set ids}) \<and>
       st_incidents s' = map (\<lambda>x. if x = i then i\<lparr>in_severity := sv, in_updated_at := now e\<rparr> else x)
         (st_incidents s))"
  using attach_alerts_effect [OF assms(2)]
proof (elim disjE exE conjE)
  fix i j
  assume g: "get_incident r (Some u) s = Inr i" and a: "attach_effect (Some u) e i ids s j s'"
  obtain sv where "severity_of_all sv (in_severity i) (set (incident_alerts (in_id i) s) \<union>
        {a\<in>set (st_alerts s). al_id a \<in> set ids})"
      "st_incidents s' = upd_rows (\<lambda>x. in_id x = in_id i)
        (\<lambda>x. x\<lparr>in_severity := sv, in_updated_at := now e\<rparr>) (st_incidents s)"
    using a unfolding attach_effect_def by blast
  then show ?thesis
    using g a upd_incident_rows [OF assms(1)] get_incident_Inr [OF g]
    unfolding attach_effect_def owns_alert_def upd_rows_def
    by (intro disjI2 exI [of _ i] exI [of _ sv]) simp
qed auto

theorem attach_all_or_nothing_witness:
  "\<exists>j s'. attach_alerts (\<lambda>_. True) (sample_env 5) (ByInt 1) [1] (Some bob) None incident_store
     = (Inr j, s') \<and> st_alerts s' = [sample_alert\<lparr>al_incident_id := Some 1\<rparr>]"
proof -
  have "\<exists>j s'. attach_alerts (\<lambda>_. True) (sample_env 5) (ByInt 1) [1] (Some bob) None incident_store
     = (Inr j, s')"
    by (simp add: attach_alerts_def get_sample_incident attach_check_def owns_alert_def Let_def)
  then obtain j s' where r: "attach_alerts (\<lambda>_. True) (sample_env 5) (ByInt 1) [1] (Some bob) None
      incident_store = (Inr j, s')" by blast
  show ?thesis
    using attach_all_or_nothing [OF incident_store_simps(1) r] r get_sample_incident by auto
qed

text \<open>
  Tenant isolation of incidents.  Whatever sequence of creations, updates, attachments and
  detachments other tenants run, a tenant's incidents and a tenant's alerts (and those of the
  system) are left exactly as they are.
\<close>

theorem incidents_isolated:
  assumes "store_ids s" "\<forall>(ok, e, u, ip, c)\<in>set cs. \<not> is_admin u \<and> v \<noteq> Some (usr_id u)"
  shows "filter (\<lambda>i. in_created_by_user_id i = v) (st_incidents (fold incident_exec cs s)) =
           filter (\<lambda>i. in_created_by_user_id i = v) (st_incidents s) \<and>
         filter (\<lambda>a. al_user_id a = v) (st_alerts (fold incident_exec cs s)) =
           filter (\<lambda>a. al_user_id a = v) (st_alerts s)"
  using assms
  by (intro conjI incident_tenants.run_foreign incident_alert_tenants.run_foreign)
     (auto simp: incident_actor_def)

theorem incidents_isolated_witness:
  "let s' = fold incident_exec
      [(\<lambda>_. True, sample_env 1, alice, None, Attach (ByInt 1) [1]),
       (\<lambda>_. True, sample_env 2, alice, None, Update (ByInt 1) (no_update\<lparr>iu_status := Some I_CLOSED\<rparr>))]
      incident_store
   in filter (\<lambda>i. in_created_by_user_id i = Some 2) (st_incidents s') = [sample_incident] \<and>
      filter (\<lambda>a. al_user_id a = Some 2) (st_alerts s') = [sample_alert]"
  using incidents_isolated [OF incident_store_simps(1), of
      "[(\<lambda>_. True, sample_env 1, alice, None, Attach (ByInt 1) [1]),
        (\<lambda>_. True, sample_env 2, alice, None, Update (ByInt 1) (no_update\<lparr>iu_status := Some I_CLOSED\<rparr>))]"
      "Some 2"]
  by (simp add: Let_def)

text \<open>Repeated reports of one threat, with their own time, domain, severity and alert.\<close>

definition report_threats ::
  "nat option \<Rightarrow> string \<Rightarrow> (env \<times> string \<times> string \<times> string option \<times> nat option) list \<Rightarrow>
   store \<Rightarrow> store" where
  "report_threats uid title rs s =
     fold (\<lambda>(e, dm, sev, desc, aid) s.
        snd (get_or_create_threat_incident e uid dm sev title desc aid None s)) rs s"

lemma report_threats_one:
  assumes "store_ids s" "open_threat_incidents uid title s = [i]"
  shows "\<exists>j. open_threat_incidents uid title (report_threats uid title rs s) = [j] \<and>
           get_severity_rank (in_severity i) \<le> get_severity_rank (in_severity j) \<and>
           (\<forall>(e, dm, sev, desc, aid)\<in>set rs.
              get_severity_rank sev \<le> get_severity_rank (in_severity j))"
  using assms
proof (induction rs arbitrary: s i)
  case Nil
  then show ?case by (simp add: report_threats_def)
next
  case (Cons r rs)
  obtain e dm sev desc aid where r: "r = (e, dm, sev, desc, aid)" by (cases r)
  obtain k created s' where g:
      "get_or_create_threat_incident e uid dm sev title desc aid None s = ((k, created), s')"
    by (metis surj_pair)
  have k: "store_ids s'" "open_threat_incidents uid title s' = [escalate_incident e sev i]"
    using threat_incident_cases [OF Cons.prems(1) g] Cons.prems(2) by auto
  then show ?case
    using Cons.IH [OF k] g r by (auto simp: report_threats_def)
qed

text \<open>
  Threat incidents are deduplicated.  However often a threat is reported for a tenant under
  one title, as long as the incident stays open the first report creates one incident and all
  later ones land in it; its severity is at least that of every report.
\<close>

theorem threat_incident_unique:
  assumes "store_ids s" "open_threat_incidents uid title s = []" "rs \<noteq> []"
  shows "\<exists>j. open_threat_incidents uid title (report_threats uid title rs s) = [j] \<and>
           (\<forall>(e, dm, sev, desc, aid)\<in>set rs.
              get_severity_rank sev \<le> get_severity_rank (in_severity j))"
proof (cases rs)
  case (Cons r rs')
  obtain e dm sev desc aid where r: "r = (e, dm, sev, desc, aid)" by (cases r)
  obtain k created s' where g:
      "get_or_create_threat_incident e uid dm sev title desc aid None s = ((k, created), s')"
    by (metis surj_pair)
  have k: "store_ids s'" "open_threat_incidents uid title s' = [k]" "in_severity k = sev"
    using threat_incident_cases [OF assms(1) g] assms(2) by auto
  then show ?thesis
    using report_threats_one [OF k(1,2)] g r Cons by (fastforce simp: report_threats_def)
qed (use assms(3) in simp)

theorem threat_incident_unique_witness:
  "\<exists>j. open_threat_incidents (Some 1) ''Phish'' (report_threats (Some 1) ''Phish''
         [(sample_env 0, ''evil.com'', ''LOW'', None, None),
          (sample_env 9, ''evil.com'', ''CRITICAL'', None, Some 1)] empty_store) = [j] \<and>
       5 \<le> get_severity_rank (in_severity j)"
  using threat_incident_unique [of empty_store "Some 1" "''Phish''"
      "[(sample_env 0, ''evil.com'', ''LOW'', None, None),
        (sample_env 9, ''evil.com'', ''CRITICAL'', None, Some 1)]"]
  by (auto simp: open_threat_incidents_def)

text \<open>
  The invariant of the incident table, over every interleaving of incident commands, threat
  reports and triage: each incident has a known status, a closing time exactly when it is
  resolved or closed, and no alert points to an incident that does not exist.
\<close>

definition incidents_ok :: "store \<Rightarrow> bool" where
  "incidents_ok s \<longleftrightarrow> store_ids s \<and> (\<forall>i\<in>set (st_incidents s). incident_ok i) \<and>
     (\<forall>a\<in>set (st_alerts s). \<forall>k. al_incident_id a = Some k \<longrightarrow> k \<in> in_id ` set (st_incidents s))"

inductive incident_step :: "store \<Rightarrow> store \<Rightarrow> bool" where
  command: "run_incident ok e u ip c s = (res, s') \<Longrightarrow> incident_step s s'"
| threat: "get_or_create_threat_incident e uid dm sev title desc aid ip s = (p, s') \<Longrightarrow>
     incident_step s s'"
| triage: "run_triage e v tc s = (r, s') \<Longrightarrow> incident_step s s'"

inductive_cases incident_step_cases: "incident_step s s'"

lemma command_shape_ok:
  assumes "incidents_ok s" "command_shape u s s'"
  shows "incidents_ok s'"
proof -
  obtain f new g where f: "st_incidents s' = map f (st_incidents s) @ new"
      "\<And>i. i \<in> set (st_incidents s) \<Longrightarrow> f i = i \<or> owns_incident u i \<and> incident_change u i (f i)"
      "\<And>i. i \<in> set new \<Longrightarrow> incident_ok i"
    and g: "st_alerts s' = map g (st_alerts s)"
      "\<And>a. a \<in> set (st_alerts s) \<Longrightarrow> g a = a \<or> relinked u s' a (g a)"
    and ids: "store_ids s'"
    using assms(2) unfolding command_shape_def by metis
  have fi: "in_id (f i) = in_id i \<and> incident_ok (f i)" if "i \<in> set (st_incidents s)" for i
    using that f(2) [OF that] assms(1) status_step_ok
    unfolding incidents_ok_def incident_change_def by metis
  then have "map in_id (map f (st_incidents s)) = map in_id (st_incidents s)" by simp
  then have sub: "in_id ` set (st_incidents s) \<subseteq> in_id ` set (st_incidents s')"
    unfolding f(1) by (metis Un_upper1 list.set_map map_append set_append)
  have "k \<in> in_id ` set (st_incidents s')"
    if "a \<in> set (st_alerts s)" "al_incident_id (g a) = Some k" for a k
    using g(2) [OF that(1)] that assms(1) sub unfolding incidents_ok_def relinked_def by auto
  then show ?thesis
    using ids fi f(1,3) g(1) unfolding incidents_ok_def by auto
qed

lemma escalate_ok [simp]: "incident_ok (escalate_incident e sev i) = incident_ok i"
  by (simp add: incident_ok_def)

lemma threat_ok:
  assumes "incidents_ok s" "get_or_create_threat_incident e uid dm sev title desc aid ip s = ((j, c), s')"
  shows "incidents_ok s'"
proof -
  have s: "store_ids s" using assms(1) by (simp add: incidents_ok_def)
  note t = threat_incident_cases [OF s assms(2)]
  have j: "j \<in> set (st_incidents s')" "incident_ok j"
    using t(2) assms(1)
    by (auto simp: open_threat_incidents_def incidents_ok_def split: if_splits)
  have inc: "in_id ` set (st_incidents s) \<subseteq> in_id ` set (st_incidents s')"
    "\<forall>i\<in>set (st_incidents s'). i = j \<or> i \<in> set (st_incidents s)"
  proof -
    have "\<exists>ys. map in_id (st_incidents s') = map in_id (st_incidents s) @ ys"
    proof (cases "open_threat_incidents uid title s = []")
      case True
      then show ?thesis using t(2) by simp
    next
      case False
      then obtain i where "st_incidents s' =
          map (\<lambda>x. if x = i then escalate_incident e sev i else x) (st_incidents s)"
        using t(2) by auto
      then have "map in_id (st_incidents s') = map in_id (st_incidents s)" by simp
      then show ?thesis by simp
    qed
    then show "in_id ` set (st_incidents s) \<subseteq> in_id ` set (st_incidents s')"
      by (metis Un_upper1 list.set_map set_append)
    show "\<forall>i\<in>set (st_incidents s'). i = j \<or> i \<in> set (st_incidents s)"
      using t(2) by (auto split: if_splits)
  qed
  have al: "st_alerts s' = upd_rows (\<lambda>a. truthy_nat aid \<and> al_id a = the aid)
      (al_incident_id_update (\<lambda>_. Some (in_id j))) (st_alerts s)"
    using assms(2)
    by (auto simp: get_or_create_threat_incident_def Let_def split: option.splits)
  have refs: "k \<in> in_id ` set (st_incidents s')"
    if a: "a \<in> set (st_alerts s')" "al_incident_id a = Some k" for a k
  proof -
    obtain x where x: "x \<in> set (st_alerts s)"
        "a = (if truthy_nat aid \<and> al_id x = the aid then x\<lparr>al_incident_id := Some (in_id j)\<rparr> else x)"
      using a(1) unfolding al in_upd_rows by blast
    show ?thesis
    proof (cases "truthy_nat aid \<and> al_id x = the aid")
      case True
      then show ?thesis using x(2) a(2) j(1) by auto
    next
      case False
      have "a = x" unfolding x(2) by (rule if_not_P [OF False])
      then have "al_incident_id x = Some k" using a(2) by simp
      then have "k \<in> in_id ` set (st_incidents s)"
        using x(1) assms(1) unfolding incidents_ok_def by blast
      then show ?thesis using inc(1) by blast
    qed
  qed
  have "incident_ok i" if "i \<in> set (st_incidents s')" for i
    using that inc(2) j(2) assms(1) by (auto simp: incidents_ok_def)
  then show ?thesis
    using t(1) refs unfolding incidents_ok_def by blast
qed

lemma triage_ok:
  assumes "incidents_ok s" "run_triage e u c s = (r, s')"
  shows "incidents_ok s'"
proof -
  have s: "store_ids s" using assms(1) by (simp add: incidents_ok_def)
  show ?thesis
    using run_triage_effect [OF assms(2)]
  proof (elim disjE exE conjE)
    fix a f
    assume g: "good_update (triage_target c) f"
      and t: "triage_effect (triage_target c) f (triage_uuid c) u s s' a"
    have "st_incidents s' = st_incidents s"
      using t by (auto simp: triage_effect_def)
    moreover have "al_incident_id (f a) = al_incident_id a"
      using g by (simp add: good_update_def)
    moreover have "a \<in> set (st_alerts s)"
      using t triage_guard_False unfolding triage_effect_def by blast
    ultimately show ?thesis
      using assms(1) run_triage_ids [OF s assms(2)] triage_effect_rows [OF s t]
      by (auto simp: incidents_ok_def)
  qed (use assms(1) in simp)
qed

lemma incident_step_ok: "incident_step s s' \<Longrightarrow> incidents_ok s \<Longrightarrow> incidents_ok s'"
proof (elim incident_step_cases)
  fix ok e u ip c res
  assume i: "incidents_ok s" and r: "run_incident ok e u ip c s = (res, s')"
  have "store_ids s" using i by (simp add: incidents_ok_def)
  from command_shape_ok [OF i run_incident_shape [OF this r]] show ?thesis .
next
  fix e uid dm sev title desc aid ip p
  assume "incidents_ok s" "get_or_create_threat_incident e uid dm sev title desc aid ip s = (p, s')"
  then show ?thesis using threat_ok by (cases p) blast
next
  fix e v tc r
  assume "incidents_ok s" "run_triage e v tc s = (r, s')"
  then show ?thesis by (rule triage_ok)
qed

text \<open>
  The incident table stays well formed in every run: every incident has a known status, is
  stamped closed exactly while it is resolved or closed, and every alert's incident exists.
\<close>

theorem incident_invariant:
  assumes "incident_step\<^sup>*\<^sup>* s s'" "incidents_ok s"
  shows "incidents_ok s'"
  using assms
proof (induction rule: rtranclp_induct)
  case (step s1 s2)
  then show ?case using incident_step_ok by blast
qed

theorem incident_invariant_witness:
  "\<exists>s'. incident_step incident_store s' \<and> incidents_ok s' \<and>
     st_alerts s' = [sample_alert\<lparr>al_incident_id := Some 1\<rparr>]"
proof -
  have ok: "incidents_ok incident_store"
    by (simp add: incidents_ok_def incident_ok_def) (rule exI [of _ I_OPEN], simp add: closing_def)
  obtain j s' where r: "attach_alerts (\<lambda>_. True) (sample_env 5) (ByInt 1) [1] (Some bob) None
      incident_store = (Inr j, s')" "st_alerts s' = [sample_alert\<lparr>al_incident_id := Some 1\<rparr>]"
  proof -
    have "\<exists>j s'. attach_alerts (\<lambda>_. True) (sample_env 5) (ByInt 1) [1] (Some bob) None incident_store
        = (Inr j, s') \<and> st_alerts s' = [sample_alert\<lparr>al_incident_id := Some 1\<rparr>]"
      by (simp add: attach_alerts_def get_sample_incident attach_check_def owns_alert_def Let_def
            upd_rows_def)
    then show thesis using that by blast
  qed
  have st: "incident_step incident_store s'"
    by (rule incident_step.command [where c = "Attach (ByInt 1) [1]"]) (use r(1) in simp)
  show ?thesis
    using st r(2) incident_invariant [OF r_into_rtranclp [of incident_step, OF st] ok] by blast
qed

text \<open>What reaches the audit trail.\<close>

fun clean_details :: "json \<Rightarrow> bool" where
  "clean_details (JObj d) = list_all (\<lambda>(k, v). clean_details v \<and>
     (is_sensitive_key k \<longrightarrow> is_container v \<or> v = JStr ''[REDACTED]'')) d"
| "clean_details (JList xs) = list_all clean_details xs"
| "clean_details (JStr s) = (list_all printable s \<and>
     \<not> starts_with ''bearer '' (str_lower s) \<and> \<not> starts_with ''basic '' (str_lower s))"
| "clean_details j = True"

lemma redacted_text [simp]: "sanitize_text ''[REDACTED]'' = ''[REDACTED]''"
  "clean_details (JStr ''[REDACTED]'')"
  by code_simp+

lemma sanitize_text_clean: "clean_details (JStr (sanitize_text s))"
  using redacted_text(2) by (simp add: sanitize_text_def Let_def list_all_iff)

lemma sanitize_text_idem: "sanitize_text (sanitize_text s) = sanitize_text s"
proof (cases "sanitize_text s = ''[REDACTED]''")
  case False
  then have "sanitize_text s = filter printable s"
      "\<not> starts_with ''bearer '' (str_lower (filter printable s))"
      "\<not> starts_with ''basic '' (str_lower (filter printable s))"
    by (auto simp: sanitize_text_def Let_def split: if_splits)
  then show ?thesis by (simp add: sanitize_text_def Let_def)
qed simp

lemma container_sanitize [simp]: "is_container (sanitize_details j) = is_container j"
  by (cases j) (simp_all add: is_container_def)

text \<open>
  Audit details are sanitised once and for all.  After \<open>_sanitize_details\<close> no text has
  control characters or starts like a bearer or basic credential, every scalar under a
  sensitive key is \<open>[REDACTED]\<close>, and sanitising again changes nothing.
\<close>

theorem sanitize_details_clean:
  "clean_details (sanitize_details j) \<and> sanitize_details (sanitize_details j) = sanitize_details j"
proof (induction j rule: sanitize_details.induct)
  case (1 d)
  let ?f = "\<lambda>(k, v). (k, if \<not> is_container v \<and> is_sensitive_key k then JStr ''[REDACTED]''
                        else sanitize_details v)"
  have kv: "(case ?f x of (k, v) \<Rightarrow> clean_details v \<and>
        (is_sensitive_key k \<longrightarrow> is_container v \<or> v = JStr ''[REDACTED]'')) \<and> ?f (?f x) = ?f x"
    if x: "x \<in> set d" for x
  proof (cases x)
    case (Pair k v)
    show ?thesis
    proof (cases "\<not> is_container v \<and> is_sensitive_key k")
      case True
      then show ?thesis
        using Pair redacted_text(2) by (simp add: is_container_def)
    next
      case False
      then show ?thesis
        using "1.IH" [OF x Pair [symmetric] False] Pair by auto
    qed
  qed
  show ?case
    using kv by (simp only: sanitize_details.simps clean_details.simps list_all_iff)
      (auto simp: comp_def)
next
  case (2 xs)
  then show ?case by (simp add: list_all_iff)
next
  case (3 s)
  then show ?case
    using sanitize_text_clean sanitize_text_idem by simp
qed simp_all

lemma norm_has_no_ip_key: "norm_get n ''has_ip'' = JNull"
  by (simp add: norm_get_def)

lemma highest_severity_of_all:
  "severity_of_all (highest_severity sv as) sv (set as)"
proof -
  have "severity_of_all (fold (\<lambda>a acc. if get_severity_rank (al_severity a) > get_severity_rank acc
        then al_severity a else acc) xs v) w (S \<union> set xs)" if "severity_of_all v w S" for xs v w S
    using that
  proof (induction xs arbitrary: v S)
    case (Cons a xs)
    have "severity_of_all (if get_severity_rank (al_severity a) > get_severity_rank v
        then al_severity a else v) w (insert a S)"
      using Cons.prems by (auto simp: severity_of_all_def)
    from Cons.IH [OF this] show ?case by simp
  qed simp
  from this [of sv sv "{}" as] show ?thesis
    by (simp add: highest_severity_def severity_of_all_def)
qed

text \<open>
  The summary of an incident.  It counts the attached alerts, names the highest severity of
  the incident and its alerts, and lists indicators and domains without duplicates in order.
  Its IP list holds the indicators of alerts of type IP and nothing else: the address of a URL
  is never listed, because the code asks the normalised domain for \<open>has_ip\<close>, a key it does not
  have.
\<close>

theorem build_summary_correct:
  "let t = build_summary psl i s; as = incident_alerts (in_id i) s in
     sm_alert_count t = length as \<and>
     severity_of_all (sm_highest_severity t) (in_severity i) (set as) \<and>
     sorted (sm_affected_indicators t) \<and> distinct (sm_affected_indicators t) \<and>
     set (sm_affected_indicators t) = (\<lambda>a. str_strip (al_indicator_value a)) ` set as \<and>
     set (sm_affected_ips t) = (\<lambda>a. str_strip (al_indicator_value a)) `
       {a\<in>set as. str_upper (al_indicator_type a) = ''IP''}"
  using highest_severity_of_all [of "in_severity i" "incident_alerts (in_id i) s"]
  by (auto simp: build_summary_def Let_def sorted_set_def summary_ip_def norm_has_no_ip_key
        severity_of_all_def split: if_splits)

end
