(* ===== verification/Scheduler.thy ===== *)
theory Scheduler
  imports Samples
begin

text \<open>
  \<open>backend/services/scheduler_service.py\<close>: leader election with a fencing epoch, lease renewal,
  the claiming of due targets under an execution token, and the write-back that is only
  accepted under a token, an epoch and an unexpired lease; and the cycle of
  \<open>backend/services/monitoring_engine.py\<close> that drives them.  The database clock and the
  process clock are the one reading of the environment.  A session advisory lock of PostgreSQL
  is held by one pod or by none; a comparison with a NULL column selects nothing.
\<close>

datatype dialect = Sqlite | Postgresql | OtherDialect

record config =
  cf_pod_id :: string
  cf_leader_lease_seconds :: int
  cf_worker_lease_seconds :: int
  cf_claim_batch_size :: nat

definition default_config :: "string \<Rightarrow> config" where
  "default_config pod =
     \<lparr>cf_pod_id = pod, cf_leader_lease_seconds = 60, cf_worker_lease_seconds = 45,
      cf_claim_batch_size = 10\<rparr>"

lemma default_config_simps [simp]:
  "cf_pod_id (default_config p) = p" "cf_leader_lease_seconds (default_config p) = 60"
  "cf_worker_lease_seconds (default_config p) = 45" "cf_claim_batch_size (default_config p) = 10"
  by (simp_all add: default_config_def)

record ClaimedTarget =
  ct_target_id :: nat
  ct_url :: string
  ct_normalized_domain :: string
  ct_check_interval_minutes :: int
  ct_execution_token :: string
  ct_execution_epoch :: nat
  ct_user_id :: nat

record LeaderState =
  ls_is_leader :: bool
  ls_epoch :: nat

type_synonym cluster = "string option \<times> store" \<comment> \<open>holder of the advisory lock, database\<close>

subsection \<open>Leader election\<close>

text \<open>
  The lock of PostgreSQL belongs to a session and counts its acquisitions; the model keeps the pod that
  holds it, for the one session in which a pod runs its elections, and a release gives it up at once.
  Exclusion of leaders does not rest on this lock: it follows from the lease in the state row.
\<close>

definition try_advisory_lock :: "dialect \<Rightarrow> string \<Rightarrow> string option \<Rightarrow> bool \<times> string option" where
  "try_advisory_lock d pod lk =
     (case d of
        Postgresql \<Rightarrow> if lk = None \<or> lk = Some pod then (True, Some pod) else (False, lk)
      | _ \<Rightarrow> (True, lk))"

definition release_advisory_lock :: "dialect \<Rightarrow> string \<Rightarrow> string option \<Rightarrow> string option" where
  "release_advisory_lock d pod lk =
     (case d of Postgresql \<Rightarrow> if lk = Some pod then None else lk | _ \<Rightarrow> lk)"

definition new_lease :: "config \<Rightarrow> env \<Rightarrow> sched \<Rightarrow> sched" where
  "new_lease c e r =
     r\<lparr>ss_current_epoch := Suc (ss_current_epoch r), ss_leader_pod_id := Some (cf_pod_id c),
       ss_lease_acquired_at := Some (now e),
       ss_lease_expires_at := Some (now e + seconds (cf_leader_lease_seconds c)),
       ss_updated_at := now e\<rparr>"

definition sqlite_sched_row :: "config \<Rightarrow> env \<Rightarrow> store \<Rightarrow> sched" where
  "sqlite_sched_row c e s =
     (case st_sched s of
        Some r \<Rightarrow> r
      | None \<Rightarrow> \<lparr>ss_current_epoch = 0, ss_leader_pod_id = Some (cf_pod_id c),
                 ss_lease_acquired_at = None, ss_lease_expires_at = None, ss_updated_at = now e\<rparr>)"

definition lease_free :: "config \<Rightarrow> env \<Rightarrow> sched \<Rightarrow> bool" where
  \<comment> \<open>\<open>lease_expires_at < NOW() OR leader_pod_id = :pod_id\<close>, NULL being neither\<close>
  "lease_free c e r =
     ((case ss_lease_expires_at r of None \<Rightarrow> False | Some x \<Rightarrow> x < now e) \<or>
      ss_leader_pod_id r = Some (cf_pod_id c))"

definition try_acquire_epoch :: "dialect \<Rightarrow> config \<Rightarrow> env \<Rightarrow> store \<Rightarrow> nat option \<times> store" where
  "try_acquire_epoch d c e s =
     (case d of
        Sqlite \<Rightarrow>
          let r = new_lease c e (sqlite_sched_row c e s)
          in (Some (ss_current_epoch r), s\<lparr>st_sched := Some r\<rparr>)
      | Postgresql \<Rightarrow>
          (case st_sched s of
             None \<Rightarrow> (None, s)
           | Some r \<Rightarrow>
               if lease_free c e r
               then (Some (ss_current_epoch (new_lease c e r)), s\<lparr>st_sched := Some (new_lease c e r)\<rparr>)
               else (None, s))
      | OtherDialect \<Rightarrow> (Some 1, s))"

definition follower :: LeaderState where
  "follower = \<lparr>ls_is_leader = False, ls_epoch = 0\<rparr>"

text \<open>\<open>update_ok\<close> is whether the epoch update runs without an exception.\<close>

definition attempt_election ::
  "dialect \<Rightarrow> config \<Rightarrow> bool \<Rightarrow> env \<Rightarrow> cluster \<Rightarrow> LeaderState \<times> cluster" where
  "attempt_election d c update_ok e cl =
     (case cl of (lk, s) \<Rightarrow>
        let (acquired, lk1) = try_advisory_lock d (cf_pod_id c) lk;
            released = release_advisory_lock d (cf_pod_id c) lk1
        in if \<not> acquired then (follower, (lk1, s))
           else if \<not> update_ok then (follower, (released, s))
           else case try_acquire_epoch d c e s of
                  (None, s') \<Rightarrow> (follower, (released, s'))
                | (Some n, s') \<Rightarrow> (\<lparr>ls_is_leader = True, ls_epoch = n\<rparr>, (lk1, s')))"

definition renew_lease :: "dialect \<Rightarrow> config \<Rightarrow> env \<Rightarrow> nat \<Rightarrow> cluster \<Rightarrow> bool \<times> cluster" where
  "renew_lease d c e epoch cl =
     (case cl of (lk, s) \<Rightarrow>
        case d of
          Postgresql \<Rightarrow>
            (case st_sched s of
               None \<Rightarrow> (False, (release_advisory_lock d (cf_pod_id c) lk, s))
             | Some r \<Rightarrow>
                 if ss_leader_pod_id r = Some (cf_pod_id c) \<and> ss_current_epoch r = epoch
                 then (True, (lk, s\<lparr>st_sched := Some (r\<lparr>ss_lease_expires_at :=
                                Some (now e + seconds (cf_leader_lease_seconds c)),
                                ss_updated_at := now e\<rparr>)\<rparr>))
                 else (False, (release_advisory_lock d (cf_pod_id c) lk, s)))
        | _ \<Rightarrow> (True, (lk, s)))"

definition release_leadership :: "dialect \<Rightarrow> config \<Rightarrow> cluster \<Rightarrow> cluster" where
  "release_leadership d c cl =
     (case cl of (lk, s) \<Rightarrow> (release_advisory_lock d (cf_pod_id c) lk, s))"

definition get_current_epoch :: "store \<Rightarrow> nat" where
  "get_current_epoch s = (case st_sched s of None \<Rightarrow> 0 | Some r \<Rightarrow> ss_current_epoch r)"

definition ensure_scheduler_state_row :: "env \<Rightarrow> store \<Rightarrow> store" where
  "ensure_scheduler_state_row e s =
     (case st_sched s of
        Some r \<Rightarrow> s
      | None \<Rightarrow> s\<lparr>st_sched := Some \<lparr>ss_current_epoch = 0, ss_leader_pod_id = None,
                   ss_lease_acquired_at = None, ss_lease_expires_at = None,
                   ss_updated_at = now e\<rparr>\<rparr>)"

subsection \<open>Claiming targets\<close>

definition lease_expired :: "time \<Rightarrow> target \<Rightarrow> bool" where
  \<comment> \<open>\<open>execution_token IS NULL OR execution_expires_at < NOW()\<close>\<close>
  "lease_expired t g =
     (tg_execution_token g = None \<or>
      (case tg_execution_expires_at g of None \<Rightarrow> False | Some x \<Rightarrow> x < t))"

definition claimable :: "time \<Rightarrow> target \<Rightarrow> bool" where
  "claimable t g = (tg_is_active g \<and> tg_next_check_at g \<le> t \<and> lease_expired t g)"

definition take_lease :: "config \<Rightarrow> env \<Rightarrow> nat \<Rightarrow> string \<Rightarrow> target \<Rightarrow> target" where
  "take_lease c e epoch token g =
     g\<lparr>tg_execution_token := Some token, tg_execution_epoch := Some epoch,
       tg_execution_expires_at := Some (now e + seconds (cf_worker_lease_seconds c))\<rparr>"

definition claim_of :: "nat \<Rightarrow> string \<Rightarrow> target \<Rightarrow> ClaimedTarget" where
  "claim_of epoch token g =
     \<lparr>ct_target_id = tg_id g, ct_url = tg_url g, ct_normalized_domain = tg_normalized_domain g,
      ct_check_interval_minutes = tg_check_interval_minutes g, ct_execution_token = token,
      ct_execution_epoch = epoch, ct_user_id = tg_user_id g\<rparr>"

fun claim_rows ::
  "config \<Rightarrow> env \<Rightarrow> nat \<Rightarrow> nat \<Rightarrow> target list \<Rightarrow> store \<Rightarrow> ClaimedTarget list \<times> store" where
  \<comment> \<open>the \<open>k\<close>-th claimed row gets the \<open>k\<close>-th token\<close>
  "claim_rows c e epoch k [] s = ([], s)"
| "claim_rows c e epoch k (g # gs) s =
     (let (cs, s') = claim_rows c e epoch (Suc k) gs
                       (set_target (tg_id g) (take_lease c e epoch (uuids e k)) s)
      in (claim_of epoch (uuids e k) g # cs, s'))"

text \<open>
  \<open>locked\<close> is the rows that other transactions hold, which \<open>SKIP LOCKED\<close> passes over; SQLite
  locks the whole file, so there are none.
\<close>

definition claim_candidates :: "dialect \<Rightarrow> config \<Rightarrow> (nat \<Rightarrow> bool) \<Rightarrow> env \<Rightarrow> store \<Rightarrow> target list" where
  "claim_candidates d c locked e s =
     take (cf_claim_batch_size c) (sort_key tg_next_check_at
       (filter (\<lambda>g. claimable (now e) g \<and> (d = Postgresql \<longrightarrow> \<not> locked (tg_id g))) (st_targets s)))"

definition claim_pg ::
  "config \<Rightarrow> (nat \<Rightarrow> bool) \<Rightarrow> env \<Rightarrow> nat \<Rightarrow> store \<Rightarrow> ClaimedTarget list \<times> store" where
  "claim_pg c locked e epoch s =
     claim_rows c e epoch 0 (claim_candidates Postgresql c locked e s) s"

definition claim_sqlite ::
  "config \<Rightarrow> env \<Rightarrow> nat \<Rightarrow> store \<Rightarrow> ClaimedTarget list \<times> store" where
  "claim_sqlite c e epoch s =
     claim_rows c e epoch 0 (claim_candidates Sqlite c (\<lambda>_. False) e s) s"

definition claim_targets ::
  "dialect \<Rightarrow> config \<Rightarrow> (nat \<Rightarrow> bool) \<Rightarrow> env \<Rightarrow> nat \<Rightarrow> store \<Rightarrow> ClaimedTarget list \<times> store" where
  "claim_targets d c locked e epoch s =
     (case d of Postgresql \<Rightarrow> claim_pg c locked e epoch s | _ \<Rightarrow> claim_sqlite c e epoch s)"

lemma claim_targets_eq:
  "claim_targets d c locked e n s = claim_rows c e n 0 (claim_candidates d c locked e s) s"
  by (cases d) (simp_all add: claim_targets_def claim_pg_def claim_sqlite_def claim_candidates_def)

subsection \<open>Writing results back\<close>

record scan_result =
  sr_last_checked_at :: time
  sr_interval_minutes :: int
  sr_last_prediction :: string
  sr_last_confidence :: rat
  sr_consecutive_failures :: nat

definition owns_lease :: "time \<Rightarrow> nat \<Rightarrow> string \<Rightarrow> nat \<Rightarrow> target \<Rightarrow> bool" where
  \<comment> \<open>the triple predicate, on the row with the id\<close>
  "owns_lease t i token epoch g =
     (tg_id g = i \<and> tg_execution_token g = Some token \<and> tg_execution_epoch g = Some epoch \<and>
      (case tg_execution_expires_at g of None \<Rightarrow> False | Some x \<Rightarrow> x > t))"

definition write_result :: "scan_result \<Rightarrow> target \<Rightarrow> target" where
  "write_result r g =
     g\<lparr>tg_last_checked_at := Some (sr_last_checked_at r),
       tg_next_check_at := sr_last_checked_at r + minutes (sr_interval_minutes r),
       tg_last_prediction := Some (sr_last_prediction r),
       tg_last_confidence := Some (sr_last_confidence r),
       tg_consecutive_failures := sr_consecutive_failures r,
       tg_execution_token := None, tg_execution_epoch := None, tg_execution_expires_at := None\<rparr>"

definition write_back_result ::
  "env \<Rightarrow> nat \<Rightarrow> string \<Rightarrow> nat \<Rightarrow> scan_result \<Rightarrow> store \<Rightarrow> bool \<times> store" where
  "write_back_result e i token epoch r s =
     (if \<exists>g\<in>set (st_targets s). owns_lease (now e) i token epoch g
      then (True, s\<lparr>st_targets := upd_rows (owns_lease (now e) i token epoch) (write_result r)
                                    (st_targets s)\<rparr>)
      else (False, s))"

subsection \<open>The engine's cycle\<close>

record engine =
  me_is_leader :: bool
  me_current_epoch :: nat
  me_stopping :: bool

text \<open>
  \<open>ok1\<close> and \<open>ok2\<close> are whether the election (or renewal) and the claim run without an exception;
  the claimed targets are those handed to the worker pool.
\<close>

definition lead_step ::
  "dialect \<Rightarrow> config \<Rightarrow> bool \<Rightarrow> env \<Rightarrow> engine \<Rightarrow> cluster \<Rightarrow> engine \<times> cluster" where
  \<comment> \<open>step 1 of the cycle: campaign as a follower, renew as a leader\<close>
  "lead_step d c update_ok e m cl =
     (if \<not> me_is_leader m
      then (case attempt_election d c update_ok e cl of (st, cl') \<Rightarrow>
              (if ls_is_leader st then m\<lparr>me_is_leader := True, me_current_epoch := ls_epoch st\<rparr>
               else m, cl'))
      else (case renew_lease d c e (me_current_epoch m) cl of (renewed, cl') \<Rightarrow>
              (if renewed then m else m\<lparr>me_is_leader := False, me_current_epoch := 0\<rparr>, cl')))"

definition cycle_step ::
  "dialect \<Rightarrow> config \<Rightarrow> bool \<Rightarrow> bool \<Rightarrow> bool \<Rightarrow> (nat \<Rightarrow> bool) \<Rightarrow> env \<Rightarrow> engine \<Rightarrow> cluster \<Rightarrow>
   engine \<times> ClaimedTarget list \<times> cluster" where
  "cycle_step d c ok1 update_ok ok2 locked e m cl =
     (case (if ok1 then lead_step d c update_ok e m cl else (m, cl)) of (m1, cl1) \<Rightarrow>
        if \<not> me_is_leader m1 \<or> me_stopping m1 \<or> \<not> ok2 then (m1, [], cl1)
        else (case claim_targets d c locked e (me_current_epoch m1) (snd cl1) of (cs, s') \<Rightarrow>
                (m1, cs, (fst cl1, s'))))"

subsection \<open>Runs of the cluster\<close>

text \<open>One call of a service method by some pod, with the answers the worker of a claim ignores.\<close>

datatype cluster_op =
    Elect config bool env
  | Renew config env nat
  | Release config
  | EnsureRow env
  | Claim config "nat \<Rightarrow> bool" env nat
  | WriteBack env nat string nat scan_result

definition exec_op :: "dialect \<Rightarrow> cluster_op \<Rightarrow> cluster \<Rightarrow> cluster" where
  "exec_op d x cl =
     (case x of
        Elect c ok e \<Rightarrow> snd (attempt_election d c ok e cl)
      | Renew c e n \<Rightarrow> snd (renew_lease d c e n cl)
      | Release c \<Rightarrow> release_leadership d c cl
      | EnsureRow e \<Rightarrow> (fst cl, ensure_scheduler_state_row e (snd cl))
      | Claim c locked e n \<Rightarrow> (fst cl, snd (claim_targets d c locked e n (snd cl)))
      | WriteBack e i token n r \<Rightarrow> (fst cl, snd (write_back_result e i token n r (snd cl))))"

definition won_epoch :: "dialect \<Rightarrow> cluster_op \<Rightarrow> cluster \<Rightarrow> (string \<times> nat) list" where
  \<comment> \<open>the pod and the epoch, if the step is an election that the pod wins\<close>
  "won_epoch d x cl =
     (case x of
        Elect c ok e \<Rightarrow>
          let st = fst (attempt_election d c ok e cl)
          in if ls_is_leader st then [(cf_pod_id c, ls_epoch st)] else []
      | _ \<Rightarrow> [])"

fun elections :: "dialect \<Rightarrow> cluster_op list \<Rightarrow> cluster \<Rightarrow> (string \<times> nat) list" where
  "elections d [] cl = []"
| "elections d (x # xs) cl = won_epoch d x cl @ elections d xs (exec_op d x cl)"

subsection \<open>Lemmas on claiming\<close>

subsection \<open>Lemmas on claiming\<close>

lemma set_target_eq:
  "set_target i f s = s\<lparr>st_targets := upd_rows (\<lambda>g. tg_id g = i) f (st_targets s)\<rparr>"
  by (simp add: set_target_def)

lemma take_lease_id [simp]: "tg_id (take_lease c e n tk g) = tg_id g"
  by (simp add: take_lease_def)

lemma claim_rows_ids: "map ct_target_id (fst (claim_rows c e n k gs s)) = map tg_id gs"
  by (induction gs arbitrary: k s) (simp_all add: claim_of_def split: prod.splits, (metis fst_conv)?)

lemma claim_rows_frame:
  "snd (claim_rows c e n k gs s) =
     s\<lparr>st_targets := st_targets (snd (claim_rows c e n k gs s))\<rparr>"
proof (induction gs arbitrary: k s)
  case (Cons g gs)
  show ?case
    using Cons [of "Suc k" "set_target (tg_id g) (take_lease c e n (uuids e k)) s"]
    by (simp add: case_prod_beta set_target_eq Let_def)
qed simp

lemma claim_rows_row_ids:
  "map tg_id (st_targets (snd (claim_rows c e n k gs s))) = map tg_id (st_targets s)"
  by (induction gs arbitrary: k s) (simp_all add: case_prod_beta Let_def map_upd_rows)

lemma claim_rows_others:
  "filter (\<lambda>g. tg_id g \<notin> tg_id ` set gs) (st_targets (snd (claim_rows c e n k gs s))) =
   filter (\<lambda>g. tg_id g \<notin> tg_id ` set gs) (st_targets s)"
proof (induction gs arbitrary: k s)
  case (Cons g gs)
  let ?s = "set_target (tg_id g) (take_lease c e n (uuids e k)) s"
  let ?q = "\<lambda>h. tg_id h \<notin> tg_id ` set gs" and ?p = "\<lambda>h. tg_id h \<notin> tg_id ` set (g # gs)"
  have pq: "filter ?p xs = filter (\<lambda>h. tg_id h \<noteq> tg_id g) (filter ?q xs)" for xs
    by (auto intro: filter_cong)
  have "filter ?p (st_targets (snd (claim_rows c e n (Suc k) gs ?s))) = filter ?p (st_targets ?s)"
    unfolding pq by (simp only: Cons)
  also have "\<dots> = filter ?p (st_targets s)"
    unfolding targets_frame upd_rows_def by (rule filter_map_upd) (auto split: if_splits)
  finally show ?case by (simp add: case_prod_beta Let_def)
qed simp

lemma claim_rows_leased:
  assumes "distinct (map tg_id gs)" "set gs \<subseteq> set (st_targets s)"
    and "ct \<in> set (fst (claim_rows c e n k gs s))"
  shows "\<exists>g\<in>set gs. ct = claim_of n (ct_execution_token ct) g \<and>
           take_lease c e n (ct_execution_token ct) g \<in> set (st_targets (snd (claim_rows c e n k gs s)))"
  using assms
proof (induction gs arbitrary: k s)
  case (Cons g gs)
  let ?s = "set_target (tg_id g) (take_lease c e n (uuids e k)) s"
  have fresh: "tg_id g \<notin> tg_id ` set gs" using Cons.prems(1) by auto
  have sub: "set gs \<subseteq> set (st_targets ?s)"
  proof
    fix x
    assume x: "x \<in> set gs"
    then have "tg_id x \<noteq> tg_id g" using fresh by (metis image_eqI)
    then show "x \<in> set (st_targets ?s)"
      using Cons.prems(2) x by (auto intro!: upd_rows_keep)
  qed
  consider "ct = claim_of n (uuids e k) g" | "ct \<in> set (fst (claim_rows c e n (Suc k) gs ?s))"
    using Cons.prems(3) by (auto simp: case_prod_beta Let_def)
  then show ?case
  proof cases
    case 1
    have "take_lease c e n (uuids e k) g \<in> set (st_targets ?s)"
      using Cons.prems(2) by (auto simp: in_upd_rows)
    then have "take_lease c e n (uuids e k) g \<in>
        set (filter (\<lambda>h. tg_id h \<notin> tg_id ` set gs) (st_targets ?s))"
      using fresh by simp
    then have "take_lease c e n (uuids e k) g \<in>
        set (st_targets (snd (claim_rows c e n (Suc k) gs ?s)))"
      unfolding claim_rows_others [of gs c e n "Suc k" ?s, symmetric] by simp
    then show ?thesis
      using 1 by (simp add: claim_of_def case_prod_beta Let_def)
  next
    case 2
    then show ?thesis
      using Cons.IH [of ?s "Suc k"] Cons.prems(1) sub by (auto simp: case_prod_beta Let_def)
  qed
qed simp

lemma set_claim_candidates:
  "g \<in> set (claim_candidates d c locked e s) \<Longrightarrow>
   g \<in> set (st_targets s) \<and> claimable (now e) g \<and> (d = Postgresql \<longrightarrow> \<not> locked (tg_id g))"
  unfolding claim_candidates_def by (auto dest!: in_set_takeD)

lemma claim_candidates_distinct:
  assumes "store_ids s"
  shows "distinct (map tg_id (claim_candidates d c locked e s))"
proof -
  have "unique_by tg_id (st_targets s)"
    using assms by (rule store_ids_targets)
  then have "inj_on tg_id (set (st_targets s))" "distinct (st_targets s)"
    by (auto simp: unique_by_def distinct_map)
  then show ?thesis
    unfolding claim_candidates_def distinct_map
    by (auto intro!: inj_on_subset [of tg_id "set (st_targets s)"] dest!: in_set_takeD)
qed

lemma claim_targets_ids:
  "ct_target_id ` set (fst (claim_targets d c locked e n s)) =
   tg_id ` set (claim_candidates d c locked e s)"
  unfolding claim_targets_eq by (metis claim_rows_ids image_set)

subsection \<open>Invariants of a run\<close>

lemma cursor_ordered_map:
  "cursor_ordered k n rs \<Longrightarrow> map k rs' = map k rs \<Longrightarrow> cursor_ordered k n rs'"
proof -
  assume o: "cursor_ordered k n rs" and m: "map k rs' = map k rs"
  have "k ` set rs' = k ` set rs" using m by (metis image_set)
  then show "cursor_ordered k n rs'"
    using o m unfolding cursor_ordered_def by (metis image_iff)
qed

lemma store_ids_set_targets:
  "store_ids s \<Longrightarrow> map tg_id gs = map tg_id (st_targets s) \<Longrightarrow> store_ids (s\<lparr>st_targets := gs\<rparr>)"
  unfolding store_ids_def by (auto intro: cursor_ordered_map)

lemma claim_targets_store_ids [keeps]:
  "store_ids s \<Longrightarrow> store_ids (snd (claim_targets d c locked e n s))"
  unfolding claim_targets_eq
  by (subst claim_rows_frame) (rule store_ids_set_targets, simp, rule claim_rows_row_ids)

lemma st_sched_set_ids [simp]: "store_ids (s\<lparr>st_sched := x\<rparr>) = store_ids s"
  by (simp add: store_ids_def)

lemma write_result_id [simp]: "tg_id (write_result r g) = tg_id g"
  by (simp add: write_result_def)

lemma write_back_store_ids [keeps]:
  "store_ids s \<Longrightarrow> store_ids (snd (write_back_result e i tk n r s))"
  by (auto simp: write_back_result_def store_ids_def intro!: cursor_ordered_upd)

lemma claim_candidates_complete:
  assumes "g \<in> set (st_targets s)" "claimable (now e) g" "d = Postgresql \<longrightarrow> \<not> locked (tg_id g)"
    and "g \<notin> set (claim_candidates d c locked e s)"
  shows "length (claim_candidates d c locked e s) = cf_claim_batch_size c"
    and "h \<in> set (claim_candidates d c locked e s) \<Longrightarrow> tg_next_check_at h \<le> tg_next_check_at g"
proof -
  define xs where "xs = sort_key tg_next_check_at
    (filter (\<lambda>g. claimable (now e) g \<and> (d = Postgresql \<longrightarrow> \<not> locked (tg_id g))) (st_targets s))"
  define k where "k = cf_claim_batch_size c"
  have cc: "claim_candidates d c locked e s = take k xs"
    by (simp add: claim_candidates_def xs_def k_def)
  have g: "g \<in> set xs" using assms(1-3) by (simp add: xs_def)
  then have gd: "g \<in> set (drop k xs)"
    using assms(4) unfolding cc by (metis Un_iff append_take_drop_id set_append)
  then have "k < length xs" by (metis drop_all empty_iff leI list.set(1))
  then show "length (claim_candidates d c locked e s) = cf_claim_batch_size c"
    by (simp add: cc k_def)
  assume "h \<in> set (claim_candidates d c locked e s)"
  then have h: "h \<in> set (take k xs)" by (simp add: cc)
  have "sorted (map tg_next_check_at (take k xs @ drop k xs))"
    by (simp add: xs_def)
  then show "tg_next_check_at h \<le> tg_next_check_at g"
    using h gd unfolding map_append sorted_append by simp
qed

text \<open>
  C10: \<open>claim_targets\<close> hands out at most a batch of targets, each at most once; every claimed
  target was active, due, free of a live lease and (on PostgreSQL) not locked by another
  transaction, and its row now carries the claim's token, the epoch and a lease that ends one
  worker lease after the clock.  All other rows and tables are as before, and when a claimable
  target is left out the batch is full of targets that were due no later.
\<close>

theorem claim_targets_sound:
  assumes ids: "store_ids s" and cl: "claim_targets d c locked e n s = (cs, s')"
  shows "length cs \<le> cf_claim_batch_size c \<and> distinct (map ct_target_id cs) \<and>
    (\<forall>ct\<in>set cs. \<exists>g\<in>set (st_targets s).
       claimable (now e) g \<and> (d = Postgresql \<longrightarrow> \<not> locked (tg_id g)) \<and>
       ct = claim_of n (ct_execution_token ct) g \<and>
       (\<exists>h\<in>set (st_targets s'). tg_id h = ct_target_id ct \<and>
          tg_execution_token h = Some (ct_execution_token ct) \<and> tg_execution_epoch h = Some n \<and>
          tg_execution_expires_at h = Some (now e + seconds (cf_worker_lease_seconds c)))) \<and>
    filter (\<lambda>g. tg_id g \<notin> ct_target_id ` set cs) (st_targets s') =
      filter (\<lambda>g. tg_id g \<notin> ct_target_id ` set cs) (st_targets s) \<and>
    s' = s\<lparr>st_targets := st_targets s'\<rparr> \<and>
    (\<forall>g\<in>set (st_targets s).
       claimable (now e) g \<and> (d = Postgresql \<longrightarrow> \<not> locked (tg_id g)) \<and>
       tg_id g \<notin> ct_target_id ` set cs \<longrightarrow>
       length cs = cf_claim_batch_size c \<and>
       (\<forall>ct\<in>set cs. \<forall>h\<in>set (st_targets s). tg_id h = ct_target_id ct \<longrightarrow>
          tg_next_check_at h \<le> tg_next_check_at g))"
proof -
  let ?gs = "claim_candidates d c locked e s"
  have cs: "cs = fst (claim_rows c e n 0 ?gs s)" and s': "s' = snd (claim_rows c e n 0 ?gs s)"
    using cl by (simp_all add: claim_targets_eq)
  have ids_eq: "map ct_target_id cs = map tg_id ?gs"
    unfolding cs by (rule claim_rows_ids)
  then have set_eq: "ct_target_id ` set cs = tg_id ` set ?gs" and len: "length cs = length ?gs"
    by (metis image_set) (metis ids_eq length_map)
  have dist: "distinct (map tg_id ?gs)" using ids by (rule claim_candidates_distinct)
  have sub: "set ?gs \<subseteq> set (st_targets s)" using set_claim_candidates by blast
  have "length cs \<le> cf_claim_batch_size c" by (simp add: len claim_candidates_def)
  moreover have "distinct (map ct_target_id cs)" using dist ids_eq by simp
  moreover have "\<exists>g\<in>set (st_targets s).
       claimable (now e) g \<and> (d = Postgresql \<longrightarrow> \<not> locked (tg_id g)) \<and>
       ct = claim_of n (ct_execution_token ct) g \<and>
       (\<exists>h\<in>set (st_targets s'). tg_id h = ct_target_id ct \<and>
          tg_execution_token h = Some (ct_execution_token ct) \<and> tg_execution_epoch h = Some n \<and>
          tg_execution_expires_at h = Some (now e + seconds (cf_worker_lease_seconds c)))"
    if ct: "ct \<in> set cs" for ct
  proof -
    obtain g where g: "g \<in> set ?gs" "ct = claim_of n (ct_execution_token ct) g"
        "take_lease c e n (ct_execution_token ct) g \<in> set (st_targets s')"
      using claim_rows_leased [OF dist sub, of ct c e n 0] ct unfolding cs s' by blast
    have "ct_target_id ct = tg_id g" using g(2) by (metis ClaimedTarget.select_convs(1) claim_of_def)
    then show ?thesis
      using g set_claim_candidates [OF g(1)]
      by (intro bexI [of _ g] conjI bexI [of _ "take_lease c e n (ct_execution_token ct) g"])
         (simp_all add: take_lease_def)
  qed
  moreover have "filter (\<lambda>g. tg_id g \<notin> ct_target_id ` set cs) (st_targets s') =
      filter (\<lambda>g. tg_id g \<notin> ct_target_id ` set cs) (st_targets s)"
    unfolding set_eq s' by (rule claim_rows_others)
  moreover have "s' = s\<lparr>st_targets := st_targets s'\<rparr>"
    unfolding s' by (rule claim_rows_frame)
  moreover have "length cs = cf_claim_batch_size c \<and>
       (\<forall>ct\<in>set cs. \<forall>h\<in>set (st_targets s). tg_id h = ct_target_id ct \<longrightarrow>
          tg_next_check_at h \<le> tg_next_check_at g)"
    if g: "g \<in> set (st_targets s)" "claimable (now e) g" "d = Postgresql \<longrightarrow> \<not> locked (tg_id g)"
      "tg_id g \<notin> ct_target_id ` set cs" for g
  proof -
    have "g \<notin> set ?gs" using g(4) set_eq by blast
    note full = claim_candidates_complete [OF g(1-3) this]
    have mem: "h \<in> set ?gs" if "ct \<in> set cs" "h \<in> set (st_targets s)" "tg_id h = ct_target_id ct" for ct h
    proof -
      have "tg_id h \<in> tg_id ` set ?gs" using that set_eq by (metis image_eqI)
      then obtain x where "x \<in> set ?gs" "tg_id x = tg_id h" by force
      then show ?thesis
        using unique_by_eq [OF store_ids_targets [OF ids]] sub that(2) by blast
    qed
    show ?thesis using full(1) len by (auto intro: full(2) mem)
  qed
  ultimately show ?thesis by blast
qed

subsection \<open>Leases last\<close>

definition leased_until :: "nat \<Rightarrow> time \<Rightarrow> store \<Rightarrow> bool" where
  "leased_until i t s =
     (\<forall>g\<in>set (st_targets s). tg_id g = i \<longrightarrow>
        tg_execution_token g \<noteq> None \<and> (\<exists>x. tg_execution_expires_at g = Some x \<and> t \<le> x))"

lemma leased_not_claimable:
  "leased_until i t s \<Longrightarrow> g \<in> set (st_targets s) \<Longrightarrow> tg_id g = i \<Longrightarrow> t' \<le> t \<Longrightarrow> \<not> claimable t' g"
  by (force simp: leased_until_def claimable_def lease_expired_def)

lemma leased_not_claimed:
  "leased_until i t s \<Longrightarrow> now e \<le> t \<Longrightarrow> i \<notin> ct_target_id ` set (fst (claim_targets d c locked e n s))"
  unfolding claim_targets_ids using leased_not_claimable set_claim_candidates by blast

lemma exec_op_targets:
  "st_targets (snd (exec_op d x cl)) =
     (case x of
        Claim c locked e n \<Rightarrow> st_targets (snd (claim_targets d c locked e n (snd cl)))
      | WriteBack e i tk n r \<Rightarrow> st_targets (snd (write_back_result e i tk n r (snd cl)))
      | _ \<Rightarrow> st_targets (snd cl))"
  by (cases cl; cases x)
     (auto simp: exec_op_def attempt_election_def try_acquire_epoch_def renew_lease_def Let_def
        release_leadership_def ensure_scheduler_state_row_def
      split: dialect.splits option.splits prod.splits if_splits)

lemma exec_op_store_ids [keeps]:
  "store_ids (snd cl) \<Longrightarrow> store_ids (snd (exec_op d x cl))"
  by (cases cl; cases x)
     (auto simp: exec_op_def attempt_election_def try_acquire_epoch_def renew_lease_def Let_def
        release_leadership_def ensure_scheduler_state_row_def
        claim_targets_store_ids write_back_store_ids
      split: dialect.splits option.splits prod.splits if_splits)

lemma claim_row_kept:
  assumes "h \<in> set (st_targets (snd (claim_targets d c locked e n s)))"
    and "tg_id h \<notin> ct_target_id ` set (fst (claim_targets d c locked e n s))"
  shows "h \<in> set (st_targets s)"
proof (rule filter_eq_mem [OF _ assms(1)])
  show "filter (\<lambda>g. tg_id g \<notin> tg_id ` set (claim_candidates d c locked e s)) (st_targets s) =
      filter (\<lambda>g. tg_id g \<notin> tg_id ` set (claim_candidates d c locked e s))
        (st_targets (snd (claim_targets d c locked e n s)))"
    unfolding claim_targets_eq by (rule claim_rows_others [symmetric])
  show "tg_id h \<notin> tg_id ` set (claim_candidates d c locked e s)"
    using assms(2) unfolding claim_targets_ids .
qed

definition respects_lease :: "nat \<Rightarrow> time \<Rightarrow> cluster_op \<Rightarrow> bool" where
  \<comment> \<open>claims run before \<open>t\<close>, and no result for target \<open>i\<close> is written\<close>
  "respects_lease i t x =
     (case x of Claim c locked e n \<Rightarrow> now e \<le> t | WriteBack e j tk n r \<Rightarrow> j \<noteq> i | _ \<Rightarrow> True)"

lemma exec_op_leased:
  assumes "leased_until i t (snd cl)" "respects_lease i t x"
  shows "leased_until i t (snd (exec_op d x cl))"
proof (cases x)
  case (Claim c locked e n)
  have "h \<in> set (st_targets (snd cl))"
    if "h \<in> set (st_targets (snd (claim_targets d c locked e n (snd cl))))" "tg_id h = i" for h
    using that claim_row_kept leased_not_claimed [OF assms(1)] assms(2)
    by (auto simp: Claim respects_lease_def)
  then show ?thesis
    using assms(1) by (simp add: leased_until_def exec_op_targets Claim)
next
  case (WriteBack e j tk n r)
  then show ?thesis
    using assms
    by (auto simp: leased_until_def exec_op_targets respects_lease_def write_back_result_def
        in_upd_rows owns_lease_def split: if_splits)
qed (use assms(1) in \<open>simp_all add: leased_until_def exec_op_targets\<close>)

lemma run_leased:
  "leased_until i t (snd cl) \<Longrightarrow> (\<And>x. x \<in> set xs \<Longrightarrow> respects_lease i t x) \<Longrightarrow>
   leased_until i t (snd (fold (exec_op d) xs cl))"
  by (induction xs arbitrary: cl) (simp_all add: exec_op_leased)

lemma claimed_leased:
  assumes "store_ids s" "ct \<in> set (fst (claim_targets d c locked e n s))"
  shows "leased_until (ct_target_id ct) (now e + seconds (cf_worker_lease_seconds c))
           (snd (claim_targets d c locked e n s))"
proof -
  let ?s = "snd (claim_targets d c locked e n s)"
  have "set (claim_candidates d c locked e s) \<subseteq> set (st_targets s)"
    using set_claim_candidates by blast
  then obtain g where g: "ct = claim_of n (ct_execution_token ct) g"
      "take_lease c e n (ct_execution_token ct) g \<in> set (st_targets ?s)"
    using claim_rows_leased [OF claim_candidates_distinct [OF assms(1)] _
        assms(2) [unfolded claim_targets_eq]]
    unfolding claim_targets_eq by blast
  have i: "ct_target_id ct = tg_id g" using g(1) by (metis ClaimedTarget.select_convs(1) claim_of_def)
  have "tg_execution_token h \<noteq> None \<and>
      tg_execution_expires_at h = Some (now e + seconds (cf_worker_lease_seconds c))"
    if "h \<in> set (st_targets ?s)" "tg_id h = ct_target_id ct" for h
  proof -
    have "h = take_lease c e n (ct_execution_token ct) g"
      using unique_by_eq [OF store_ids_targets [OF claim_targets_store_ids [OF assms(1)]] that(1) g(2)]
        that(2) i by simp
    then show ?thesis by (simp add: take_lease_def)
  qed
  then show ?thesis unfolding leased_until_def by blast
qed

text \<open>
  C4: no double dispatch.  A target claimed by one scheduler is in no batch that any scheduler
  claims before the worker lease has ended, whatever elections, renewals, claims and writes for
  other targets run in between.
\<close>

theorem no_double_claim:
  assumes "store_ids (snd cl)"
    and "ct \<in> set (fst (claim_targets d c locked e n (snd cl)))"
    and "\<And>x. x \<in> set xs \<Longrightarrow>
           respects_lease (ct_target_id ct) (now e + seconds (cf_worker_lease_seconds c)) x"
    and "now e' \<le> now e + seconds (cf_worker_lease_seconds c)"
  shows "ct_target_id ct \<notin> ct_target_id ` set (fst (claim_targets d c' locked' e' n'
           (snd (fold (exec_op d) xs (exec_op d (Claim c locked e n) cl)))))"
proof (rule leased_not_claimed [OF run_leased [OF _ assms(3)] assms(4)])
  show "leased_until (ct_target_id ct) (now e + seconds (cf_worker_lease_seconds c))
      (snd (exec_op d (Claim c locked e n) cl))"
    using claimed_leased [OF assms(1,2)] by (simp add: exec_op_def)
qed

subsection \<open>Writing back\<close>

lemma write_back_ok:
  assumes "write_back_result e i tk n r s = (True, s')"
  obtains g where "g \<in> set (st_targets s)" "owns_lease (now e) i tk n g"
    "s' = s\<lparr>st_targets := upd_rows (owns_lease (now e) i tk n) (write_result r) (st_targets s)\<rparr>"
    "write_result r g \<in> set (st_targets s')" "tg_id g = i"
proof -
  obtain g where g: "g \<in> set (st_targets s)" "owns_lease (now e) i tk n g"
    and s': "s' = s\<lparr>st_targets := upd_rows (owns_lease (now e) i tk n) (write_result r) (st_targets s)\<rparr>"
    using assms by (auto simp: write_back_result_def split: if_splits)
  have w: "write_result r g \<in> set (st_targets s')"
    using g unfolding s' by (simp, subst in_upd_rows) (auto intro: bexI [of _ g])
  have "tg_id g = i" using g(2) by (simp add: owns_lease_def)
  with g s' w show ?thesis using that by blast
qed

text \<open>
  A result is written exactly when the row still carries the writer's token and epoch and the
  lease has not ended; the row then has the new verdict and schedule and no lease, and a refused
  write changes nothing at all.
\<close>

theorem write_back_fenced:
  assumes ids: "store_ids s" and wb: "write_back_result e i tk n r s = (ok, s')"
  shows "(ok \<longleftrightarrow> (\<exists>g\<in>set (st_targets s). tg_id g = i \<and> tg_execution_token g = Some tk \<and>
                    tg_execution_epoch g = Some n \<and>
                    (\<exists>x. tg_execution_expires_at g = Some x \<and> now e < x))) \<and>
         (\<not> ok \<longrightarrow> s' = s) \<and>
         (ok \<longrightarrow>
           filter (\<lambda>g. tg_id g \<noteq> i) (st_targets s') = filter (\<lambda>g. tg_id g \<noteq> i) (st_targets s) \<and>
           s' = s\<lparr>st_targets := st_targets s'\<rparr> \<and>
           (\<exists>h\<in>set (st_targets s'). tg_id h = i \<and> tg_execution_token h = None \<and>
              tg_execution_epoch h = None \<and> tg_execution_expires_at h = None \<and>
              tg_last_checked_at h = Some (sr_last_checked_at r) \<and>
              tg_next_check_at h = sr_last_checked_at r + minutes (sr_interval_minutes r) \<and>
              tg_last_prediction h = Some (sr_last_prediction r) \<and>
              tg_consecutive_failures h = sr_consecutive_failures r))"
proof -
  have own: "owns_lease (now e) i tk n g \<longleftrightarrow> tg_id g = i \<and> tg_execution_token g = Some tk \<and>
      tg_execution_epoch g = Some n \<and> (\<exists>x. tg_execution_expires_at g = Some x \<and> now e < x)" for g
    by (auto simp: owns_lease_def split: option.splits)
  show ?thesis
  proof (cases "\<exists>g\<in>set (st_targets s). owns_lease (now e) i tk n g")
    case True
    then have ok: "ok" using wb by (simp add: write_back_result_def)
    with wb have "write_back_result e i tk n r s = (True, s')" by simp
    then obtain g where "g \<in> set (st_targets s)"
      and g: "owns_lease (now e) i tk n g"
        "s' = s\<lparr>st_targets := upd_rows (owns_lease (now e) i tk n) (write_result r) (st_targets s)\<rparr>"
        "write_result r g \<in> set (st_targets s')" "tg_id g = i"
      by (rule write_back_ok)
    have "filter (\<lambda>g. tg_id g \<noteq> i) (st_targets s') = filter (\<lambda>g. tg_id g \<noteq> i) (st_targets s)"
      by (auto simp: g(2) upd_rows_def own intro!: filter_map_upd)
    moreover have "\<exists>g\<in>set (st_targets s). tg_id g = i \<and> tg_execution_token g = Some tk \<and>
        tg_execution_epoch g = Some n \<and> (\<exists>x. tg_execution_expires_at g = Some x \<and> now e < x)"
      using True by (simp only: own)
    moreover have "s' = s\<lparr>st_targets := st_targets s'\<rparr>" by (simp add: g(2))
    ultimately show ?thesis
      using ok g(4)
      by (intro conjI impI bexI [OF _ g(3)]) (simp_all add: write_result_def)
  next
    case False
    then have "\<not> ok" "s' = s" using wb by (simp_all add: write_back_result_def)
    then show ?thesis using False by (simp add: own)
  qed
qed

text \<open>The claim of a worker: a target, a token and an epoch.\<close>

definition holds_claim :: "nat \<times> string \<times> nat \<Rightarrow> cluster \<Rightarrow> bool" where
  "holds_claim cm cl =
     (case cm of (i, tk, n) \<Rightarrow> \<exists>g\<in>set (st_targets (snd cl)).
        tg_id g = i \<and> tg_execution_token g = Some tk \<and> tg_execution_epoch g = Some n)"

definition commit_claim :: "nat \<times> string \<times> nat \<Rightarrow> env \<times> scan_result \<Rightarrow> cluster \<Rightarrow> bool \<times> cluster" where
  "commit_claim cm w cl =
     (case cm of (i, tk, n) \<Rightarrow> case w of (e, r) \<Rightarrow>
        case write_back_result e i tk n r (snd cl) of (b, s') \<Rightarrow> (b, (fst cl, s')))"

definition other_tokens :: "cluster_op \<Rightarrow> nat \<times> string \<times> nat \<Rightarrow> bool" where
  \<comment> \<open>the tokens a claim generates are not the given one\<close>
  "other_tokens x cm =
     (case x of Claim c locked e n \<Rightarrow> (fst (snd cm) \<notin> range (uuids e)) | _ \<Rightarrow> True)"

lemma claim_rows_tokens:
  "ct \<in> set (fst (claim_rows c e n k gs s)) \<Longrightarrow> ct_execution_token ct \<in> range (uuids e)"
  by (induction gs arbitrary: k s) (auto simp: claim_of_def case_prod_beta Let_def)

lemma claim_new_row:
  assumes "h \<in> set (st_targets (snd (claim_rows c e n k gs s)))"
  shows "h \<in> set (st_targets s) \<or> (\<exists>tk\<in>range (uuids e). tg_execution_token h = Some tk)"
  using assms
proof (induction gs arbitrary: k s)
  case (Cons g gs)
  have "h \<in> set (st_targets (set_target (tg_id g) (take_lease c e n (uuids e k)) s)) \<or>
      (\<exists>tk\<in>range (uuids e). tg_execution_token h = Some tk)"
    using Cons.prems by (intro Cons.IH [of "Suc k"]) (simp add: case_prod_beta Let_def)
  then show ?case
    by (auto simp: in_upd_rows take_lease_def split: if_splits)
qed simp

lemma write_back_lost:
  assumes "h \<in> set (st_targets (snd (write_back_result e i tk n r s)))"
    "tg_execution_token h \<noteq> None"
  shows "h \<in> set (st_targets s)"
  using assms by (auto simp: write_back_result_def in_upd_rows write_result_def split: if_splits)

lemma other_op_lost:
  assumes "other_tokens x cm" "\<not> holds_claim cm cl"
  shows "\<not> holds_claim cm (exec_op d x cl)"
proof -
  obtain i tk n where cm: "cm = (i, tk, n)" by (cases cm)
  have "h \<in> set (st_targets (snd cl))"
    if "h \<in> set (st_targets (snd (exec_op d x cl)))" "tg_execution_token h = Some tk" for h
  proof (cases x)
    case (Claim c locked e m)
    then show ?thesis
      using that assms(1) claim_new_row [of h c e m 0 _ "snd cl"]
      by (force simp: exec_op_targets claim_targets_eq other_tokens_def cm)
  next
    case (WriteBack e j t m r)
    then show ?thesis
      using that write_back_lost [of h e j t m r "snd cl"] by (simp add: exec_op_targets)
  qed (use that in \<open>simp_all add: exec_op_targets\<close>)
  then show ?thesis using assms(2) by (auto simp: holds_claim_def cm)
qed

lemma commit_claim_cases:
  assumes "commit_claim (i, tk, n) (e, r) cl = (b, cl')"
  shows "\<exists>s'. write_back_result e i tk n r (snd cl) = (b, s') \<and> cl' = (fst cl, s')"
  using assms by (auto simp: commit_claim_def split: prod.splits)

lemma write_back_ends:
  assumes "store_ids s" "write_back_result e i tk n r s = (True, s')" "g \<in> set (st_targets s')"
    "tg_id g = i"
  shows "tg_execution_token g = None"
proof -
  obtain h where "write_result r h \<in> set (st_targets s')" "tg_id h = i"
    using assms(2) by (rule write_back_ok)
  then have h: "write_result r h \<in> set (st_targets s')" "tg_id (write_result r h) = i"
      "tg_execution_token (write_result r h) = None"
    by (simp_all add: write_result_def)
  have "store_ids s'" using write_back_store_ids [OF assms(1), of e i tk n r] assms(2) by simp
  then show ?thesis
    using unique_by_eq [OF store_ids_targets] h assms(3,4) by metis
qed

interpretation lease: fenced_lease holds_claim commit_claim "exec_op d" other_tokens
  "\<lambda>cl. store_ids (snd cl)" for d
proof unfold_locales
  fix c :: "nat \<times> string \<times> nat" and w :: "env \<times> scan_result" and s :: cluster and x :: cluster_op
  obtain i tk n where c: "c = (i, tk, n)" by (cases c)
  obtain e r where w: "w = (e, r)" by (cases w)
  obtain b cl' where cc: "commit_claim c w s = (b, cl')" by (cases "commit_claim c w s")
  then obtain s' where wb: "write_back_result e i tk n r (snd s) = (b, s')" "cl' = (fst s, s')"
    using commit_claim_cases unfolding c w by blast
  show "fst (commit_claim c w s) \<Longrightarrow> holds_claim c s"
    using wb unfolding cc
    by (auto simp: c holds_claim_def write_back_result_def owns_lease_def split: if_splits)
  show "\<not> fst (commit_claim c w s) \<Longrightarrow> snd (commit_claim c w s) = s"
    using wb by (auto simp: cc write_back_result_def split: if_splits)
  show "store_ids (snd s) \<Longrightarrow> store_ids (snd (snd (commit_claim c w s)))"
    using write_back_store_ids [of "snd s" e i tk n r] wb by (simp add: cc)
  show "\<not> holds_claim c (snd (commit_claim c w s))"
    if "store_ids (snd s)" "fst (commit_claim c w s)"
    using write_back_ends [OF that(1), of e i tk n r s'] wb that(2)
    unfolding cc by (auto simp: c holds_claim_def)
  show "store_ids (snd s) \<Longrightarrow> store_ids (snd (exec_op d x s))"
    by (rule exec_op_store_ids)
  show "other_tokens x c \<Longrightarrow> \<not> holds_claim c s \<Longrightarrow> \<not> holds_claim c (exec_op d x s)"
    by (rule other_op_lost)
qed

text \<open>
  C3: at most once.  However often the worker of a claim retries its write, and whatever the
  schedulers and the other workers do in between, at most one of the writes is accepted, as long
  as no later claim draws the same token again.
\<close>

theorem write_back_at_most_once:
  assumes "store_ids (snd cl)" and "\<And>x. Inr x \<in> set es \<Longrightarrow> other_tokens x (i, tk, n)"
  shows "length (filter (\<lambda>ok. ok) (replay (commit_claim (i, tk, n)) (exec_op d) es cl)) \<le> 1"
  using assms by (rule lease.at_most_once)

text \<open>
  The fence is the row's lease and not the scheduler's epoch: whatever the state row of the
  scheduler says, and so also after any number of later elections, a write is accepted or refused
  as it would have been before.
\<close>

theorem write_back_ignores_scheduler_epoch:
  "fst (write_back_result e i tk n r (s\<lparr>st_sched := Some q\<rparr>)) = fst (write_back_result e i tk n r s)"
  by (simp add: write_back_result_def)

subsection \<open>Epochs\<close>

lemma claim_targets_sched [simp]:
  "st_sched (snd (claim_targets d c locked e n s)) = st_sched s"
  unfolding claim_targets_eq by (subst claim_rows_frame) simp

lemma write_back_sched [simp]:
  "st_sched (snd (write_back_result e i tk n r s)) = st_sched s"
  by (simp add: write_back_result_def)

lemma new_lease_simps [simp]:
  "ss_current_epoch (new_lease c e r) = Suc (ss_current_epoch r)"
  "ss_leader_pod_id (new_lease c e r) = Some (cf_pod_id c)"
  "ss_lease_expires_at (new_lease c e r) = Some (now e + seconds (cf_leader_lease_seconds c))"
  by (simp_all add: new_lease_def)

lemma elect_epoch:
  assumes "d \<noteq> OtherDialect"
  shows "get_current_epoch (snd cl) \<le> get_current_epoch (snd (snd (attempt_election d c ok e cl)))"
    and "ls_is_leader (fst (attempt_election d c ok e cl)) \<Longrightarrow>
      get_current_epoch (snd cl) < ls_epoch (fst (attempt_election d c ok e cl)) \<and>
      ls_epoch (fst (attempt_election d c ok e cl)) =
        get_current_epoch (snd (snd (attempt_election d c ok e cl)))"
  using assms
  by (cases cl; auto simp: attempt_election_def try_acquire_epoch_def get_current_epoch_def Let_def
        follower_def sqlite_sched_row_def split: dialect.splits option.splits prod.splits if_splits)+

lemma exec_op_epoch:
  assumes "d \<noteq> OtherDialect"
  shows "get_current_epoch (snd cl) \<le> get_current_epoch (snd (exec_op d x cl))"
proof (cases x)
  case (Elect c ok e)
  then show ?thesis using elect_epoch(1) [OF assms] by (simp add: exec_op_def)
qed (auto simp: exec_op_def renew_lease_def release_leadership_def ensure_scheduler_state_row_def
      get_current_epoch_def split: dialect.splits option.splits prod.splits if_splits)

lemma won_epoch_cases:
  assumes "d \<noteq> OtherDialect"
  shows "won_epoch d x cl = [] \<or>
    (\<exists>p n. won_epoch d x cl = [(p, n)] \<and> get_current_epoch (snd cl) < n \<and>
       n = get_current_epoch (snd (exec_op d x cl)))"
proof (cases x)
  case (Elect c ok e)
  show ?thesis
  proof (cases "ls_is_leader (fst (attempt_election d c ok e cl))")
    case True
    then show ?thesis
      using elect_epoch(2) [OF assms True] by (simp add: won_epoch_def exec_op_def Let_def Elect)
  qed (simp add: won_epoch_def Elect)
qed (simp_all add: won_epoch_def)

text \<open>
  C11: fencing epochs are strictly increasing: over any sequence of service calls by any pods,
  every election that is won yields an epoch larger than the one in the database before and than
  that of every earlier winner.
\<close>

theorem epochs_strictly_increase:
  assumes "d \<noteq> OtherDialect"
  shows "sorted_wrt (<) (get_current_epoch (snd cl) # map snd (elections d xs cl))"
proof (induction xs arbitrary: cl)
  case (Cons x xs)
  let ?cl = "exec_op d x cl"
  have tl: "\<forall>m\<in>set (map snd (elections d xs ?cl)). get_current_epoch (snd ?cl) < m"
      "sorted_wrt (<) (map snd (elections d xs ?cl))"
    using Cons.IH [of ?cl] by simp_all
  have le: "get_current_epoch (snd cl) \<le> get_current_epoch (snd ?cl)"
    by (rule exec_op_epoch [OF assms])
  consider "won_epoch d x cl = []"
    | p where "won_epoch d x cl = [(p, get_current_epoch (snd ?cl))]"
      "get_current_epoch (snd cl) < get_current_epoch (snd ?cl)"
    using won_epoch_cases [OF assms, of x cl] by blast
  then show ?case
  proof cases
    case 1
    then show ?thesis using tl le by fastforce
  next
    case 2
    then show ?thesis using tl by fastforce
  qed
qed simp

subsection \<open>One leader at a time\<close>

definition leads_until :: "string \<Rightarrow> time \<Rightarrow> store \<Rightarrow> bool" where
  "leads_until p t s =
     (\<exists>r x. st_sched s = Some r \<and> ss_leader_pod_id r = Some p \<and>
        ss_lease_expires_at r = Some x \<and> t \<le> x)"

definition before_lease_end :: "string \<Rightarrow> time \<Rightarrow> cluster_op \<Rightarrow> bool" where
  \<comment> \<open>other pods campaign no later than \<open>t\<close>; the leader's own leases do not end before \<open>t\<close>\<close>
  "before_lease_end p t x =
     (case x of
        Elect c ok e \<Rightarrow>
          if cf_pod_id c = p then t \<le> now e + seconds (cf_leader_lease_seconds c) else now e \<le> t
      | Renew c e n \<Rightarrow> cf_pod_id c = p \<longrightarrow> t \<le> now e + seconds (cf_leader_lease_seconds c)
      | _ \<Rightarrow> True)"

lemma exec_op_leads:
  assumes "leads_until p t (snd cl)" "before_lease_end p t x"
  shows "leads_until p t (snd (exec_op Postgresql x cl)) \<and> fst ` set (won_epoch Postgresql x cl) \<subseteq> {p}"
proof -
  obtain lk s where cl: "cl = (lk, s)" by (cases cl)
  obtain r y where r: "st_sched s = Some r" "ss_leader_pod_id r = Some p"
      "ss_lease_expires_at r = Some y" "t \<le> y"
    using assms(1) unfolding cl leads_until_def by auto
  have free: "lease_free c e r \<longleftrightarrow> y < now e \<or> cf_pod_id c = p" for c e
    using r by (auto simp: lease_free_def)
  show ?thesis
  proof (cases x)
    case (Elect c ok e)
    then show ?thesis
      using assms(2) r
      by (auto simp: cl exec_op_def won_epoch_def attempt_election_def try_acquire_epoch_def Let_def
          leads_until_def before_lease_end_def free follower_def split: prod.splits if_splits)
  next
    case (Renew c e n)
    then show ?thesis
      using assms(2) r
      by (auto simp: cl exec_op_def won_epoch_def renew_lease_def leads_until_def before_lease_end_def)
  qed (use r in \<open>simp_all add: cl exec_op_def won_epoch_def release_leadership_def leads_until_def
         ensure_scheduler_state_row_def\<close>)
qed

text \<open>
  C10: one leader at a time.  On PostgreSQL, once a pod is elected, no other pod wins an election
  until the leader's lease has ended, even if the advisory lock is released or lost, results and
  claims are written, or the leader renews and is elected again.
\<close>

theorem leader_exclusive:
  assumes "attempt_election Postgresql c True e cl = (st, cl')" "ls_is_leader st"
    and "\<And>x. x \<in> set xs \<Longrightarrow>
           before_lease_end (cf_pod_id c) (now e + seconds (cf_leader_lease_seconds c)) x"
  shows "fst ` set (elections Postgresql xs cl') \<subseteq> {cf_pod_id c}"
proof -
  let ?t = "now e + seconds (cf_leader_lease_seconds c)"
  have "leads_until (cf_pod_id c) ?t (snd cl')"
    using assms(1,2)
    by (cases cl) (auto simp: attempt_election_def try_acquire_epoch_def Let_def follower_def
        leads_until_def split: prod.splits option.splits if_splits)
  then show ?thesis
    using assms(3)
  proof (induction xs arbitrary: cl')
    case (Cons x xs)
    then show ?case
      using exec_op_leads [of "cf_pod_id c" ?t cl' x] by (auto simp: image_Un)
  qed simp
qed

definition bootstrap_state :: "store \<Rightarrow> bool" where
  \<comment> \<open>no row, or the row as the migration and \<open>ensure_scheduler_state_row\<close> insert it\<close>
  "bootstrap_state s =
     (case st_sched s of
        None \<Rightarrow> True
      | Some r \<Rightarrow> ss_leader_pod_id r = None \<and> ss_lease_expires_at r = None)"

lemma bootstrap_step:
  assumes "bootstrap_state (snd cl)"
  shows "bootstrap_state (snd (exec_op Postgresql x cl)) \<and> won_epoch Postgresql x cl = []"
  using assms
  by (cases cl; cases x)
     (auto simp: exec_op_def won_epoch_def bootstrap_state_def attempt_election_def Let_def
        try_acquire_epoch_def lease_free_def renew_lease_def release_leadership_def follower_def
        ensure_scheduler_state_row_def split: option.splits prod.splits if_splits)

text \<open>
  C40: the bootstrap row blocks every election.  On PostgreSQL the guard of the epoch update
  compares two NULL columns of the row the migration inserts, so from that row (or from none) no
  sequence of service calls by any pods ever elects a leader.
\<close>

theorem bootstrap_never_elects:
  assumes "bootstrap_state (snd cl)"
  shows "elections Postgresql xs cl = []"
  using assms
proof (induction xs arbitrary: cl)
  case (Cons x xs)
  then show ?case using bootstrap_step [of cl x] by simp
qed simp

subsection \<open>The cycle\<close>

lemma claim_targets_epoch:
  "ct \<in> set (fst (claim_targets d c locked e n s)) \<Longrightarrow> ct_execution_epoch ct = n"
proof -
  have "ct \<in> set (fst (claim_rows c e n k gs s)) \<Longrightarrow> ct_execution_epoch ct = n" for k gs s
    by (induction gs arbitrary: k s) (auto simp: claim_of_def case_prod_beta Let_def)
  then show "ct \<in> set (fst (claim_targets d c locked e n s)) \<Longrightarrow> ct_execution_epoch ct = n"
    unfolding claim_targets_eq by blast
qed

lemma elected_leads:
  assumes "attempt_election Postgresql c ok e cl = (st, cl')" "ls_is_leader st"
  shows "leads_until (cf_pod_id c) (now e + seconds (cf_leader_lease_seconds c)) (snd cl') \<and>
         get_current_epoch (snd cl') = ls_epoch st"
  using assms
  by (cases cl) (auto simp: attempt_election_def try_acquire_epoch_def Let_def follower_def
      leads_until_def get_current_epoch_def split: prod.splits option.splits if_splits)

lemma renewed_leads:
  assumes "renew_lease Postgresql c e n cl = (True, cl')"
  shows "leads_until (cf_pod_id c) (now e + seconds (cf_leader_lease_seconds c)) (snd cl') \<and>
         get_current_epoch (snd cl') = n"
  using assms
  by (cases cl) (auto simp: renew_lease_def leads_until_def get_current_epoch_def
      split: prod.splits option.splits if_splits)

lemma lead_step_leads:
  assumes "lead_step Postgresql c ok e m cl = (m1, cl1)" "me_is_leader m1"
  shows "leads_until (cf_pod_id c) (now e + seconds (cf_leader_lease_seconds c)) (snd cl1) \<and>
         get_current_epoch (snd cl1) = me_current_epoch m1"
proof (cases "me_is_leader m")
  case True
  obtain b cl2 where r: "renew_lease Postgresql c e (me_current_epoch m) cl = (b, cl2)"
    by (cases "renew_lease Postgresql c e (me_current_epoch m) cl")
  then have "b \<and> m1 = m \<and> cl1 = cl2"
    using assms True by (auto simp: lead_step_def split: if_splits)
  then show ?thesis using renewed_leads [of c e _ cl cl2] r by simp
next
  case False
  obtain st cl2 where r: "attempt_election Postgresql c ok e cl = (st, cl2)"
    by (cases "attempt_election Postgresql c ok e cl")
  then have "ls_is_leader st \<and> me_current_epoch m1 = ls_epoch st \<and> cl1 = cl2"
    using assms False by (auto simp: lead_step_def split: if_splits)
  then show ?thesis using elected_leads [OF r] by simp
qed

text \<open>
  Only a leader dispatches.  When a cycle of the engine whose election or renewal ran without
  an error hands out targets, the pod holds the leader lease for a full lease from the clock, the
  claims carry the epoch that the database records, and the engine is not stopping.
\<close>

theorem only_leader_dispatches:
  assumes "cycle_step Postgresql c True update_ok ok2 locked e m cl = (m', cs, cl')"
    and "cs \<noteq> []"
  shows "me_is_leader m' \<and> \<not> me_stopping m' \<and>
         leads_until (cf_pod_id c) (now e + seconds (cf_leader_lease_seconds c)) (snd cl') \<and>
         get_current_epoch (snd cl') = me_current_epoch m' \<and>
         (\<forall>ct\<in>set cs. ct_execution_epoch ct = get_current_epoch (snd cl'))"
proof -
  obtain m1 cl1 where m1: "lead_step Postgresql c update_ok e m cl = (m1, cl1)"
    by (cases "lead_step Postgresql c update_ok e m cl")
  obtain cs' s' where ct: "claim_targets Postgresql c locked e (me_current_epoch m1) (snd cl1) = (cs', s')"
    by (cases "claim_targets Postgresql c locked e (me_current_epoch m1) (snd cl1)")
  have run: "me_is_leader m1 \<and> \<not> me_stopping m1 \<and> m' = m1 \<and> cs = cs' \<and> snd cl' = s'"
    using assms by (auto simp: cycle_step_def m1 ct split: if_splits)
  have lead: "leads_until (cf_pod_id c) (now e + seconds (cf_leader_lease_seconds c)) (snd cl1) \<and>
      get_current_epoch (snd cl1) = me_current_epoch m1"
    using lead_step_leads [OF m1] run by blast
  have "st_sched (snd cl') = st_sched (snd cl1)"
    using claim_targets_sched [of Postgresql c locked e "me_current_epoch m1" "snd cl1"] run
    by (simp add: ct)
  then have now_leads:
      "leads_until (cf_pod_id c) (now e + seconds (cf_leader_lease_seconds c)) (snd cl')"
      "get_current_epoch (snd cl') = me_current_epoch m1"
    using lead by (simp_all add: leads_until_def get_current_epoch_def)
  have "\<forall>ct\<in>set cs. ct_execution_epoch ct = me_current_epoch m1"
    using claim_targets_epoch [of _ Postgresql c locked e "me_current_epoch m1" "snd cl1"] run
    by (simp add: ct)
  then show ?thesis
    using run now_leads by simp
qed

subsection \<open>Witnesses\<close>

definition sample_target :: "nat \<Rightarrow> time \<Rightarrow> target" where
  "sample_target i due =
     \<lparr>tg_id = i, tg_uuid = ''tu'', tg_url = ''http://a.com'', tg_normalized_domain = ''a.com'',
      tg_check_interval_minutes = 60, tg_is_active = True, tg_last_checked_at = None,
      tg_next_check_at = due, tg_last_prediction = None, tg_last_confidence = None,
      tg_consecutive_failures = 0, tg_last_status_code = None, tg_last_response_time_ms = None,
      tg_last_error_message = None, tg_execution_token = None, tg_execution_epoch = None,
      tg_execution_expires_at = None, tg_user_id = 1, tg_created_at = 0\<rparr>"

definition sample_sched :: "string \<Rightarrow> time \<Rightarrow> sched" where
  "sample_sched p x =
     \<lparr>ss_current_epoch = 4, ss_leader_pod_id = Some p, ss_lease_acquired_at = Some 0,
      ss_lease_expires_at = Some x, ss_updated_at = 0\<rparr>"

definition sample_cluster :: cluster where
  "sample_cluster = (None, empty_store\<lparr>st_targets := [sample_target 1 5, sample_target 2 3,
     sample_target 3 900000000], sq_target := 4, st_sched := Some (sample_sched ''old'' 7)\<rparr>)"

definition sample_result :: scan_result where
  "sample_result = \<lparr>sr_last_checked_at = 20, sr_interval_minutes = 60, sr_last_prediction = ''safe'',
     sr_last_confidence = 9 / 10, sr_consecutive_failures = 0\<rparr>"

lemma sample_cluster_ids [simp]: "store_ids (snd sample_cluster)"
  by (simp add: sample_cluster_def store_ids_def cursor_ordered_def sample_target_def empty_store_def)

abbreviation pod_a :: config where "pod_a \<equiv> default_config ''pod-a''"
abbreviation pod_b :: config where "pod_b \<equiv> default_config ''pod-b''"

lemma claim_targets_sound_witness:
  "(case claim_targets Postgresql pod_a (\<lambda>_. False) (sample_env 10) 5 (snd sample_cluster) of
     (cs, s') \<Rightarrow> map ct_target_id cs = [2, 1] \<and> length cs \<le> 10)"
proof -
  obtain cs s' where c: "claim_targets Postgresql pod_a (\<lambda>_. False) (sample_env 10) 5
      (snd sample_cluster) = (cs, s')"
    by (cases "claim_targets Postgresql pod_a (\<lambda>_. False) (sample_env 10) 5 (snd sample_cluster)")
  have "map ct_target_id (fst (claim_targets Postgresql pod_a (\<lambda>_. False) (sample_env 10) 5
      (snd sample_cluster))) = [2, 1]"
    by code_simp
  moreover have "length cs \<le> cf_claim_batch_size pod_a"
    using claim_targets_sound [OF sample_cluster_ids c] by blast
  ultimately show ?thesis
    unfolding c by simp
qed

lemma no_double_claim_witness:
  "(2::nat) \<notin> ct_target_id ` set (fst (claim_targets Sqlite pod_b (\<lambda>_. False) (sample_env 40000000) 6
     (snd (fold (exec_op Sqlite) [Elect pod_b True (sample_env 30)]
        (exec_op Sqlite (Claim pod_a (\<lambda>_. False) (sample_env 10) 5) sample_cluster)))))"
proof -
  define ct where "ct = claim_of 5 (uuids (sample_env 10) 0) (sample_target 2 3)"
  have "ct \<in> set (fst (claim_targets Sqlite pod_a (\<lambda>_. False) (sample_env 10) 5 (snd sample_cluster)))"
    unfolding ct_def by code_simp
  moreover have "ct_target_id ct = 2"
    by (simp add: ct_def claim_of_def sample_target_def)
  ultimately show ?thesis
    using no_double_claim [of sample_cluster ct Sqlite pod_a "\<lambda>_. False" "sample_env 10" 5
        "[Elect pod_b True (sample_env 30)]" "sample_env 40000000" pod_b "\<lambda>_. False" 6]
    by (simp add: respects_lease_def seconds_def)
qed

definition leased_store :: store where
  "leased_store = empty_store\<lparr>st_targets := [(sample_target 1 5)\<lparr>tg_execution_token := Some ''tok'',
     tg_execution_epoch := Some 4, tg_execution_expires_at := Some 50\<rparr>], sq_target := 2\<rparr>"

lemma leased_store_ids [simp]: "store_ids leased_store"
  by (simp add: leased_store_def store_ids_def cursor_ordered_def sample_target_def empty_store_def)

lemma write_back_fenced_witness:
  "fst (write_back_result (sample_env 20) 1 ''tok'' 4 sample_result leased_store) \<and>
   \<not> fst (write_back_result (sample_env 60) 1 ''tok'' 4 sample_result leased_store)"
proof -
  obtain ok1 s1 where w1: "write_back_result (sample_env 20) 1 ''tok'' 4 sample_result leased_store
      = (ok1, s1)" by (cases "write_back_result (sample_env 20) 1 ''tok'' 4 sample_result leased_store")
  obtain ok2 s2 where w2: "write_back_result (sample_env 60) 1 ''tok'' 4 sample_result leased_store
      = (ok2, s2)" by (cases "write_back_result (sample_env 60) 1 ''tok'' 4 sample_result leased_store")
  have "ok1" "\<not> ok2"
    using write_back_fenced [OF leased_store_ids w1] write_back_fenced [OF leased_store_ids w2]
    by (simp_all add: leased_store_def sample_target_def)
  then show ?thesis unfolding w1 w2 by simp
qed

lemma write_back_at_most_once_witness:
  "length (filter (\<lambda>ok. ok) (replay (commit_claim (1, ''tok'', 4)) (exec_op Postgresql)
     [Inl (sample_env 20, sample_result), Inr (EnsureRow (sample_env 21)),
      Inl (sample_env 22, sample_result)] (None, leased_store))) \<le> 1"
  by (rule write_back_at_most_once) (auto simp: other_tokens_def)

lemma epochs_strictly_increase_witness:
  "sorted_wrt (<) (4 # map snd (elections Postgresql
     [Elect pod_a True (sample_env 10), Release pod_a,
      Elect pod_b True (sample_env 90000000)] sample_cluster)) \<and>
   elections Postgresql [Elect pod_a True (sample_env 10), Release pod_a,
      Elect pod_b True (sample_env 90000000)] sample_cluster = [(''pod-a'', 5), (''pod-b'', 6)]"
proof
  have "get_current_epoch (snd sample_cluster) = 4"
    by (simp add: get_current_epoch_def sample_cluster_def sample_sched_def)
  then show "sorted_wrt (<) (4 # map snd (elections Postgresql
     [Elect pod_a True (sample_env 10), Release pod_a,
      Elect pod_b True (sample_env 90000000)] sample_cluster))"
    using epochs_strictly_increase [of Postgresql sample_cluster] by (metis dialect.distinct(5))
  show "elections Postgresql [Elect pod_a True (sample_env 10), Release pod_a,
      Elect pod_b True (sample_env 90000000)] sample_cluster = [(''pod-a'', 5), (''pod-b'', 6)]"
    by code_simp
qed

lemma leader_exclusive_witness:
  "fst ` set (elections Postgresql [Release pod_a, Elect pod_b True (sample_env 20)]
     (snd (attempt_election Postgresql pod_a True (sample_env 10) sample_cluster))) \<subseteq> {''pod-a''}"
proof -
  obtain st cl where e: "attempt_election Postgresql pod_a True (sample_env 10) sample_cluster = (st, cl)"
    by (cases "attempt_election Postgresql pod_a True (sample_env 10) sample_cluster")
  have "ls_is_leader (fst (attempt_election Postgresql pod_a True (sample_env 10) sample_cluster))"
    by code_simp
  then have "ls_is_leader st" by (simp add: e)
  moreover have "before_lease_end (cf_pod_id pod_a)
      (now (sample_env 10) + seconds (cf_leader_lease_seconds pod_a)) x"
    if "x \<in> set [Release pod_a, Elect pod_b True (sample_env 20)]" for x
    using that by (auto simp: before_lease_end_def seconds_def)
  ultimately have "fst ` set (elections Postgresql [Release pod_a, Elect pod_b True (sample_env 20)] cl)
      \<subseteq> {cf_pod_id pod_a}"
    by (rule leader_exclusive [OF e])
  then show ?thesis by (simp only: e snd_conv default_config_simps)
qed

lemma bootstrap_never_elects_witness:
  "elections Postgresql [EnsureRow (sample_env 1), Elect pod_a True (sample_env 10),
     Elect pod_b True (sample_env 99000000)] (None, empty_store) = []"
  by (rule bootstrap_never_elects) (simp add: bootstrap_state_def)

lemma only_leader_dispatches_witness:
  "(case cycle_step Postgresql pod_a True True True (\<lambda>_. False) (sample_env 10)
       \<lparr>me_is_leader = False, me_current_epoch = 0, me_stopping = False\<rparr> sample_cluster of
     (m', cs, cl') \<Rightarrow> cs \<noteq> [] \<and> me_is_leader m' \<and> get_current_epoch (snd cl') = me_current_epoch m')"
proof -
  let ?x = "cycle_step Postgresql pod_a True True True (\<lambda>_. False) (sample_env 10)
       \<lparr>me_is_leader = False, me_current_epoch = 0, me_stopping = False\<rparr> sample_cluster"
  obtain m' cs cl' where x: "?x = (m', cs, cl')" by (cases ?x)
  have "fst (snd ?x) \<noteq> []" by code_simp
  then show ?thesis
    using only_leader_dispatches [OF x] by (simp add: x)
qed

end
