(* ===== verification/SafeNet.thy ===== *)
theory SafeNet
  imports PyNet
begin

text \<open>
  \<open>backend/core/security_network.py\<close>: the guard against server-side request forgery.  The
  networks of \<open>ipaddress\<close> that make an address private, reserved and so on are those of Python
  3.11.  The answer of \<open>getaddrinfo\<close> is a parameter: the addresses of a host, or none when the
  lookup fails or times out.
\<close>

subsection \<open>Networks\<close>

datatype ip_network = Net ip_address nat

definition ip_value :: "ip_address \<Rightarrow> int" where
  "ip_value ip =
     (case ip of
        IPv4 os \<Rightarrow> fold (\<lambda>x acc. acc * 256 + x) os 0
      | IPv6 hs sc \<Rightarrow> fold (\<lambda>x acc. acc * 65536 + x) hs 0)"

definition ip_bits :: "ip_address \<Rightarrow> nat" where
  "ip_bits ip = (case ip of IPv4 os \<Rightarrow> 32 | IPv6 hs sc \<Rightarrow> 128)"

definition in_network :: "ip_address \<Rightarrow> ip_network \<Rightarrow> bool" where
  \<comment> \<open>\<open>ip in net\<close>: same version and equal network bits\<close>
  "in_network ip net =
     (case net of Net base p \<Rightarrow>
        ip_bits ip = ip_bits base \<and>
        ip_value ip div 2 ^ (ip_bits ip - p) = ip_value base div 2 ^ (ip_bits ip - p))"

definition net4 :: "int \<Rightarrow> int \<Rightarrow> int \<Rightarrow> int \<Rightarrow> nat \<Rightarrow> ip_network" where
  "net4 a b c d p = Net (IPv4 [a, b, c, d]) p"

definition net6 :: "int list \<Rightarrow> nat \<Rightarrow> ip_network" where
  \<comment> \<open>the leading hextets, zeros after them\<close>
  "net6 hs p = Net (IPv6 (hs @ replicate (8 - length hs) 0) None) p"

definition BLOCKED_NETWORKS :: "ip_network list" where
  "BLOCKED_NETWORKS =
     [net4 0 0 0 0 8, net4 10 0 0 0 8, net4 100 64 0 0 10, net4 127 0 0 0 8, net4 169 254 0 0 16,
      net4 172 16 0 0 12, net4 192 0 0 0 24, net4 192 0 2 0 24, net4 192 168 0 0 16,
      net4 198 18 0 0 15, net4 198 51 100 0 24, net4 203 0 113 0 24, net4 224 0 0 0 4,
      net4 240 0 0 0 4, net4 255 255 255 255 32,
      net6 [] 128, net6 [0, 0, 0, 0, 0, 0, 0, 1] 128, net6 [0, 0, 0, 0, 0, 0xffff] 96,
      net6 [0x64, 0xff9b] 96, net6 [0x100] 64, net6 [0x2001, 0xdb8] 32, net6 [0xfc00] 7,
      net6 [0xfe80] 10, net6 [0xff00] 8]"

definition PRIVATE_NETWORKS :: "ip_network list" where
  "PRIVATE_NETWORKS =
     [net4 0 0 0 0 8, net4 10 0 0 0 8, net4 127 0 0 0 8, net4 169 254 0 0 16, net4 172 16 0 0 12,
      net4 192 0 0 0 24, net4 192 0 0 170 31, net4 192 0 2 0 24, net4 192 168 0 0 16,
      net4 198 18 0 0 15, net4 198 51 100 0 24, net4 203 0 113 0 24, net4 240 0 0 0 4,
      net4 255 255 255 255 32,
      net6 [0, 0, 0, 0, 0, 0, 0, 1] 128, net6 [] 128, net6 [0, 0, 0, 0, 0, 0xffff] 96,
      net6 [0x64, 0xff9b, 1] 48, net6 [0x100] 64, net6 [0x2001] 23, net6 [0x2001, 0xdb8] 32,
      net6 [0x2002] 16, net6 [0xfc00] 7, net6 [0xfe80] 10]"

definition PRIVATE_EXCEPTIONS :: "ip_network list" where
  "PRIVATE_EXCEPTIONS =
     [net4 192 0 0 9 32, net4 192 0 0 10 32,
      net6 [0x2001, 1, 0, 0, 0, 0, 0, 1] 128, net6 [0x2001, 1, 0, 0, 0, 0, 0, 2] 128,
      net6 [0x2001, 3] 32, net6 [0x2001, 4, 0x112] 48, net6 [0x2001, 0x20] 28,
      net6 [0x2001, 0x30] 28]"

definition NATIVE_NETWORKS :: "ip_network list" where
  \<comment> \<open>loopback, link-local, multicast, reserved, unspecified\<close>
  "NATIVE_NETWORKS =
     [net4 127 0 0 0 8, net4 169 254 0 0 16, net4 224 0 0 0 4, net4 240 0 0 0 4, net4 0 0 0 0 32,
      net6 [0, 0, 0, 0, 0, 0, 0, 1] 128, net6 [0xfe80] 10, net6 [0xff00] 8, net6 [] 8,
      net6 [0x100] 8, net6 [0x200] 7, net6 [0x400] 6, net6 [0x800] 5, net6 [0x1000] 4,
      net6 [0x4000] 3, net6 [0x6000] 3, net6 [0x8000] 3, net6 [0xa000] 3, net6 [0xc000] 3,
      net6 [0xe000] 4, net6 [0xf000] 5, net6 [0xf800] 6, net6 [0xfe00] 9, net6 [] 128]"

definition native_unsafe :: "ip_address \<Rightarrow> bool" where
  "native_unsafe ip =
     (list_ex (in_network ip) PRIVATE_NETWORKS \<and> \<not> list_ex (in_network ip) PRIVATE_EXCEPTIONS \<or>
      list_ex (in_network ip) NATIVE_NETWORKS)"

definition is_blocked_addr :: "ip_address \<Rightarrow> bool" where
  "is_blocked_addr addr =
     (let ip = ipv4_mapped addr
      in native_unsafe ip \<or> list_ex (in_network ip) BLOCKED_NETWORKS)"

definition is_blocked_ip :: "string \<Rightarrow> bool" where
  \<comment> \<open>on a text; a malformed one is blocked\<close>
  "is_blocked_ip s =
     (case parse_ip (str_strip s) of None \<Rightarrow> True | Some ip \<Rightarrow> is_blocked_addr ip)"

subsection \<open>Target URLs\<close>

datatype ssrf_error =
    SSRFSecurityError \<comment> \<open>refused\<close>
  | DNSFailure \<comment> \<open>an \<open>SSRFSecurityError\<close> whose message names DNS\<close>

definition is_digits :: "string \<Rightarrow> bool" where
  "is_digits s = (s \<noteq> [] \<and> list_all (\<lambda>c. digit_value c \<noteq> None) s)"

definition decimal :: "string \<Rightarrow> int" where
  "decimal s = (case read_base digit_value 10 0 s of None \<Rightarrow> 0 | Some n \<Rightarrow> n)"

definition int_base0 :: "string \<Rightarrow> int option" where
  \<comment> \<open>\<open>int(s, 0)\<close> on digits or on a text that starts with \<open>0x\<close>\<close>
  "int_base0 s =
     (if starts_with ''0x'' s then py_int hex_value 16 s
      else if is_digits s \<and> (hd s \<noteq> CHR ''0'' \<or> list_all (\<lambda>c. c = CHR ''0'') s) then Some (decimal s)
      else None)"

definition ipv4_of_int :: "int \<Rightarrow> ip_address" where
  "ipv4_of_int v = IPv4 [v div 16777216 mod 256, v div 65536 mod 256, v div 256 mod 256, v mod 256]"

definition numeric_ip :: "string \<Rightarrow> ip_address option" where
  \<comment> \<open>decimal and hexadecimal spellings of an IPv4 address\<close>
  "numeric_ip h =
     (if is_digits h \<or> (starts_with ''0x'' h \<and> length h \<le> 10) then
        (case int_base0 h of
           Some v \<Rightarrow> if 0 \<le> v \<and> v \<le> 4294967295 then Some (ipv4_of_int v) else None
         | None \<Rightarrow> None)
      else None)"

definition url_userinfo :: "url_parts \<Rightarrow> string \<times> string" where
  \<comment> \<open>\<open>username\<close> and \<open>password\<close>, empty when there is none\<close>
  "url_userinfo u =
     (if CHR ''@'' \<in> set (ur_netloc u) then
        let info = rev (after (\<lambda>c. c = CHR ''@'') (rev (ur_netloc u)))
        in (before (\<lambda>c. c = CHR '':'') info, after (\<lambda>c. c = CHR '':'') info)
      else ([], []))"

definition url_port :: "url_parts \<Rightarrow> (int option) option" where
  \<comment> \<open>\<open>None\<close> is \<open>ValueError\<close>, \<open>Some None\<close> no port\<close>
  "url_port u =
     (let hi = after_last (CHR ''@'') (ur_netloc u);
          p = (if CHR ''['' \<in> set hi
               then after (\<lambda>c. c = CHR '':'') (after (\<lambda>c. c = CHR '']'') (after (\<lambda>c. c = CHR ''['') hi))
               else after (\<lambda>c. c = CHR '':'') hi)
      in if p = [] then Some None
         else if is_digits p \<and> decimal p \<le> 65535 then Some (Some (decimal p)) else None)"

definition validate_target_url ::
  "string \<Rightarrow> ssrf_error + (string \<times> string \<times> int \<times> string)" where
  "validate_target_url url0 =
     (let url = str_strip url0
      in if url0 = [] then Inl SSRFSecurityError
         else if \<not> (starts_with ''http://'' url \<or> starts_with ''https://'' url)
         then Inl SSRFSecurityError
         else case urlparse url of
           None \<Rightarrow> Inl SSRFSecurityError
         | Some u \<Rightarrow>
             let scheme = str_lower (ur_scheme u);
                 hostname = (case url_hostname u of None \<Rightarrow> [] | Some h \<Rightarrow> str_lower (str_strip h))
             in if fst (url_userinfo u) \<noteq> [] \<or> snd (url_userinfo u) \<noteq> [] then Inl SSRFSecurityError
                else if scheme \<noteq> ''http'' \<and> scheme \<noteq> ''https'' then Inl SSRFSecurityError
                else if hostname = [] then Inl SSRFSecurityError
                else case url_port u of
                  None \<Rightarrow> Inl SSRFSecurityError
                | Some po \<Rightarrow>
                    let dflt = (if scheme = ''https'' then 443 else 80);
                        port = (case po of None \<Rightarrow> dflt | Some p \<Rightarrow> if p = 0 then dflt else p);
                        path = (if ur_path u = [] then ''/'' else ur_path u)
                    in if (case numeric_ip hostname of None \<Rightarrow> False | Some ip \<Rightarrow> is_blocked_addr ip)
                       then Inl SSRFSecurityError
                       else if (case parse_ip hostname of None \<Rightarrow> False | Some ip \<Rightarrow> is_blocked_addr ip)
                       then Inl SSRFSecurityError
                       else Inr (scheme, hostname, port,
                              if ur_query u = [] then path else path @ ''?'' @ ur_query u))"

subsection \<open>Resolution\<close>

fun check_records :: "string list \<Rightarrow> string list \<Rightarrow> ssrf_error + string list" where
  \<comment> \<open>the loop over the records; the second list is \<open>validated_ips\<close>\<close>
  "check_records [] acc = (if acc = [] then Inl SSRFSecurityError else Inr acc)"
| "check_records (ip # ips) acc =
     (if is_blocked_ip ip then Inl SSRFSecurityError
      else check_records ips (if ip \<in> set acc then acc else acc @ [ip]))"

definition resolve_and_validate_host ::
  "(string \<Rightarrow> string list option) \<Rightarrow> string \<Rightarrow> ssrf_error + string list" where
  "resolve_and_validate_host dns host =
     (let h = str_lower (str_strip host)
      in if h = [] then Inl SSRFSecurityError
         else case numeric_ip h of
           Some ip \<Rightarrow> if is_blocked_addr ip then Inl SSRFSecurityError else Inr [show_ip ip]
         | None \<Rightarrow>
             (case parse_ip h of
                Some ip \<Rightarrow> if is_blocked_addr ip then Inl SSRFSecurityError else Inr [show_ip ip]
              | None \<Rightarrow>
                  (case dns h of
                     None \<Rightarrow> Inl DNSFailure
                   | Some [] \<Rightarrow> Inl DNSFailure
                   | Some ips \<Rightarrow> check_records ips [])))"

subsection \<open>Domains for WHOIS\<close>

definition is_alnum :: "char \<Rightarrow> bool" where
  "is_alnum c = (is_alpha c \<or> digit_value c \<noteq> None)"

definition domain_label :: "string \<Rightarrow> bool" where
  "domain_label l =
     (l \<noteq> [] \<and> length l \<le> 63 \<and> is_alnum (hd l) \<and> is_alnum (last l) \<and>
      list_all (\<lambda>c. is_alnum c \<or> c = CHR ''-'') l)"

definition domain_regex :: "string \<Rightarrow> bool" where
  "domain_regex s =
     (let ls = split_on (CHR ''.'') s
      in 2 \<le> length ls \<and> list_all domain_label (butlast ls) \<and>
         list_all is_alpha (last ls) \<and> 2 \<le> length (last ls) \<and> length (last ls) \<le> 63)"

definition sanitize_domain_for_whois :: "string \<Rightarrow> string option" where
  "sanitize_domain_for_whois s =
     (if s = [] then None
      else
        let raw0 = str_lower (str_strip s)
        in case (if contains ''://'' raw0 then
                   (case urlparse raw0 of None \<Rightarrow> None
                    | Some u \<Rightarrow> Some (case url_hostname u of None \<Rightarrow> [] | Some h \<Rightarrow> h))
                 else Some raw0) of
             None \<Rightarrow> None
           | Some raw1 \<Rightarrow>
               let raw2 = str_strip (before (\<lambda>c. c = CHR '':'') (before (\<lambda>c. c = CHR ''/'') raw1));
                   raw = (if starts_with ''www.'' raw2 then drop 4 raw2 else raw2)
               in if raw = [] \<or> length raw > 253 then None
                  else if \<not> domain_regex raw then None
                  else if parse_ip raw \<noteq> None then None
                  else Some raw)"

lemma security_network_examples:
  "is_blocked_ip ''10.1.2.3''" "is_blocked_ip ''::ffff:169.254.169.254''" "is_blocked_ip ''nonsense''"
  "\<not> is_blocked_ip ''8.8.8.8''" "\<not> is_blocked_ip ''2606:4700::1111''"
  "validate_target_url ''http://2130706433/'' = Inl SSRFSecurityError"
  "validate_target_url ''http://0x7f000001/'' = Inl SSRFSecurityError"
  "validate_target_url ''http://[::1]/'' = Inl SSRFSecurityError"
  "validate_target_url ''http://a:b@c.com/'' = Inl SSRFSecurityError"
  "validate_target_url ''https://Example.com:8443/a?b=1''
     = Inr (''https'', ''example.com'', 8443, ''/a?b=1'')"
  "sanitize_domain_for_whois ''https://www.Example.co.uk/x'' = Some ''example.co.uk''"
  "sanitize_domain_for_whois ''a.com; rm -rf'' = None"
  by code_simp+

end
