(* ===== verification/IpText.thy ===== *)
theory IpText
  imports SafeNet Domain
begin

text \<open>
  Printing and parsing of addresses are inverse to each other (\<open>str(ip)\<close> and
  \<open>ipaddress.ip_address\<close>), which the guard relies on when it hands out addresses as text.
\<close>

definition ip_wf :: "ip_address \<Rightarrow> bool" where
  "ip_wf ip =
     (case ip of
        IPv4 os \<Rightarrow> length os = 4 \<and> (\<forall>b\<in>set os. 0 \<le> b \<and> b < 256)
      | IPv6 hs sc \<Rightarrow> length hs = 8 \<and> (\<forall>h\<in>set hs. 0 \<le> h \<and> h < 65536) \<and>
          (\<forall>z. sc = Some z \<longrightarrow> z \<noteq> [] \<and> CHR ''%'' \<notin> set z))"

subsection \<open>Splitting and joining\<close>

lemma split_on_append: "split_on c (xs @ c # ys) = split_on c xs @ split_on c ys"
  by (induction xs) (auto split: list.splits)

lemma split_on_single: "c \<notin> set xs \<Longrightarrow> split_on c xs = [xs]"
  by (induction xs) auto

lemma split_join:
  "ps \<noteq> [] \<Longrightarrow> (\<And>p. p \<in> set ps \<Longrightarrow> c \<notin> set p) \<Longrightarrow> split_on c (join [c] ps) = ps"
proof (induction "[c]" ps rule: join.induct)
  case (3 p q ps)
  then show ?case
    using split_on_append [of c p "join [c] (q # ps)"] split_on_single [of c p] by simp
qed (auto simp: split_on_single)

lemma set_join: "set (join sep ps) \<subseteq> set sep \<union> (\<Union>p\<in>set ps. set p)"
  by (induction sep ps rule: join.induct) auto

lemma options_map_Some: "(\<And>x. x \<in> set xs \<Longrightarrow> f (g x) = Some x) \<Longrightarrow> options (map f (map g xs)) = Some xs"
  by (induction xs) auto

subsection \<open>Octets and hextets\<close>

lemma digit_table: "list_all (\<lambda>k. digit_value (digit k) = Some (int k)) [0, 1, 2, 3, 4, 5, 6, 7, 8, 9]"
  by code_simp

lemma digit_value_digit: "k < 10 \<Longrightarrow> digit_value (digit k) = Some (int k)"
proof -
  assume "k < 10"
  then have "k = 0 \<or> k = 1 \<or> k = 2 \<or> k = 3 \<or> k = 4 \<or> k = 5 \<or> k = 6 \<or> k = 7 \<or> k = 8 \<or> k = 9"
    by presburger
  then show ?thesis using digit_table by auto
qed

lemma digit_zero: "k < 10 \<Longrightarrow> digit k = CHR ''0'' \<longleftrightarrow> k = 0"
proof -
  assume k: "k < 10"
  have "digit_value (CHR ''0'') = Some 0" "digit 0 = CHR ''0''" by code_simp+
  then show ?thesis
    using digit_value_digit [OF k] by auto
qed

lemma show_nat_small:
  assumes "n < 256"
  obtains "n < 10" "show_nat n = [digit n]"
    | "10 \<le> n" "n < 100" "show_nat n = [digit (n div 10), digit (n mod 10)]"
    | "100 \<le> n" "show_nat n = [digit (n div 100), digit (n div 10 mod 10), digit (n mod 10)]"
proof -
  consider "n < 10" | "10 \<le> n" "n < 100" | "100 \<le> n" by linarith
  then show ?thesis
  proof cases
    case 1
    then show ?thesis using that(1) by (simp add: show_nat.simps)
  next
    case 2
    then have "n div 10 < 10" by simp
    then show ?thesis using 2 that(2) by (simp add: show_nat.simps)
  next
    case 3
    then have "\<not> n div 10 < 10" "n div 100 < 10" using assms by simp_all
    then have "show_nat n = [digit (n div 100), digit (n div 10 mod 10), digit (n mod 10)]"
      using 3 show_nat.simps [of n] show_nat.simps [of "n div 10"] show_nat.simps [of "n div 100"]
      by (simp add: div_mult2_eq [symmetric])
    then show ?thesis using 3 that(3) by blast
  qed
qed

lemma octet_text:
  assumes "0 \<le> b" "b < 256"
  shows "parse_octet (show_nat (nat b)) = Some b" "show_nat (nat b) \<noteq> []"
    "\<forall>c\<in>set (show_nat (nat b)). digit_value c \<noteq> None"
proof -
  define n where "n = nat b"
  have n: "n < 256" "int n = b" using assms by (auto simp: n_def)
  have "parse_octet (show_nat n) = Some (int n) \<and> show_nat n \<noteq> [] \<and>
      (\<forall>c\<in>set (show_nat n). digit_value c \<noteq> None)"
    using n(1)
  proof (cases rule: show_nat_small)
    case 1
    then show ?thesis by (auto simp: parse_octet_def digit_value_digit digit_zero)
  next
    case 2
    then have d: "n div 10 < 10" "n div 10 \<noteq> 0" by auto
    have "int (n div 10) * 10 + int (n mod 10) = int n" by (metis div_mult_mod_eq of_nat_add of_nat_mult of_nat_numeral)
    then show ?thesis
      using 2 d n(1) by (simp add: parse_octet_def digit_value_digit digit_zero)
  next
    case 3
    then have d: "n div 100 < 10" "n div 100 \<noteq> 0" using n(1) by auto
    have "n div 100 = n div 10 div 10" by (simp add: div_mult2_eq [symmetric])
    then have "n = n div 100 * 100 + n div 10 mod 10 * 10 + n mod 10"
      using div_mult_mod_eq [of n 10] div_mult_mod_eq [of "n div 10" 10] by linarith
    then have "(int x * 10 + int y) * 10 + int z = int n"
      if "x = n div 100" "y = n div 10 mod 10" "z = n mod 10" for x y z
      unfolding that [symmetric] by simp
    then have "(int (n div 100) * 10 + int (n div 10 mod 10)) * 10 + int (n mod 10) = int n"
      by blast
    then show ?thesis
      using 3 d n(1) by (simp add: parse_octet_def digit_value_digit digit_zero)
  qed
  then show "parse_octet (show_nat (nat b)) = Some b" "show_nat (nat b) \<noteq> []"
    "\<forall>c\<in>set (show_nat (nat b)). digit_value c \<noteq> None"
    unfolding n_def [symmetric] n(2) by blast+
qed

lemma hex_digit_table:
  "list_all (\<lambda>n. hex_value (hex_digit n) = Some n) [0..15]"
  by code_simp

lemma hex_value_digit:
  assumes "0 \<le> n" "n < 16" shows "hex_value (hex_digit n) = Some n"
proof -
  have "n \<in> set [0..15]" using assms by simp
  then show ?thesis using hex_digit_table unfolding list_all_iff by blast
qed

lemma read_hex_digits:
  "(\<And>d. d \<in> set ds \<Longrightarrow> 0 \<le> d \<and> d < 16) \<Longrightarrow>
   read_base hex_value 16 acc (map hex_digit ds) = Some (fold (\<lambda>d a. a * 16 + d) ds acc)"
  by (induction ds arbitrary: acc) (simp_all add: hex_value_digit)

lemma fold_leading_zeros:
  "fold (\<lambda>d a. a * 16 + d) (dropWhile (\<lambda>d. d = 0) ds) (0::int) = fold (\<lambda>d a. a * 16 + d) ds 0"
  by (induction ds) auto

lemma hextet_text:
  assumes "0 \<le> h" "h < 65536"
  shows "parse_hextet (show_hextet h) = Some h" "show_hextet h \<noteq> []"
    "\<forall>c\<in>set (show_hextet h). hex_value c \<noteq> None"
proof -
  define ds where "ds = [h div 4096 mod 16, h div 256 mod 16, h div 16 mod 16, h mod 16]"
  define sig where "sig = dropWhile (\<lambda>d. d = 0) ds"
  have shown: "show_hextet h = (if sig = [] then ''0'' else map hex_digit sig)"
    by (simp only: show_hextet_def Let_def sig_def ds_def)
  have "set sig \<subseteq> set ds" unfolding sig_def by (auto dest: set_dropWhileD)
  then have digits: "0 \<le> d \<and> d < 16" if "d \<in> set sig" for d
    using that by (auto simp: ds_def)
  have len: "length sig \<le> 4"
    using length_dropWhile_le [of "\<lambda>d. d = 0" ds] by (simp add: sig_def ds_def)
  define x y z where "x = h div 16" and "y = h div 16 div 16" and "z = h div 16 div 16 div 16"
  have "z mod 16 = z" using assms by (auto simp: z_def)
  moreover have divs: "h div 256 = y" "h div 4096 = z"
    by (simp_all add: y_def z_def zdiv_zmult2_eq [symmetric])
  moreover have "h = x * 16 + h mod 16" "x = y * 16 + x mod 16" "y = z * 16 + y mod 16"
    by (simp_all add: x_def y_def z_def)
  moreover have "((zz * 16 + ym) * 16 + xm) * 16 + hm = h"
    if "h = x * 16 + hm" "x = y * 16 + xm" "y = zz * 16 + ym" for zz ym xm hm
    using that by simp
  ultimately have "((z mod 16 * 16 + y mod 16) * 16 + x mod 16) * 16 + h mod 16 = h"
    by metis
  moreover have "ds = [z mod 16, y mod 16, x mod 16, h mod 16]"
    by (simp add: ds_def divs x_def)
  moreover have "fold (\<lambda>d a. a * 16 + d) [p, q, r, t] 0 = ((p * 16 + q) * 16 + r) * 16 + t" for p q r t :: int
    by simp
  ultimately have "fold (\<lambda>d a. a * 16 + d) ds 0 = h"
    by (simp only:)
  then have val: "fold (\<lambda>d a. a * 16 + d) sig 0 = h"
    unfolding sig_def fold_leading_zeros .
  show "show_hextet h \<noteq> []" by (simp add: shown)
  have "hex_value (CHR ''0'') = Some 0" by code_simp
  then show "\<forall>c\<in>set (show_hextet h). hex_value c \<noteq> None"
    by (auto simp: shown hex_value_digit digits)
  show "parse_hextet (show_hextet h) = Some h"
  proof (cases "sig = []")
    case True
    then have h: "h = 0" using val by simp
    show ?thesis unfolding h by code_simp
  next
    case False
    then show ?thesis
      using read_hex_digits [of sig 0] digits val len by (simp add: shown parse_hextet_def)
  qed
qed

subsection \<open>IPv4\<close>

lemma set_split_on: "set s \<subseteq> insert c (\<Union>p\<in>set (split_on c s). set p)"
proof (induction s)
  case (Cons x xs)
  obtain p ps where "split_on c xs = p # ps" by (cases "split_on c xs") auto
  then show ?case using Cons by auto
qed simp

lemma parse_octet_chars: "parse_octet p = Some n \<Longrightarrow> \<forall>c\<in>set p. digit_value c \<noteq> None"
  by (auto simp: parse_octet_def dest: read_base_chars split: if_splits option.splits)

lemma options_Some_each: "options xs = Some ys \<Longrightarrow> \<forall>x\<in>set xs. x \<noteq> None"
  by (induction xs arbitrary: ys rule: options.induct) auto

lemma parse_ipv4_no_colon: "CHR '':'' \<in> set s \<Longrightarrow> parse_ipv4 s = None"
proof (rule ccontr)
  assume c: "CHR '':'' \<in> set s" and "parse_ipv4 s \<noteq> None"
  then obtain os where os: "options (map parse_octet (split_on (CHR ''.'') s)) = Some os"
    by (auto simp: parse_ipv4_def Let_def split: if_splits)
  obtain p where p: "p \<in> set (split_on (CHR ''.'') s)" "CHR '':'' \<in> set p"
    using set_split_on [of s "CHR ''.''"] c by auto
  have "parse_octet p \<noteq> None" using options_Some_each [OF os] p(1) by auto
  then have "digit_value (CHR '':'') \<noteq> None" using p(2) parse_octet_chars by blast
  moreover have "digit_value (CHR '':'') = None" by code_simp
  ultimately show False by simp
qed

lemma separators:
  "digit_value (CHR ''.'') = None" "hex_value (CHR '':'') = None" "hex_value (CHR ''.'') = None"
  "hex_value (CHR ''%'') = None" "digit_value (CHR '':'') = None"
  by code_simp+

lemma parse_ipv4_text:
  assumes "ip_wf (IPv4 os)"
  shows "parse_ipv4 (show_ip (IPv4 os)) = Some os"
proof -
  let ?ps = "map (\<lambda>b. show_nat (nat b)) os"
  have os: "length os = 4" "\<And>b. b \<in> set os \<Longrightarrow> 0 \<le> b \<and> b < 256"
    using assms by (simp_all add: ip_wf_def)
  have nodot: "CHR ''.'' \<notin> set p" if "p \<in> set ?ps" for p
    using that os(2) octet_text(3) separators(1) by fastforce
  have split: "split_on (CHR ''.'') (join ''.'' ?ps) = ?ps"
  proof (rule split_join)
    show "?ps \<noteq> []" using os(1) by auto
  qed (rule nodot)
  have "options (map parse_octet ?ps) = Some os"
    by (rule options_map_Some) (simp add: os(2) octet_text(1))
  then show ?thesis
    by (simp add: show_ip_def parse_ipv4_def Let_def split os(1) del: map_map)
qed

subsection \<open>IPv6\<close>

lemma zero_run_zeros: "take (zero_run hs i) (drop i hs) = replicate (zero_run hs i) 0"
proof -
  have "takeWhile (\<lambda>h. h = 0) xs = replicate (length (takeWhile (\<lambda>h. h = 0) xs)) 0" for xs :: "int list"
    by (induction xs) auto
  then show ?thesis by (simp add: zero_run_def takeWhile_eq_take [symmetric])
qed

lemma best_run_zeros:
  assumes "best_run hs = (st, n)"
  shows "take n (drop st hs) = replicate n 0" "st + n \<le> length hs"
proof -
  let ?ok = "\<lambda>x. take (snd x) (drop (fst x) hs) = replicate (snd x) 0 \<and> fst x + snd x \<le> length hs"
  let ?f = "\<lambda>i (st, n). if zero_run hs i > n then (i, zero_run hs i) else (st, n)"
  have run: "i < length hs \<Longrightarrow> i + zero_run hs i \<le> length hs" for i
    using length_takeWhile_le [of "\<lambda>h. h = 0" "drop i hs"] by (simp add: zero_run_def)
  have step: "?ok x \<Longrightarrow> i < length hs \<Longrightarrow> ?ok (?f i x)" for i x
    using zero_run_zeros [of hs i] run [of i] by (cases x) simp
  have "?ok x \<Longrightarrow> (\<And>i. i \<in> set is \<Longrightarrow> i < length hs) \<Longrightarrow> ?ok (fold ?f is x)" for "is" x
  proof (induction "is" arbitrary: x)
    case (Cons i "is")
    show ?case
      using Cons.IH [OF step [OF Cons.prems(1)]] Cons.prems(2) by simp
  qed simp
  from this [of "(0, 0)" "[0..<length hs]"]
  have "?ok (best_run hs)" by (simp add: best_run_def)
  then show "take n (drop st hs) = replicate n 0" "st + n \<le> length hs"
    by (simp_all add: assms)
qed

lemma filter_upt_single:
  assumes "\<And>i. i < n \<Longrightarrow> P i \<longleftrightarrow> i = k" "k < n"
  shows "filter P [0..<n] = [k]"
proof -
  have "filter P [0..<n] = filter (\<lambda>i. i = k) [0..<n]"
    using assms(1) by (intro filter_cong) auto
  also have "\<dots> = [k]"
    using assms(2) by (induction n) (auto simp: less_Suc_eq)
  finally show ?thesis .
qed

definition hextets_or_blank :: "int list \<Rightarrow> string list" where
  "hextets_or_blank hs = (if hs = [] then [[]] else map show_hextet hs)"

lemma split_hextets:
  assumes "\<And>h. h \<in> set hs \<Longrightarrow> 0 \<le> h \<and> h < 65536"
  shows "split_on (CHR '':'') (join '':'' (map show_hextet hs)) = hextets_or_blank hs"
proof (cases "hs = []")
  case False
  have "CHR '':'' \<notin> set p" if "p \<in> set (map show_hextet hs)" for p
    using that assms hextet_text(3) separators(2) by fastforce
  then show ?thesis
    using False split_join [of "map show_hextet hs" "CHR '':''"] by (simp add: hextets_or_blank_def)
qed (simp add: hextets_or_blank_def)

lemma expand_compressed:
  assumes hx: "\<And>h. h \<in> set (a @ b) \<Longrightarrow> 0 \<le> h \<and> h < 65536" and len: "length a + length b \<le> 6"
  shows "expand_ipv6 (hextets_or_blank a @ [[]] @ hextets_or_blank b) [] =
           Some (a @ replicate (8 - (length a + length b)) 0 @ b)"
proof -
  let ?A = "hextets_or_blank a" and ?B = "hextets_or_blank b"
  let ?ps = "?A @ [[]] @ ?B"
  have ne: "show_hextet h \<noteq> []" if "h \<in> set (a @ b)" for h
    using hextet_text(2) hx that by blast
  have lenA: "length ?A = max 1 (length a)" and lenB: "length ?B = max 1 (length b)"
    by (auto simp: hextets_or_blank_def max_def Suc_le_eq)
  have A: "i < length ?A \<Longrightarrow> 1 \<le> i \<Longrightarrow> ?A ! i \<noteq> []" for i
    using ne by (auto simp: hextets_or_blank_def split: if_splits)
  have B: "i < length ?B \<Longrightarrow> i + 1 < length ?B \<Longrightarrow> ?B ! i \<noteq> []" for i
    using ne by (auto simp: hextets_or_blank_def split: if_splits)
  have mids: "filter (\<lambda>i. 1 \<le> i \<and> i + 1 < length ?ps + length ([]::int list) \<and> i < length ?ps \<and> ?ps ! i = [])
      [0..<length ?ps] = [length ?A]"
  proof (rule filter_upt_single)
    fix i
    assume i: "i < length ?ps"
    consider "i < length ?A" | "i = length ?A" | "length ?A < i" by linarith
    then show "(1 \<le> i \<and> i + 1 < length ?ps + length ([]::int list) \<and> i < length ?ps \<and> ?ps ! i = [])
        = (i = length ?A)"
    proof cases
      case 1
      then show ?thesis using A [of i] by (auto simp: nth_append)
    next
      case 2
      then show ?thesis using lenA lenB by (auto simp: nth_append max_def)
    next
      case 3
      then obtain j where j: "i = length ?A + 1 + j" by (metis less_imp_Suc_add Suc_eq_plus1 add.assoc add.commute)
      then have "j < length ?B" using i by simp
      then show ?thesis using B [of j] j by (simp add: nth_append)
    qed
  qed simp
  have hi: "(if ?A \<noteq> [] \<and> hd ?A = [] then tl ?A else ?A) = map show_hextet a"
    using ne by (cases a) (auto simp: hextets_or_blank_def)
  have lo: "(if ?B \<noteq> [] \<and> last ?B = [] then butlast ?B else ?B) = map show_hextet b"
    using ne by (cases b rule: rev_cases) (auto simp: hextets_or_blank_def)
  have pa: "options (map parse_hextet (map show_hextet a)) = Some a"
    and pb: "options (map parse_hextet (map show_hextet b)) = Some b"
    using hx by (auto intro!: options_map_Some hextet_text(1) simp del: map_map)
  have bad: "\<not> (?A \<noteq> [] \<and> hd ?A = [] \<and> map show_hextet a \<noteq> [])"
      "\<not> (?B \<noteq> [] \<and> last ?B = [] \<and> map show_hextet b \<noteq> [])"
    using ne by (auto simp: hextets_or_blank_def hd_map last_map)
  have tot: "\<not> length ?ps + length ([]::int list) > 9" using lenA lenB len by auto
  show ?thesis
    unfolding expand_ipv6_def Let_def mids
    using tot bad len
    by (simp add: hi lo pa pb del: map_map cong: if_cong)
qed

definition ipv6_body :: "int list \<Rightarrow> string" where
  "ipv6_body hs =
     (let (st, n) = best_run hs
      in if n > 1
         then join '':'' (map show_hextet (take st hs)) @ ''::''
              @ join '':'' (map show_hextet (drop (st + n) hs))
         else join '':'' (map show_hextet hs))"

lemma expand_plain:
  assumes "\<And>h. h \<in> set hs \<Longrightarrow> 0 \<le> h \<and> h < 65536" "length hs = 8"
  shows "expand_ipv6 (map show_hextet hs) [] = Some hs"
proof -
  have "map show_hextet hs ! i \<noteq> []" if "i < 8" for i
    using that assms hextet_text(2) by simp
  then have "filter (\<lambda>i. 1 \<le> i \<and> i + 1 < length (map show_hextet hs) + length ([]::int list) \<and>
      i < length (map show_hextet hs) \<and> map show_hextet hs ! i = []) [0..<length (map show_hextet hs)] = []"
    using assms(2) by (auto simp: filter_empty_conv)
  moreover have "options (map parse_hextet (map show_hextet hs)) = Some hs"
    using assms(1) by (auto intro!: options_map_Some hextet_text(1) simp del: map_map)
  ultimately show ?thesis
    using assms(2) unfolding expand_ipv6_def Let_def by (simp del: map_map)
qed

lemma blank_no_dot:
  assumes "\<And>h. h \<in> set hs \<Longrightarrow> 0 \<le> h \<and> h < 65536" "p \<in> set (hextets_or_blank hs)"
  shows "CHR ''.'' \<notin> set p"
  using assms hextet_text(3) separators(3) by (fastforce simp: hextets_or_blank_def split: if_splits)

lemma parse_body:
  assumes hx: "\<And>h. h \<in> set hs \<Longrightarrow> 0 \<le> h \<and> h < 65536" and len: "length hs = 8"
  shows "parse_hextets (ipv6_body hs) = Some hs \<and> CHR '':'' \<in> set (ipv6_body hs)"
proof -
  obtain st n where b: "best_run hs = (st, n)" by (cases "best_run hs")
  show ?thesis
  proof (cases "n > 1")
    case True
    let ?a = "take st hs" and ?b = "drop (st + n) hs"
    let ?ps = "hextets_or_blank ?a @ [[]] @ hextets_or_blank ?b"
    have body: "ipv6_body hs = join '':'' (map show_hextet ?a) @ CHR '':'' # [] @ CHR '':'' #
        join '':'' (map show_hextet ?b)"
      using True by (simp add: ipv6_body_def b)
    have ha: "\<And>h. h \<in> set ?a \<Longrightarrow> 0 \<le> h \<and> h < 65536" and hb: "\<And>h. h \<in> set ?b \<Longrightarrow> 0 \<le> h \<and> h < 65536"
      using hx by (auto dest: in_set_takeD in_set_dropD)
    have "split_on (CHR '':'') (join '':'' (map show_hextet ?a)) = hextets_or_blank ?a"
      "split_on (CHR '':'') (join '':'' (map show_hextet ?b)) = hextets_or_blank ?b"
      using ha hb by (blast intro: split_hextets)+
    then have split: "split_on (CHR '':'') (ipv6_body hs) = ?ps"
      unfolding body split_on_append by simp
    have bound: "st + n \<le> 8" using best_run_zeros(2) [OF b] len by simp
    have "hs = ?a @ take n (drop st hs) @ drop n (drop st hs)"
      by (simp only: append_take_drop_id)
    then have hs: "hs = ?a @ replicate n 0 @ ?b"
      using best_run_zeros(1) [OF b] by (simp add: add.commute)
    have "expand_ipv6 ?ps [] = Some (?a @ replicate (8 - (length ?a + length ?b)) 0 @ ?b)"
      by (rule expand_compressed) (use ha hb bound True len in auto)
    moreover have "8 - (length ?a + length ?b) = n" using bound len by simp
    ultimately have ex: "expand_ipv6 ?ps [] = Some hs" using hs by simp
    have "hextets_or_blank ?a \<noteq> []" "hextets_or_blank ?b \<noteq> []" by (auto simp: hextets_or_blank_def)
    then have "3 \<le> length ?ps" "last ?ps \<in> set (hextets_or_blank ?b)"
      by (cases "hextets_or_blank ?a"; cases "hextets_or_blank ?b"; simp)+
    then have "parse_hextets (ipv6_body hs) = Some hs"
      unfolding parse_hextets_def split Let_def using blank_no_dot [OF hb] ex by auto
    then show ?thesis by (simp add: body)
  next
    case False
    have body: "ipv6_body hs = join '':'' (map show_hextet hs)"
      using False by (simp add: ipv6_body_def b)
    have ne: "hs \<noteq> []" using len by auto
    have "split_on (CHR '':'') (join '':'' (map show_hextet hs)) = hextets_or_blank hs"
      using hx by (blast intro: split_hextets)
    then have split: "split_on (CHR '':'') (ipv6_body hs) = map show_hextet hs"
      unfolding body by (simp add: hextets_or_blank_def ne)
    have "last (map show_hextet hs) \<in> set (hextets_or_blank hs)"
      using ne by (simp add: hextets_or_blank_def last_map)
    then have "CHR ''.'' \<notin> set (last (map show_hextet hs))"
      using blank_no_dot hx by blast
    then have "parse_hextets (ipv6_body hs) = Some hs"
      unfolding parse_hextets_def split Let_def using expand_plain [OF hx len] len by simp
    moreover have "CHR '':'' \<in> set (ipv6_body hs)"
    proof (rule ccontr)
      assume "CHR '':'' \<notin> set (ipv6_body hs)"
      then have "length (map show_hextet hs) = 1" using split split_on_single by (metis length_Cons list.size(3) One_nat_def)
      then show False using len by simp
    qed
    ultimately show ?thesis by blast
  qed
qed

lemma body_no_percent:
  assumes hx: "\<And>h. h \<in> set hs \<Longrightarrow> 0 \<le> h \<and> h < 65536"
  shows "CHR ''%'' \<notin> set (ipv6_body hs)"
proof -
  have parts: "CHR ''%'' \<notin> set p" if "p \<in> set (map show_hextet xs)" "set xs \<subseteq> set hs" for p xs
    using that hx hextet_text(3) separators(4) by fastforce
  have "CHR ''%'' \<notin> set (join '':'' (map show_hextet xs))" if xs: "set xs \<subseteq> set hs" for xs
  proof
    assume "CHR ''%'' \<in> set (join '':'' (map show_hextet xs))"
    then have "CHR ''%'' \<in> set '':'' \<or> (\<exists>p\<in>set (map show_hextet xs). CHR ''%'' \<in> set p)"
      using set_join [of "'':''" "map show_hextet xs"] by blast
    then show False using parts [OF _ xs] by auto
  qed
  then show ?thesis
    unfolding ipv6_body_def by (auto simp: Let_def set_take_subset set_drop_subset split: prod.splits)
qed

lemma ip_text_inverse:
  assumes "ip_wf ip"
  shows "parse_ip (show_ip ip) = Some ip"
proof (cases ip)
  case (IPv4 os)
  then show ?thesis using parse_ipv4_text assms by (simp add: parse_ip_def)
next
  case (IPv6 hs sc)
  have hx: "\<And>h. h \<in> set hs \<Longrightarrow> 0 \<le> h \<and> h < 65536" and len: "length hs = 8"
    and sc: "\<And>z. sc = Some z \<Longrightarrow> z \<noteq> [] \<and> CHR ''%'' \<notin> set z"
    using assms by (auto simp: IPv6 ip_wf_def)
  let ?b = "ipv6_body hs"
  have shown: "show_ip ip = ?b @ (case sc of None \<Rightarrow> [] | Some z \<Rightarrow> ''%'' @ z)"
    by (simp add: IPv6 show_ip_def ipv6_body_def split: prod.splits)
  have pb: "parse_hextets ?b = Some hs" "CHR '':'' \<in> set ?b"
    using parse_body [OF hx len] by blast+
  have np: "CHR ''%'' \<notin> set ?b" by (rule body_no_percent [OF hx])
  have v4: "parse_ipv4 (show_ip ip) = None"
    using pb(2) by (intro parse_ipv4_no_colon) (simp add: shown)
  have pi: "parse_ip (show_ip ip) =
      (let addr = before (\<lambda>c. c = CHR ''%'') (show_ip ip); scope = after (\<lambda>c. c = CHR ''%'') (show_ip ip)
       in if CHR ''%'' \<in> set (show_ip ip) \<and> (scope = [] \<or> CHR ''%'' \<in> set scope) then None
          else map_option (\<lambda>hs. IPv6 hs (if CHR ''%'' \<in> set (show_ip ip) then Some scope else None))
                 (parse_hextets addr))"
    using v4 by (simp add: parse_ip_def)
  have take_b: "takeWhile (\<lambda>c. c \<noteq> CHR ''%'') (?b @ CHR ''%'' # z) = ?b"
    and drop_b: "dropWhile (\<lambda>c. c \<noteq> CHR ''%'') (?b @ CHR ''%'' # z) = CHR ''%'' # z" for z
    using np by (auto simp: takeWhile_append dropWhile_append)
  show ?thesis
  proof (cases sc)
    case None
    have tw: "takeWhile (\<lambda>c. c \<noteq> CHR ''%'') ?b = ?b"
      using np by (auto simp: takeWhile_eq_all_conv)
    show ?thesis
      unfolding pi using pb np by (simp add: shown None before_def tw IPv6 [symmetric]) (simp add: IPv6 None)
  next
    case (Some z)
    then show ?thesis
      unfolding pi using pb sc [OF Some] take_b [of z] drop_b [of z]
      by (simp add: shown before_def after_def) (simp add: IPv6 Some)
  qed
qed

text \<open>
  Printing and parsing of addresses are inverse.  Every address, of either version, with or
  without a scope, is read back from its text, whichever run of zeros the text compresses.
\<close>

theorem ip_text_roundtrip:
  assumes "ip_wf ip"
  shows "parse_ip (show_ip ip) = Some ip"
  using assms by (rule ip_text_inverse)

lemma ip_text_roundtrip_witness:
  "parse_ip (show_ip (IPv6 [0x2001, 0xdb8, 0, 0, 1, 0, 0, 1] (Some ''eth0'')))
     = Some (IPv6 [0x2001, 0xdb8, 0, 0, 1, 0, 0, 1] (Some ''eth0''))"
  by (rule ip_text_roundtrip) (simp add: ip_wf_def)

subsection \<open>The blocked IPv4 ranges\<close>

definition octet :: "int \<Rightarrow> bool" where
  "octet b = (0 \<le> b \<and> b < 256)"

definition ipv4_value :: "int \<Rightarrow> int \<Rightarrow> int \<Rightarrow> int \<Rightarrow> int" where
  "ipv4_value a b c d = ((a * 256 + b) * 256 + c) * 256 + d"

lemma in_net4:
  "in_network (IPv4 [a, b, c, d]) (net4 x y z w p) \<longleftrightarrow>
     ipv4_value a b c d div 2 ^ (32 - p) = ipv4_value x y z w div 2 ^ (32 - p)"
  by (simp add: in_network_def net4_def ip_bits_def ip_value_def ipv4_value_def)

lemma in_net6 [simp]: "\<not> in_network (IPv4 os) (net6 hs p)"
  by (simp add: in_network_def net6_def ip_bits_def)

lemma ipv4_value_parts:
  assumes "octet b" "octet c" "octet d"
  shows "b = q * 64 + r \<Longrightarrow> 0 \<le> r \<Longrightarrow> r < 64 \<Longrightarrow> ipv4_value a b c d div 4194304 = a * 4 + q"
    "b = q * 16 + r \<Longrightarrow> 0 \<le> r \<Longrightarrow> r < 16 \<Longrightarrow> ipv4_value a b c d div 1048576 = a * 16 + q"
    "b = q * 2 + r \<Longrightarrow> 0 \<le> r \<Longrightarrow> r < 2 \<Longrightarrow> ipv4_value a b c d div 131072 = a * 128 + q"
    "a = q * 16 + r \<Longrightarrow> 0 \<le> r \<Longrightarrow> r < 16 \<Longrightarrow> ipv4_value a b c d div 268435456 = q"
  using assms
  by (intro int_div_pos_eq [where r = "r * 65536 + c * 256 + d"]
        int_div_pos_eq [where r = "r * 16777216 + b * 65536 + c * 256 + d"];
      simp add: ipv4_value_def octet_def)+

lemma ipv4_value_div:
  assumes "octet a" "octet b" "octet c" "octet d"
  shows "ipv4_value a b c d div 16777216 = a" "ipv4_value a b c d div 65536 = a * 256 + b"
    "ipv4_value a b c d div 256 = (a * 256 + b) * 256 + c"
    "ipv4_value a b c d div 4194304 = a * 4 + b div 64"
    "ipv4_value a b c d div 1048576 = a * 16 + b div 16"
    "ipv4_value a b c d div 131072 = a * 128 + b div 2"
    "ipv4_value a b c d div 268435456 = a div 16"
proof -
  note o = assms [unfolded octet_def]
  show "ipv4_value a b c d div 16777216 = a"
    by (rule int_div_pos_eq [where r = "b * 65536 + c * 256 + d"])
       (use o in \<open>simp_all add: ipv4_value_def\<close>)
  show "ipv4_value a b c d div 65536 = a * 256 + b"
    by (rule int_div_pos_eq [where r = "c * 256 + d"]) (use o in \<open>simp_all add: ipv4_value_def\<close>)
  show "ipv4_value a b c d div 256 = (a * 256 + b) * 256 + c"
    by (rule int_div_pos_eq [where r = d]) (use o in \<open>simp_all add: ipv4_value_def\<close>)
  show "ipv4_value a b c d div 4194304 = a * 4 + b div 64"
    "ipv4_value a b c d div 1048576 = a * 16 + b div 16"
    "ipv4_value a b c d div 131072 = a * 128 + b div 2"
    "ipv4_value a b c d div 268435456 = a div 16"
    by (rule ipv4_value_parts [OF assms(2-4) div_mult_mod_eq [symmetric]]; simp)+
qed

lemma pair_digits:
  fixes q q' k :: int
  assumes "0 \<le> q" "q < k" "0 \<le> q'" "q' < k"
  shows "a * k + q = x * k + q' \<longleftrightarrow> a = x \<and> q = q'"
proof -
  have "(a * k + q) div k = a" "(x * k + q') div k = x"
    using assms by (auto intro: int_div_pos_eq)
  then show ?thesis by auto
qed

lemma net_members:
  assumes o: "octet a" "octet b" "octet c" "octet d" and "octet x" "octet y" "octet z" "octet w"
  shows "in_network (IPv4 [a, b, c, d]) (net4 x y z w 8) \<longleftrightarrow> a = x"
    "in_network (IPv4 [a, b, c, d]) (net4 x y z w 16) \<longleftrightarrow> a = x \<and> b = y"
    "in_network (IPv4 [a, b, c, d]) (net4 x y z w 24) \<longleftrightarrow> a = x \<and> b = y \<and> c = z"
    "in_network (IPv4 [a, b, c, d]) (net4 x y z w 10) \<longleftrightarrow> a = x \<and> b div 64 = y div 64"
    "in_network (IPv4 [a, b, c, d]) (net4 x y z w 12) \<longleftrightarrow> a = x \<and> b div 16 = y div 16"
    "in_network (IPv4 [a, b, c, d]) (net4 x y z w 15) \<longleftrightarrow> a = x \<and> b div 2 = y div 2"
    "in_network (IPv4 [a, b, c, d]) (net4 x y z w 4) \<longleftrightarrow> a div 16 = x div 16"
    "in_network (IPv4 [a, b, c, d]) (net4 x y z w 32) \<Longrightarrow> a = x \<and> b = y \<and> c = z"
    "in_network (IPv4 [a, b, c, d]) (net4 x y z w 31) \<Longrightarrow> a = x \<and> b = y \<and> c = z"
proof -
  note v = ipv4_value_div [OF o] ipv4_value_div [OF assms(5-8)]
  show "in_network (IPv4 [a, b, c, d]) (net4 x y z w 8) \<longleftrightarrow> a = x"
    by (simp add: in_net4 v)
  note o8 = assms [unfolded octet_def]
  have e: "(2::int) ^ (32 - 16) = 65536" "(2::int) ^ (32 - 24) = 256" "(2::int) ^ (32 - 10) = 4194304"
    "(2::int) ^ (32 - 12) = 1048576" "(2::int) ^ (32 - 15) = 131072"
    by simp_all
  show "in_network (IPv4 [a, b, c, d]) (net4 x y z w 16) \<longleftrightarrow> a = x \<and> b = y"
    unfolding in_net4 e v by (rule pair_digits) (use o8 in simp_all)
  have "a * 256 + b = x * 256 + y \<longleftrightarrow> a = x \<and> b = y"
    by (rule pair_digits) (use o8 in simp_all)
  moreover have "(a * 256 + b) * 256 + c = (x * 256 + y) * 256 + z \<longleftrightarrow>
      a * 256 + b = x * 256 + y \<and> c = z"
    by (rule pair_digits) (use o8 in simp_all)
  ultimately show n24: "in_network (IPv4 [a, b, c, d]) (net4 x y z w 24) \<longleftrightarrow> a = x \<and> b = y \<and> c = z"
    unfolding in_net4 e v by argo
  show "in_network (IPv4 [a, b, c, d]) (net4 x y z w 10) \<longleftrightarrow> a = x \<and> b div 64 = y div 64"
    unfolding in_net4 e v by (rule pair_digits) (use o8 in auto)
  show "in_network (IPv4 [a, b, c, d]) (net4 x y z w 12) \<longleftrightarrow> a = x \<and> b div 16 = y div 16"
    unfolding in_net4 e v by (rule pair_digits) (use o8 in auto)
  show "in_network (IPv4 [a, b, c, d]) (net4 x y z w 15) \<longleftrightarrow> a = x \<and> b div 2 = y div 2"
    unfolding in_net4 e v by (rule pair_digits) (use o8 in auto)
  show "in_network (IPv4 [a, b, c, d]) (net4 x y z w 4) \<longleftrightarrow> a div 16 = x div 16"
    by (simp add: in_net4 v)
  have sub: "in_network (IPv4 [a, b, c, d]) (net4 x y z w 24)"
    if "ipv4_value a b c d div k = ipv4_value x y z w div k" "k = 1 \<or> k = 2" for k
  proof -
    have "ipv4_value a b c d div 256 = ipv4_value x y z w div 256"
      using that zdiv_zmult2_eq [of 128 "ipv4_value a b c d" 2] zdiv_zmult2_eq [of 128 "ipv4_value x y z w" 2]
      by auto
    then show ?thesis by (simp add: in_net4)
  qed
  show "in_network (IPv4 [a, b, c, d]) (net4 x y z w 32) \<Longrightarrow> a = x \<and> b = y \<and> c = z"
    using sub [of 1] n24 by (simp add: in_net4)
  show "in_network (IPv4 [a, b, c, d]) (net4 x y z w 31) \<Longrightarrow> a = x \<and> b = y \<and> c = z"
    using sub [of 2] n24 by (simp add: in_net4)
qed

definition special_ipv4 :: "int \<Rightarrow> int \<Rightarrow> int \<Rightarrow> bool" where
  \<comment> \<open>the ranges no request may reach, by the leading octets\<close>
  "special_ipv4 a b c \<longleftrightarrow>
     a = 0 \<or> a = 10 \<or> a = 127 \<or> 224 \<le> a \<or> a = 100 \<and> 64 \<le> b \<and> b < 128 \<or> a = 169 \<and> b = 254 \<or>
     a = 172 \<and> 16 \<le> b \<and> b < 32 \<or> a = 192 \<and> b = 168 \<or> a = 192 \<and> b = 0 \<and> (c = 0 \<or> c = 2) \<or>
     a = 198 \<and> (b = 18 \<or> b = 19) \<or> a = 198 \<and> b = 51 \<and> c = 100 \<or> a = 203 \<and> b = 0 \<and> c = 113"

lemma special_digits:
  assumes "octet a" "octet b"
  shows "224 \<le> a \<longleftrightarrow> a div 16 = 14 \<or> a div 16 = 15" "b div 64 = 1 \<longleftrightarrow> 64 \<le> b \<and> b < 128"
    "b div 16 = 1 \<longleftrightarrow> 16 \<le> b \<and> b < 32" "b div 2 = 9 \<longleftrightarrow> b = 18 \<or> b = 19"
  using assms unfolding octet_def by presburger+

lemma octet_literals:
  "octet 0" "octet 2" "octet 9" "octet 10" "octet 18" "octet 51" "octet 64" "octet 100"
  "octet 113" "octet 127" "octet 169" "octet 170" "octet 172" "octet 16" "octet 192" "octet 168"
  "octet 198" "octet 203" "octet 224" "octet 240" "octet 254" "octet 255"
  by (simp_all add: octet_def)

lemma single_nets:
  assumes o: "octet a" "octet b" "octet c" "octet d"
  shows "in_network (IPv4 [a, b, c, d]) (net4 255 255 255 255 32) \<Longrightarrow> 224 \<le> a"
    "in_network (IPv4 [a, b, c, d]) (net4 0 0 0 0 32) \<Longrightarrow> a = 0"
    "in_network (IPv4 [a, b, c, d]) (net4 192 0 0 170 31) \<Longrightarrow> a = 192 \<and> b = 0 \<and> c = 0"
  using net_members(8) [OF o, of 255 255 255 255] net_members(8) [OF o, of 0 0 0 0]
    net_members(9) [OF o, of 192 0 0 170] octet_literals by auto

lemma blocked_networks4:
  assumes o: "octet a" "octet b" "octet c" "octet d"
  shows "list_ex (in_network (IPv4 [a, b, c, d])) BLOCKED_NETWORKS \<longleftrightarrow> special_ipv4 a b c"
proof -
  have "list_ex (in_network (IPv4 [a, b, c, d])) BLOCKED_NETWORKS \<longleftrightarrow>
      a = 0 \<or> a = 10 \<or> a = 100 \<and> b div 64 = 1 \<or> a = 127 \<or> a = 169 \<and> b = 254 \<or>
      a = 172 \<and> b div 16 = 1 \<or> a = 192 \<and> b = 0 \<and> c = 0 \<or> a = 192 \<and> b = 0 \<and> c = 2 \<or>
      a = 192 \<and> b = 168 \<or> a = 198 \<and> b div 2 = 9 \<or> a = 198 \<and> b = 51 \<and> c = 100 \<or>
      a = 203 \<and> b = 0 \<and> c = 113 \<or> a div 16 = 14 \<or> a div 16 = 15 \<or>
      in_network (IPv4 [a, b, c, d]) (net4 255 255 255 255 32)"
    by (simp add: BLOCKED_NETWORKS_def net_members(1-7) [OF o] octet_literals)
  then show ?thesis
    unfolding special_ipv4_def special_digits(2-4) [OF o(1,2)] special_digits(1) [OF o(1,2)]
    using single_nets(1) [OF o, unfolded special_digits(1) [OF o(1,2)]] by argo
qed

lemma private_networks4:
  assumes o: "octet a" "octet b" "octet c" "octet d"
    and "list_ex (in_network (IPv4 [a, b, c, d])) PRIVATE_NETWORKS"
  shows "special_ipv4 a b c"
proof -
  have "a = 0 \<or> a = 10 \<or> a = 127 \<or> a = 169 \<and> b = 254 \<or>
      a = 172 \<and> b div 16 = 1 \<or> a = 192 \<and> b = 0 \<and> c = 0 \<or>
      in_network (IPv4 [a, b, c, d]) (net4 192 0 0 170 31) \<or> a = 192 \<and> b = 0 \<and> c = 2 \<or>
      a = 192 \<and> b = 168 \<or> a = 198 \<and> b div 2 = 9 \<or> a = 198 \<and> b = 51 \<and> c = 100 \<or>
      a = 203 \<and> b = 0 \<and> c = 113 \<or> a div 16 = 15 \<or>
      in_network (IPv4 [a, b, c, d]) (net4 255 255 255 255 32)"
    using assms(5) by (simp add: PRIVATE_NETWORKS_def net_members(1-7) [OF o] octet_literals)
  then show ?thesis
    unfolding special_ipv4_def special_digits(2-4) [OF o(1,2)] special_digits(1) [OF o(1,2)]
    using single_nets [OF o, unfolded special_digits(1) [OF o(1,2)]] by (elim disjE) simp_all
qed

lemma native_networks4:
  assumes o: "octet a" "octet b" "octet c" "octet d"
    and "list_ex (in_network (IPv4 [a, b, c, d])) NATIVE_NETWORKS"
  shows "special_ipv4 a b c"
proof -
  have "a = 127 \<or> a = 169 \<and> b = 254 \<or> a div 16 = 14 \<or> a div 16 = 15 \<or>
      in_network (IPv4 [a, b, c, d]) (net4 0 0 0 0 32)"
    using assms(5) by (simp add: NATIVE_NETWORKS_def net_members(1-7) [OF o] octet_literals)
  then show ?thesis
    unfolding special_ipv4_def special_digits(1) [OF o(1,2)]
    using single_nets [OF o, unfolded special_digits(1) [OF o(1,2)]] by (elim disjE) simp_all
qed

lemma native_special:
  assumes "octet a" "octet b" "octet c" "octet d" and "native_unsafe (IPv4 [a, b, c, d])"
  shows "special_ipv4 a b c"
  using assms private_networks4 native_networks4 unfolding native_unsafe_def by blast

text \<open>
  The guard blocks exactly the special-purpose IPv4 ranges, stated by their leading octets
  without masks, and it blocks the IPv4-mapped IPv6 spelling of an address exactly when it
  blocks the address.
\<close>

theorem blocked_ipv4_exactly:
  assumes "octet a" "octet b" "octet c" "octet d"
  shows "(is_blocked_addr (IPv4 [a, b, c, d]) \<longleftrightarrow> special_ipv4 a b c) \<and>
         (is_blocked_addr (IPv6 [0, 0, 0, 0, 0, 65535, a * 256 + b, c * 256 + d] sc) \<longleftrightarrow>
            special_ipv4 a b c)"
proof -
  have v4: "is_blocked_addr (IPv4 [a, b, c, d]) \<longleftrightarrow> special_ipv4 a b c"
    using blocked_networks4 [OF assms] native_special [OF assms]
    by (auto simp: is_blocked_addr_def ipv4_mapped_def)
  have "ipv4_mapped (IPv6 [0, 0, 0, 0, 0, 65535, a * 256 + b, c * 256 + d] sc) = IPv4 [a, b, c, d]"
    using assms by (simp add: ipv4_mapped_def octet_def)
  then have "is_blocked_addr (IPv6 [0, 0, 0, 0, 0, 65535, a * 256 + b, c * 256 + d] sc)
      = is_blocked_addr (IPv4 [a, b, c, d])"
    by (simp add: is_blocked_addr_def) (simp add: ipv4_mapped_def)
  then show ?thesis using v4 by simp
qed

lemma blocked_ipv4_exactly_witness:
  "is_blocked_addr (IPv4 [169, 254, 169, 254]) \<and> \<not> is_blocked_addr (IPv4 [8, 8, 8, 8])"
  using blocked_ipv4_exactly [of 169 254 169 254] blocked_ipv4_exactly [of 8 8 8 8]
  by (simp add: octet_def special_ipv4_def)

subsection \<open>Resolution never yields a blocked address\<close>

lemma read_base_nonneg:
  "read_base val b acc s = Some n \<Longrightarrow> (\<And>c d. val c = Some d \<Longrightarrow> 0 \<le> d \<and> d < b) \<Longrightarrow> 0 \<le> acc \<Longrightarrow>
   0 < b \<Longrightarrow> 0 \<le> n \<and> n < (acc + 1) * b ^ length s"
proof (induction s arbitrary: acc)
  case (Cons c cs)
  then obtain d where d: "val c = Some d" "read_base val b (acc * b + d) cs = Some n"
    by (auto split: option.splits)
  have n: "0 \<le> n \<and> n < (acc * b + d + 1) * b ^ length cs"
    using Cons.IH [OF d(2) Cons.prems(2)] Cons.prems(2) [OF d(1)] Cons.prems(3,4) by simp
  have "acc * b + d + 1 \<le> (acc + 1) * b" using Cons.prems(2) [OF d(1)] by (simp add: algebra_simps)
  then have "(acc * b + d + 1) * b ^ length cs \<le> (acc + 1) * b * b ^ length cs"
    using Cons.prems(4) by (intro mult_right_mono) simp_all
  then show ?case using n by (simp add: mult.assoc)
qed simp

lemma digit_bounds: "digit_value c = Some d \<Longrightarrow> 0 \<le> d \<and> d < 10"
  by (auto simp: digit_value_def Let_def split: if_splits)

lemma hex_bounds: "hex_value c = Some d \<Longrightarrow> 0 \<le> d \<and> d < 16"
  by (auto simp: hex_value_def Let_def split: if_splits)

lemma parse_octet_range: "parse_octet s = Some n \<Longrightarrow> 0 \<le> n \<and> n < 256"
proof -
  assume p: "parse_octet s = Some n"
  then have "read_base digit_value 10 0 s = Some n" "n \<le> 255"
    by (auto simp: parse_octet_def split: if_splits option.splits)
  then show ?thesis
    using read_base_nonneg [of digit_value 10 0 s n] digit_bounds by fastforce
qed

lemma parse_hextet_range: "parse_hextet s = Some n \<Longrightarrow> 0 \<le> n \<and> n < 65536"
proof -
  assume p: "parse_hextet s = Some n"
  then have r: "read_base hex_value 16 0 s = Some n" and "length s \<le> 4"
    by (auto simp: parse_hextet_def split: if_splits)
  then have "(16::int) ^ length s \<le> 16 ^ 4" by (intro power_increasing) simp_all
  moreover have "0 \<le> n \<and> n < 16 ^ length s"
    using read_base_nonneg [OF r] hex_bounds by fastforce
  ultimately show ?thesis by simp
qed

lemma options_in: "options xs = Some ys \<Longrightarrow> y \<in> set ys \<Longrightarrow> Some y \<in> set xs"
  by (induction xs arbitrary: ys rule: options.induct) auto

lemma options_range:
  "options (map f ps) = Some ys \<Longrightarrow> (\<And>p n. f p = Some n \<Longrightarrow> P n) \<Longrightarrow> y \<in> set ys \<Longrightarrow> P y"
  by (drule (1) options_in) auto

lemma parse_ipv4_range: "parse_ipv4 s = Some os \<Longrightarrow> b \<in> set os \<Longrightarrow> 0 \<le> b \<and> b < 256"
  by (auto simp: parse_ipv4_def Let_def split: if_splits
      dest: options_range [where P = "\<lambda>n. 0 \<le> n \<and> n < 256", OF _ parse_octet_range])

lemma picked:
  "(if bad then None
    else case (options (map parse_hextet qs), options (map parse_hextet qs')) of
      (Some h, Some l) \<Rightarrow> Some (h @ replicate m (0::int) @ l @ t) | _ \<Rightarrow> None) = Some hs \<Longrightarrow>
   \<exists>h l. options (map parse_hextet qs) = Some h \<and> options (map parse_hextet qs') = Some l \<and>
     hs = h @ replicate m 0 @ l @ t"
  by (auto split: if_splits option.splits)

lemma expand_range:
  assumes "expand_ipv6 ps tl4 = Some hs" "\<And>h. h \<in> set tl4 \<Longrightarrow> 0 \<le> h \<and> h < 65536" "h \<in> set hs"
  shows "0 \<le> h \<and> h < 65536"
proof -
  have r: "\<And>qs ys y. options (map parse_hextet qs) = Some ys \<Longrightarrow> y \<in> set ys \<Longrightarrow> 0 \<le> y \<and> y < 65536"
    by (drule (1) options_in) (auto dest!: parse_hextet_range [OF sym])
  show ?thesis
  proof -
    define mids where "mids = filter (\<lambda>i. 1 \<le> i \<and> i + 1 < length ps + length tl4 \<and> i < length ps \<and> ps ! i = [])
      [0..<length ps]"
    have e: "expand_ipv6 ps tl4 = Some hs" by (rule assms(1))
    show ?thesis
    proof (cases mids)
      case Nil
      then obtain ys where "options (map parse_hextet ps) = Some ys" "hs = ys @ tl4"
        using e unfolding expand_ipv6_def Let_def mids_def [symmetric] by (auto split: if_split_asm)
      then show ?thesis using r assms(2,3) by auto
    next
      case (Cons k rest)
      then have "rest = []"
        using e unfolding expand_ipv6_def Let_def mids_def [symmetric]
        by (auto split: if_split_asm list.split_asm)
      then have k: "mids = [k]" using Cons by simp
      note e' = e [unfolded expand_ipv6_def Let_def mids_def [symmetric] k list.case]
      have "\<not> length ps + length tl4 > 9"
      proof
        assume big: "length ps + length tl4 > 9"
        show False using e' unfolding if_P [OF big] by simp
      qed
      from picked [OF e' [unfolded if_not_P [OF this]]]
      obtain ys ys' qs qs' m where "options (map parse_hextet qs) = Some ys"
          "options (map parse_hextet qs') = Some ys'" "hs = ys @ replicate m 0 @ ys' @ tl4"
        by blast
      then show ?thesis using r assms(2,3) by auto
    qed
  qed
qed

lemma parse_ip_wf: "parse_ip s = Some ip \<Longrightarrow> ip_wf ip"
proof -
  assume p: "parse_ip s = Some ip"
  show ?thesis
  proof (cases "parse_ipv4 s")
    case (Some os)
    then show ?thesis
      using p parse_ipv4_range [OF Some] parse_ipv4_length [OF Some] by (auto simp: parse_ip_def ip_wf_def)
  next
    case None
    let ?addr = "before (\<lambda>c. c = CHR ''%'') s" and ?scope = "after (\<lambda>c. c = CHR ''%'') s"
    obtain hs where hs: "parse_hextets ?addr = Some hs"
      and ip: "ip = IPv6 hs (if CHR ''%'' \<in> set s then Some ?scope else None)"
      and sc: "CHR ''%'' \<in> set s \<Longrightarrow> ?scope \<noteq> [] \<and> CHR ''%'' \<notin> set ?scope"
      using p None by (auto simp: parse_ip_def Let_def split: if_splits)
    have "0 \<le> h \<and> h < 65536" if h: "h \<in> set hs" for h
    proof (cases "CHR ''.'' \<in> set (last (split_on (CHR '':'') ?addr))")
      case True
      then obtain a b c d where v4: "parse_ipv4 (last (split_on (CHR '':'') ?addr)) = Some [a, b, c, d]"
        and ex: "expand_ipv6 (butlast (split_on (CHR '':'') ?addr)) [a * 256 + b, c * 256 + d] = Some hs"
        using hs by (auto simp: parse_hextets_def Let_def split: if_splits list.splits option.splits)
      have "0 \<le> a \<and> a < 256" "0 \<le> b \<and> b < 256" "0 \<le> c \<and> c < 256" "0 \<le> d \<and> d < 256"
        by (rule parse_ipv4_range [OF v4], simp)+
      then have "0 \<le> a * 256 + b \<and> a * 256 + b < 65536" "0 \<le> c * 256 + d \<and> c * 256 + d < 65536"
        by simp_all
      then show ?thesis using expand_range [OF ex _ h] by auto
    next
      case False
      then have "expand_ipv6 (split_on (CHR '':'') ?addr) [] = Some hs"
        using hs by (auto simp: parse_hextets_def Let_def split: if_splits)
      then show ?thesis using expand_range [OF _ _ h] by force
    qed
    then show ?thesis
      using parse_hextets_length [OF hs] sc by (simp add: ip ip_wf_def)
  qed
qed

lemma dropWhile_hd: "s \<noteq> [] \<Longrightarrow> \<not> P (hd s) \<Longrightarrow> dropWhile P s = s"
  by (cases s) simp_all

lemma last_dropWhile: "x \<in> set s \<Longrightarrow> \<not> P x \<Longrightarrow> last (dropWhile P s) = last s"
  by (induction s) auto

lemma str_strip_id: "s \<noteq> [] \<Longrightarrow> \<not> is_space (hd s) \<Longrightarrow> \<not> is_space (last s) \<Longrightarrow> str_strip s = s"
  using dropWhile_hd [of s is_space] dropWhile_hd [of "rev s" is_space]
  by (simp add: str_strip_def hd_rev)

lemma str_strip_ends:
  assumes "str_strip s \<noteq> []"
  shows "\<not> is_space (hd (str_strip s))" "\<not> is_space (last (str_strip s))"
proof -
  let ?t = "dropWhile is_space s"
  have t: "?t \<noteq> []"
  proof
    assume "?t = []"
    then have "str_strip s = []" by (simp only: str_strip_def) simp
    then show False using assms by simp
  qed
  have r: "dropWhile is_space (rev ?t) \<noteq> []" using assms by (simp only: str_strip_def rev_is_Nil_conv) simp
  have "hd (dropWhile is_space (rev ?t)) = last (str_strip s)"
    by (simp only: str_strip_def last_rev)
  then show "\<not> is_space (last (str_strip s))" using hd_dropWhile [OF r] by simp
  have h: "\<not> is_space (hd ?t)" using hd_dropWhile [OF t] .
  obtain xs where "rev ?t = xs @ dropWhile is_space (rev ?t)"
    by (metis takeWhile_dropWhile_id)
  then have "?t = str_strip s @ rev xs" by (metis rev_append rev_rev_ident str_strip_def)
  then show "\<not> is_space (hd (str_strip s))" using h assms by (metis hd_append2)
qed

lemma strip_idem [simp]: "str_strip (str_strip s) = str_strip s"
proof (cases "str_strip s = []")
  case True
  have "str_strip [] = []" by (simp add: str_strip_def)
  then show ?thesis by (simp only: True)
next
  case False
  then show ?thesis using str_strip_ends [of s] by (intro str_strip_id)
qed

lemma is_space_lower: "is_space (lower_char c) = is_space c"
  by (auto simp: is_space_def lower_char_def Let_def)

lemma lower_strip_ends:
  "str_lower (str_strip s) \<noteq> [] \<Longrightarrow>
   \<not> is_space (hd (str_lower (str_strip s))) \<and> \<not> is_space (last (str_lower (str_strip s)))"
  using str_strip_ends [of s] by (simp add: str_lower_def hd_map last_map is_space_lower)

lemma address_char_no_space: "hex_value c \<noteq> None \<or> c = CHR '':'' \<or> c = CHR ''.'' \<Longrightarrow> \<not> is_space c"
proof -
  have c: "(of_char c :: int) = int (of_char c :: nat)" by (simp only: of_nat_of_char)
  show "hex_value c \<noteq> None \<or> c = CHR '':'' \<or> c = CHR ''.'' \<Longrightarrow> \<not> is_space c"
    by (auto simp: hex_value_def is_space_def Let_def c split: if_splits)
qed

lemma digit_is_hex: "digit_value c \<noteq> None \<Longrightarrow> hex_value c \<noteq> None"
  by (auto simp: digit_value_def hex_value_def Let_def split: if_splits)

definition address_char :: "char \<Rightarrow> bool" where
  "address_char c \<longleftrightarrow> hex_value c \<noteq> None \<or> c = CHR '':'' \<or> c = CHR ''.''"

lemma join_address_chars:
  "(\<And>p c. p \<in> set ps \<Longrightarrow> c \<in> set p \<Longrightarrow> address_char c) \<Longrightarrow> (\<And>c. c \<in> set sep \<Longrightarrow> address_char c) \<Longrightarrow>
   c \<in> set (join sep ps) \<Longrightarrow> address_char c"
  using set_join [of sep ps] by blast

lemma show_ipv4_chars:
  assumes "ip_wf (IPv4 os)" "c \<in> set (show_ip (IPv4 os))" shows "address_char c"
proof (rule join_address_chars)
  show "c \<in> set (join ''.'' (map (\<lambda>b. show_nat (nat b)) os))" using assms(2) by (simp add: show_ip_def)
  fix p c
  assume "p \<in> set (map (\<lambda>b. show_nat (nat b)) os)" "c \<in> set p"
  then show "address_char c"
    using assms(1) octet_text(3) digit_is_hex unfolding address_char_def ip_wf_def by fastforce
qed (simp add: address_char_def)

lemma body_chars:
  assumes hx: "\<And>h. h \<in> set hs \<Longrightarrow> 0 \<le> h \<and> h < 65536" and c: "c \<in> set (ipv6_body hs)"
  shows "address_char c"
proof -
  have part: "address_char c" if "c \<in> set (join '':'' (map show_hextet xs))" "set xs \<subseteq> set hs" for c xs
  proof (rule join_address_chars [OF _ _ that(1)])
    fix p c
    assume "p \<in> set (map show_hextet xs)" "c \<in> set p"
    then show "address_char c"
      using that(2) hx hextet_text(3) unfolding address_char_def by fastforce
  qed (simp add: address_char_def)
  then show ?thesis
    using c unfolding ipv6_body_def
    by (auto simp: Let_def address_char_def [of "CHR '':''"] split: prod.splits if_splits
        intro: part [OF _ set_take_subset] part [OF _ set_drop_subset] part [OF _ subset_refl])
qed

lemma shown_address_stripped:
  assumes wf: "ip_wf ip" and sc: "\<And>hs z. ip = IPv6 hs (Some z) \<Longrightarrow> \<not> is_space (last z)"
  shows "str_strip (show_ip ip) = show_ip ip"
proof (cases ip)
  case (IPv4 os)
  have ne: "show_ip ip \<noteq> []" using show_ip_nonempty [of ip] wf by (simp add: ip_ok_def ip_wf_def IPv4)
  then have "address_char (hd (show_ip ip))" "address_char (last (show_ip ip))"
    using show_ipv4_chars wf unfolding IPv4 by simp_all
  then show ?thesis using ne by (intro str_strip_id) (simp_all add: address_char_no_space address_char_def)
next
  case (IPv6 hs z)
  have shown: "show_ip ip = ipv6_body hs @ (case z of None \<Rightarrow> [] | Some z \<Rightarrow> ''%'' @ z)"
    by (simp add: IPv6 show_ip_def ipv6_body_def split: prod.splits)
  have hx: "\<And>h. h \<in> set hs \<Longrightarrow> 0 \<le> h \<and> h < 65536" "length hs = 8"
    and z: "\<And>w. z = Some w \<Longrightarrow> w \<noteq> []"
    using wf by (auto simp: IPv6 ip_wf_def)
  have b: "ipv6_body hs \<noteq> []" using parse_body [OF hx] by auto
  have "\<And>c. c \<in> set (ipv6_body hs) \<Longrightarrow> \<not> is_space c"
    using body_chars [OF hx(1)] address_char_no_space unfolding address_char_def by blast
  then have "\<not> is_space (hd (ipv6_body hs))" "\<not> is_space (last (ipv6_body hs))"
    using b by simp_all
  then show ?thesis
    using b sc [unfolded IPv6] z unfolding shown by (intro str_strip_id) (auto split: option.splits)
qed

lemma parsed_scope_end:
  assumes "parse_ip s = Some (IPv6 hs (Some z))" shows "last z = last s"
proof -
  have z: "z = after (\<lambda>c. c = CHR ''%'') s" "CHR ''%'' \<in> set s" "z \<noteq> []"
    using assms by (auto simp: parse_ip_def Let_def split: option.splits if_splits)
  then have "z = tl (dropWhile (\<lambda>c. c \<noteq> CHR ''%'') s)" by (simp add: after_def drop_Suc)
  then have "last z = last (dropWhile (\<lambda>c. c \<noteq> CHR ''%'') s)" using z(3) by (metis last_tl)
  also have "\<dots> = last s" using z(2) by (intro last_dropWhile) auto
  finally show ?thesis .
qed

lemma check_records_Inr:
  "check_records ips acc = Inr rs \<Longrightarrow>
   rs \<noteq> [] \<and> set rs = set acc \<union> set ips \<and> (\<forall>ip\<in>set ips. \<not> is_blocked_ip ip) \<and>
   (distinct acc \<longrightarrow> distinct rs)"
  by (induction ips acc rule: check_records.induct) (auto split: if_splits)

lemma check_records_blocked:
  "ip \<in> set ips \<Longrightarrow> is_blocked_ip ip \<Longrightarrow> check_records ips acc = Inl SSRFSecurityError"
  by (induction ips acc rule: check_records.induct) auto

lemma numeric_ip_wf: "numeric_ip h = Some ip \<Longrightarrow> ip_wf ip \<and> (\<exists>os. ip = IPv4 os)"
  by (auto simp: numeric_ip_def ipv4_of_int_def ip_wf_def split: if_splits option.splits)

lemma literal_not_blocked:
  assumes "ip_wf ip" "\<And>hs z. ip = IPv6 hs (Some z) \<Longrightarrow> \<not> is_space (last z)" "\<not> is_blocked_addr ip"
  shows "\<not> is_blocked_ip (show_ip ip)"
proof -
  have "str_strip (show_ip ip) = show_ip ip"
    using assms(1,2) by (blast intro: shown_address_stripped)
  then show ?thesis
    using assms(3) ip_text_inverse [OF assms(1)] by (simp add: is_blocked_ip_def)
qed

lemma resolved_not_blocked:
  assumes r: "resolve_and_validate_host dns host = Inr ips"
  shows "ips \<noteq> [] \<and> distinct ips \<and> (\<forall>ip\<in>set ips. \<not> is_blocked_ip ip)"
proof -
  let ?h = "str_lower (str_strip host)"
  have ne: "?h \<noteq> []" using r by (auto simp: resolve_and_validate_host_def)
  note r' = r [unfolded resolve_and_validate_host_def Let_def if_not_P [OF ne]]
  show "ips \<noteq> [] \<and> distinct ips \<and> (\<forall>ip\<in>set ips. \<not> is_blocked_ip ip)"
  proof (cases "numeric_ip ?h")
    case (Some ip)
    then have "\<not> is_blocked_addr ip" "ips = [show_ip ip]" using r' by (auto split: if_splits)
    then show ?thesis
      using literal_not_blocked [of ip] numeric_ip_wf [OF Some] by auto
  next
    case num: None
    show ?thesis
    proof (cases "parse_ip ?h")
      case (Some ip)
      have "\<not> is_space (last z)" if "ip = IPv6 hs (Some z)" for hs z
        using parsed_scope_end [of ?h hs z] Some lower_strip_ends [OF ne] that by simp
      moreover have "\<not> is_blocked_addr ip" "ips = [show_ip ip]"
        using r' num Some by (auto split: if_splits)
      ultimately show ?thesis using literal_not_blocked [OF parse_ip_wf [OF Some]] by simp
    next
      case None
      then obtain rs where "check_records rs [] = Inr ips"
        using r' num by (auto simp del: check_records.simps split: option.splits list.splits)
      then show ?thesis using check_records_Inr by force
    qed
  qed
qed

text \<open>
  Fail closed.  Whatever the spelling of the host (decimal, hexadecimal, dotted, IPv6, mapped)
  and whatever a hostile DNS answers, a successful resolution gives at least one address, none of
  them twice, and none of them blocked; one blocked record among the answers refuses the host.
\<close>

theorem resolve_fails_closed:
  "(\<forall>ips. resolve_and_validate_host dns host = Inr ips \<longrightarrow>
      ips \<noteq> [] \<and> distinct ips \<and> (\<forall>ip\<in>set ips. \<not> is_blocked_ip ip)) \<and>
   (\<forall>h rs. h = str_lower (str_strip host) \<and> numeric_ip h = None \<and> parse_ip h = None \<and>
      dns h = Some rs \<and> (\<exists>ip\<in>set rs. is_blocked_ip ip) \<longrightarrow>
      resolve_and_validate_host dns host = Inl SSRFSecurityError)"
proof (rule conjI; intro allI impI)
  fix ips
  assume "resolve_and_validate_host dns host = Inr ips"
  then show "ips \<noteq> [] \<and> distinct ips \<and> (\<forall>ip\<in>set ips. \<not> is_blocked_ip ip)"
    by (rule resolved_not_blocked)
next
  fix h rs
  assume a: "h = str_lower (str_strip host) \<and> numeric_ip h = None \<and> parse_ip h = None \<and>
      dns h = Some rs \<and> (\<exists>ip\<in>set rs. is_blocked_ip ip)"
  then obtain x xs where rs: "rs = x # xs" by (cases rs) auto
  have "check_records rs [] = Inl SSRFSecurityError" using a check_records_blocked by blast
  then show "resolve_and_validate_host dns host = Inl SSRFSecurityError"
    using a by (auto simp: rs resolve_and_validate_host_def Let_def simp del: check_records.simps)
qed

definition sample_dns :: "string \<Rightarrow> string list option" where
  \<comment> \<open>one public host, one that rebinds to the metadata service\<close>
  "sample_dns h =
     (if h = ''good.com'' then Some [''8.8.8.8'', ''8.8.8.8'', ''1.1.1.1'']
      else if h = ''evil.com'' then Some [''8.8.8.8'', ''169.254.169.254''] else None)"

lemma resolve_fails_closed_witness:
  "resolve_and_validate_host sample_dns ''evil.com'' = Inl SSRFSecurityError \<and>
   resolve_and_validate_host sample_dns '' Good.com'' = Inr [''8.8.8.8'', ''1.1.1.1'']"
proof (rule conjI)
  have facts: "numeric_ip ''evil.com'' = None" "parse_ip ''evil.com'' = None"
    "is_blocked_ip ''169.254.169.254''" "str_lower (str_strip ''evil.com'') = ''evil.com''"
    "sample_dns ''evil.com'' = Some [''8.8.8.8'', ''169.254.169.254'']"
    by code_simp+
  show "resolve_and_validate_host sample_dns ''evil.com'' = Inl SSRFSecurityError"
    by (rule resolve_fails_closed [of sample_dns "''evil.com''", THEN conjunct2, THEN spec,
          of "''evil.com''", THEN spec, of "[''8.8.8.8'', ''169.254.169.254'']", THEN mp])
       (simp add: facts)
next
  show "resolve_and_validate_host sample_dns '' Good.com'' = Inr [''8.8.8.8'', ''1.1.1.1'']"
    by code_simp
qed

subsection \<open>WHOIS\<close>

lemma starts_with_take: "starts_with p s \<Longrightarrow> p @ drop (length p) s = s"
  by (induction p s rule: starts_with.induct) auto

text \<open>
  Nothing but a domain reaches WHOIS.  The sanitised text has at most 253 characters, only
  letters, digits, hyphens and dots (so no blank, quote or shell character), does not start with
  a hyphen, has at least two labels and is not an address.
\<close>

theorem whois_domain_clean:
  assumes "sanitize_domain_for_whois s = Some d"
  shows "d \<noteq> [] \<and> length d \<le> 253 \<and> hd d \<noteq> CHR ''-'' \<and> parse_ip d = None \<and>
         (\<forall>c\<in>set d. is_alnum c \<or> c = CHR ''-'' \<or> c = CHR ''.'') \<and>
         2 \<le> length (split_on (CHR ''.'') d)"
proof -
  have d: "d \<noteq> []" "length d \<le> 253" "domain_regex d" "parse_ip d = None"
    using assms unfolding sanitize_domain_for_whois_def Let_def
    by (auto split: if_splits option.splits)
  let ?ls = "split_on (CHR ''.'') d"
  have ls: "2 \<le> length ?ls" "list_all domain_label (butlast ?ls)" "list_all is_alpha (last ?ls)"
    using d(3) by (simp_all add: domain_regex_def Let_def)
  have alnum: "is_alnum c \<or> c = CHR ''-''" if "p \<in> set ?ls" "c \<in> set p" for p c
  proof -
    have "p \<in> set (butlast ?ls) \<or> p = last ?ls"
      using that(1) by (metis append_butlast_last_id split_on_nonempty Un_iff set_append set_ConsD
        empty_iff list.set(1))
    then show ?thesis
      using ls(2,3) that(2) by (auto simp: list_all_iff domain_label_def is_alnum_def)
  qed
  have chars: "\<forall>c\<in>set d. is_alnum c \<or> c = CHR ''-'' \<or> c = CHR ''.''"
    using set_split_on [of d "CHR ''.''"] alnum by blast
  obtain l ls' where l: "?ls = l # ls'" "ls' \<noteq> []"
    using ls(1) by (cases ?ls; cases "tl ?ls") auto
  then have lab: "domain_label l" using ls(2) by (cases ls') (auto simp: list_all_iff)
  obtain c cs where c: "d = c # cs" using d(1) by (cases d) auto
  have "c \<noteq> CHR ''.''" using l lab by (auto simp: c domain_label_def)
  then have "hd l = c" using l by (auto simp: c split: list.splits)
  then have "is_alnum c" using lab by (simp add: domain_label_def)
  moreover have "\<not> is_alnum (CHR ''-'')" by code_simp
  ultimately have "c \<noteq> CHR ''-''" by auto
  then show ?thesis using d ls(1) chars by (simp add: c)
qed

lemma whois_domain_clean_witness:
  "sanitize_domain_for_whois ''https://www.Example.co.uk/x'' = Some ''example.co.uk'' \<and>
   2 \<le> length (split_on (CHR ''.'') ''example.co.uk'')"
  using whois_domain_clean [OF security_network_examples(11)] security_network_examples(11) by blast

end
