(* ===== verification/Probe.thy ===== *)
theory Probe
  imports IpText
begin

text \<open>
  \<open>backend/services/monitoring_probe.py\<close>: the outbound probe.  Each hop validates its URL,
  resolves the host and connects to the pinned address; redirects are followed by hand.  The
  network is the record of the answers it gives: those of the resolver per hop (they may change
  from hop to hop), what the HTTP client (\<open>httpx\<close>) reports of a request, and \<open>urljoin\<close>.  Bodies
  are ASCII; \<open>latency\<close> is the measured time.
\<close>

definition MAX_URL_LENGTH :: nat where "MAX_URL_LENGTH = 2048"
definition MAX_REDIRECTS :: nat where "MAX_REDIRECTS = 3"
definition MAX_BODY_BYTES :: nat where "MAX_BODY_BYTES = 51200"

definition get_allowed_ports :: "string \<Rightarrow> int list" where
  \<comment> \<open>of the value of \<open>MONITORING_ALLOWED_PORTS\<close>\<close>
  "get_allowed_ports env_val =
     (let ports = map decimal (filter is_digits (map str_strip (split_on (CHR '','') env_val)))
      in if str_strip env_val \<noteq> [] \<and> ports \<noteq> [] then ports else [80, 443])"

datatype ProbeFailureCategory =
    SSRF_BLOCKED | DNS_FAILURE | CONNECTION_TIMEOUT | TLS_VALIDATION_FAILURE | HTTP_CLIENT_ERROR
  | HTTP_SERVER_ERROR | REDIRECT_LIMIT | RESPONSE_TOO_LARGE | UNKNOWN

record ProbeResult =
  pr_success :: bool
  pr_status_code :: "int option"
  pr_final_url :: string
  pr_redirect_count :: nat
  pr_tls_valid :: "bool option"
  pr_latency_ms :: rat
  pr_body_sample :: string
  pr_failure_category :: "ProbeFailureCategory option"

subsection \<open>The network\<close>

datatype http_outcome =
    Response int bool "string option" "string list"
      \<comment> \<open>status, \<open>is_redirect\<close>, the location header, the chunks of the body\<close>
  | TlsFailure | ConnectError | ConnectTimeout | ReadTimeout | OtherHTTPError | OtherException

record network =
  nw_dns :: "nat \<Rightarrow> string \<Rightarrow> string list option"
  nw_http :: "nat \<Rightarrow> string \<Rightarrow> string \<Rightarrow> http_outcome" \<comment> \<open>hop, pinned address, URL\<close>
  nw_urljoin :: "string \<Rightarrow> string \<Rightarrow> string option" \<comment> \<open>none for \<open>ValueError\<close>\<close>
  nw_ports_env :: string

record connect =
  cn_ip :: string
  cn_port :: int
  cn_host :: string
  cn_url :: string

subsection \<open>Validation of a hop\<close>

definition oct_value :: "char \<Rightarrow> int option" where
  "oct_value c = (case digit_value c of Some d \<Rightarrow> if d < 8 then Some d else None | None \<Rightarrow> None)"

definition is_octal_ip :: "string \<Rightarrow> bool" where
  "is_octal_ip h =
     (let parts = split_on (CHR ''.'') h;
          padded = list_all is_digits parts \<and>
            list_ex (\<lambda>p. starts_with ''0'' p \<and> length p > 1) parts
      in case (if padded then options (map (read_base oct_value 8 0) parts) else None) of
           Some [a, b, c, d] \<Rightarrow>
             if list_all (\<lambda>v. v \<le> 255) [a, b, c, d]
             then is_blocked_ip (join ''.'' (map (\<lambda>v. show_nat (nat v)) [a, b, c, d]))
             else False
         | _ \<Rightarrow>
             if starts_with ''0'' h \<and> is_digits h \<and> length h > 1 then
               (case read_base oct_value 8 0 h of
                  Some v \<Rightarrow> v \<le> 4294967295 \<and> is_blocked_addr (ipv4_of_int v)
                | None \<Rightarrow> False)
             else False)"

datatype url_error =
    Refused \<comment> \<open>\<open>SSRFSecurityError\<close>\<close>
  | BadURL \<comment> \<open>the \<open>ValueError\<close> of the first \<open>urlparse\<close>, which nothing catches\<close>

definition validate_url_syntax ::
  "string \<Rightarrow> string \<Rightarrow> url_error + (string \<times> string \<times> int \<times> string)" where
  "validate_url_syntax ports_env url =
     (let clean = str_strip url
      in if url = [] \<or> length clean > MAX_URL_LENGTH then Inl Refused
         else case urlparse clean of
           None \<Rightarrow> Inl BadURL
         | Some u \<Rightarrow>
             if CHR ''@'' \<in> set (ur_netloc u) then Inl Refused
             else case validate_target_url clean of
               Inl err \<Rightarrow> Inl Refused
             | Inr (scheme, host, port, path) \<Rightarrow>
                 if port \<notin> set (get_allowed_ports ports_env) then Inl Refused
                 else if is_octal_ip host then Inl Refused
                 else Inr (scheme, host, port, path))"

definition resolve_and_pin_host ::
  "(string \<Rightarrow> string list option) \<Rightarrow> string \<Rightarrow> ssrf_error + string" where
  "resolve_and_pin_host dns host =
     (case resolve_and_validate_host dns host of
        Inl err \<Rightarrow> Inl err
      | Inr [] \<Rightarrow> Inl SSRFSecurityError
      | Inr (ip # ips) \<Rightarrow> Inr ip)"

subsection \<open>The probe\<close>

definition failed :: "string \<Rightarrow> nat \<Rightarrow> bool option \<Rightarrow> rat \<Rightarrow> ProbeFailureCategory \<Rightarrow> ProbeResult" where
  "failed url n tls lat cat =
     \<lparr>pr_success = False, pr_status_code = None, pr_final_url = url, pr_redirect_count = n,
      pr_tls_valid = tls, pr_latency_ms = lat, pr_body_sample = [], pr_failure_category = Some cat\<rparr>"

fun read_body :: "nat \<Rightarrow> string list \<Rightarrow> string" where
  \<comment> \<open>the chunks up to the limit; the first argument is \<open>total_bytes\<close> before the chunk\<close>
  "read_body n [] = []"
| "read_body n (c # cs) =
     (if n + length c > MAX_BODY_BYTES then take (MAX_BODY_BYTES - n) c
      else c @ read_body (n + length c) cs)"

definition answered :: "string \<Rightarrow> nat \<Rightarrow> string \<Rightarrow> rat \<Rightarrow> int \<Rightarrow> string list \<Rightarrow> ProbeResult" where
  "answered url n scheme lat status chunks =
     \<lparr>pr_success = status < 400, pr_status_code = Some status, pr_final_url = url,
      pr_redirect_count = n, pr_tls_valid = Some (scheme = ''https''), pr_latency_ms = lat,
      pr_body_sample = take 1024 (read_body 0 chunks),
      pr_failure_category =
        (if status < 400 then None
         else if status < 500 then Some HTTP_CLIENT_ERROR else Some HTTP_SERVER_ERROR)\<rparr>"

definition error_result :: "string \<Rightarrow> nat \<Rightarrow> rat \<Rightarrow> http_outcome \<Rightarrow> ProbeResult" where
  \<comment> \<open>the exception handlers of a hop\<close>
  "error_result url n lat out =
     (case out of
        TlsFailure \<Rightarrow> failed url n (Some False) lat TLS_VALIDATION_FAILURE
      | ConnectError \<Rightarrow> failed url n None lat HTTP_CLIENT_ERROR
      | ConnectTimeout \<Rightarrow> failed url n None lat CONNECTION_TIMEOUT
      | ReadTimeout \<Rightarrow> failed url n None lat CONNECTION_TIMEOUT
      | OtherHTTPError \<Rightarrow> failed url n None lat HTTP_CLIENT_ERROR
      | _ \<Rightarrow> failed url n None lat UNKNOWN)"

text \<open>
  The loop over the hops.  The first argument counts the iterations that are left of
  \<open>range(MAX_REDIRECTS + 1)\<close>; \<open>hop\<close> numbers them.  The result is none when an exception escapes.
\<close>

fun probe_loop ::
  "nat \<Rightarrow> network \<Rightarrow> rat \<Rightarrow> nat \<Rightarrow> string list \<Rightarrow> string \<Rightarrow> nat \<Rightarrow> ProbeResult option \<times> connect list" where
  "probe_loop 0 nw lat hop chain url n = (Some (failed url n None lat REDIRECT_LIMIT), [])"
| "probe_loop (Suc k) nw lat hop chain url n =
     (case validate_url_syntax (nw_ports_env nw) url of
        Inl BadURL \<Rightarrow> (None, [])
      | Inl Refused \<Rightarrow> (Some (failed url n None lat SSRF_BLOCKED), [])
      | Inr (scheme, host, port, path) \<Rightarrow>
          (case resolve_and_pin_host (nw_dns nw hop) host of
             Inl err \<Rightarrow>
               (Some (failed url n None lat (if err = DNSFailure then DNS_FAILURE else SSRF_BLOCKED)), [])
           | Inr ip \<Rightarrow>
               let c = \<lparr>cn_ip = ip, cn_port = port, cn_host = host, cn_url = url\<rparr>
               in case nw_http nw hop ip url of
                    Response status True (Some loc) chunks \<Rightarrow>
                      if n \<ge> MAX_REDIRECTS then (Some (failed url n None lat REDIRECT_LIMIT), [c])
                      else (case nw_urljoin nw url (str_strip loc) of
                          None \<Rightarrow> (Some (failed url n None lat UNKNOWN), [c])
                        | Some next_url \<Rightarrow>
                            if next_url \<in> set chain
                            then (Some (failed url n None lat REDIRECT_LIMIT), [c])
                            else (case probe_loop k nw lat (Suc hop) (chain @ [next_url]) next_url (Suc n)
                                  of (r, cs) \<Rightarrow> (r, c # cs)))
                  | Response status _ _ chunks \<Rightarrow> (Some (answered url n scheme lat status chunks), [c])
                  | out \<Rightarrow> (Some (error_result url n lat out), [c])))"

definition probe_inner :: "network \<Rightarrow> rat \<Rightarrow> string \<Rightarrow> ProbeResult option \<times> connect list" where
  "probe_inner nw lat url = probe_loop (MAX_REDIRECTS + 1) nw lat 0 [url] url 0"

text \<open>
  \<open>budget\<close> is how many of the connections the probe makes before the wall-clock budget ends it,
  or none when it ends in time.
\<close>

definition probe ::
  "network \<Rightarrow> rat \<Rightarrow> nat option \<Rightarrow> string \<Rightarrow> ProbeResult option \<times> connect list" where
  "probe nw lat budget url =
     (case probe_inner nw lat url of (r, cs) \<Rightarrow>
        (case budget of
           None \<Rightarrow> (r, cs)
         | Some k \<Rightarrow> (Some (failed url 0 None lat CONNECTION_TIMEOUT), take k cs)))"

subsection \<open>What the probe guarantees\<close>

lemma read_body_prefix: "n \<le> MAX_BODY_BYTES \<Longrightarrow> read_body n cs = take (MAX_BODY_BYTES - n) (concat cs)"
proof (induction n cs rule: read_body.induct)
  case (2 n c cs)
  then show ?case by (simp add: diff_diff_left)
qed simp

lemma pin_not_blocked: "resolve_and_pin_host dns h = Inr ip \<Longrightarrow> \<not> is_blocked_ip ip"
  using resolved_not_blocked [of dns h]
  by (auto simp: resolve_and_pin_host_def split: sum.splits list.splits)

lemma syntax_port:
  "validate_url_syntax env url = Inr (sc, h, p, q) \<Longrightarrow> p \<in> set (get_allowed_ports env)"
  by (auto simp: validate_url_syntax_def Let_def split: if_splits sum.splits option.splits)

definition connect_ok :: "string \<Rightarrow> connect \<Rightarrow> bool" where
  "connect_ok env c = (\<not> is_blocked_ip (cn_ip c) \<and> cn_port c \<in> set (get_allowed_ports env))"

definition result_ok :: "ProbeResult \<Rightarrow> bool" where
  "result_ok r \<longleftrightarrow>
     pr_redirect_count r \<le> MAX_REDIRECTS \<and> length (pr_body_sample r) \<le> 1024 \<and>
     (pr_success r \<longleftrightarrow> pr_failure_category r = None) \<and>
     (pr_success r \<longrightarrow> (\<exists>st. pr_status_code r = Some st \<and> st < 400))"

lemma result_ok_simps [simp]:
  "result_ok (failed u n t l c) \<longleftrightarrow> n \<le> MAX_REDIRECTS"
  "result_ok (answered u n s l st cs) \<longleftrightarrow> n \<le> MAX_REDIRECTS"
  "n \<le> MAX_REDIRECTS \<Longrightarrow> result_ok (error_result u n l out)"
  by (auto simp: result_ok_def failed_def answered_def error_result_def split: http_outcome.splits)

lemma probe_step_cases:
  assumes "probe_loop (Suc k) nw lat hop chain url n = (r, cs)" "n \<le> MAX_REDIRECTS"
  shows "(cs = [] \<or> (\<exists>c. cs = [c] \<and> connect_ok (nw_ports_env nw) c \<and> cn_url c = url)) \<and>
           (\<forall>x. r = Some x \<longrightarrow> result_ok x) \<or>
         (\<exists>next_url c cs'. n < MAX_REDIRECTS \<and> next_url \<notin> set chain \<and> cs = c # cs' \<and>
           connect_ok (nw_ports_env nw) c \<and> cn_url c = url \<and>
           probe_loop k nw lat (Suc hop) (chain @ [next_url]) next_url (Suc n) = (r, cs'))"
proof (cases "validate_url_syntax (nw_ports_env nw) url")
  case (Inl err)
  then show ?thesis using assms by (cases err) auto
next
  case (Inr v)
  obtain sc h p q where v: "v = (sc, h, p, q)" by (cases v)
  have port: "p \<in> set (get_allowed_ports (nw_ports_env nw))"
    using syntax_port Inr unfolding v by blast
  show ?thesis
  proof (cases "resolve_and_pin_host (nw_dns nw hop) h")
    case (Inl err)
    then show ?thesis using assms Inr v by auto
  next
    case r: (Inr ip)
    let ?c = "\<lparr>cn_ip = ip, cn_port = p, cn_host = h, cn_url = url\<rparr>"
    have c: "connect_ok (nw_ports_env nw) ?c"
      using pin_not_blocked [OF r] port by (simp add: connect_ok_def)
    show ?thesis
      using assms Inr r c unfolding v
      by (auto simp: Let_def split: http_outcome.splits bool.splits option.splits if_splits prod.splits)
  qed
qed

lemma probe_loop_ok:
  assumes "probe_loop k nw lat hop chain url n = (r, cs)" "n + k = MAX_REDIRECTS + 1"
    and "url \<in> set chain" "distinct chain"
  shows "(\<forall>c\<in>set cs. connect_ok (nw_ports_env nw) c) \<and> length cs \<le> k \<and>
         distinct (map cn_url cs) \<and> (\<forall>c\<in>set cs. cn_url c = url \<or> cn_url c \<notin> set chain) \<and>
         (0 < k \<longrightarrow> (\<forall>x. r = Some x \<longrightarrow> result_ok x))"
  using assms
proof (induction k arbitrary: hop chain url n r cs)
  case (Suc k)
  have n: "n \<le> MAX_REDIRECTS" using Suc.prems(2) by simp
  from probe_step_cases [OF Suc.prems(1) n] show ?case
  proof (elim disjE conjE exE)
    fix next_url c cs'
    assume a: "n < MAX_REDIRECTS" "next_url \<notin> set chain" "cs = c # cs'"
      "connect_ok (nw_ports_env nw) c" "cn_url c = url"
      "probe_loop k nw lat (Suc hop) (chain @ [next_url]) next_url (Suc n) = (r, cs')"
    have "(\<forall>c\<in>set cs'. connect_ok (nw_ports_env nw) c) \<and> length cs' \<le> k \<and>
         distinct (map cn_url cs') \<and>
         (\<forall>c\<in>set cs'. cn_url c = next_url \<or> cn_url c \<notin> set (chain @ [next_url])) \<and>
         (0 < k \<longrightarrow> (\<forall>x. r = Some x \<longrightarrow> result_ok x))"
      by (rule Suc.IH [OF a(6)]) (use Suc.prems a in auto)
    moreover have "0 < k" using a(1) Suc.prems(2) by simp
    ultimately show ?thesis
      using a(2-5) Suc.prems(3) by (auto simp: image_iff)
  qed auto
qed simp

lemma probe_guarded:
  "length (snd (probe nw lat budget url)) \<le> 4 \<and> distinct (map cn_url (snd (probe nw lat budget url))) \<and>
   (\<forall>c\<in>set (snd (probe nw lat budget url)).
      \<not> is_blocked_ip (cn_ip c) \<and> cn_port c \<in> set (get_allowed_ports (nw_ports_env nw)))"
proof -
  obtain r cs where p: "probe_inner nw lat url = (r, cs)" by (cases "probe_inner nw lat url")
  have ok: "(\<forall>c\<in>set cs. connect_ok (nw_ports_env nw) c) \<and> length cs \<le> 4 \<and> distinct (map cn_url cs)"
    using probe_loop_ok [of 4 nw lat 0 "[url]" url 0 r cs] p
    by (simp add: probe_inner_def MAX_REDIRECTS_def)
  then have "(\<forall>c\<in>set (take k cs). connect_ok (nw_ports_env nw) c) \<and> length (take k cs) \<le> 4 \<and>
      distinct (map cn_url (take k cs))" for k
    by (auto dest: in_set_takeD simp: take_map [symmetric])
  then show ?thesis
    using ok by (auto simp: probe_def p connect_ok_def split: option.splits)
qed

text \<open>
  C7: the probe never leaves the guard, whatever the resolver, the servers and the redirects do
  and wherever the time budget cuts it off.  It makes at most four connections, each to an
  address that is not blocked and on an allowed port, and asks for no URL twice.
\<close>

theorem probe_never_reaches_blocked:
  "case probe nw lat budget url of (r, cs) \<Rightarrow>
     length cs \<le> 4 \<and> distinct (map cn_url cs) \<and>
     (\<forall>c\<in>set cs. \<not> is_blocked_ip (cn_ip c) \<and> cn_port c \<in> set (get_allowed_ports (nw_ports_env nw)))"
  using probe_guarded [of nw lat budget url] by (simp add: case_prod_beta)

text \<open>
  What a probe reports.  The redirect count stays within the limit, the sample has at most
  1024 characters, a success is exactly a result without a failure category and has a status
  below 400; and the sample of a body that is read in chunks is the beginning of the whole body.
\<close>

theorem probe_result_bounded:
  "(\<forall>x. fst (probe nw lat budget url) = Some x \<longrightarrow> result_ok x) \<and>
   pr_body_sample (answered u n sc lat st chunks) = take 1024 (concat chunks)"
proof
  obtain r cs where p: "probe_inner nw lat url = (r, cs)" by (cases "probe_inner nw lat url")
  have "\<forall>x. r = Some x \<longrightarrow> result_ok x"
    using probe_loop_ok [of 4 nw lat 0 "[url]" url 0 r cs] p
    by (simp add: probe_inner_def MAX_REDIRECTS_def)
  then show "\<forall>x. fst (probe nw lat budget url) = Some x \<longrightarrow> result_ok x"
    by (auto simp: probe_def p split: option.splits)
  show "pr_body_sample (answered u n sc lat st chunks) = take 1024 (concat chunks)"
    by (simp add: answered_def read_body_prefix MAX_BODY_BYTES_def min_def)
qed

definition sample_network :: network where
  \<comment> \<open>\<open>good.com\<close> redirects to \<open>evil.com\<close>, which resolves to the metadata service\<close>
  "sample_network =
     \<lparr>nw_dns = (\<lambda>hop. sample_dns),
      nw_http = (\<lambda>hop ip url. Response 302 True (Some ''http://evil.com/'') []),
      nw_urljoin = (\<lambda>base loc. Some loc), nw_ports_env = []\<rparr>"

lemma probe_never_reaches_blocked_witness:
  "map cn_ip (snd (probe sample_network 0 None ''http://good.com/'')) = [''8.8.8.8''] \<and>
   list_all (\<lambda>c. \<not> is_blocked_ip (cn_ip c)) (snd (probe sample_network 0 None ''http://good.com/''))"
proof (rule conjI)
  show "map cn_ip (snd (probe sample_network 0 None ''http://good.com/'')) = [''8.8.8.8'']"
    by code_simp
  show "list_all (\<lambda>c. \<not> is_blocked_ip (cn_ip c)) (snd (probe sample_network 0 None ''http://good.com/''))"
    using probe_never_reaches_blocked [of sample_network 0 None "''http://good.com/''"]
    by (simp add: case_prod_beta list_all_iff)
qed

lemma probe_result_bounded_witness:
  "map_option pr_failure_category (fst (probe sample_network 0 None ''http://good.com/''))
     = Some (Some SSRF_BLOCKED) \<and>
   (\<forall>x. fst (probe sample_network 0 None ''http://good.com/'') = Some x \<longrightarrow> pr_redirect_count x \<le> 3)"
proof (rule conjI)
  show "map_option pr_failure_category (fst (probe sample_network 0 None ''http://good.com/''))
     = Some (Some SSRF_BLOCKED)"
    by code_simp
  show "\<forall>x. fst (probe sample_network 0 None ''http://good.com/'') = Some x \<longrightarrow> pr_redirect_count x \<le> 3"
    using probe_result_bounded [THEN conjunct1, of sample_network 0 None "''http://good.com/''"]
    by (simp add: result_ok_def MAX_REDIRECTS_def)
qed

end
