(* ===== verification/Monitoring.thy ===== *)
theory Monitoring
  imports Scheduler IpText
begin

text \<open>
  \<open>backend/services/monitoring_service.py\<close>: registration of monitoring targets behind the
  network guard and the quota, listing, update, soft deletion, pause, resume, reactivation,
  on-demand checks under an execution lease, diagnostics and statistics.  The quota lock makes
  registration one step.  \<open>ok\<close> is whether the commit succeeds; when it does not, the exception
  leaves the store as it was.
\<close>

datatype monitor_error =
    MonitorNotFoundError | MonitorLimitExceededError | MonitorSSRFError | MonitorValidationError
  | MonitorTargetSuspendedError | MonitorLeaseConflictError | CommitError

definition MAX_TARGETS_STANDARD_USER :: nat where "MAX_TARGETS_STANDARD_USER = 20"
definition MAX_TARGETS_ADMIN :: nat where "MAX_TARGETS_ADMIN = 500"

definition get_user_target_quota :: "user \<Rightarrow> nat" where
  "get_user_target_quota u = (if is_admin u then MAX_TARGETS_ADMIN else MAX_TARGETS_STANDARD_USER)"

subsection \<open>Registration\<close>

definition ssrf_validate :: "(string \<Rightarrow> string list option) \<Rightarrow> string \<Rightarrow> bool" where
  "ssrf_validate dns url =
     (case validate_target_url url of
        Inl err \<Rightarrow> False
      | Inr (scheme, host, port, path) \<Rightarrow>
          (case resolve_and_validate_host dns host of Inl err \<Rightarrow> False | Inr ips \<Rightarrow> True))"

definition active_targets_of :: "nat \<Rightarrow> store \<Rightarrow> target list" where
  "active_targets_of i s = filter (\<lambda>g. tg_user_id g = i \<and> tg_is_active g) (st_targets s)"

definition target_domain :: "(string \<Rightarrow> string \<times> string) \<Rightarrow> string \<Rightarrow> string" where
  \<comment> \<open>the dict of the normal form has no key \<open>ip\<close>\<close>
  "target_domain psl url =
     (let n = normalize_canonical_domain psl url;
          host = (case urlparse url of None \<Rightarrow> None | Some u \<Rightarrow> url_hostname u);
          d = str_or (nd_registered_domain n) (str_or (nd_fqdn n) (str_or host (Some (take 255 url))))
      in case d of None \<Rightarrow> [] | Some x \<Rightarrow> x)"

definition target_audit ::
  "env \<Rightarrow> nat \<Rightarrow> string \<Rightarrow> user \<Rightarrow> string \<Rightarrow> dict \<Rightarrow> string option \<Rightarrow> store \<Rightarrow> store" where
  "target_audit e k action u rid details ip s =
     add_audit \<lparr>au_id = 0, au_uuid = uuids e k, au_action = action, au_actor_user_id = Some (usr_id u),
       au_target_resource = ''monitoring_targets'', au_resource_id = rid, au_details = details,
       au_ip_address = ip, au_created_at = now e\<rparr> s"

definition new_target :: "env \<Rightarrow> string \<Rightarrow> string \<Rightarrow> int \<Rightarrow> user \<Rightarrow> target" where
  "new_target e url domain interval u =
     \<lparr>tg_id = 0, tg_uuid = uuids e 0, tg_url = url, tg_normalized_domain = take 255 domain,
      tg_check_interval_minutes = interval, tg_is_active = True, tg_last_checked_at = None,
      tg_next_check_at = now e, tg_last_prediction = None, tg_last_confidence = None,
      tg_consecutive_failures = 0, tg_last_status_code = None, tg_last_response_time_ms = None,
      tg_last_error_message = None, tg_execution_token = None, tg_execution_epoch = None,
      tg_execution_expires_at = None, tg_user_id = usr_id u, tg_created_at = now e\<rparr>"

definition register_target ::
  "(string \<Rightarrow> string \<times> string) \<Rightarrow> (string \<Rightarrow> string list option) \<Rightarrow> bool \<Rightarrow> env \<Rightarrow> string \<Rightarrow> int \<Rightarrow>
   user \<Rightarrow> string option \<Rightarrow> store \<Rightarrow> (monitor_error + target) \<times> store" where
  "register_target psl dns ok e url interval u ip s =
     (if \<not> ssrf_validate dns url then (Inl MonitorSSRFError, s)
      else if length (active_targets_of (usr_id u) s) \<ge> get_user_target_quota u
      then (Inl MonitorLimitExceededError, s)
      else if \<not> ok then (Inl CommitError, s)
      else
        let domain = target_domain psl url;
            t = new_target e url domain interval u;
            s1 = add_target t s;
            s2 = target_audit e 1 ''MONITORING_TARGET_CREATED'' u (tg_uuid t)
                   [(''target_uuid'', JStr (tg_uuid t)), (''url'', JStr url),
                    (''normalized_domain'', JStr domain),
                    (''check_interval_minutes'', JInt interval)] ip s1
        in (Inr (t\<lparr>tg_id := sq_target s\<rparr>), s2))"

subsection \<open>Retrieval\<close>

definition visible_targets :: "user \<Rightarrow> store \<Rightarrow> target list" where
  "visible_targets u s = filter (\<lambda>g. is_admin u \<or> tg_user_id g = usr_id u) (st_targets s)"

record target_page =
  tp_items :: "target list"
  tp_total :: nat
  tp_page :: nat
  tp_page_size :: nat
  tp_has_more :: bool

definition list_targets :: "user \<Rightarrow> nat \<Rightarrow> nat \<Rightarrow> bool \<Rightarrow> store \<Rightarrow> target_page" where
  \<comment> \<open>pages count from 1\<close>
  "list_targets u page psize inactive s =
     (let q = sort_key (\<lambda>g. - tg_created_at g)
                (filter (\<lambda>g. inactive \<or> tg_is_active g) (visible_targets u s));
          off = (page - 1) * psize;
          items = page_rows off psize q
      in \<lparr>tp_items = items, tp_total = length q, tp_page = page, tp_page_size = psize,
          tp_has_more = off + length items < length q\<rparr>)"

definition get_target_by_uuid :: "string \<Rightarrow> user \<Rightarrow> store \<Rightarrow> target option" where
  \<comment> \<open>\<open>target_uuid\<close> is a unique column\<close>
  "get_target_by_uuid uuid u s = first_row (filter (\<lambda>g. tg_uuid g = uuid) (visible_targets u s))"

subsection \<open>Updates\<close>

text \<open>Attribute assignments, one audit row and one commit.\<close>

definition commit_target ::
  "bool \<Rightarrow> env \<Rightarrow> string \<Rightarrow> user \<Rightarrow> target \<Rightarrow> (target \<Rightarrow> target) \<Rightarrow> dict \<Rightarrow> string option \<Rightarrow> store \<Rightarrow>
   (monitor_error + target) \<times> store" where
  "commit_target ok e action u g f details ip s =
     (if \<not> ok then (Inl CommitError, s)
      else (Inr (f g), target_audit e 0 action u (tg_uuid g) details ip (set_target (tg_id g) f s)))"

definition update_attrs :: "env \<Rightarrow> int option \<Rightarrow> bool option \<Rightarrow> target \<Rightarrow> target" where
  "update_attrs e interval active g =
     (let g1 = (case interval of None \<Rightarrow> g | Some m \<Rightarrow> g\<lparr>tg_check_interval_minutes := m\<rparr>)
      in case active of
           None \<Rightarrow> g1
         | Some b \<Rightarrow>
             (if \<not> tg_is_active g \<and> b then g1\<lparr>tg_next_check_at := now e, tg_is_active := b\<rparr>
              else g1\<lparr>tg_is_active := b\<rparr>))"

definition update_changes :: "env \<Rightarrow> int option \<Rightarrow> bool option \<Rightarrow> target \<Rightarrow> dict" where
  "update_changes e interval active g =
     (case interval of None \<Rightarrow> [] | Some m \<Rightarrow> [(''check_interval_minutes'', JInt m)]) @
     (case active of None \<Rightarrow> []
      | Some b \<Rightarrow> (if \<not> tg_is_active g \<and> b then [(''next_check_at'', JTime (now e))] else []) @
                  [(''is_active'', JBool b)])"

definition update_target ::
  "bool \<Rightarrow> env \<Rightarrow> string \<Rightarrow> int option \<Rightarrow> bool option \<Rightarrow> user \<Rightarrow> string option \<Rightarrow> store \<Rightarrow>
   (monitor_error + target) \<times> store" where
  "update_target ok e uuid interval active u ip s =
     (case get_target_by_uuid uuid u s of
        None \<Rightarrow> (Inl MonitorNotFoundError, s)
      | Some g \<Rightarrow>
          let changed = update_changes e interval active g
          in if changed = [] then (Inr g, s)
             else commit_target ok e ''MONITORING_TARGET_UPDATED'' u g (update_attrs e interval active)
                    [(''changes'', JObj changed), (''target_uuid'', JStr uuid)] ip s)"

definition delete_target ::
  "bool \<Rightarrow> env \<Rightarrow> string \<Rightarrow> user \<Rightarrow> string option \<Rightarrow> store \<Rightarrow> (monitor_error + target) \<times> store" where
  "delete_target ok e uuid u ip s =
     (case get_target_by_uuid uuid u s of
        None \<Rightarrow> (Inl MonitorNotFoundError, s)
      | Some g \<Rightarrow> commit_target ok e ''MONITORING_TARGET_DELETED'' u g (tg_is_active_update (\<lambda>_. False))
                    [(''target_uuid'', JStr uuid), (''url'', JStr (tg_url g))] ip s)"

definition control_details :: "string \<Rightarrow> target \<Rightarrow> nat \<Rightarrow> dict" where
  "control_details uuid g n =
     [(''target_uuid'', JStr uuid), (''url'', JStr (tg_url g)), (''consecutive_failures'', JInt (int n))]"

definition pause_target ::
  "bool \<Rightarrow> env \<Rightarrow> string \<Rightarrow> user \<Rightarrow> string option \<Rightarrow> store \<Rightarrow> (monitor_error + target) \<times> store" where
  "pause_target ok e uuid u ip s =
     (case get_target_by_uuid uuid u s of
        None \<Rightarrow> (Inl MonitorNotFoundError, s)
      | Some g \<Rightarrow>
          if tg_consecutive_failures g \<ge> 5 \<and> \<not> tg_is_active g then (Inl MonitorTargetSuspendedError, s)
          else commit_target ok e ''TARGET_PAUSED'' u g (tg_is_active_update (\<lambda>_. False))
                 (control_details uuid g (tg_consecutive_failures g)) ip s)"

definition resume_target ::
  "bool \<Rightarrow> env \<Rightarrow> string \<Rightarrow> user \<Rightarrow> string option \<Rightarrow> store \<Rightarrow> (monitor_error + target) \<times> store" where
  "resume_target ok e uuid u ip s =
     (case get_target_by_uuid uuid u s of
        None \<Rightarrow> (Inl MonitorNotFoundError, s)
      | Some g \<Rightarrow>
          if tg_consecutive_failures g \<ge> 5 then (Inl MonitorTargetSuspendedError, s)
          else commit_target ok e ''TARGET_RESUMED'' u g
                 (\<lambda>g. g\<lparr>tg_is_active := True, tg_next_check_at := now e\<rparr>)
                 (control_details uuid g (tg_consecutive_failures g)) ip s)"

definition reactivate_target ::
  "bool \<Rightarrow> env \<Rightarrow> string \<Rightarrow> user \<Rightarrow> string option \<Rightarrow> store \<Rightarrow> (monitor_error + target) \<times> store" where
  "reactivate_target ok e uuid u ip s =
     (case get_target_by_uuid uuid u s of
        None \<Rightarrow> (Inl MonitorNotFoundError, s)
      | Some g \<Rightarrow>
          commit_target ok e ''TARGET_REACTIVATED'' u g
            (\<lambda>g. g\<lparr>tg_consecutive_failures := 0, tg_is_active := True, tg_next_check_at := now e\<rparr>)
            (control_details uuid g 0) ip s)"

subsection \<open>On-demand checks\<close>

definition current_epoch_or_one :: "store \<Rightarrow> nat" where
  "current_epoch_or_one s = (case st_sched s of None \<Rightarrow> 1 | Some r \<Rightarrow> ss_current_epoch r)"

definition lease_target :: "config \<Rightarrow> env \<Rightarrow> nat \<Rightarrow> target \<Rightarrow> target" where
  "lease_target c e n g =
     g\<lparr>tg_execution_token := Some (uuids e 0), tg_execution_epoch := Some n,
       tg_execution_expires_at := Some (now e + seconds (cf_worker_lease_seconds c))\<rparr>"

definition lease_guard :: "dialect \<Rightarrow> env \<Rightarrow> target \<Rightarrow> bool" where
  \<comment> \<open>PostgreSQL: the guard of the update; SQLite: the check under the mutex, then the same guard\<close>
  "lease_guard d e g =
     (case d of
        Postgresql \<Rightarrow> tg_is_active g \<and> lease_expired (now e) g
      | _ \<Rightarrow>
          \<not> (tg_execution_token g \<noteq> None \<and>
             (case tg_execution_expires_at g of None \<Rightarrow> False | Some x \<Rightarrow> x > now e)) \<and>
          tg_is_active g \<and> lease_expired (now e) g)"

definition trigger_check_now ::
  "dialect \<Rightarrow> config \<Rightarrow> bool \<Rightarrow> env \<Rightarrow> string \<Rightarrow> user \<Rightarrow> string option \<Rightarrow> store \<Rightarrow>
   (monitor_error + ClaimedTarget) \<times> store" where
  \<comment> \<open>the claim is the one submitted to the worker pool\<close>
  "trigger_check_now d c ok e uuid u ip s =
     (case get_target_by_uuid uuid u s of
        None \<Rightarrow> (Inl MonitorNotFoundError, s)
      | Some g \<Rightarrow>
          if \<not> tg_is_active g
          then (Inl (if tg_consecutive_failures g \<ge> 5 then MonitorTargetSuspendedError
                     else MonitorValidationError), s)
          else if \<not> lease_guard d e g then (Inl MonitorLeaseConflictError, s)
          else
            let n = current_epoch_or_one s
            in case commit_target ok e ''TARGET_CHECK_NOW_REQUESTED'' u g (lease_target c e n)
                      [(''target_uuid'', JStr uuid), (''url'', JStr (tg_url g)),
                       (''execution_token'', JStr (uuids e 0)), (''execution_epoch'', JInt (int n))] ip s of
                 (Inl err, s') \<Rightarrow> (Inl err, s')
               | (Inr g', s') \<Rightarrow> (Inr (claim_of n (uuids e 0) g'), s'))"

subsection \<open>Diagnostics and statistics\<close>

definition check_actions :: "string list" where
  "check_actions = [''MONITORING_CHECK_EXECUTED'', ''TARGET_AUTO_SUSPENDED'', ''TARGET_SSRF_ABORTED'']"

record diagnostics =
  dg_uuid :: string
  dg_url :: string
  dg_is_active :: bool
  dg_consecutive_failures :: nat
  dg_last_checked_at :: "time option"
  dg_last_status_code :: "json option"
  dg_last_response_time_ms :: "json option"
  dg_last_error_message :: "string option"
  dg_last_prediction :: "string option"
  dg_last_confidence :: "rat option"

definition latest_check :: "string \<Rightarrow> store \<Rightarrow> audit option" where
  "latest_check uuid s =
     first_desc au_created_at
       (filter (\<lambda>a. au_resource_id a = uuid \<and> au_action a \<in> set check_actions) (st_audits s))"

definition audit_error :: "audit \<Rightarrow> string option" where
  \<comment> \<open>categories are stored as text\<close>
  "audit_error a =
     (if au_action a = ''TARGET_SSRF_ABORTED'' then Some ''SSRF outbound probe blocked''
      else case dict_get (au_details a) ''failure_category'' of
             Some (JStr (c # cs)) \<Rightarrow> Some (c # cs)
           | _ \<Rightarrow>
               if dict_get (au_details a) ''event_subtype'' = Some (JStr ''MONITORING_TARGET_UNREACHABLE'')
               then Some ''Probe network failure: target unreachable'' else None)"

definition get_target_diagnostics :: "string \<Rightarrow> user \<Rightarrow> store \<Rightarrow> monitor_error + diagnostics" where
  "get_target_diagnostics uuid u s =
     (case get_target_by_uuid uuid u s of
        None \<Rightarrow> Inl MonitorNotFoundError
      | Some g \<Rightarrow>
          let st = map_option JInt (tg_last_status_code g);
              lat = map_option JNum (tg_last_response_time_ms g);
              err = tg_last_error_message g;
              latest = (if st = None \<or> lat = None \<or> err = None then latest_check (tg_uuid g) s else None);
              a = (case latest of Some a \<Rightarrow> if au_details a = [] then None else Some a | None \<Rightarrow> None)
          in Inr \<lparr>dg_uuid = tg_uuid g, dg_url = tg_url g, dg_is_active = tg_is_active g,
               dg_consecutive_failures = tg_consecutive_failures g,
               dg_last_checked_at = tg_last_checked_at g,
               dg_last_status_code =
                 (case (st, a) of (None, Some a) \<Rightarrow> dict_get (au_details a) ''status_code'' | _ \<Rightarrow> st),
               dg_last_response_time_ms =
                 (case (lat, a) of (None, Some a) \<Rightarrow> dict_get (au_details a) ''latency_ms'' | _ \<Rightarrow> lat),
               dg_last_error_message = (case (err, a) of (None, Some a) \<Rightarrow> audit_error a | _ \<Rightarrow> err),
               dg_last_prediction = tg_last_prediction g, dg_last_confidence = tg_last_confidence g\<rparr>)"

record monitoring_stats =
  ms_total_targets :: nat
  ms_active_targets :: nat
  ms_paused_targets :: nat
  ms_suspended_targets :: nat
  ms_failing_targets :: nat
  ms_scheduler_leader :: "string option"
  ms_scheduler_epoch :: nat
  ms_active_workers :: nat
  ms_pool_capacity :: nat

definition count_where :: "(target \<Rightarrow> bool) \<Rightarrow> target list \<Rightarrow> nat" where
  "count_where p gs = length (filter p gs)"

definition get_monitoring_stats :: "user \<Rightarrow> nat \<Rightarrow> nat \<Rightarrow> store \<Rightarrow> monitoring_stats" where
  "get_monitoring_stats u workers capacity s =
     (let gs = visible_targets u s
      in \<lparr>ms_total_targets = length gs,
          ms_active_targets = count_where (\<lambda>g. tg_is_active g \<and> tg_consecutive_failures g < 5) gs,
          ms_paused_targets = count_where (\<lambda>g. \<not> tg_is_active g \<and> tg_consecutive_failures g < 5) gs,
          ms_suspended_targets = count_where (\<lambda>g. \<not> tg_is_active g \<and> tg_consecutive_failures g \<ge> 5) gs,
          ms_failing_targets = count_where (\<lambda>g. tg_is_active g \<and> tg_consecutive_failures g > 0) gs,
          ms_scheduler_leader = (case st_sched s of None \<Rightarrow> None | Some r \<Rightarrow> ss_leader_pod_id r),
          ms_scheduler_epoch = get_current_epoch s,
          ms_active_workers = workers, ms_pool_capacity = capacity\<rparr>)"

subsection \<open>Commands\<close>

datatype monitor_command =
    Register string int
  | Update string "int option" "bool option"
  | Delete string
  | Pause string
  | Resume string
  | Reactivate string
  | CheckNow string

record monitor_world =
  mw_psl :: "string \<Rightarrow> string \<times> string"
  mw_dns :: "string \<Rightarrow> string list option"
  mw_dialect :: dialect
  mw_config :: config

type_synonym monitor_call = "env \<times> bool \<times> user \<times> string option \<times> monitor_command"

definition run_monitor :: "monitor_world \<Rightarrow> monitor_call \<Rightarrow> store \<Rightarrow> store" where
  "run_monitor w mc s =
     (case mc of (e, ok, u, ip, cmd) \<Rightarrow>
        case cmd of
          Register url m \<Rightarrow> snd (register_target (mw_psl w) (mw_dns w) ok e url m u ip s)
        | Update i m a \<Rightarrow> snd (update_target ok e i m a u ip s)
        | Delete i \<Rightarrow> snd (delete_target ok e i u ip s)
        | Pause i \<Rightarrow> snd (pause_target ok e i u ip s)
        | Resume i \<Rightarrow> snd (resume_target ok e i u ip s)
        | Reactivate i \<Rightarrow> snd (reactivate_target ok e i u ip s)
        | CheckNow i \<Rightarrow> snd (trigger_check_now (mw_dialect w) (mw_config w) ok e i u ip s))"

definition monitor_actor :: "monitor_call \<Rightarrow> nat option" where
  "monitor_actor mc =
     (case mc of (e, ok, u, ip, cmd) \<Rightarrow> if is_admin u then None else Some (usr_id u))"

lemma target_audit_frame [simp]:
  "st_targets (target_audit e k a u rid d ip s) = st_targets s"
  "st_sched (target_audit e k a u rid d ip s) = st_sched s"
  "store_ids s \<Longrightarrow> store_ids (target_audit e k a u rid d ip s)"
  by (simp_all add: target_audit_def) (simp add: add_defs)

lemma get_target_Some:
  assumes "get_target_by_uuid uuid u s = Some g"
  shows "g \<in> set (st_targets s)" "tg_uuid g = uuid" "is_admin u \<or> tg_user_id g = usr_id u"
  using first_row_Some [OF assms [unfolded get_target_by_uuid_def]] by (auto simp: visible_targets_def)

text \<open>
  What a call does to the targets: nothing, or a new active target of the caller, or an update of
  one row that the caller may access, which keeps its id, its owner and its uuid.
\<close>

definition keeps_identity :: "(target \<Rightarrow> target) \<Rightarrow> bool" where
  "keeps_identity f \<longleftrightarrow>
     (\<forall>g. tg_id (f g) = tg_id g \<and> tg_user_id (f g) = tg_user_id g \<and> tg_uuid (f g) = tg_uuid g)"

definition call_update :: "monitor_world \<Rightarrow> monitor_call \<Rightarrow> store \<Rightarrow> target \<Rightarrow> target" where
  \<comment> \<open>the attribute assignments of a call\<close>
  "call_update w mc s =
     (case mc of (e, ok, u, ip, cmd) \<Rightarrow>
        case cmd of
          Register url m \<Rightarrow> (\<lambda>g. g)
        | Update i m a \<Rightarrow> update_attrs e m a
        | Delete i \<Rightarrow> (\<lambda>g. g\<lparr>tg_is_active := False\<rparr>)
        | Pause i \<Rightarrow> (\<lambda>g. g\<lparr>tg_is_active := False\<rparr>)
        | Resume i \<Rightarrow> (\<lambda>g. g\<lparr>tg_is_active := True, tg_next_check_at := now e\<rparr>)
        | Reactivate i \<Rightarrow>
            (\<lambda>g. g\<lparr>tg_consecutive_failures := 0, tg_is_active := True, tg_next_check_at := now e\<rparr>)
        | CheckNow i \<Rightarrow> lease_target (mw_config w) e (current_epoch_or_one s))"

lemma update_attrs_identity [simp]:
  "tg_id (update_attrs e m a g) = tg_id g" "tg_user_id (update_attrs e m a g) = tg_user_id g"
  "tg_uuid (update_attrs e m a g) = tg_uuid g"
  "tg_consecutive_failures (update_attrs e m a g) = tg_consecutive_failures g"
  by (auto simp: update_attrs_def Let_def split: option.splits)

lemma call_update_identity: "keeps_identity (call_update w mc s)"
  by (auto simp: keeps_identity_def call_update_def lease_target_def
      split: prod.splits monitor_command.splits)

definition call_uuid :: "monitor_command \<Rightarrow> string" where
  "call_uuid cmd =
     (case cmd of Register url m \<Rightarrow> [] | Update i m a \<Rightarrow> i | Delete i \<Rightarrow> i | Pause i \<Rightarrow> i
      | Resume i \<Rightarrow> i | Reactivate i \<Rightarrow> i | CheckNow i \<Rightarrow> i)"

definition call_guard :: "monitor_world \<Rightarrow> env \<Rightarrow> monitor_command \<Rightarrow> target \<Rightarrow> bool" where
  "call_guard w e cmd g =
     (case cmd of
        Register url m \<Rightarrow> False
      | Pause i \<Rightarrow> \<not> (tg_consecutive_failures g \<ge> 5 \<and> \<not> tg_is_active g)
      | Resume i \<Rightarrow> tg_consecutive_failures g < 5
      | CheckNow i \<Rightarrow> tg_is_active g \<and> lease_guard (mw_dialect w) e g
      | _ \<Rightarrow> True)"

lemma run_monitor_cases:
  fixes w mc s
  assumes "mc = (e, ok, u, ip, cmd)"
  obtains "run_monitor w mc s = s"
    | url m where "cmd = Register url m" "ok" "ssrf_validate (mw_dns w) url"
        "length (active_targets_of (usr_id u) s) < get_user_target_quota u"
        "st_targets (run_monitor w mc s) = st_targets s @
           [(new_target e url (target_domain (mw_psl w) url) m u)\<lparr>tg_id := sq_target s\<rparr>]"
        "store_ids s \<Longrightarrow> store_ids (run_monitor w mc s)"
    | g a d where "get_target_by_uuid (call_uuid cmd) u s = Some g" "ok" "call_guard w e cmd g"
        "run_monitor w mc s = target_audit e 0 a u (tg_uuid g) d ip (set_target (tg_id g) (call_update w mc s) s)"
proof -
  note elim = that
  note ops = run_monitor_def update_target_def delete_target_def pause_target_def resume_target_def
    reactivate_target_def trigger_check_now_def
  have row: thesis
    if r: "run_monitor w mc s = (case get_target_by_uuid (call_uuid cmd) u s of None \<Rightarrow> s
        | Some g \<Rightarrow> if p g then snd (commit_target ok e a u g (call_update w mc s) (d g) ip s) else s)"
      and p: "\<And>g. p g \<Longrightarrow> call_guard w e cmd g" for p a d
  proof (cases "get_target_by_uuid (call_uuid cmd) u s")
    case None
    then show ?thesis using r by (intro elim(1)) simp
  next
    case (Some g)
    show ?thesis
    proof (cases "ok \<and> p g")
      case True
      then show ?thesis
        using r Some p [of g] by (intro elim(3) [of g a "d g"]) (simp_all add: commit_target_def)
    next
      case False
      then show ?thesis using r Some by (intro elim(1)) (auto simp: commit_target_def)
    qed
  qed
  show thesis
  proof (cases cmd)
    case (Register url m)
    let ?go = "ssrf_validate (mw_dns w) url \<and> ok \<and>
      length (active_targets_of (usr_id u) s) < get_user_target_quota u"
    show ?thesis
    proof (cases ?go)
      case True
      then have go: "ssrf_validate (mw_dns w) url" "ok"
          "\<not> get_user_target_quota u \<le> length (active_targets_of (usr_id u) s)"
        by auto
      show ?thesis
      proof (rule elim(2) [OF Register])
        show "st_targets (run_monitor w mc s) = st_targets s @
            [(new_target e url (target_domain (mw_psl w) url) m u)\<lparr>tg_id := sq_target s\<rparr>]"
          "store_ids s \<Longrightarrow> store_ids (run_monitor w mc s)"
          by (simp_all add: assms Register run_monitor_def register_target_def Let_def go)
      qed (use go in auto)
    next
      case False
      then have "run_monitor w mc s = s"
        by (auto simp: assms Register run_monitor_def register_target_def)
      then show ?thesis by (rule elim(1))
    qed
  next
    case (Update i m a)
    show ?thesis
      by (rule row [where p = "\<lambda>g. update_changes e m a g \<noteq> []"])
        (auto simp: assms Update ops call_update_def call_uuid_def call_guard_def Let_def split: option.splits)
  next
    case (Delete i)
    show ?thesis
      by (rule row [where p = "\<lambda>g. True"])
        (auto simp: assms Delete ops call_update_def call_uuid_def call_guard_def split: option.splits)
  next
    case (Pause i)
    show ?thesis
      by (rule row [where p = "\<lambda>g. \<not> (tg_consecutive_failures g \<ge> 5 \<and> \<not> tg_is_active g)"])
        (auto simp: assms Pause ops call_update_def call_uuid_def call_guard_def split: option.splits)
  next
    case (Resume i)
    show ?thesis
      by (rule row [where p = "\<lambda>g. tg_consecutive_failures g < 5"])
        (auto simp: assms Resume ops call_update_def call_uuid_def call_guard_def split: option.splits)
  next
    case (Reactivate i)
    show ?thesis
      by (rule row [where p = "\<lambda>g. True"])
        (auto simp: assms Reactivate ops call_update_def call_uuid_def call_guard_def split: option.splits)
  next
    case (CheckNow i)
    show ?thesis
      by (rule row [where p = "\<lambda>g. tg_is_active g \<and> lease_guard (mw_dialect w) e g"
            and a = "''TARGET_CHECK_NOW_REQUESTED''" and d = "\<lambda>g. [(''target_uuid'', JStr i),
              (''url'', JStr (tg_url g)), (''execution_token'', JStr (uuids e 0)),
              (''execution_epoch'', JInt (int (current_epoch_or_one s)))]"])
        (auto simp: assms CheckNow ops call_update_def call_uuid_def call_guard_def Let_def
          split: option.splits sum.splits prod.splits)
  qed
qed

lemma run_monitor_ids [keeps]:
  assumes "store_ids s" shows "store_ids (run_monitor w mc s)"
proof -
  obtain e ok u ip cmd where mc: "mc = (e, ok, u, ip, cmd)" by (cases mc)
  show ?thesis
    using mc
  proof (cases rule: run_monitor_cases [where w = w and s = s])
    case (3 g a d)
    have "store_ids (set_target (tg_id g) (call_update w mc s) s)"
      using assms call_update_identity [of w mc s] by (intro store_ids_set) (auto simp: keeps_identity_def)
    then show ?thesis by (simp add: 3)
  qed (use assms in simp_all)
qed

lemma filter_upd_id:
  assumes "store_ids s" "g \<in> set (st_targets s)" "\<not> p g" "keeps_identity f"
    and "\<And>x y. tg_user_id x = tg_user_id y \<Longrightarrow> p x = p y"
  shows "filter p (upd_rows (\<lambda>x. tg_id x = tg_id g) f (st_targets s)) = filter p (st_targets s)"
  unfolding upd_rows_def
proof (rule filter_map_upd)
  fix x
  assume x: "x \<in> set (st_targets s)"
    and p: "p x \<or> p (if tg_id x = tg_id g then f x else x)"
  show "(if tg_id x = tg_id g then f x else x) = x"
  proof (cases "tg_id x = tg_id g")
    case True
    then have "x = g" using unique_by_eq [OF store_ids_targets [OF assms(1)] x assms(2)] by simp
    then show ?thesis using p assms(3) assms(5) [of "f g" g] assms(4) by (auto simp: keeps_identity_def)
  qed simp
qed

interpretation target_tenants: tenant_isolated "\<lambda>g. Some (tg_user_id g)" st_targets monitor_actor
  "run_monitor w" store_ids for w
proof unfold_locales
  fix s :: store and mc :: monitor_call
  assume "store_ids s" then show "store_ids (run_monitor w mc s)" by (rule run_monitor_ids)
next
  fix s :: store and mc :: monitor_call and u :: nat and v :: "nat option"
  assume s: "store_ids s" and act: "monitor_actor mc = Some u" and v: "v \<noteq> Some u"
  obtain e ok us ip cmd where mc: "mc = (e, ok, us, ip, cmd)" by (cases mc)
  have us: "\<not> is_admin us" "usr_id us = u"
    using act by (auto simp: monitor_actor_def mc split: if_splits)
  let ?p = "\<lambda>r. Some (tg_user_id r) = v"
  show "filter ?p (st_targets (run_monitor w mc s)) = filter ?p (st_targets s)"
    using mc
  proof (cases rule: run_monitor_cases [where w = w and s = s])
    case (2 url m)
    then show ?thesis using us v by (auto simp: new_target_def)
  next
    case (3 g a d)
    have "\<not> ?p g" using get_target_Some [OF 3(1)] us v by auto
    then show ?thesis
      using filter_upd_id [OF s get_target_Some(1) [OF 3(1)] _ call_update_identity, of ?p]
      by (simp add: 3(4))
  qed simp
qed

text \<open>
  Tenant isolation of monitoring.  Whatever other tenants register, update, delete, pause,
  resume, reactivate or check, a tenant's targets stay as they are.
\<close>

theorem targets_isolated:
  assumes "store_ids s"
    and "\<And>mc. mc \<in> set mcs \<Longrightarrow> \<exists>v. monitor_actor mc = Some v \<and> v \<noteq> u"
  shows "filter (\<lambda>g. tg_user_id g = u) (st_targets (fold (run_monitor w) mcs s)) =
         filter (\<lambda>g. tg_user_id g = u) (st_targets s)"
  using target_tenants.run_foreign [of s mcs "Some u" w] assms by force

text \<open>
  The quota gate of registration.  A registration that succeeds passed the network guard,
  found the caller below the quota, and adds exactly one active target of the caller, due at
  once; the caller then has at most the quota of active targets.  One that fails changes nothing.
\<close>

theorem register_within_quota:
  assumes "register_target psl dns ok e url m u ip s = (res, s')"
  shows "(\<forall>err. res = Inl err \<longrightarrow> s' = s) \<and>
    (\<forall>g. res = Inr g \<longrightarrow>
       ssrf_validate dns url \<and> st_targets s' = st_targets s @ [g] \<and> tg_user_id g = usr_id u \<and>
       tg_is_active g \<and> tg_next_check_at g = now e \<and> tg_url g = url \<and> tg_consecutive_failures g = 0 \<and>
       length (active_targets_of (usr_id u) s') = Suc (length (active_targets_of (usr_id u) s)) \<and>
       length (active_targets_of (usr_id u) s') \<le> get_user_target_quota u \<and>
       map au_action (st_audits s') = map au_action (st_audits s) @ [''MONITORING_TARGET_CREATED''])"
proof (cases res)
  case (Inl err)
  then show ?thesis using assms by (auto simp: register_target_def Let_def split: if_splits)
next
  case (Inr g)
  have go: "ssrf_validate dns url" "ok"
    "\<not> get_user_target_quota u \<le> length (active_targets_of (usr_id u) s)"
    using assms Inr by (auto simp: register_target_def split: if_splits)
  have g: "g = (new_target e url (target_domain psl url) m u)\<lparr>tg_id := sq_target s\<rparr>"
    using assms Inr by (simp add: register_target_def Let_def go)
  have t: "st_targets s' = st_targets s @ [g]"
    using assms by (auto simp: register_target_def Let_def go g)
  have a: "map au_action (st_audits s') = map au_action (st_audits s) @ [''MONITORING_TARGET_CREATED'']"
    using assms by (auto simp: register_target_def Let_def go target_audit_def)
  have f: "tg_user_id g = usr_id u" "tg_is_active g" "tg_next_check_at g = now e" "tg_url g = url"
    "tg_consecutive_failures g = 0"
    by (simp_all add: g new_target_def)
  have "length (active_targets_of (usr_id u) s') = Suc (length (active_targets_of (usr_id u) s))"
    by (simp add: active_targets_of_def t f)
  then show ?thesis using Inr go t a f by simp
qed

text \<open>
  The quota does not bind resumption.  A tenant that already has the full quota of active
  targets can resume one more paused target of its own, which then makes one above the quota.
\<close>

theorem resume_ignores_quota:
  assumes ids: "store_ids s" and g: "get_target_by_uuid uuid u s = Some g" "tg_user_id g = usr_id u"
    and p: "\<not> tg_is_active g" "tg_consecutive_failures g < 5"
    and full: "length (active_targets_of (usr_id u) s) = get_user_target_quota u"
  shows "length (active_targets_of (usr_id u) (snd (resume_target True e uuid u ip s))) =
         Suc (get_user_target_quota u)"
proof -
  let ?f = "\<lambda>g. g\<lparr>tg_is_active := True, tg_next_check_at := now e\<rparr>"
  have t: "st_targets (snd (resume_target True e uuid u ip s)) =
      upd_rows (\<lambda>x. tg_id x = tg_id g) ?f (st_targets s)"
    using p by (simp add: resume_target_def g commit_target_def)
  have "unique_by tg_id (st_targets s)" by (rule store_ids_targets [OF ids])
  moreover have "g \<in> set (st_targets s)" by (rule get_target_Some(1) [OF g(1)])
  ultimately have "length (filter (\<lambda>x. tg_user_id x = usr_id u \<and> tg_is_active x)
      (upd_rows (\<lambda>x. tg_id x = tg_id g) ?f rs)) =
      (if g \<in> set rs then 1 else 0) + length (filter (\<lambda>x. tg_user_id x = usr_id u \<and> tg_is_active x) rs)"
    if "unique_by tg_id rs" "set rs \<subseteq> set (st_targets s)" for rs
    using that
  proof (induction rs)
    case (Cons x rs)
    have u: "unique_by tg_id rs" "tg_id x \<notin> tg_id ` set rs" "set rs \<subseteq> set (st_targets s)"
      using Cons.prems(3,4) by (auto simp: unique_by_def)
    have same: "tg_id x = tg_id g \<longleftrightarrow> x = g"
      using unique_by_eq [OF Cons.prems(1)] Cons.prems(4,2) by auto
    show ?case
    proof (cases "x = g")
      case True
      then have "g \<notin> set rs" using u(2) by auto
      then show ?thesis using Cons.IH [OF Cons.prems(1) _ u(1,3)] Cons.prems(2) True g(2) p
        by (simp add: upd_rows_Cons)
    next
      case False
      then show ?thesis using Cons.IH [OF Cons.prems(1) _ u(1,3)] Cons.prems(2) same
        by (simp add: upd_rows_Cons)
    qed
  qed simp
  then show ?thesis
    using full store_ids_targets [OF ids] get_target_Some(1) [OF g(1)]
    by (simp add: active_targets_of_def t)
qed

subsection \<open>Suspension\<close>

definition suspended :: "target \<Rightarrow> bool" where
  "suspended g \<longleftrightarrow> \<not> tg_is_active g \<and> tg_consecutive_failures g \<ge> 5"

subsection \<open>On-demand checks and the scheduler\<close>

lemma check_now_success:
  assumes "trigger_check_now d c ok e uuid u ip s = (Inr ct, s')"
  obtains g where "get_target_by_uuid uuid u s = Some g" "tg_is_active g" "lease_guard d e g"
    "ct = claim_of (current_epoch_or_one s) (uuids e 0) (lease_target c e (current_epoch_or_one s) g)"
    "st_targets s' = upd_rows (\<lambda>x. tg_id x = tg_id g) (lease_target c e (current_epoch_or_one s)) (st_targets s)"
    "st_sched s' = st_sched s"
proof -
  obtain g where g: "get_target_by_uuid uuid u s = Some g"
    using assms by (auto simp: trigger_check_now_def split: option.splits)
  then have "tg_is_active g" "lease_guard d e g" "ok"
    using assms by (auto simp: trigger_check_now_def Let_def commit_target_def split: if_splits)
  then show ?thesis
    using assms g by (intro that [OF g]) (auto simp: trigger_check_now_def Let_def commit_target_def set_target_def)
qed

lemma lease_guard_expired: "lease_guard d e g \<longleftrightarrow> tg_is_active g \<and> lease_expired (now e) g"
  by (cases d) (auto simp: lease_guard_def lease_expired_def split: option.splits)

text \<open>
  An on-demand check and the scheduler never run the same target at once.  A check is granted
  only when no lease is live; afterwards, for as long as its lease lasts, neither the scheduler
  of any pod (whatever else the cluster does) nor another on-demand check gets the target.
\<close>

theorem check_now_exclusive:
  assumes ids: "store_ids s"
    and chk: "trigger_check_now d c ok e uuid u ip s = (Inr ct, s')"
    and quiet: "\<And>x. x \<in> set xs \<Longrightarrow>
      respects_lease (ct_target_id ct) (now e + seconds (cf_worker_lease_seconds c)) x"
    and soon: "now e' \<le> now e + seconds (cf_worker_lease_seconds c)"
  shows "(\<forall>g\<in>set (st_targets s). tg_id g = ct_target_id ct \<longrightarrow> tg_is_active g \<and> lease_expired (now e) g) \<and>
    ct_target_id ct \<notin> ct_target_id ` set (fst (claim_targets d' c' locked e' n
        (snd (fold (exec_op d') xs (lk, s'))))) \<and>
    fst (trigger_check_now d' c' ok' e' uuid u ip' s') = Inl MonitorLeaseConflictError"
proof -
  let ?n = "current_epoch_or_one s"
  from chk obtain g where g: "get_target_by_uuid uuid u s = Some g" "tg_is_active g" "lease_guard d e g"
    and ct: "ct = claim_of ?n (uuids e 0) (lease_target c e ?n g)"
    and t: "st_targets s' = upd_rows (\<lambda>x. tg_id x = tg_id g) (lease_target c e ?n) (st_targets s)"
    by (rule check_now_success)
  have gs: "g \<in> set (st_targets s)" by (rule get_target_Some(1) [OF g(1)])
  have i: "ct_target_id ct = tg_id g" by (simp add: ct claim_of_def lease_target_def)
  have only: "x = g" if "x \<in> set (st_targets s)" "tg_id x = tg_id g" for x
    using unique_by_eq [OF store_ids_targets [OF ids] that(1) gs that(2)] .
  have leased: "leased_until (ct_target_id ct) (now e + seconds (cf_worker_lease_seconds c)) s'"
    by (auto simp: leased_until_def t in_upd_rows i lease_target_def)
  have "leased_until (ct_target_id ct) (now e + seconds (cf_worker_lease_seconds c))
      (snd (fold (exec_op d') xs (lk, s')))"
    by (rule run_leased) (use leased quiet in auto)
  then have claims: "ct_target_id ct \<notin> ct_target_id ` set (fst (claim_targets d' c' locked e' n
        (snd (fold (exec_op d') xs (lk, s')))))"
    by (rule leased_not_claimed [OF _ soon])
  let ?g' = "lease_target c e ?n g"
  have keep: "filter (\<lambda>x. tg_uuid x = uuid) (visible_targets u s') =
      upd_rows (\<lambda>x. tg_id x = tg_id g) (lease_target c e ?n) (filter (\<lambda>x. tg_uuid x = uuid) (visible_targets u s))"
    unfolding visible_targets_def t by (induction "st_targets s")
      (auto simp: upd_rows_def filter_map o_def lease_target_def intro!: map_cong filter_cong)
  have "get_target_by_uuid uuid u s' = Some ?g'"
    using g(1) unfolding get_target_by_uuid_def keep
    by (auto simp: first_row_def upd_rows_def split: list.splits)
  moreover have "tg_is_active ?g'" "\<not> lease_guard d' e' ?g'"
    using g(2) soon by (simp_all add: lease_guard_expired lease_expired_def lease_target_def)
  ultimately have "fst (trigger_check_now d' c' ok' e' uuid u ip' s') = Inl MonitorLeaseConflictError"
    by (simp add: trigger_check_now_def)
  moreover have "tg_is_active x \<and> lease_expired (now e) x"
    if "x \<in> set (st_targets s)" "tg_id x = ct_target_id ct" for x
    using only [OF that(1)] that(2) i g(2,3) by (simp add: lease_guard_expired)
  ultimately show ?thesis using claims by blast
qed

text \<open>
  The two dialects of an on-demand check agree.  The row guard of PostgreSQL and the mutex with
  its explicit test of SQLite give the same answer and the same store, and both grant the lease
  exactly when the scheduler could have claimed the target.
\<close>

theorem check_now_dialects_agree:
  "trigger_check_now d c ok e uuid u ip s = trigger_check_now d' c ok e uuid u ip s \<and>
   (lease_guard d e g \<longleftrightarrow> claimable (now e) (g\<lparr>tg_next_check_at := now e\<rparr>))"
proof
  have eq: "lease_guard d e = lease_guard d' e" by (rule ext) (simp add: lease_guard_expired)
  show "trigger_check_now d c ok e uuid u ip s = trigger_check_now d' c ok e uuid u ip s"
    unfolding trigger_check_now_def eq ..
  show "lease_guard d e g \<longleftrightarrow> claimable (now e) (g\<lparr>tg_next_check_at := now e\<rparr>)"
    by (auto simp: lease_guard_expired claimable_def lease_expired_def split: option.splits)
qed

subsection \<open>Statistics\<close>

lemma count_where_split:
  "length gs = count_where (\<lambda>g. p g \<and> q g) gs + count_where (\<lambda>g. \<not> p g \<and> q g) gs +
     count_where (\<lambda>g. \<not> p g \<and> \<not> q g) gs + count_where (\<lambda>g. p g \<and> \<not> q g) gs"
  by (induction gs) (auto simp: count_where_def)

text \<open>
  What the counts of the statistics add up to.  The targets a caller sees are the active, the
  paused and the suspended ones of the response and, counted in none of the three, the active
  targets with five or more failures; the active ones of the response never exceed the targets of
  an ordinary user that the quota counts.
\<close>

theorem stats_partition:
  "ms_total_targets (get_monitoring_stats u w cap s) =
     ms_active_targets (get_monitoring_stats u w cap s) + ms_paused_targets (get_monitoring_stats u w cap s) +
     ms_suspended_targets (get_monitoring_stats u w cap s) +
     count_where (\<lambda>g. tg_is_active g \<and> tg_consecutive_failures g \<ge> 5) (visible_targets u s) \<and>
   (is_admin u \<or> ms_active_targets (get_monitoring_stats u w cap s) \<le> length (active_targets_of (usr_id u) s))"
proof
  show "ms_total_targets (get_monitoring_stats u w cap s) =
     ms_active_targets (get_monitoring_stats u w cap s) + ms_paused_targets (get_monitoring_stats u w cap s) +
     ms_suspended_targets (get_monitoring_stats u w cap s) +
     count_where (\<lambda>g. tg_is_active g \<and> tg_consecutive_failures g \<ge> 5) (visible_targets u s)"
    using count_where_split [of "visible_targets u s" tg_is_active "\<lambda>g. tg_consecutive_failures g < 5"]
    by (simp add: get_monitoring_stats_def Let_def not_less)
  show "is_admin u \<or> ms_active_targets (get_monitoring_stats u w cap s) \<le> length (active_targets_of (usr_id u) s)"
  proof (cases "is_admin u")
    case False
    have "count_where (\<lambda>g. tg_is_active g \<and> tg_consecutive_failures g < 5)
        (filter (\<lambda>g. tg_user_id g = usr_id u) gs) \<le>
        length (filter (\<lambda>g. tg_user_id g = usr_id u \<and> tg_is_active g) gs)" for gs
      by (induction gs) (auto simp: count_where_def)
    then show ?thesis using False
      by (simp add: get_monitoring_stats_def visible_targets_def active_targets_of_def Let_def)
  qed simp
qed

text \<open>
  A plain update revives a suspended target.  The update to active is not barred by the
  suspension as resumption is: the target becomes active and due at once and keeps its five
  failures, so that the statistics count it in none of their three classes.
\<close>

theorem update_revives_suspended:
  assumes g: "get_target_by_uuid uuid u s = Some g" "suspended g"
  shows "fst (update_target True e uuid None (Some True) u ip s) =
           Inr (g\<lparr>tg_next_check_at := now e, tg_is_active := True\<rparr>) \<and>
         fst (resume_target True e uuid u ip s) = Inl MonitorTargetSuspendedError \<and>
         g\<lparr>tg_next_check_at := now e, tg_is_active := True\<rparr> \<in>
           set (st_targets (snd (update_target True e uuid None (Some True) u ip s)))"
proof (intro conjI)
  have i: "\<not> tg_is_active g" "5 \<le> tg_consecutive_failures g" using g(2) by (simp_all add: suspended_def)
  have gs: "g \<in> set (st_targets s)" by (rule get_target_Some(1) [OF g(1)])
  show "fst (update_target True e uuid None (Some True) u ip s) =
      Inr (g\<lparr>tg_next_check_at := now e, tg_is_active := True\<rparr>)"
    using i by (simp add: update_target_def g(1) update_changes_def commit_target_def update_attrs_def)
  show "fst (resume_target True e uuid u ip s) = Inl MonitorTargetSuspendedError"
    using i by (simp add: resume_target_def g(1))
  show "g\<lparr>tg_next_check_at := now e, tg_is_active := True\<rparr> \<in>
      set (st_targets (snd (update_target True e uuid None (Some True) u ip s)))"
    using i gs by (auto simp: update_target_def g(1) update_changes_def commit_target_def
        update_attrs_def in_upd_rows intro!: bexI [of _ g])
qed

subsection \<open>Witnesses\<close>

definition paused_store :: store where
  \<comment> \<open>a paused, a suspended and an active target of \<open>alice\<close>\<close>
  "paused_store = empty_store\<lparr>st_targets :=
     [(sample_target 1 5)\<lparr>tg_uuid := ''t1'', tg_is_active := False\<rparr>,
      (sample_target 2 3)\<lparr>tg_uuid := ''t2'', tg_is_active := False, tg_consecutive_failures := 5\<rparr>,
      (sample_target 3 7)\<lparr>tg_uuid := ''t3''\<rparr>], sq_target := 4, st_sched := Some (sample_sched ''pod'' 90)\<rparr>"

definition full_store :: store where
  \<comment> \<open>a paused target of \<open>alice\<close> and twenty active ones\<close>
  "full_store = empty_store\<lparr>st_targets :=
     (sample_target 0 5)\<lparr>tg_uuid := ''t0'', tg_is_active := False\<rparr> #
     map (\<lambda>i. sample_target i 5) [1..<21], sq_target := 21\<rparr>"

definition sample_world :: monitor_world where
  "sample_world = \<lparr>mw_psl = sample_psl, mw_dns = (\<lambda>h. Some [''8.8.8.8'']), mw_dialect = Sqlite,
     mw_config = pod_a\<rparr>"

lemma paused_store_ids [simp]: "store_ids paused_store"
  by (simp add: paused_store_def store_ids_def cursor_ordered_def sample_target_def empty_store_def)

lemma full_store_ids [simp]: "store_ids full_store"
  by (simp add: full_store_def store_ids_def cursor_ordered_def sample_target_def empty_store_def o_def)

lemma paused_store_lookup:
  "get_target_by_uuid ''t1'' alice paused_store = Some ((sample_target 1 5)\<lparr>tg_uuid := ''t1'', tg_is_active := False\<rparr>)"
  "get_target_by_uuid ''t2'' alice paused_store =
     Some ((sample_target 2 3)\<lparr>tg_uuid := ''t2'', tg_is_active := False, tg_consecutive_failures := 5\<rparr>)"
  "get_target_by_uuid ''t3'' alice paused_store = Some ((sample_target 3 7)\<lparr>tg_uuid := ''t3''\<rparr>)"
  by (simp_all add: get_target_by_uuid_def visible_targets_def paused_store_def sample_target_def first_row_def)

theorem targets_isolated_witness:
  "filter (\<lambda>g. tg_user_id g = 1) (st_targets (fold (run_monitor sample_world)
     [(sample_env 10, True, bob, None, Delete ''t3''), (sample_env 11, True, bob, None, Resume ''t1'')] paused_store)) =
   filter (\<lambda>g. tg_user_id g = 1) (st_targets paused_store)"
  by (rule targets_isolated) (auto simp: monitor_actor_def)

theorem register_within_quota_witness:
  "\<exists>g s'. register_target sample_psl (\<lambda>h. Some [''8.8.8.8'']) True (sample_env 10) ''http://evil.com'' 60
     alice None paused_store = (Inr g, s') \<and> length (active_targets_of 1 s') = 2"
proof -
  obtain res s' where r: "register_target sample_psl (\<lambda>h. Some [''8.8.8.8'']) True (sample_env 10)
      ''http://evil.com'' 60 alice None paused_store = (res, s')" by fastforce
  have v: "ssrf_validate (\<lambda>h. Some [''8.8.8.8'']) ''http://evil.com''" by code_simp
  have a: "length (active_targets_of 1 paused_store) = 1"
    by (simp add: active_targets_of_def paused_store_def sample_target_def)
  obtain g where g: "res = Inr g"
    using r v a by (auto simp: register_target_def get_user_target_quota_def MAX_TARGETS_STANDARD_USER_def Let_def)
  show ?thesis using register_within_quota [OF r] a r unfolding g by simp
qed

theorem resume_ignores_quota_witness:
  "length (active_targets_of 1 (snd (resume_target True (sample_env 10) ''t0'' alice None full_store))) = 21"
proof -
  have g: "get_target_by_uuid ''t0'' alice full_store =
      Some ((sample_target 0 5)\<lparr>tg_uuid := ''t0'', tg_is_active := False\<rparr>)"
    by (simp add: get_target_by_uuid_def visible_targets_def full_store_def sample_target_def first_row_def)
  have full: "length (active_targets_of (usr_id alice) full_store) = get_user_target_quota alice"
    by (simp add: active_targets_of_def full_store_def sample_target_def get_user_target_quota_def
        MAX_TARGETS_STANDARD_USER_def filter_map o_def)
  show ?thesis
    using resume_ignores_quota [OF full_store_ids g _ _ _ full, of "sample_env 10" None]
    by (simp add: sample_target_def get_user_target_quota_def MAX_TARGETS_STANDARD_USER_def)
qed

theorem check_now_exclusive_witness:
  "\<exists>ct s'. trigger_check_now Sqlite pod_a True (sample_env 10) ''t3'' alice None paused_store = (Inr ct, s') \<and>
     fst (trigger_check_now Sqlite pod_b True (sample_env 20) ''t3'' alice None s') = Inl MonitorLeaseConflictError"
proof -
  have "lease_guard Sqlite (sample_env 10) ((sample_target 3 7)\<lparr>tg_uuid := ''t3''\<rparr>)"
    by (simp add: lease_guard_expired lease_expired_def sample_target_def)
  then obtain ct s' where r: "trigger_check_now Sqlite pod_a True (sample_env 10) ''t3'' alice None paused_store = (Inr ct, s')"
    by (auto simp: trigger_check_now_def paused_store_lookup commit_target_def Let_def sample_target_def)
  have "now (sample_env 20) \<le> now (sample_env 10) + seconds (cf_worker_lease_seconds pod_a)"
    by (simp add: seconds_def)
  then show ?thesis
    using check_now_exclusive [OF paused_store_ids r, of "[]" "sample_env 20"] r by simp
qed

theorem update_revives_suspended_witness:
  "fst (update_target True (sample_env 10) ''t2'' None (Some True) alice None paused_store) =
     Inr ((sample_target 2 10)\<lparr>tg_uuid := ''t2'', tg_consecutive_failures := 5\<rparr>)"
  using update_revives_suspended [OF paused_store_lookup(2), of "sample_env 10" None]
  by (simp add: suspended_def sample_target_def)

end
