(* ===== verification/Worker.thy ===== *)
theory Worker
  imports Monitoring Incidents Correlation Probe
begin

text \<open>
  \<open>MonitoringWorker\<close> of \<open>backend/services/monitoring_worker.py\<close>: one check of one claimed
  target.  The worker validates its lease, probes the URL, classifies the outcome, reports it (event,
  alert, incident) and writes the result back under the fence.  Each database transaction is one
  step; what other processes commit during the probe and between the report and the write-back
  is an argument (\<open>during\<close>, \<open>between\<close>), as are the answers of the network, the model's
  prediction and the point at which the outer time limit cuts the check.
\<close>

definition MAX_CONSECUTIVE_FAILURES :: nat where "MAX_CONSECUTIVE_FAILURES = 5"
definition MAX_BACKOFF_MINUTES :: int where "MAX_BACKOFF_MINUTES = 1440"

primrec ProbeFailureCategory_value :: "ProbeFailureCategory \<Rightarrow> string" where
  "ProbeFailureCategory_value SSRF_BLOCKED = ''SSRF_BLOCKED''"
| "ProbeFailureCategory_value DNS_FAILURE = ''DNS_FAILURE''"
| "ProbeFailureCategory_value CONNECTION_TIMEOUT = ''CONNECTION_TIMEOUT''"
| "ProbeFailureCategory_value TLS_VALIDATION_FAILURE = ''TLS_VALIDATION_FAILURE''"
| "ProbeFailureCategory_value HTTP_CLIENT_ERROR = ''HTTP_CLIENT_ERROR''"
| "ProbeFailureCategory_value HTTP_SERVER_ERROR = ''HTTP_SERVER_ERROR''"
| "ProbeFailureCategory_value REDIRECT_LIMIT = ''REDIRECT_LIMIT''"
| "ProbeFailureCategory_value RESPONSE_TOO_LARGE = ''RESPONSE_TOO_LARGE''"
| "ProbeFailureCategory_value UNKNOWN = ''UNKNOWN''"

subsection \<open>The worker's surroundings\<close>

datatype cut = InProbe nat | InInference | AtLock | AtIncidentLock
  \<comment> \<open>where the outer time limit or a cancellation ends the check: after so many connections of the
    probe, while the model runs, while the tenant's lock is awaited, or, when the alert is committed,
    while the incident lock is\<close>

record worker_world =
  ww_sha256 :: "string \<Rightarrow> string"
  ww_psl :: "string \<Rightarrow> string \<times> string"
  ww_json_size :: "dict \<Rightarrow> nat option"
  ww_network :: network
  ww_latency :: rat
  ww_budget :: "nat option"
  ww_inference :: "string \<Rightarrow> (string \<times> rat) option" \<comment> \<open>none when it raises or times out\<close>
  ww_race :: "(store \<Rightarrow> store) option"
    \<comment> \<open>the transaction that inserts the same alert first, when \<open>process_event\<close> loses that race\<close>
  ww_cut :: "cut option"

record outcome =
  wo_written :: bool \<comment> \<open>the result of \<open>execute_target\<close>\<close>
  wo_connects :: "connect list"
  wo_event :: "SecurityEvent option" \<comment> \<open>the emitted event\<close>

subsection \<open>The steps\<close>

definition validate_lease :: "env \<Rightarrow> nat \<Rightarrow> string \<Rightarrow> nat \<Rightarrow> store \<Rightarrow> bool" where
  "validate_lease e i token epoch s \<longleftrightarrow> list_ex (owns_lease (now e) i token epoch) (st_targets s)"

definition run_inference :: "worker_world \<Rightarrow> ProbeResult \<Rightarrow> string \<Rightarrow> string \<times> rat" where
  "run_inference w p url =
     (if pr_success p then (case ww_inference w url of None \<Rightarrow> (''UNKNOWN'', 0) | Some r \<Rightarrow> r)
      else (''UNKNOWN'', 0))"

definition classify_outcome ::
  "ProbeResult \<Rightarrow> string \<Rightarrow> rat \<Rightarrow> nat \<Rightarrow> EventType \<times> EventSeverity \<times> string \<times> bool \<times> nat" where
  "classify_outcome p prediction confidence failures =
     (if pr_failure_category p = Some SSRF_BLOCKED
      then (SYSTEM_AUDIT, CRITICAL, ''SSRF_OUTBOUND_PROBE_BLOCKED'', True, failures + 1)
      else if \<not> pr_success p then
        (if failures + 1 \<ge> MAX_CONSECUTIVE_FAILURES
         then (TARGET_STATUS_CHANGED, MEDIUM, ''MONITORING_TARGET_SUSPENDED'', True, failures + 1)
         else (TARGET_STATUS_CHANGED, LOW, ''MONITORING_TARGET_UNREACHABLE'', False, failures + 1))
      else if str_upper prediction = ''MALICIOUS'' \<and> confidence \<ge> 85 / 100
      then (HIGH_RISK_ENRICHMENT, CRITICAL, ''MONITORING_THREAT_MALICIOUS'', False, 0)
      else if str_upper prediction = ''MALICIOUS'' \<and> 60 / 100 \<le> confidence \<and> confidence < 85 / 100
      then (HIGH_RISK_ENRICHMENT, HIGH, ''MONITORING_THREAT_SUSPICIOUS'', False, 0)
      else if str_upper prediction \<in> {''ZERO_DAY'', ''ZERO-DAY''}
      then (ZERO_DAY_DETECTED, CRITICAL, ''MONITORING_ZERO_DAY_HYPOTHESIS'', False, 0)
      else if str_upper prediction = ''UNKNOWN''
      then (SYSTEM_AUDIT, LOW, ''MONITORING_INFERENCE_DEGRADED'', False, 0)
      else (SCAN_COMPLETED, INFO, ''MONITORING_ROUTINE_BENIGN'', False, 0))"

definition check_payload ::
  "ClaimedTarget \<Rightarrow> string \<Rightarrow> string \<Rightarrow> ProbeResult \<Rightarrow> string \<Rightarrow> rat \<Rightarrow> dict" where
  "check_payload ct uuid subtype p prediction confidence =
     [(''event_subtype'', JStr subtype), (''target_uuid'', JStr uuid),
      (''normalized_domain'', JStr (ct_normalized_domain ct)),
      (''status_code'', (case pr_status_code p of None \<Rightarrow> JNull | Some n \<Rightarrow> JInt n)),
      (''latency_ms'', JNum (pr_latency_ms p)), (''redirect_count'', JInt (int (pr_redirect_count p))),
      (''tls_valid'', (case pr_tls_valid p of None \<Rightarrow> JNull | Some b \<Rightarrow> JBool b)),
      (''prediction'', JStr prediction), (''confidence'', JNum confidence),
      (''failure_category'',
        json_str (map_option ProbeFailureCategory_value (pr_failure_category p)))]"

definition incident_title :: "ClaimedTarget \<Rightarrow> string" where
  "incident_title ct = ''Automated Threat Incident: '' @ ct_normalized_domain ct"

text \<open>
  The SOC pipeline: an alert for severities from HIGH, an incident for CRITICAL.  The alert is
  committed before the incident; an exception ends the check.
\<close>

definition soc_pipeline ::
  "worker_world \<Rightarrow> env \<Rightarrow> SecurityEvent \<Rightarrow> ClaimedTarget \<Rightarrow> string \<Rightarrow> store \<Rightarrow> bool \<times> store" where
  "soc_pipeline w e ev ct subtype s =
     (if \<not> (ev_severity ev \<in> {CRITICAL, HIGH} \<or> subtype = ''SSRF_OUTBOUND_PROBE_BLOCKED'') then (True, s)
      else if ww_cut w = Some AtLock then (False, s)
      else
        case process_event (ww_sha256 w) (ww_psl w) (map_option (\<lambda>f. f s) (ww_race w)) (env_shift 1 e) ev
               (Some ''MONITORING_THREAT_DETECTION'') None s of
          (Inl err, s1) \<Rightarrow> (False, s1)
        | (Inr (a, created), s1) \<Rightarrow>
            if \<not> (ev_severity ev = CRITICAL \<or> subtype = ''SSRF_OUTBOUND_PROBE_BLOCKED'') then (True, s1)
            else if ww_cut w = Some AtIncidentLock then (False, s1)
            else
              (True,
               snd (get_or_create_threat_incident (env_shift 7 e) (Some (ct_user_id ct))
                      (ct_normalized_domain ct) (EventSeverity_value (ev_severity ev))
                      (incident_title ct)
                      (Some (''Automated monitoring detected '' @ subtype @ '' on target '' @
                             ct_normalized_domain ct @ ''.''))
                      (Some (al_id a)) None s1)))"

definition report_outcome ::
  "worker_world \<Rightarrow> env \<Rightarrow> ClaimedTarget \<Rightarrow> EventType \<Rightarrow> EventSeverity \<Rightarrow> string \<Rightarrow> dict \<Rightarrow> store \<Rightarrow>
   bool \<times> SecurityEvent option \<times> store" where
  \<comment> \<open>whether the check goes on, and the emitted event\<close>
  "report_outcome w e ct etype sev subtype payload s =
     (case create_event (ww_json_size w) e (EventType_value etype) (EventSeverity_value sev)
             (IndicatorType_value URL) (ct_url ct) (Some (ct_user_id ct)) payload (Some (now e)) of
        Inl err \<Rightarrow> (False, None, s)
      | Inr ev \<Rightarrow> (case soc_pipeline w e ev ct subtype s of (ok, s') \<Rightarrow> (ok, Some ev, s')))"

definition effective_interval :: "int \<Rightarrow> nat \<Rightarrow> bool \<Rightarrow> int" where
  "effective_interval interval failures suspension =
     (if failures > 0 \<and> \<not> suspension
      then min (interval * 2 ^ min failures 5) MAX_BACKOFF_MINUTES else interval)"

definition suspension_of :: "ClaimedTarget \<Rightarrow> suspension" where
  \<comment> \<open>a \<open>ClaimedTarget\<close> has no \<open>target_uuid\<close>\<close>
  "suspension_of ct =
     \<lparr>su_user_id = ct_user_id ct, su_normalized_domain = ct_normalized_domain ct,
      su_url = ct_url ct, su_uuid = None\<rparr>"

definition suspend_target :: "env \<Rightarrow> ClaimedTarget \<Rightarrow> string \<Rightarrow> store \<Rightarrow> store" where
  "suspend_target e ct subtype s =
     snd (create_target_suspension_notification e (suspension_of ct) subtype
            (subtype = ''SSRF_OUTBOUND_PROBE_BLOCKED'')
            (set_target (ct_target_id ct) (\<lambda>g. g\<lparr>tg_is_active := False\<rparr>) s))"

definition audit_action :: "string \<Rightarrow> string" where
  "audit_action subtype =
     (if subtype = ''MONITORING_TARGET_SUSPENDED'' then ''TARGET_AUTO_SUSPENDED''
      else if subtype = ''SSRF_OUTBOUND_PROBE_BLOCKED'' then ''TARGET_SSRF_ABORTED''
      else ''MONITORING_CHECK_EXECUTED'')"

definition check_audit ::
  "env \<Rightarrow> time \<Rightarrow> ClaimedTarget \<Rightarrow> string \<Rightarrow> string \<Rightarrow> ProbeResult \<Rightarrow> string \<Rightarrow> rat \<Rightarrow> bool \<Rightarrow> nat \<Rightarrow>
   audit" where
  "check_audit e t ct uuid subtype p prediction confidence suspension failures =
     \<lparr>au_id = 0, au_uuid = uuids e 5, au_action = audit_action subtype,
      au_actor_user_id = Some (ct_user_id ct), au_target_resource = ''monitoring_target'',
      au_resource_id = uuid,
      au_details =
        [(''normalized_domain'', JStr (ct_normalized_domain ct)), (''event_subtype'', JStr subtype),
         (''prediction'', JStr prediction), (''confidence'', JNum confidence),
         (''status_code'', (case pr_status_code p of None \<Rightarrow> JNull | Some n \<Rightarrow> JInt n)),
         (''latency_ms'', JNum (pr_latency_ms p)),
         (''consecutive_failures'', JInt (int failures)), (''is_active'', JBool (\<not> suspension))],
      au_ip_address = None, au_created_at = t\<rparr>"

definition finish_check ::
  "env \<Rightarrow> time \<Rightarrow> ClaimedTarget \<Rightarrow> string \<Rightarrow> string \<Rightarrow> ProbeResult \<Rightarrow> string \<Rightarrow> rat \<Rightarrow> bool \<Rightarrow> nat \<Rightarrow>
   store \<Rightarrow> bool \<times> store" where
  \<comment> \<open>the fenced write-back, the suspension and the audit row\<close>
  "finish_check e t ct uuid subtype p prediction confidence suspension failures s =
     (case write_back_result e (ct_target_id ct) (ct_execution_token ct) (ct_execution_epoch ct)
             \<lparr>sr_last_checked_at = t,
              sr_interval_minutes =
                effective_interval (ct_check_interval_minutes ct) failures suspension,
              sr_last_prediction = prediction, sr_last_confidence = confidence,
              sr_consecutive_failures = failures\<rparr> s of
        (False, s1) \<Rightarrow> (False, s1)
      | (True, s1) \<Rightarrow>
          (True, add_audit (check_audit e t ct uuid subtype p prediction confidence suspension failures)
                   (if suspension then suspend_target e ct subtype s1 else s1)))"

subsection \<open>A check\<close>

text \<open>
  \<open>e1\<close>, \<open>e2\<close> and \<open>e3\<close> are the clock readings of the lease check, of the report and of the
  write-back.
\<close>

definition probe_of :: "worker_world \<Rightarrow> ClaimedTarget \<Rightarrow> ProbeResult option \<times> connect list" where
  "probe_of w ct = probe (ww_network w) (ww_latency w) (ww_budget w) (ct_url ct)"

definition failures_of :: "ClaimedTarget \<Rightarrow> store \<Rightarrow> nat" where
  "failures_of ct s =
     (case first_row (filter (\<lambda>g. tg_id g = ct_target_id ct) (st_targets s)) of
        None \<Rightarrow> 0 | Some g \<Rightarrow> tg_consecutive_failures g)"

definition uuid_of :: "ClaimedTarget \<Rightarrow> store \<Rightarrow> string" where
  "uuid_of ct s =
     (case first_row (filter (\<lambda>g. tg_id g = ct_target_id ct) (st_targets s)) of
        None \<Rightarrow> show_nat (ct_target_id ct) | Some g \<Rightarrow> tg_uuid g)"

definition after_probe ::
  "worker_world \<Rightarrow> env \<Rightarrow> env \<Rightarrow> (store \<Rightarrow> store) \<Rightarrow> ClaimedTarget \<Rightarrow> nat \<Rightarrow> string \<Rightarrow> connect list \<Rightarrow>
   ProbeResult \<Rightarrow> store \<Rightarrow> outcome \<times> store" where
  \<comment> \<open>classification, report and write-back\<close>
  "after_probe w e2 e3 between ct failures uuid cs p s =
     (let (prediction, confidence) = run_inference w p (ct_url ct);
          (etype, sev, subtype, suspension, n) = classify_outcome p prediction confidence failures
      in case report_outcome w e2 ct etype sev subtype
                (check_payload ct uuid subtype p prediction confidence) s of
           (go, ev, s2) \<Rightarrow>
             if \<not> go then (\<lparr>wo_written = False, wo_connects = cs, wo_event = ev\<rparr>, s2)
             else (case finish_check e3 (now e2) ct uuid subtype p prediction confidence
                          suspension n (between s2) of
                     (ok, s3) \<Rightarrow> (\<lparr>wo_written = ok, wo_connects = cs, wo_event = ev\<rparr>, s3)))"

definition execute_target ::
  "worker_world \<Rightarrow> env \<Rightarrow> env \<Rightarrow> env \<Rightarrow> (store \<Rightarrow> store) \<Rightarrow> (store \<Rightarrow> store) \<Rightarrow> ClaimedTarget \<Rightarrow> store \<Rightarrow>
   outcome \<times> store" where
  "execute_target w e1 e2 e3 during between ct s =
     (if \<not> validate_lease e1 (ct_target_id ct) (ct_execution_token ct) (ct_execution_epoch ct) s
      then (\<lparr>wo_written = False, wo_connects = [], wo_event = None\<rparr>, s)
      else
        case (ww_cut w, probe_of w ct) of
          (Some (InProbe k), (res, cs)) \<Rightarrow>
            (\<lparr>wo_written = False, wo_connects = take k cs, wo_event = None\<rparr>, during s)
        | (c, (None, cs)) \<Rightarrow> (\<lparr>wo_written = False, wo_connects = cs, wo_event = None\<rparr>, during s)
        | (c, (Some p, cs)) \<Rightarrow>
            if c = Some InInference \<and> pr_success p
            then (\<lparr>wo_written = False, wo_connects = cs, wo_event = None\<rparr>, during s)
            else after_probe w e2 e3 between ct (failures_of ct s) (uuid_of ct s) cs p (during s))"

subsection \<open>What a check does to the targets\<close>

definition alert_race :: "worker_world \<Rightarrow> bool" where
  \<comment> \<open>the transaction that wins the race inserts an alert, nothing else\<close>
  "alert_race w \<longleftrightarrow>
     (\<forall>f s. ww_race w = Some f \<longrightarrow> st_targets (f s) = st_targets s \<and> (store_ids s \<longrightarrow> store_ids (f s)))"

lemma process_retry_targets [simp]:
  "st_targets (snd (process_retry e rule fp ev s)) = st_targets s"
  by (simp add: process_retry_def Let_def split: option.splits)

lemma process_event_targets:
  assumes "process_event sha psl race e ev rule inc s = (r, s')"
    and "\<And>x. race = Some x \<Longrightarrow> st_targets x = st_targets s \<and> (store_ids s \<longrightarrow> store_ids x)"
  shows "st_targets s' = st_targets s" "store_ids s \<Longrightarrow> store_ids s'"
proof -
  have e: "s' = snd (process_event sha psl race e ev rule inc s)" by (simp add: assms(1))
  show "st_targets s' = st_targets s"
    unfolding e process_event_eq using assms(2)
    by (auto simp: Let_def split: option.split)
  show "store_ids s'" if "store_ids s"
    unfolding e process_event_eq using assms(2) that
    by (auto simp: Let_def intro: process_duplicate_ids process_new_ids process_retry_ids split: option.split)
qed

lemma threat_incident_targets [simp]:
  "st_targets (snd (get_or_create_threat_incident e uid dm sev title desc aid ip s)) = st_targets s"
  by (simp add: get_or_create_threat_incident_def link_alert_def incident_audit_def Let_def
      split: option.splits)

lemma threat_incident_ids:
  "store_ids s \<Longrightarrow> store_ids (snd (get_or_create_threat_incident e uid dm sev title desc aid ip s))"
  using threat_incident_cases(1) by (metis prod.collapse)

lemma soc_pipeline_targets:
  assumes "alert_race w" "soc_pipeline w e ev ct subtype s = (ok, s')"
  shows "st_targets s' = st_targets s" "store_ids s \<Longrightarrow> store_ids s'"
proof -
  obtain r s1 where pe: "process_event (ww_sha256 w) (ww_psl w) (map_option (\<lambda>f. f s) (ww_race w))
      (env_shift 1 e) ev (Some ''MONITORING_THREAT_DETECTION'') None s = (r, s1)" by fastforce
  have s1: "st_targets s1 = st_targets s" "store_ids s \<Longrightarrow> store_ids s1"
    by (rule process_event_targets [OF pe]; use assms(1) in \<open>auto simp: alert_race_def\<close>)+
  show "st_targets s' = st_targets s" "store_ids s \<Longrightarrow> store_ids s'"
    using assms(2) [unfolded soc_pipeline_def pe] s1 threat_incident_ids
    by (auto split: if_splits sum.splits)
qed

lemma report_targets:
  assumes "alert_race w" "report_outcome w e ct et sv subtype pl s = (ok, ev, s')"
  shows "st_targets s' = st_targets s" "store_ids s \<Longrightarrow> store_ids s'"
  using assms soc_pipeline_targets [OF assms(1)]
  by (auto simp: report_outcome_def split: sum.splits prod.splits)

lemma suspend_target_eq:
  \<comment> \<open>no notification is ever written: the missing attribute ends the attempt\<close>
  "suspend_target e ct subtype s = set_target (ct_target_id ct) (\<lambda>g. g\<lparr>tg_is_active := False\<rparr>) s"
  by (auto simp: suspend_target_def create_target_suspension_notification_def suspension_of_def Let_def
      split: option.splits)

lemma suspend_target_targets:
  "st_targets (suspend_target e ct subtype s) =
     upd_rows (\<lambda>g. tg_id g = ct_target_id ct) (\<lambda>g. g\<lparr>tg_is_active := False\<rparr>) (st_targets s)"
  "store_ids s \<Longrightarrow> store_ids (suspend_target e ct subtype s)"
  by (simp_all add: suspend_target_eq store_ids_set)

definition checked ::
  "time \<Rightarrow> ClaimedTarget \<Rightarrow> string \<Rightarrow> rat \<Rightarrow> bool \<Rightarrow> nat \<Rightarrow> target \<Rightarrow> target" where
  \<comment> \<open>the row after a check\<close>
  "checked t ct prediction confidence suspension failures g =
     (write_result \<lparr>sr_last_checked_at = t,
        sr_interval_minutes = effective_interval (ct_check_interval_minutes ct) failures suspension,
        sr_last_prediction = prediction, sr_last_confidence = confidence,
        sr_consecutive_failures = failures\<rparr> g)
     \<lparr>tg_is_active := tg_is_active g \<and> \<not> suspension\<rparr>"

lemma checked_simps [simp]:
  "tg_id (checked t ct pr c sp n g) = tg_id g" "tg_user_id (checked t ct pr c sp n g) = tg_user_id g"
  "tg_consecutive_failures (checked t ct pr c sp n g) = n" "tg_url (checked t ct pr c sp n g) = tg_url g"
  "tg_is_active (checked t ct pr c sp n g) \<longleftrightarrow> tg_is_active g \<and> \<not> sp"
  "tg_execution_token (checked t ct pr c sp n g) = None"
  "tg_next_check_at (checked t ct pr c sp n g) =
     t + minutes (effective_interval (ct_check_interval_minutes ct) n sp)"
  "tg_last_prediction (checked t ct pr c sp n g) = Some pr"
  by (simp_all add: checked_def write_result_def)

lemma owned_rows:
  assumes "store_ids s" "g \<in> set (st_targets s)" "owns_lease t i tk n g" "x \<in> set (st_targets s)"
  shows "owns_lease t i tk n x \<longleftrightarrow> tg_id x = i"
  using assms unique_by_eq [OF store_ids_targets [OF assms(1)] assms(4,2)] by (auto simp: owns_lease_def)

lemma finish_check_rows:
  assumes "store_ids s" "finish_check e t ct uuid subtype p pr c sp n s = (ok, s')"
  shows "store_ids s' \<and>
    (if ok then (\<exists>g\<in>set (st_targets s).
          owns_lease (now e) (ct_target_id ct) (ct_execution_token ct) (ct_execution_epoch ct) g) \<and>
        st_targets s' = upd_rows (\<lambda>g. tg_id g = ct_target_id ct) (checked t ct pr c sp n) (st_targets s)
     else s' = s)"
proof -
  let ?own = "owns_lease (now e) (ct_target_id ct) (ct_execution_token ct) (ct_execution_epoch ct)"
  let ?r = "\<lparr>sr_last_checked_at = t,
      sr_interval_minutes = effective_interval (ct_check_interval_minutes ct) n sp,
      sr_last_prediction = pr, sr_last_confidence = c, sr_consecutive_failures = n\<rparr>"
  show ?thesis
  proof (cases "\<exists>g\<in>set (st_targets s). ?own g")
    case True
    then obtain g where g: "g \<in> set (st_targets s)" "?own g" by blast
    let ?s1 = "s\<lparr>st_targets := upd_rows ?own (write_result ?r) (st_targets s)\<rparr>"
    have f: "finish_check e t ct uuid subtype p pr c sp n s =
        (True, add_audit (check_audit e t ct uuid subtype p pr c sp n)
                 (if sp then suspend_target e ct subtype ?s1 else ?s1))"
      using True by (simp add: finish_check_def write_back_result_def)
    have ids: "store_ids ?s1" using assms(1) by (auto simp: store_ids_def intro!: cursor_ordered_upd)
    have rows: "upd_rows ?own h (st_targets s) = upd_rows (\<lambda>g. tg_id g = ct_target_id ct) h (st_targets s)" for h
      unfolding upd_rows_def using owned_rows [OF assms(1) g] by (intro map_cong) auto
    have t: "st_targets s' = (if sp then upd_rows (\<lambda>g. tg_id g = ct_target_id ct) (\<lambda>g. g\<lparr>tg_is_active := False\<rparr>)
        (st_targets ?s1) else st_targets ?s1)"
      using assms(2) f suspend_target_targets(1) [of e ct subtype ?s1] by auto
    have "st_targets s' = upd_rows (\<lambda>g. tg_id g = ct_target_id ct) (checked t ct pr c sp n) (st_targets s)"
      unfolding t by (simp add: rows) (auto simp: upd_rows_def checked_def write_result_def)
    moreover have "store_ids s'"
      using assms(2) f ids suspend_target_targets(2) [OF ids, of e ct subtype] by auto
    ultimately show ?thesis using assms(2) f True by auto
  next
    case False
    then show ?thesis using assms by (auto simp: finish_check_def write_back_result_def)
  qed
qed

subsection \<open>The course of a check\<close>

definition keeps_ids :: "(store \<Rightarrow> store) \<Rightarrow> bool" where
  \<comment> \<open>what other processes commit keeps the ids of the tables\<close>
  "keeps_ids f \<longleftrightarrow> (\<forall>s. store_ids s \<longrightarrow> store_ids (f s))"

lemma keeps_ids_refl: "keeps_ids (\<lambda>s. s)"
  by (simp add: keeps_ids_def)

definition holds_lease :: "env \<Rightarrow> ClaimedTarget \<Rightarrow> store \<Rightarrow> bool" where
  "holds_lease e ct s = validate_lease e (ct_target_id ct) (ct_execution_token ct) (ct_execution_epoch ct) s"

lemma holds_lease_iff:
  "holds_lease e ct s \<longleftrightarrow>
     (\<exists>g\<in>set (st_targets s). owns_lease (now e) (ct_target_id ct) (ct_execution_token ct) (ct_execution_epoch ct) g)"
  by (auto simp: holds_lease_def validate_lease_def list_ex_iff)

lemma execute_cases:
  assumes "execute_target w e1 e2 e3 during between ct s = (r, s')"
  obtains (stale) "\<not> holds_lease e1 ct s" "r = \<lparr>wo_written = False, wo_connects = [], wo_event = None\<rparr>" "s' = s"
    | (ended) "holds_lease e1 ct s" "\<not> wo_written r" "wo_event r = None" "s' = during s"
        "set (wo_connects r) \<subseteq> set (snd (probe_of w ct))" "length (wo_connects r) \<le> length (snd (probe_of w ct))"
    | (reported) p pr c et sv subtype sp n go s2 where "holds_lease e1 ct s"
        "fst (probe_of w ct) = Some p" "run_inference w p (ct_url ct) = (pr, c)"
        "classify_outcome p pr c (failures_of ct s) = (et, sv, subtype, sp, n)"
        "wo_connects r = snd (probe_of w ct)"
        "report_outcome w e2 ct et sv subtype (check_payload ct (uuid_of ct s) subtype p pr c) (during s) =
           (go, wo_event r, s2)"
        "if go then finish_check e3 (now e2) ct (uuid_of ct s) subtype p pr c sp n (between s2) = (wo_written r, s')
         else \<not> wo_written r \<and> s' = s2"
proof (cases "holds_lease e1 ct s")
  case False
  then show thesis using assms by (intro stale) (auto simp: execute_target_def holds_lease_def)
next
  case True
  obtain res cs where pb: "probe_of w ct = (res, cs)" by fastforce
  note ex = assms [unfolded execute_target_def, folded holds_lease_def, unfolded pb]
  show thesis
  proof (cases "\<exists>p. res = Some p \<and> execute_target w e1 e2 e3 during between ct s =
      after_probe w e2 e3 between ct (failures_of ct s) (uuid_of ct s) cs p (during s)")
    case False
    have "\<not> wo_written r \<and> wo_event r = None \<and> s' = during s \<and> (\<exists>k. wo_connects r = take k cs \<or> wo_connects r = cs)"
      using ex False True
      by (auto simp: execute_target_def holds_lease_def pb split: option.splits cut.splits if_splits)
    then show thesis by (intro ended) (use True pb in \<open>auto dest: in_set_takeD\<close>)
  next
    case go: True
    then obtain p where p: "res = Some p"
      and a: "after_probe w e2 e3 between ct (failures_of ct s) (uuid_of ct s) cs p (during s) = (r, s')"
      using assms by auto
    obtain pr c where inf: "run_inference w p (ct_url ct) = (pr, c)" by fastforce
    obtain et sv subtype sp n where cl: "classify_outcome p pr c (failures_of ct s) = (et, sv, subtype, sp, n)"
      by (metis prod.collapse)
    obtain go ev s2 where rp: "report_outcome w e2 ct et sv subtype
        (check_payload ct (uuid_of ct s) subtype p pr c) (during s) = (go, ev, s2)"
      by (metis prod.collapse)
    have "wo_connects r = cs \<and> wo_event r = ev \<and> (if go
        then finish_check e3 (now e2) ct (uuid_of ct s) subtype p pr c sp n (between s2) = (wo_written r, s')
        else \<not> wo_written r \<and> s' = s2)"
      using a by (auto simp: after_probe_def inf cl rp split: prod.splits if_splits)
    then show thesis using rp by (intro reported [OF True _ inf cl]) (auto simp: pb p)
  qed
qed

subsection \<open>Properties\<close>

text \<open>
  A worker acts only under its lease.  If the row does not carry the claim's token and epoch
  with a live lease when the worker starts, it opens no connection, emits no event and changes
  nothing; and whatever it does under a lease stays inside the network guard.
\<close>

theorem worker_acts_only_under_lease:
  assumes "execute_target w e1 e2 e3 during between ct s = (r, s')"
  shows "(\<not> holds_lease e1 ct s \<longrightarrow> \<not> wo_written r \<and> wo_connects r = [] \<and> wo_event r = None \<and> s' = s) \<and>
         length (wo_connects r) \<le> 4 \<and>
         (\<forall>c\<in>set (wo_connects r). \<not> is_blocked_ip (cn_ip c) \<and>
            cn_port c \<in> set (get_allowed_ports (nw_ports_env (ww_network w))))"
proof -
  have "length (snd (probe_of w ct)) \<le> 4 \<and> (\<forall>c\<in>set (snd (probe_of w ct)). \<not> is_blocked_ip (cn_ip c) \<and>
            cn_port c \<in> set (get_allowed_ports (nw_ports_env (ww_network w))))"
    using probe_guarded [of "ww_network w" "ww_latency w" "ww_budget w" "ct_url ct"] by (simp add: probe_of_def)
  with assms show ?thesis by (cases rule: execute_cases) auto
qed

lemma worker_result_rows:
  assumes ids: "store_ids s" "keeps_ids during" "keeps_ids between"
    and race: "alert_race w" and run: "execute_target w e1 e2 e3 during between ct s = (r, s')"
  shows "store_ids s' \<and>
    (if wo_written r
     then holds_lease e1 ct s \<and>
       (\<exists>s2 p pr c et sv subtype sp n. st_targets s2 = st_targets (during s) \<and> holds_lease e3 ct (between s2) \<and>
          fst (probe_of w ct) = Some p \<and> run_inference w p (ct_url ct) = (pr, c) \<and>
          classify_outcome p pr c (failures_of ct s) = (et, sv, subtype, sp, n) \<and>
          st_targets s' = upd_rows (\<lambda>g. tg_id g = ct_target_id ct) (checked (now e2) ct pr c sp n)
                            (st_targets (between s2)))
     else \<exists>s2. st_targets s2 = st_targets (during s) \<and> (s' \<in> {s, during s, s2} \<or> s' = between s2))"
  using run
proof (cases rule: execute_cases)
  case (reported p pr c et sv subtype sp n go s2)
  have s2: "st_targets s2 = st_targets (during s)" "store_ids s2"
    by (rule report_targets [OF race reported(6)]; use ids in \<open>auto simp: keeps_ids_def\<close>)+
  show ?thesis
  proof (cases go)
    case True
    then have f: "finish_check e3 (now e2) ct (uuid_of ct s) subtype p pr c sp n (between s2) = (wo_written r, s')"
      using reported(7) by simp
    have g: "store_ids s' \<and> (if wo_written r
        then holds_lease e3 ct (between s2) \<and> st_targets s' =
          upd_rows (\<lambda>g. tg_id g = ct_target_id ct) (checked (now e2) ct pr c sp n) (st_targets (between s2))
        else s' = between s2)"
      using finish_check_rows [OF _ f] ids(3) s2(2) unfolding holds_lease_iff keeps_ids_def by blast
    then show ?thesis using reported(1-4) s2 by (auto split: if_splits)
  qed (use reported(7) s2 in auto)
qed (use ids in \<open>auto simp: keeps_ids_def\<close>)

lemma worker_result_course:
  assumes ids: "store_ids s" "keeps_ids during" "keeps_ids between"
    and race: "alert_race w" and run: "execute_target w e1 e2 e3 during between ct s = (r, s')" "wo_written r"
  shows "store_ids s' \<and>
    (\<exists>s2 p pr c et sv subtype sp n. st_targets s2 = st_targets (during s) \<and> store_ids s2 \<and>
       fst (probe_of w ct) = Some p \<and>
       classify_outcome p pr c (failures_of ct s) = (et, sv, subtype, sp, n) \<and>
       st_targets s' = upd_rows (\<lambda>g. tg_id g = ct_target_id ct) (checked (now e2) ct pr c sp n)
                         (st_targets (between s2)))"
  using run(1)
proof (cases rule: execute_cases)
  case (reported p pr c et sv subtype sp n go s2)
  have go: go and f: "finish_check e3 (now e2) ct (uuid_of ct s) subtype p pr c sp n (between s2) = (True, s')"
    using reported(7) run(2) by (auto split: if_splits)
  have s2: "st_targets s2 = st_targets (during s)" "store_ids s2"
    by (rule report_targets [OF race reported(6)]; use ids in \<open>auto simp: keeps_ids_def\<close>)+
  have "store_ids s' \<and> st_targets s' =
      upd_rows (\<lambda>g. tg_id g = ct_target_id ct) (checked (now e2) ct pr c sp n) (st_targets (between s2))"
    using finish_check_rows [OF _ f] ids(3) s2(2) unfolding keeps_ids_def by simp
  then show ?thesis using s2 reported(2,4) by blast
qed (use run(2) in simp_all)


text \<open>
  A target with a long URL is never checked.  Registration accepts URLs of up to 2048
  characters, an event at most 512; the exception leaves a longer target without result, event,
  failure count and suspension, so that it is claimed and probed again whenever its lease ends.
\<close>

theorem long_url_never_checked:
  assumes long: "length (ct_url ct) > MAX_INDICATOR_VALUE_LENGTH"
    and run: "execute_target w e1 e2 e3 (\<lambda>x. x) (\<lambda>x. x) ct s = (r, s')"
  shows "\<not> wo_written r \<and> wo_event r = None \<and> s' = s \<and>
    (\<forall>g\<in>set (st_targets s'). tg_is_active g \<and> tg_next_check_at g \<le> t \<and>
       (\<exists>x. tg_execution_expires_at g = Some x \<and> x < t) \<longrightarrow> claimable t g)"
proof -
  have "report_outcome w e2 ct et sv subtype pl s = (False, None, s)" for et sv subtype pl
    using long by (simp add: report_outcome_def create_event_def validate_indicator_value_def split: option.splits)
  note none = this
  from run have "\<not> wo_written r \<and> wo_event r = None \<and> s' = s"
    by (cases rule: execute_cases) (use none in auto)
  then show ?thesis by (auto simp: claimable_def lease_expired_def)
qed

subsection \<open>Backoff\<close>

lemma effective_interval_bounds:
  assumes "1 \<le> m" "m \<le> MAX_BACKOFF_MINUTES"
  shows "m \<le> effective_interval m n sp" "effective_interval m n sp \<le> MAX_BACKOFF_MINUTES"
proof -
  have "m * 1 \<le> m * 2 ^ min n 5" by (rule mult_left_mono) (use assms(1) in simp_all)
  then show "m \<le> effective_interval m n sp" "effective_interval m n sp \<le> MAX_BACKOFF_MINUTES"
    using assms(2) by (auto simp: effective_interval_def)
qed

text \<open>
  The backoff.  The interval to the next check never falls below the target's own interval
  nor exceeds a day, grows with every failure, and is the plain interval again after a success;
  each of the first failures doubles it until the day is reached.
\<close>

theorem backoff_bounded_and_monotone:
  assumes "1 \<le> m" "m \<le> MAX_BACKOFF_MINUTES"
  shows "m \<le> effective_interval m n sp \<and> effective_interval m n sp \<le> MAX_BACKOFF_MINUTES \<and>
    effective_interval m 0 sp = m \<and>
    (n \<le> k \<longrightarrow> effective_interval m n False \<le> effective_interval m k False) \<and>
    (n < 5 \<and> effective_interval m (Suc n) False < MAX_BACKOFF_MINUTES \<longrightarrow>
       effective_interval m (Suc n) False = 2 * effective_interval m n False)"
proof -
  have mono: "effective_interval m n False \<le> effective_interval m k False" if "n \<le> k"
  proof (cases "n = 0")
    case True
    then show ?thesis using effective_interval_bounds(1) [OF assms, of k False]
      by (simp add: effective_interval_def)
  next
    case False
    have "m * 2 ^ min n 5 \<le> m * 2 ^ min k 5"
      using assms(1) that by (intro mult_left_mono power_increasing) auto
    then show ?thesis using False that by (auto simp: effective_interval_def min_def)
  qed
  have double: "effective_interval m (Suc n) False = 2 * effective_interval m n False"
    if a: "n < 5" "effective_interval m (Suc n) False < MAX_BACKOFF_MINUTES"
  proof -
    define q where "q = m * 2 ^ n"
    have q: "m * 2 ^ Suc n = 2 * q" "0 \<le> q" using assms(1) by (simp_all add: q_def)
    have e: "effective_interval m (Suc n) False = min (2 * q) MAX_BACKOFF_MINUTES"
      using a(1) unfolding effective_interval_def q(1) [symmetric] by simp
    then have lt: "2 * q < MAX_BACKOFF_MINUTES" using a(2) by simp
    have "effective_interval m n False = q"
    proof (cases "n = 0")
      case False
      then show ?thesis using a(1) lt q(2) by (simp add: effective_interval_def q_def min_def)
    qed (simp add: effective_interval_def q_def)
    then show ?thesis using e lt by simp
  qed
  have "effective_interval m 0 sp = m" by (simp add: effective_interval_def)
  then show ?thesis using effective_interval_bounds [OF assms] mono double by blast
qed

subsection \<open>Five strikes\<close>

text \<open>
  A round is a claim of target \<open>i\<close> by some scheduler and a check of it by a worker whose result is
  accepted, with its verdict.  Other processes may act before the lease check, during the probe and
  between report and write-back, as well as between the rounds, in any way that leaves the activity and
  the failure count of the target alone; checks whose result is refused are among them.
\<close>

datatype verdict = Passed | Failed | Blocked

definition verdict_of :: "ProbeResult \<Rightarrow> verdict" where
  "verdict_of p =
     (if pr_failure_category p = Some SSRF_BLOCKED then Blocked else if pr_success p then Passed else Failed)"

definition leaves_target :: "nat \<Rightarrow> store \<Rightarrow> store \<Rightarrow> bool" where
  "leaves_target i s s' \<longleftrightarrow> (store_ids s \<longrightarrow> store_ids s' \<and>
     (\<forall>g\<in>set (st_targets s). tg_id g = i \<longrightarrow>
        (\<exists>h\<in>set (st_targets s'). tg_id h = i \<and> tg_is_active h = tg_is_active g \<and>
           tg_consecutive_failures h = tg_consecutive_failures g)))"

inductive check_round :: "dialect \<Rightarrow> nat \<Rightarrow> verdict \<Rightarrow> store \<Rightarrow> store \<Rightarrow> bool" for d i where
  round: "ct \<in> set (fst (claim_targets d c locked e n s)) \<Longrightarrow> ct_target_id ct = i \<Longrightarrow> alert_race w \<Longrightarrow>
    leaves_target i (snd (claim_targets d c locked e n s)) s1 \<Longrightarrow>
    \<forall>x. leaves_target i x (during x) \<Longrightarrow> \<forall>x. leaves_target i x (between x) \<Longrightarrow>
    execute_target w e1 e2 e3 during between ct s1 = (r, s') \<Longrightarrow>
    wo_written r \<Longrightarrow> fst (probe_of w ct) = Some p \<Longrightarrow> check_round d i (verdict_of p) s s'"

inductive check_rounds :: "dialect \<Rightarrow> nat \<Rightarrow> verdict list \<Rightarrow> store \<Rightarrow> store \<Rightarrow> bool" for d i where
  none: "check_rounds d i [] s s"
| more: "check_rounds d i vs s s' \<Longrightarrow> check_round d i v s' s'' \<Longrightarrow> check_rounds d i (vs @ [v]) s s''"
| others: "check_rounds d i vs s s' \<Longrightarrow> leaves_target i s' s'' \<Longrightarrow> check_rounds d i vs s s''"

inductive_cases check_roundE: "check_round d i v s s'"

definition strikes :: "nat \<Rightarrow> verdict list \<Rightarrow> nat" where
  \<comment> \<open>the failures since the last success, when there were \<open>k\<close> before\<close>
  "strikes k vs = foldl (\<lambda>k v. if v = Passed then 0 else Suc k) k vs"

lemma strikes_snoc [simp]: "strikes k [] = k" "strikes k (vs @ [v]) = (if v = Passed then 0 else Suc (strikes k vs))"
  by (simp_all add: strikes_def)

definition stays_active :: "nat \<Rightarrow> verdict list \<Rightarrow> bool" where
  "stays_active k vs \<longleftrightarrow> vs = [] \<or> last vs = Passed \<or> last vs = Failed \<and> strikes k vs < 5"

lemma failures_of_row:
  assumes "store_ids s" "g \<in> set (st_targets s)" "tg_id g = ct_target_id ct"
  shows "failures_of ct s = tg_consecutive_failures g"
proof -
  let ?rs = "filter (\<lambda>x. tg_id x = ct_target_id ct) (st_targets s)"
  have only: "x = g" if "x \<in> set ?rs" for x
  proof -
    have x: "x \<in> set (st_targets s)" "tg_id x = tg_id g" using that assms(3) by auto
    show ?thesis by (rule unique_by_eq [OF store_ids_targets [OF assms(1)] x(1) assms(2) x(2)])
  qed
  have "g \<in> set ?rs" using assms(2,3) by simp
  then have "first_row ?rs \<noteq> None" unfolding first_row_None by (metis empty_iff list.set(1))
  then obtain x where x: "first_row ?rs = Some x" by blast
  have "x = g" by (rule only [OF first_row_Some [OF x]])
  then show ?thesis using x by (simp add: failures_of_def)
qed

lemma classify_failures:
  assumes "classify_outcome p pr c f = (et, sv, subtype, sp, n)"
  shows "n = (if verdict_of p = Passed then 0 else Suc f)"
    "sp \<longleftrightarrow> verdict_of p = Blocked \<or> verdict_of p = Failed \<and> 5 \<le> Suc f"
  using assms by (auto simp: classify_outcome_def verdict_of_def MAX_CONSECUTIVE_FAILURES_def split: if_splits)

lemma leaves_row:
  assumes "leaves_target i s s'" "store_ids s" "g \<in> set (st_targets s)" "tg_id g = i"
  obtains h where "store_ids s'" "h \<in> set (st_targets s')" "tg_id h = i" "tg_is_active h = tg_is_active g"
    "tg_consecutive_failures h = tg_consecutive_failures g"
  using assms unfolding leaves_target_def by blast

lemma leaves_keeps_ids: "\<forall>x. leaves_target i x (f x) \<Longrightarrow> keeps_ids f"
  by (simp add: leaves_target_def keeps_ids_def)

lemma claimed_row:
  assumes "ct \<in> set (fst (claim_targets d c locked e n s))" "ct_target_id ct = i"
    and "store_ids s" "g \<in> set (st_targets s)" "tg_id g = i"
  shows "tg_is_active g"
    "\<exists>h\<in>set (st_targets (snd (claim_targets d c locked e n s))). tg_id h = i \<and> tg_is_active h \<and>
       tg_consecutive_failures h = tg_consecutive_failures g"
proof -
  let ?s1 = "snd (claim_targets d c locked e n s)"
  have sub: "set (claim_candidates d c locked e s) \<subseteq> set (st_targets s)" using set_claim_candidates by blast
  obtain x where x: "x \<in> set (claim_candidates d c locked e s)" "ct = claim_of n (ct_execution_token ct) x"
      "take_lease c e n (ct_execution_token ct) x \<in> set (st_targets ?s1)"
    using claim_rows_leased [OF claim_candidates_distinct [OF assms(3)] sub assms(1) [unfolded claim_targets_eq]]
    unfolding claim_targets_eq [symmetric] by blast
  have i: "tg_id x = i" using x(2) assms(2) by (metis ClaimedTarget.select_convs(1) claim_of_def)
  have xs: "x \<in> set (st_targets s)" using sub x(1) by blast
  have xg: "x = g" by (rule unique_by_eq [OF store_ids_targets [OF assms(3)] xs assms(4)]) (simp add: i assms(5))
  show act: "tg_is_active g" using set_claim_candidates [OF x(1)] by (simp add: claimable_def xg)
  show "\<exists>h\<in>set (st_targets ?s1). tg_id h = i \<and> tg_is_active h \<and> tg_consecutive_failures h = tg_consecutive_failures g"
    using x(3) i act by (intro bexI [of _ "take_lease c e n (ct_execution_token ct) g"]) (simp_all add: xg take_lease_def)
qed

lemma check_round_row:
  assumes "check_round d i v s s'" "store_ids s" "g \<in> set (st_targets s)" "tg_id g = i"
  shows "store_ids s' \<and> tg_is_active g \<and>
    (\<exists>h\<in>set (st_targets s'). tg_id h = i \<and>
       tg_consecutive_failures h = (if v = Passed then 0 else Suc (tg_consecutive_failures g)) \<and>
       (tg_is_active h \<longleftrightarrow> v = Passed \<or> v = Failed \<and> Suc (tg_consecutive_failures g) < 5))"
proof -
  from assms(1) obtain ct c locked e n w e1 e2 e3 s1 during between r p where 1:
      "ct \<in> set (fst (claim_targets d c locked e n s))" "ct_target_id ct = i" "alert_race w"
      "leaves_target i (snd (claim_targets d c locked e n s)) s1"
      "\<forall>x. leaves_target i x (during x)" "\<forall>x. leaves_target i x (between x)"
      "execute_target w e1 e2 e3 during between ct s1 = (r, s')"
      "wo_written r" "fst (probe_of w ct) = Some p" "v = verdict_of p"
    by (rule check_roundE)
  have ids0: "store_ids (snd (claim_targets d c locked e n s))" by (rule claim_targets_store_ids [OF assms(2)])
  obtain h0 where h0: "h0 \<in> set (st_targets (snd (claim_targets d c locked e n s)))" "tg_id h0 = i" "tg_is_active h0"
      "tg_consecutive_failures h0 = tg_consecutive_failures g"
    using claimed_row(2) [OF 1(1,2) assms(2-4)] by blast
  obtain h1 where h1: "store_ids s1" "h1 \<in> set (st_targets s1)" "tg_id h1 = i" "tg_is_active h1"
      "tg_consecutive_failures h1 = tg_consecutive_failures g"
    by (rule leaves_row [OF 1(4) ids0 h0(1,2)]) (use h0 in simp)
  obtain h2 where h2: "store_ids (during s1)" "h2 \<in> set (st_targets (during s1))" "tg_id h2 = i" "tg_is_active h2"
      "tg_consecutive_failures h2 = tg_consecutive_failures g"
    by (rule leaves_row [OF 1(5) [rule_format] h1(1-3)]) (use h1 in simp)
  note res = worker_result_course [OF h1(1) leaves_keeps_ids [OF 1(5)] leaves_keeps_ids [OF 1(6)] 1(3,7,8)]
  from res obtain s2 :: store and pa pr cf et sv subtype sp k where s2: "st_targets s2 = st_targets (during s1)" "store_ids s2"
    and pb: "fst (probe_of w ct) = Some pa"
    and w: "classify_outcome pa pr cf (failures_of ct s1) = (et, sv, subtype, sp, k)"
      "st_targets s' = upd_rows (\<lambda>g. tg_id g = ct_target_id ct) (checked (now e2) ct pr cf sp k) (st_targets (between s2))"
    by blast
  obtain h3 where h3: "h3 \<in> set (st_targets (between s2))" "tg_id h3 = i" "tg_is_active h3"
    using leaves_row [OF 1(6) [rule_format] s2(2), of h2] h2 s2(1) by metis
  have pa: "p = pa" using pb 1(9) by simp
  have f: "failures_of ct s1 = tg_consecutive_failures g"
    using failures_of_row [OF h1(1,2)] h1(3,5) 1(2) by simp
  have k: "k = (if v = Passed then 0 else Suc (tg_consecutive_failures g))"
      "sp \<longleftrightarrow> v = Blocked \<or> v = Failed \<and> 5 \<le> Suc (tg_consecutive_failures g)"
    using classify_failures [OF w(1) [folded pa]] 1(10) f by simp_all
  have "checked (now e2) ct pr cf sp k h3 \<in> set (st_targets s')"
    using h3(1,2) 1(2) unfolding w(2) by (auto simp: in_upd_rows)
  moreover have "\<not> sp \<longleftrightarrow> v = Passed \<or> v = Failed \<and> Suc (tg_consecutive_failures g) < 5"
    unfolding k(2) by (cases v) auto
  ultimately show ?thesis
    using claimed_row(1) [OF 1(1,2) assms(2-4)] res k(1) h3 by (intro conjI bexI) auto
qed

text \<open>
  C5: five strikes.  Start from an active target with any failure count, and let it be checked any
  number of times, each result being accepted, while the other processes do what they like as long as
  they leave the activity and the failure count of the target alone.  Its count is then the number of
  failed and refused checks since the last one that passed (with those it had before, when none has).
  It is active exactly when the last check passed, or failed with a count below five: so the fifth
  failure in a row suspends it, and a check that the SSRF guard refused suspends it at once.  No check
  follows while it is suspended, so that from a count below five it never gets beyond five; and one
  success starts the count again.
\<close>

theorem five_strikes:
  assumes "check_rounds d i vs s s'" "store_ids s"
    and "g \<in> set (st_targets s)" "tg_id g = i" "tg_is_active g" "tg_consecutive_failures g = k"
  shows "(\<exists>h\<in>set (st_targets s'). tg_id h = i \<and> tg_consecutive_failures h = strikes k vs \<and>
            (tg_is_active h \<longleftrightarrow> stays_active k vs)) \<and>
         (\<not> stays_active k vs \<longrightarrow> (\<forall>v t. \<not> check_round d i v s' t)) \<and>
         (k < 5 \<longrightarrow> strikes k vs \<le> 5)"
proof -
  have run: "store_ids s' \<and> (\<exists>h\<in>set (st_targets s'). tg_id h = i \<and> tg_consecutive_failures h = strikes k vs \<and>
            (tg_is_active h \<longleftrightarrow> stays_active k vs)) \<and> (k < 5 \<longrightarrow> strikes k vs \<le> 5)"
    using assms
  proof (induction rule: check_rounds.induct)
    case (more vs s s' v s'')
    then obtain h where h: "store_ids s'" "h \<in> set (st_targets s')" "tg_id h = i" "tg_consecutive_failures h = strikes k vs"
        "tg_is_active h \<longleftrightarrow> stays_active k vs" by auto
    note row = check_round_row [OF more(2) h(1-3)]
    then have "stays_active k vs" using h(5) by blast
    then have "k < 5 \<longrightarrow> strikes k vs < 5 \<or> vs \<noteq> [] \<and> last vs = Passed" by (auto simp: stays_active_def)
    then have "k < 5 \<longrightarrow> strikes k vs < 5"
      by (cases vs rule: rev_cases) auto
    then show ?case using row h(4) by (auto simp: stays_active_def)
  next
    case (others vs s s' s'')
    then obtain h where "store_ids s'" "h \<in> set (st_targets s')" "tg_id h = i" "tg_consecutive_failures h = strikes k vs"
        "tg_is_active h \<longleftrightarrow> stays_active k vs" by auto
    then show ?case using others by (auto elim!: leaves_row)
  qed (auto simp: stays_active_def)
  then obtain h where h: "store_ids s'" "h \<in> set (st_targets s')" "tg_id h = i" "tg_is_active h \<longleftrightarrow> stays_active k vs"
    by blast
  have "\<not> check_round d i v s' t" if "\<not> stays_active k vs" for v t
    using check_round_row [OF _ h(1-3)] h(4) that by blast
  then show ?thesis using run by blast
qed

subsection \<open>Threats\<close>

lemma threat_incident_links:
  assumes "get_or_create_threat_incident e uid dm sev title desc (Some k) ip s = ((j, c), s')" "0 < k"
  shows "st_alerts s' = upd_rows (\<lambda>a. al_id a = k) (al_incident_id_update (\<lambda>_. Some (in_id j))) (st_alerts s)"
  using assms
  by (auto simp: get_or_create_threat_incident_def Let_def truthy_nat_def escalate_incident_def
      split: option.splits if_splits)

lemma process_event_row:
  assumes "store_ids s" "process_event sha psl None e ev rule inc s = (Inr (a, c), s')"
  shows "a \<in> set (st_alerts s')" "al_user_id a = ev_user_id ev" "al_last_seen_at a = now e"
    "al_id a = sq_alert s \<or> (\<exists>b\<in>set (st_alerts s). al_id a = al_id b)"
proof -
  have "a \<in> set (st_alerts s') \<and> al_user_id a = ev_user_id ev \<and> al_last_seen_at a = now e \<and>
      (al_id a = sq_alert s \<or> (\<exists>b\<in>set (st_alerts s). al_id a = al_id b))"
    using assms(2)
  proof (cases rule: process_event_cases)
    case (duplicate b)
    let ?f = "dedup_update e (event_fingerprint sha psl rule ev) ev inc"
    have b: "b \<in> set (st_alerts s)" "al_user_id b = ev_user_id ev"
      using dedup_candidates_set first_desc_Some [OF duplicate(1)] by (auto simp: event_candidates_def)
    have "?f b \<in> set (upd_rows (\<lambda>x. al_id x = al_id b) ?f (st_alerts s))"
      using b(1) by (auto simp: in_upd_rows)
    then show ?thesis using duplicate(2,3) b by (auto simp: dedup_update_def)
  next
    case fresh
    then show ?thesis by (simp add: new_alert_def)
  qed
  then show "a \<in> set (st_alerts s')" "al_user_id a = ev_user_id ev" "al_last_seen_at a = now e"
    "al_id a = sq_alert s \<or> (\<exists>b\<in>set (st_alerts s). al_id a = al_id b)" by blast+
qed

lemma critical_report_opens_incident:
  assumes ids: "store_ids s" "0 < sq_alert s" "\<And>a. a \<in> set (st_alerts s) \<Longrightarrow> 0 < al_id a"
    and calm: "ww_race w = None"
    and rep: "report_outcome w e ct et CRITICAL subtype pl s = (True, ev, s')"
  shows "\<exists>a\<in>set (st_alerts s'). \<exists>i\<in>set (open_threat_incidents (Some (ct_user_id ct)) (incident_title ct) s').
    al_user_id a = Some (ct_user_id ct) \<and> al_last_seen_at a = now e \<and> al_incident_id a = Some (in_id i) \<and>
    get_severity_rank (in_severity i) \<ge> get_severity_rank ''CRITICAL''"
proof -
  obtain v where v: "create_event (ww_json_size w) e (EventType_value et) (EventSeverity_value CRITICAL)
      (IndicatorType_value URL) (ct_url ct) (Some (ct_user_id ct)) pl (Some (now e)) = Inr v"
    and pipe: "soc_pipeline w e v ct subtype s = (True, s')"
    using rep by (auto simp: report_outcome_def split: sum.splits prod.splits)
  have sev: "ev_severity v = CRITICAL" "ev_user_id v = Some (ct_user_id ct)"
    using create_event_Inr(2,4) [OF v] unfolding EventSeverity_roundtrip by auto
  obtain x s1 where x: "process_event (ww_sha256 w) (ww_psl w) None (env_shift 1 e) v
        (Some ''MONITORING_THREAT_DETECTION'') None s = (x, s1)" by fastforce
  note run = pipe [unfolded soc_pipeline_def calm option.map x]
  obtain a c where ac: "x = Inr (a, c)" using run sev by (auto split: if_splits sum.splits)
  note pe = x [unfolded ac]
  obtain j c2 where gi: "get_or_create_threat_incident (env_shift 7 e) (Some (ct_user_id ct)) (ct_normalized_domain ct)
        ''CRITICAL'' (incident_title ct) (Some (''Automated monitoring detected '' @ subtype @ '' on target '' @
           ct_normalized_domain ct @ ''.'')) (Some (al_id a)) None s1 = ((j, c2), s')"
    using run sev unfolding ac by (auto split: if_splits simp: prod_eq_iff)
  have a: "a \<in> set (st_alerts s1)" "al_user_id a = Some (ct_user_id ct)" "al_last_seen_at a = now e" "0 < al_id a"
    using process_event_row [OF ids(1) pe] sev ids(2,3) by auto
  have "store_ids s1" by (rule process_event_targets(2) [OF pe _ ids(1)]) simp
  note j = threat_incident_cases(2) [OF this gi]
  have al: "st_alerts s' = upd_rows (\<lambda>x. al_id x = al_id a) (al_incident_id_update (\<lambda>_. Some (in_id j))) (st_alerts s1)"
    by (rule threat_incident_links [OF gi a(4)])
  have open_j: "j \<in> set (open_threat_incidents (Some (ct_user_id ct)) (incident_title ct) s')"
    using j by (auto split: if_splits)
  have rank: "get_severity_rank (in_severity j) \<ge> get_severity_rank ''CRITICAL''"
    using j by (auto split: if_splits)
  have "a\<lparr>al_incident_id := Some (in_id j)\<rparr> \<in> set (st_alerts s')"
    unfolding al using a(1) by (auto simp: in_upd_rows)
  then show ?thesis using open_j rank a(2,3) by (intro bexI) auto
qed

lemma classify_critical:
  "classify_outcome p pr c f = (et, CRITICAL, subtype, sp, n) \<Longrightarrow>
     if pr_failure_category p = Some SSRF_BLOCKED then sp else n = 0"
  by (auto simp: classify_outcome_def split: if_splits)

lemma finish_check_soc [simp]:
  "st_alerts (snd (finish_check e t ct uuid subtype p pr c sp n s)) = st_alerts s"
  "st_incidents (snd (finish_check e t ct uuid subtype p pr c sp n s)) = st_incidents s"
  by (simp_all add: finish_check_def write_back_result_def suspend_target_eq)

text \<open>
  C35: a critical check ends in an incident.  Let a check emit an event of severity CRITICAL and get its
  result accepted.  Then it started under a valid lease; the tenant has an alert seen at that moment,
  linked to an open threat incident of the target's domain that is at least as severe; and the
  target's row is released, suspended when the SSRF guard refused the probe and otherwise with no
  failure on its account.  Other processes may do what they like during the probe; that none inserts
  the same alert at the very moment (the race of \<open>process_event\<close>) and that none changes alerts or
  incidents between the report and the write-back is assumed.
\<close>

theorem critical_check_opens_incident:
  assumes ids: "store_ids s" "keeps_ids during" "keeps_ids between"
    and pos: "0 < sq_alert (during s)" "\<And>a. a \<in> set (st_alerts (during s)) \<Longrightarrow> 0 < al_id a"
    and calm: "ww_race w = None" "\<And>x. st_alerts (between x) = st_alerts x" "\<And>x. st_incidents (between x) = st_incidents x"
    and run: "execute_target w e1 e2 e3 during between ct s = (r, s')" "wo_written r"
    and crit: "wo_event r = Some v" "ev_severity v = CRITICAL"
  shows "holds_lease e1 ct s \<and>
    (\<exists>a\<in>set (st_alerts s'). \<exists>i\<in>set (open_threat_incidents (Some (ct_user_id ct)) (incident_title ct) s').
       al_user_id a = Some (ct_user_id ct) \<and> al_last_seen_at a = now e2 \<and> al_incident_id a = Some (in_id i) \<and>
       get_severity_rank (in_severity i) \<ge> get_severity_rank ''CRITICAL'') \<and>
    (\<exists>g\<in>set (st_targets s'). tg_id g = ct_target_id ct \<and> tg_execution_token g = None \<and>
       (if \<exists>p. fst (probe_of w ct) = Some p \<and> pr_failure_category p = Some SSRF_BLOCKED
        then \<not> tg_is_active g else tg_consecutive_failures g = 0))"
  using run(1)
proof (cases rule: execute_cases)
  case (reported p pr c et sv subtype sp n go s2)
  have go: "go = True" and f: "finish_check e3 (now e2) ct (uuid_of ct s) subtype p pr c sp n (between s2) = (True, s')"
    using reported(7) run(2) by (auto split: if_splits)
  note rep = reported(6) [unfolded crit(1) go]
  have sv: "sv = CRITICAL"
    using rep crit(2) create_event_Inr(2) by (fastforce simp: report_outcome_def EventSeverity_roundtrip split: sum.splits prod.splits)
  note rep = rep [unfolded sv]
  have ids1: "store_ids (during s)" using ids(1,2) by (simp add: keeps_ids_def)
  have race: "alert_race w" by (simp add: alert_race_def calm(1))
  have ids2: "store_ids (between s2)"
    using report_targets(2) [OF race rep ids1] ids(3) by (simp add: keeps_ids_def)
  have same: "st_alerts s' = st_alerts s2" "st_incidents s' = st_incidents s2"
    using finish_check_soc [of e3 "now e2" ct "uuid_of ct s" subtype p pr c sp n "between s2"] unfolding f calm by simp_all
  have "\<exists>a\<in>set (st_alerts s2). \<exists>i\<in>set (open_threat_incidents (Some (ct_user_id ct)) (incident_title ct) s2).
    al_user_id a = Some (ct_user_id ct) \<and> al_last_seen_at a = now e2 \<and> al_incident_id a = Some (in_id i) \<and>
    get_severity_rank (in_severity i) \<ge> get_severity_rank ''CRITICAL''"
    by (rule critical_report_opens_incident [OF ids1 pos calm(1) rep])
  then have soc: "\<exists>a\<in>set (st_alerts s'). \<exists>i\<in>set (open_threat_incidents (Some (ct_user_id ct)) (incident_title ct) s').
    al_user_id a = Some (ct_user_id ct) \<and> al_last_seen_at a = now e2 \<and> al_incident_id a = Some (in_id i) \<and>
    get_severity_rank (in_severity i) \<ge> get_severity_rank ''CRITICAL''"
    unfolding same open_threat_incidents_def .
  obtain g where g: "g \<in> set (st_targets (between s2))" "tg_id g = ct_target_id ct"
    and rows: "st_targets s' = upd_rows (\<lambda>g. tg_id g = ct_target_id ct) (checked (now e2) ct pr c sp n) (st_targets (between s2))"
    using finish_check_rows [OF ids2 f] by (auto simp: owns_lease_def)
  have "checked (now e2) ct pr c sp n g \<in> set (st_targets s')" unfolding rows using g by (auto simp: in_upd_rows)
  then have "\<exists>g\<in>set (st_targets s'). tg_id g = ct_target_id ct \<and> tg_execution_token g = None \<and>
       (if \<exists>p. fst (probe_of w ct) = Some p \<and> pr_failure_category p = Some SSRF_BLOCKED
        then \<not> tg_is_active g else tg_consecutive_failures g = 0)"
    using classify_critical [OF reported(4) [unfolded sv]] reported(2) g(2)
    by (intro bexI [of _ "checked (now e2) ct pr c sp n g"]) (auto split: if_splits)
  then show ?thesis using reported(1) soc by blast
qed (use run(2) crit in simp_all)

text \<open>
  Nobody is told of a suspension.  The notification reads an attribute that the claim does not have;
  the worker swallows the exception, so that no check, whatever it finds, leaves a
  notification or a webhook job of its suspension.
\<close>

theorem suspension_not_notified:
  "st_notifications (snd (finish_check e t ct uuid subtype p pr c sp n s)) = st_notifications s \<and>
   st_outbox (snd (finish_check e t ct uuid subtype p pr c sp n s)) = st_outbox s"
  by (simp add: finish_check_def write_back_result_def suspend_target_eq)

subsection \<open>Witnesses\<close>

definition sample_worker :: worker_world where
  \<comment> \<open>a network in which every host refuses the connection\<close>
  "sample_worker =
     \<lparr>ww_sha256 = sample_sha, ww_psl = sample_psl, ww_json_size = (\<lambda>d. Some 100),
      ww_network = \<lparr>nw_dns = (\<lambda>hop h. Some [''8.8.8.8'']), nw_http = (\<lambda>hop ip url. ConnectError),
        nw_urljoin = (\<lambda>base loc. Some loc), nw_ports_env = []\<rparr>,
      ww_latency = 3, ww_budget = None, ww_inference = (\<lambda>url. None), ww_race = None, ww_cut = None\<rparr>"

definition one_target :: store where
  "one_target = empty_store\<lparr>st_targets := [sample_target 1 5], sq_target := 2\<rparr>"

lemma one_target_ids [simp]: "store_ids one_target"
  by (simp add: one_target_def store_ids_def cursor_ordered_def sample_target_def empty_store_def)

definition sample_claim :: ClaimedTarget where
  "sample_claim = claim_of 7 (uuids (sample_env 10) 0) (sample_target 1 5)"

definition claimed_store :: store where
  "claimed_store = snd (claim_targets Postgresql pod_a (\<lambda>_. False) (sample_env 10) 7 one_target)"

lemma claimed_store_eq:
  "claim_targets Postgresql pod_a (\<lambda>_. False) (sample_env 10) 7 one_target =
     ([sample_claim], one_target\<lparr>st_targets :=
        [take_lease pod_a (sample_env 10) 7 (uuids (sample_env 10) 0) (sample_target 1 5)]\<rparr>)"
proof -
  have "claim_candidates Postgresql pod_a (\<lambda>_. False) (sample_env 10) one_target = [sample_target 1 5]"
    by (simp add: claim_candidates_def one_target_def claimable_def lease_expired_def sample_target_def)
  then show ?thesis
    by (simp add: claim_targets_eq sample_claim_def set_target_eq one_target_def upd_rows_Cons)
qed

lemma sample_probe:
  "probe_of sample_worker sample_claim =
     (Some (failed ''http://a.com'' 0 None 3 HTTP_CLIENT_ERROR),
      [\<lparr>cn_ip = ''8.8.8.8'', cn_port = 80, cn_host = ''a.com'', cn_url = ''http://a.com''\<rparr>])"
  by code_simp

lemma sample_run:
  "wo_written (fst (execute_target sample_worker (sample_env 11) (sample_env 20) (sample_env 30) (\<lambda>s. s) (\<lambda>s. s)
     sample_claim claimed_store))"
  by code_simp

lemma sample_alert_race [simp]: "alert_race sample_worker"
  by (simp add: alert_race_def sample_worker_def)

lemma claimed_store_ids [simp]: "store_ids claimed_store"
  unfolding claimed_store_def by (rule claim_targets_store_ids [OF one_target_ids])

theorem worker_acts_only_under_lease_witness:
  "execute_target sample_worker (sample_env 60000000) (sample_env 60000001) (sample_env 60000002)
     (\<lambda>s. s) (\<lambda>s. s) sample_claim claimed_store =
   (\<lparr>wo_written = False, wo_connects = [], wo_event = None\<rparr>, claimed_store)"
proof -
  obtain r s' where r: "execute_target sample_worker (sample_env 60000000) (sample_env 60000001)
      (sample_env 60000002) (\<lambda>s. s) (\<lambda>s. s) sample_claim claimed_store = (r, s')" by fastforce
  have "\<not> holds_lease (sample_env 60000000) sample_claim claimed_store" by code_simp
  then show ?thesis using worker_acts_only_under_lease [OF r] unfolding r by (cases r) simp
qed


theorem long_url_never_checked_witness:
  "\<not> wo_written (fst (execute_target sample_worker (sample_env 11) (sample_env 20) (sample_env 30)
     (\<lambda>s. s) (\<lambda>s. s) (sample_claim\<lparr>ct_url := replicate 600 (CHR ''a'')\<rparr>) claimed_store))"
proof -
  let ?ct = "sample_claim\<lparr>ct_url := replicate 600 (CHR ''a'')\<rparr>"
  obtain r s' where r: "execute_target sample_worker (sample_env 11) (sample_env 20) (sample_env 30)
      (\<lambda>s. s) (\<lambda>s. s) ?ct claimed_store = (r, s')" by fastforce
  have "MAX_INDICATOR_VALUE_LENGTH < length (ct_url ?ct)" by (simp add: MAX_INDICATOR_VALUE_LENGTH_def)
  then show ?thesis using long_url_never_checked [OF _ r] unfolding r by simp
qed

theorem backoff_bounded_and_monotone_witness:
  "effective_interval 60 2 False = 240 \<and> effective_interval 60 3 False = 2 * effective_interval 60 2 False"
  using backoff_bounded_and_monotone [of 60 2 False]
  by (simp add: MAX_BACKOFF_MINUTES_def effective_interval_def)

lemma leaves_refl: "leaves_target i s s"
  by (auto simp: leaves_target_def)

lemma sample_check_round:
  "\<exists>s'. check_round Postgresql 1 Failed one_target s'"
proof -
  obtain r s' where r: "execute_target sample_worker (sample_env 11) (sample_env 20) (sample_env 30)
      (\<lambda>s. s) (\<lambda>s. s) sample_claim claimed_store = (r, s')" by fastforce
  have p: "fst (probe_of sample_worker sample_claim) = Some (failed ''http://a.com'' 0 None 3 HTTP_CLIENT_ERROR)"
    by (simp add: sample_probe)
  have c: "sample_claim \<in> set (fst (claim_targets Postgresql pod_a (\<lambda>_. False) (sample_env 10) 7 one_target))"
    "ct_target_id sample_claim = 1"
    by (simp_all add: claimed_store_eq sample_claim_def claim_of_def sample_target_def)
  have l: "leaves_target 1 (snd (claim_targets Postgresql pod_a (\<lambda>_. False) (sample_env 10) 7 one_target)) claimed_store"
    unfolding claimed_store_def by (rule leaves_refl)
  have w: "wo_written r" using sample_run r by simp
  have "verdict_of (failed ''http://a.com'' 0 None 3 HTTP_CLIENT_ERROR) = Failed"
    by (simp add: verdict_of_def failed_def)
  then show ?thesis
    using check_round.round [OF c sample_alert_race l _ _ r w p] leaves_refl by fastforce
qed

theorem five_strikes_witness:
  "\<exists>s' h. check_rounds Postgresql 1 [Failed] one_target s' \<and> h \<in> set (st_targets s') \<and>
     tg_consecutive_failures h = 1 \<and> tg_is_active h"
proof -
  obtain s' where "check_round Postgresql 1 Failed one_target s'" using sample_check_round by blast
  then have r: "check_rounds Postgresql 1 [Failed] one_target s'"
    using check_rounds.more [OF check_rounds.none] by fastforce
  have g: "sample_target 1 5 \<in> set (st_targets one_target)" by (simp add: one_target_def)
  have "strikes 0 [Failed] = 1" "stays_active 0 [Failed]" by (simp_all add: strikes_def stays_active_def)
  then show ?thesis
    using five_strikes [OF r one_target_ids g, of 0] r by (auto simp: sample_target_def)
qed

definition trapped_worker :: worker_world where
  \<comment> \<open>a network in which every name leads to the loopback address\<close>
  "trapped_worker = sample_worker
     \<lparr>ww_network := (ww_network sample_worker)\<lparr>nw_dns := (\<lambda>hop h. Some [''127.0.0.1''])\<rparr>\<rparr>"

theorem critical_check_opens_incident_witness:
  "\<exists>s' a i g. snd (execute_target trapped_worker (sample_env 11) (sample_env 20) (sample_env 30) (\<lambda>s. s) (\<lambda>s. s)
       sample_claim claimed_store) = s' \<and>
     a \<in> set (st_alerts s') \<and> al_incident_id a = Some (in_id i) \<and>
     i \<in> set (open_threat_incidents (Some 1) (incident_title sample_claim) s') \<and>
     g \<in> set (st_targets s') \<and> tg_id g = 1 \<and> tg_execution_token g = None"
proof -
  obtain r s' where r: "execute_target trapped_worker (sample_env 11) (sample_env 20) (sample_env 30)
      (\<lambda>s. s) (\<lambda>s. s) sample_claim claimed_store = (r, s')" by fastforce
  have "wo_written (fst (execute_target trapped_worker (sample_env 11) (sample_env 20) (sample_env 30)
      (\<lambda>s. s) (\<lambda>s. s) sample_claim claimed_store))" by code_simp
  then have w: "wo_written r" using r by simp
  have "(case wo_event (fst (execute_target trapped_worker (sample_env 11) (sample_env 20) (sample_env 30)
      (\<lambda>s. s) (\<lambda>s. s) sample_claim claimed_store)) of None \<Rightarrow> False | Some v \<Rightarrow> ev_severity v = CRITICAL)" by code_simp
  then obtain v where v: "wo_event r = Some v" "ev_severity v = CRITICAL" using r by (auto split: option.splits)
  have c: "0 < sq_alert claimed_store" "st_alerts claimed_store = []" "ww_race trapped_worker = None"
    unfolding claimed_store_def claimed_store_eq
    by (simp_all add: one_target_def trapped_worker_def sample_worker_def)
  have ct: "ct_user_id sample_claim = 1" "ct_target_id sample_claim = 1"
    by (simp_all add: sample_claim_def claim_of_def sample_target_def)
  show ?thesis
    using critical_check_opens_incident [OF claimed_store_ids keeps_ids_refl keeps_ids_refl _ _ c(3) _ _ r w v] c ct
    unfolding r by fastforce
qed

end
