(* ===== verification/Pool.thy ===== *)
theory Pool
  imports Prelude
begin

text \<open>
  \<open>MonitoringWorkerPool\<close> of \<open>backend/services/monitoring_worker.py\<close>: the tasks in the order of
  their submission and the two semaphores of \<open>_run\<close>, which takes the global one first and then the one
  of its user (asyncio semaphores serve their waiters in order).  A step relation over the state
  of each task; \<open>G\<close> and \<open>U\<close> are \<open>global_max_workers\<close> and \<open>max_user_workers\<close>.
\<close>

definition GLOBAL_MAX_WORKERS :: nat where "GLOBAL_MAX_WORKERS = 10"
definition MAX_USER_WORKERS :: nat where "MAX_USER_WORKERS = 2"

datatype phase =
    Queued \<comment> \<open>waits for the global semaphore\<close>
  | Holding \<comment> \<open>has the global one, waits for its user's\<close>
  | Running
  | Done

record task =
  tk_user :: nat
  tk_phase :: phase
  tk_cancelled :: bool

type_synonym pool = "task list"

definition count :: "('a \<Rightarrow> bool) \<Rightarrow> 'a list \<Rightarrow> nat" where
  "count p xs = length (filter p xs)"

definition slots :: "pool \<Rightarrow> nat" where
  \<comment> \<open>permits taken from the global semaphore\<close>
  "slots ts = count (\<lambda>t. tk_phase t \<in> {Holding, Running}) ts"

definition running_of :: "nat \<Rightarrow> pool \<Rightarrow> nat" where
  "running_of u ts = count (\<lambda>t. tk_phase t = Running \<and> tk_user t = u) ts"

definition set_phase :: "nat \<Rightarrow> phase \<Rightarrow> pool \<Rightarrow> pool" where
  "set_phase i p ts = ts[i := (ts ! i)\<lparr>tk_phase := p\<rparr>]"

definition submit_target :: "nat \<Rightarrow> pool \<Rightarrow> pool" where
  "submit_target u ts = ts @ [\<lparr>tk_user = u, tk_phase = Queued, tk_cancelled = False\<rparr>]"

definition may_enter :: "nat \<Rightarrow> nat \<Rightarrow> pool \<Rightarrow> bool" where
  "may_enter G i ts \<longleftrightarrow>
     i < length ts \<and> tk_phase (ts ! i) = Queued \<and> slots ts < G \<and>
     list_all (\<lambda>t. tk_phase t \<noteq> Queued) (take i ts)"

definition may_start :: "nat \<Rightarrow> nat \<Rightarrow> pool \<Rightarrow> bool" where
  "may_start U i ts \<longleftrightarrow>
     i < length ts \<and> tk_phase (ts ! i) = Holding \<and> running_of (tk_user (ts ! i)) ts < U \<and>
     list_all (\<lambda>t. tk_phase t = Holding \<longrightarrow> tk_user t \<noteq> tk_user (ts ! i)) (take i ts)"

inductive work_step :: "nat \<Rightarrow> nat \<Rightarrow> pool \<Rightarrow> pool \<Rightarrow> bool" for G U where
  enter: "may_enter G i ts \<Longrightarrow> work_step G U ts (set_phase i Holding ts)"
| start: "may_start U i ts \<Longrightarrow> work_step G U ts (set_phase i Running ts)"
| finish: "i < length ts \<Longrightarrow> tk_phase (ts ! i) = Running \<Longrightarrow> work_step G U ts (set_phase i Done ts)"

definition shutdown :: "pool \<Rightarrow> pool" where
  \<comment> \<open>every task that is not done is told to stop; its permits are given back when it does, which may
    be after the time that the shutdown waits, since the set of active tasks is then cleared anyway\<close>
  "shutdown ts = map (\<lambda>t. if tk_phase t = Done then t else t\<lparr>tk_cancelled := True\<rparr>) ts"

inductive pool_step :: "nat \<Rightarrow> nat \<Rightarrow> pool \<Rightarrow> pool \<Rightarrow> bool" for G U where
  submit: "pool_step G U ts (submit_target u ts)"
| work: "work_step G U ts ts' \<Longrightarrow> pool_step G U ts ts'"
| cancelled: "i < length ts \<Longrightarrow> tk_cancelled (ts ! i) \<Longrightarrow> pool_step G U ts (set_phase i Done ts)"
| stop: "pool_step G U ts (shutdown ts)"

inductive reachable :: "nat \<Rightarrow> nat \<Rightarrow> pool \<Rightarrow> bool" for G U where
  init: "reachable G U []"
| step: "reachable G U ts \<Longrightarrow> pool_step G U ts ts' \<Longrightarrow> reachable G U ts'"

inductive_cases work_stepE: "work_step G U ts ts'"
inductive_cases pool_stepE: "pool_step G U ts ts'"

subsection \<open>Counting\<close>

lemma count_simps [simp]: "count p [] = 0" "count p (xs @ ys) = count p xs + count p ys"
  "count p (x # xs) = (if p x then Suc (count p xs) else count p xs)"
  by (simp_all add: count_def)

lemma count_upd:
  "i < length xs \<Longrightarrow> count p (xs[i := y]) + (if p (xs ! i) then 1 else 0) = count p xs + (if p y then 1 else 0)"
proof (induction xs arbitrary: i)
  case (Cons x xs)
  then show ?case by (cases i) auto
qed simp

lemma count_pos: "0 < count p xs \<longleftrightarrow> (\<exists>x\<in>set xs. p x)"
  by (auto simp: count_def filter_empty_conv)

lemma count_le_mono: "(\<And>x. x \<in> set xs \<Longrightarrow> p x \<Longrightarrow> q x) \<Longrightarrow> count p xs \<le> count q xs"
  by (induction xs) auto

lemma set_phase_simps [simp]:
  "length (set_phase i p ts) = length ts"
  "j < length ts \<Longrightarrow> set_phase i p ts ! j = (if j = i then (ts ! i)\<lparr>tk_phase := p\<rparr> else ts ! j)"
  by (simp add: set_phase_def) (cases "i = j"; simp add: set_phase_def)

lemma count_phase:
  "i < length ts \<Longrightarrow> count q (set_phase i p ts) + (if q (ts ! i) then 1 else 0) =
     count q ts + (if q ((ts ! i)\<lparr>tk_phase := p\<rparr>) then 1 else 0)"
  unfolding set_phase_def by (rule count_upd)

lemma slots_phase:
  "i < length ts \<Longrightarrow> slots (set_phase i p ts) + (if tk_phase (ts ! i) \<in> {Holding, Running} then 1 else 0) =
     slots ts + (if p \<in> {Holding, Running} then 1 else 0)"
  unfolding slots_def
  using count_phase [of i ts "\<lambda>t. tk_phase t \<in> {Holding, Running}" p] by simp

lemma running_phase:
  "i < length ts \<Longrightarrow>
     running_of u (set_phase i p ts) + (if tk_phase (ts ! i) = Running \<and> tk_user (ts ! i) = u then 1 else 0) =
     running_of u ts + (if p = Running \<and> tk_user (ts ! i) = u then 1 else 0)"
  unfolding running_of_def using count_phase [of i ts "\<lambda>t. tk_phase t = Running \<and> tk_user t = u" p] by simp

subsection \<open>Bounds\<close>

definition pool_ok :: "nat \<Rightarrow> nat \<Rightarrow> pool \<Rightarrow> bool" where
  "pool_ok G U ts \<longleftrightarrow> slots ts \<le> G \<and> (\<forall>u. running_of u ts \<le> U)"

lemma done_ok:
  assumes "i < length ts" "pool_ok G U ts" shows "pool_ok G U (set_phase i Done ts)"
proof -
  have "slots (set_phase i Done ts) \<le> slots ts" "running_of u (set_phase i Done ts) \<le> running_of u ts" for u
    using slots_phase [OF assms(1), of Done] running_phase [OF assms(1), of u Done] by auto
  then show ?thesis using assms(2) by (auto simp: pool_ok_def intro: order_trans)
qed

lemma shutdown_counts [simp]: "slots (shutdown ts) = slots ts" "running_of u (shutdown ts) = running_of u ts"
  by (induction ts) (auto simp: slots_def running_of_def shutdown_def)

lemma shutdown_phase [simp]:
  "length (shutdown ts) = length ts" "i < length ts \<Longrightarrow> tk_phase (shutdown ts ! i) = tk_phase (ts ! i)"
  by (simp_all add: shutdown_def)

lemma submit_counts [simp]:
  "slots (submit_target u ts) = slots ts" "running_of v (submit_target u ts) = running_of v ts"
  by (simp_all add: slots_def running_of_def submit_target_def)

lemma work_step_ok: "work_step G U ts ts' \<Longrightarrow> pool_ok G U ts \<Longrightarrow> pool_ok G U ts'"
proof (induction rule: work_step.induct)
  case (enter i ts)
  have i: "i < length ts" "tk_phase (ts ! i) = Queued" "slots ts < G" using enter(1) by (auto simp: may_enter_def)
  have "slots (set_phase i Holding ts) = Suc (slots ts)" "running_of u (set_phase i Holding ts) = running_of u ts" for u
    using slots_phase [OF i(1), of Holding] running_phase [OF i(1), of u Holding] i(2) by simp_all
  then show ?case using enter(2) i(3) by (simp add: pool_ok_def)
next
  case (start i ts)
  have i: "i < length ts" "tk_phase (ts ! i) = Holding" "running_of (tk_user (ts ! i)) ts < U"
    using start(1) by (auto simp: may_start_def)
  have "slots (set_phase i Running ts) = slots ts"
    using slots_phase [OF i(1), of Running] i(2) by simp
  moreover have "running_of u (set_phase i Running ts) =
      running_of u ts + (if u = tk_user (ts ! i) then 1 else 0)" for u
    using running_phase [OF i(1), of u Running] i(2) by auto
  ultimately show ?case using start(2) i(3) by (auto simp: pool_ok_def)
next
  case (finish i ts)
  then show ?case by (intro done_ok)
qed

lemma reachable_ok: "reachable G U ts \<Longrightarrow> pool_ok G U ts"
proof (induction rule: reachable.induct)
  case (step ts ts')
  from step(2) show ?case
    by (cases rule: pool_step.cases)
      (use step.IH work_step_ok done_ok in \<open>auto simp: pool_ok_def\<close>)
qed (simp_all add: pool_ok_def slots_def running_of_def)

text \<open>
  The pool's bounds.  In every run, at most \<open>G\<close> tasks hold a global permit and at most \<open>U\<close>
  tasks of a user run at once.
\<close>

theorem pool_bounded: "reachable G U ts \<Longrightarrow> slots ts \<le> G \<and> running_of u ts \<le> U"
  using reachable_ok by (simp add: pool_ok_def)

subsection \<open>Draining\<close>

primrec phase_work :: "phase \<Rightarrow> nat" where
  "phase_work Queued = 3" | "phase_work Holding = 2" | "phase_work Running = 1" | "phase_work Done = 0"

definition work :: "pool \<Rightarrow> nat" where
  \<comment> \<open>the steps the tasks still have to make\<close>
  "work ts = sum_list (map (\<lambda>t. phase_work (tk_phase t)) ts)"

lemma work_phase:
  "i < length ts \<Longrightarrow> work (set_phase i p ts) + phase_work (tk_phase (ts ! i)) = work ts + phase_work p"
  unfolding set_phase_def work_def
proof (induction ts arbitrary: i)
  case (Cons t ts)
  then show ?case by (cases i) auto
qed simp

lemma work_step_work:
  assumes "work_step G U ts ts'" shows "work ts = Suc (work ts')"
  using assms
proof (cases rule: work_step.cases)
  case (enter i)
  then show ?thesis using work_phase [of i ts Holding] by (auto simp: may_enter_def)
next
  case (start i)
  then show ?thesis using work_phase [of i ts Running] by (auto simp: may_start_def)
next
  case (finish i)
  then show ?thesis using work_phase [of i ts Done] by auto
qed

lemma first_index:
  assumes "\<exists>x\<in>set xs. p x"
  obtains i where "i < length xs" "p (xs ! i)" "list_all (\<lambda>x. \<not> p x) (take i xs)"
  using assms
proof (induction xs arbitrary: thesis)
  case (Cons x xs)
  show ?case
  proof (cases "p x")
    case True
    then show ?thesis by (intro Cons.prems(1) [of 0]) auto
  next
    case False
    then obtain i where "i < length xs" "p (xs ! i)" "list_all (\<lambda>x. \<not> p x) (take i xs)"
      using Cons.IH Cons.prems(2) by auto
    then show ?thesis using False by (intro Cons.prems(1) [of "Suc i"]) auto
  qed
qed simp

lemma progress:
  assumes "0 < G" "0 < U" "t \<in> set ts" "tk_phase t \<noteq> Done"
  shows "\<exists>ts'. work_step G U ts ts'"
proof (cases "\<exists>t\<in>set ts. tk_phase t = Running")
  case True
  then obtain i where "i < length ts" "tk_phase (ts ! i) = Running" by (auto simp: in_set_conv_nth)
  then show ?thesis using work_step.finish by blast
next
  case idle: False
  then have none: "running_of u ts = 0" for u
    using count_pos [of "\<lambda>t. tk_phase t = Running \<and> tk_user t = u" ts] by (auto simp: running_of_def)
  show ?thesis
  proof (cases "\<exists>t\<in>set ts. tk_phase t = Holding")
    case True
    then obtain i where i: "i < length ts" "tk_phase (ts ! i) = Holding"
        "list_all (\<lambda>t. tk_phase t \<noteq> Holding) (take i ts)" by (rule first_index)
    then have "may_start U i ts" using none assms(2) by (auto simp: may_start_def list_all_iff)
    then show ?thesis using work_step.start by blast
  next
    case False
    then have "slots ts = 0" using idle count_pos [of "\<lambda>t. tk_phase t \<in> {Holding, Running}" ts]
      by (auto simp: slots_def)
    moreover have "tk_phase t = Queued" using idle False assms(3,4) by (cases "tk_phase t") auto
    ultimately obtain i where "may_enter G i ts"
      using first_index [of ts "\<lambda>t. tk_phase t = Queued"] assms(1,3) by (auto simp: may_enter_def)
    then show ?thesis using work_step.enter by blast
  qed
qed

text \<open>
  C39: the pool drains.  With positive limits there is no deadlock although every task takes two
  semaphores: however the tasks are scheduled, a run makes at most three steps per task, and when
  none is possible any more every task is done.
\<close>

theorem pool_drains:
  assumes "0 < G" "0 < U" "(work_step G U ^^ n) ts ts'"
  shows "n + work ts' = work ts \<and> n \<le> 3 * length ts \<and>
    ((\<nexists>ts''. work_step G U ts' ts'') \<longleftrightarrow> (\<forall>t\<in>set ts'. tk_phase t = Done))"
proof -
  have steps: "n + work ts' = work ts"
    using assms(3)
  proof (induction n arbitrary: ts')
    case (Suc n)
    then obtain x where "(work_step G U ^^ n) ts x" "work_step G U x ts'" by auto
    then show ?case using Suc.IH [of x] work_step_work by fastforce
  qed simp
  have bound: "work ts \<le> 3 * length ts"
  proof (induction ts)
    case (Cons t ts)
    then show ?case by (cases "tk_phase t") (auto simp: work_def)
  qed (simp add: work_def)
  have "\<not> work_step G U ts' x" if "\<forall>t\<in>set ts'. tk_phase t = Done" for x
    using that by (auto elim!: work_stepE simp: may_enter_def may_start_def dest!: nth_mem)
  then show ?thesis using steps bound progress [OF assms(1,2)] by fastforce
qed

subsection \<open>Fairness\<close>

definition in_order :: "pool \<Rightarrow> bool" where
  \<comment> \<open>tasks enter in the order of submission, but for those that are cancelled first\<close>
  "in_order ts \<longleftrightarrow>
     (\<forall>i j. i < j \<and> j < length ts \<and> tk_phase (ts ! i) = Queued \<longrightarrow> tk_phase (ts ! j) \<in> {Queued, Done})"

lemma in_orderD:
  "\<lbrakk>in_order ts; i < j; j < length ts; tk_phase (ts ! i) = Queued\<rbrakk> \<Longrightarrow> tk_phase (ts ! j) \<in> {Queued, Done}"
  by (auto simp: in_order_def)

lemma in_order_set_phase:
  assumes "in_order ts" "i < length ts" "p \<noteq> Queued" "p = Done \<or> (\<forall>j<i. tk_phase (ts ! j) \<noteq> Queued)"
  shows "in_order (set_phase i p ts)"
  unfolding in_order_def
proof (intro allI impI, elim conjE)
  fix a b assume ab: "a < b" "b < length (set_phase i p ts)" "tk_phase (set_phase i p ts ! a) = Queued"
  then have a: "a \<noteq> i" "tk_phase (ts ! a) = Queued" using assms(3) by (auto split: if_splits)
  show "tk_phase (set_phase i p ts ! b) \<in> {Queued, Done}"
    using in_orderD [OF assms(1) ab(1) _ a(2)] ab(1,2) assms(4) a(2) by auto
qed

lemma entered_before:
  assumes "in_order ts" "i < length ts" "tk_phase (ts ! i) \<notin> {Queued, Done}" "j \<le> i"
  shows "tk_phase (ts ! j) \<noteq> Queued"
  using assms unfolding in_order_def by (metis insertCI le_neq_implies_less)

lemma work_step_in_order: "work_step G U ts ts' \<Longrightarrow> in_order ts \<Longrightarrow> in_order ts'"
proof (induction rule: work_step.induct)
  case (enter i ts)
  then have "i < length ts" "tk_phase (ts ! j) \<noteq> Queued" if "j < i" for j
    using that by (auto simp: may_enter_def list_all_length)
  then show ?case using enter by (intro in_order_set_phase) (auto simp: may_enter_def)
next
  case (start i ts)
  then have i: "i < length ts" "tk_phase (ts ! i) \<notin> {Queued, Done}" by (auto simp: may_start_def)
  show ?case by (rule in_order_set_phase [OF start(2) i(1)]) (use entered_before [OF start(2) i] in auto)
next
  case (finish i ts)
  then show ?case by (intro in_order_set_phase) auto
qed

lemma submit_in_order: "in_order ts \<Longrightarrow> in_order (submit_target u ts)"
  by (auto simp: in_order_def submit_target_def nth_append)

lemma reachable_in_order: "reachable G U ts \<Longrightarrow> in_order ts"
proof (induction rule: reachable.induct)
  case (step ts ts')
  from step(2) show ?case
  proof (cases rule: pool_step.cases)
    case (submit u)
    then show ?thesis using submit_in_order [OF step.IH] by simp
  next
    case work
    then show ?thesis using work_step_in_order step.IH by simp
  next
    case (cancelled i)
    then show ?thesis using in_order_set_phase [OF step.IH] by simp
  next
    case stop
    then show ?thesis using step.IH unfolding in_order_def by (metis order.strict_trans shutdown_phase)
  qed
qed (simp add: in_order_def)

lemma entered_prefix:
  assumes "in_order ts" "\<forall>t\<in>set ts. tk_phase t \<noteq> Done" "i < length ts" "tk_phase (ts ! i) \<noteq> Queued"
  shows "i < slots ts"
proof -
  have entered: "tk_phase (ts ! j) \<in> {Holding, Running}" if "j \<le> i" for j
  proof -
    have "tk_phase (ts ! i) \<noteq> Done" using assms(2,3) nth_mem by blast
    then have "tk_phase (ts ! j) \<noteq> Queued" by (intro entered_before [OF assms(1,3) _ that]) (use assms(4) in simp)
    moreover have "ts ! j \<in> set ts" using assms(3) that by simp
    ultimately show ?thesis using assms(2) by (cases "tk_phase (ts ! j)") auto
  qed
  have "\<forall>t\<in>set (take (Suc i) ts). tk_phase t \<in> {Holding, Running}"
    unfolding all_set_conv_all_nth using entered by (simp add: less_Suc_eq_le del: insert_iff)
  then have "filter (\<lambda>t. tk_phase t \<in> {Holding, Running}) (take (Suc i) ts) = take (Suc i) ts"
    unfolding filter_id_conv .
  then have "count (\<lambda>t. tk_phase t \<in> {Holding, Running}) (take (Suc i) ts) = Suc i"
    using assms(3) by (simp add: count_def)
  moreover have "slots ts = count (\<lambda>t. tk_phase t \<in> {Holding, Running}) (take (Suc i) ts) +
      count (\<lambda>t. tk_phase t \<in> {Holding, Running}) (drop (Suc i) ts)"
    unfolding slots_def by (subst append_take_drop_id [of "Suc i" ts, symmetric]) (rule count_simps(2))
  ultimately show ?thesis by simp
qed

text \<open>
  One tenant can fill the pool.  A task keeps its global permit while it waits for its user's
  semaphore.  So if the first \<open>G\<close> tasks are of one user then, until one of them is done, at most
  \<open>U\<close> tasks run at all and no task of anybody else does, whatever else is submitted.
\<close>

theorem burst_blocks_others:
  assumes "reachable G U ts" "\<forall>t\<in>set ts. tk_phase t \<noteq> Done"
    and burst: "\<And>i. i < G \<Longrightarrow> i < length ts \<Longrightarrow> tk_user (ts ! i) = u"
  shows "(\<forall>t\<in>set ts. tk_phase t = Running \<longrightarrow> tk_user t = u) \<and> count (\<lambda>t. tk_phase t = Running) ts \<le> U"
proof -
  have all: "tk_user t = u" if "t \<in> set ts" "tk_phase t = Running" for t
  proof -
    from that(1) obtain i where i: "i < length ts" and t: "ts ! i = t" unfolding in_set_conv_nth by blast
    have "tk_phase (ts ! i) \<noteq> Queued" using that(2) by (simp add: t)
    then have "i < slots ts" by (rule entered_prefix [OF reachable_in_order [OF assms(1)] assms(2) i])
    then have "i < G" using reachable_ok [OF assms(1)] by (simp add: pool_ok_def)
    then show ?thesis using burst [OF _ i] by (simp add: t)
  qed
  then have "count (\<lambda>t. tk_phase t = Running) ts \<le> running_of u ts"
    unfolding running_of_def by (intro count_le_mono) simp
  also have "running_of u ts \<le> U" using reachable_ok [OF assms(1)] by (simp add: pool_ok_def)
  finally show ?thesis using all by blast
qed

subsection \<open>Witnesses\<close>

definition sample_pool :: pool where
  \<comment> \<open>two tasks of user 1 hold both permits, one of them runs, and user 2 waits\<close>
  "sample_pool =
     [\<lparr>tk_user = 1, tk_phase = Running, tk_cancelled = False\<rparr>, \<lparr>tk_user = 1, tk_phase = Holding, tk_cancelled = False\<rparr>, \<lparr>tk_user = 2, tk_phase = Queued, tk_cancelled = False\<rparr>]"

lemma sample_pool_reachable: "reachable 2 1 sample_pool"
proof -
  let ?q = "\<lambda>a b c. [\<lparr>tk_user = 1, tk_phase = a, tk_cancelled = False\<rparr>, \<lparr>tk_user = 1, tk_phase = b, tk_cancelled = False\<rparr>, \<lparr>tk_user = 2, tk_phase = c, tk_cancelled = False\<rparr>]"
  note go = reachable.step [OF _ pool_step.work]
  have "reachable 2 1 (submit_target 2 (submit_target 1 (submit_target 1 [])))"
    by (intro reachable.step [OF _ pool_step.submit] reachable.init)
  then have q: "reachable 2 1 (?q Queued Queued Queued)" by (simp add: submit_target_def)
  have "work_step 2 1 (?q Queued Queued Queued) (?q Holding Queued Queued)"
    using work_step.enter [of 2 0 "?q Queued Queued Queued" 1] by (simp add: may_enter_def slots_def set_phase_def)
  then have "reachable 2 1 (?q Holding Queued Queued)" by (rule go [OF q])
  moreover have "work_step 2 1 (?q Holding Queued Queued) (?q Holding Holding Queued)"
    using work_step.enter [of 2 1 "?q Holding Queued Queued" 1] by (simp add: may_enter_def slots_def set_phase_def)
  ultimately have "reachable 2 1 (?q Holding Holding Queued)" by (rule go)
  moreover have "work_step 2 1 (?q Holding Holding Queued) sample_pool"
    using work_step.start [of 1 0 "?q Holding Holding Queued" 2]
    by (simp add: may_start_def running_of_def set_phase_def sample_pool_def)
  ultimately show ?thesis by (rule go)
qed

theorem pool_bounded_witness: "slots sample_pool = 2 \<and> running_of 1 sample_pool \<le> 1"
  using pool_bounded [OF sample_pool_reachable, of 1] by (simp add: slots_def sample_pool_def)

theorem pool_drains_witness:
  "\<exists>ts. work_step 2 1 sample_pool ts \<and> 1 + work ts = 6"
proof -
  have st: "work_step 2 1 sample_pool (set_phase 0 Done sample_pool)"
    by (rule work_step.finish) (simp_all add: sample_pool_def)
  then have "(work_step 2 1 ^^ 1) sample_pool (set_phase 0 Done sample_pool)"
    unfolding relpowp_1 .
  then have "1 + work (set_phase 0 Done sample_pool) = work sample_pool"
    using pool_drains [of 2 1 1] by simp
  then show ?thesis using st by (auto simp: work_def sample_pool_def)
qed

theorem burst_blocks_others_witness:
  "list_all (\<lambda>t. tk_user t = 1) (filter (\<lambda>t. tk_phase t = Running) sample_pool)"
proof -
  have "\<forall>t\<in>set sample_pool. tk_phase t \<noteq> Done" by (simp add: sample_pool_def)
  moreover have "tk_user (sample_pool ! i) = 1" if "i < 2" for i
    using that by (auto simp: sample_pool_def less_Suc_eq numeral_2_eq_2)
  ultimately show ?thesis using burst_blocks_others [OF sample_pool_reachable, of 1] by (simp add: list_all_iff)
qed

end
