(* ===== verification/Broadcaster.thy ===== *)
theory Broadcaster
  imports Models Samples
begin

text \<open>
  \<open>backend/services/event_broadcaster.py\<close> (with the envelope of \<open>backend/schemas/stream.py\<close>): the
  bounded client queues of one pod, publication and cross-pod fan-out, admission and its limits,
  single-use stream tickets and the replay of missed events.  Queues are numbered in the order of
  their creation; the dictionaries keyed by queue or user are functions or association lists.
  Redis is shared by the pods; \<open>up\<close> is whether its calls succeed during an operation, and
  \<open>json_size\<close> the length of \<open>json.dumps\<close>.
\<close>

definition MAX_QUEUE_SIZE :: nat where "MAX_QUEUE_SIZE = 100"
definition MAX_EVENT_SIZE :: nat where "MAX_EVENT_SIZE = 16384"
definition MAX_STREAMS_PER_USER :: nat where "MAX_STREAMS_PER_USER = 5"
definition MAX_STREAMS_PER_POD :: nat where "MAX_STREAMS_PER_POD = 1000"
definition MAX_ADMIN_STREAMS_PER_USER :: nat where "MAX_ADMIN_STREAMS_PER_USER = 2"
definition MAX_ADMIN_STREAMS_GLOBAL :: nat where "MAX_ADMIN_STREAMS_GLOBAL = 10"
definition TICKET_TTL_SECONDS :: int where "TICKET_TTL_SECONDS = 30"

subsection \<open>Secrets\<close>

definition SENSITIVE_FIELD_NAMES :: "string list" where
  "SENSITIVE_FIELD_NAMES =
     [''password'', ''hashed_password'', ''password_hash'', ''secret'', ''webhook_secret'', ''key'',
      ''api_key'', ''encryption_key'', ''token'', ''access_token'', ''refresh_token'',
      ''authorization'', ''cookie'']"

definition is_secret_field :: "string \<Rightarrow> bool" where
  "is_secret_field k = list_ex (\<lambda>n. contains n (str_lower k)) SENSITIVE_FIELD_NAMES"

fun scrub :: "json \<Rightarrow> json" where
  \<comment> \<open>a value under a key that is not sensitive\<close>
  "scrub (JObj d) =
     JObj (map (\<lambda>(k, v). (k, if is_secret_field k then JStr ''[REDACTED]'' else scrub v)) d)"
| "scrub j = j"

definition sanitize_payload_secrets :: "dict \<Rightarrow> dict" where
  "sanitize_payload_secrets d =
     map (\<lambda>(k, v). (k, if is_secret_field k then JStr ''[REDACTED]'' else scrub v)) d"

subsection \<open>Events and queues\<close>

record envelope =
  en_cursor_id :: nat
  en_event_id :: string
  en_event_type :: string
  en_timestamp :: time
  en_tenant_id :: nat
  en_channel :: string
  en_aggregate_id :: "string option"
  en_data :: dict

datatype item =
    Event envelope
  | Heartbeat
  | ServerShutdown
  | StreamOverflow int \<comment> \<open>\<open>last_delivered_id\<close>\<close>

definition create_envelope :: "(dict \<Rightarrow> nat option) \<Rightarrow> env \<Rightarrow> publish \<Rightarrow> envelope" where
  "create_envelope json_size e p =
     (let data = (case json_size (pb_payload p) of
                    None \<Rightarrow> [(''truncated'', JBool True)]
                  | Some n \<Rightarrow>
                      if n > MAX_EVENT_SIZE
                      then [(''id'', (case dict_get (pb_payload p) ''id'' of None \<Rightarrow> JNull | Some v \<Rightarrow> v)),
                            (''truncated'', JBool True),
                            (''notice'', JStr ''Payload exceeded 16KB safety limit.'')]
                      else pb_payload p)
      in \<lparr>en_cursor_id = pb_cursor_id p,
          en_event_id = (case pb_event_id p of Some (c # cs) \<Rightarrow> c # cs | _ \<Rightarrow> uuids e 0),
          en_event_type = pb_event_type p, en_timestamp = now e, en_tenant_id = pb_tenant_id p,
          en_channel = pb_channel p, en_aggregate_id = pb_aggregate_id p, en_data = data\<rparr>)"

definition severity_rank :: "string \<Rightarrow> nat" where
  \<comment> \<open>\<open>SEVERITY_RANKS.get(.., 1)\<close>\<close>
  "severity_rank s =
     (if s = ''LOW'' then 2 else if s = ''MEDIUM'' then 3 else if s = ''HIGH'' then 4
      else if s = ''CRITICAL'' then 5 else 1)"

definition field_upper :: "dict \<Rightarrow> string \<Rightarrow> string" where
  \<comment> \<open>\<open>str(data.get(k)).upper()\<close> of a text value; other values print as no severity and no status\<close>
  "field_upper d k = (case dict_get d k of Some (JStr s) \<Rightarrow> str_upper s | _ \<Rightarrow> [])"

definition is_critical_event :: "envelope \<Rightarrow> bool" where
  "is_critical_event en =
     (if en_event_type en = ''alert_created'' then field_upper (en_data en) ''severity'' \<in> {''HIGH'', ''CRITICAL''}
      else if en_event_type en = ''target_status_changed''
      then field_upper (en_data en) ''status'' = ''SUSPENDED'' else False)"

definition evictable :: "item \<Rightarrow> bool" where
  "evictable i = (case i of Event en \<Rightarrow> \<not> is_critical_event en | _ \<Rightarrow> False)"

primrec evict_oldest :: "item list \<Rightarrow> item list option" where
  \<comment> \<open>without the oldest non-critical event\<close>
  "evict_oldest [] = None"
| "evict_oldest (i # q) = (if evictable i then Some q else map_option ((#) i) (evict_oldest q))"

definition put_nowait :: "item \<Rightarrow> item list \<Rightarrow> item list" where
  \<comment> \<open>with \<open>QueueFull\<close> suppressed\<close>
  "put_nowait i q = (if length q < MAX_QUEUE_SIZE then q @ [i] else q)"

definition enqueue :: "item list \<Rightarrow> envelope \<Rightarrow> item list" where
  "enqueue q en =
     (if length q < MAX_QUEUE_SIZE then q @ [Event en]
      else case evict_oldest q of
             Some q' \<Rightarrow> q' @ [Event en]
           | None \<Rightarrow>
               if \<not> is_critical_event en then q
               else put_nowait (StreamOverflow (int (en_cursor_id en) - 1)) (butlast q))"

subsection \<open>The broadcaster\<close>

record stream_meta =
  mt_user_id :: nat
  mt_channel :: string
  mt_min_severity :: "string option"
  mt_is_admin :: bool

record broadcaster =
  bc_pod_id :: string
  bc_local :: "(nat \<times> nat) list" \<comment> \<open>user and queue: the sets \<open>_local_subscribers[user]\<close>\<close>
  bc_admin :: "nat list"
  bc_meta :: "(nat \<times> stream_meta) list"
  bc_queues :: "nat \<Rightarrow> item list"
  bc_next :: nat
  bc_stream_count :: nat
  bc_user_counts :: "nat \<Rightarrow> nat"
  bc_admin_counts :: "nat \<Rightarrow> nat"
  bc_tickets :: "string \<Rightarrow> (nat \<times> time) option"
  bc_outgoing :: "(string \<times> envelope) list"
  bc_redis :: bool \<comment> \<open>whether there is a client\<close>
  bc_tenant_subs :: "nat list"
  bc_admin_sub :: bool

record redis =
  rd_counts :: "nat \<Rightarrow> int" \<comment> \<open>\<open>soc:connections:user:..\<close>; their expiry is not modelled\<close>
  rd_tickets :: "string \<Rightarrow> (nat \<times> time) option"

definition new_broadcaster :: "string \<Rightarrow> bool \<Rightarrow> broadcaster" where
  "new_broadcaster pod client =
     \<lparr>bc_pod_id = pod, bc_local = [], bc_admin = [], bc_meta = [], bc_queues = (\<lambda>_. []),
      bc_next = 0, bc_stream_count = 0, bc_user_counts = (\<lambda>_. 0), bc_admin_counts = (\<lambda>_. 0),
      bc_tickets = (\<lambda>_. None), bc_outgoing = [], bc_redis = client, bc_tenant_subs = [],
      bc_admin_sub = False\<rparr>"

subsection \<open>Dispatch\<close>

definition severity_passes :: "stream_meta option \<Rightarrow> envelope \<Rightarrow> bool" where
  "severity_passes m en =
     (case m of
        Some mt \<Rightarrow>
          (case mt_min_severity mt of
             Some (c # cs) \<Rightarrow>
               severity_rank (field_upper (en_data en) ''severity'') \<ge> severity_rank (str_upper (c # cs))
           | _ \<Rightarrow> True)
      | None \<Rightarrow> True)"

definition channel_passes :: "stream_meta option \<Rightarrow> envelope \<Rightarrow> bool" where
  "channel_passes m en =
     (case m of Some mt \<Rightarrow> mt_channel mt \<in> {''soc'', en_channel en} | None \<Rightarrow> True)"

definition sanitize_admin_envelope :: "envelope \<Rightarrow> envelope" where
  "sanitize_admin_envelope en = en\<lparr>en_data := sanitize_payload_secrets (en_data en)\<rparr>"

definition queues_of :: "nat \<Rightarrow> broadcaster \<Rightarrow> nat list" where
  "queues_of u b = map snd (filter (\<lambda>(v, q). v = u) (bc_local b))"

definition deliver :: "nat list \<Rightarrow> (nat \<Rightarrow> bool) \<Rightarrow> envelope \<Rightarrow> (nat \<Rightarrow> item list) \<Rightarrow> nat \<Rightarrow> item list" where
  \<comment> \<open>one pass over a set of queues\<close>
  "deliver qs passes en queues =
     (\<lambda>q. if q \<in> set qs \<and> passes q then enqueue (queues q) en else queues q)"

definition dispatch_to_admin_queues :: "envelope \<Rightarrow> broadcaster \<Rightarrow> broadcaster" where
  "dispatch_to_admin_queues en b =
     b\<lparr>bc_queues := deliver (bc_admin b) (\<lambda>q. severity_passes (map_of (bc_meta b) q) en)
                      (sanitize_admin_envelope en) (bc_queues b)\<rparr>"

definition dispatch_to_local_queues :: "envelope \<Rightarrow> broadcaster \<Rightarrow> broadcaster" where
  "dispatch_to_local_queues en b =
     dispatch_to_admin_queues en
       (b\<lparr>bc_queues := deliver (queues_of (en_tenant_id en) b)
                         (\<lambda>q. channel_passes (map_of (bc_meta b) q) en \<and>
                              severity_passes (map_of (bc_meta b) q) en)
                         en (bc_queues b)\<rparr>)"

definition MAX_OUTGOING :: nat where "MAX_OUTGOING = 10000"

definition publish_event_nowait :: "(dict \<Rightarrow> nat option) \<Rightarrow> env \<Rightarrow> publish \<Rightarrow> broadcaster \<Rightarrow> broadcaster" where
  "publish_event_nowait json_size e p b =
     (let en = create_envelope json_size e p; b1 = dispatch_to_local_queues en b
      in if length (bc_outgoing b1) < MAX_OUTGOING
         then b1\<lparr>bc_outgoing := bc_outgoing b1 @ [(bc_pod_id b1, en)]\<rparr> else b1)"

definition redis_publisher_step :: "bool \<Rightarrow> broadcaster \<Rightarrow> (string \<times> envelope) option \<times> broadcaster" where
  \<comment> \<open>one round of the publisher: the message goes to the tenant's channel and to that of the admins\<close>
  "redis_publisher_step up b =
     (case bc_outgoing b of
        [] \<Rightarrow> (None, b)
      | m # ms \<Rightarrow> (if bc_redis b \<and> up then Some m else None, b\<lparr>bc_outgoing := ms\<rparr>))"

definition receive_tenant :: "string \<times> envelope \<Rightarrow> broadcaster \<Rightarrow> broadcaster" where
  "receive_tenant m b =
     (case m of (pod, en) \<Rightarrow>
        if en_tenant_id en \<in> set (bc_tenant_subs b) \<and> pod \<noteq> bc_pod_id b
        then dispatch_to_local_queues en b else b)"

definition receive_admin :: "string \<times> envelope \<Rightarrow> broadcaster \<Rightarrow> broadcaster" where
  "receive_admin m b =
     (case m of (pod, en) \<Rightarrow>
        if bc_admin_sub b \<and> pod \<noteq> bc_pod_id b then dispatch_to_admin_queues en b else b)"

definition broadcast_control :: "item \<Rightarrow> broadcaster \<Rightarrow> broadcaster" where
  \<comment> \<open>the heartbeat and the shutdown frame, to every client queue\<close>
  "broadcast_control i b =
     b\<lparr>bc_queues :=
        (\<lambda>q. if q \<in> set (bc_admin b @ map snd (bc_local b)) then put_nowait i (bc_queues b q) else bc_queues b q)\<rparr>"

subsection \<open>Admission\<close>

datatype http_error = HTTP_503 | HTTP_403 | HTTP_429

definition memory_admit :: "nat \<Rightarrow> broadcaster \<Rightarrow> (http_error + broadcaster)" where
  \<comment> \<open>the in-memory count of a user's streams\<close>
  "memory_admit u b =
     (if bc_user_counts b u \<ge> MAX_STREAMS_PER_USER then Inl HTTP_429
      else Inr (b\<lparr>bc_user_counts := (bc_user_counts b)(u := Suc (bc_user_counts b u))\<rparr>))"

definition admit_user ::
  "bool \<Rightarrow> nat \<Rightarrow> broadcaster \<Rightarrow> redis \<Rightarrow> (http_error + broadcaster) \<times> redis" where
  "admit_user up u b r =
     (if bc_redis b \<and> up
      then if rd_counts r u + 1 > int MAX_STREAMS_PER_USER then (Inl HTTP_429, r)
           else (Inr b, r\<lparr>rd_counts := (rd_counts r)(u := rd_counts r u + 1)\<rparr>)
      else (memory_admit u b, r))"

definition admin_checks :: "user \<Rightarrow> broadcaster \<Rightarrow> http_error option" where
  "admin_checks u b =
     (if \<not> is_admin u then Some HTTP_403
      else if bc_admin_counts b (usr_id u) \<ge> MAX_ADMIN_STREAMS_PER_USER then Some HTTP_429
      else if length (bc_admin b) \<ge> MAX_ADMIN_STREAMS_GLOBAL then Some HTTP_429
      else None)"

definition allocate_queue ::
  "nat \<Rightarrow> string \<Rightarrow> string option \<Rightarrow> bool \<Rightarrow> broadcaster \<Rightarrow> nat \<times> broadcaster" where
  \<comment> \<open>the new queue, its registration and the subscription of the pod\<close>
  "allocate_queue uid channel min_sev admin b =
     (let q = bc_next b;
          mt = \<lparr>mt_user_id = uid, mt_channel = channel, mt_min_severity = min_sev, mt_is_admin = admin\<rparr>;
          b1 = b\<lparr>bc_next := Suc q, bc_queues := (bc_queues b)(q := []),
                 bc_stream_count := Suc (bc_stream_count b), bc_meta := bc_meta b @ [(q, mt)]\<rparr>
      in (q,
          if admin
          then b1\<lparr>bc_admin := bc_admin b1 @ [q],
                  bc_admin_counts := (bc_admin_counts b1)(uid := Suc (bc_admin_counts b1 uid)),
                  bc_admin_sub := bc_admin_sub b1 \<or> bc_redis b1\<rparr>
          else b1\<lparr>bc_local := bc_local b1 @ [(uid, q)],
                  bc_tenant_subs := (if bc_redis b1 \<and> uid \<notin> set (bc_tenant_subs b1)
                                     then bc_tenant_subs b1 @ [uid] else bc_tenant_subs b1)\<rparr>))"

definition register_listener ::
  "bool \<Rightarrow> user \<Rightarrow> string \<Rightarrow> string option \<Rightarrow> bool \<Rightarrow> broadcaster \<Rightarrow> redis \<Rightarrow>
   (http_error + nat) \<times> broadcaster \<times> redis" where
  "register_listener up u channel min_sev admin b r =
     (if bc_stream_count b \<ge> MAX_STREAMS_PER_POD then (Inl HTTP_503, b, r)
      else case (if admin then admin_checks u b else None) of
             Some err \<Rightarrow> (Inl err, b, r)
           | None \<Rightarrow>
               (case admit_user up (usr_id u) b r of
                  (Inl err, r') \<Rightarrow> (Inl err, b, r')
                | (Inr b', r') \<Rightarrow>
                    (case allocate_queue (usr_id u) channel min_sev admin b' of
                       (q, b'') \<Rightarrow> (Inr q, b'', r'))))"

definition unregister_listener ::
  "bool \<Rightarrow> nat \<Rightarrow> nat \<Rightarrow> bool \<Rightarrow> broadcaster \<Rightarrow> redis \<Rightarrow> broadcaster \<times> redis" where
  \<comment> \<open>of the user with this id; the counts never go below zero\<close>
  "unregister_listener up uid q admin b r =
     (let b1 = b\<lparr>bc_meta := filter (\<lambda>(k, m). k \<noteq> q) (bc_meta b),
                 bc_stream_count := bc_stream_count b - 1\<rparr>;
          b2 = (if admin
                then b1\<lparr>bc_admin := filter (\<lambda>k. k \<noteq> q) (bc_admin b1),
                        bc_admin_counts := (bc_admin_counts b1)(uid := bc_admin_counts b1 uid - 1)\<rparr>
                else b1\<lparr>bc_local := filter (\<lambda>x. x \<noteq> (uid, q)) (bc_local b1)\<rparr>);
          b3 = b2\<lparr>bc_user_counts := (bc_user_counts b2)(uid := bc_user_counts b2 uid - 1)\<rparr>;
          b4 = (if admin then (if bc_admin b3 = [] then b3\<lparr>bc_admin_sub := False\<rparr> else b3)
                else if queues_of uid b3 = []
                then b3\<lparr>bc_tenant_subs := filter (\<lambda>v. v \<noteq> uid) (bc_tenant_subs b3)\<rparr> else b3)
      in (b4, if bc_redis b \<and> up
              then r\<lparr>rd_counts := (rd_counts r)(uid := max 0 (rd_counts r uid - 1))\<rparr> else r))"

subsection \<open>Tickets\<close>

text \<open>
  A call of Redis is answered, or it raises: either the server never ran it, or it did and the answer
  got lost.
\<close>

datatype reply = Answered | Refused | Lost

record ticket_calls =
  rc_getdel :: reply
  rc_get :: reply
  rc_between :: "redis \<Rightarrow> redis" \<comment> \<open>what other requests do between \<open>GET\<close> and \<open>DELETE\<close>\<close>
  rc_delete :: reply

definition create_stream_ticket ::
  "reply \<Rightarrow> env \<Rightarrow> nat \<Rightarrow> broadcaster \<Rightarrow> redis \<Rightarrow> string \<times> broadcaster \<times> redis" where
  "create_stream_ticket put e uid b r =
     (let ticket = ''st_'' @ uuids e 0; entry = Some (uid, now e + seconds TICKET_TTL_SECONDS)
      in (ticket,
          (if bc_redis b \<and> put = Answered then b else b\<lparr>bc_tickets := (bc_tickets b)(ticket := entry)\<rparr>),
          (if bc_redis b \<and> put \<noteq> Refused then r\<lparr>rd_tickets := (rd_tickets r)(ticket := entry)\<rparr> else r)))"

definition redis_get :: "env \<Rightarrow> string \<Rightarrow> redis \<Rightarrow> nat option" where
  \<comment> \<open>a key is gone when its time to live has passed\<close>
  "redis_get e ticket r =
     (case rd_tickets r ticket of Some (uid, ends) \<Rightarrow> if now e < ends then Some uid else None | None \<Rightarrow> None)"

definition redis_delete :: "string \<Rightarrow> redis \<Rightarrow> redis" where
  "redis_delete ticket r = r\<lparr>rd_tickets := (rd_tickets r)(ticket := None)\<rparr>"

definition burn_redis_ticket :: "ticket_calls \<Rightarrow> env \<Rightarrow> string \<Rightarrow> redis \<Rightarrow> nat option \<times> redis" where
  \<comment> \<open>\<open>GETDEL\<close>; when it raises, \<open>GET\<close> and then \<open>DELETE\<close>\<close>
  "burn_redis_ticket w e ticket r =
     (if rc_getdel w = Answered then (redis_get e ticket r, redis_delete ticket r)
      else
        let r0 = (if rc_getdel w = Lost then redis_delete ticket r else r)
        in if rc_get w \<noteq> Answered then (None, r0)
           else case redis_get e ticket r0 of
                  None \<Rightarrow> (None, r0)
                | Some uid \<Rightarrow>
                    let r1 = rc_between w r0
                    in (if rc_delete w = Answered then Some uid else None,
                        if rc_delete w = Refused then r1 else redis_delete ticket r1))"

definition burn_memory_ticket :: "env \<Rightarrow> string \<Rightarrow> broadcaster \<Rightarrow> nat option \<times> broadcaster" where
  "burn_memory_ticket e ticket b =
     ((case bc_tickets b ticket of
         Some (uid, ends) \<Rightarrow> if now e \<le> ends then Some uid else None | None \<Rightarrow> None),
      b\<lparr>bc_tickets := (bc_tickets b)(ticket := None)\<rparr>)"

definition validate_and_burn_stream_ticket ::
  "ticket_calls \<Rightarrow> env \<Rightarrow> string \<Rightarrow> broadcaster \<Rightarrow> redis \<Rightarrow> nat option \<times> broadcaster \<times> redis" where
  "validate_and_burn_stream_ticket w e ticket b r =
     (if \<not> starts_with ''st_'' ticket then (None, b, r)
      else case (if bc_redis b then burn_redis_ticket w e ticket r else (None, r)) of
             (Some uid, r') \<Rightarrow> (Some uid, b, r')
           | (None, r') \<Rightarrow>
               (case burn_memory_ticket e ticket b of (res, b') \<Rightarrow> (res, b', r')))"

subsection \<open>Replay\<close>

definition replay_envelope :: "bool \<Rightarrow> soc_event \<Rightarrow> envelope" where
  "replay_envelope admin v =
     \<lparr>en_cursor_id = se_cursor_id v, en_event_id = se_event_id v, en_event_type = se_event_type v,
      en_timestamp = se_created_at v, en_tenant_id = se_tenant_id v, en_channel = se_channel v,
      en_aggregate_id = se_aggregate_id v,
      en_data = (if admin then sanitize_payload_secrets (se_payload v) else se_payload v)\<rparr>"

definition stream_rows :: "nat \<Rightarrow> bool \<Rightarrow> store \<Rightarrow> soc_event list" where
  "stream_rows tenant admin s = filter (\<lambda>v. admin \<or> se_tenant_id v = tenant) (st_stream s)"

definition get_replay_events ::
  "nat \<Rightarrow> int \<Rightarrow> nat \<Rightarrow> bool \<Rightarrow> store \<Rightarrow> envelope list \<times> bool" where
  "get_replay_events tenant last_id k admin s =
     (let rows = stream_rows tenant admin s
      in if rows \<noteq> [] \<and> last_id < int (Min (se_cursor_id ` set rows)) - 1 then ([], True)
         else (map (replay_envelope admin)
                 (take k (sort_key se_cursor_id (filter (\<lambda>v. int (se_cursor_id v) > last_id) rows))),
               False))"

subsection \<open>Queues\<close>

definition critical_item :: "item \<Rightarrow> bool" where
  "critical_item i = (case i of Event en \<Rightarrow> is_critical_event en | _ \<Rightarrow> False)"

lemma critical_not_evictable: "critical_item i \<Longrightarrow> \<not> evictable i"
  by (cases i) (simp_all add: critical_item_def evictable_def)

lemma evict_oldest_None: "evict_oldest q = None \<longleftrightarrow> (\<forall>i\<in>set q. \<not> evictable i)"
  by (induction q) auto

lemma evict_oldest_Some:
  "evict_oldest q = Some q' \<Longrightarrow>
     \<exists>xs en ys. q = xs @ Event en # ys \<and> q' = xs @ ys \<and> \<not> is_critical_event en \<and> (\<forall>i\<in>set xs. \<not> evictable i)"
proof (induction q arbitrary: q')
  case (Cons i q)
  show ?case
  proof (cases "evictable i")
    case True
    then obtain en where "i = Event en" "\<not> is_critical_event en" by (cases i) (auto simp: evictable_def)
    then show ?thesis using True Cons.prems by (intro exI [of _ "[]"]) auto
  next
    case False
    then obtain r where r: "evict_oldest q = Some r" "q' = i # r" using Cons.prems by auto
    obtain xs e ys where "q = xs @ Event e # ys" "r = xs @ ys" "\<not> is_critical_event e" "\<forall>i\<in>set xs. \<not> evictable i"
      using Cons.IH [OF r(1)] by blast
    then show ?thesis using False r(2) by (intro exI [of _ "i # xs"] exI [of _ e] exI [of _ ys]) auto
  qed
qed simp

lemma enqueue_cases:
  obtains (room) "length q < MAX_QUEUE_SIZE" "enqueue q en = q @ [Event en]"
    | (evicted) xs old ys where "MAX_QUEUE_SIZE \<le> length q" "q = xs @ Event old # ys" "\<not> is_critical_event old"
        "\<forall>i\<in>set xs. \<not> evictable i" "enqueue q en = xs @ ys @ [Event en]"
    | (dropped) "MAX_QUEUE_SIZE \<le> length q" "\<forall>i\<in>set q. \<not> evictable i" "\<not> is_critical_event en" "enqueue q en = q"
    | (overflow) "MAX_QUEUE_SIZE \<le> length q" "\<forall>i\<in>set q. \<not> evictable i" "is_critical_event en"
        "enqueue q en = put_nowait (StreamOverflow (int (en_cursor_id en) - 1)) (butlast q)"
proof (cases "length q < MAX_QUEUE_SIZE")
  case True
  then show thesis by (intro room) (simp_all add: enqueue_def)
next
  case False
  show thesis
  proof (cases "evict_oldest q")
    case None
    then have "\<forall>i\<in>set q. \<not> evictable i" by (simp add: evict_oldest_None)
    then show thesis using False None dropped overflow by (cases "is_critical_event en") (auto simp: enqueue_def)
  next
    case (Some q')
    then obtain xs old ys where "q = xs @ Event old # ys" "q' = xs @ ys" "\<not> is_critical_event old"
        "\<forall>i\<in>set xs. \<not> evictable i"
      using evict_oldest_Some by blast
    then show thesis using False Some by (intro evicted [of xs old ys]) (simp_all add: enqueue_def)
  qed
qed

lemma put_nowait_bounds:
  "length q \<le> MAX_QUEUE_SIZE \<Longrightarrow> length (put_nowait i q) \<le> MAX_QUEUE_SIZE" "set (put_nowait i q) \<subseteq> insert i (set q)"
  by (auto simp: put_nowait_def)

lemma enqueue_bounds:
  assumes "length q \<le> MAX_QUEUE_SIZE" shows "length (enqueue q en) \<le> MAX_QUEUE_SIZE"
  using assms put_nowait_bounds(1) [of "butlast q"] by (cases q en rule: enqueue_cases) auto

lemma enqueue_events: "Event x \<in> set (enqueue q en) \<Longrightarrow> x = en \<or> Event x \<in> set q"
  by (cases q en rule: enqueue_cases) (auto simp: put_nowait_def split: if_splits dest: in_set_butlastD)


text \<open>
  An overflow skips a critical event.  When a queue is full of items that may not be evicted
  and a critical event arrives, the newest queued item is discarded with it and the frame names the
  cursor before the arriving event as delivered.  If the discarded item is an earlier event, then a
  client that reconnects from that cursor is never sent it, although it is stored.
\<close>

theorem overflow_skips_critical_event:
  assumes full: "length q = MAX_QUEUE_SIZE" "\<forall>i\<in>set q. \<not> evictable i" and crit: "is_critical_event en"
    and lost: "last q = Event x" "en_cursor_id x < en_cursor_id en"
  shows "enqueue q en = butlast q @ [StreamOverflow (int (en_cursor_id en) - 1)] \<and> is_critical_event x \<and>
    en_cursor_id x \<notin> en_cursor_id ` set (fst (get_replay_events t (int (en_cursor_id en) - 1) k admin s))"
proof -
  have q: "q \<noteq> []" using full(1) by (auto simp: MAX_QUEUE_SIZE_def)
  have "evict_oldest q = None" using full(2) by (simp add: evict_oldest_None)
  then have e: "enqueue q en = butlast q @ [StreamOverflow (int (en_cursor_id en) - 1)]"
    using full(1) crit q by (simp add: enqueue_def put_nowait_def MAX_QUEUE_SIZE_def)
  have "last q \<in> set q" using q by simp
  then have c: "is_critical_event x" using full(2) lost(1) by (auto simp: evictable_def)
  have "int (en_cursor_id v) > int (en_cursor_id en) - 1"
    if "v \<in> set (fst (get_replay_events t (int (en_cursor_id en) - 1) k admin s))" for v
    using that
    by (auto simp: get_replay_events_def Let_def replay_envelope_def split: if_splits dest!: in_set_takeD)
  then have "en_cursor_id x \<notin> en_cursor_id ` set (fst (get_replay_events t (int (en_cursor_id en) - 1) k admin s))"
    using lost(2) by fastforce
  then show ?thesis using e c by blast
qed

subsection \<open>Tickets are used once\<close>

text \<open>Presentations of a ticket at several pods, one after another.\<close>

type_synonym presentation = "nat \<times> ticket_calls \<times> env"

fun present_ticket ::
  "string \<Rightarrow> presentation list \<Rightarrow> (nat \<Rightarrow> broadcaster) \<times> redis \<Rightarrow> nat option list" where
  "present_ticket ticket [] x = []"
| "present_ticket ticket ((p, w, e) # ps) (pods, r) =
     (case validate_and_burn_stream_ticket w e ticket (pods p) r of
        (res, b, r') \<Rightarrow> res # present_ticket ticket ps (pods(p := b), r'))"

definition undisturbed :: "presentation \<Rightarrow> bool" where
  \<comment> \<open>no other request comes between the two calls of the fallback\<close>
  "undisturbed = (\<lambda>(p, w, e). rc_getdel w = Answered \<or> rc_between w = (\<lambda>r. r))"

definition one_copy :: "string \<Rightarrow> nat \<Rightarrow> time \<Rightarrow> (nat \<Rightarrow> broadcaster) \<times> redis \<Rightarrow> bool" where
  \<comment> \<open>a ticket is stored in one place at most, for its user\<close>
  "one_copy ticket uid ends = (\<lambda>(pods, r).
     rd_tickets r ticket \<in> {None, Some (uid, ends)} \<and>
     (\<forall>p. bc_tickets (pods p) ticket \<in> {None, Some (uid, ends)}) \<and>
     (rd_tickets r ticket \<noteq> None \<longrightarrow> (\<forall>p. bc_tickets (pods p) ticket = None)) \<and>
     (\<forall>p q. bc_tickets (pods p) ticket \<noteq> None \<and> bc_tickets (pods q) ticket \<noteq> None \<longrightarrow> p = q))"

definition no_copy :: "string \<Rightarrow> (nat \<Rightarrow> broadcaster) \<times> redis \<Rightarrow> bool" where
  "no_copy ticket = (\<lambda>(pods, r). rd_tickets r ticket = None \<and> (\<forall>p. bc_tickets (pods p) ticket = None))"

lemmas ticket_defs = validate_and_burn_stream_ticket_def burn_redis_ticket_def redis_get_def redis_delete_def
  burn_memory_ticket_def

lemma burn_redis_copy:
  assumes "burn_redis_ticket w e ticket r = (res, r')" "rc_getdel w = Answered \<or> rc_between w = (\<lambda>r. r)"
  shows "rd_tickets r' ticket = rd_tickets r ticket \<or> rd_tickets r' ticket = None"
    "res = None \<or> (\<exists>ends. rd_tickets r ticket = Some (the res, ends) \<and> now e < ends) \<and> rd_tickets r' ticket = None"
  using assms
  by (auto simp: burn_redis_ticket_def redis_get_def redis_delete_def Let_def split: if_splits option.splits)

lemma burn_memory_copy:
  assumes "burn_memory_ticket e ticket b = (res, b')"
  shows "bc_tickets b' ticket = None"
    "res = None \<or> (\<exists>ends. bc_tickets b ticket = Some (the res, ends) \<and> now e \<le> ends)"
  using assms by (auto simp: burn_memory_ticket_def split: option.splits if_splits)

lemma burn_ticket_copy:
  assumes "validate_and_burn_stream_ticket w e ticket b r = (res, b', r')" "undisturbed (p, w, e)"
  shows "rd_tickets r' ticket = rd_tickets r ticket \<or> rd_tickets r' ticket = None"
    "bc_tickets b' ticket = bc_tickets b ticket \<or> bc_tickets b' ticket = None"
    "res = None \<or>
     (\<exists>ends. rd_tickets r ticket = Some (the res, ends) \<and> now e \<le> ends \<and> rd_tickets r' ticket = None) \<or>
     (\<exists>ends. bc_tickets b ticket = Some (the res, ends) \<and> now e \<le> ends \<and> bc_tickets b' ticket = None)"
proof -
  define x where "x = (if bc_redis b then burn_redis_ticket w e ticket r else (None, r))"
  obtain o1 r1 where x1: "x = (o1, r1)" by (cases x)
  obtain o2 b2 where m: "burn_memory_ticket e ticket b = (o2, b2)" by (metis prod.collapse)
  have u: "rc_getdel w = Answered \<or> rc_between w = (\<lambda>r. r)" using assms(2) by (simp add: undisturbed_def)
  have one: "rd_tickets r1 ticket = rd_tickets r ticket \<or> rd_tickets r1 ticket = None"
    "o1 = None \<or> (\<exists>ends. rd_tickets r ticket = Some (the o1, ends) \<and> now e < ends) \<and> rd_tickets r1 ticket = None"
    using burn_redis_copy [OF _ u] x1 unfolding x_def by (auto split: if_splits)
  note two = burn_memory_copy [OF m]
  show "rd_tickets r' ticket = rd_tickets r ticket \<or> rd_tickets r' ticket = None"
    "bc_tickets b' ticket = bc_tickets b ticket \<or> bc_tickets b' ticket = None"
    using assms(1) one(1) two(1) x1
    by (auto simp: validate_and_burn_stream_ticket_def m x_def [symmetric] split: if_splits option.splits)
  show "res = None \<or>
     (\<exists>ends. rd_tickets r ticket = Some (the res, ends) \<and> now e \<le> ends \<and> rd_tickets r' ticket = None) \<or>
     (\<exists>ends. bc_tickets b ticket = Some (the res, ends) \<and> now e \<le> ends \<and> bc_tickets b' ticket = None)"
    using assms(1) one(2) two x1
    by (auto simp: validate_and_burn_stream_ticket_def m x_def [symmetric] split: if_splits option.splits
        intro: less_imp_le)
qed

lemma one_copyD:
  assumes "one_copy ticket uid ends (pods, r)"
  shows "rd_tickets r ticket = Some y \<Longrightarrow> y = (uid, ends)" "bc_tickets (pods p) ticket = Some y \<Longrightarrow> y = (uid, ends)"
    "rd_tickets r ticket = Some y \<Longrightarrow> bc_tickets (pods p) ticket = None"
    "bc_tickets (pods p) ticket = Some y \<Longrightarrow> rd_tickets r ticket = None"
    "bc_tickets (pods p) ticket = Some y \<Longrightarrow> q \<noteq> p \<Longrightarrow> bc_tickets (pods q) ticket = None"
proof -
  have c: "rd_tickets r ticket \<in> {None, Some (uid, ends)}" "bc_tickets (pods p) ticket \<in> {None, Some (uid, ends)}"
    "rd_tickets r ticket \<noteq> None \<Longrightarrow> bc_tickets (pods p) ticket = None"
    "bc_tickets (pods p) ticket \<noteq> None \<Longrightarrow> bc_tickets (pods q) ticket \<noteq> None \<Longrightarrow> p = q"
    using assms unfolding one_copy_def prod.case by blast+
  show "rd_tickets r ticket = Some y \<Longrightarrow> y = (uid, ends)" using c(1) by auto
  show "bc_tickets (pods p) ticket = Some y \<Longrightarrow> y = (uid, ends)" using c(2) by auto
  show "rd_tickets r ticket = Some y \<Longrightarrow> bc_tickets (pods p) ticket = None" using c(3) by simp
  show "bc_tickets (pods p) ticket = Some y \<Longrightarrow> rd_tickets r ticket = None"
    using c(3) by (cases "rd_tickets r ticket") simp_all
  show "bc_tickets (pods p) ticket = Some y \<Longrightarrow> q \<noteq> p \<Longrightarrow> bc_tickets (pods q) ticket = None"
    using c(4) by (cases "bc_tickets (pods q) ticket") auto
qed

lemma one_copy_redis:
  "\<lbrakk>rd_tickets r ticket = Some (uid, ends); \<forall>p. bc_tickets (pods p) ticket = None\<rbrakk> \<Longrightarrow> one_copy ticket uid ends (pods, r)"
  by (simp add: one_copy_def)

lemma one_copy_memory:
  assumes "rd_tickets r ticket = None" "bc_tickets (pods p0) ticket = Some (uid, ends)"
    "\<forall>q. q \<noteq> p0 \<longrightarrow> bc_tickets (pods q) ticket = None"
  shows "one_copy ticket uid ends (pods, r)"
proof -
  have "bc_tickets (pods q) ticket \<in> {None, Some (uid, ends)}" for q using assms(2,3) by (cases "q = p0") auto
  moreover have "p = q" if "bc_tickets (pods p) ticket \<noteq> None" "bc_tickets (pods q) ticket \<noteq> None" for p q
    using that assms(3) by metis
  ultimately show ?thesis using assms(1) unfolding one_copy_def by simp
qed

lemma create_ticket_cases:
  assumes "create_stream_ticket put e uid b r = (ticket, b1, r1)" "put \<noteq> Lost"
  obtains (in_redis) "bc_redis b" "put = Answered" "b1 = b"
      "rd_tickets r1 ticket = Some (uid, now e + seconds TICKET_TTL_SECONDS)"
    | (in_memory) "\<not> (bc_redis b \<and> put = Answered)" "r1 = r"
      "bc_tickets b1 ticket = Some (uid, now e + seconds TICKET_TTL_SECONDS)"
  using assms by (cases "bc_redis b"; cases put) (auto simp: create_stream_ticket_def Let_def)

lemma one_copy_fewer:
  assumes "one_copy ticket uid ends (pods, r)"
    and r: "rd_tickets r' ticket = rd_tickets r ticket \<or> rd_tickets r' ticket = None"
    and b: "\<And>q. bc_tickets (pods' q) ticket = bc_tickets (pods q) ticket \<or> bc_tickets (pods' q) ticket = None"
  shows "one_copy ticket uid ends (pods', r')"
proof -
  have c: "rd_tickets r ticket \<in> {None, Some (uid, ends)}" "\<And>p. bc_tickets (pods p) ticket \<in> {None, Some (uid, ends)}"
    "\<And>p. rd_tickets r ticket \<noteq> None \<Longrightarrow> bc_tickets (pods p) ticket = None"
    "\<And>p q. bc_tickets (pods p) ticket \<noteq> None \<Longrightarrow> bc_tickets (pods q) ticket \<noteq> None \<Longrightarrow> p = q"
    using assms(1) unfolding one_copy_def prod.case by blast+
  have "rd_tickets r' ticket \<in> {None, Some (uid, ends)}" using c(1) r by auto
  moreover have "bc_tickets (pods' p) ticket \<in> {None, Some (uid, ends)}" for p using c(2) [of p] b [of p] by auto
  moreover have "bc_tickets (pods' p) ticket = None" if "rd_tickets r' ticket \<noteq> None" for p
    using that r b [of p] c(3) [of p] by metis
  moreover have "p = q" if "bc_tickets (pods' p) ticket \<noteq> None" "bc_tickets (pods' q) ticket \<noteq> None" for p q
    using that b [of p] b [of q] c(4) [of p q] by metis
  ultimately show ?thesis unfolding one_copy_def prod.case by blast
qed

lemma present_one:
  assumes "one_copy ticket uid ends (pods, r)" "undisturbed (p, w, e)"
    and "validate_and_burn_stream_ticket w e ticket (pods p) r = (res, b, r')"
  shows "one_copy ticket uid ends (pods(p := b), r')"
    "res = None \<or> res = Some uid \<and> now e \<le> ends \<and> no_copy ticket (pods(p := b), r')"
proof -
  note burn = burn_ticket_copy [OF assms(3,2)]
  show "one_copy ticket uid ends (pods(p := b), r')"
    by (rule one_copy_fewer [OF assms(1) burn(1)]) (use burn(2) in simp)
  show "res = None \<or> res = Some uid \<and> now e \<le> ends \<and> no_copy ticket (pods(p := b), r')"
    using burn(3)
  proof (elim disjE exE conjE)
    fix ends' assume a: "rd_tickets r ticket = Some (the res, ends')" "now e \<le> ends'" "rd_tickets r' ticket = None"
    have "bc_tickets (pods q) ticket = None" for q by (rule one_copyD(3) [OF assms(1) a(1)])
    then show ?thesis using one_copyD(1) [OF assms(1) a(1)] a burn(2) by (cases res) (auto simp: no_copy_def)
  next
    fix ends' assume a: "bc_tickets (pods p) ticket = Some (the res, ends')" "now e \<le> ends'" "bc_tickets b ticket = None"
    have "bc_tickets (pods q) ticket = None" if "q \<noteq> p" for q by (rule one_copyD(5) [OF assms(1) a(1) that])
    then show ?thesis
      using one_copyD(2,4) [OF assms(1) a(1)] a burn(1) by (cases res) (auto simp: no_copy_def)
  qed simp
qed

lemma no_copy_refused:
  assumes "no_copy ticket (pods, r)" "undisturbed (p, w, e)"
    and "validate_and_burn_stream_ticket w e ticket (pods p) r = (res, b, r')"
  shows "res = None \<and> no_copy ticket (pods(p := b), r')"
  using burn_ticket_copy [OF assms(3,2)] assms(1) by (auto simp: no_copy_def)

lemma no_copy_run:
  "no_copy ticket (pods, r) \<Longrightarrow> list_all undisturbed ps \<Longrightarrow> set (present_ticket ticket ps (pods, r)) \<subseteq> {None}"
proof (induction ps arbitrary: pods r)
  case (Cons x ps)
  obtain p w e where x: "x = (p, w, e)" by (metis prod_cases3)
  obtain res b r' where v: "validate_and_burn_stream_ticket w e ticket (pods p) r = (res, b, r')" by (metis prod_cases3)
  have n: "res = None \<and> no_copy ticket (pods(p := b), r')"
    by (rule no_copy_refused [where pods = pods and r = r]) (use Cons.prems v in \<open>simp_all add: x\<close>)
  have "list_all undisturbed ps" using Cons.prems by simp
  from Cons.IH [of "pods(p := b)" r', OF _ this] show ?case using n by (simp add: x v del: fun_upd_apply)
qed simp

lemma one_copy_run:
  "one_copy ticket uid ends (pods, r) \<Longrightarrow> list_all undisturbed ps \<Longrightarrow>
     set (present_ticket ticket ps (pods, r)) \<subseteq> {None, Some uid} \<and>
     length (filter (\<lambda>res. res \<noteq> None) (present_ticket ticket ps (pods, r))) \<le> 1 \<and>
     (list_all (\<lambda>(p, w, e). ends < now e) ps \<longrightarrow> set (present_ticket ticket ps (pods, r)) \<subseteq> {None})"
proof (induction ps arbitrary: pods r)
  case (Cons x ps)
  obtain p w e where x: "x = (p, w, e)" by (metis prod_cases3)
  obtain res b r' where v: "validate_and_burn_stream_ticket w e ticket (pods p) r = (res, b, r')" by (metis prod_cases3)
  have u: "undisturbed (p, w, e)" "list_all undisturbed ps" using Cons.prems by (simp_all add: x)
  note one = present_one [where pods = pods, OF Cons.prems(1) u(1) v]
  note ih = Cons.IH [of "pods(p := b)" r', OF one(1) u(2)]
  show ?case
  proof (cases res)
    case None
    then show ?thesis using ih by (simp add: x v del: fun_upd_apply)
  next
    case (Some i)
    then have i: "i = uid" "now e \<le> ends" and n: "no_copy ticket (pods(p := b), r')" using one(2) by simp_all
    have none: "set (present_ticket ticket ps (pods(p := b), r')) \<subseteq> {None}" by (rule no_copy_run [OF n u(2)])
    then have "filter (\<lambda>res. res \<noteq> None) (present_ticket ticket ps (pods(p := b), r')) = []"
      by (auto simp: filter_empty_conv)
    then show ?thesis using none Some i by (auto simp: x v simp del: fun_upd_apply)
  qed
qed simp

text \<open>
  C37: a stream ticket is good for one stream.  Let it be made in one of several pods that share one
  Redis, none of which holds it yet, and let the \<open>SET\<close> be answered or not be run (its answer is not
  lost).  However often it is then presented, one presentation after another, in whatever pods and
  whichever calls of Redis then raise, it is accepted for its own user, once at most, and never after
  its time; and the first presentation within its time is accepted if it is made where the ticket is
  stored: in any pod while Redis answers \<open>GETDEL\<close>, or, when the \<open>SET\<close> failed, in the pod that made it.
\<close>

theorem ticket_single_use:
  assumes mk: "create_stream_ticket put e uid (pods p0) r = (ticket, b1, r1)" and put: "put \<noteq> Lost"
    and fresh: "rd_tickets r ticket = None" "\<forall>p. bc_tickets (pods p) ticket = None"
    and turns: "list_all undisturbed ps"
  defines "results \<equiv> present_ticket ticket ps (pods(p0 := b1), r1)"
  shows "set results \<subseteq> {None, Some uid} \<and>
    length (filter (\<lambda>res. res \<noteq> None) results) \<le> 1 \<and>
    (list_all (\<lambda>(p, w, e'). now e + seconds TICKET_TTL_SECONDS < now e') ps \<longrightarrow> set results \<subseteq> {None}) \<and>
    (case ps of [] \<Rightarrow> True
     | (p, w, e') # _ \<Rightarrow>
         now e' < now e + seconds TICKET_TTL_SECONDS \<and>
         (if bc_redis (pods p0) \<and> put = Answered then bc_redis (pods p) \<and> rc_getdel w = Answered else p = p0) \<longrightarrow>
         hd results = Some uid)"
proof -
  let ?ends = "now e + seconds TICKET_TTL_SECONDS"
  have st: "starts_with ''st_'' ticket" using mk by (auto simp: create_stream_ticket_def Let_def)
  have "one_copy ticket uid ?ends (pods(p0 := b1), r1)"
    using mk put
  proof (cases rule: create_ticket_cases)
    case in_redis
    then show ?thesis using fresh(2) by (intro one_copy_redis) auto
  next
    case in_memory
    then show ?thesis using fresh by (intro one_copy_memory [of _ _ _ p0]) auto
  qed
  note run = one_copy_run [OF this turns]
  have first: "fst (validate_and_burn_stream_ticket w e' ticket ((pods(p0 := b1)) p) r1) = Some uid"
    if "now e' < ?ends"
      "if bc_redis (pods p0) \<and> put = Answered then bc_redis (pods p) \<and> rc_getdel w = Answered else p = p0" for p w e'
    using mk put
  proof (cases rule: create_ticket_cases)
    case in_redis
    then show ?thesis using that st by (simp add: ticket_defs)
  next
    case in_memory
    then show ?thesis using that st fresh by (auto simp: ticket_defs Let_def)
  qed
  have now: "hd results = Some uid"
    if "ps = (p, w, e') # qs" "now e' < ?ends"
      "if bc_redis (pods p0) \<and> put = Answered then bc_redis (pods p) \<and> rc_getdel w = Answered else p = p0" for p w e' qs
    using first [OF that(2,3)] that(1) unfolding results_def
    by (simp add: prod.case_eq_if split_beta del: fun_upd_apply)
  show ?thesis
  proof (cases ps)
    case Nil
    then show ?thesis using run unfolding results_def by simp
  next
    case (Cons x qs)
    then show ?thesis using run now unfolding results_def by (cases x) simp
  qed
qed

text \<open>
  The fallback is not atomic: when \<open>GETDEL\<close> raises in two requests and both \<open>GET\<close> before either
  \<open>DELETE\<close>s, the ticket opens two streams.
\<close>

theorem ticket_fallback_used_twice:
  assumes "starts_with ''st_'' ticket" "rd_tickets r ticket = Some (uid, ends)" "now e < ends" "now e' < ends"
    and "bc_redis b" "rc_getdel w = Refused" "rc_get w = Answered" "rc_delete w = Answered"
    and "bc_redis b'" "rc_getdel w' = Refused" "rc_get w' = Answered" "rc_delete w' = Answered"
    and "rc_between w = (\<lambda>r. snd (snd (validate_and_burn_stream_ticket w' e' ticket b' r)))"
  shows "fst (validate_and_burn_stream_ticket w e ticket b r) = Some uid \<and>
    fst (validate_and_burn_stream_ticket w' e' ticket b' r) = Some uid"
  using assms by (simp add: ticket_defs Let_def)

text \<open>When the answer of the \<open>SET\<close> is lost, the ticket is stored in Redis and in the pod and is good for two streams.\<close>

theorem lost_reply_two_uses:
  assumes "create_stream_ticket Lost e uid b r = (ticket, b1, r1)" "bc_redis b"
    and "now e' < now e + seconds TICKET_TTL_SECONDS" "rc_getdel w = Answered"
    and "validate_and_burn_stream_ticket w e' ticket b1 r1 = (res, b2, r2)"
  shows "res = Some uid \<and> fst (validate_and_burn_stream_ticket w e' ticket b2 r2) = Some uid"
  using assms by (auto simp: create_stream_ticket_def ticket_defs Let_def)

subsection \<open>Replay\<close>

lemma stream_rows_sorted:
  assumes "sorted (map se_cursor_id (st_stream s))"
  shows "sort_key se_cursor_id (filter p (stream_rows t admin s)) = filter p (stream_rows t admin s)"
  unfolding stream_rows_def by (intro sort_key_id_if_sorted sorted_filter) (rule assms)

text \<open>
  C36: a replay has no gap while something is left to notice it by.  Let \<open>H\<close> be all events ever stored,
  of which retention has removed those before cursor \<open>p\<close>, and call an event visible when the caller is
  an administrator or it is of the caller's tenant.  As long as a visible event is left, a
  replay that is not refused returns exactly the first \<open>k\<close> of all visible events ever stored after the
  given cursor, in order, as if nothing had been removed; and it is refused only when the cursor lies
  before every visible event left.  When no visible event is left, the replay is empty and not refused,
  so that nothing tells the client what it missed.
\<close>

theorem replay_no_gap:
  assumes order: "cursor_ordered se_cursor_id n H"
    and kept: "st_stream s = filter (\<lambda>v. p \<le> se_cursor_id v) H"
    and run: "get_replay_events t last_id k admin s = (evs, expired)"
  shows "((\<exists>v\<in>set (st_stream s). admin \<or> se_tenant_id v = t) \<longrightarrow>
      (\<not> expired \<longrightarrow>
        map en_cursor_id evs =
          map se_cursor_id (take k (filter (\<lambda>v. (admin \<or> se_tenant_id v = t) \<and> int (se_cursor_id v) > last_id) H)) \<and>
        (\<forall>en\<in>set evs. admin \<or> en_tenant_id en = t)) \<and>
      (expired \<longrightarrow> evs = [] \<and>
        (\<forall>v\<in>set (st_stream s). admin \<or> se_tenant_id v = t \<longrightarrow> last_id + 1 < int (se_cursor_id v)))) \<and>
    (\<not> (\<exists>v\<in>set (st_stream s). admin \<or> se_tenant_id v = t) \<longrightarrow> evs = [] \<and> \<not> expired)"
proof (cases "stream_rows t admin s = []")
  case True
  then have "\<not> (\<exists>v\<in>set (st_stream s). admin \<or> se_tenant_id v = t)" by (auto simp: stream_rows_def filter_empty_conv)
  then show ?thesis using run True by (auto simp: get_replay_events_def)
next
  case left: False
  let ?rows = "stream_rows t admin s"
  have some: "\<exists>v\<in>set (st_stream s). admin \<or> se_tenant_id v = t"
    using left by (auto simp: stream_rows_def filter_empty_conv)
  have sorted: "sorted (map se_cursor_id (st_stream s))"
    using order unfolding kept cursor_ordered_def by (auto intro: sorted_filter strict_sorted_imp_sorted)
  have min: "Min (se_cursor_id ` set ?rows) \<in> se_cursor_id ` set ?rows" using left by (intro Min_in) auto
  have least: "Min (se_cursor_id ` set ?rows) \<le> se_cursor_id v" if "v \<in> set (st_stream s)" "admin \<or> se_tenant_id v = t" for v
    using that by (intro Min_le) (auto simp: stream_rows_def)
  show ?thesis
  proof (cases "last_id < int (Min (se_cursor_id ` set ?rows)) - 1")
    case True
    then have "evs = [] \<and> expired" using run left by (simp add: get_replay_events_def)
    moreover have "last_id + 1 < int (se_cursor_id v)" if "v \<in> set (st_stream s)" "admin \<or> se_tenant_id v = t" for v
      using True least [OF that] by linarith
    ultimately show ?thesis using some by blast
  next
    case False
    have "p \<le> Min (se_cursor_id ` set ?rows)" using min by (auto simp: stream_rows_def kept)
    then have same: "filter (\<lambda>v. int (se_cursor_id v) > last_id) ?rows =
        filter (\<lambda>v. (admin \<or> se_tenant_id v = t) \<and> int (se_cursor_id v) > last_id) H"
      using False unfolding stream_rows_def kept filter_filter by (intro filter_cong) auto
    have "evs = map (replay_envelope admin)
        (take k (filter (\<lambda>v. (admin \<or> se_tenant_id v = t) \<and> int (se_cursor_id v) > last_id) H)) \<and> \<not> expired"
      using run False stream_rows_sorted [OF sorted, of "\<lambda>v. int (se_cursor_id v) > last_id" t admin]
      by (simp add: get_replay_events_def same)
    then show ?thesis using some by (auto simp: replay_envelope_def dest!: in_set_takeD)
  qed
qed

subsection \<open>Runs\<close>

datatype bc_op =
    Subscribe bool user string "string option" bool
  | Close bool nat
  | Publish env publish
  | FromTenantChannel "string \<times> envelope"
  | FromAdminChannel "string \<times> envelope"
  | Control item
  | Consume nat

definition exec_bc :: "(dict \<Rightarrow> nat option) \<Rightarrow> bc_op \<Rightarrow> broadcaster \<times> redis \<Rightarrow> broadcaster \<times> redis" where
  \<comment> \<open>a stream closes its own queue, once\<close>
  "exec_bc js x br =
     (case br of (b, r) \<Rightarrow>
        case x of
          Subscribe up u ch sv adm \<Rightarrow> snd (register_listener up u ch sv adm b r)
        | Close up q \<Rightarrow>
            (case map_of (bc_meta b) q of
               None \<Rightarrow> (b, r)
             | Some m \<Rightarrow> unregister_listener up (mt_user_id m) q (mt_is_admin m) b r)
        | Publish e p \<Rightarrow> (publish_event_nowait js e p b, r)
        | FromTenantChannel m \<Rightarrow> (receive_tenant m b, r)
        | FromAdminChannel m \<Rightarrow> (receive_admin m b, r)
        | Control i \<Rightarrow> (case i of Event en \<Rightarrow> (b, r) | _ \<Rightarrow> (broadcast_control i b, r))
        | Consume q \<Rightarrow> (b\<lparr>bc_queues := (bc_queues b)(q := tl (bc_queues b q))\<rparr>, r))"

definition count_meta :: "(stream_meta \<Rightarrow> bool) \<Rightarrow> (nat \<times> stream_meta) list \<Rightarrow> nat" where
  "count_meta p ms = length (filter (\<lambda>(q, m). p m) ms)"

definition registered :: "broadcaster \<Rightarrow> bool" where
  \<comment> \<open>the sets and counters agree with the registered streams\<close>
  "registered b \<longleftrightarrow>
     distinct (map fst (bc_meta b)) \<and> (\<forall>q\<in>fst ` set (bc_meta b). q < bc_next b) \<and>
     bc_stream_count b = length (bc_meta b) \<and>
     bc_admin b = map fst (filter (\<lambda>(q, m). mt_is_admin m) (bc_meta b)) \<and>
     bc_local b = map (\<lambda>(q, m). (mt_user_id m, q)) (filter (\<lambda>(q, m). \<not> mt_is_admin m) (bc_meta b)) \<and>
     (\<forall>u. bc_admin_counts b u = count_meta (\<lambda>m. mt_is_admin m \<and> mt_user_id m = u) (bc_meta b)) \<and>
     (\<not> bc_redis b \<longrightarrow> (\<forall>u. bc_user_counts b u = count_meta (\<lambda>m. mt_user_id m = u) (bc_meta b)))"

definition within_limits :: "broadcaster \<Rightarrow> bool" where
  "within_limits b \<longleftrightarrow>
     length (bc_meta b) \<le> MAX_STREAMS_PER_POD \<and> length (bc_admin b) \<le> MAX_ADMIN_STREAMS_GLOBAL \<and>
     (\<forall>u. bc_admin_counts b u \<le> MAX_ADMIN_STREAMS_PER_USER) \<and>
     (\<not> bc_redis b \<longrightarrow> (\<forall>u. bc_user_counts b u \<le> MAX_STREAMS_PER_USER))"

definition may_see :: "stream_meta \<Rightarrow> envelope \<Rightarrow> bool" where
  \<comment> \<open>an administrator's stream carries scrubbed payloads, another one events of its tenant and channel\<close>
  "may_see m en \<longleftrightarrow>
     (if mt_is_admin m then \<exists>en0. en = sanitize_admin_envelope en0
      else en_tenant_id en = mt_user_id m \<and> (mt_channel m = ''soc'' \<or> mt_channel m = en_channel en))"

definition queues_ok :: "broadcaster \<Rightarrow> bool" where
  "queues_ok b \<longleftrightarrow>
     (\<forall>(q, m)\<in>set (bc_meta b). length (bc_queues b q) \<le> MAX_QUEUE_SIZE \<and>
        (\<forall>en. Event en \<in> set (bc_queues b q) \<longrightarrow> may_see m en))"

lemma count_meta_simps [simp]:
  "count_meta p [] = 0"
  "count_meta p (x # ms) = (if p (snd x) then Suc (count_meta p ms) else count_meta p ms)"
  "count_meta p (ms @ ms') = count_meta p ms + count_meta p ms'"
  by (simp_all add: count_meta_def split_beta)

lemma close_key:
  assumes "distinct (map fst ms)" "map_of ms q = Some m"
  shows "count_meta p (filter (\<lambda>(k, m). k \<noteq> q) ms) = count_meta p ms - (if p m then 1 else 0)"
    "filter (\<lambda>k. k \<noteq> q) (map fst (filter (\<lambda>(k, m). pr m) ms)) =
       map fst (filter (\<lambda>(k, m). pr m) (filter (\<lambda>(k, m). k \<noteq> q) ms))"
    "filter (\<lambda>x. x \<noteq> (mt_user_id m, q)) (map (\<lambda>(k, m). (mt_user_id m, k)) (filter (\<lambda>(k, m). pr m) ms)) =
       map (\<lambda>(k, m). (mt_user_id m, k)) (filter (\<lambda>(k, m). pr m) (filter (\<lambda>(k, m). k \<noteq> q) ms))"
    "\<not> pr m \<Longrightarrow> filter (\<lambda>(k, m). pr m) (filter (\<lambda>(k, m). k \<noteq> q) ms) = filter (\<lambda>(k, m). pr m) ms"
    "length (filter (\<lambda>(k, m). k \<noteq> q) ms) = length ms - 1"
proof -
  have gone: "filter (\<lambda>(k, m). k \<noteq> q) xs = xs" if "q \<notin> fst ` set xs" for xs :: "(nat \<times> stream_meta) list"
    using that by (induction xs) auto
  obtain as bs where ms: "ms = as @ (q, m) # bs" using map_of_SomeD [OF assms(2)] by (meson split_list)
  have q: "q \<notin> fst ` set as" "q \<notin> fst ` set bs" using assms(1) by (auto simp: ms)
  have k: "filter (\<lambda>(k, m). k \<noteq> q) ms = as @ bs" using gone q by (simp add: ms)
  show "count_meta p (filter (\<lambda>(k, m). k \<noteq> q) ms) = count_meta p ms - (if p m then 1 else 0)"
    "length (filter (\<lambda>(k, m). k \<noteq> q) ms) = length ms - 1"
    "\<not> pr m \<Longrightarrow> filter (\<lambda>(k, m). pr m) (filter (\<lambda>(k, m). k \<noteq> q) ms) = filter (\<lambda>(k, m). pr m) ms"
    unfolding k by (simp_all add: ms)
  have "filter (\<lambda>k. k \<noteq> q) (map fst (filter (\<lambda>(k, m). pr m) xs)) = map fst (filter (\<lambda>(k, m). pr m) xs)"
    "filter (\<lambda>x. x \<noteq> (mt_user_id m, q)) (map (\<lambda>(k, m). (mt_user_id m, k)) (filter (\<lambda>(k, m). pr m) xs)) =
       map (\<lambda>(k, m). (mt_user_id m, k)) (filter (\<lambda>(k, m). pr m) xs)"
    if "q \<notin> fst ` set xs" for xs
    using that by (induction xs) auto
  then show "filter (\<lambda>k. k \<noteq> q) (map fst (filter (\<lambda>(k, m). pr m) ms)) =
       map fst (filter (\<lambda>(k, m). pr m) (filter (\<lambda>(k, m). k \<noteq> q) ms))"
    "filter (\<lambda>x. x \<noteq> (mt_user_id m, q)) (map (\<lambda>(k, m). (mt_user_id m, k)) (filter (\<lambda>(k, m). pr m) ms)) =
       map (\<lambda>(k, m). (mt_user_id m, k)) (filter (\<lambda>(k, m). pr m) (filter (\<lambda>(k, m). k \<noteq> q) ms))"
    unfolding k using q by (simp_all add: ms)
qed

text \<open>Everything but the admission and the end of a stream only touches queues.\<close>

definition same_streams :: "broadcaster \<Rightarrow> broadcaster \<Rightarrow> bool" where
  "same_streams b b' \<longleftrightarrow>
     bc_meta b' = bc_meta b \<and> bc_next b' = bc_next b \<and> bc_stream_count b' = bc_stream_count b \<and>
     bc_admin b' = bc_admin b \<and> bc_local b' = bc_local b \<and> bc_admin_counts b' = bc_admin_counts b \<and>
     bc_user_counts b' = bc_user_counts b \<and> bc_redis b' = bc_redis b"

lemma dispatch_same_streams [simp]:
  "same_streams b (dispatch_to_admin_queues en b)" "same_streams b (dispatch_to_local_queues en b)"
  "same_streams b (publish_event_nowait js e p b)" "same_streams b (receive_tenant m b)"
  "same_streams b (receive_admin m b)" "same_streams b (broadcast_control i b)" "same_streams b b"
  by (auto simp: same_streams_def dispatch_to_admin_queues_def dispatch_to_local_queues_def
      publish_event_nowait_def receive_tenant_def receive_admin_def broadcast_control_def Let_def split: prod.splits)

lemma same_streams_registered:
  "same_streams b b' \<Longrightarrow> registered b \<and> within_limits b \<Longrightarrow> registered b' \<and> within_limits b'"
proof -
  assume "same_streams b b'"
  note eqs = this [unfolded same_streams_def]
  have "registered b' = registered b" "within_limits b' = within_limits b"
    unfolding registered_def within_limits_def by (simp_all only: eqs)
  then show "registered b \<and> within_limits b \<Longrightarrow> registered b' \<and> within_limits b'" by simp
qed

lemma register_cases:
  assumes "register_listener up u ch sv adm b r = (res, b', r')"
  obtains (refused) err where "res = Inl err" "b' = b"
    | (admitted) q b0 where "res = Inr q" "bc_stream_count b < MAX_STREAMS_PER_POD"
        "adm \<Longrightarrow> admin_checks u b = None" "b0 = b \<and> bc_redis b \<or> memory_admit (usr_id u) b = Inr b0"
        "allocate_queue (usr_id u) ch sv adm b0 = (q, b')"
proof (cases "bc_stream_count b < MAX_STREAMS_PER_POD \<and> (adm \<longrightarrow> admin_checks u b = None)")
  case False
  then have "(\<exists>err. res = Inl err) \<and> b' = b"
    using assms by (auto simp: register_listener_def split: option.splits if_splits)
  then show thesis using refused by blast
next
  case True
  then have c: "(if adm then admin_checks u b else None) = None" by simp
  obtain x r1 where x: "admit_user up (usr_id u) b r = (x, r1)" by fastforce
  show thesis
  proof (cases x)
    case (Inl err)
    then show thesis using assms True c x by (intro refused) (auto simp: register_listener_def)
  next
    case (Inr b0)
    have "b0 = b \<and> bc_redis b \<or> memory_admit (usr_id u) b = Inr b0"
      using x Inr by (auto simp: admit_user_def split: if_splits)
    then show thesis
      using assms True c x Inr
      by (intro admitted [of "fst (allocate_queue (usr_id u) ch sv adm b0)" b0])
        (auto simp: register_listener_def split: prod.splits)
  qed
qed

lemma memory_admit_Inr:
  assumes "memory_admit u b = Inr b0"
  shows "b0 = b\<lparr>bc_user_counts := (bc_user_counts b)(u := Suc (bc_user_counts b u))\<rparr>"
    "bc_user_counts b u < MAX_STREAMS_PER_USER"
  using assms by (auto simp: memory_admit_def split: if_splits)

lemma admin_checks_None:
  "admin_checks u b = None \<Longrightarrow> bc_admin_counts b (usr_id u) < MAX_ADMIN_STREAMS_PER_USER \<and>
     length (bc_admin b) < MAX_ADMIN_STREAMS_GLOBAL \<and> is_admin u"
  by (auto simp: admin_checks_def split: if_splits)

lemma allocate_fields:
  assumes "allocate_queue uid ch sv adm b = (q, b')"
  defines "mt \<equiv> \<lparr>mt_user_id = uid, mt_channel = ch, mt_min_severity = sv, mt_is_admin = adm\<rparr>"
  shows "q = bc_next b" "bc_next b' = Suc (bc_next b)" "bc_stream_count b' = Suc (bc_stream_count b)"
    "bc_meta b' = bc_meta b @ [(bc_next b, mt)]" "bc_queues b' = (bc_queues b)(bc_next b := [])"
    "bc_admin b' = bc_admin b @ (if adm then [bc_next b] else [])"
    "bc_local b' = bc_local b @ (if adm then [] else [(uid, bc_next b)])"
    "bc_admin_counts b' = (\<lambda>u. bc_admin_counts b u + (if adm \<and> u = uid then 1 else 0))"
    "bc_user_counts b' = bc_user_counts b" "bc_redis b' = bc_redis b"
  using assms(1) by (auto simp: allocate_queue_def Let_def mt_def split: if_splits)

lemma register_registered:
  assumes "register_listener up u ch sv adm b r = (res, b', r')" "registered b" "within_limits b"
  shows "registered b' \<and> within_limits b'"
  using assms(1)
proof (cases rule: register_cases)
  case (admitted q b0)
  define uc where "uc = bc_user_counts b0"
  have b0: "b0 = b\<lparr>bc_user_counts := uc\<rparr>"
    and uc: "\<not> bc_redis b \<Longrightarrow> uc v = bc_user_counts b v + (if v = usr_id u then 1 else 0)"
    and cap: "\<not> bc_redis b \<Longrightarrow> bc_user_counts b (usr_id u) < MAX_STREAMS_PER_USER" for v
    using admitted(4) memory_admit_Inr [of "usr_id u" b b0] by (auto simp: uc_def)
  note f = allocate_fields [OF admitted(5)]
  note old = assms(2) [unfolded registered_def]
  have fresh: "bc_next b \<notin> fst ` set (bc_meta b)" using old by force
  have "distinct (map fst (bc_meta b'))" "\<forall>k\<in>fst ` set (bc_meta b'). k < bc_next b'"
    using old fresh by (auto simp: f b0 less_Suc_eq)
  moreover have "bc_admin b' = map fst (filter (\<lambda>(q, m). mt_is_admin m) (bc_meta b'))"
    "bc_local b' = map (\<lambda>(q, m). (mt_user_id m, q)) (filter (\<lambda>(q, m). \<not> mt_is_admin m) (bc_meta b'))"
    "bc_stream_count b' = length (bc_meta b')"
    using old by (simp_all add: f b0)
  moreover have "bc_admin_counts b' v = count_meta (\<lambda>m. mt_is_admin m \<and> mt_user_id m = v) (bc_meta b')"
    "\<not> bc_redis b' \<longrightarrow> bc_user_counts b' v = count_meta (\<lambda>m. mt_user_id m = v) (bc_meta b')" for v
    using old uc [of v] by (simp_all add: f b0)
  ultimately have reg: "registered b'" unfolding registered_def by blast
  note lim = assms(3) [unfolded within_limits_def]
  have "length (bc_meta b') \<le> MAX_STREAMS_PER_POD" using admitted(2) assms(2) by (simp add: f b0 registered_def)
  moreover have "length (bc_admin b') \<le> MAX_ADMIN_STREAMS_GLOBAL"
    "bc_admin_counts b' v \<le> MAX_ADMIN_STREAMS_PER_USER" for v
    using lim admin_checks_None [OF admitted(3)] by (cases adm; simp add: f b0 Suc_le_eq)+
  moreover have "bc_user_counts b' v \<le> MAX_STREAMS_PER_USER" if "\<not> bc_redis b'" for v
    using that lim uc [of v] cap by (auto simp: f b0)
  ultimately have "within_limits b'" unfolding within_limits_def by blast
  then show ?thesis using reg by blast
qed (use assms in simp)

lemma unregister_fields:
  assumes "unregister_listener up uid q adm b r = (b', r')"
  shows "bc_next b' = bc_next b" "bc_stream_count b' = bc_stream_count b - 1"
    "bc_meta b' = filter (\<lambda>(k, m). k \<noteq> q) (bc_meta b)" "bc_queues b' = bc_queues b"
    "bc_admin b' = (if adm then filter (\<lambda>k. k \<noteq> q) (bc_admin b) else bc_admin b)"
    "bc_local b' = (if adm then bc_local b else filter (\<lambda>x. x \<noteq> (uid, q)) (bc_local b))"
    "bc_admin_counts b' = (\<lambda>u. bc_admin_counts b u - (if adm \<and> u = uid then 1 else 0))"
    "bc_user_counts b' = (\<lambda>u. bc_user_counts b u - (if u = uid then 1 else 0))" "bc_redis b' = bc_redis b"
  using assms by (auto simp: unregister_listener_def Let_def split: if_splits)

lemma unregister_registered:
  assumes "map_of (bc_meta b) q = Some m" "registered b" "within_limits b"
    and "unregister_listener up (mt_user_id m) q (mt_is_admin m) b r = (b', r')"
  shows "registered b' \<and> within_limits b'"
proof -
  note f = unregister_fields [OF assms(4)]
  have "distinct (map fst (bc_meta b))" using assms(2) by (simp add: registered_def)
  note close = close_key [OF this assms(1)]
  note old = assms(2) [unfolded registered_def]
  have "bc_admin b' = map fst (filter (\<lambda>(q, m). mt_is_admin m) (bc_meta b'))"
    using old close(2) [of mt_is_admin] close(4) [of mt_is_admin] by (simp add: f)
  moreover have "bc_local b' = map (\<lambda>(q, m). (mt_user_id m, q)) (filter (\<lambda>(q, m). \<not> mt_is_admin m) (bc_meta b'))"
    using old close(3) [of "\<lambda>m. \<not> mt_is_admin m"] close(4) [of "\<lambda>m. \<not> mt_is_admin m"] by (simp add: f)
  moreover have "distinct (map fst (bc_meta b'))" "\<forall>k\<in>fst ` set (bc_meta b'). k < bc_next b'"
    using old by (auto simp: f distinct_map inj_on_def)
  moreover have "bc_admin_counts b' v = count_meta (\<lambda>m. mt_is_admin m \<and> mt_user_id m = v) (bc_meta b')"
    "\<not> bc_redis b' \<longrightarrow> bc_user_counts b' v = count_meta (\<lambda>m. mt_user_id m = v) (bc_meta b')" for v
    using old by (auto simp: f close(1))
  ultimately have reg: "registered b'"
    using old close(5) unfolding registered_def by (simp add: f)
  have "within_limits b'"
    using assms(3) unfolding within_limits_def f
    by (auto intro: le_trans [OF length_filter_le] le_trans [OF diff_le_self])
  then show ?thesis using reg by blast
qed

lemma exec_registered:
  assumes "exec_bc js x (b, r) = (b', r')" "registered b" "within_limits b"
  shows "registered b' \<and> within_limits b'"
proof (cases x)
  case (Subscribe up u ch sv adm)
  then show ?thesis
    using assms register_registered [of up u ch sv adm b r "fst (register_listener up u ch sv adm b r)" b' r']
    by (auto simp: exec_bc_def prod_eq_iff)
next
  case (Close up q)
  then show ?thesis
    using assms unregister_registered [of b q _ up r b' r'] by (auto simp: exec_bc_def split: option.splits)
next
  case (Consume q)
  then have "same_streams b b'" using assms(1) by (auto simp: exec_bc_def same_streams_def)
  then show ?thesis using same_streams_registered assms(2,3) by blast
qed (use assms same_streams_registered [of b b'] in \<open>auto simp: exec_bc_def split: item.splits\<close>)

subsection \<open>What the queues hold\<close>

definition queue_ok :: "stream_meta \<Rightarrow> item list \<Rightarrow> bool" where
  "queue_ok m q \<longleftrightarrow> length q \<le> MAX_QUEUE_SIZE \<and> (\<forall>en. Event en \<in> set q \<longrightarrow> may_see m en)"

lemma queues_ok_iff: "queues_ok b \<longleftrightarrow> (\<forall>(q, m)\<in>set (bc_meta b). queue_ok m (bc_queues b q))"
  by (simp add: queues_ok_def queue_ok_def)

lemma queues_okD: "queues_ok b \<Longrightarrow> (q, m) \<in> set (bc_meta b) \<Longrightarrow> queue_ok m (bc_queues b q)"
  by (auto simp: queues_ok_iff)

lemma queues_okI: "(\<And>q m. (q, m) \<in> set (bc_meta b) \<Longrightarrow> queue_ok m (bc_queues b q)) \<Longrightarrow> queues_ok b"
  by (auto simp: queues_ok_iff)

lemma queue_ok_enqueue: "queue_ok m q \<Longrightarrow> may_see m en \<Longrightarrow> queue_ok m (enqueue q en)"
  using enqueue_bounds enqueue_events unfolding queue_ok_def by blast

lemma registered_map_of: "registered b \<Longrightarrow> (q, m) \<in> set (bc_meta b) \<Longrightarrow> map_of (bc_meta b) q = Some m"
  by (simp add: registered_def)

lemma registered_admin:
  assumes "registered b" "(q, m) \<in> set (bc_meta b)" "q \<in> set (bc_admin b)"
  shows "mt_is_admin m"
proof -
  have adm: "bc_admin b = map fst (filter (\<lambda>(q, m). mt_is_admin m) (bc_meta b))"
    using assms(1) by (simp add: registered_def)
  obtain m' where m': "(q, m') \<in> set (bc_meta b)" "mt_is_admin m'"
    using assms(3) by (auto simp: adm)
  have "m' = m" using registered_map_of [OF assms(1) m'(1)] registered_map_of [OF assms(1,2)] by simp
  then show ?thesis using m' by simp
qed

lemma registered_local:
  assumes "registered b" "(q, m) \<in> set (bc_meta b)" "q \<in> set (queues_of u b)"
  shows "\<not> mt_is_admin m \<and> mt_user_id m = u"
proof -
  have loc: "bc_local b = map (\<lambda>(q, m). (mt_user_id m, q)) (filter (\<lambda>(q, m). \<not> mt_is_admin m) (bc_meta b))"
    using assms(1) by (simp add: registered_def)
  obtain m' where m': "(q, m') \<in> set (bc_meta b)" "\<not> mt_is_admin m'" "mt_user_id m' = u"
    using assms(3) by (auto simp: queues_of_def loc)
  have "m' = m" using registered_map_of [OF assms(1) m'(1)] registered_map_of [OF assms(1,2)] by simp
  then show ?thesis using m' by simp
qed

lemma admin_dispatch_ok:
  assumes "registered b" "queues_ok b" shows "queues_ok (dispatch_to_admin_queues en b)"
  unfolding queues_ok_iff
proof (clarsimp simp: dispatch_to_admin_queues_def)
  fix q m
  assume qm: "(q, m) \<in> set (bc_meta b)"
  have "queue_ok m (bc_queues b q)" using assms(2) qm by (auto simp: queues_ok_iff)
  moreover have "may_see m (sanitize_admin_envelope en)" if "q \<in> set (bc_admin b)"
    using registered_admin [OF assms(1) qm that] by (auto simp: may_see_def)
  ultimately show "queue_ok m (deliver (bc_admin b) (\<lambda>q. severity_passes (map_of (bc_meta b) q) en)
      (sanitize_admin_envelope en) (bc_queues b) q)"
    by (simp add: deliver_def queue_ok_enqueue)
qed

lemma local_dispatch_ok:
  assumes "registered b" "queues_ok b" shows "queues_ok (dispatch_to_local_queues en b)"
  unfolding dispatch_to_local_queues_def
proof (rule admin_dispatch_ok)
  let ?b = "b\<lparr>bc_queues := deliver (queues_of (en_tenant_id en) b)
      (\<lambda>q. channel_passes (map_of (bc_meta b) q) en \<and> severity_passes (map_of (bc_meta b) q) en) en (bc_queues b)\<rparr>"
  show "registered ?b" using assms(1) by (simp add: registered_def)
  show "queues_ok ?b"
    unfolding queues_ok_iff
  proof clarsimp
    fix q m
    assume qm: "(q, m) \<in> set (bc_meta b)"
    have "queue_ok m (bc_queues b q)" using assms(2) qm by (auto simp: queues_ok_iff)
    moreover have "may_see m en"
      if "q \<in> set (queues_of (en_tenant_id en) b)" "channel_passes (map_of (bc_meta b) q) en"
      using registered_local [OF assms(1) qm that(1)] that(2) registered_map_of [OF assms(1) qm]
      by (auto simp: may_see_def channel_passes_def)
    ultimately show "queue_ok m (deliver (queues_of (en_tenant_id en) b)
        (\<lambda>q. channel_passes (map_of (bc_meta b) q) en \<and> severity_passes (map_of (bc_meta b) q) en) en (bc_queues b) q)"
      by (simp add: deliver_def queue_ok_enqueue)
  qed
qed

lemma queues_same_meta: "queues_ok b \<Longrightarrow> bc_meta b' = bc_meta b \<Longrightarrow> bc_queues b' = bc_queues b \<Longrightarrow> queues_ok b'"
  by (simp add: queues_ok_iff)

lemma register_queues:
  assumes "register_listener up u ch sv adm b r = (res, b', r')" "registered b" "queues_ok b"
  shows "queues_ok b'"
  using assms(1)
proof (cases rule: register_cases)
  case (admitted q b0)
  have b0: "bc_meta b0 = bc_meta b" "bc_queues b0 = bc_queues b" "bc_next b0 = bc_next b"
    using admitted(4) memory_admit_Inr(1) by fastforce+
  note f = allocate_fields [OF admitted(5)]
  have "\<forall>x\<in>set (bc_meta b). fst x \<noteq> bc_next b" using assms(2) by (force simp: registered_def)
  then have "queue_ok m (((bc_queues b)(bc_next b := [])) k)" if "(k, m) \<in> set (bc_meta b)" for k m
    using assms(3) that by (auto simp: queues_ok_iff)
  then show ?thesis
    unfolding queues_ok_iff f b0 by (auto simp: queue_ok_def)
qed (use assms in simp)

lemma exec_queues:
  assumes "exec_bc js x (b, r) = (b', r')" "registered b" "queues_ok b"
  shows "queues_ok b'"
proof (cases x)
  case (Subscribe up u ch sv adm)
  then show ?thesis
    using assms register_queues [of up u ch sv adm b r "fst (register_listener up u ch sv adm b r)" b' r']
    by (auto simp: exec_bc_def prod_eq_iff)
next
  case (Close up q)
  then show ?thesis
    using assms unregister_fields(3,4) [of up _ q _ b r b' r']
    by (auto simp: exec_bc_def queues_ok_iff split: option.splits)
next
  case (Publish e p)
  have "queues_ok (dispatch_to_local_queues (create_envelope js e p) b)" by (rule local_dispatch_ok [OF assms(2,3)])
  then show ?thesis
    using assms(1) Publish
    by (auto simp: exec_bc_def publish_event_nowait_def Let_def intro: queues_same_meta)
next
  case (FromTenantChannel m)
  then show ?thesis
    using assms local_dispatch_ok [OF assms(2,3)] by (auto simp: exec_bc_def receive_tenant_def split: prod.splits if_splits)
next
  case (FromAdminChannel m)
  then show ?thesis
    using assms admin_dispatch_ok [OF assms(2,3)] by (auto simp: exec_bc_def receive_admin_def split: prod.splits if_splits)
next
  case (Control i)
  have put: "queue_ok m (put_nowait i q)" if "queue_ok m q" "\<And>en. i \<noteq> Event en" for m q
    using that put_nowait_bounds [where q = q and i = i] by (auto simp: queue_ok_def)
  have "b' = b \<or> (\<forall>en. i \<noteq> Event en) \<and> b' = broadcast_control i b"
    using assms(1) Control by (cases i) (auto simp: exec_bc_def)
  then show ?thesis
  proof
    assume b': "(\<forall>en. i \<noteq> Event en) \<and> b' = broadcast_control i b"
    have "queue_ok m (bc_queues b' q)" if "(q, m) \<in> set (bc_meta b)" for q m
      using assms(3) that put [of m "bc_queues b q"] b' by (auto simp: queues_ok_iff broadcast_control_def)
    then show ?thesis using b' by (auto simp: queues_ok_iff broadcast_control_def)
  qed (use assms(3) in simp)
next
  case (Consume q)
  have "queue_ok m (tl xs)" if "queue_ok m xs" for m xs
    using that by (cases xs) (auto simp: queue_ok_def)
  then show ?thesis
    using assms(1) Consume queues_okD [OF assms(3)] by (intro queues_okI) (auto simp: exec_bc_def)
qed

lemma run_bc_ok:
  assumes "fold (exec_bc js) xs (b, r) = (b', r')" "registered b" "within_limits b" "queues_ok b"
  shows "registered b' \<and> within_limits b' \<and> queues_ok b'"
  using assms
proof (induction xs arbitrary: b r)
  case (Cons x xs)
  obtain b1 r1 where x: "exec_bc js x (b, r) = (b1, r1)" by fastforce
  show ?case
    using Cons.IH [of b1 r1] Cons.prems x exec_registered [OF x Cons.prems(2,3)] exec_queues [OF x Cons.prems(2,4)]
    by simp
qed simp

lemma new_broadcaster_ok:
  "registered (new_broadcaster pod client)" "within_limits (new_broadcaster pod client)" "queues_ok (new_broadcaster pod client)"
  by (simp_all add: new_broadcaster_def registered_def within_limits_def queues_ok_def)

text \<open>
  C8: streams are isolated and bounded.  Whatever is subscribed, closed, published here, received
  from other pods or consumed, each client queue stays within its limit; the queue of an ordinary
  stream only ever holds events of its own tenant and channel, and the queue of an administrator's
  stream only events whose payload has been scrubbed.
\<close>

theorem streams_isolated:
  assumes "fold (exec_bc js) xs (new_broadcaster pod client, r) = (b, r')" "(q, m) \<in> set (bc_meta b)"
  shows "length (bc_queues b q) \<le> MAX_QUEUE_SIZE \<and>
    (\<forall>en. Event en \<in> set (bc_queues b q) \<longrightarrow>
       (if mt_is_admin m then \<exists>en0. en = sanitize_admin_envelope en0
        else en_tenant_id en = mt_user_id m \<and> (mt_channel m = ''soc'' \<or> mt_channel m = en_channel en)))"
proof -
  have "queues_ok b" using run_bc_ok [OF assms(1) new_broadcaster_ok] by blast
  then have "length (bc_queues b q) \<le> MAX_QUEUE_SIZE" "\<forall>en. Event en \<in> set (bc_queues b q) \<longrightarrow> may_see m en"
    using assms(2) by (auto simp: queues_ok_def)
  then show ?thesis by (simp add: may_see_def)
qed

text \<open>
  The stream limits.  On a pod there are never more than 1000 streams, 10 administrator
  streams, or two administrator streams of a user, and without Redis never more than five streams of a user,
  however streams come and go.
\<close>

theorem stream_limits:
  assumes "fold (exec_bc js) xs (new_broadcaster pod client, r) = (b, r')"
  shows "length (bc_meta b) \<le> 1000 \<and> count_meta mt_is_admin (bc_meta b) \<le> 10 \<and>
    count_meta (\<lambda>m. mt_is_admin m \<and> mt_user_id m = u) (bc_meta b) \<le> 2 \<and>
    (\<not> bc_redis b \<longrightarrow> count_meta (\<lambda>m. mt_user_id m = u) (bc_meta b) \<le> 5) \<and>
    bc_stream_count b = length (bc_meta b)"
proof -
  have ok: "registered b" "within_limits b" using run_bc_ok [OF assms new_broadcaster_ok] by blast+
  have "count_meta mt_is_admin (bc_meta b) = length (bc_admin b)"
    using ok(1) by (simp add: registered_def count_meta_def)
  moreover have "bc_admin_counts b u = count_meta (\<lambda>m. mt_is_admin m \<and> mt_user_id m = u) (bc_meta b)"
    "\<not> bc_redis b \<longrightarrow> bc_user_counts b u = count_meta (\<lambda>m. mt_user_id m = u) (bc_meta b)"
    "bc_stream_count b = length (bc_meta b)"
    using ok(1) by (simp_all add: registered_def)
  moreover have "length (bc_meta b) \<le> 1000" "length (bc_admin b) \<le> 10" "bc_admin_counts b u \<le> 2"
    "\<not> bc_redis b \<longrightarrow> bc_user_counts b u \<le> 5"
    using ok(2) by (simp_all add: within_limits_def MAX_STREAMS_PER_POD_def MAX_ADMIN_STREAMS_GLOBAL_def
        MAX_ADMIN_STREAMS_PER_USER_def MAX_STREAMS_PER_USER_def)
  ultimately show ?thesis by simp
qed

subsection \<open>Witnesses\<close>

definition sample_envelope :: "nat \<Rightarrow> string \<Rightarrow> envelope" where
  "sample_envelope n sev =
     \<lparr>en_cursor_id = n, en_event_id = ''ev'', en_event_type = ''alert_created'', en_timestamp = 0,
      en_tenant_id = 1, en_channel = ''alerts'', en_aggregate_id = None,
      en_data = [(''severity'', JStr sev)]\<rparr>"

lemma sample_cursor [simp]: "en_cursor_id (sample_envelope n sev) = n"
  by (simp add: sample_envelope_def)

lemma sample_critical [simp]:
  "is_critical_event (sample_envelope n ''HIGH'')" "\<not> is_critical_event (sample_envelope n ''LOW'')"
proof -
  have "str_upper ''HIGH'' = ''HIGH''" "str_upper ''LOW'' = ''LOW''" by code_simp+
  then show "is_critical_event (sample_envelope n ''HIGH'')" "\<not> is_critical_event (sample_envelope n ''LOW'')"
    by (simp_all add: is_critical_event_def field_upper_def sample_envelope_def dict_get_def)
qed


theorem overflow_skips_critical_event_witness:
  "7 \<notin> en_cursor_id ` set (fst (get_replay_events 1 8 100 False empty_store)) \<and>
   is_critical_event (sample_envelope 7 ''HIGH'')"
proof -
  let ?q = "replicate 100 (Event (sample_envelope 7 ''HIGH''))"
  have full: "length ?q = MAX_QUEUE_SIZE" "\<forall>i\<in>set ?q. \<not> evictable i"
    and lost: "last ?q = Event (sample_envelope 7 ''HIGH'')"
      "en_cursor_id (sample_envelope 7 ''HIGH'') < en_cursor_id (sample_envelope 9 ''HIGH'')"
    by (simp_all add: MAX_QUEUE_SIZE_def evictable_def last_replicate)
  note skip = overflow_skips_critical_event [OF full sample_critical(1) lost, of 1 100 False empty_store]
  show ?thesis using skip [THEN conjunct2] by simp
qed

definition no_redis :: redis where
  "no_redis = \<lparr>rd_counts = (\<lambda>_. 0), rd_tickets = (\<lambda>_. None)\<rparr>"

definition getdel_calls :: ticket_calls where
  "getdel_calls = \<lparr>rc_getdel = Answered, rc_get = Answered, rc_between = (\<lambda>r. r), rc_delete = Answered\<rparr>"

definition old_redis_calls :: ticket_calls where
  "old_redis_calls = getdel_calls\<lparr>rc_getdel := Refused\<rparr>"

theorem ticket_single_use_witness:
  "\<exists>ticket b1 r1. create_stream_ticket Answered (sample_env 10) 5 (new_broadcaster ''pod'' True) no_redis = (ticket, b1, r1) \<and>
     hd (present_ticket ticket [(1, getdel_calls, sample_env 20), (0, old_redis_calls, sample_env 21)]
       ((\<lambda>_. new_broadcaster ''pod'' True)(0 := b1), r1)) = Some 5"
proof -
  let ?pods = "\<lambda>_ :: nat. new_broadcaster ''pod'' True"
  let ?ps = "[(1, getdel_calls, sample_env 20), (0, old_redis_calls, sample_env 21)]"
  obtain ticket b1 r1 where mk: "create_stream_ticket Answered (sample_env 10) 5 (?pods 0) no_redis = (ticket, b1, r1)"
    by (metis prod.collapse)
  have none: "rd_tickets no_redis ticket = None" "\<forall>p. bc_tickets (?pods p) ticket = None" "Answered \<noteq> Lost"
    and turns: "list_all undisturbed ?ps"
    by (simp_all add: new_broadcaster_def no_redis_def undisturbed_def getdel_calls_def old_redis_calls_def)
  have "now (sample_env 20) < now (sample_env 10) + seconds TICKET_TTL_SECONDS \<and>
      bc_redis (?pods 1) \<and> rc_getdel getdel_calls = Answered"
    by (simp add: new_broadcaster_def getdel_calls_def seconds_def TICKET_TTL_SECONDS_def)
  then have "hd (present_ticket ticket ?ps (?pods(0 := b1), r1)) = Some 5"
    using ticket_single_use [where pods = ?pods and ?p0.0 = 0, OF mk none(3) none(1,2) turns]
    by (simp add: new_broadcaster_def)
  then show ?thesis using mk by blast
qed

definition sample_soc :: "nat \<Rightarrow> nat \<Rightarrow> soc_event" where
  "sample_soc n t =
     \<lparr>se_cursor_id = n, se_event_id = ''ev'', se_tenant_id = t, se_channel = ''alerts'',
      se_event_type = ''alert_created'', se_aggregate_id = None, se_payload = [], se_created_at = 0\<rparr>"

theorem replay_no_gap_witness:
  "\<exists>evs. get_replay_events 1 3 100 False (empty_store\<lparr>st_stream := [sample_soc 4 1, sample_soc 5 2, sample_soc 6 1]\<rparr>) = (evs, False) \<and>
     map en_cursor_id evs = [4, 6]"
proof -
  let ?s = "empty_store\<lparr>st_stream := [sample_soc 4 1, sample_soc 5 2, sample_soc 6 1]\<rparr>"
  let ?H = "[sample_soc 1 1, sample_soc 4 1, sample_soc 5 2, sample_soc 6 1]"
  obtain evs x where r: "get_replay_events 1 3 100 False ?s = (evs, x)" by fastforce
  have x: "x = False" using r by (auto simp: get_replay_events_def stream_rows_def sample_soc_def)
  have H: "cursor_ordered se_cursor_id 7 ?H" and rows: "st_stream ?s = filter (\<lambda>v. 4 \<le> se_cursor_id v) ?H"
    and v: "\<exists>v\<in>set (st_stream ?s). False \<or> se_tenant_id v = 1"
    by (simp_all add: cursor_ordered_def sample_soc_def)
  have "map en_cursor_id evs =
      map se_cursor_id (take 100 (filter (\<lambda>v. (False \<or> se_tenant_id v = 1) \<and> 3 < int (se_cursor_id v)) ?H))"
    using replay_no_gap [OF H rows r [unfolded x]] v by blast
  also have "\<dots> = [4, 6]" by (simp add: sample_soc_def)
  finally show ?thesis using r [unfolded x] by (intro exI conjI)
qed

definition sample_ops :: "bc_op list" where
  \<comment> \<open>a stream of \<open>alice\<close> and one of \<open>bob\<close>, and an event of \<open>alice\<close> from another pod\<close>
  "sample_ops = [Subscribe True alice ''soc'' None False, Subscribe True bob ''soc'' None False,
     FromTenantChannel (''other'', sample_envelope 3 ''HIGH'')]"

lemma sample_ops_run:
  "bc_meta (fst (fold (exec_bc (\<lambda>d. Some 0)) sample_ops (new_broadcaster ''pod'' True, no_redis))) =
     [(0, \<lparr>mt_user_id = 1, mt_channel = ''soc'', mt_min_severity = None, mt_is_admin = False\<rparr>),
      (1, \<lparr>mt_user_id = 2, mt_channel = ''soc'', mt_min_severity = None, mt_is_admin = False\<rparr>)] \<and>
   bc_queues (fst (fold (exec_bc (\<lambda>d. Some 0)) sample_ops (new_broadcaster ''pod'' True, no_redis))) 0 =
     [Event (sample_envelope 3 ''HIGH'')]"
  by code_simp

theorem streams_isolated_witness:
  "Event (sample_envelope 3 ''HIGH'') \<notin>
     set (bc_queues (fst (fold (exec_bc (\<lambda>d. Some 0)) sample_ops (new_broadcaster ''pod'' True, no_redis))) 1)"
proof -
  obtain b r where r: "fold (exec_bc (\<lambda>d. Some 0)) sample_ops (new_broadcaster ''pod'' True, no_redis) = (b, r)"
    by fastforce
  have "(1, \<lparr>mt_user_id = 2, mt_channel = ''soc'', mt_min_severity = None, mt_is_admin = False\<rparr>) \<in> set (bc_meta b)"
    using sample_ops_run unfolding r by simp
  from streams_isolated [OF r this] show ?thesis
    unfolding r by (auto simp: sample_envelope_def)
qed

theorem stream_limits_witness:
  "bc_stream_count (fst (fold (exec_bc (\<lambda>d. Some 0)) sample_ops (new_broadcaster ''pod'' True, no_redis))) = 2"
proof -
  obtain b r where r: "fold (exec_bc (\<lambda>d. Some 0)) sample_ops (new_broadcaster ''pod'' True, no_redis) = (b, r)"
    by fastforce
  show ?thesis using stream_limits [OF r, of 1] sample_ops_run unfolding r by simp
qed

end
