(* ===== verification/Base64.thy ===== *)
theory Base64
  imports Prelude "HOL-Library.Word"
begin

text \<open>
  Bytes as 8-bit words, UTF-8 on ASCII text, and Python's Base64: the encoder and the lenient
  decoder, which skips characters outside the alphabet and stops at the padding.
\<close>

unbundle bit_operations_syntax

type_synonym bytes = "8 word list"

subsection \<open>Text and bytes\<close>

definition ascii :: "string \<Rightarrow> bool" where
  "ascii s = list_all (\<lambda>c. (of_char c :: nat) < 128) s"

definition utf8_encode :: "string \<Rightarrow> bytes" where
  "utf8_encode s = map (\<lambda>c. word_of_nat (of_char c)) s"

definition utf8_decode :: "bytes \<Rightarrow> string option" where
  \<comment> \<open>\<open>None\<close> for bytes that are not ASCII text\<close>
  "utf8_decode bs = (if list_all (\<lambda>b. unat b < 128) bs then Some (map (\<lambda>b. char_of (unat b)) bs) else None)"

definition B64_ALPHABET :: string where
  "B64_ALPHABET = ''ABCDEFGHIJKLMNOPQRSTUVWXYZabcdefghijklmnopqrstuvwxyz0123456789+/''"

definition b64_char :: "8 word \<Rightarrow> char" where
  "b64_char w = B64_ALPHABET ! unat w"

definition b64_index :: "char \<Rightarrow> 8 word option" where
  "b64_index c =
     (case filter (\<lambda>i. B64_ALPHABET ! i = c) [0..<64] of [] \<Rightarrow> None | i # _ \<Rightarrow> Some (word_of_nat i))"

fun b64encode :: "bytes \<Rightarrow> string" where
  "b64encode [] = []"
| "b64encode [a] = [b64_char (drop_bit 2 a), b64_char (push_bit 4 (a AND 3)), CHR ''='', CHR ''='']"
| "b64encode [a, b] =
     [b64_char (drop_bit 2 a), b64_char (push_bit 4 (a AND 3) OR drop_bit 4 b),
      b64_char (push_bit 2 (b AND 15)), CHR ''='']"
| "b64encode (a # b # c # bs) =
     b64_char (drop_bit 2 a) # b64_char (push_bit 4 (a AND 3) OR drop_bit 4 b) #
     b64_char (push_bit 2 (b AND 15) OR drop_bit 6 c) # b64_char (c AND 63) # b64encode bs"

fun b64_scan :: "nat \<Rightarrow> nat \<Rightarrow> 8 word \<Rightarrow> string \<Rightarrow> bytes option" where
  \<comment> \<open>position in the group of four, pad characters seen, left-over bits; other characters are skipped\<close>
  "b64_scan q p l [] = (if q = 0 then Some [] else None)"
| "b64_scan q p l (c # cs) =
     (if c = CHR ''='' then
        (if 2 \<le> q then (if 4 \<le> q + Suc p then Some [] else b64_scan q (Suc p) l cs)
         else b64_scan q p l cs)
      else case b64_index c of
        None \<Rightarrow> b64_scan q p l cs
      | Some v \<Rightarrow>
          if q = 0 then b64_scan 1 0 v cs
          else if q = 1 then map_option ((#) (push_bit 2 l OR drop_bit 4 v)) (b64_scan 2 0 (v AND 15) cs)
          else if q = 2 then map_option ((#) (push_bit 4 l OR drop_bit 2 v)) (b64_scan 3 0 (v AND 3) cs)
          else map_option ((#) (push_bit 6 l OR v)) (b64_scan 0 0 0 cs))"

definition b64decode :: "string \<Rightarrow> bytes option" where
  "b64decode s = b64_scan 0 0 0 s"

subsection \<open>The round trip\<close>

lemma masks: "(3 :: 8 word) = mask 2" "(15 :: 8 word) = mask 4" "(63 :: 8 word) = mask 6"
  by (simp_all add: mask_numeral)

lemma unat_numeral_64: "unat (64 :: 8 word) = 64" by simp

lemma byte_eqI:
  fixes a b :: "8 word"
  assumes "bit a 0 = bit b 0" "bit a 1 = bit b 1" "bit a 2 = bit b 2" "bit a 3 = bit b 3"
    "bit a 4 = bit b 4" "bit a 5 = bit b 5" "bit a 6 = bit b 6" "bit a 7 = bit b 7"
  shows "a = b"
proof (rule bit_word_eqI)
  fix n assume "n < LENGTH(8)"
  then have "n \<in> {0, 1, 2, 3, 4, 5, 6, 7}" by auto
  then show "bit a n = bit b n" using assms by auto
qed

lemma less_64_iff: "(w :: 8 word) < 64 \<longleftrightarrow> drop_bit 6 w = 0"
proof -
  have "unat (drop_bit 6 w) = unat w div 64" unfolding unat_drop_bit_eq by (simp add: drop_bit_eq_div)
  then show ?thesis
    by (metis word_less_nat_alt unat_numeral_64 div_eq_0_iff unat_eq_zero zero_neq_numeral)
qed

lemma six_bits:
  fixes a b :: "8 word"
  shows "drop_bit 2 a < 64" "push_bit 4 (a AND 3) < 64" "push_bit 4 (a AND 3) OR drop_bit 4 b < 64"
    "push_bit 2 (a AND 15) < 64" "push_bit 2 (a AND 15) OR drop_bit 6 b < 64" "a AND 63 < 64"
  unfolding less_64_iff masks
  by ((rule bit_word_eqI, auto simp: bit_simps dest: bit_imp_le_length)[])+

lemma join_bits:
  fixes a b c :: "8 word"
  shows "push_bit 2 (drop_bit 2 a) OR drop_bit 4 (push_bit 4 (a AND 3)) = a"
    "push_bit 2 (drop_bit 2 a) OR drop_bit 4 (push_bit 4 (a AND 3) OR drop_bit 4 b) = a"
    "push_bit 4 ((push_bit 4 (a AND 3) OR drop_bit 4 b) AND 15) OR drop_bit 2 (push_bit 2 (b AND 15)) = b"
    "push_bit 4 ((push_bit 4 (a AND 3) OR drop_bit 4 b) AND 15) OR drop_bit 2 (push_bit 2 (b AND 15) OR drop_bit 6 c) = b"
    "push_bit 6 ((push_bit 2 (b AND 15) OR drop_bit 6 c) AND 3) OR (c AND 63) = c"
  unfolding masks
  by (rule byte_eqI; simp add: bit_simps)+

lemma b64_indices: "list_all (\<lambda>i. filter (\<lambda>j. B64_ALPHABET ! j = B64_ALPHABET ! i) [0..<64] = [i]) [0..<64]"
  by code_simp

lemma b64_index_char:
  assumes "w < 64"
  shows "b64_index (b64_char w) = Some w"
proof -
  have "unat w < 64" using assms by (simp add: word_less_nat_alt)
  then have "filter (\<lambda>j. B64_ALPHABET ! j = B64_ALPHABET ! unat w) [0..<64] = [unat w]"
    using b64_indices by (simp add: list_all_iff)
  then show ?thesis by (simp add: b64_index_def b64_char_def)
qed

lemma b64_alphabet_length: "length B64_ALPHABET = 64"
  by code_simp

lemma b64_char_alphabet: "w < 64 \<Longrightarrow> b64_char w \<in> set B64_ALPHABET"
  unfolding b64_char_def by (rule nth_mem) (simp add: word_less_nat_alt b64_alphabet_length)

lemma b64_alphabet_plain: "CHR ''='' \<notin> set B64_ALPHABET" "CHR ''$'' \<notin> set B64_ALPHABET"
  by code_simp+

lemma b64_char_not_pad: "w < 64 \<Longrightarrow> b64_char w \<noteq> CHR ''='' \<and> b64_char w \<noteq> CHR ''$''"
  using b64_char_alphabet b64_alphabet_plain by metis

lemma b64_scan_char:
  assumes "w < 64"
  shows "b64_scan q p l (b64_char w # cs) =
    (if q = 0 then b64_scan 1 0 w cs
     else if q = 1 then map_option ((#) (push_bit 2 l OR drop_bit 4 w)) (b64_scan 2 0 (w AND 15) cs)
     else if q = 2 then map_option ((#) (push_bit 4 l OR drop_bit 2 w)) (b64_scan 3 0 (w AND 3) cs)
     else map_option ((#) (push_bit 6 l OR w)) (b64_scan 0 0 0 cs))"
  using b64_index_char [OF assms] b64_char_not_pad [OF assms] by simp

lemma b64_scan_pad: "b64_scan 2 0 l ''=='' = Some []" "b64_scan 3 0 l ''='' = Some []"
  by simp_all

lemma b64_quad:
  assumes "w1 < 64" "w2 < 64" "w3 < 64" "w4 < 64"
  shows "b64_scan 0 p l (b64_char w1 # b64_char w2 # b64_char w3 # b64_char w4 # cs) =
    map_option (\<lambda>r. (push_bit 2 w1 OR drop_bit 4 w2) # (push_bit 4 (w2 AND 15) OR drop_bit 2 w3) #
      (push_bit 6 (w3 AND 3) OR w4) # r) (b64_scan 0 0 0 cs)"
  by (simp add: assms b64_scan_char option.map_comp comp_def del: b64_scan.simps)

lemma b64_tail2:
  assumes "w1 < 64" "w2 < 64"
  shows "b64_scan 0 p l [b64_char w1, b64_char w2, CHR ''='', CHR ''=''] =
    Some [push_bit 2 w1 OR drop_bit 4 w2]"
  by (simp add: assms b64_scan_char b64_scan_pad del: b64_scan.simps)

lemma b64_tail3:
  assumes "w1 < 64" "w2 < 64" "w3 < 64"
  shows "b64_scan 0 p l [b64_char w1, b64_char w2, b64_char w3, CHR ''=''] =
    Some [push_bit 2 w1 OR drop_bit 4 w2, push_bit 4 (w2 AND 15) OR drop_bit 2 w3]"
  by (simp add: assms b64_scan_char b64_scan_pad del: b64_scan.simps)

lemma b64_roundtrip: "b64decode (b64encode bs) = Some bs"
  unfolding b64decode_def
proof (induction bs rule: b64encode.induct)
  case 1
  then show ?case by simp
next
  case (2 a)
  show ?case unfolding b64encode.simps b64_tail2 [OF six_bits(1) six_bits(2)] join_bits ..
next
  case (3 a b)
  show ?case
    unfolding b64encode.simps b64_tail3 [OF six_bits(1) six_bits(3) six_bits(4)] join_bits ..
next
  case (4 a b c bs)
  show ?case
    unfolding b64encode.simps b64_quad [OF six_bits(1) six_bits(3) six_bits(5) six_bits(6)] join_bits 4
    by simp
qed

lemma b64encode_no_dollar: "CHR ''$'' \<notin> set (b64encode bs)"
proof (induction bs rule: b64encode.induct)
  case (4 a b c bs)
  then show ?case
    using b64_char_not_pad [OF six_bits(1)] b64_char_not_pad [OF six_bits(3)]
      b64_char_not_pad [OF six_bits(5)] b64_char_not_pad [OF six_bits(6)]
    by (metis b64encode.simps(4) set_ConsD)
next
  case (3 a b)
  then show ?case
    using b64_char_not_pad [OF six_bits(1)] b64_char_not_pad [OF six_bits(3)] b64_char_not_pad [OF six_bits(4)]
    by simp metis
next
  case (2 a)
  then show ?case
    using b64_char_not_pad [OF six_bits(1)] b64_char_not_pad [OF six_bits(2)] by simp metis
qed simp

lemma ascii_byte: "n < 128 \<Longrightarrow> unat (word_of_nat n :: 8 word) = n"
  by (simp add: unat_of_nat take_bit_eq_mod)

lemma utf8_roundtrip: "ascii s \<Longrightarrow> utf8_decode (utf8_encode s) = Some s"
  by (induction s) (simp_all add: ascii_def utf8_decode_def utf8_encode_def ascii_byte split: if_splits)

lemma utf8_decode_Some: "utf8_decode bs = Some s \<Longrightarrow> bs = utf8_encode s \<and> ascii s"
  by (induction bs arbitrary: s)
    (auto simp: ascii_def utf8_decode_def utf8_encode_def split: if_splits)

end
