(* ===== verification/ThreatIntel.thy ===== *)
theory ThreatIntel
  imports PyNet Base64
begin

text \<open>
  \<open>backend/services/threat_intel.py\<close>: the local blacklist, the trusted domains, the heuristic rules on
  a URL, the PhishTank feed with its refresh and its CSV, the reading of a VirusTotal report, and the
  waterfall over these layers.  The answers of the two external services are parameters.  The
  regular expressions are written out as the texts they match in the lowered path.
\<close>

subsection \<open>Tables\<close>

definition LOCAL_BLACKLIST :: "string list" where
  "LOCAL_BLACKLIST =
     [''http://secure-login-paypal.com'', ''http://g00gle.com-verify.info'', ''http://appleid-update-billing.com'']"

definition TRUSTED_DOMAINS :: "string list" where
  "TRUSTED_DOMAINS =
     [''google.com'', ''youtube.com'', ''github.com'', ''microsoft.com'', ''apple.com'', ''amazon.com'',
      ''linkedin.com'', ''wikipedia.org'', ''stackoverflow.com'', ''chat.openai.com'',
      ''githubusercontent.com'', ''googleusercontent.com'', ''reddit.com'', ''netflix.com'',
      ''paypal.com'', ''twitter.com'', ''facebook.com'', ''instagram.com'']"

definition BRAND_DOMAINS :: "(string \<times> string) list" where
  "BRAND_DOMAINS =
     [(''paypal'', ''paypal.com''), (''google'', ''google.com''), (''apple'', ''apple.com''),
      (''microsoft'', ''microsoft.com''), (''amazon'', ''amazon.com''), (''facebook'', ''facebook.com''),
      (''instagram'', ''instagram.com''), (''netflix'', ''netflix.com''), (''dropbox'', ''dropbox.com''),
      (''linkedin'', ''linkedin.com''), (''twitter'', ''twitter.com''), (''wellsfargo'', ''wellsfargo.com''),
      (''bankofamerica'', ''bankofamerica.com''), (''chase'', ''chase.com''), (''citibank'', ''citibank.com''),
      (''steam'', ''steampowered.com''), (''adobe'', ''adobe.com''), (''docusign'', ''docusign.com''),
      (''dhl'', ''dhl.com''), (''fedex'', ''fedex.com''), (''ups'', ''ups.com''), (''usps'', ''usps.com''),
      (''irs'', ''irs.gov'')]"

definition SUSPICIOUS_TLDS :: "string list" where
  "SUSPICIOUS_TLDS =
     [''.xyz'', ''.club'', ''.work'', ''.info'', ''.biz'', ''.top'', ''.loan'', ''.online'', ''.site'', ''.tk'', ''.ml'',
      ''.ga'', ''.cf'', ''.gq'', ''.pw'', ''.cc'', ''.win'', ''.stream'', ''.download'', ''.racing'', ''.accountant'',
      ''.faith'', ''.science'', ''.cricket'']"

definition PHISHING_KEYWORDS :: "string list" where
  "PHISHING_KEYWORDS =
     [''verify'', ''login'', ''signin'', ''secure'', ''account'', ''update'', ''confirm'', ''billing'', ''password'',
      ''credential'', ''bank'', ''wallet'', ''recover'', ''suspended'', ''unlock'', ''validate'', ''restore'',
      ''support'', ''helpdesk'', ''authorize'']"

definition SUSPICIOUS_PATH_TEXTS :: "string list" where
  \<comment> \<open>what the six patterns of \<open>SUSPICIOUS_PATH_PATTERNS\<close> match\<close>
  "SUSPICIOUS_PATH_TEXTS =
     [''/verify?id='', ''/validate?token='', ''/confirm.php'', ''/login.php''] @
     concat (map (\<lambda>sep. map (\<lambda>w. ''/account'' @ sep @ w) [''update'', ''verify'', ''suspend'']) [[], ''_'', ''-'']) @
     concat (map (\<lambda>d. map (\<lambda>t. ''.'' @ d @ ''.'' @ t) [''tk'', ''ml'', ''ga'', ''cf'', ''gq'', ''cc'', ''xyz'', ''top''])
       [''com'', ''net'', ''org''])"

subsection \<open>Heuristic rules\<close>

record threat =
  th_prediction :: string
  th_confidence :: rat
  th_reason :: string
  th_source :: string

definition mk_threat :: "string \<Rightarrow> rat \<Rightarrow> string \<Rightarrow> string \<Rightarrow> threat" where
  "mk_threat p c r src = \<lparr>th_prediction = p, th_confidence = c, th_reason = r, th_source = src\<rparr>"

definition em_dash :: string where
  \<comment> \<open>the bytes of the dash in UTF-8\<close>
  "em_dash = [CHR 0xE2, CHR 0x80, CHR 0x94]"

definition is_legitimate_domain :: "string \<Rightarrow> string \<Rightarrow> bool" where
  "is_legitimate_domain host legit = (host = legit \<or> ends_with (''.'' @ legit) host)"

definition get_tld :: "string \<Rightarrow> string" where
  "get_tld host =
     (let parts = split_on (CHR ''.'') host in if 2 \<le> length parts then ''.'' @ last parts else [])"

definition ip_pattern :: "string \<Rightarrow> bool" where
  "ip_pattern host =
     (let parts = split_on (CHR ''.'') host
      in length parts = 4 \<and>
         list_all (\<lambda>p. 1 \<le> length p \<and> length p \<le> 3 \<and> list_all (\<lambda>c. digit_value c \<noteq> None) p) parts)"

definition keyword_hits :: "string \<Rightarrow> string list" where
  "keyword_hits url_lower = filter (\<lambda>k. contains k url_lower) PHISHING_KEYWORDS"

definition list_repr :: "string list \<Rightarrow> string" where
  "list_repr xs = ''['' @ join '', '' (map (\<lambda>x. [CHR 0x27] @ x @ [CHR 0x27]) xs) @ '']''"

definition url_host :: "string \<Rightarrow> string" where
  \<comment> \<open>\<open>(urlparse(url).hostname or "").lower().strip()\<close>, empty when the URL does not parse\<close>
  "url_host url =
     (case urlparse url of None \<Rightarrow> []
      | Some u \<Rightarrow> (case url_hostname u of None \<Rightarrow> [] | Some h \<Rightarrow> str_strip (str_lower h)))"

definition trusted_host :: "string \<Rightarrow> bool" where
  "trusted_host host = list_ex (is_legitimate_domain host) TRUSTED_DOMAINS"

definition brand_threat :: "string \<times> string \<Rightarrow> threat" where
  "brand_threat bd =
     mk_threat ''phishing'' (96 / 100)
       (''Domain impersonates '' @ [CHR 0x27] @ fst bd @ [CHR 0x27] @ '' (legitimate: '' @ snd bd @ '') '' @ em_dash @ '' brand phishing.'')
       (''heuristic:brand:'' @ fst bd)"

definition impersonates :: "string \<Rightarrow> string \<Rightarrow> string \<times> string \<Rightarrow> bool" where
  \<comment> \<open>the first text is searched for the brand, the second is the host\<close>
  "impersonates s host bd = (contains (fst bd) s \<and> \<not> is_legitimate_domain host (snd bd))"

definition rule_ip :: "string \<Rightarrow> threat option" where
  "rule_ip host =
     (if ip_pattern host
      then Some (mk_threat ''phishing'' (97 / 100)
        (''Direct IP address used as hostname '' @ em_dash @ '' classic phishing/malware pattern.'') ''heuristic:ip-host'')
      else None)"

definition rule_brand :: "string \<Rightarrow> threat option" where
  "rule_brand host = map_option brand_threat (find (impersonates host host) BRAND_DOMAINS)"

definition rule_tld :: "string \<Rightarrow> string \<Rightarrow> threat option" where
  "rule_tld host url_lower =
     (if get_tld host \<in> set SUSPICIOUS_TLDS \<and> keyword_hits url_lower \<noteq> []
      then Some (mk_threat ''phishing'' (90 / 100)
        (''Suspicious TLD '' @ [CHR 0x27] @ get_tld host @ [CHR 0x27] @ '' combined with phishing keywords: ''
           @ list_repr (take 3 (keyword_hits url_lower)) @ ''.'') ''heuristic:suspicious-tld'')
      else None)"

definition rule_path :: "string \<Rightarrow> threat option" where
  "rule_path path_and_query =
     (if list_ex (\<lambda>t. contains t path_and_query) SUSPICIOUS_PATH_TEXTS
      then Some (mk_threat ''phishing'' (88 / 100) ''URL path/query matches known phishing template.'' ''heuristic:path-pattern'')
      else None)"

definition rule_depth :: "string \<Rightarrow> threat option" where
  "rule_depth host =
     (if 5 \<le> length (split_on (CHR ''.'') host)
      then Some (mk_threat ''phishing'' (82 / 100)
        (''Unusually deep subdomain nesting '' @ em_dash @ '' common in redirect-chain phishing.'') ''heuristic:deep-subdomain'')
      else None)"

definition rule_hyphen :: "string \<Rightarrow> string \<Rightarrow> threat option" where
  "rule_hyphen host url_lower =
     (let plain = filter (\<lambda>c. c \<noteq> CHR ''-'' \<and> c \<noteq> CHR ''.'') host
      in case find (impersonates plain host) BRAND_DOMAINS of
           None \<Rightarrow> None
         | Some bd \<Rightarrow>
             if keyword_hits url_lower = [] then None
             else Some (mk_threat ''phishing'' (91 / 100)
               (''Hyphenated brand impersonation of '' @ [CHR 0x27] @ fst bd @ [CHR 0x27] @ '' with phishing keywords.'')
               (''heuristic:hyphen-brand:'' @ fst bd)))"

fun first_of :: "'a option list \<Rightarrow> 'a option" where
  \<comment> \<open>the first rule that returns something\<close>
  "first_of [] = None"
| "first_of (x # xs) = (case x of None \<Rightarrow> first_of xs | Some v \<Rightarrow> Some v)"

definition heuristic_check :: "string \<Rightarrow> threat option" where
  "heuristic_check url =
     (case urlparse url of
        None \<Rightarrow> None
      | Some u \<Rightarrow>
          let host = url_host url;
              path = str_lower (ur_path u @ ''?'' @ ur_query u);
              low = str_lower url
          in if host = [] then None
             else if trusted_host host then None
             else first_of [rule_ip host, rule_brand host, rule_tld host low, rule_path path, rule_depth host,
                    rule_hyphen host low])"

subsection \<open>PhishTank\<close>

fun crlf :: "string \<Rightarrow> string" where
  "crlf (c # d # cs) = (if c = CHR 0x0D \<and> d = CHR 0x0A then CHR 0x0A # crlf cs else c # crlf (d # cs))"
| "crlf cs = cs"

definition line_break :: "char \<Rightarrow> bool" where
  "line_break c = (c \<in> {CHR 0x0A, CHR 0x0B, CHR 0x0C, CHR 0x0D, CHR 0x1C, CHR 0x1D, CHR 0x1E})"

fun lines_from :: "string \<Rightarrow> string \<Rightarrow> string list" where
  \<comment> \<open>the first argument is the line read so far, backwards\<close>
  "lines_from acc [] = (if acc = [] then [] else [rev acc])"
| "lines_from acc (c # cs) = (if line_break c then rev acc # lines_from [] cs else lines_from (c # acc) cs)"

definition splitlines :: "string \<Rightarrow> string list" where
  "splitlines s = lines_from [] (crlf s)"

fun split_max :: "nat \<Rightarrow> char \<Rightarrow> string \<Rightarrow> string list" where
  \<comment> \<open>\<open>s.split(c, n)\<close>\<close>
  "split_max n c [] = [[]]"
| "split_max n c (x # xs) =
     (if x = c \<and> n > 0 then [] # split_max (n - 1) c xs
      else case split_max n c xs of [] \<Rightarrow> [[x]] | p # ps \<Rightarrow> (x # p) # ps)"

definition strip_quotes :: "string \<Rightarrow> string" where
  "strip_quotes s = rstrip_char (CHR 0x22) (dropWhile (\<lambda>c. c = CHR 0x22) s)"

definition feed_line :: "string \<Rightarrow> string option" where
  "feed_line l =
     (let parts = split_max 3 (CHR '','') l
      in if 3 \<le> length parts then
           (let raw = strip_quotes (str_strip (parts ! 2)) in if raw = [] then None else Some raw)
         else None)"

definition parse_feed :: "string \<Rightarrow> string list" where
  "parse_feed body = List.map_filter feed_line (drop 1 (splitlines body))"

record feed =
  fd_urls :: "string list"
  fd_last_refresh :: time

record intel_settings =
  is_refresh_interval :: time
  is_vt_key :: bool
  is_vt_threshold :: int

definition needs_refresh :: "intel_settings \<Rightarrow> time \<Rightarrow> feed \<Rightarrow> bool" where
  "needs_refresh cfg t f = (t - fd_last_refresh f > is_refresh_interval cfg)"

definition refresh_feed :: "intel_settings \<Rightarrow> time \<Rightarrow> string option \<Rightarrow> feed \<Rightarrow> feed" where
  \<comment> \<open>the third argument is the body of the download, \<open>None\<close> when it failed\<close>
  "refresh_feed cfg t answer f =
     (if \<not> needs_refresh cfg t f then f
      else case answer of None \<Rightarrow> f | Some body \<Rightarrow> \<lparr>fd_urls = parse_feed body, fd_last_refresh = t\<rparr>)"

definition check_feed :: "intel_settings \<Rightarrow> time \<Rightarrow> string option \<Rightarrow> string \<Rightarrow> feed \<Rightarrow> bool \<times> feed" where
  "check_feed cfg t answer url f =
     (let f' = (if needs_refresh cfg t f then refresh_feed cfg t answer f else f) in (url \<in> set (fd_urls f'), f'))"

subsection \<open>VirusTotal\<close>

definition vt_url_id :: "string \<Rightarrow> string" where
  "vt_url_id url =
     rstrip_char (CHR ''='')
       (map (\<lambda>c. if c = CHR ''+'' then CHR ''-'' else if c = CHR ''/'' then CHR ''_'' else c) (b64encode (utf8_encode url)))"

datatype vt_answer =
    VtStatus int "(int \<times> int) option" \<comment> \<open>status code; malicious and suspicious votes of a readable report\<close>
  | VtException

definition vt_threat :: "int \<Rightarrow> int \<Rightarrow> threat" where
  "vt_threat malicious suspicious =
     mk_threat (if malicious > suspicious then ''malware'' else ''phishing'')
       (min (99 / 100) (50 / 100 + (of_int (malicious + suspicious) / 94) * (49 / 100)))
       (''Flagged as malicious/suspicious by '' @ show_nat (nat (malicious + suspicious)) @ ''/94 security vendors on VirusTotal.'')
       ''virustotal''"

definition check_virustotal :: "intel_settings \<Rightarrow> (string \<Rightarrow> vt_answer) \<Rightarrow> string \<Rightarrow> threat option" where
  "check_virustotal cfg vt url =
     (if \<not> is_vt_key cfg then None
      else case vt (vt_url_id url) of
        VtException \<Rightarrow> None
      | VtStatus code report \<Rightarrow>
          if code = 404 \<or> code = 429 \<or> \<not> (200 \<le> code \<and> code < 300) then None
          else case report of None \<Rightarrow> None
            | Some (malicious, suspicious) \<Rightarrow>
                if is_vt_threshold cfg \<le> malicious + suspicious then Some (vt_threat malicious suspicious) else None)"

definition submits_virustotal :: "intel_settings \<Rightarrow> (string \<Rightarrow> vt_answer) \<Rightarrow> string \<Rightarrow> bool" where
  \<comment> \<open>an unknown URL is submitted for analysis\<close>
  "submits_virustotal cfg vt url =
     (is_vt_key cfg \<and> (case vt (vt_url_id url) of VtStatus code _ \<Rightarrow> code = 404 | VtException \<Rightarrow> False))"

subsection \<open>The waterfall\<close>

definition check_url ::
  "intel_settings \<Rightarrow> time \<Rightarrow> string option \<Rightarrow> (string \<Rightarrow> vt_answer) \<Rightarrow> string \<Rightarrow> feed \<Rightarrow> threat option \<times> feed" where
  "check_url cfg t answer vt url f =
     (if url \<in> set LOCAL_BLACKLIST
      then (Some (mk_threat ''phishing'' 1 ''URL found in high-confidence local blacklist.'' ''blacklist''), f)
      else case heuristic_check url of
        Some th \<Rightarrow> (Some th, f)
      | None \<Rightarrow>
          (case check_feed cfg t answer url f of
             (True, f') \<Rightarrow>
               (Some (mk_threat ''phishing'' (99 / 100) ''URL found in PhishTank verified phishing database.'' ''phishtank''), f')
           | (False, f') \<Rightarrow> (check_virustotal cfg vt url, f')))"

subsection \<open>Lemmas\<close>

lemma first_of_Some: "first_of xs = Some v \<Longrightarrow> Some v \<in> set xs"
  by (induction xs) (auto split: option.splits)

lemma first_of_before: "x \<noteq> None \<Longrightarrow> first_of (None # x # xs) = x"
  by (auto split: option.splits)

lemmas rule_defs = rule_ip_def rule_brand_def rule_tld_def rule_path_def rule_depth_def rule_hyphen_def

lemma mk_threat_simps [simp]:
  "th_prediction (mk_threat p c r src) = p" "th_confidence (mk_threat p c r src) = c"
  "th_source (mk_threat p c r src) = src"
  by (simp_all add: mk_threat_def)

definition heuristic_threat :: "threat \<Rightarrow> bool" where
  "heuristic_threat th \<longleftrightarrow>
     th_prediction th = ''phishing'' \<and> 82 / 100 \<le> th_confidence th \<and> th_confidence th \<le> 97 / 100 \<and>
     starts_with ''heuristic:'' (th_source th)"

lemma rule_ip_ok: "rule_ip h = Some th \<Longrightarrow> heuristic_threat th"
  unfolding rule_ip_def heuristic_threat_def by (simp split: if_splits) (drule sym, simp)

lemma rule_brand_ok: "rule_brand h = Some th \<Longrightarrow> heuristic_threat th"
  unfolding rule_brand_def heuristic_threat_def brand_threat_def by (simp, elim exE conjE, drule sym, simp)

lemma rule_tld_ok: "rule_tld h l = Some th \<Longrightarrow> heuristic_threat th"
  unfolding rule_tld_def heuristic_threat_def by (simp split: if_splits) (drule sym, simp)

lemma rule_path_ok: "rule_path p = Some th \<Longrightarrow> heuristic_threat th"
  unfolding rule_path_def heuristic_threat_def by (simp split: if_splits) (drule sym, simp)

lemma rule_depth_ok: "rule_depth h = Some th \<Longrightarrow> heuristic_threat th"
  unfolding rule_depth_def heuristic_threat_def by (simp split: if_splits) (drule sym, simp)

lemma rule_hyphen_ok: "rule_hyphen h l = Some th \<Longrightarrow> heuristic_threat th"
  unfolding rule_hyphen_def heuristic_threat_def Let_def by (simp split: option.splits if_splits) (drule sym, simp)

lemma rules_phishing:
  "Some th \<in> set [rule_ip h, rule_brand h, rule_tld h l, rule_path p, rule_depth h, rule_hyphen h l] \<Longrightarrow>
   heuristic_threat th"
  using rule_ip_ok rule_brand_ok rule_tld_ok rule_path_ok rule_depth_ok rule_hyphen_ok
  unfolding list.set insert_iff by (metis empty_iff)

lemma heuristic_phishing:
  assumes "heuristic_check url = Some th"
  shows "heuristic_threat th" "\<not> trusted_host (url_host url)"
proof -
  obtain u where "urlparse url = Some u" "url_host url \<noteq> []" "\<not> trusted_host (url_host url)"
    "first_of [rule_ip (url_host url), rule_brand (url_host url), rule_tld (url_host url) (str_lower url),
       rule_path (str_lower (ur_path u @ ''?'' @ ur_query u)), rule_depth (url_host url),
       rule_hyphen (url_host url) (str_lower url)] = Some th"
    using assms by (auto simp: heuristic_check_def Let_def simp del: first_of.simps split: option.splits if_splits)
  with rules_phishing [OF first_of_Some] show "heuristic_threat th" "\<not> trusted_host (url_host url)" by blast+
qed

lemma check_virustotal_Some:
  assumes "check_virustotal cfg vt url = Some th"
  shows "\<exists>m s. th = vt_threat m s \<and> is_vt_threshold cfg \<le> m + s"
  using assms by (auto simp: check_virustotal_def split: if_splits vt_answer.splits option.splits prod.splits)

lemma vt_threat_bounds:
  assumes "0 \<le> m + s"
  shows "1 / 2 \<le> th_confidence (vt_threat m s) \<and> th_confidence (vt_threat m s) \<le> 99 / 100"
proof -
  have "(0 :: rat) \<le> of_int (m + s)" using assms by (simp only: of_int_0_le_iff)
  then have "(0 :: rat) \<le> of_int (m + s) / 94 * (49 / 100)" by simp
  then show ?thesis unfolding vt_threat_def mk_threat_simps by (simp add: min_def)
qed

lemma check_url_cases:
  assumes "check_url cfg t answer vt url f = (Some th, f')"
  obtains "url \<in> set LOCAL_BLACKLIST" "th_source th = ''blacklist''" "th_confidence th = 1" "th_prediction th = ''phishing''"
  | "url \<notin> set LOCAL_BLACKLIST" "heuristic_check url = Some th"
  | "url \<notin> set LOCAL_BLACKLIST" "heuristic_check url = None" "url \<in> set (fd_urls f')" "th_source th = ''phishtank''"
      "th_confidence th = 99 / 100" "th_prediction th = ''phishing''"
  | "url \<notin> set LOCAL_BLACKLIST" "heuristic_check url = None" "check_virustotal cfg vt url = Some th"
  using assms
  by (auto simp: check_url_def check_feed_def Let_def simp del: first_of.simps split: if_splits option.splits prod.splits bool.splits)

subsection \<open>Identifiers of VirusTotal\<close>

lemma b64_form:
  "\<exists>body k. b64encode bs = body @ replicate k (CHR ''='') \<and> set body \<subseteq> set B64_ALPHABET \<and>
     (length body + k) mod 4 = 0 \<and> k < 4"
proof (induction bs rule: b64encode.induct)
  case 1
  have "b64encode [] = [] @ replicate 0 (CHR ''='')" by simp
  then show ?case by (intro exI [of _ "[]"] exI [of _ 0]) simp
next
  case (2 a)
  show ?case
    using b64_char_alphabet [OF six_bits(1) [of a]] b64_char_alphabet [OF six_bits(2) [of a]]
    by (intro exI [of _ "[b64_char (drop_bit 2 a), b64_char (push_bit 4 (a AND 3))]"] exI [of _ 2])
      (simp add: numeral_2_eq_2)
next
  case (3 a b)
  show ?case
    using b64_char_alphabet [OF six_bits(1) [of a]] b64_char_alphabet [OF six_bits(3) [of a b]]
      b64_char_alphabet [OF six_bits(4) [of b]]
    by (intro exI [of _ "[b64_char (drop_bit 2 a), b64_char (push_bit 4 (a AND 3) OR drop_bit 4 b),
        b64_char (push_bit 2 (b AND 15))]"] exI [of _ 1]) simp
next
  case (4 a b c bs)
  then obtain body k where "b64encode bs = body @ replicate k (CHR ''='') \<and> set body \<subseteq> set B64_ALPHABET \<and>
    (length body + k) mod 4 = 0 \<and> k < 4"
    by (elim exE)
  then have ih: "b64encode bs = body @ replicate k (CHR ''='')" "set body \<subseteq> set B64_ALPHABET"
    "(length body + k) mod 4 = 0" "k < 4"
    by simp_all
  let ?q = "[b64_char (drop_bit 2 a), b64_char (push_bit 4 (a AND 3) OR drop_bit 4 b),
    b64_char (push_bit 2 (b AND 15) OR drop_bit 6 c), b64_char (c AND 63)]"
  have "set ?q \<subseteq> set B64_ALPHABET"
    using b64_char_alphabet [OF six_bits(1) [of a]] b64_char_alphabet [OF six_bits(3) [of a b]]
      b64_char_alphabet [OF six_bits(5) [of b c]] b64_char_alphabet [OF six_bits(6) [of c]]
    unfolding list.set by blast
  then have "set (?q @ body) \<subseteq> set B64_ALPHABET" using ih(2) unfolding set_append by blast
  moreover have "b64encode (a # b # c # bs) = (?q @ body) @ replicate k (CHR ''='')"
    by (simp only: b64encode.simps ih(1) append_Cons append_Nil append_assoc)
  moreover have "length (?q @ body) + k = 4 + (length body + k)" by simp
  then have "(length (?q @ body) + k) mod 4 = 0" using ih(3) by simp
  ultimately show ?case using ih(4) by (intro exI [of _ "?q @ body"] exI [of _ k] conjI)
qed

definition url_safe :: "char \<Rightarrow> char" where
  "url_safe c = (if c = CHR ''+'' then CHR ''-'' else if c = CHR ''/'' then CHR ''_'' else c)"

lemma alphabet_plain: "CHR ''-'' \<notin> set B64_ALPHABET" "CHR ''_'' \<notin> set B64_ALPHABET"
  by code_simp+

lemma url_safe_pad: "url_safe (CHR ''='') = CHR ''=''"
  by (simp add: url_safe_def)

lemma vt_url_id_safe: "vt_url_id url = rstrip_char (CHR ''='') (map url_safe (b64encode (utf8_encode url)))"
  unfolding vt_url_id_def url_safe_def ..

lemma url_safe_inj: "inj_on url_safe (set B64_ALPHABET)"
  using alphabet_plain by (auto simp: inj_on_def url_safe_def split: if_splits)

lemma url_safe_not_pad: "c \<in> set B64_ALPHABET \<Longrightarrow> url_safe c \<noteq> CHR ''=''"
  using b64_alphabet_plain(1) by (auto simp: url_safe_def split: if_splits)

lemma url_safe_body: "set body \<subseteq> set B64_ALPHABET \<Longrightarrow> CHR ''='' \<notin> set (map url_safe body)"
  by (induction body) (simp_all add: url_safe_not_pad [THEN not_sym])

lemma dropWhile_padded: "dropWhile (\<lambda>x. x = c) (replicate k c @ ys) = dropWhile (\<lambda>x. x = c) ys"
  by (induction k) simp_all

lemma rstrip_pad: "c \<notin> set xs \<Longrightarrow> rstrip_char c (xs @ replicate k c) = xs"
proof -
  assume "c \<notin> set xs"
  then have "dropWhile (\<lambda>x. x = c) (rev xs) = rev xs"
    by (cases xs rule: rev_cases) auto
  then show ?thesis by (simp add: rstrip_char_def dropWhile_padded)
qed

lemma vt_url_id_body:
  "\<exists>body k. b64encode (utf8_encode url) = body @ replicate k (CHR ''='') \<and> set body \<subseteq> set B64_ALPHABET \<and>
     (length body + k) mod 4 = 0 \<and> k < 4 \<and> vt_url_id url = map url_safe body"
proof -
  obtain body k where bk: "b64encode (utf8_encode url) = body @ replicate k (CHR ''='') \<and>
    set body \<subseteq> set B64_ALPHABET \<and> (length body + k) mod 4 = 0 \<and> k < 4"
    using b64_form [of "utf8_encode url"] by (elim exE)
  then have b: "b64encode (utf8_encode url) = body @ replicate k (CHR ''='')" "set body \<subseteq> set B64_ALPHABET"
    "(length body + k) mod 4 = 0" "k < 4"
    by simp_all
  have "CHR ''='' \<notin> set (map url_safe body)" using b(2) by (rule url_safe_body)
  then have "rstrip_char (CHR ''='') (map url_safe body @ replicate k (CHR ''='')) = map url_safe body"
    by (rule rstrip_pad)
  then have "vt_url_id url = map url_safe body"
    unfolding vt_url_id_safe b(1) map_append map_replicate url_safe_pad .
  then show ?thesis using b by (intro exI [of _ body] exI [of _ k] conjI)
qed

lemma pad_unique:
  fixes n k j :: nat
  assumes "(n + k) mod 4 = 0" "(n + j) mod 4 = 0" "k < 4" "j < 4"
  shows "k = j"
proof -
  have "(n + k) mod 4 = (n + j) mod 4" using assms by simp
  then have "k mod 4 = j mod 4" by (simp add: nat_mod_eq_iff)
  then show ?thesis using assms(3,4) by simp
qed

lemma byte_of_char: "unat (word_of_nat (of_char c) :: 8 word) = of_char c"
  using of_char_mod_256 [of c, where ?'a = nat] by (simp add: unat_of_nat take_bit_eq_mod)

lemma utf8_encode_inj: "utf8_encode s = utf8_encode t \<Longrightarrow> s = t"
proof (induction s arbitrary: t)
  case Nil
  then show ?case by (simp add: utf8_encode_def)
next
  case (Cons c s)
  then obtain d t' where t: "t = d # t'" by (cases t) (auto simp: utf8_encode_def)
  have "(word_of_nat (of_char c) :: 8 word) = word_of_nat (of_char d)" "utf8_encode s = utf8_encode t'"
    using Cons.prems unfolding utf8_encode_def t by simp_all
  then have "(of_char c :: nat) = of_char d" by (metis byte_of_char)
  then have "c = d" by simp
  then show ?case using Cons.IH [OF \<open>utf8_encode s = utf8_encode t'\<close>] t by simp
qed

subsection \<open>Feed lines\<close>

lemma split_max_comma: "p \<in> set (take n (split_max n c s)) \<Longrightarrow> c \<notin> set p"
proof (induction n c s arbitrary: p rule: split_max.induct)
  case (1 n c)
  then show ?case by (cases n) simp_all
next
  case (2 n c x xs)
  show ?case
  proof (cases "x = c \<and> n > 0")
    case True
    then obtain m where n: "n = Suc m" by (cases n) simp_all
    with 2(3) True have "p = [] \<or> p \<in> set (take m (split_max m c xs))" by simp
    then show ?thesis using 2(1) [OF True] n by auto
  next
    case False
    then show ?thesis
      using 2(2) [OF False] 2(3)
      by (cases n; cases "split_max n c xs") auto
  qed
qed

lemma set_str_strip: "set (str_strip s) \<subseteq> set s"
  unfolding str_strip_def by (auto dest!: set_dropWhileD)

lemma set_strip_quotes: "set (strip_quotes s) \<subseteq> set s"
  unfolding strip_quotes_def rstrip_char_def by (auto dest!: set_dropWhileD)

lemma feed_line_no_comma: "feed_line l = Some u \<Longrightarrow> CHR '','' \<notin> set u"
proof -
  assume f: "feed_line l = Some u"
  let ?p = "split_max 3 (CHR '','') l"
  have l: "3 \<le> length ?p" and u: "u = strip_quotes (str_strip (?p ! 2))"
    using f by (simp_all add: feed_line_def Let_def split: if_splits)
  have "?p ! 2 = take 3 ?p ! 2" by simp
  moreover have "take 3 ?p ! 2 \<in> set (take 3 ?p)" using l by (intro nth_mem) simp
  ultimately have "CHR '','' \<notin> set (?p ! 2)" using split_max_comma by metis
  then show ?thesis using u set_str_strip set_strip_quotes by blast
qed

lemma set_map_filter: "set (List.map_filter f xs) = {y. \<exists>x \<in> set xs. f x = Some y}"
  by (induction xs) (auto simp: List.map_filter_simps split: option.splits)

subsection \<open>Theorems\<close>

text \<open>
  C27: a verdict of the threat intelligence layer always calls the URL phishing or malware with a
  confidence between one half and one, when the VirusTotal threshold is not negative; and a host on
  the list of trusted domains only gets one from the local blacklist, the PhishTank feed or the
  vendors of VirusTotal, never from the heuristic rules.
\<close>

theorem threat_verdicts_bounded:
  assumes "0 \<le> is_vt_threshold cfg" "check_url cfg t answer vt url f = (Some th, f')"
  shows "th_prediction th \<in> {''phishing'', ''malware''} \<and> 1 / 2 \<le> th_confidence th \<and> th_confidence th \<le> 1 \<and>
    (trusted_host (url_host url) \<longrightarrow> th_source th \<in> {''blacklist'', ''phishtank'', ''virustotal''})"
  using assms(2)
proof (cases rule: check_url_cases)
  case 2
  from heuristic_phishing [OF this(2)] show ?thesis by (simp add: heuristic_threat_def)
next
  case 4
  then obtain m s where th: "th = vt_threat m s" "is_vt_threshold cfg \<le> m + s"
    using check_virustotal_Some by blast
  from vt_threat_bounds [of m s] th assms(1)
  have "1 / 2 \<le> th_confidence th" "th_confidence th \<le> 99 / 100" by simp_all
  then show ?thesis using th(1) by (simp add: vt_threat_def)
qed simp_all

definition intel_example :: intel_settings where
  "intel_example = \<lparr>is_refresh_interval = 3600, is_vt_key = True, is_vt_threshold = 3\<rparr>"

definition empty_feed :: feed where
  "empty_feed = \<lparr>fd_urls = [], fd_last_refresh = 0\<rparr>"

lemma threat_verdicts_bounded_witness:
  "check_url intel_example 0 None (\<lambda>_. VtStatus 200 (Some (4, 1))) ''http://www.github.com/'' empty_feed =
     (Some (vt_threat 4 1), empty_feed) \<and>
   1 / 2 \<le> th_confidence (vt_threat 4 1) \<and> th_confidence (vt_threat 4 1) \<le> 1 \<and> th_source (vt_threat 4 1) = ''virustotal''"
proof -
  have r: "check_url intel_example 0 None (\<lambda>_. VtStatus 200 (Some (4, 1))) ''http://www.github.com/'' empty_feed =
    (Some (vt_threat 4 1), empty_feed)"
    by code_simp
  have "0 \<le> is_vt_threshold intel_example" by (simp add: intel_example_def)
  from threat_verdicts_bounded [OF this r] r show ?thesis by (simp add: vt_threat_def)
qed

text \<open>
  Rule 2 looks for a brand name anywhere in the host, inside other words too: a host that
  contains it, is not on the trusted list and not the brand's own domain is reported as phishing
  with a confidence of at least 0.96 before any feed is asked.  So \<open>http://startups.com/\<close>
  impersonates \<open>ups\<close>.
\<close>

theorem brand_text_is_phishing:
  assumes "urlparse url \<noteq> None" "(brand, legit) \<in> set BRAND_DOMAINS" "contains brand (url_host url)" "brand \<noteq> []"
    "\<not> is_legitimate_domain (url_host url) legit" "\<not> trusted_host (url_host url)" "url \<notin> set LOCAL_BLACKLIST"
  shows "\<exists>th. check_url cfg t answer vt url f = (Some th, f) \<and> th_prediction th = ''phishing'' \<and>
    96 / 100 \<le> th_confidence th"
proof -
  have h: "url_host url \<noteq> []" using assms(3,4) by auto
  have "find (impersonates (url_host url) (url_host url)) BRAND_DOMAINS \<noteq> None"
    using assms(2,3,5) by (auto simp: find_None_iff impersonates_def)
  then obtain bd where "rule_brand (url_host url) = Some (brand_threat bd)" by (auto simp: rule_brand_def)
  then have "\<exists>th. heuristic_check url = Some th \<and> th_prediction th = ''phishing'' \<and> 96 / 100 \<le> th_confidence th"
    using assms(1,6) h
    by (cases "ip_pattern (url_host url)") (auto simp: heuristic_check_def Let_def rule_ip_def brand_threat_def)
  then show ?thesis using assms(7) by (auto simp: check_url_def)
qed

lemma brand_text_is_phishing_witness:
  "\<exists>th. check_url intel_example 0 None (\<lambda>_. VtException) ''http://startups.com/'' empty_feed = (Some th, empty_feed) \<and>
    th_prediction th = ''phishing'' \<and> 96 / 100 \<le> th_confidence th"
proof (rule brand_text_is_phishing)
  show "(''ups'', ''ups.com'') \<in> set BRAND_DOMAINS" by (simp add: BRAND_DOMAINS_def)
qed code_simp+

text \<open>
  The key under which VirusTotal is asked about a URL is unique to the URL, so a report never
  answers for another one.
\<close>

theorem vt_url_id_inj: "vt_url_id url = vt_url_id url' \<longleftrightarrow> url = url'"
proof
  assume eq: "vt_url_id url = vt_url_id url'"
  obtain b k where b: "b64encode (utf8_encode url) = b @ replicate k (CHR ''='')" "set b \<subseteq> set B64_ALPHABET"
    "(length b + k) mod 4 = 0" "k < 4" "vt_url_id url = map url_safe b"
    using vt_url_id_body [of url] by (elim exE) simp
  obtain b' k' where b': "b64encode (utf8_encode url') = b' @ replicate k' (CHR ''='')" "set b' \<subseteq> set B64_ALPHABET"
    "(length b' + k') mod 4 = 0" "k' < 4" "vt_url_id url' = map url_safe b'"
    using vt_url_id_body [of url'] by (elim exE) simp
  have "map url_safe b = map url_safe b'" using eq b(5) b'(5) by simp
  then have "b = b'" using b(2) b'(2) map_inj_on [OF _ inj_on_subset [OF url_safe_inj]] by (metis le_sup_iff)
  moreover from this have "k = k'" using pad_unique b(3,4) b'(3,4) by metis
  ultimately have "b64encode (utf8_encode url) = b64encode (utf8_encode url')" using b(1) b'(1) by simp
  then have "utf8_encode url = utf8_encode url'" using b64_roundtrip by (metis option.inject)
  then show "url = url'" by (rule utf8_encode_inj)
qed simp

text \<open>
  The feed is read by splitting each line at the commas without regard to quotes, so that no
  loaded entry contains a comma: a quoted URL with a comma is cut, and the URL itself is never found
  by the feed.
\<close>

theorem feed_cuts_at_commas:
  assumes "CHR '','' \<in> set url" "needs_refresh cfg t f"
  shows "fst (check_feed cfg t (Some body) url f) = False"
proof -
  have "url \<notin> set (parse_feed body)"
    using feed_line_no_comma assms(1) unfolding parse_feed_def set_map_filter by blast
  then show ?thesis using assms(2) by (simp add: check_feed_def refresh_feed_def)
qed

lemma feed_cuts_at_commas_witness:
  "fst (check_feed intel_example 4000 (Some (''id,phish_id,url'' @ [CHR 10] @ ''1,7,'' @ [CHR 0x22] @ ''http://e.org/a,b''
     @ [CHR 0x22])) ''http://e.org/a,b'' empty_feed) = False"
  by (rule feed_cuts_at_commas) code_simp+

lemma failed_refresh_keeps_feed:
  "snd (check_feed cfg t None url f) = f"
  by (simp add: check_feed_def refresh_feed_def)

end
