(* ===== verification/Containment.thy ===== *)
theory Containment
  imports Incidents Monitoring ThreatIntel
begin

text \<open>
  Automated containment, \<open>backend/services/containment_service.py\<close>: the tenant's policy, the typed
  actions of a playbook, their execution behind the allowlist of \<open>threat_intel.py\<close>, the evaluation of
  an alert and the rollback of an action.  The rows are those of \<open>database/models.py\<close>, the
  enumerations those of \<open>schemas/containment.py\<close>; the four tables stand beside the \<open>store\<close> of the
  other services.  What Redis answers and what other sessions commit between a look-up and an
  insertion are parameters.
\<close>

subsection \<open>Enumerations\<close>

datatype action_type =
    BLACKLIST_INDICATOR
  | INVALIDATE_CACHE
  | QUARANTINE_TARGET
  | CREATE_INCIDENT
  | EMIT_SOC_EVENT
  | SEND_NOTIFICATION

primrec action_type_value :: "action_type \<Rightarrow> string" where
  "action_type_value BLACKLIST_INDICATOR = ''BLACKLIST_INDICATOR''"
| "action_type_value INVALIDATE_CACHE = ''INVALIDATE_CACHE''"
| "action_type_value QUARANTINE_TARGET = ''QUARANTINE_TARGET''"
| "action_type_value CREATE_INCIDENT = ''CREATE_INCIDENT''"
| "action_type_value EMIT_SOC_EVENT = ''EMIT_SOC_EVENT''"
| "action_type_value SEND_NOTIFICATION = ''SEND_NOTIFICATION''"

datatype action_status =
    PENDING
  | EXECUTED
  | FAILED
  | BLOCKED_BY_ALLOWLIST
  | SKIPPED
  | REVERTED

primrec action_status_value :: "action_status \<Rightarrow> string" where
  "action_status_value PENDING = ''PENDING''"
| "action_status_value EXECUTED = ''EXECUTED''"
| "action_status_value FAILED = ''FAILED''"
| "action_status_value BLOCKED_BY_ALLOWLIST = ''BLOCKED_BY_ALLOWLIST''"
| "action_status_value SKIPPED = ''SKIPPED''"
| "action_status_value REVERTED = ''REVERTED''"

datatype run_status =
    R_PENDING
  | R_RUNNING
  | R_COMPLETED
  | R_FAILED
  | R_PARTIALLY_REVERTED
  | R_REVERTED

primrec run_status_value :: "run_status \<Rightarrow> string" where
  "run_status_value R_PENDING = ''PENDING''"
| "run_status_value R_RUNNING = ''RUNNING''"
| "run_status_value R_COMPLETED = ''COMPLETED''"
| "run_status_value R_FAILED = ''FAILED''"
| "run_status_value R_PARTIALLY_REVERTED = ''PARTIALLY_REVERTED''"
| "run_status_value R_REVERTED = ''REVERTED''"

subsection \<open>Rows\<close>

record policy =
  cp_id :: nat
  cp_tenant_id :: nat
  cp_auto_containment_enabled :: bool
  cp_auto_blacklist_enabled :: bool
  cp_auto_quarantine_enabled :: bool
  cp_auto_incident_binding_enabled :: bool
  cp_containment_min_severity :: string
  cp_blacklist_ttl_seconds :: int
  cp_policy_version :: int
  cp_created_at :: time
  cp_updated_at :: time
  cp_updated_by :: "nat option"

record playbook_run =
  pr_id :: nat
  pr_uuid :: string
  pr_playbook_name :: string
  pr_playbook_version :: string
  pr_tenant_id :: nat
  pr_trigger_event :: string
  pr_alert_id :: "nat option"
  pr_target_id :: "nat option"
  pr_status :: run_status
  pr_fencing_token :: nat
  pr_action_count :: nat
  pr_idempotency_key :: string
  pr_error_message :: "string option"
  pr_started_at :: time
  pr_completed_at :: "time option"
  pr_created_at :: time
  pr_updated_at :: time

record action =
  ca_id :: nat
  ca_uuid :: string
  ca_run_id :: "nat option"
  ca_tenant_id :: nat
  ca_alert_id :: "nat option"
  ca_incident_id :: "nat option"
  ca_target_identifier :: string
  ca_action_type :: action_type
  ca_status :: action_status
  ca_actor_user_id :: "nat option"
  ca_trigger_source :: string
  ca_idempotency_key :: string
  ca_rollback_metadata :: "dict option"
  ca_result_metadata :: "dict option"
  ca_error_message :: "string option"
  ca_reverted_at :: "time option"
  ca_reverted_by_user_id :: "nat option"
  ca_created_at :: time
  ca_started_at :: "time option"
  ca_completed_at :: "time option"

record blacklist_entry =
  bl_id :: nat
  bl_indicator_type :: string
  bl_indicator_value :: string
  bl_tenant_id :: nat
  bl_containment_action_id :: "nat option"
  bl_reason :: string
  bl_is_active :: bool
  bl_expires_at :: time
  bl_created_at :: time
  bl_updated_at :: time

record soar =
  so_store :: store
  so_policies :: "policy list"
  so_runs :: "playbook_run list"
  so_actions :: "action list"
  so_blacklist :: "blacklist_entry list"
  so_leases :: "(nat \<times> string \<times> time) list" \<comment> \<open>the Redis sorted sets: tenant, token, score\<close>
  sq_policy :: nat
  sq_run :: nat
  sq_action :: nat
  sq_blacklist :: nat

record services =
  sw_redis :: bool \<comment> \<open>whether there is a Redis client\<close>
  sw_redis_up :: bool \<comment> \<open>whether its calls succeed\<close>
  sw_cache_error :: "string option" \<comment> \<open>the exception of the cache deletion, if any\<close>
  sw_race :: "soar \<Rightarrow> soar" \<comment> \<open>what other sessions commit between a look-up and an insertion that a key guards\<close>
  sw_overtake :: "soar \<Rightarrow> soar"
    \<comment> \<open>what they commit between the look-up of an active blacklist row and the write, which no key guards\<close>
  sw_naive_times :: bool \<comment> \<open>whether the database gives back times without a zone (SQLite)\<close>

definition empty_soar :: soar where
  "empty_soar =
     \<lparr>so_store = empty_store, so_policies = [], so_runs = [], so_actions = [], so_blacklist = [],
      so_leases = [], sq_policy = 1, sq_run = 1, sq_action = 1, sq_blacklist = 1\<rparr>"

definition in_store :: "(store \<Rightarrow> store) \<Rightarrow> soar \<Rightarrow> soar" where
  "in_store f s = s\<lparr>so_store := f (so_store s)\<rparr>"

definition set_action :: "nat \<Rightarrow> (action \<Rightarrow> action) \<Rightarrow> soar \<Rightarrow> soar" where
  "set_action i f s = s\<lparr>so_actions := upd_rows (\<lambda>a. ca_id a = i) f (so_actions s)\<rparr>"

definition set_run :: "nat \<Rightarrow> (playbook_run \<Rightarrow> playbook_run) \<Rightarrow> soar \<Rightarrow> soar" where
  "set_run i f s = s\<lparr>so_runs := upd_rows (\<lambda>r. pr_id r = i) f (so_runs s)\<rparr>"

definition scalar_one_or_none :: "'r list \<Rightarrow> string + 'r option" where
  \<comment> \<open>\<open>MultipleResultsFound\<close> when there is more than one row\<close>
  "scalar_one_or_none rs =
     (case rs of [] \<Rightarrow> Inr None | [r] \<Rightarrow> Inr (Some r)
      | _ \<Rightarrow> Inl ''Multiple rows were found when one or none was required'')"

subsection \<open>Rule 0: the allowlist\<close>

definition is_whitelisted :: "string \<Rightarrow> bool" where
  \<comment> \<open>fails closed: an empty indicator and one that does not parse count as allowlisted\<close>
  "is_whitelisted indicator =
     (if indicator = [] then True
      else case urlparse indicator of
             None \<Rightarrow> True
           | Some u \<Rightarrow>
               (let h = str_strip (str_lower (the (str_or (url_hostname u) (Some indicator))))
                in list_ex (is_legitimate_domain h) TRUSTED_DOMAINS))"

subsection \<open>Policies\<close>

datatype containment_error = HTTP_404_NOT_FOUND | HTTP_400_BAD_REQUEST | HTTP_409_CONFLICT | HTTP_429_TOO_MANY

definition DEFAULT_BLACKLIST_TTL_SECONDS :: int where
  "DEFAULT_BLACKLIST_TTL_SECONDS = 86400"

definition MAX_CONCURRENT_PLAYBOOKS_PER_TENANT :: nat where
  "MAX_CONCURRENT_PLAYBOOKS_PER_TENANT = 5"

definition policy_of :: "nat \<Rightarrow> soar \<Rightarrow> policy option" where
  "policy_of t s = first_row (filter (\<lambda>p. cp_tenant_id p = t) (so_policies s))"

definition default_policy :: "env \<Rightarrow> nat \<Rightarrow> policy" where
  "default_policy e t =
     \<lparr>cp_id = 0, cp_tenant_id = t, cp_auto_containment_enabled = False,
      cp_auto_blacklist_enabled = False, cp_auto_quarantine_enabled = False,
      cp_auto_incident_binding_enabled = False, cp_containment_min_severity = ''CRITICAL'',
      cp_blacklist_ttl_seconds = DEFAULT_BLACKLIST_TTL_SECONDS, cp_policy_version = 1,
      cp_created_at = now e, cp_updated_at = now e, cp_updated_by = None\<rparr>"

definition get_or_create_policy :: "services \<Rightarrow> env \<Rightarrow> nat \<Rightarrow> soar \<Rightarrow> policy \<times> soar" where
  \<comment> \<open>when another session was faster, the insertion fails and the row is read again\<close>
  "get_or_create_policy w e t s =
     (case policy_of t s of
        Some p \<Rightarrow> (p, s)
      | None \<Rightarrow>
          (let s1 = sw_race w s
           in case policy_of t s1 of
                Some p \<Rightarrow> (p, s1)
              | None \<Rightarrow>
                  (let p = (default_policy e t)\<lparr>cp_id := sq_policy s1\<rparr>
                   in (p, s1\<lparr>so_policies := so_policies s1 @ [p], sq_policy := Suc (sq_policy s1)\<rparr>))))"

definition others_committed :: "services \<Rightarrow> nat \<Rightarrow> soar \<Rightarrow> soar" where
  \<comment> \<open>what is left when the session that asked for the policy is rolled back\<close>
  "others_committed w t s = (if policy_of t s = None then sw_race w s else s)"

record ContainmentPolicyUpdate =
  pu_auto_containment_enabled :: bool
  pu_auto_blacklist_enabled :: bool
  pu_auto_quarantine_enabled :: bool
  pu_auto_incident_binding_enabled :: bool
  pu_containment_min_severity :: string
  pu_blacklist_ttl_seconds :: int
  pu_policy_version :: int

definition write_policy :: "env \<Rightarrow> ContainmentPolicyUpdate \<Rightarrow> nat \<Rightarrow> policy \<Rightarrow> policy" where
  "write_policy e d uid p =
     p\<lparr>cp_auto_containment_enabled := pu_auto_containment_enabled d,
       cp_auto_blacklist_enabled := pu_auto_blacklist_enabled d,
       cp_auto_quarantine_enabled := pu_auto_quarantine_enabled d,
       cp_auto_incident_binding_enabled := pu_auto_incident_binding_enabled d,
       cp_containment_min_severity := pu_containment_min_severity d,
       cp_blacklist_ttl_seconds := pu_blacklist_ttl_seconds d,
       cp_policy_version := cp_policy_version p + 1, cp_updated_at := now e,
       cp_updated_by := Some uid\<rparr>"

definition policy_audit :: "env \<Rightarrow> nat \<Rightarrow> ContainmentPolicyUpdate \<Rightarrow> nat \<Rightarrow> policy \<Rightarrow> audit" where
  "policy_audit e t d uid p =
     create_audit_event e 0 ''CONTAINMENT_POLICY_UPDATED'' (Some uid) ''soc_containment_policies'' (show_nat (cp_id p))
       [(''tenant_id'', JInt (int t)), (''policy_version'', JInt (pu_policy_version d + 1)),
        (''auto_containment_enabled'', JBool (pu_auto_containment_enabled d)),
        (''auto_blacklist_enabled'', JBool (pu_auto_blacklist_enabled d)),
        (''auto_quarantine_enabled'', JBool (pu_auto_quarantine_enabled d)),
        (''auto_incident_binding_enabled'', JBool (pu_auto_incident_binding_enabled d)),
        (''containment_min_severity'', JStr (pu_containment_min_severity d)),
        (''blacklist_ttl_seconds'', JInt (pu_blacklist_ttl_seconds d))] None"

definition submitted_version :: "nat \<Rightarrow> ContainmentPolicyUpdate \<Rightarrow> policy \<Rightarrow> bool" where
  "submitted_version t d p = (cp_tenant_id p = t \<and> cp_policy_version p = pu_policy_version d)"

definition update_policy ::
  "services \<Rightarrow> env \<Rightarrow> nat \<Rightarrow> ContainmentPolicyUpdate \<Rightarrow> nat \<Rightarrow> soar \<Rightarrow>
   (containment_error + policy) \<times> soar" where
  \<comment> \<open>a conflict is raised before anything is committed\<close>
  "update_policy w e t d uid s =
     (case get_or_create_policy w e t s of (p, s1) \<Rightarrow>
        if filter (submitted_version t d) (so_policies s1) = []
        then (Inl HTTP_409_CONFLICT, others_committed w t s)
        else
          let s2 = s1\<lparr>so_policies := upd_rows (submitted_version t d) (write_policy e d uid) (so_policies s1)\<rparr>
          in (Inr (the (policy_of t s2)), in_store (add_audit (policy_audit e t d uid p)) s2))"

subsection \<open>Concurrency leases\<close>

definition live_leases :: "time \<Rightarrow> nat \<Rightarrow> (nat \<times> string \<times> time) list \<Rightarrow> (nat \<times> string \<times> time) list" where
  \<comment> \<open>after \<open>ZREMRANGEBYSCORE key -inf now-60\<close>\<close>
  "live_leases clock t ls = filter (\<lambda>(u, k, x). \<not> (u = t \<and> x \<le> clock - seconds 60)) ls"

definition tenant_leases :: "nat \<Rightarrow> (nat \<times> string \<times> time) list \<Rightarrow> (nat \<times> string \<times> time) list" where
  "tenant_leases t ls = filter (\<lambda>(u, k, x). u = t) ls"

definition running_runs :: "nat \<Rightarrow> soar \<Rightarrow> playbook_run list" where
  "running_runs t s = filter (\<lambda>r. pr_tenant_id r = t \<and> pr_status r = R_RUNNING) (so_runs s)"

definition acquire_tenant_concurrency_lease ::
  "services \<Rightarrow> env \<Rightarrow> nat \<Rightarrow> soar \<Rightarrow> (containment_error + string) \<times> soar" where
  "acquire_tenant_concurrency_lease w e t s =
     (let token = uuids e 0
      in if sw_redis w \<and> sw_redis_up w
         then let ls = live_leases (now e) t (so_leases s)
              in if length (tenant_leases t ls) \<ge> MAX_CONCURRENT_PLAYBOOKS_PER_TENANT
                 then (Inl HTTP_429_TOO_MANY, s\<lparr>so_leases := ls\<rparr>)
                 else (Inr token, s\<lparr>so_leases := ls @ [(t, token, now e)]\<rparr>)
         else let s1 = snd (get_or_create_policy w e t s)
              in if length (running_runs t s1) \<ge> MAX_CONCURRENT_PLAYBOOKS_PER_TENANT
                 then (Inl HTTP_429_TOO_MANY, others_committed w t s)
                 else (Inr token, s1))"

definition release_tenant_concurrency_lease :: "services \<Rightarrow> nat \<Rightarrow> string \<Rightarrow> soar \<Rightarrow> soar" where
  "release_tenant_concurrency_lease w t token s =
     (if sw_redis w \<and> sw_redis_up w
      then s\<lparr>so_leases := filter (\<lambda>(u, k, x). \<not> (u = t \<and> k = token)) (so_leases s)\<rparr> else s)"

subsection \<open>Quarantine\<close>

definition quarantine_evidence :: "env \<Rightarrow> target \<Rightarrow> store \<Rightarrow> alert list" where
  "quarantine_evidence e g s =
     filter (\<lambda>a. al_user_id a = Some (tg_user_id g) \<and>
        al_status a \<in> {''OPEN'', ''ACKNOWLEDGED''} \<and> al_severity a \<in> {''HIGH'', ''CRITICAL''} \<and>
        al_first_seen_at a \<ge> now e - minutes 10 \<and>
        al_indicator_value a \<in> {tg_url g, tg_normalized_domain g}) (st_alerts s)"

definition evaluate_quarantine_eligibility :: "env \<Rightarrow> target \<Rightarrow> store \<Rightarrow> bool" where
  "evaluate_quarantine_eligibility e g s =
     (tg_is_active g \<and> length (quarantine_evidence e g s) \<ge> 3)"

definition named_targets :: "nat \<Rightarrow> string \<Rightarrow> store \<Rightarrow> target list" where
  \<comment> \<open>the tenant's targets with this uuid, URL or domain\<close>
  "named_targets t ident s =
     filter (\<lambda>g. tg_user_id g = t \<and>
        (tg_uuid g = ident \<or> tg_url g = ident \<or> tg_normalized_domain g = ident)) (st_targets s)"

subsection \<open>Actions\<close>

record action_request =
  aq_action_type :: action_type
  aq_target_identifier :: string
  aq_tenant_id :: nat
  aq_trigger_source :: string
  aq_alert_id :: "nat option"
  aq_run_id :: "nat option"
  aq_actor_user_id :: "nat option"
  aq_reason :: string

definition show_alert_id :: "nat option \<Rightarrow> string" where
  \<comment> \<open>\<open>alert_id or 'none'\<close>\<close>
  "show_alert_id a = (if truthy_nat a then show_nat (the a) else ''none'')"

definition action_key :: "action_request \<Rightarrow> string" where
  "action_key q =
     ''tenant:'' @ show_nat (aq_tenant_id q) @ '':alert:'' @ show_alert_id (aq_alert_id q) @
     '':action:'' @ action_type_value (aq_action_type q) @ '':'' @ aq_target_identifier q"

definition new_action :: "env \<Rightarrow> action_request \<Rightarrow> action" where
  "new_action e q =
     \<lparr>ca_id = 0, ca_uuid = uuids e 0, ca_run_id = aq_run_id q, ca_tenant_id = aq_tenant_id q,
      ca_alert_id = aq_alert_id q, ca_incident_id = None,
      ca_target_identifier = aq_target_identifier q, ca_action_type = aq_action_type q,
      ca_status = PENDING, ca_actor_user_id = aq_actor_user_id q,
      ca_trigger_source = aq_trigger_source q, ca_idempotency_key = action_key q,
      ca_rollback_metadata = None, ca_result_metadata = None, ca_error_message = None,
      ca_reverted_at = None, ca_reverted_by_user_id = None, ca_created_at = now e,
      ca_started_at = Some (now e), ca_completed_at = None\<rparr>"

definition action_of_key :: "string \<Rightarrow> soar \<Rightarrow> action option" where
  "action_of_key k s = first_row (filter (\<lambda>a. ca_idempotency_key a = k) (so_actions s))"

definition quoted :: "string \<Rightarrow> string" where
  "quoted s = CHR 39 # s @ [CHR 39]"

definition blocked_audit :: "env \<Rightarrow> action_request \<Rightarrow> action \<Rightarrow> string \<Rightarrow> audit" where
  "blocked_audit e q a res =
     create_audit_event e 2 ''CONTAINMENT_BLOCKED_BY_ALLOWLIST'' (aq_actor_user_id q) res
       (aq_target_identifier q)
       [(''tenant_id'', JInt (int (aq_tenant_id q))), (''action_uuid'', JStr (ca_uuid a)),
        (''alert_id'', json_nat (aq_alert_id q))] None"

definition block_action :: "env \<Rightarrow> string \<Rightarrow> action \<Rightarrow> action" where
  "block_action e msg a =
     a\<lparr>ca_status := BLOCKED_BY_ALLOWLIST, ca_error_message := Some msg,
       ca_completed_at := Some (now e)\<rparr>"

definition done_action :: "env \<Rightarrow> dict option \<Rightarrow> dict \<Rightarrow> action \<Rightarrow> action" where
  "done_action e rollback result a =
     a\<lparr>ca_rollback_metadata := rollback, ca_result_metadata := Some result,
       ca_status := EXECUTED, ca_completed_at := Some (now e)\<rparr>"

text \<open>
  The implementations of the action types.  The answer is the message of an exception, or whether
  the success is audited at the end (an early return is not) together with the action's row.
\<close>

definition active_entries :: "nat \<Rightarrow> string \<Rightarrow> soar \<Rightarrow> blacklist_entry list" where
  "active_entries t v s =
     filter (\<lambda>b. bl_tenant_id b = t \<and> bl_indicator_value b = v \<and> bl_is_active b) (so_blacklist s)"

definition extend_entry :: "env \<Rightarrow> time \<Rightarrow> blacklist_entry \<Rightarrow> blacklist_entry \<Rightarrow> blacklist_entry" where
  \<comment> \<open>\<open>read\<close> is the row that was looked up; an expiry that is not later than its is not written\<close>
  "extend_entry e ends read b =
     b\<lparr>bl_expires_at := (if ends > bl_expires_at read then ends else bl_expires_at b), bl_updated_at := now e\<rparr>"

definition new_entry :: "env \<Rightarrow> action_request \<Rightarrow> action \<Rightarrow> time \<Rightarrow> nat \<Rightarrow> blacklist_entry" where
  "new_entry e q a ends i =
     \<lparr>bl_id = i,
      bl_indicator_type = (if contains ''://'' (aq_target_identifier q) then ''url'' else ''domain''),
      bl_indicator_value = aq_target_identifier q, bl_tenant_id = aq_tenant_id q,
      bl_containment_action_id = Some (ca_id a), bl_reason = aq_reason q, bl_is_active = True,
      bl_expires_at = ends, bl_created_at = now e, bl_updated_at = now e\<rparr>"

definition perform_blacklist ::
  "services \<Rightarrow> env \<Rightarrow> action_request \<Rightarrow> action \<Rightarrow> soar \<Rightarrow> (string + bool \<times> action) \<times> soar" where
  "perform_blacklist w e q a s =
     (if is_whitelisted (aq_target_identifier q)
      then (Inr (False, block_action e (''Rule 0 Invariant: indicator '' @ quoted (aq_target_identifier q) @ '' is allowlisted.'') a),
            in_store (add_audit (blocked_audit e q a ''soc_dynamic_blacklist'')) s)
      else
        (case get_or_create_policy w e (aq_tenant_id q) s of (p, s1) \<Rightarrow>
           let ends = now e + seconds (cp_blacklist_ttl_seconds p);
               back = Some [(''indicator_value'', JStr (aq_target_identifier q)),
                            (''containment_action_id'', JInt (int (ca_id a)))]
           in case scalar_one_or_none (active_entries (aq_tenant_id q) (aq_target_identifier q) s1) of
                Inl msg \<Rightarrow> (Inl msg, s1)
              | Inr (Some b) \<Rightarrow>
                  if sw_naive_times w then (Inl ''can't compare offset-naive and offset-aware datetimes'', s1)
                  else
                    let s2 = sw_overtake w s1
                    in (Inr (True, done_action e back
                          [(''blacklist_id'', JInt (int (bl_id b))), (''action'', JStr ''extended_ttl'')] a),
                        s2\<lparr>so_blacklist := upd_rows (\<lambda>x. bl_id x = bl_id b) (extend_entry e ends b) (so_blacklist s2)\<rparr>)
              | Inr None \<Rightarrow>
                  let s2 = sw_overtake w s1
                  in (Inr (True, done_action e back
                        [(''blacklist_id'', JInt (int (sq_blacklist s2))), (''action'', JStr ''created'')] a),
                      s2\<lparr>so_blacklist := so_blacklist s2 @ [new_entry e q a ends (sq_blacklist s2)],
                         sq_blacklist := Suc (sq_blacklist s2)\<rparr>)))"

definition perform_invalidate_cache ::
  "services \<Rightarrow> env \<Rightarrow> action \<Rightarrow> soar \<Rightarrow> (string + bool \<times> action) \<times> soar" where
  "perform_invalidate_cache w e a s =
     (Inr (True, done_action e None
        (case (if sw_redis w then sw_cache_error w else None) of
           None \<Rightarrow> [(''cache_invalidated'', JBool True)]
         | Some msg \<Rightarrow> [(''cache_invalidated'', JBool False), (''error'', JStr msg)]) a), s)"

definition quarantine_message :: "action \<Rightarrow> string \<Rightarrow> string" where
  "quarantine_message a reason = ''Auto-quarantined: action '' @ ca_uuid a @ '' ('' @ reason @ '')''"

definition quarantine_target :: "action \<Rightarrow> string \<Rightarrow> target \<Rightarrow> target" where
  "quarantine_target a reason g =
     g\<lparr>tg_is_active := False, tg_last_error_message := Some (quarantine_message a reason)\<rparr>"

definition perform_quarantine ::
  "env \<Rightarrow> action_request \<Rightarrow> action \<Rightarrow> soar \<Rightarrow> (string + bool \<times> action) \<times> soar" where
  "perform_quarantine e q a s =
     (if is_whitelisted (aq_target_identifier q)
      then (Inr (False, block_action e
              (''Rule 0 Invariant: target domain '' @ quoted (aq_target_identifier q) @ '' is allowlisted.'') a),
            in_store (add_audit (blocked_audit e q a ''monitoring_targets'')) s)
      else
        (case scalar_one_or_none (named_targets (aq_tenant_id q) (aq_target_identifier q) (so_store s)) of
           Inl msg \<Rightarrow> (Inl msg, s)
         | Inr None \<Rightarrow>
             (Inr (False, a\<lparr>ca_status := FAILED,
                ca_error_message := Some (''Target '' @ quoted (aq_target_identifier q) @ '' not found for tenant.''),
                ca_completed_at := Some (now e)\<rparr>), s)
         | Inr (Some g) \<Rightarrow>
             (if \<not> tg_is_active g
              then (Inr (False, a\<lparr>ca_status := SKIPPED,
                     ca_result_metadata := Some [(''reason'', JStr ''target_already_inactive''),
                                                 (''target_id'', JInt (int (tg_id g)))],
                     ca_completed_at := Some (now e)\<rparr>), s)
              else
                (Inr (True, done_action e
                   (Some [(''target_id'', JInt (int (tg_id g))), (''target_uuid'', JStr (tg_uuid g)),
                          (''previous_is_active'', JBool True), (''action_uuid'', JStr (ca_uuid a))])
                   [(''target_id'', JInt (int (tg_id g))), (''quarantined'', JBool True)] a),
                 in_store (set_target (tg_id g) (quarantine_target a (aq_reason q))) s))))"

definition threat_incident_for :: "env \<Rightarrow> action_request \<Rightarrow> alert \<Rightarrow> store \<Rightarrow> (incident \<times> bool) \<times> store" where
  "threat_incident_for e q x st =
     get_or_create_threat_incident (env_shift 3 e) (Some (aq_tenant_id q)) (aq_target_identifier q)
       (if al_severity x = [] then ''CRITICAL'' else al_severity x)
       (''Automated Containment Incident: '' @ al_title x)
       (Some (''Triggered by containment action on '' @ aq_target_identifier q @ ''. Reason: '' @ aq_reason q))
       (Some (al_id x)) None st"

definition bind_incident :: "env \<Rightarrow> action_request \<Rightarrow> store \<Rightarrow> nat option \<times> store" where
  \<comment> \<open>the incident of the tenant's alert, an existing or a new one\<close>
  "bind_incident e q st =
     (case (if truthy_nat (aq_alert_id q)
            then first_row (filter (\<lambda>x. aq_alert_id q = Some (al_id x) \<and> al_user_id x = Some (aq_tenant_id q))
                              (st_alerts st))
            else None) of
        None \<Rightarrow> (None, st)
      | Some x \<Rightarrow>
          if truthy_nat (al_incident_id x) then (al_incident_id x, st)
          else (case threat_incident_for e q x st of ((inc, created), st') \<Rightarrow> (Some (in_id inc), st')))"

definition perform_create_incident ::
  "env \<Rightarrow> action_request \<Rightarrow> action \<Rightarrow> soar \<Rightarrow> (string + bool \<times> action) \<times> soar" where
  "perform_create_incident e q a s =
     (case bind_incident e q (so_store s) of (i, st) \<Rightarrow>
        (Inr (True, (done_action e None [(''incident_id'', json_nat i)] a)\<lparr>ca_incident_id := i\<rparr>),
         s\<lparr>so_store := st\<rparr>))"

definition applied_event :: "env \<Rightarrow> action_request \<Rightarrow> action \<Rightarrow> soc_event" where
  "applied_event e q a =
     \<lparr>se_cursor_id = 0, se_event_id = uuids e 1, se_tenant_id = aq_tenant_id q, se_channel = ''soc'',
      se_event_type = ''containment_applied'',
      se_aggregate_id = Some (if truthy_nat (aq_alert_id q) then show_nat (the (aq_alert_id q))
                              else aq_target_identifier q),
      se_payload =
        [(''action_uuid'', JStr (ca_uuid a)), (''action_type'', JStr (action_type_value (aq_action_type q))),
         (''target_identifier'', JStr (aq_target_identifier q)), (''status'', JStr ''EXECUTED''),
         (''alert_id'', json_nat (aq_alert_id q))],
      se_created_at = now e\<rparr>"

definition perform_emit ::
  "env \<Rightarrow> action_request \<Rightarrow> action \<Rightarrow> soar \<Rightarrow> (string + bool \<times> action) \<times> soar" where
  "perform_emit e q a s =
     (Inr (True, done_action e None [(''event_id'', JStr (uuids e 1))] a),
      in_store (add_soc_event (applied_event e q a)) s)"

definition perform_notify ::
  "env \<Rightarrow> action \<Rightarrow> soar \<Rightarrow> (string + bool \<times> action) \<times> soar" where
  \<comment> \<open>\<open>NotificationService\<close> has no \<open>create_in_app_notification\<close>: the \<open>AttributeError\<close> is recorded\<close>
  "perform_notify e a s =
     (Inr (True, done_action e None
        [(''notification_enqueued'', JBool False),
         (''error'', JStr (quoted ''NotificationService'' @ '' object has no attribute '' @
                           quoted ''create_in_app_notification''))] a), s)"

definition perform ::
  "services \<Rightarrow> env \<Rightarrow> action_request \<Rightarrow> action \<Rightarrow> soar \<Rightarrow> (string + bool \<times> action) \<times> soar" where
  "perform w e q a s =
     (case aq_action_type q of
        BLACKLIST_INDICATOR \<Rightarrow> perform_blacklist w e q a s
      | INVALIDATE_CACHE \<Rightarrow> perform_invalidate_cache w e a s
      | QUARANTINE_TARGET \<Rightarrow> perform_quarantine e q a s
      | CREATE_INCIDENT \<Rightarrow> perform_create_incident e q a s
      | EMIT_SOC_EVENT \<Rightarrow> perform_emit e q a s
      | SEND_NOTIFICATION \<Rightarrow> perform_notify e a s)"

definition action_audit :: "env \<Rightarrow> action_request \<Rightarrow> action \<Rightarrow> audit" where
  "action_audit e q a =
     create_audit_event e 2 (''CONTAINMENT_ACTION_'' @ action_status_value (ca_status a))
       (aq_actor_user_id q) ''soc_containment_actions'' (ca_uuid a)
       [(''tenant_id'', JInt (int (aq_tenant_id q))),
        (''action_type'', JStr (action_type_value (aq_action_type q))),
        (''target_identifier'', JStr (aq_target_identifier q)),
        (''alert_id'', json_nat (aq_alert_id q)),
        (''status'', JStr (action_status_value (ca_status a)))] None"

definition fail_action :: "env \<Rightarrow> string \<Rightarrow> action \<Rightarrow> action" where
  "fail_action e msg a =
     a\<lparr>ca_status := FAILED, ca_error_message := Some msg, ca_completed_at := Some (now e)\<rparr>"

definition add_action :: "action \<Rightarrow> soar \<Rightarrow> soar" where
  "add_action a s = s\<lparr>so_actions := so_actions s @ [a\<lparr>ca_id := sq_action s\<rparr>], sq_action := Suc (sq_action s)\<rparr>"

definition settle :: "env \<Rightarrow> action_request \<Rightarrow> action \<Rightarrow> (string + bool \<times> action) \<times> soar \<Rightarrow> action \<times> soar" where
  \<comment> \<open>the row after the attempt, and the audit of a success; an exception fails the action\<close>
  "settle e q a x =
     (case x of
        (Inl msg, s) \<Rightarrow> (fail_action e msg a, set_action (ca_id a) (fail_action e msg) s)
      | (Inr (audited, a'), s) \<Rightarrow>
          (a', (if audited then in_store (add_audit (action_audit e q a')) else (\<lambda>x. x))
                 (set_action (ca_id a) (\<lambda>_. a') s)))"

definition execute_action ::
  "services \<Rightarrow> env \<Rightarrow> action_request \<Rightarrow> soar \<Rightarrow> action \<times> soar" where
  "execute_action w e q s =
     (case action_of_key (action_key q) s of
        Some a \<Rightarrow> (a, s)
      | None \<Rightarrow>
          (case action_of_key (action_key q) (sw_race w s) of
             Some a \<Rightarrow> (a, sw_race w s)
           | None \<Rightarrow>
               let a = (new_action e q)\<lparr>ca_id := sq_action (sw_race w s)\<rparr>
               in settle e q a (perform w e q a (add_action (new_action e q) (sw_race w s)))))"

subsection \<open>Playbooks\<close>

definition action_sequence :: "string \<Rightarrow> action_type list" where
  \<comment> \<open>empty for an unknown playbook\<close>
  "action_sequence name =
     (if name = ''CRITICAL_THREAT_AUTO_CONTAINMENT_V1''
      then [BLACKLIST_INDICATOR, INVALIDATE_CACHE, CREATE_INCIDENT, EMIT_SOC_EVENT, SEND_NOTIFICATION]
      else if name = ''REPEATED_TARGET_COMPROMISE_QUARANTINE_V1''
      then [QUARANTINE_TARGET, CREATE_INCIDENT, EMIT_SOC_EVENT, SEND_NOTIFICATION]
      else if name = ''MANUAL_CONTAINMENT_V1'' then [BLACKLIST_INDICATOR] else [])"

definition owns_run :: "playbook_run \<Rightarrow> soar \<Rightarrow> bool" where
  "owns_run r s =
     list_ex (\<lambda>x. pr_id x = pr_id r \<and> pr_fencing_token x = pr_fencing_token r \<and>
        pr_status x = R_RUNNING) (so_runs s)"

datatype playbook_end =
    Fenced
  | Finished nat "string option" \<comment> \<open>the number of actions and the error message\<close>

fun run_actions ::
  "services \<Rightarrow> env \<Rightarrow> playbook_run \<Rightarrow> action_request \<Rightarrow> nat \<Rightarrow> action_type list \<Rightarrow> soar \<Rightarrow>
   playbook_end \<times> soar" where
  "run_actions w e r q n [] s = (Finished n None, s)"
| "run_actions w e r q n (t # ts) s =
     (if t \<in> {BLACKLIST_INDICATOR, QUARANTINE_TARGET} \<and> \<not> owns_run r s then (Fenced, s)
      else
        case execute_action w (env_shift (4 + 10 * n) e) (q\<lparr>aq_action_type := t\<rparr>) s of (a, s1) \<Rightarrow>
          if ca_status a = FAILED
          then (Finished (Suc n) (Some (''Action '' @ action_type_value t @ '' failed: '' @
                  (case ca_error_message a of None \<Rightarrow> ''None'' | Some m \<Rightarrow> m))), s1)
          else run_actions w e r q (Suc n) ts s1)"

record playbook_request =
  pq_playbook_name :: string
  pq_tenant_id :: nat
  pq_trigger_event :: string
  pq_target_identifier :: string
  pq_alert_id :: "nat option"
  pq_target_id :: "nat option"
  pq_actor_user_id :: "nat option"
  pq_reason :: string

definition run_key :: "playbook_request \<Rightarrow> string" where
  "run_key p =
     ''tenant:'' @ show_nat (pq_tenant_id p) @ '':alert:'' @ show_alert_id (pq_alert_id p) @
     '':playbook:'' @ pq_playbook_name p"

definition run_of_key :: "string \<Rightarrow> soar \<Rightarrow> playbook_run option" where
  "run_of_key k s = first_row (filter (\<lambda>r. pr_idempotency_key r = k) (so_runs s))"

definition new_run :: "env \<Rightarrow> playbook_request \<Rightarrow> nat \<Rightarrow> playbook_run" where
  "new_run e p i =
     \<lparr>pr_id = i, pr_uuid = uuids e 1, pr_playbook_name = pq_playbook_name p,
      pr_playbook_version = ''1.0'', pr_tenant_id = pq_tenant_id p,
      pr_trigger_event = pq_trigger_event p, pr_alert_id = pq_alert_id p,
      pr_target_id = pq_target_id p, pr_status = R_RUNNING, pr_fencing_token = 1,
      pr_action_count = 0, pr_idempotency_key = run_key p, pr_error_message = None,
      pr_started_at = now e, pr_completed_at = None, pr_created_at = now e, pr_updated_at = now e\<rparr>"

definition soc_channel_event :: "env \<Rightarrow> nat \<Rightarrow> nat \<Rightarrow> string \<Rightarrow> string \<Rightarrow> dict \<Rightarrow> soc_event" where
  "soc_channel_event e k t etype agg payload =
     \<lparr>se_cursor_id = 0, se_event_id = uuids e k, se_tenant_id = t, se_channel = ''soc'',
      se_event_type = etype, se_aggregate_id = Some agg, se_payload = payload,
      se_created_at = now e\<rparr>"

definition broadcast_soc :: "soc_event \<Rightarrow> store \<Rightarrow> store" where
  \<comment> \<open>the stream row, the commit and the broadcast under its cursor and event id\<close>
  "broadcast_soc ev s =
     publish_event ((publish_of (ev\<lparr>se_cursor_id := sq_stream s\<rparr>))\<lparr>pb_event_id := Some (se_event_id ev)\<rparr>)
       (add_soc_event ev s)"

definition action_of_playbook :: "playbook_request \<Rightarrow> playbook_run \<Rightarrow> action_request" where
  "action_of_playbook p r =
     \<lparr>aq_action_type = BLACKLIST_INDICATOR, aq_target_identifier = pq_target_identifier p,
      aq_tenant_id = pq_tenant_id p, aq_trigger_source = ''playbook:'' @ pq_playbook_name p,
      aq_alert_id = pq_alert_id p, aq_run_id = Some (pr_id r),
      aq_actor_user_id = pq_actor_user_id p, aq_reason = pq_reason p\<rparr>"

definition end_run :: "env \<Rightarrow> run_status \<Rightarrow> nat \<Rightarrow> string option \<Rightarrow> playbook_run \<Rightarrow> playbook_run" where
  "end_run e st n msg r =
     r\<lparr>pr_status := st, pr_action_count := n, pr_error_message := msg,
       pr_completed_at := Some (now e)\<rparr>"

definition finish_run :: "env \<Rightarrow> playbook_request \<Rightarrow> nat \<Rightarrow> string option \<Rightarrow> playbook_run \<Rightarrow> soar \<Rightarrow>
   playbook_run \<times> soar" where
  \<comment> \<open>the row, the stream event and, after the commit, the broadcast\<close>
  "finish_run e p n msg r s =
     (let r' = end_run e (if msg = None then R_COMPLETED else R_FAILED) n msg r;
          ev = soc_channel_event e 3 (pq_tenant_id p)
                 (if msg = None then ''playbook_completed'' else ''playbook_failed'') (pr_uuid r)
                 [(''run_uuid'', JStr (pr_uuid r)), (''status'', JStr (run_status_value (pr_status r'))),
                  (''action_count'', JInt (int n))]
      in (r', in_store (broadcast_soc ev) (set_run (pr_id r) (\<lambda>_. r') s)))"

definition add_run :: "playbook_run \<Rightarrow> soar \<Rightarrow> soar" where
  "add_run r s = s\<lparr>so_runs := so_runs s @ [r], sq_run := Suc (sq_run s)\<rparr>"

definition triggered_event :: "env \<Rightarrow> playbook_request \<Rightarrow> playbook_run \<Rightarrow> soc_event" where
  "triggered_event e p r =
     soc_channel_event e 2 (pq_tenant_id p) ''playbook_triggered'' (pr_uuid r)
       [(''run_uuid'', JStr (pr_uuid r)), (''playbook_name'', JStr (pq_playbook_name p)),
        (''alert_id'', json_nat (pq_alert_id p)), (''target_identifier'', JStr (pq_target_identifier p))]"

definition fail_run :: "env \<Rightarrow> string \<Rightarrow> playbook_run \<Rightarrow> soar \<Rightarrow> playbook_run \<times> soar" where
  "fail_run e msg r s =
     (let r' = end_run e R_FAILED 0 (Some msg) r in (r', set_run (pr_id r) (\<lambda>_. r') s))"

definition close_run :: "env \<Rightarrow> playbook_request \<Rightarrow> playbook_run \<Rightarrow> playbook_end \<times> soar \<Rightarrow> playbook_run \<times> soar" where
  "close_run e p r x =
     (case x of
        (Fenced, s) \<Rightarrow> fail_run e ''Stale worker fenced: lost execution authority.'' r s
      | (Finished n msg, s) \<Rightarrow> finish_run e p n msg r s)"

definition run_playbook :: "services \<Rightarrow> env \<Rightarrow> playbook_request \<Rightarrow> playbook_run \<Rightarrow> soar \<Rightarrow> playbook_run \<times> soar" where
  "run_playbook w e p r s =
     (if action_sequence (pq_playbook_name p) = []
      then fail_run e (''Unknown playbook: '' @ pq_playbook_name p) r s
      else close_run e p r
             (run_actions w e r (action_of_playbook p r) 0 (action_sequence (pq_playbook_name p)) s))"

definition execute_playbook ::
  "services \<Rightarrow> env \<Rightarrow> playbook_request \<Rightarrow> soar \<Rightarrow> (containment_error + playbook_run) \<times> soar" where
  "execute_playbook w e p s =
     (case run_of_key (run_key p) s of
        Some r \<Rightarrow> (Inr r, s)
      | None \<Rightarrow>
          (case acquire_tenant_concurrency_lease w e (pq_tenant_id p) s of
             (Inl err, s1) \<Rightarrow> (Inl err, s1)
           | (Inr token, s1) \<Rightarrow>
               (case run_of_key (run_key p) (sw_race w s1) of
                  Some r \<Rightarrow>
                    (Inr r, release_tenant_concurrency_lease w (pq_tenant_id p) token (sw_race w s1))
                | None \<Rightarrow>
                    let r = new_run e p (sq_run (sw_race w s1))
                    in case run_playbook w e p r
                              (in_store (add_soc_event (triggered_event e p r)) (add_run r (sw_race w s1))) of
                         (r', s2) \<Rightarrow>
                           (Inr r', release_tenant_concurrency_lease w (pq_tenant_id p) token s2))))"

subsection \<open>The evaluation of an alert\<close>

definition severity_reached :: "policy \<Rightarrow> alert \<Rightarrow> bool" where
  "severity_reached p a =
     (let sev = str_upper (if al_severity a = [] then ''MEDIUM'' else al_severity a);
          least = str_upper (cp_containment_min_severity p)
      in \<not> (least = ''CRITICAL'' \<and> sev \<noteq> ''CRITICAL'') \<and>
         \<not> (least = ''HIGH'' \<and> sev \<notin> {''HIGH'', ''CRITICAL''}))"

definition alert_targets :: "nat \<Rightarrow> string \<Rightarrow> store \<Rightarrow> target list" where
  "alert_targets t v s =
     filter (\<lambda>g. tg_user_id g = t \<and> (tg_url g = v \<or> tg_normalized_domain g = v)) (st_targets s)"

definition quarantine_playbook :: "nat \<Rightarrow> target \<Rightarrow> alert \<Rightarrow> playbook_request" where
  "quarantine_playbook t g a =
     \<lparr>pq_playbook_name = ''REPEATED_TARGET_COMPROMISE_QUARANTINE_V1'', pq_tenant_id = t,
      pq_trigger_event = ''alert_quarantine_threshold_met'', pq_target_identifier = tg_uuid g,
      pq_alert_id = Some (al_id a), pq_target_id = Some (tg_id g), pq_actor_user_id = None,
      pq_reason = ''Auto-quarantined: >= 3 active high-severity alerts in 10 minutes''\<rparr>"

definition blacklist_playbook :: "nat \<Rightarrow> alert \<Rightarrow> playbook_request" where
  "blacklist_playbook t a =
     \<lparr>pq_playbook_name = ''CRITICAL_THREAT_AUTO_CONTAINMENT_V1'', pq_tenant_id = t,
      pq_trigger_event = ''critical_alert_auto_containment'',
      pq_target_identifier = al_indicator_value a, pq_alert_id = Some (al_id a),
      pq_target_id = None, pq_actor_user_id = None,
      pq_reason = ''Automated containment for alert '' @ show_nat (al_id a) @ '' ('' @ al_title a @ '')''\<rparr>"

datatype evaluation_error = MultipleResultsFound | Rejected containment_error

definition start_playbook ::
  "services \<Rightarrow> env \<Rightarrow> playbook_request \<Rightarrow> soar \<Rightarrow> (evaluation_error + playbook_run option) \<times> soar" where
  "start_playbook w e p s =
     (case execute_playbook w e p s of
        (Inl err, s') \<Rightarrow> (Inl (Rejected err), s')
      | (Inr r, s') \<Rightarrow> (Inr (Some r), s'))"

definition evaluate_alert_containment ::
  "services \<Rightarrow> env \<Rightarrow> alert \<Rightarrow> soar \<Rightarrow> (evaluation_error + playbook_run option) \<times> soar" where
  "evaluate_alert_containment w e a s =
     (if \<not> truthy_nat (al_user_id a) then (Inr None, s)
      else
        let t = the (al_user_id a)
        in case get_or_create_policy w e t s of (p, s1) \<Rightarrow>
          if \<not> cp_auto_containment_enabled p \<or> \<not> severity_reached p a then (Inr None, s1)
          else
            (case (if cp_auto_quarantine_enabled p
                   then scalar_one_or_none (alert_targets t (al_indicator_value a) (so_store s1))
                   else Inr None) of
               Inl msg \<Rightarrow> (Inl MultipleResultsFound, others_committed w t s)
             | Inr tg \<Rightarrow>
                 (case tg of
                    Some g \<Rightarrow>
                      if evaluate_quarantine_eligibility e g (so_store s1)
                      then start_playbook w e (quarantine_playbook t g a) s1
                      else if cp_auto_blacklist_enabled p
                      then start_playbook w e (blacklist_playbook t a) s1
                      else (Inr None, s1)
                  | None \<Rightarrow>
                      if cp_auto_blacklist_enabled p
                      then start_playbook w e (blacklist_playbook t a) s1
                      else (Inr None, s1))))"

subsection \<open>Rollback\<close>

definition action_of_uuid :: "string \<Rightarrow> soar \<Rightarrow> action option" where
  "action_of_uuid u s = first_row (filter (\<lambda>a. ca_uuid a = u) (so_actions s))"

definition deactivate_entry :: "env \<Rightarrow> blacklist_entry \<Rightarrow> blacklist_entry" where
  "deactivate_entry e b = b\<lparr>bl_is_active := False, bl_updated_at := now e\<rparr>"

definition release_target :: "target \<Rightarrow> target" where
  "release_target g = g\<lparr>tg_is_active := True, tg_last_error_message := None\<rparr>"

definition recorded_target :: "action \<Rightarrow> nat" where
  \<comment> \<open>\<open>rollback_metadata["target_id"]\<close>, 0 when there is none\<close>
  "recorded_target a =
     (case ca_rollback_metadata a of
        None \<Rightarrow> 0
      | Some d \<Rightarrow> (case dict_get d ''target_id'' of Some (JInt i) \<Rightarrow> nat i | _ \<Rightarrow> 0))"

definition quarantined_by :: "action \<Rightarrow> target \<Rightarrow> bool" where
  \<comment> \<open>the target whose last error names this action\<close>
  "quarantined_by a g =
     (recorded_target a \<noteq> 0 \<and> tg_id g = recorded_target a \<and> tg_user_id g = ca_tenant_id a \<and>
      (case tg_last_error_message g of None \<Rightarrow> False
       | Some m \<Rightarrow> m \<noteq> [] \<and> contains (ca_uuid a) m))"

definition roll_back :: "env \<Rightarrow> action \<Rightarrow> soar \<Rightarrow> soar" where
  \<comment> \<open>the other types have nothing to take back\<close>
  "roll_back e a s =
     (case ca_action_type a of
        BLACKLIST_INDICATOR \<Rightarrow>
          s\<lparr>so_blacklist := upd_rows (\<lambda>b. bl_containment_action_id b = Some (ca_id a) \<and> bl_is_active b)
                            (deactivate_entry e) (so_blacklist s)\<rparr>
      | QUARANTINE_TARGET \<Rightarrow>
          in_store (\<lambda>st. st\<lparr>st_targets := upd_rows (quarantined_by a) release_target (st_targets st)\<rparr>) s
      | _ \<Rightarrow> s)"

definition revert_row :: "env \<Rightarrow> user \<Rightarrow> action \<Rightarrow> action" where
  "revert_row e u a =
     a\<lparr>ca_status := REVERTED, ca_reverted_at := Some (now e),
       ca_reverted_by_user_id := Some (usr_id u)\<rparr>"

definition revert_event :: "env \<Rightarrow> user \<Rightarrow> action \<Rightarrow> soc_event" where
  "revert_event e u a =
     soc_channel_event e 0 (ca_tenant_id a) ''containment_reverted'' (ca_uuid a)
       [(''action_uuid'', JStr (ca_uuid a)), (''action_type'', JStr (action_type_value (ca_action_type a))),
        (''reverted_by'', JInt (int (usr_id u)))]"

definition revert_audit :: "env \<Rightarrow> user \<Rightarrow> action \<Rightarrow> audit" where
  "revert_audit e u a =
     create_audit_event e 1 ''CONTAINMENT_ACTION_REVERTED'' (Some (usr_id u)) ''soc_containment_actions''
       (ca_uuid a)
       [(''tenant_id'', JInt (int (ca_tenant_id a))),
        (''action_type'', JStr (action_type_value (ca_action_type a)))] None"

definition revert_action ::
  "env \<Rightarrow> string \<Rightarrow> user \<Rightarrow> soar \<Rightarrow> (containment_error + action) \<times> soar" where
  "revert_action e uuid u s =
     (case action_of_uuid uuid s of
        None \<Rightarrow> (Inl HTTP_404_NOT_FOUND, s)
      | Some a \<Rightarrow>
          if ca_tenant_id a \<noteq> usr_id u \<and> \<not> is_admin u then (Inl HTTP_404_NOT_FOUND, s)
          else if ca_status a = REVERTED then (Inr a, s)
          else if ca_status a \<noteq> EXECUTED then (Inl HTTP_400_BAD_REQUEST, s)
          else
            (Inr (revert_row e u a),
             in_store (\<lambda>st. broadcast_soc (revert_event e u a) (add_audit (revert_audit e u a) st))
               (set_action (ca_id a) (revert_row e u) (roll_back e a s))))"

end
