(* ===== verification/ContainmentSafety.thy ===== *)
theory ContainmentSafety
  imports Containment Samples
begin

text \<open>
  What automated containment guarantees: the tables stay well formed and the allowlist is never
  blacklisted, an action is executed once, a rollback takes back what its action did and nothing
  else, policies are updated under optimistic locking, the concurrency leases are bounded, and
  tenants are isolated.
\<close>

subsection \<open>Tables\<close>

definition entries_ok :: "nat \<Rightarrow> blacklist_entry list \<Rightarrow> bool" where
  \<comment> \<open>no allowlisted indicator\<close>
  "entries_ok n bs \<longleftrightarrow> cursor_ordered bl_id n bs \<and> (\<forall>b\<in>set bs. \<not> is_whitelisted (bl_indicator_value b))"

definition soar_ok :: "soar \<Rightarrow> bool" where
  "soar_ok s \<longleftrightarrow>
     cursor_ordered ca_id (sq_action s) (so_actions s) \<and> unique_by ca_idempotency_key (so_actions s) \<and>
     cursor_ordered pr_id (sq_run s) (so_runs s) \<and> unique_by pr_idempotency_key (so_runs s) \<and>
     cursor_ordered cp_id (sq_policy s) (so_policies s) \<and> unique_by cp_tenant_id (so_policies s) \<and>
     entries_ok (sq_blacklist s) (so_blacklist s)"

definition action_ident :: "action \<Rightarrow> nat \<times> string \<times> string" where
  "action_ident a = (ca_id a, ca_uuid a, ca_idempotency_key a)"

definition run_ident :: "playbook_run \<Rightarrow> nat \<times> string" where
  "run_ident r = (pr_id r, pr_idempotency_key r)"

definition grows :: "soar \<Rightarrow> soar \<Rightarrow> bool" where
  \<comment> \<open>actions and runs are added, the identity of those that exist is not changed\<close>
  "grows s s' \<longleftrightarrow>
     (\<exists>xs. map action_ident (so_actions s') = map action_ident (so_actions s) @ xs) \<and>
     (\<exists>ys. map run_ident (so_runs s') = map run_ident (so_runs s) @ ys)"

definition respectful :: "services \<Rightarrow> bool" where
  \<comment> \<open>what other sessions commit keeps the tables well formed\<close>
  "respectful w \<longleftrightarrow> (\<forall>s. soar_ok s \<longrightarrow> soar_ok (sw_race w s) \<and> grows s (sw_race w s) \<and>
     soar_ok (sw_overtake w s) \<and> grows s (sw_overtake w s))"

lemma grows_refl [simp]: "grows s s"
  by (simp add: grows_def)

lemma grows_trans: "grows s s1 \<Longrightarrow> grows s1 s2 \<Longrightarrow> grows s s2"
  by (auto simp: grows_def)

lemma grows_same:
  "so_actions s' = so_actions s \<Longrightarrow> so_runs s' = so_runs s \<Longrightarrow> grows s s'"
  by (simp add: grows_def)

lemma grows_action: "grows s s' \<Longrightarrow> a \<in> set (so_actions s) \<Longrightarrow> action_ident a \<in> action_ident ` set (so_actions s')"
  unfolding grows_def by (metis Un_iff image_eqI list.set_map set_append)

lemma grows_run: "grows s s' \<Longrightarrow> r \<in> set (so_runs s) \<Longrightarrow> run_ident r \<in> run_ident ` set (so_runs s')"
  unfolding grows_def by (metis Un_iff image_eqI list.set_map set_append)

lemma soar_ok_empty [simp]: "soar_ok empty_soar"
  by (simp add: soar_ok_def empty_soar_def entries_ok_def cursor_ordered_def unique_by_def)

lemma in_store_simps [simp]:
  "so_store (in_store f s) = f (so_store s)" "so_policies (in_store f s) = so_policies s"
  "so_runs (in_store f s) = so_runs s" "so_actions (in_store f s) = so_actions s"
  "so_blacklist (in_store f s) = so_blacklist s" "so_leases (in_store f s) = so_leases s"
  "sq_policy (in_store f s) = sq_policy s" "sq_run (in_store f s) = sq_run s"
  "sq_action (in_store f s) = sq_action s" "sq_blacklist (in_store f s) = sq_blacklist s"
  by (simp_all add: in_store_def)

lemma set_action_simps [simp]:
  "so_store (set_action i f s) = so_store s" "so_policies (set_action i f s) = so_policies s"
  "so_runs (set_action i f s) = so_runs s" "so_blacklist (set_action i f s) = so_blacklist s"
  "so_actions (set_action i f s) = upd_rows (\<lambda>a. ca_id a = i) f (so_actions s)"
  "so_leases (set_action i f s) = so_leases s" "sq_policy (set_action i f s) = sq_policy s"
  "sq_run (set_action i f s) = sq_run s" "sq_action (set_action i f s) = sq_action s"
  "sq_blacklist (set_action i f s) = sq_blacklist s"
  by (simp_all add: set_action_def)

lemma set_run_simps [simp]:
  "so_store (set_run i g s) = so_store s" "so_policies (set_run i g s) = so_policies s"
  "so_actions (set_run i g s) = so_actions s" "so_blacklist (set_run i g s) = so_blacklist s"
  "so_runs (set_run i g s) = upd_rows (\<lambda>a. pr_id a = i) g (so_runs s)"
  "so_leases (set_run i g s) = so_leases s" "sq_policy (set_run i g s) = sq_policy s"
  "sq_run (set_run i g s) = sq_run s" "sq_action (set_run i g s) = sq_action s"
  "sq_blacklist (set_run i g s) = sq_blacklist s"
  by (simp_all add: set_run_def)

lemma soar_ok_frame [simp]:
  "soar_ok (in_store f s) = soar_ok s" "soar_ok (s\<lparr>so_leases := ls\<rparr>) = soar_ok s"
  "soar_ok (s\<lparr>so_store := st\<rparr>) = soar_ok s"
  by (simp_all add: soar_ok_def)

lemma unique_by_upd_key:
  "unique_by k rs \<Longrightarrow> (\<And>r. r \<in> set rs \<Longrightarrow> p r \<Longrightarrow> k (f r) = k r) \<Longrightarrow> unique_by k (upd_rows p f rs)"
proof -
  assume a: "unique_by k rs" "\<And>r. r \<in> set rs \<Longrightarrow> p r \<Longrightarrow> k (f r) = k r"
  have "map k (upd_rows p f rs) = map k rs" using a(2) by (simp add: upd_rows_def)
  then show ?thesis using a(1) by (simp add: unique_by_def)
qed

lemma cursor_ordered_upd_rows:
  "cursor_ordered k n rs \<Longrightarrow> (\<And>r. r \<in> set rs \<Longrightarrow> p r \<Longrightarrow> k (f r) = k r) \<Longrightarrow> cursor_ordered k n (upd_rows p f rs)"
proof -
  assume a: "cursor_ordered k n rs" "\<And>r. r \<in> set rs \<Longrightarrow> p r \<Longrightarrow> k (f r) = k r"
  have "map k (upd_rows p f rs) = map k rs" using a(2) by (simp add: upd_rows_def)
  then show ?thesis using a by (auto simp: cursor_ordered_def in_upd_rows)
qed

lemma entries_ok_upd:
  assumes "entries_ok n bs" "\<And>b. bl_id (f b) = bl_id b \<and> bl_indicator_value (f b) = bl_indicator_value b"
  shows "entries_ok n (upd_rows p f bs)"
  using assms by (auto simp: entries_ok_def in_upd_rows intro!: cursor_ordered_upd_rows split: if_splits)

lemma entries_ok_snoc:
  assumes "entries_ok n bs" "bl_id b = n" "\<not> is_whitelisted (bl_indicator_value b)"
  shows "entries_ok (Suc n) (bs @ [b])"
  using assms by (auto simp: entries_ok_def intro: cursor_ordered_snoc)

lemma first_row_filter_None [simp]: "first_row (filter p rs) = None \<longleftrightarrow> (\<forall>r\<in>set rs. \<not> p r)"
  by (simp add: filter_empty_conv)

lemma first_row_filter_Some: "first_row (filter p rs) = Some r \<Longrightarrow> r \<in> set rs \<and> p r"
  using first_row_Some by fastforce

lemma policy_tables:
  assumes "get_or_create_policy w e t s = (p, s')"
  shows "\<exists>s0\<in>{s, sw_race w s}. so_store s' = so_store s0 \<and> so_runs s' = so_runs s0 \<and>
    so_actions s' = so_actions s0 \<and> so_blacklist s' = so_blacklist s0 \<and> so_leases s' = so_leases s0 \<and>
    sq_run s' = sq_run s0 \<and> sq_action s' = sq_action s0 \<and> sq_blacklist s' = sq_blacklist s0"
  using assms by (auto simp: get_or_create_policy_def Let_def split: option.splits)

lemma policy_ok:
  assumes "soar_ok s" "respectful w" "get_or_create_policy w e t s = (p, s')"
  shows "soar_ok s'" "grows s s'"
proof -
  have race: "soar_ok (sw_race w s)" "grows s (sw_race w s)" using assms(1,2) by (simp_all add: respectful_def)
  then have "soar_ok (sw_race w s\<lparr>so_policies := so_policies (sw_race w s) @ [(default_policy e t)\<lparr>cp_id := sq_policy (sw_race w s)\<rparr>],
      sq_policy := Suc (sq_policy (sw_race w s))\<rparr>)" if "policy_of t (sw_race w s) = None"
    using that by (auto simp: soar_ok_def policy_of_def default_policy_def filter_empty_conv intro!: cursor_ordered_snoc unique_by_snoc)
  then show "soar_ok s'"
    using assms race(1) by (auto simp: get_or_create_policy_def Let_def split: option.splits)
  show "grows s s'" using policy_tables [OF assms(3)] race(2) by (auto simp: grows_def)
qed

subsection \<open>The actions keep the tables\<close>

definition same_action :: "action \<Rightarrow> action \<Rightarrow> bool" where
  "same_action a b \<longleftrightarrow> ca_id b = ca_id a \<and> ca_uuid b = ca_uuid a \<and> ca_tenant_id b = ca_tenant_id a \<and>
     ca_action_type b = ca_action_type a \<and> ca_target_identifier b = ca_target_identifier a \<and>
     ca_idempotency_key b = ca_idempotency_key a \<and> ca_alert_id b = ca_alert_id a"

lemma same_action_updates [simp]:
  "same_action a (block_action e m a)" "same_action a (done_action e d d' a)" "same_action a (fail_action e m a)"
  "same_action a (revert_row e u a)" "same_action a a"
  by (simp_all add: same_action_def block_action_def done_action_def fail_action_def revert_row_def)

lemma perform_blacklist_cases:
  assumes "perform_blacklist w e q a s = (res, s')"
  obtains (blocked) "is_whitelisted (aq_target_identifier q)" "s' = in_store (add_audit (blocked_audit e q a ''soc_dynamic_blacklist'')) s"
      "\<exists>m. res = Inr (False, block_action e m a)"
  | (allowed) p s1 where "\<not> is_whitelisted (aq_target_identifier q)"
      "get_or_create_policy w e (aq_tenant_id q) s = (p, s1)"
      "(\<exists>m. res = Inl m \<and> s' = s1) \<or>
       (\<exists>d. res = Inr (True, done_action e (Some [(''indicator_value'', JStr (aq_target_identifier q)),
             (''containment_action_id'', JInt (int (ca_id a)))]) d a)) \<and>
       ((\<exists>b. active_entries (aq_tenant_id q) (aq_target_identifier q) s1 = [b] \<and>
          s' = (sw_overtake w s1)\<lparr>so_blacklist := upd_rows (\<lambda>x. bl_id x = bl_id b)
             (extend_entry e (now e + seconds (cp_blacklist_ttl_seconds p)) b) (so_blacklist (sw_overtake w s1))\<rparr>) \<or>
        (active_entries (aq_tenant_id q) (aq_target_identifier q) s1 = [] \<and>
          s' = (sw_overtake w s1)\<lparr>so_blacklist := so_blacklist (sw_overtake w s1) @
              [new_entry e q a (now e + seconds (cp_blacklist_ttl_seconds p)) (sq_blacklist (sw_overtake w s1))],
            sq_blacklist := Suc (sq_blacklist (sw_overtake w s1))\<rparr>))"
proof (cases "is_whitelisted (aq_target_identifier q)")
  case True
  then show ?thesis using assms by (intro blocked) (auto simp: perform_blacklist_def)
next
  case False
  obtain p s1 where p: "get_or_create_policy w e (aq_tenant_id q) s = (p, s1)" by fastforce
  show ?thesis
    using assms False p
    by (intro allowed [of p s1])
      (auto simp: perform_blacklist_def scalar_one_or_none_def Let_def split: list.splits if_splits)
qed

lemma new_entry_simps [simp]:
  "bl_id (new_entry e q a x i) = i" "bl_tenant_id (new_entry e q a x i) = aq_tenant_id q"
  "bl_indicator_value (new_entry e q a x i) = aq_target_identifier q"
  "bl_containment_action_id (new_entry e q a x i) = Some (ca_id a)" "bl_is_active (new_entry e q a x i)"
  by (simp_all add: new_entry_def)

lemma perform_blacklist_ok:
  assumes "perform_blacklist w e q a s = (res, s')" "soar_ok s" "respectful w"
  shows "soar_ok s' \<and> grows s s'"
  using assms(1)
proof (cases rule: perform_blacklist_cases)
  case (allowed p s1)
  have s1: "soar_ok s1" "grows s s1" using policy_ok [OF assms(2,3) allowed(2)] .
  define s2 where "s2 = sw_overtake w s1"
  have s2: "soar_ok s2" "grows s s2"
    using s1 assms(3) grows_trans by (auto simp: respectful_def s2_def)
  then have en: "entries_ok (sq_blacklist s2) (so_blacklist s2)" by (simp add: soar_ok_def)
  have "entries_ok (sq_blacklist s2) (upd_rows (\<lambda>x. bl_id x = i) (extend_entry e ends b) (so_blacklist s2))" for i ends b
    by (rule entries_ok_upd [OF en]) (simp add: extend_entry_def)
  moreover have "entries_ok (Suc (sq_blacklist s2)) (so_blacklist s2 @ [new_entry e q a ends (sq_blacklist s2)])" for ends
    using allowed(1) by (intro entries_ok_snoc [OF en]) simp_all
  ultimately have "soar_ok s'" using allowed(3) s1 s2(1) unfolding s2_def [symmetric] by (auto simp: soar_ok_def)
  moreover have "s' = s1 \<or> grows s2 s'" using allowed(3) unfolding s2_def [symmetric] by (auto intro: grows_same)
  ultimately show ?thesis using s1 s2 grows_trans by blast
qed (use assms in \<open>simp add: grows_same\<close>)

lemma perform_quarantine_cases:
  assumes "perform_quarantine e q a s = (res, s')"
  obtains (idle) f where "s' = in_store (\<lambda>st. (if f then add_audit (blocked_audit e q a ''monitoring_targets'') st else st)) s"
      "\<forall>au a'. res = Inr (au, a') \<longrightarrow> \<not> au \<and> same_action a a' \<and> ca_status a' \<noteq> EXECUTED"
  | (quarantined) g d where "named_targets (aq_tenant_id q) (aq_target_identifier q) (so_store s) = [g]" "tg_is_active g"
      "\<not> is_whitelisted (aq_target_identifier q)"
      "s' = in_store (set_target (tg_id g) (quarantine_target a (aq_reason q))) s"
      "res = Inr (True, done_action e (Some [(''target_id'', JInt (int (tg_id g))), (''target_uuid'', JStr (tg_uuid g)),
          (''previous_is_active'', JBool True), (''action_uuid'', JStr (ca_uuid a))]) d a)"
proof -
  have id: "in_store (\<lambda>st. if False then x st else st) s = s" for x by (simp add: in_store_def)
  show ?thesis
  proof (cases "is_whitelisted (aq_target_identifier q)")
    case True
    then show ?thesis
      using assms by (intro idle [of True]) (auto simp: perform_quarantine_def block_action_def same_action_def)
  next
    case False
    consider (many) m where "scalar_one_or_none (named_targets (aq_tenant_id q) (aq_target_identifier q) (so_store s)) = Inl m"
      | (none) "scalar_one_or_none (named_targets (aq_tenant_id q) (aq_target_identifier q) (so_store s)) = Inr None"
      | (one) g where "scalar_one_or_none (named_targets (aq_tenant_id q) (aq_target_identifier q) (so_store s)) = Inr (Some g)"
      by (metis old.sum.exhaust option.exhaust)
    then show ?thesis
    proof cases
      case one
      then have g: "named_targets (aq_tenant_id q) (aq_target_identifier q) (so_store s) = [g]"
        by (auto simp: scalar_one_or_none_def split: list.splits)
      show ?thesis
      proof (cases "tg_is_active g")
        case True
        then show ?thesis using assms False one by (intro quarantined [OF g]) (auto simp: perform_quarantine_def)
      next
        case inactive: False
        then show ?thesis
          using assms False one id by (intro idle [of False]) (auto simp: perform_quarantine_def same_action_def)
      qed
    qed (use assms False id in \<open>intro idle [of False]; auto simp: perform_quarantine_def same_action_def\<close>)+
  qed
qed

lemma same_store: "\<exists>st. s = s\<lparr>so_store := st\<rparr>" "\<exists>st. in_store f s = s\<lparr>so_store := st\<rparr>"
  by (rule exI [of _ "so_store s"], simp) (auto simp: in_store_def)

lemma perform_others_tables:
  assumes "perform w e q a s = (res, s')" "aq_action_type q \<noteq> BLACKLIST_INDICATOR"
  shows "\<exists>st. s' = s\<lparr>so_store := st\<rparr>"
proof (cases "aq_action_type q")
  case QUARANTINE_TARGET
  then have "perform_quarantine e q a s = (res, s')" using assms(1) by (simp add: perform_def)
  then show ?thesis by (cases rule: perform_quarantine_cases) (auto simp only: same_store)
next
  case CREATE_INCIDENT
  then show ?thesis using assms(1) by (auto simp: perform_def perform_create_incident_def split: prod.splits)
next
  case BLACKLIST_INDICATOR
  then show ?thesis using assms(2) by simp
next
  case INVALIDATE_CACHE
  then show ?thesis using assms(1) same_store by (auto simp: perform_def perform_invalidate_cache_def)
next
  case EMIT_SOC_EVENT
  then show ?thesis using assms(1) same_store by (auto simp: perform_def perform_emit_def)
next
  case SEND_NOTIFICATION
  then show ?thesis using assms(1) same_store by (auto simp: perform_def perform_notify_def)
qed

lemma perform_ok:
  assumes "perform w e q a s = (res, s')" "soar_ok s" "respectful w"
  shows "soar_ok s' \<and> grows s s'"
proof (cases "aq_action_type q = BLACKLIST_INDICATOR")
  case True
  then show ?thesis using assms perform_blacklist_ok by (simp add: perform_def)
next
  case False
  then show ?thesis using perform_others_tables [OF assms(1) False] assms(2) by (auto simp: grows_same)
qed

lemma perform_same_action:
  assumes "perform w e q a s = (Inr (audited, a'), s')"
  shows "same_action a a'"
proof (cases "aq_action_type q")
  case BLACKLIST_INDICATOR
  then have "perform_blacklist w e q a s = (Inr (audited, a'), s')" using assms by (simp add: perform_def)
  then show ?thesis by (cases rule: perform_blacklist_cases) auto
next
  case QUARANTINE_TARGET
  then have "perform_quarantine e q a s = (Inr (audited, a'), s')" using assms by (simp add: perform_def)
  then show ?thesis by (cases rule: perform_quarantine_cases) auto
next
  case CREATE_INCIDENT
  then show ?thesis
    using assms by (auto simp: perform_def perform_create_incident_def same_action_def done_action_def split: prod.splits)
qed (use assms in \<open>auto simp: perform_def perform_invalidate_cache_def perform_emit_def perform_notify_def\<close>)

lemma set_action_ok:
  assumes "soar_ok s" "a \<in> set (so_actions s)" "\<And>x. x \<in> set (so_actions s) \<Longrightarrow> ca_id x = ca_id a \<Longrightarrow> action_ident (f x) = action_ident a"
  shows "soar_ok (set_action (ca_id a) f s) \<and> grows s (set_action (ca_id a) f s)"
proof -
  have co: "cursor_ordered ca_id (sq_action s) (so_actions s)" using assms(1) by (simp add: soar_ok_def)
  have same: "action_ident (f x) = action_ident x" if "x \<in> set (so_actions s)" "ca_id x = ca_id a" for x
    using cursor_ordered_eq [OF co that(1) assms(2) that(2)] assms(3) [OF that] by simp
  then have "map action_ident (upd_rows (\<lambda>x. ca_id x = ca_id a) f (so_actions s)) = map action_ident (so_actions s)"
    by (auto simp: upd_rows_def)
  then have "grows s (set_action (ca_id a) f s)" by (simp add: grows_def)
  moreover have "soar_ok (set_action (ca_id a) f s)"
    using assms(1) same
    by (auto simp: soar_ok_def action_ident_def intro!: cursor_ordered_upd_rows unique_by_upd_key)
  ultimately show ?thesis by simp
qed

lemma new_action_simps [simp]:
  "ca_idempotency_key (new_action e q) = action_key q" "ca_tenant_id (new_action e q) = aq_tenant_id q"
  "ca_action_type (new_action e q) = aq_action_type q" "ca_uuid (new_action e q) = uuids e 0"
  "ca_status (new_action e q) = PENDING" "ca_target_identifier (new_action e q) = aq_target_identifier q"
  by (simp_all add: new_action_def)

lemma add_action_ok:
  assumes "soar_ok s" "action_of_key (ca_idempotency_key a) s = None"
  shows "soar_ok (add_action a s) \<and> grows s (add_action a s)"
  using assms
  by (auto simp: soar_ok_def add_action_def action_of_key_def grows_def filter_empty_conv
      intro!: cursor_ordered_snoc unique_by_snoc)

lemma execute_action_cases:
  assumes "execute_action w e q s = (r, s')"
  obtains (known) "action_of_key (action_key q) s = Some r" "s' = s"
  | (raced) "action_of_key (action_key q) s = None" "action_of_key (action_key q) (sw_race w s) = Some r"
      "s' = sw_race w s"
  | (performed) a res s3 where "action_of_key (action_key q) s = None"
      "action_of_key (action_key q) (sw_race w s) = None"
      "a = (new_action e q)\<lparr>ca_id := sq_action (sw_race w s)\<rparr>"
      "perform w e q a (add_action (new_action e q) (sw_race w s)) = (res, s3)"
      "settle e q a (res, s3) = (r, s')"
  using assms by (auto simp: execute_action_def Let_def split: option.splits) (metis prod.exhaust)

lemma settle_cases:
  assumes "settle e q a (res, s) = (r, s')" "\<And>au a'. res = Inr (au, a') \<Longrightarrow> same_action a a'"
  obtains f g where "s' = in_store f (set_action (ca_id a) g s)" "same_action a r" "g a = r"
    "\<And>x. action_ident x = action_ident a \<Longrightarrow> action_ident (g x) = action_ident a"
    "\<And>st. f st = st \<or> (\<exists>au. f st = add_audit au st)"
    "(\<exists>m. res = Inl m) \<and> ca_status r = FAILED \<or> (\<exists>au. res = Inr (au, r))"
proof (cases res)
  case (Inl m)
  show ?thesis
    by (rule that [of "\<lambda>x. x" "fail_action e m"])
      (use assms Inl in \<open>auto simp: settle_def in_store_def fail_action_def same_action_def action_ident_def\<close>)
next
  case (Inr x)
  obtain au a' where x: "x = (au, a')" by fastforce
  have a': "same_action a a'" using assms(2) Inr x by blast
  show ?thesis
    by (rule that [of "\<lambda>st. if au then add_audit (action_audit e q a') st else st" "\<lambda>_. a'"])
      (use assms(1) Inr x a' in \<open>auto simp: settle_def in_store_def same_action_def action_ident_def\<close>)
qed

lemma performed_ok:
  assumes "perform w e q a (add_action (new_action e q) s1) = (res, s3)" "settle e q a (res, s3) = (r, s')"
    and "a = (new_action e q)\<lparr>ca_id := sq_action s1\<rparr>" "action_of_key (action_key q) s1 = None"
    and "soar_ok s1" "respectful w"
  shows "soar_ok s' \<and> grows (add_action (new_action e q) s1) s' \<and> same_action a r"
proof -
  have s2: "soar_ok (add_action (new_action e q) s1)"
    using assms(4,5) by (intro add_action_ok [THEN conjunct1]) simp_all
  have s3: "soar_ok s3 \<and> grows (add_action (new_action e q) s1) s3"
    using perform_ok [OF assms(1) s2 assms(6)] .
  have same: "\<And>au a'. res = Inr (au, a') \<Longrightarrow> same_action a a'"
    using assms(1) perform_same_action by blast
  obtain f g where s': "s' = in_store f (set_action (ca_id a) g s3)" and r: "same_action a r"
    and g: "\<And>x. action_ident x = action_ident a \<Longrightarrow> action_ident (g x) = action_ident a"
    by (rule settle_cases [OF assms(2) same]) blast+
  have "a \<in> set (so_actions (add_action (new_action e q) s1))" by (simp add: add_action_def assms(3))
  then obtain b where b: "b \<in> set (so_actions s3)" "action_ident b = action_ident a"
    using grows_action s3 by (metis (no_types, lifting) imageE)
  then have id: "ca_id b = ca_id a" by (simp add: action_ident_def)
  have co: "cursor_ordered ca_id (sq_action s3) (so_actions s3)" using s3 by (simp add: soar_ok_def)
  have "action_ident (g x) = action_ident b" if "x \<in> set (so_actions s3)" "ca_id x = ca_id b" for x
    using cursor_ordered_eq [OF co that(1) b(1) that(2)] g b(2) by simp
  then have "soar_ok (set_action (ca_id a) g s3) \<and> grows s3 (set_action (ca_id a) g s3)"
    using set_action_ok [of s3 b g] s3 b(1) id by simp
  then have "soar_ok s' \<and> grows s3 s'" by (simp add: s' grows_def)
  then show ?thesis using s3 r grows_trans by blast
qed

lemma execute_action_ok:
  assumes "execute_action w e q s = (r, s')" "soar_ok s" "respectful w"
  shows "soar_ok s' \<and> grows s s'"
  using assms(1)
proof (cases rule: execute_action_cases)
  case (performed a res s3)
  have s1: "soar_ok (sw_race w s) \<and> grows s (sw_race w s)" using assms(2,3) by (simp add: respectful_def)
  have "grows (sw_race w s) (add_action (new_action e q) (sw_race w s))"
    using s1 performed(2) by (intro add_action_ok [THEN conjunct2]) simp_all
  then show ?thesis
    using performed_ok [OF performed(4,5,3,2)] s1 assms(3) grows_trans by blast
qed (use assms in \<open>auto simp: respectful_def\<close>)

subsection \<open>Playbooks and rollbacks keep the tables\<close>

lemma run_actions_ok:
  "run_actions w e r q n ts s = (res, s') \<Longrightarrow> soar_ok s \<Longrightarrow> respectful w \<Longrightarrow> soar_ok s' \<and> grows s s'"
proof (induction w e r q n ts s rule: run_actions.induct)
  case (2 w e r q n t ts s)
  obtain a s1 where x: "execute_action w (env_shift (4 + 10 * n) e) (q\<lparr>aq_action_type := t\<rparr>) s = (a, s1)" by fastforce
  have s1: "soar_ok s1 \<and> grows s s1" using execute_action_ok [OF x 2(3,4)] .
  consider "s' = s" | "s' = s1" | "run_actions w e r q (Suc n) ts s1 = (res, s')"
    "\<not> (t \<in> {BLACKLIST_INDICATOR, QUARANTINE_TARGET} \<and> \<not> owns_run r s)" "ca_status a \<noteq> FAILED"
    using 2(2) x by (auto split: if_splits)
  then show ?case
  proof cases
    case 3
    have "soar_ok s' \<and> grows s1 s'" using 2(1) [OF 3(2) x [symmetric] 3(3,1)] s1 2(4) by blast
    then show ?thesis using s1 grows_trans by blast
  qed (use 2(3) s1 in auto)
qed simp

lemma new_run_simps [simp]:
  "pr_id (new_run e p i) = i" "pr_idempotency_key (new_run e p i) = run_key p"
  "pr_tenant_id (new_run e p i) = pq_tenant_id p" "pr_uuid (new_run e p i) = uuids e 1"
  by (simp_all add: new_run_def)

lemma end_run_ident [simp]:
  "run_ident (end_run e st n m r) = run_ident r" "pr_id (end_run e st n m r) = pr_id r"
  "pr_tenant_id (end_run e st n m r) = pr_tenant_id r" "pr_status (end_run e st n m r) = st"
  "pr_action_count (end_run e st n m r) = n" "pr_error_message (end_run e st n m r) = m"
  by (simp_all add: end_run_def run_ident_def)

lemma add_run_ok:
  assumes "soar_ok s" "run_of_key (pr_idempotency_key r) s = None" "pr_id r = sq_run s"
  shows "soar_ok (add_run r s) \<and> grows s (add_run r s) \<and> r \<in> set (so_runs (add_run r s))"
  using assms
  by (auto simp: soar_ok_def add_run_def run_of_key_def grows_def filter_empty_conv
      intro!: cursor_ordered_snoc unique_by_snoc)

lemma set_run_ok:
  assumes "soar_ok s" "run_ident r \<in> run_ident ` set (so_runs s)" "run_ident r' = run_ident r"
  shows "soar_ok (set_run (pr_id r) (\<lambda>_. r') s) \<and> grows s (set_run (pr_id r) (\<lambda>_. r') s)"
proof -
  obtain b where b: "b \<in> set (so_runs s)" "run_ident b = run_ident r" using assms(2) by (metis imageE)
  have co: "cursor_ordered pr_id (sq_run s) (so_runs s)" using assms(1) by (simp add: soar_ok_def)
  have same: "run_ident r' = run_ident x" if "x \<in> set (so_runs s)" "pr_id x = pr_id r" for x
    using cursor_ordered_eq [OF co that(1) b(1)] that(2) b(2) assms(3) by (simp add: run_ident_def)
  then have "map run_ident (upd_rows (\<lambda>x. pr_id x = pr_id r) (\<lambda>_. r') (so_runs s)) = map run_ident (so_runs s)"
    by (auto simp: upd_rows_def)
  then have "grows s (set_run (pr_id r) (\<lambda>_. r') s)" by (simp add: grows_def)
  moreover have "soar_ok (set_run (pr_id r) (\<lambda>_. r') s)"
    using assms(1) same
    by (auto simp: soar_ok_def run_ident_def intro!: cursor_ordered_upd_rows unique_by_upd_key)
  ultimately show ?thesis by simp
qed

lemma acquire_ok:
  assumes "acquire_tenant_concurrency_lease w e t s = (res, s')" "soar_ok s" "respectful w"
  shows "soar_ok s' \<and> grows s s'"
proof -
  obtain p s1 where p: "get_or_create_policy w e t s = (p, s1)" by fastforce
  have "soar_ok (others_committed w t s) \<and> grows s (others_committed w t s)"
    using assms(2,3) by (simp add: others_committed_def respectful_def)
  moreover have "soar_ok s1 \<and> grows s s1" using policy_ok [OF assms(2,3) p] by simp
  ultimately show ?thesis
    using assms(1,2) p
    by (auto simp: acquire_tenant_concurrency_lease_def Let_def grows_same split: if_splits)
qed

lemma release_ok [simp]:
  "soar_ok (release_tenant_concurrency_lease w t k s) = soar_ok s"
  "grows s (release_tenant_concurrency_lease w t k s')= grows s s'"
  by (simp_all add: release_tenant_concurrency_lease_def grows_def)

lemma run_playbook_cases:
  assumes "run_playbook w e p r s = (r', s')"
  obtains out s4 g where
    "run_actions w e r (action_of_playbook p r) 0 (action_sequence (pq_playbook_name p)) s = (out, s4)"
    "s' = in_store g (set_run (pr_id r) (\<lambda>_. r') s4)" "run_ident r' = run_ident r"
    "\<And>st. g st = st \<or> (\<exists>ev. g st = broadcast_soc ev st)"
    "r' = (case out of Fenced \<Rightarrow> end_run e R_FAILED 0 (Some ''Stale worker fenced: lost execution authority.'') r
           | Finished n msg \<Rightarrow>
               if action_sequence (pq_playbook_name p) = []
               then end_run e R_FAILED 0 (Some (''Unknown playbook: '' @ pq_playbook_name p)) r
               else end_run e (if msg = None then R_COMPLETED else R_FAILED) n msg r)"
proof -
  have id: "in_store (\<lambda>x. x) x = x" for x by (simp add: in_store_def)
  obtain out s4 where run: "run_actions w e r (action_of_playbook p r) 0 (action_sequence (pq_playbook_name p)) s = (out, s4)"
    by fastforce
  show ?thesis
  proof (cases "action_sequence (pq_playbook_name p) = []")
    case True
    then show ?thesis
      using assms run by (intro that [OF run, of "\<lambda>x. x"]) (auto simp: run_playbook_def fail_run_def Let_def id)
  next
    case False
    show ?thesis
    proof (cases out)
      case Fenced
      then show ?thesis
        using assms run False
        by (intro that [OF run, of "\<lambda>x. x"]) (auto simp: run_playbook_def close_run_def fail_run_def Let_def id)
    next
      case (Finished n msg)
      show ?thesis
        by (rule that [OF run, of "broadcast_soc (soc_channel_event e 3 (pq_tenant_id p)
              (if msg = None then ''playbook_completed'' else ''playbook_failed'') (pr_uuid r)
              [(''run_uuid'', JStr (pr_uuid r)), (''status'', JStr (run_status_value (pr_status r'))),
               (''action_count'', JInt (int n))])"])
          (use assms run False Finished in \<open>auto simp: run_playbook_def close_run_def finish_run_def Let_def\<close>)
    qed
  qed
qed

lemma run_playbook_ok:
  assumes "run_playbook w e p r s = (r', s')" "soar_ok s" "respectful w" "r \<in> set (so_runs s)"
  shows "soar_ok s' \<and> grows s s'"
  using assms(1)
proof (cases rule: run_playbook_cases)
  case (1 out s4 g)
  have s4: "soar_ok s4 \<and> grows s s4" using run_actions_ok [OF 1(1) assms(2,3)] .
  then have "run_ident r \<in> run_ident ` set (so_runs s4)" using grows_run assms(4) by blast
  then have "soar_ok (set_run (pr_id r) (\<lambda>_. r') s4) \<and> grows s4 (set_run (pr_id r) (\<lambda>_. r') s4)"
    using set_run_ok s4 1(3) by blast
  then have "soar_ok s' \<and> grows s4 s'" by (simp add: 1(2) grows_def)
  then show ?thesis using s4 grows_trans by blast
qed

lemma execute_playbook_cases:
  assumes "execute_playbook w e p s = (res, s')"
  obtains (known) r where "run_of_key (run_key p) s = Some r" "res = Inr r" "s' = s"
  | (refused) err where "run_of_key (run_key p) s = None"
      "acquire_tenant_concurrency_lease w e (pq_tenant_id p) s = (Inl err, s')" "res = Inl err"
  | (raced) token s1 r where "run_of_key (run_key p) s = None"
      "acquire_tenant_concurrency_lease w e (pq_tenant_id p) s = (Inr token, s1)"
      "run_of_key (run_key p) (sw_race w s1) = Some r" "res = Inr r"
      "s' = release_tenant_concurrency_lease w (pq_tenant_id p) token (sw_race w s1)"
  | (started) token s1 r r' s2 where "run_of_key (run_key p) s = None"
      "acquire_tenant_concurrency_lease w e (pq_tenant_id p) s = (Inr token, s1)"
      "run_of_key (run_key p) (sw_race w s1) = None" "r = new_run e p (sq_run (sw_race w s1))"
      "run_playbook w e p r (in_store (add_soc_event (triggered_event e p r)) (add_run r (sw_race w s1))) = (r', s2)"
      "res = Inr r'" "s' = release_tenant_concurrency_lease w (pq_tenant_id p) token s2"
  using assms
  by (auto simp: execute_playbook_def Let_def split: option.splits prod.splits sum.splits)

lemma execute_playbook_ok:
  assumes "execute_playbook w e p s = (res, s')" "soar_ok s" "respectful w"
  shows "soar_ok s' \<and> grows s s'"
  using assms(1)
proof (cases rule: execute_playbook_cases)
  case (refused err)
  then show ?thesis using acquire_ok [OF refused(2) assms(2,3)] by simp
next
  case (raced token s1 r)
  have "soar_ok s1 \<and> grows s s1" using acquire_ok [OF raced(2) assms(2,3)] .
  then show ?thesis using raced(5) assms(3) grows_trans by (auto simp: respectful_def)
next
  case (started token s1 r r' s2)
  have s1: "soar_ok s1 \<and> grows s s1" using acquire_ok [OF started(2) assms(2,3)] .
  then have race: "soar_ok (sw_race w s1) \<and> grows s1 (sw_race w s1)" using assms(3) by (simp add: respectful_def)
  have add: "soar_ok (add_run r (sw_race w s1)) \<and> grows (sw_race w s1) (add_run r (sw_race w s1)) \<and>
      r \<in> set (so_runs (add_run r (sw_race w s1)))"
    using race started(3,4) by (intro add_run_ok) simp_all
  have "soar_ok s2 \<and> grows (in_store (add_soc_event (triggered_event e p r)) (add_run r (sw_race w s1))) s2"
    using run_playbook_ok [OF started(5)] add assms(3) by simp
  then have "soar_ok s2 \<and> grows (add_run r (sw_race w s1)) s2" by (simp add: grows_def)
  then show ?thesis using s1 race add started(7) grows_trans by (simp, blast)
qed (use assms in simp)

lemma evaluate_cases:
  assumes "evaluate_alert_containment w e a s = (res, s')"
  obtains (none) "res = Inr None" "s' = s" "\<not> truthy_nat (al_user_id a)"
  | (idle) p where "truthy_nat (al_user_id a)" "get_or_create_policy w e (the (al_user_id a)) s = (p, s')" "res = Inr None"
  | (ambiguous) "truthy_nat (al_user_id a)" "res = Inl MultipleResultsFound"
      "s' = others_committed w (the (al_user_id a)) s"
  | (quarantine) p s1 g where "truthy_nat (al_user_id a)"
      "get_or_create_policy w e (the (al_user_id a)) s = (p, s1)"
      "cp_auto_containment_enabled p" "cp_auto_quarantine_enabled p" "severity_reached p a"
      "alert_targets (the (al_user_id a)) (al_indicator_value a) (so_store s1) = [g]"
      "evaluate_quarantine_eligibility e g (so_store s1)"
      "start_playbook w e (quarantine_playbook (the (al_user_id a)) g a) s1 = (res, s')"
  | (blacklist) p s1 where "truthy_nat (al_user_id a)"
      "get_or_create_policy w e (the (al_user_id a)) s = (p, s1)"
      "cp_auto_containment_enabled p" "cp_auto_blacklist_enabled p" "severity_reached p a"
      "start_playbook w e (blacklist_playbook (the (al_user_id a)) a) s1 = (res, s')"
proof (cases "truthy_nat (al_user_id a)")
  case False
  then show ?thesis using assms none by (auto simp: evaluate_alert_containment_def)
next
  case True
  obtain p s1 where p: "get_or_create_policy w e (the (al_user_id a)) s = (p, s1)" by fastforce
  note ev = assms [unfolded evaluate_alert_containment_def Let_def p prod.case]
  show ?thesis
  proof (cases "cp_auto_containment_enabled p \<and> severity_reached p a")
    case False
    then show ?thesis using ev True p idle by auto
  next
    case on: True
    show ?thesis
    proof (cases "cp_auto_quarantine_enabled p \<and> alert_targets (the (al_user_id a)) (al_indicator_value a) (so_store s1) \<noteq> []")
      case False
      then have "(if cp_auto_quarantine_enabled p
          then scalar_one_or_none (alert_targets (the (al_user_id a)) (al_indicator_value a) (so_store s1)) else Inr None) = Inr None"
        by (auto simp: scalar_one_or_none_def)
      then show ?thesis
        using ev True on p idle blacklist by (cases "cp_auto_blacklist_enabled p") auto
    next
      case q: True
      then obtain g gs where g: "alert_targets (the (al_user_id a)) (al_indicator_value a) (so_store s1) = g # gs"
        by (cases "alert_targets (the (al_user_id a)) (al_indicator_value a) (so_store s1)") auto
      show ?thesis
      proof (cases gs)
        case Nil
        then have run: "(if evaluate_quarantine_eligibility e g (so_store s1)
            then start_playbook w e (quarantine_playbook (the (al_user_id a)) g a) s1
            else if cp_auto_blacklist_enabled p then start_playbook w e (blacklist_playbook (the (al_user_id a)) a) s1
            else (Inr None, s1)) = (res, s')"
          using ev True on q g by (simp add: scalar_one_or_none_def)
        consider "evaluate_quarantine_eligibility e g (so_store s1)"
          | "\<not> evaluate_quarantine_eligibility e g (so_store s1)" "cp_auto_blacklist_enabled p"
          | "\<not> evaluate_quarantine_eligibility e g (so_store s1)" "\<not> cp_auto_blacklist_enabled p"
          by blast
        then show ?thesis
        proof cases
          case 1
          with run show ?thesis by (intro quarantine [OF True p _ _ _ g [unfolded Nil]]) (use on q in simp_all)
        next
          case 2
          with run show ?thesis by (intro blacklist [OF True p]) (use on in simp_all)
        next
          case 3
          with run show ?thesis by (intro idle [OF True]) (use p in simp_all)
        qed
      next
        case (Cons g' gs')
        then show ?thesis using ev True on p q g ambiguous by (auto simp: scalar_one_or_none_def)
      qed
    qed
  qed
qed

lemma start_playbook_ok:
  assumes "start_playbook w e p s = (res, s')" "soar_ok s" "respectful w"
  shows "soar_ok s' \<and> grows s s'"
proof -
  obtain r where "execute_playbook w e p s = (r, s')"
    using assms(1) by (auto simp: start_playbook_def split: prod.splits sum.splits)
  then show ?thesis using execute_playbook_ok assms(2,3) by blast
qed

lemma evaluate_ok:
  assumes "evaluate_alert_containment w e a s = (res, s')" "soar_ok s" "respectful w"
  shows "soar_ok s' \<and> grows s s'"
  using assms(1)
proof (cases rule: evaluate_cases)
  case (idle p)
  then show ?thesis using policy_ok [OF assms(2,3)] by blast
next
  case (quarantine p s1 g)
  have "soar_ok s1 \<and> grows s s1" using policy_ok [OF assms(2,3) quarantine(2)] by blast
  then show ?thesis using start_playbook_ok [OF quarantine(8)] assms(3) grows_trans by blast
next
  case (blacklist p s1)
  have "soar_ok s1 \<and> grows s s1" using policy_ok [OF assms(2,3) blacklist(2)] by blast
  then show ?thesis using start_playbook_ok [OF blacklist(6)] assms(3) grows_trans by blast
qed (use assms in \<open>auto simp: others_committed_def respectful_def\<close>)

lemma revert_cases:
  assumes "revert_action e uuid u s = (res, s')"
  obtains (refused) err where "res = Inl err" "s' = s"
  | (already) a where "action_of_uuid uuid s = Some a" "ca_status a = REVERTED" "res = Inr a" "s' = s"
      "is_admin u \<or> ca_tenant_id a = usr_id u"
  | (reverted) a where "action_of_uuid uuid s = Some a" "ca_status a = EXECUTED" "res = Inr (revert_row e u a)"
      "is_admin u \<or> ca_tenant_id a = usr_id u"
      "s' = in_store (\<lambda>st. broadcast_soc (revert_event e u a) (add_audit (revert_audit e u a) st))
         (set_action (ca_id a) (revert_row e u) (roll_back e a s))"
  using assms refused already reverted by (auto simp: revert_action_def split: option.splits if_splits)

lemma roll_back_tables [simp]:
  "so_actions (roll_back e a s) = so_actions s" "so_runs (roll_back e a s) = so_runs s"
  "so_policies (roll_back e a s) = so_policies s" "sq_action (roll_back e a s) = sq_action s"
  "sq_run (roll_back e a s) = sq_run s" "sq_policy (roll_back e a s) = sq_policy s"
  "sq_blacklist (roll_back e a s) = sq_blacklist s" "so_leases (roll_back e a s) = so_leases s"
  by (simp_all add: roll_back_def split: action_type.splits)

lemma roll_back_blacklist:
  "so_blacklist (roll_back e a s) =
     (if ca_action_type a = BLACKLIST_INDICATOR
      then upd_rows (\<lambda>b. bl_containment_action_id b = Some (ca_id a) \<and> bl_is_active b) (deactivate_entry e) (so_blacklist s)
      else so_blacklist s)"
  by (simp add: roll_back_def split: action_type.splits)

lemma roll_back_ok: "soar_ok s \<Longrightarrow> soar_ok (roll_back e a s)"
  by (auto simp: soar_ok_def roll_back_blacklist deactivate_entry_def intro: entries_ok_upd)

lemma revert_ok:
  assumes "revert_action e uuid u s = (res, s')" "soar_ok s"
  shows "soar_ok s' \<and> grows s s'"
  using assms(1)
proof (cases rule: revert_cases)
  case (reverted a)
  have a: "a \<in> set (so_actions s)" using reverted(1) by (auto simp: action_of_uuid_def dest: first_row_filter_Some)
  have co: "cursor_ordered ca_id (sq_action s) (so_actions s)" using assms(2) by (simp add: soar_ok_def)
  have "action_ident (revert_row e u x) = action_ident a" if "x \<in> set (so_actions s)" "ca_id x = ca_id a" for x
    using cursor_ordered_eq [OF co that(1) a that(2)] by (simp add: revert_row_def action_ident_def)
  then have "soar_ok (set_action (ca_id a) (revert_row e u) (roll_back e a s)) \<and>
      grows (roll_back e a s) (set_action (ca_id a) (revert_row e u) (roll_back e a s))"
    using a by (intro set_action_ok roll_back_ok assms(2)) simp_all
  then show ?thesis by (simp add: reverted(5) grows_def)
qed (use assms(2) in simp_all)

lemma update_policy_ok:
  assumes "update_policy w e t d uid s = (res, s')" "soar_ok s" "respectful w"
  shows "soar_ok s' \<and> grows s s'"
proof -
  obtain p s1 where p: "get_or_create_policy w e t s = (p, s1)" by fastforce
  have s1: "soar_ok s1" "grows s s1" using policy_ok [OF assms(2,3) p] by simp_all
  have up: "soar_ok (s1\<lparr>so_policies := upd_rows (submitted_version t d) (write_policy e d uid) (so_policies s1)\<rparr>)"
    using s1(1) by (auto simp: soar_ok_def write_policy_def intro!: cursor_ordered_upd_rows unique_by_upd_key)
  show ?thesis
  proof (cases "filter (submitted_version t d) (so_policies s1) = []")
    case True
    then have "s' = others_committed w t s" using assms(1) by (simp add: update_policy_def p)
    then show ?thesis using assms(2,3) by (simp add: others_committed_def respectful_def)
  next
    case False
    then show ?thesis using assms(1) up s1(2) by (auto simp: update_policy_def p Let_def grows_def)
  qed
qed

subsection \<open>Runs\<close>

datatype soar_op =
    Execute action_request
  | Playbook playbook_request
  | Evaluate alert
  | Revert string user
  | UpdatePolicy nat ContainmentPolicyUpdate nat

definition exec_soar :: "services \<times> env \<times> soar_op \<Rightarrow> soar \<Rightarrow> soar" where
  "exec_soar x s =
     (case x of (w, e, c) \<Rightarrow>
        case c of
          Execute q \<Rightarrow> snd (execute_action w e q s)
        | Playbook p \<Rightarrow> snd (execute_playbook w e p s)
        | Evaluate a \<Rightarrow> snd (evaluate_alert_containment w e a s)
        | Revert uuid u \<Rightarrow> snd (revert_action e uuid u s)
        | UpdatePolicy t d uid \<Rightarrow> snd (update_policy w e t d uid s))"

lemma exec_soar_ok:
  assumes "soar_ok s" "respectful (fst x)"
  shows "soar_ok (exec_soar x s) \<and> grows s (exec_soar x s)"
proof -
  obtain w e c where x: "x = (w, e, c)" by (cases x)
  have w: "respectful w" using assms(2) by (simp add: x)
  show ?thesis
  proof (cases c)
    case (Execute q)
    then show ?thesis using execute_action_ok [OF _ assms(1) w] by (simp add: x exec_soar_def prod_eq_iff)
  next
    case (Playbook p)
    then show ?thesis using execute_playbook_ok [OF _ assms(1) w] by (simp add: x exec_soar_def prod_eq_iff)
  next
    case (Evaluate a)
    then show ?thesis using evaluate_ok [OF _ assms(1) w] by (simp add: x exec_soar_def prod_eq_iff)
  next
    case (Revert uuid u)
    then show ?thesis using revert_ok [OF _ assms(1)] by (simp add: x exec_soar_def prod_eq_iff)
  next
    case (UpdatePolicy t d uid)
    then show ?thesis using update_policy_ok [OF _ assms(1) w] by (simp add: x exec_soar_def prod_eq_iff)
  qed
qed

lemma run_soar_ok:
  "soar_ok s \<Longrightarrow> (\<And>x. x \<in> set xs \<Longrightarrow> respectful (fst x)) \<Longrightarrow>
   soar_ok (fold exec_soar xs s) \<and> grows s (fold exec_soar xs s)"
proof (induction xs arbitrary: s)
  case (Cons x xs)
  have "soar_ok (exec_soar x s) \<and> grows s (exec_soar x s)" using Cons.prems exec_soar_ok by simp
  then show ?case using Cons.IH [of "exec_soar x s"] Cons.prems(2) grows_trans by fastforce
qed simp

subsection \<open>Properties\<close>

text \<open>
  C12: the containment tables.  Whatever actions, playbooks, evaluations, rollbacks and policy updates
  run from the empty tables, and whatever other sessions that keep the tables well formed commit in
  between, no allowlisted indicator is ever on the dynamic blacklist, a tenant has at most one policy,
  and no idempotency key of an action or a playbook run occurs twice.
\<close>

theorem allowlist_never_blacklisted:
  assumes "\<And>x. x \<in> set xs \<Longrightarrow> respectful (fst x)" "s = fold exec_soar xs empty_soar"
  shows "(\<forall>b\<in>set (so_blacklist s). \<not> is_whitelisted (bl_indicator_value b)) \<and>
    distinct (map cp_tenant_id (so_policies s)) \<and>
    distinct (map ca_idempotency_key (so_actions s)) \<and> distinct (map pr_idempotency_key (so_runs s))"
proof -
  have "soar_ok s" using run_soar_ok [OF soar_ok_empty] assms by simp
  then show ?thesis by (simp add: soar_ok_def entries_ok_def unique_by_def)
qed

text \<open>
  An indicator can get two active rows.  No key guards the blacklist: when two sessions of a tenant
  look up the same indicator before either inserts its row, both insert one, and from then on every
  blacklisting of that indicator fails.
\<close>

theorem concurrent_blacklisting_duplicates:
  assumes q: "aq_tenant_id q = t" "aq_target_identifier q = v" "aq_tenant_id q' = t" "aq_target_identifier q' = v"
    and free: "\<not> is_whitelisted v" "policy_of t s = Some p" "active_entries t v s = []"
    and race: "sw_overtake w = (\<lambda>x. snd (perform_blacklist w' e' q' a' x))" "sw_overtake w' = (\<lambda>x. x)"
  shows "\<exists>b c s'. perform_blacklist w e q a s = (Inr (True, b), s') \<and>
    fst (perform_blacklist w' e' q' a' s) = Inr (True, c) \<and> ca_status b = EXECUTED \<and> ca_status c = EXECUTED \<and>
    length (active_entries t v s') = 2 \<and>
    (\<forall>w2 e2 q2 a2. aq_tenant_id q2 = t \<and> aq_target_identifier q2 = v \<longrightarrow>
       perform_blacklist w2 e2 q2 a2 s' = (Inl ''Multiple rows were found when one or none was required'', s'))"
proof -
  have pol: "get_or_create_policy x y t s = (p, s)" for x y using free(2) by (simp add: get_or_create_policy_def)
  define ends where "ends f = now f + seconds (cp_blacklist_ttl_seconds p)" for f :: env
  define s1 where "s1 = s\<lparr>so_blacklist := so_blacklist s @ [new_entry e' q' a' (ends e') (sq_blacklist s)],
      sq_blacklist := Suc (sq_blacklist s)\<rparr>"
  define s2 where "s2 = s1\<lparr>so_blacklist := so_blacklist s1 @ [new_entry e q a (ends e) (sq_blacklist s1)],
      sq_blacklist := Suc (sq_blacklist s1)\<rparr>"
  have one: "\<exists>c. perform_blacklist w' e' q' a' s = (Inr (True, c), s1) \<and> ca_status c = EXECUTED"
    using q free(1,3) race(2) pol
    by (simp add: perform_blacklist_def scalar_one_or_none_def Let_def s1_def ends_def done_action_def)
  then have over: "sw_overtake w s = s1" by (auto simp: race(1))
  have two: "\<exists>b. perform_blacklist w e q a s = (Inr (True, b), s2) \<and> ca_status b = EXECUTED"
    using q free(1,3) over pol
    by (simp add: perform_blacklist_def scalar_one_or_none_def Let_def s2_def ends_def done_action_def)
  have act: "active_entries t v s2 = [new_entry e' q' a' (ends e') (sq_blacklist s), new_entry e q a (ends e) (sq_blacklist s1)]"
    using q free(3) by (simp add: active_entries_def s2_def s1_def)
  have "policy_of t s2 = Some p" using free(2) by (simp add: s2_def s1_def policy_of_def)
  then have "perform_blacklist w2 e2 q2 a2 s2 = (Inl ''Multiple rows were found when one or none was required'', s2)"
    if "aq_tenant_id q2 = t" "aq_target_identifier q2 = v" for w2 e2 q2 a2
    using that act free(1) by (simp add: perform_blacklist_def get_or_create_policy_def scalar_one_or_none_def Let_def)
  moreover have "length (active_entries t v s2) = 2" by (simp add: act)
  ultimately show ?thesis using one two by (metis fst_conv)
qed

lemma first_row_unique:
  assumes "unique_by k rs" "r \<in> set rs"
  shows "first_row (filter (\<lambda>x. k x = k r) rs) = Some r"
proof -
  have "first_row (filter (\<lambda>x. k x = k r) rs) \<noteq> None" using assms(2) by (auto simp: filter_empty_conv)
  then obtain b where b: "first_row (filter (\<lambda>x. k x = k r) rs) = Some b" by blast
  then have "b \<in> set rs" "k b = k r" by (auto dest: first_row_filter_Some)
  then have "b = r" using assms by (auto intro: unique_by_eq)
  then show ?thesis using b by simp
qed

lemma action_of_key_unique:
  "soar_ok s \<Longrightarrow> a \<in> set (so_actions s) \<Longrightarrow> action_of_key (ca_idempotency_key a) s = Some a"
  unfolding action_of_key_def by (rule first_row_unique) (simp_all add: soar_ok_def)

lemma policy_of_unique:
  "soar_ok s \<Longrightarrow> p \<in> set (so_policies s) \<Longrightarrow> policy_of (cp_tenant_id p) s = Some p"
  unfolding policy_of_def by (rule first_row_unique) (simp_all add: soar_ok_def)

lemma execute_known: "action_of_key (action_key q) s = Some a \<Longrightarrow> execute_action w e q s = (a, s)"
  by (simp add: execute_action_def)

lemma action_of_key_Some:
  "action_of_key k s = Some a \<Longrightarrow> a \<in> set (so_actions s) \<and> ca_idempotency_key a = k"
  by (auto simp: action_of_key_def dest: first_row_filter_Some)

lemma executed_row:
  assumes "execute_action w e q s = (a, s')" "soar_ok s" "respectful w"
  shows "action_ident a \<in> action_ident ` set (so_actions s') \<and> ca_idempotency_key a = action_key q"
  using assms(1)
proof (cases rule: execute_action_cases)
  case (performed b res s3)
  have s1: "soar_ok (sw_race w s)" using assms(2,3) by (simp add: respectful_def)
  have ok: "grows (add_action (new_action e q) (sw_race w s)) s'" "same_action b a"
    using performed_ok [OF performed(4,5,3,2) s1 assms(3)] by simp_all
  have "b \<in> set (so_actions (add_action (new_action e q) (sw_race w s)))"
    by (simp add: add_action_def performed(3))
  then have "action_ident b \<in> action_ident ` set (so_actions s')" by (rule grows_action [OF ok(1)])
  moreover have "action_ident a = action_ident b" "ca_idempotency_key a = action_key q"
    using ok(2) by (simp_all add: same_action_def action_ident_def performed(3))
  ultimately show ?thesis by simp
qed (use action_of_key_Some in auto)

text \<open>
  C13: an action is executed once.  After an action has been executed, whatever else runs, a second
  request for the same tenant, alert, type and target only returns the row of the first and
  changes nothing at all.
\<close>

theorem action_exactly_once:
  assumes "soar_ok s" "respectful w" "\<And>x. x \<in> set xs \<Longrightarrow> respectful (fst x)"
    and "execute_action w e q s = (a, s1)" "action_key q' = action_key q"
  shows "\<exists>b. execute_action w' e' q' (fold exec_soar xs s1) = (b, fold exec_soar xs s1) \<and>
    ca_id b = ca_id a \<and> ca_uuid b = ca_uuid a"
proof -
  have s1: "soar_ok s1" using execute_action_ok [OF assms(4,1,2)] by blast
  have s2: "soar_ok (fold exec_soar xs s1)" "grows s1 (fold exec_soar xs s1)"
    using run_soar_ok [OF s1] assms(3) by blast+
  obtain c where c: "c \<in> set (so_actions s1)" "action_ident c = action_ident a"
    using executed_row [OF assms(4,1,2)] by (auto simp: image_iff)
  then obtain b where b: "b \<in> set (so_actions (fold exec_soar xs s1))" "action_ident b = action_ident a"
    using grows_action [OF s2(2) c(1)] by (auto simp: image_iff)
  then have "ca_idempotency_key b = action_key q'"
    using executed_row [OF assms(4,1,2)] assms(5) by (simp add: action_ident_def)
  then have "action_of_key (action_key q') (fold exec_soar xs s1) = Some b"
    using action_of_key_unique [OF s2(1) b(1)] by simp
  then show ?thesis using execute_known b(2) by (auto simp: action_ident_def)
qed

lemma revert_row_ident [simp]:
  "ca_id (revert_row e u a) = ca_id a" "ca_idempotency_key (revert_row e u a) = ca_idempotency_key a"
  "ca_status (revert_row e u a) = REVERTED" "ca_action_type (revert_row e u a) = ca_action_type a"
  "ca_tenant_id (revert_row e u a) = ca_tenant_id a" "ca_uuid (revert_row e u a) = ca_uuid a"
  "recorded_target (revert_row e u a) = recorded_target a"
  by (simp_all add: revert_row_def recorded_target_def)

lemma action_of_uuid_in: "action_of_uuid uuid s = Some a \<Longrightarrow> a \<in> set (so_actions s) \<and> ca_uuid a = uuid"
  by (auto simp: action_of_uuid_def dest: first_row_filter_Some)

text \<open>
  A containment that has been rolled back can never be applied again.  The idempotency key of
  an action does not change when it is reverted, so a later request for the same tenant, alert,
  type and target returns the reverted row and contains nothing.
\<close>

theorem reverted_action_never_reapplied:
  assumes "soar_ok s" "revert_action e uuid u s = (Inr r, s1)" "ca_idempotency_key r = action_key q"
  shows "\<exists>b. execute_action w e' q s1 = (b, s1) \<and> ca_status b = REVERTED"
  using assms(2)
proof (cases rule: revert_cases)
  case (already a)
  then have "action_of_key (action_key q) s = Some a"
    using action_of_key_unique [OF assms(1)] action_of_uuid_in assms(3) by fastforce
  then show ?thesis using already execute_known by blast
next
  case (reverted a)
  have a: "a \<in> set (so_actions s)" using action_of_uuid_in reverted(1) by blast
  have "revert_row e u a \<in> set (so_actions s1)"
    using a by (auto simp: reverted(5) in_upd_rows image_iff intro!: bexI [of _ a])
  moreover have "soar_ok s1" using revert_ok [OF assms(2,1)] by blast
  ultimately have "action_of_key (ca_idempotency_key (revert_row e u a)) s1 = Some (revert_row e u a)"
    using action_of_key_unique by blast
  then have "action_of_key (action_key q) s1 = Some (revert_row e u a)"
    using assms(3) reverted(3) by simp
  then show ?thesis using execute_known by (metis revert_row_ident(3))
qed simp

lemma quarantined_byD:
  assumes "quarantined_by a g"
  shows "tg_user_id g = ca_tenant_id a" "tg_id g \<noteq> 0"
    "\<exists>d. ca_rollback_metadata a = Some d \<and> dict_get d ''target_id'' = Some (JInt (int (tg_id g)))"
    "\<exists>m. tg_last_error_message g = Some m \<and> contains (ca_uuid a) m"
proof -
  have g: "tg_id g = recorded_target a" "recorded_target a \<noteq> 0" using assms by (simp_all add: quarantined_by_def)
  show "tg_user_id g = ca_tenant_id a" "tg_id g \<noteq> 0" using assms by (simp_all add: quarantined_by_def)
  show "\<exists>d. ca_rollback_metadata a = Some d \<and> dict_get d ''target_id'' = Some (JInt (int (tg_id g)))"
    using g by (auto simp: recorded_target_def split: option.splits json.splits)
  show "\<exists>m. tg_last_error_message g = Some m \<and> contains (ca_uuid a) m"
    using assms by (auto simp: quarantined_by_def split: option.splits)
qed

lemma quarantined_byI:
  assumes "tg_user_id g = ca_tenant_id a" "tg_id g \<noteq> 0"
    and "ca_rollback_metadata a = Some d" "dict_get d ''target_id'' = Some (JInt (int (tg_id g)))"
    and "tg_last_error_message g = Some m" "m \<noteq> []" "contains (ca_uuid a) m"
  shows "quarantined_by a g"
  using assms by (simp add: quarantined_by_def recorded_target_def)


lemma contains_append: "contains p (xs @ p @ ys)"
proof (induction xs)
  case Nil
  then show ?case using starts_with_append [of p ys] by (cases "p @ ys") auto
qed simp

lemma released_targets:
  \<comment> \<open>the rollback finds the quarantined target by the action's uuid in its error text\<close>
  assumes "store_ids st" "t \<in> set (st_targets st)" "tg_is_active t" "tg_id t \<noteq> 0"
    and "recorded_target a = tg_id t" "ca_tenant_id a = tg_user_id t"
  shows "upd_rows (quarantined_by a) release_target
      (upd_rows (\<lambda>x. tg_id x = tg_id t) (quarantine_target a reason) (st_targets st))
    = upd_rows (\<lambda>x. tg_id x = tg_id t) (tg_last_error_message_update (\<lambda>_. None)) (st_targets st)"
  unfolding upd_rows_def map_map
proof (rule map_cong [OF refl])
  fix x assume x: "x \<in> set (st_targets st)"
  show "((\<lambda>r. if quarantined_by a r then release_target r else r) \<circ>
      (\<lambda>r. if tg_id r = tg_id t then quarantine_target a reason r else r)) x =
      (if tg_id x = tg_id t then tg_last_error_message_update (\<lambda>_. None) x else x)"
  proof (cases "tg_id x = tg_id t")
    case True
    then have xt: "x = t" using unique_by_eq [OF store_ids_targets [OF assms(1)] x assms(2)] by simp
    have "contains (ca_uuid a) (quarantine_message a reason)"
      unfolding quarantine_message_def by (rule contains_append)
    then have "quarantined_by a (quarantine_target a reason t)"
      using assms(4-6) by (simp add: quarantined_by_def quarantine_target_def quarantine_message_def)
    moreover have "release_target (quarantine_target a reason t) = tg_last_error_message_update (\<lambda>_. None) t"
      using assms(3) by (cases t) (simp add: release_target_def quarantine_target_def)
    ultimately show ?thesis by (simp add: xt)
  next
    case False
    then show ?thesis using assms(5) by (simp add: quarantined_by_def)
  qed
qed

lemma quarantine_executed:
  \<comment> \<open>the effect of a quarantine that was carried out\<close>
  assumes calm: "sw_race w = (\<lambda>x. x)" and fresh: "action_of_key (action_key q) s = None"
    and q: "aq_action_type q = QUARANTINE_TARGET"
    and run: "execute_action w e q s = (a, s1)" "ca_status a = EXECUTED"
    and s: "soar_ok s"
  obtains t where "t \<in> set (st_targets (so_store s))" "tg_user_id t = aq_tenant_id q" "tg_is_active t"
    "ca_uuid a = uuids e 0" "ca_tenant_id a = aq_tenant_id q" "ca_action_type a = QUARANTINE_TARGET"
    "recorded_target a = tg_id t" "so_actions s1 = so_actions s @ [a]"
    "st_targets (so_store s1) = upd_rows (\<lambda>x. tg_id x = tg_id t) (quarantine_target a (aq_reason q)) (st_targets (so_store s))"
proof -
  define b where "b = (new_action e q)\<lparr>ca_id := sq_action s\<rparr>"
  obtain res s3 where p: "perform w e q b (add_action (new_action e q) s) = (res, s3)"
    and st: "settle e q b (res, s3) = (a, s1)"
    using run(1) fresh calm by (cases rule: execute_action_cases) (auto simp: b_def)
  have pq: "perform_quarantine e q b (add_action (new_action e q) s) = (res, s3)"
    using p q by (simp add: perform_def)
  have res: "\<exists>au. res = Inr (au, a)" using st run(2) by (cases res) (auto simp: settle_def fail_action_def)
  obtain t d where t: "named_targets (aq_tenant_id q) (aq_target_identifier q) (so_store s) = [t]" "tg_is_active t"
    and s3: "s3 = in_store (set_target (tg_id t) (quarantine_target b (aq_reason q))) (add_action (new_action e q) s)"
    and a: "a = done_action e (Some [(''target_id'', JInt (int (tg_id t))), (''target_uuid'', JStr (tg_uuid t)),
          (''previous_is_active'', JBool True), (''action_uuid'', JStr (ca_uuid b))]) d b"
    using pq
  proof (cases rule: perform_quarantine_cases)
    case (idle f)
    then show ?thesis using res run(2) by auto
  qed (use that res in \<open>auto simp: add_action_def\<close>)
  have "t \<in> set (named_targets (aq_tenant_id q) (aq_target_identifier q) (so_store s))" using t(1) by simp
  then have tt: "t \<in> set (st_targets (so_store s))" "tg_user_id t = aq_tenant_id q" by (auto simp: named_targets_def)
  have ab: "ca_uuid a = uuids e 0" "ca_tenant_id a = aq_tenant_id q" "ca_action_type a = QUARANTINE_TARGET"
    "recorded_target a = tg_id t" "quarantine_target b = quarantine_target a"
    using q by (simp_all add: a b_def done_action_def new_action_def recorded_target_def dict_get_def
        quarantine_target_def quarantine_message_def fun_eq_iff)
  obtain au where "res = Inr (au, a)" using res by blast
  then have s1: "s1 = in_store (\<lambda>x. if au then add_audit (action_audit e q a) x else x) (set_action (ca_id b) (\<lambda>_. a) s3)"
    using st by (cases au) (simp_all add: settle_def in_store_def)
  have act: "so_actions s1 = so_actions s @ [a]"
  proof -
    have "\<forall>x\<in>set (so_actions s). ca_id x \<noteq> sq_action s" using s by (auto simp: soar_ok_def cursor_ordered_def)
    then have "upd_rows (\<lambda>x. ca_id x = sq_action s) (\<lambda>_. a) (so_actions s) = so_actions s" by (intro upd_rows_id) auto
    then show ?thesis by (simp add: s1 s3 add_action_def b_def upd_rows_append upd_rows_Cons)
  qed
  have "st_targets (so_store s1) = upd_rows (\<lambda>x. tg_id x = tg_id t) (quarantine_target a (aq_reason q)) (st_targets (so_store s))"
    by (simp add: s1 s3 ab(5) add_action_def)
  then show thesis
    using tt t(2) ab(1-4) act by (intro that)
qed

text \<open>
  C15: quarantine and rollback are inverse.  When a quarantine is executed on an active target and
  then reverted by its tenant, every target is as it was before, up to the error text of the one
  that was quarantined.
\<close>

theorem quarantine_roundtrip:
  assumes s: "soar_ok s" "store_ids (so_store s)" and calm: "sw_race w = (\<lambda>x. x)"
    and fresh: "action_of_key (action_key q) s = None" "uuids e 0 \<notin> ca_uuid ` set (so_actions s)"
    and q: "aq_action_type q = QUARANTINE_TARGET" "aq_tenant_id q = usr_id u"
    and run: "execute_action w e q s = (a, s1)" "ca_status a = EXECUTED"
    and g: "\<forall>g\<in>set (st_targets (so_store s)). tg_id g \<noteq> 0"
  shows "\<exists>r s2 i. revert_action e' (ca_uuid a) u s1 = (Inr r, s2) \<and>
    (\<exists>x\<in>set (st_targets (so_store s)). tg_id x = i \<and> tg_is_active x) \<and>
    st_targets (so_store s1) = upd_rows (\<lambda>x. tg_id x = i) (quarantine_target a (aq_reason q)) (st_targets (so_store s)) \<and>
    st_targets (so_store s2) = upd_rows (\<lambda>x. tg_id x = i) (tg_last_error_message_update (\<lambda>_. None)) (st_targets (so_store s))"
proof -
  obtain t where t: "t \<in> set (st_targets (so_store s))" "tg_user_id t = usr_id u" "tg_is_active t"
    and a: "ca_uuid a = uuids e 0" "ca_tenant_id a = usr_id u" "ca_action_type a = QUARANTINE_TARGET" "recorded_target a = tg_id t"
    and act: "so_actions s1 = so_actions s @ [a]"
    and t1: "st_targets (so_store s1) = upd_rows (\<lambda>x. tg_id x = tg_id t) (quarantine_target a (aq_reason q)) (st_targets (so_store s))"
    by (rule quarantine_executed [OF calm fresh(1) q(1) run s(1)]) (rule that; simp add: q(2))
  have "filter (\<lambda>x. ca_uuid x = ca_uuid a) (so_actions s1) = [a]"
    using fresh(2) a(1) by (auto simp: act filter_empty_conv image_iff)
  then have found: "action_of_uuid (ca_uuid a) s1 = Some a" by (simp add: action_of_uuid_def first_row_def)
  define s2 where "s2 = in_store (\<lambda>st. broadcast_soc (revert_event e' u a) (add_audit (revert_audit e' u a) st))
      (set_action (ca_id a) (revert_row e' u) (roll_back e' a s1))"
  have rv: "revert_action e' (ca_uuid a) u s1 = (Inr (revert_row e' u a), s2)"
    using found a(2) run(2) by (simp add: revert_action_def s2_def)
  have "st_targets (so_store s2) = upd_rows (quarantined_by a) release_target (st_targets (so_store s1))"
    by (simp add: s2_def broadcast_soc_def roll_back_def a(3))
  also have "\<dots> = upd_rows (\<lambda>x. tg_id x = tg_id t) (tg_last_error_message_update (\<lambda>_. None)) (st_targets (so_store s))"
    unfolding t1 using released_targets [OF s(2) t(1,3) _ a(4)] g t(1,2) a(2) by simp
  finally show ?thesis using rv t1 t(1,3) by blast
qed

text \<open>
  No lost update of a policy.  An accepted update raises the version by one, and any other
  update that was prepared against the same version is then refused and changes nothing.
\<close>

theorem policy_optimistic_lock:
  assumes "soar_ok s" "respectful w" "update_policy w e t d uid s = (Inr p, s1)"
    and "pu_policy_version d' = pu_policy_version d"
  shows "p \<in> set (so_policies s1) \<and> cp_tenant_id p = t \<and> cp_policy_version p = pu_policy_version d + 1 \<and>
    update_policy w' e' t d' uid' s1 = (Inl HTTP_409_CONFLICT, s1)"
proof -
  obtain p0 s0 where g: "get_or_create_policy w e t s = (p0, s0)" by fastforce
  have s0: "soar_ok s0" using policy_ok(1) [OF assms(1,2) g] .
  let ?up = "upd_rows (submitted_version t d) (write_policy e d uid) (so_policies s0)"
  have upd: "filter (submitted_version t d) (so_policies s0) \<noteq> []"
    "p = the (policy_of t (s0\<lparr>so_policies := ?up\<rparr>))"
    "s1 = in_store (add_audit (policy_audit e t d uid p0)) (s0\<lparr>so_policies := ?up\<rparr>)"
    using assms(3) by (auto simp: update_policy_def g Let_def split: if_splits)
  obtain x where x: "x \<in> set (so_policies s0)" "cp_tenant_id x = t" "cp_policy_version x = pu_policy_version d"
    using upd(1) by (auto simp: filter_empty_conv submitted_version_def)
  have s1: "soar_ok s1" using update_policy_ok [OF assms(3,1,2)] by blast
  have w: "write_policy e d uid x \<in> set (so_policies s1)" "cp_tenant_id (write_policy e d uid x) = t"
    using x by (auto simp: upd(3) in_upd_rows submitted_version_def write_policy_def)
  have "policy_of t s1 = Some (write_policy e d uid x)" using policy_of_unique [OF s1 w(1)] w(2) by simp
  moreover have "policy_of t s1 = policy_of t (s0\<lparr>so_policies := ?up\<rparr>)" by (simp add: upd(3) policy_of_def)
  ultimately have p: "p = write_policy e d uid x" "policy_of t s1 = Some p" using upd(2) by simp_all
  have pv: "cp_policy_version p = pu_policy_version d + 1" by (simp add: p(1) write_policy_def x(3))
  have "\<not> submitted_version t d' y" if "y \<in> set (so_policies s1)" for y
    using policy_of_unique [OF s1 that] p(2) pv assms(4) by (auto simp: submitted_version_def)
  then have "filter (submitted_version t d') (so_policies s1) = []" by (simp add: filter_empty_conv)
  then have "update_policy w' e' t d' uid' s1 = (Inl HTTP_409_CONFLICT, s1)"
    by (simp add: update_policy_def get_or_create_policy_def p(2) others_committed_def)
  then show ?thesis using w p(1) pv by blast
qed

datatype lease_op = Acquire env nat | Release nat string

definition lease_step :: "services \<Rightarrow> lease_op \<Rightarrow> soar \<Rightarrow> soar" where
  \<comment> \<open>the pods' acquisitions and releases, in the order in which Redis sees them\<close>
  "lease_step w x s =
     (case x of
        Acquire e t \<Rightarrow> snd (acquire_tenant_concurrency_lease w e t s)
      | Release t k \<Rightarrow> release_tenant_concurrency_lease w t k s)"

lemma tenant_leases_mono:
  "length (tenant_leases t (filter p ls)) \<le> length (tenant_leases t ls)"
  unfolding tenant_leases_def by (induction ls) auto

lemma lease_step_bound:
  assumes "sw_redis w" "sw_redis_up w" "\<forall>t. length (tenant_leases t (so_leases s)) \<le> 5"
  shows "\<forall>t. length (tenant_leases t (so_leases (lease_step w x s))) \<le> 5"
proof
  fix t
  note mono = tenant_leases_mono [THEN le_trans]
  show "length (tenant_leases t (so_leases (lease_step w x s))) \<le> 5"
  proof (cases x)
    case (Acquire e u)
    define ls where "ls = live_leases (now e) u (so_leases s)"
    have ls: "length (tenant_leases t ls) \<le> 5" for t using assms(3) mono by (auto simp: ls_def live_leases_def)
    show ?thesis
    proof (cases "length (tenant_leases u ls) \<ge> 5")
      case True
      then have "so_leases (lease_step w x s) = ls"
        using assms(1,2) by (simp add: Acquire lease_step_def acquire_tenant_concurrency_lease_def
            MAX_CONCURRENT_PLAYBOOKS_PER_TENANT_def Let_def flip: ls_def)
      then show ?thesis using ls by simp
    next
      case False
      then have "so_leases (lease_step w x s) = ls @ [(u, uuids e 0, now e)]"
        using assms(1,2) by (simp add: Acquire lease_step_def acquire_tenant_concurrency_lease_def
            MAX_CONCURRENT_PLAYBOOKS_PER_TENANT_def Let_def flip: ls_def)
      then show ?thesis using ls [of t] False by (cases "t = u") (simp_all add: tenant_leases_def)
    qed
  next
    case (Release u k)
    then show ?thesis
      using assms mono by (auto simp: lease_step_def release_tenant_concurrency_lease_def)
  qed
qed

text \<open>
  The concurrency limit.  While Redis answers, a tenant never holds more than five leases,
  whatever pods acquire and release; and a pod is turned away only when five leases of the tenant
  are younger than a minute.
\<close>

theorem playbook_leases_bounded:
  assumes "sw_redis w" "sw_redis_up w" "s = fold (lease_step w) xs empty_soar"
  shows "length (tenant_leases t (so_leases s)) \<le> 5 \<and>
    (fst (acquire_tenant_concurrency_lease w e t s) = Inl err \<longrightarrow>
       length (filter (\<lambda>(u, k, x). u = t \<and> now e - x < seconds 60) (so_leases s)) = 5)"
proof -
  have "\<forall>t. length (tenant_leases t (so_leases (fold (lease_step w) xs s0))) \<le> 5"
    if "\<forall>t. length (tenant_leases t (so_leases s0)) \<le> 5" for s0
    using that
  proof (induction xs arbitrary: s0)
    case (Cons x xs)
    show ?case using Cons.IH [OF lease_step_bound [OF assms(1,2) Cons.prems]] by simp
  qed simp
  then have bound: "length (tenant_leases t (so_leases s)) \<le> 5"
    by (simp add: assms(3) empty_soar_def tenant_leases_def)
  have "tenant_leases t (live_leases (now e) t (so_leases s)) =
      filter (\<lambda>(u, k, x). u = t \<and> now e - x < seconds 60) (so_leases s)"
    by (auto simp: tenant_leases_def live_leases_def intro!: filter_cong)
  moreover have "length (tenant_leases t (live_leases (now e) t (so_leases s))) \<le> length (tenant_leases t (so_leases s))"
    unfolding live_leases_def by (rule tenant_leases_mono)
  ultimately show ?thesis
    using bound assms(1,2)
    by (auto simp: acquire_tenant_concurrency_lease_def MAX_CONCURRENT_PLAYBOOKS_PER_TENANT_def Let_def split: if_splits)
qed

text \<open>
  Automation is off by default.  As long as the tenant has no policy or one without automatic
  containment, the evaluation of an alert starts no playbook: no action, run, blacklist row, target,
  alert or other row of any service changes.
\<close>

theorem containment_off_by_default:
  assumes "sw_race w s = s" "\<And>p. policy_of t s = Some p \<Longrightarrow> \<not> cp_auto_containment_enabled p"
    and "al_user_id a = Some t" "evaluate_alert_containment w e a s = (res, s')"
  shows "res = Inr None \<and> so_store s' = so_store s \<and> so_actions s' = so_actions s \<and>
    so_runs s' = so_runs s \<and> so_blacklist s' = so_blacklist s \<and> so_leases s' = so_leases s"
  using assms by (cases "policy_of t s")
    (auto simp: evaluate_alert_containment_def get_or_create_policy_def default_policy_def Let_def split: if_splits)

subsection \<open>Tenant isolation\<close>

definition calm :: "services \<Rightarrow> services" where
  \<comment> \<open>no other session commits during the call\<close>
  "calm w = w\<lparr>sw_race := (\<lambda>s. s), sw_overtake := (\<lambda>s. s)\<rparr>"

definition confined :: "nat \<Rightarrow> store \<Rightarrow> store \<Rightarrow> bool" where
  \<comment> \<open>only targets of tenant \<open>t\<close> change\<close>
  "confined t st st' \<longleftrightarrow> (store_ids st \<longrightarrow> store_ids st' \<and>
     (\<forall>v. v \<noteq> t \<longrightarrow> filter (\<lambda>g. tg_user_id g = v) (st_targets st') = filter (\<lambda>g. tg_user_id g = v) (st_targets st)))"

lemma calm_race [simp]: "sw_race (calm w) s = s" "sw_overtake (calm w) s = s"
  by (simp_all add: calm_def)

lemma confined_refl [simp]: "confined t st st"
  by (simp add: confined_def)

lemma confined_trans: "confined t st st1 \<Longrightarrow> confined t st1 st2 \<Longrightarrow> confined t st st2"
  by (auto simp: confined_def)

lemma confined_logs [simp]:
  "confined t st (add_audit r st') = confined t st st'"
  "confined t st (add_soc_event v st') = confined t st st'"
  "confined t st (broadcast_soc v st') = confined t st st'"
proof -
  have ids: "store_ids (add_audit r s) = store_ids s" "store_ids (add_soc_event v s) = store_ids s"
    "store_ids (publish_event p s) = store_ids s" for s r v p
    by (auto simp: store_ids_def add_defs cursor_ordered_def sorted_wrt_append less_Suc_eq)
  show "confined t st (add_audit r st') = confined t st st'"
    "confined t st (add_soc_event v st') = confined t st st'"
    "confined t st (broadcast_soc v st') = confined t st st'"
    by (simp_all add: confined_def broadcast_soc_def ids)
qed

lemma confined_upd:
  assumes "g \<in> set (st_targets st)" "tg_user_id g = t" "keeps_identity f"
  shows "confined t st (set_target (tg_id g) f st)"
  unfolding confined_def
proof (intro impI conjI allI)
  assume s: "store_ids st"
  show "store_ids (set_target (tg_id g) f st)"
    using s assms(3) by (intro store_ids_set) (simp_all add: keeps_identity_def)
  show "filter (\<lambda>g. tg_user_id g = v) (st_targets (set_target (tg_id g) f st)) = filter (\<lambda>g. tg_user_id g = v) (st_targets st)"
    if "v \<noteq> t" for v
    using filter_upd_id [OF s assms(1) _ assms(3), of "\<lambda>g. tg_user_id g = v"] assms(2) that by simp
qed

lemma confined_incident:
  assumes "bind_incident e q st = (i, st')" shows "confined t st st'"
proof -
  have tg: "st_targets (snd (get_or_create_threat_incident e' uid dm sev title desc aid ip st)) = st_targets st"
    for e' uid dm sev title desc aid ip
    by (auto simp: get_or_create_threat_incident_def link_alert_def incident_audit_def Let_def split: option.splits)
  have ids: "store_ids st \<Longrightarrow> store_ids (snd (get_or_create_threat_incident e' uid dm sev title desc aid ip st))"
    for e' uid dm sev title desc aid ip
    using threat_incident_cases(1) [of st e' uid dm sev title desc aid ip "fst (fst x)" "snd (fst x)" "snd x" for x]
    by (metis prod.collapse)
  have "st' = st \<or> (\<exists>x. st' = snd (threat_incident_for e q x st))"
    using assms by (auto simp: bind_incident_def split: option.splits if_splits prod.splits) (metis snd_conv)
  then show ?thesis using tg ids by (auto simp: confined_def threat_incident_for_def)
qed

lemma calm_policy [simp]: "so_store (snd (get_or_create_policy (calm w) e t s)) = so_store s"
  by (auto simp: get_or_create_policy_def Let_def split: option.splits)

lemma perform_confined:
  assumes "perform (calm w) e q a s = (res, s')"
  shows "confined (aq_tenant_id q) (so_store s) (so_store s')"
proof (cases "aq_action_type q")
  case BLACKLIST_INDICATOR
  then have "perform_blacklist (calm w) e q a s = (res, s')" using assms by (simp add: perform_def)
  then show ?thesis
  proof (cases rule: perform_blacklist_cases)
    case (allowed p s1)
    have "so_store s1 = so_store s" using calm_policy [of w e "aq_tenant_id q" s] by (simp add: allowed(2))
    then show ?thesis using allowed(3) by auto
  qed simp
next
  case QUARANTINE_TARGET
  then have "perform_quarantine e q a s = (res, s')" using assms by (simp add: perform_def)
  then show ?thesis
  proof (cases rule: perform_quarantine_cases)
    case (quarantined g d)
    have "g \<in> set (named_targets (aq_tenant_id q) (aq_target_identifier q) (so_store s))" using quarantined(1) by simp
    then have "g \<in> set (st_targets (so_store s))" "tg_user_id g = aq_tenant_id q" by (simp_all add: named_targets_def)
    then show ?thesis
      unfolding quarantined(4) in_store_simps
      by (intro confined_upd) (simp_all add: keeps_identity_def quarantine_target_def)
  qed simp
next
  case CREATE_INCIDENT
  then show ?thesis
    using assms confined_incident by (auto simp: perform_def perform_create_incident_def split: prod.splits)
qed (use assms in \<open>auto simp: perform_def perform_invalidate_cache_def perform_emit_def perform_notify_def\<close>)

lemma execute_confined:
  assumes "execute_action (calm w) e q s = (a, s')"
  shows "confined (aq_tenant_id q) (so_store s) (so_store s')"
  using assms
proof (cases rule: execute_action_cases)
  case (performed b res s3)
  have "confined (aq_tenant_id q) (so_store s) (so_store s3)"
    using perform_confined [OF performed(4)] by (simp add: add_action_def)
  then show ?thesis
    using performed(5) by (auto simp: settle_def split: sum.splits if_splits)
qed simp_all

lemma run_actions_confined:
  "run_actions (calm w) e r q n ts s = (res, s') \<Longrightarrow> confined (aq_tenant_id q) (so_store s) (so_store s')"
proof (induction "calm w" e r q n ts s rule: run_actions.induct)
  case (2 e r q n t ts s)
  obtain a s1 where x: "execute_action (calm w) (env_shift (4 + 10 * n) e) (q\<lparr>aq_action_type := t\<rparr>) s = (a, s1)" by fastforce
  have s1: "confined (aq_tenant_id q) (so_store s) (so_store s1)" using execute_confined [OF x] by simp
  consider "s' = s" | "s' = s1" | "run_actions (calm w) e r q (Suc n) ts s1 = (res, s')"
    "\<not> (t \<in> {BLACKLIST_INDICATOR, QUARANTINE_TARGET} \<and> \<not> owns_run r s)" "ca_status a \<noteq> FAILED"
    using 2(2) x by (auto split: if_splits)
  then show ?case
  proof cases
    case 3
    then show ?thesis using 2(1) [OF 3(2) x [symmetric] 3(3,1)] s1 confined_trans by blast
  qed (use s1 in simp_all)
qed simp

lemma acquire_store [simp]: "so_store (snd (acquire_tenant_concurrency_lease (calm w) e t s)) = so_store s"
  by (auto simp: acquire_tenant_concurrency_lease_def others_committed_def Let_def)

lemma release_store [simp]: "so_store (release_tenant_concurrency_lease w t k s) = so_store s"
  by (simp add: release_tenant_concurrency_lease_def)

lemma playbook_confined:
  assumes "execute_playbook (calm w) e p s = (res, s')"
  shows "confined (pq_tenant_id p) (so_store s) (so_store s')"
  using assms
proof (cases rule: execute_playbook_cases)
  case (refused err)
  then show ?thesis using acquire_store [of w e "pq_tenant_id p" s] by simp
next
  case (raced token s1 r)
  then show ?thesis using acquire_store [of w e "pq_tenant_id p" s] by simp
next
  case (started token s1 r r' s2)
  have s1: "so_store s1 = so_store s" using acquire_store [of w e "pq_tenant_id p" s] by (simp add: started(2))
  from started(5) obtain out s4 g where
    run: "run_actions (calm w) e r (action_of_playbook p r) 0 (action_sequence (pq_playbook_name p))
      (in_store (add_soc_event (triggered_event e p r)) (add_run r (sw_race (calm w) s1))) = (out, s4)"
    and s2: "s2 = in_store g (set_run (pr_id r) (\<lambda>_. r') s4)" "\<And>st. g st = st \<or> (\<exists>ev. g st = broadcast_soc ev st)"
    by (rule run_playbook_cases) blast+
  have "confined (pq_tenant_id p) (add_soc_event (triggered_event e p r) (so_store s)) (so_store s4)"
    using run_actions_confined [OF run] by (simp add: add_run_def s1 action_of_playbook_def)
  then have "confined (pq_tenant_id p) (so_store s) (so_store s4)"
    using confined_trans [of _ _ "add_soc_event (triggered_event e p r) (so_store s)"] by simp
  then show ?thesis
    using s2(2) [of "so_store s4"] by (auto simp: started(7) s2(1))
qed simp

lemma evaluate_confined:
  assumes "evaluate_alert_containment (calm w) e a s = (res, s')" "al_user_id a = Some t"
  shows "confined t (so_store s) (so_store s')"
proof -
  have pl: "confined t (so_store s1) (so_store s')"
    if st: "start_playbook (calm w) e p s1 = (res, s')" and tn: "pq_tenant_id p = t" for p s1
  proof -
    obtain r where "execute_playbook (calm w) e p s1 = (r, s')"
      using st by (auto simp: start_playbook_def split: prod.splits sum.splits)
    from playbook_confined [OF this] show ?thesis using tn by simp
  qed
  have same: "so_store s1 = so_store s" if "get_or_create_policy (calm w) e (the (al_user_id a)) s = (p, s1)" for p s1
    using calm_policy [of w e "the (al_user_id a)" s] that by simp
  show ?thesis
    using assms(1)
  proof (cases rule: evaluate_cases)
    case (idle p)
    then show ?thesis using same [OF idle(2)] by simp
  next
    case (quarantine p s1 g)
    then show ?thesis using pl [OF quarantine(8)] same [OF quarantine(2)] assms(2) by (simp add: quarantine_playbook_def)
  next
    case (blacklist p s1)
    then show ?thesis using pl [OF blacklist(6)] same [OF blacklist(2)] assms(2) by (simp add: blacklist_playbook_def)
  qed (simp_all add: others_committed_def)
qed

lemma revert_confined:
  assumes "revert_action e uuid u s = (res, s')" "\<not> is_admin u"
  shows "confined (usr_id u) (so_store s) (so_store s')"
  using assms(1)
proof (cases rule: revert_cases)
  case (reverted a)
  let ?t = "usr_id u"
  have t: "ca_tenant_id a = ?t" using reverted(4) assms(2) by simp
  let ?up = "(so_store s)\<lparr>st_targets := upd_rows (quarantined_by a) release_target (st_targets (so_store s))\<rparr>"
  have ids: "store_ids (so_store s) \<Longrightarrow> store_ids ?up"
    by (auto simp: store_ids_def release_target_def intro: cursor_ordered_upd_rows)
  have "filter (\<lambda>g. tg_user_id g = v) (upd_rows (quarantined_by a) release_target (st_targets (so_store s)))
      = filter (\<lambda>g. tg_user_id g = v) (st_targets (so_store s))" if "v \<noteq> ?t" for v
    unfolding upd_rows_def using that t
    by (intro filter_map_upd) (auto simp: quarantined_by_def release_target_def split: if_splits)
  then have "confined ?t (so_store s) ?up" using ids by (simp add: confined_def)
  then have "confined ?t (so_store s) (so_store (roll_back e a s))"
    by (cases "ca_action_type a") (simp_all add: roll_back_def in_store_def)
  then show ?thesis by (simp add: reverted(5))
qed simp_all

definition soar_actor :: "services \<times> env \<times> soar_op \<Rightarrow> nat option" where
  "soar_actor x =
     (case x of (w, e, c) \<Rightarrow>
        case c of
          Execute q \<Rightarrow> Some (aq_tenant_id q)
        | Playbook p \<Rightarrow> Some (pq_tenant_id p)
        | Evaluate a \<Rightarrow> al_user_id a
        | Revert uuid u \<Rightarrow> if is_admin u then None else Some (usr_id u)
        | UpdatePolicy t d uid \<Rightarrow> Some t)"

definition calm_soar :: "services \<times> env \<times> soar_op \<Rightarrow> soar \<Rightarrow> soar" where
  "calm_soar x s = (case x of (w, e, c) \<Rightarrow> exec_soar (calm w, e, c) s)"

lemma update_store: "confined t (so_store s) (so_store (snd (update_policy (calm w) e t' d uid s)))"
proof -
  obtain p s1 where g: "get_or_create_policy (calm w) e t' s = (p, s1)" by fastforce
  have "so_store s1 = so_store s" using calm_policy [of w e t' s] g by simp
  then show ?thesis by (simp add: update_policy_def g Let_def others_committed_def)
qed

lemma calm_confined:
  assumes "soar_actor x = Some t" shows "confined t (so_store s) (so_store (calm_soar x s))"
proof -
  obtain w e c where x: "x = (w, e, c)" by (cases x)
  show ?thesis
  proof (cases c)
    case (Execute q)
    then show ?thesis using assms execute_confined [of w e q s]
      by (simp add: x calm_soar_def exec_soar_def soar_actor_def prod_eq_iff)
  next
    case (Playbook p)
    then show ?thesis using assms playbook_confined [of w e p s]
      by (simp add: x calm_soar_def exec_soar_def soar_actor_def prod_eq_iff)
  next
    case (Evaluate a)
    then show ?thesis using assms evaluate_confined [of w e a s _ _ t]
      by (simp add: x calm_soar_def exec_soar_def soar_actor_def prod_eq_iff)
  next
    case (Revert uuid u)
    then show ?thesis using assms revert_confined [of e uuid u s]
      by (simp add: x calm_soar_def exec_soar_def soar_actor_def prod_eq_iff split: if_splits)
  next
    case (UpdatePolicy t' d uid)
    then show ?thesis using update_store by (simp add: x calm_soar_def exec_soar_def)
  qed
qed

lemma calm_ids: "store_ids (so_store s) \<Longrightarrow> store_ids (so_store (calm_soar x s))"
proof (cases "soar_actor x")
  case (Some t)
  then show "store_ids (so_store s) \<Longrightarrow> store_ids (so_store (calm_soar x s))"
    using calm_confined by (auto simp: confined_def)
next
  case None
  obtain w e c where x: "x = (w, e, c)" by (cases x)
  assume s: "store_ids (so_store s)"
  consider a where "c = Evaluate a" "al_user_id a = None" | uuid u where "c = Revert uuid u"
    using None by (cases c) (auto simp: x soar_actor_def)
  then show "store_ids (so_store (calm_soar x s))"
  proof cases
    case 1
    then show ?thesis using s by (simp add: x calm_soar_def exec_soar_def evaluate_alert_containment_def)
  next
    case (2 uuid u)
    obtain res s' where r: "revert_action e uuid u s = (res, s')" by fastforce
    have "store_ids (so_store s')"
      using r
    proof (cases rule: revert_cases)
      case (reverted a)
      have "store_ids (so_store (roll_back e a s))"
        using s by (cases "ca_action_type a")
          (auto simp: roll_back_def in_store_def store_ids_def release_target_def intro: cursor_ordered_upd_rows)
      then show ?thesis by (simp add: reverted(5) broadcast_soc_def)
    qed (use s in simp_all)
    then show ?thesis using 2 r by (simp add: x calm_soar_def exec_soar_def)
  qed
qed

interpretation soar_tenants: tenant_isolated "\<lambda>g. Some (tg_user_id g)" "\<lambda>s. st_targets (so_store s)" soar_actor
  calm_soar "\<lambda>s. store_ids (so_store s)"
proof unfold_locales
  fix s :: soar and x :: "services \<times> env \<times> soar_op"
  assume "store_ids (so_store s)" then show "store_ids (so_store (calm_soar x s))" by (rule calm_ids)
next
  fix s :: soar and x :: "services \<times> env \<times> soar_op" and u :: nat and v :: "nat option"
  assume s: "store_ids (so_store s)" and act: "soar_actor x = Some u" and v: "v \<noteq> Some u"
  show "filter (\<lambda>g. Some (tg_user_id g) = v) (st_targets (so_store (calm_soar x s))) =
      filter (\<lambda>g. Some (tg_user_id g) = v) (st_targets (so_store s))"
    using calm_confined [OF act, of s] s v by (cases v) (simp_all add: confined_def)
qed

text \<open>
  Tenant isolation of containment.  Whatever other tenants contain, run, update or roll back,
  a tenant's monitoring targets stay as they are.
\<close>

theorem containment_isolated:
  assumes "store_ids (so_store s)"
    and "\<And>x. x \<in> set xs \<Longrightarrow> \<exists>v. soar_actor x = Some v \<and> v \<noteq> u"
  shows "filter (\<lambda>g. tg_user_id g = u) (st_targets (so_store (fold calm_soar xs s))) =
         filter (\<lambda>g. tg_user_id g = u) (st_targets (so_store s))"
  using soar_tenants.run_foreign [of s xs "Some u"] assms by force

text \<open>
  The automatic quarantine passes by the allowlist.  The quarantine playbook names its target by
  its uuid, and the allowlist is asked about that uuid, so the target of an allowlisted domain is
  taken out of monitoring although the service promises that it never is.
\<close>

theorem quarantine_ignores_allowlist:
  assumes "named_targets t (tg_uuid g) (so_store s) = [g]" "tg_is_active g" "\<not> is_whitelisted (tg_uuid g)"
    and "is_whitelisted (tg_normalized_domain g)"
    and "q = (action_of_playbook (quarantine_playbook t g a) r)\<lparr>aq_action_type := QUARANTINE_TARGET\<rparr>"
    and "action_of_key (action_key q) s = None" "execute_action (calm w) e q s = (c, s')"
  shows "ca_status c = EXECUTED \<and>
    st_targets (so_store s') = upd_rows (\<lambda>x. tg_id x = tg_id g) (quarantine_target c (aq_reason q)) (st_targets (so_store s))"
proof -
  define b where "b = (new_action e q)\<lparr>ca_id := sq_action s\<rparr>"
  have q: "aq_action_type q = QUARANTINE_TARGET" "aq_tenant_id q = t" "aq_target_identifier q = tg_uuid g"
    by (simp_all add: assms(5) action_of_playbook_def quarantine_playbook_def)
  define rb where "rb = Some [(''target_id'', JInt (int (tg_id g))), (''target_uuid'', JStr (tg_uuid g)),
      (''previous_is_active'', JBool True), (''action_uuid'', JStr (ca_uuid b))]"
  define rs where "rs = [(''target_id'', JInt (int (tg_id g))), (''quarantined'', JBool True)]"
  have p: "perform (calm w) e q b (add_action (new_action e q) s) =
      (Inr (True, done_action e rb rs b),
       in_store (set_target (tg_id g) (quarantine_target b (aq_reason q))) (add_action (new_action e q) s))"
    using assms(1-3) q
    by (simp add: perform_def perform_quarantine_def add_action_def scalar_one_or_none_def rb_def rs_def)
  have "settle e q b (perform (calm w) e q b (add_action (new_action e q) s)) = (c, s')"
    using assms(6,7) by (simp add: execute_action_def Let_def b_def)
  then have c: "c = done_action e rb rs b"
    and st: "st_targets (so_store s') = upd_rows (\<lambda>x. tg_id x = tg_id g) (quarantine_target b (aq_reason q)) (st_targets (so_store s))"
    unfolding p by (auto simp: settle_def add_action_def)
  have "quarantine_target b = quarantine_target c"
    by (simp add: c fun_eq_iff quarantine_target_def quarantine_message_def done_action_def)
  then show ?thesis using st by (simp add: c done_action_def)
qed

subsection \<open>Witnesses\<close>

definition sample_services :: services where
  "sample_services = \<lparr>sw_redis = False, sw_redis_up = False, sw_cache_error = None, sw_race = (\<lambda>s. s),
     sw_overtake = (\<lambda>s. s), sw_naive_times = False\<rparr>"

definition sample_block :: "string \<Rightarrow> action_request" where
  \<comment> \<open>\<open>alice\<close> blacklists an indicator by hand\<close>
  "sample_block v =
     \<lparr>aq_action_type = BLACKLIST_INDICATOR, aq_target_identifier = v, aq_tenant_id = 1,
      aq_trigger_source = ''manual_analyst'', aq_alert_id = None, aq_run_id = None,
      aq_actor_user_id = Some 1, aq_reason = ''phishing''\<rparr>"

definition blocked_soar :: soar where
  "blocked_soar = snd (execute_action sample_services (sample_env 5) (sample_block ''evil.com'') empty_soar)"

lemma sample_respectful [simp]: "respectful sample_services" "sw_race sample_services = (\<lambda>s. s)"
  "calm sample_services = sample_services"
  by (simp_all add: respectful_def sample_services_def calm_def)

lemma blocked_soar_ok: "soar_ok blocked_soar"
  using execute_action_ok [OF _ soar_ok_empty sample_respectful(1)] unfolding blocked_soar_def
  by (metis prod.collapse)

lemma sample_run_entries:
  "map bl_indicator_value (so_blacklist (fold exec_soar
     [(sample_services, sample_env 5, Execute (sample_block ''google.com'')),
      (sample_services, sample_env 6, Execute (sample_block ''http://evil.com/x''))] empty_soar)) = [''http://evil.com/x'']"
  by code_simp

theorem allowlist_never_blacklisted_witness:
  "\<not> is_whitelisted ''http://evil.com/x'' \<and>
   map bl_indicator_value (so_blacklist (fold exec_soar
     [(sample_services, sample_env 5, Execute (sample_block ''google.com'')),
      (sample_services, sample_env 6, Execute (sample_block ''http://evil.com/x''))] empty_soar)) = [''http://evil.com/x'']"
proof -
  let ?xs = "[(sample_services, sample_env 5, Execute (sample_block ''google.com'')),
      (sample_services, sample_env 6, Execute (sample_block ''http://evil.com/x''))]"
  have ok: "\<And>x. x \<in> set ?xs \<Longrightarrow> respectful (fst x)" by auto
  have "\<forall>b\<in>set (so_blacklist (fold exec_soar ?xs empty_soar)). \<not> is_whitelisted (bl_indicator_value b)"
    using allowlist_never_blacklisted [OF ok refl] by blast
  then have "list_all (\<lambda>v. \<not> is_whitelisted v)
      (map bl_indicator_value (so_blacklist (fold exec_soar ?xs empty_soar)))"
    unfolding list_all_iff list.set_map ball_simps(9) .
  then have "\<not> is_whitelisted ''http://evil.com/x''"
    unfolding sample_run_entries list.pred_inject by (rule conjunct1)
  from this sample_run_entries show ?thesis by (rule conjI)
qed

theorem action_exactly_once_witness:
  "snd (execute_action sample_services (sample_env 9) (sample_block ''evil.com'') blocked_soar) = blocked_soar"
proof -
  obtain a where r: "execute_action sample_services (sample_env 5) (sample_block ''evil.com'') empty_soar = (a, blocked_soar)"
    unfolding blocked_soar_def by (metis prod.collapse)
  show ?thesis
    using action_exactly_once [OF soar_ok_empty sample_respectful(1) _ r refl, of "[]" sample_services "sample_env 9"] by auto
qed

lemma sample_revert:
  "(case fst (revert_action (sample_env 7) ''uuid-'' alice blocked_soar) of
      Inl err \<Rightarrow> False
    | Inr r \<Rightarrow> ca_idempotency_key r = action_key (sample_block ''evil.com'') \<and> ca_id r = 1)"
  by code_simp

lemma sample_reverted:
  obtains r s1 where "revert_action (sample_env 7) ''uuid-'' alice blocked_soar = (Inr r, s1)"
    "ca_idempotency_key r = action_key (sample_block ''evil.com'')" "ca_id r = 1"
  using sample_revert by (cases "revert_action (sample_env 7) ''uuid-'' alice blocked_soar") (auto split: sum.splits)

theorem reverted_action_never_reapplied_witness:
  "ca_status (fst (execute_action sample_services (sample_env 9) (sample_block ''evil.com'')
     (snd (revert_action (sample_env 7) ''uuid-'' alice blocked_soar)))) = REVERTED"
proof -
  obtain r s1 where r: "revert_action (sample_env 7) ''uuid-'' alice blocked_soar = (Inr r, s1)"
    and k: "ca_idempotency_key r = action_key (sample_block ''evil.com'')"
    using sample_reverted by blast
  show ?thesis using reverted_action_never_reapplied [OF blocked_soar_ok r k, of sample_services "sample_env 9"] r by auto
qed


definition quarantine_request :: action_request where
  "quarantine_request = (sample_block ''t3'')\<lparr>aq_action_type := QUARANTINE_TARGET\<rparr>"

definition watched_soar :: soar where
  "watched_soar = empty_soar\<lparr>so_store := paused_store\<rparr>"

lemma watched_soar_ok: "soar_ok watched_soar" "store_ids (so_store watched_soar)"
  by (simp_all add: watched_soar_def)

lemma sample_quarantine:
  "ca_status (fst (execute_action sample_services (sample_env 5) quarantine_request watched_soar)) = EXECUTED"
  by code_simp

theorem quarantine_roundtrip_witness:
  "\<exists>a s1 r s2. execute_action sample_services (sample_env 5) quarantine_request watched_soar = (a, s1) \<and>
     revert_action (sample_env 8) (ca_uuid a) alice s1 = (Inr r, s2) \<and>
     map tg_is_active (st_targets (so_store s2)) = [False, False, True]"
proof -
  obtain a s1 where run: "execute_action sample_services (sample_env 5) quarantine_request watched_soar = (a, s1)"
    by fastforce
  then have ex: "ca_status a = EXECUTED" using sample_quarantine by simp
  have fresh: "action_of_key (action_key quarantine_request) watched_soar = None"
    "uuids (sample_env 5) 0 \<notin> ca_uuid ` set (so_actions watched_soar)"
    by (simp_all add: watched_soar_def empty_soar_def action_of_key_def)
  have q: "aq_action_type quarantine_request = QUARANTINE_TARGET" "aq_tenant_id quarantine_request = usr_id alice"
    by (simp_all add: quarantine_request_def sample_block_def)
  have nz: "\<forall>g\<in>set (st_targets (so_store watched_soar)). tg_id g \<noteq> 0"
    by (simp add: watched_soar_def paused_store_def sample_target_def)
  obtain r s2 i where "revert_action (sample_env 8) (ca_uuid a) alice s1 = (Inr r, s2)"
    and "st_targets (so_store s2) = upd_rows (\<lambda>x. tg_id x = i) (tg_last_error_message_update (\<lambda>_. None))
      (st_targets (so_store watched_soar))"
    using quarantine_roundtrip [OF watched_soar_ok sample_respectful(2) fresh q run ex nz, of "sample_env 8"] by blast
  then have rv: "revert_action (sample_env 8) (ca_uuid a) alice s1 = (Inr r, s2)"
    and "map tg_is_active (st_targets (so_store s2)) = map tg_is_active (st_targets (so_store watched_soar))"
    by (simp_all add: map_upd_rows)
  from this(2) have "map tg_is_active (st_targets (so_store s2)) = [False, False, True]"
    by (simp add: watched_soar_def paused_store_def sample_target_def)
  with run rv show ?thesis by (intro exI conjI)
qed

definition sample_policy_update :: "int \<Rightarrow> ContainmentPolicyUpdate" where
  "sample_policy_update v =
     \<lparr>pu_auto_containment_enabled = True, pu_auto_blacklist_enabled = True, pu_auto_quarantine_enabled = True,
      pu_auto_incident_binding_enabled = False, pu_containment_min_severity = ''HIGH'',
      pu_blacklist_ttl_seconds = 3600, pu_policy_version = v\<rparr>"

lemma sample_policy_accepted:
  "(case fst (update_policy sample_services (sample_env 5) 1 (sample_policy_update 1) 1 empty_soar) of
      Inl err \<Rightarrow> False | Inr p \<Rightarrow> True)"
  by code_simp

theorem policy_optimistic_lock_witness:
  "\<exists>p s1. update_policy sample_services (sample_env 5) 1 (sample_policy_update 1) 1 empty_soar = (Inr p, s1) \<and>
     cp_policy_version p = 2 \<and>
     update_policy sample_services (sample_env 6) 1 (sample_policy_update 1) 3 s1 = (Inl HTTP_409_CONFLICT, s1)"
proof -
  obtain p s1 where u: "update_policy sample_services (sample_env 5) 1 (sample_policy_update 1) 1 empty_soar = (Inr p, s1)"
    using sample_policy_accepted
    by (cases "update_policy sample_services (sample_env 5) 1 (sample_policy_update 1) 1 empty_soar") (auto split: sum.splits)
  show ?thesis
    using policy_optimistic_lock [OF soar_ok_empty sample_respectful(1) u refl, of sample_services "sample_env 6" 3] u
    by (intro exI [of _ p] exI [of _ s1]) (simp add: sample_policy_update_def)
qed

definition redis_services :: services where
  "redis_services = sample_services\<lparr>sw_redis := True, sw_redis_up := True\<rparr>"

definition five_leases :: soar where
  "five_leases = fold (lease_step redis_services) (replicate 5 (Acquire (sample_env 10) 1)) empty_soar"

lemma five_leases_full:
  "fst (acquire_tenant_concurrency_lease redis_services (sample_env 20) 1 five_leases) = Inl HTTP_429_TOO_MANY"
  by code_simp

theorem playbook_leases_bounded_witness:
  "length (filter (\<lambda>(u, k, x). u = 1 \<and> 20 - x < seconds 60) (so_leases five_leases)) = 5"
proof -
  have "sw_redis redis_services" "sw_redis_up redis_services" by (simp_all add: redis_services_def)
  from playbook_leases_bounded [OF this five_leases_def, of 1 "sample_env 20" HTTP_429_TOO_MANY] five_leases_full
  show ?thesis by simp
qed

definition sample_critical_alert :: alert where
  "sample_critical_alert =
     \<lparr>al_id = 4, al_uuid = ''au'', al_title = ''t'', al_description = None, al_severity = ''CRITICAL'',
      al_status = ''OPEN'', al_rule_name = ''r'', al_indicator_type = ''url'', al_indicator_value = ''http://evil.com/x'',
      al_fingerprint = None, al_occurrence_count = 1, al_first_seen_at = 0, al_last_seen_at = 0,
      al_acknowledged_at = None, al_resolved_at = None, al_dismissed_at = None, al_dismiss_reason = None,
      al_triage_notes = None, al_user_id = Some 1, al_incident_id = None\<rparr>"

theorem containment_off_by_default_witness:
  "fst (evaluate_alert_containment sample_services (sample_env 5) sample_critical_alert watched_soar) = Inr None"
proof -
  obtain res s' where r: "evaluate_alert_containment sample_services (sample_env 5) sample_critical_alert watched_soar = (res, s')"
    by fastforce
  have "al_user_id sample_critical_alert = Some 1" "policy_of 1 watched_soar = None"
    by (simp_all add: sample_critical_alert_def policy_of_def watched_soar_def empty_soar_def)
  then show ?thesis
    using containment_off_by_default [of sample_services watched_soar 1, OF _ _ _ r] r by simp
qed

theorem containment_isolated_witness:
  "filter (\<lambda>g. tg_user_id g = 1) (st_targets (so_store (fold calm_soar
     [(sample_services, sample_env 5, Execute (quarantine_request\<lparr>aq_tenant_id := 2\<rparr>))] watched_soar))) =
   st_targets paused_store"
proof -
  let ?xs = "[(sample_services, sample_env 5, Execute (quarantine_request\<lparr>aq_tenant_id := 2\<rparr>))]"
  have act: "\<exists>v. soar_actor x = Some v \<and> v \<noteq> 1" if "x \<in> set ?xs" for x
    using that by (auto simp: soar_actor_def)
  have "filter (\<lambda>g. tg_user_id g = 1) (st_targets (so_store watched_soar)) = st_targets paused_store"
    by (simp add: watched_soar_def paused_store_def sample_target_def)
  from trans [OF containment_isolated [OF watched_soar_ok(2) act] this] show ?thesis .
qed

definition google_target :: target where
  "google_target = (sample_target 7 5)\<lparr>tg_uuid := ''9f0c1d2e'', tg_normalized_domain := ''google.com''\<rparr>"

definition google_soar :: soar where
  "google_soar = empty_soar\<lparr>so_store := empty_store\<lparr>st_targets := [google_target]\<rparr>\<rparr>"

lemma google_whitelisted: "is_whitelisted ''google.com''" "\<not> is_whitelisted ''9f0c1d2e''"
  by code_simp+

theorem quarantine_ignores_allowlist_witness:
  "map tg_is_active (st_targets (so_store (snd (execute_action sample_services (sample_env 5)
     ((action_of_playbook (quarantine_playbook 1 google_target sample_critical_alert)
        (new_run (sample_env 5) (quarantine_playbook 1 google_target sample_critical_alert) 1))
        \<lparr>aq_action_type := QUARANTINE_TARGET\<rparr>) google_soar)))) = [False] \<and>
   is_whitelisted (tg_normalized_domain google_target)"
proof -
  let ?q = "(action_of_playbook (quarantine_playbook 1 google_target sample_critical_alert)
        (new_run (sample_env 5) (quarantine_playbook 1 google_target sample_critical_alert) 1))
        \<lparr>aq_action_type := QUARANTINE_TARGET\<rparr>"
  have g: "named_targets 1 (tg_uuid google_target) (so_store google_soar) = [google_target]" "tg_is_active google_target"
    "\<not> is_whitelisted (tg_uuid google_target)" "is_whitelisted (tg_normalized_domain google_target)"
    by (simp_all add: google_soar_def google_target_def named_targets_def google_whitelisted sample_target_def)
  have none: "action_of_key (action_key ?q) google_soar = None"
    by (simp add: google_soar_def empty_soar_def action_of_key_def)
  obtain c s' where run: "execute_action (calm sample_services) (sample_env 5) ?q google_soar = (c, s')" by fastforce
  show ?thesis
    using quarantine_ignores_allowlist [OF g refl none run] run g(4)
    by (simp add: google_soar_def upd_rows_Cons quarantine_target_def)
qed

end
