(* ===== verification/Preferences.thy ===== *)
theory Preferences
  imports Notifications IpText Samples Base64
begin

text \<open>
  The rest of \<open>backend/services/notification_service.py\<close>: encryption of webhook secrets in a
  versioned envelope, the signature of a webhook body, and the reading and updating of a user's
  notification preferences, with the validators of \<open>backend/schemas/notification.py\<close>.  Key
  derivation, AES-GCM and HMAC are third-party primitives and stay parameters (\<open>vault\<close>).
\<close>

subsection \<open>Secrets\<close>

text \<open>
  The configured keys and the primitives: PBKDF2 with 600000 rounds from a key text and a salt,
  AES-GCM with key, nonce and data (opening fails on a wrong tag), and the HMAC-SHA256 digest
  in hexadecimal.
\<close>

record vault =
  va_env_key :: "string option"
  va_settings_key :: "string option"
  va_secret_key :: string
  va_pbkdf2 :: "bytes \<Rightarrow> bytes \<Rightarrow> bytes"
  va_seal :: "bytes \<Rightarrow> bytes \<Rightarrow> bytes \<Rightarrow> bytes"
  va_open :: "bytes \<Rightarrow> bytes \<Rightarrow> bytes \<Rightarrow> bytes option"
  va_hmac :: "bytes \<Rightarrow> bytes \<Rightarrow> string"

datatype secret_error =
    EmptySecret \<comment> \<open>\<open>ValueError\<close>\<close>
  | WeakRootKey \<comment> \<open>\<open>ValueError\<close>\<close>
  | DecryptionError

definition get_root_encryption_key :: "vault \<Rightarrow> secret_error + string" where
  "get_root_encryption_key v =
     (let k = str_or (va_env_key v) (str_or (va_settings_key v) (Some (va_secret_key v)))
      in case k of
           None \<Rightarrow> Inl WeakRootKey
         | Some k1 \<Rightarrow> if k1 = [] \<or> length (utf8_encode k1) < 32 then Inl WeakRootKey else Inr k1)"

definition encrypt_webhook_secret :: "vault \<Rightarrow> bytes \<Rightarrow> bytes \<Rightarrow> string \<Rightarrow> secret_error + string" where
  "encrypt_webhook_secret v salt nonce plaintext =
     (if plaintext = [] then Inl EmptySecret
      else case get_root_encryption_key v of
        Inl err \<Rightarrow> Inl err
      | Inr rk \<Rightarrow>
          let key = va_pbkdf2 v (utf8_encode rk) salt;
              ct = va_seal v key nonce (utf8_encode plaintext)
          in Inr (''v1$'' @ b64encode salt @ ''$'' @ b64encode nonce @ ''$'' @ b64encode ct))"

definition open_envelope :: "vault \<Rightarrow> bytes \<Rightarrow> bytes \<Rightarrow> bytes \<Rightarrow> secret_error + string" where
  "open_envelope v salt nonce ct =
     (case get_root_encryption_key v of
        Inl err \<Rightarrow> Inl err
      | Inr rk \<Rightarrow>
          (case va_open v (va_pbkdf2 v (utf8_encode rk) salt) nonce ct of
             None \<Rightarrow> Inl DecryptionError
           | Some plain \<Rightarrow>
               (case utf8_decode plain of None \<Rightarrow> Inl DecryptionError | Some s \<Rightarrow> Inr s)))"

definition decrypt_webhook_secret :: "vault \<Rightarrow> string \<Rightarrow> secret_error + string" where
  "decrypt_webhook_secret v envelope =
     (if \<not> starts_with ''v1$'' envelope then Inl DecryptionError
      else case split_on (CHR ''$'') envelope of
        [_, s, n, c] \<Rightarrow>
          (case (b64decode s, b64decode n, b64decode c) of
             (Some salt, Some nonce, Some ct) \<Rightarrow> open_envelope v salt nonce ct
           | _ \<Rightarrow> Inl DecryptionError)
      | _ \<Rightarrow> Inl DecryptionError)"

definition get_secret_preview :: "string \<Rightarrow> string option" where
  "get_secret_preview secret =
     (if secret = [] then None
      else let trimmed = str_strip secret
           in Some (''wh_sec_...'' @ (if 4 \<le> length trimmed then drop (length trimmed - 4) trimmed else trimmed)))"

subsection \<open>Signatures\<close>

definition show_epoch :: "int \<Rightarrow> string" where
  "show_epoch t = (if t < 0 then ''-'' @ show_nat (nat (- t)) else show_nat (nat t))"

definition compute_hmac_signature :: "vault \<Rightarrow> string \<Rightarrow> int \<Rightarrow> bytes \<Rightarrow> string" where
  "compute_hmac_signature v secret timestamp body =
     va_hmac v (utf8_encode secret) (utf8_encode (show_epoch timestamp @ ''.'') @ body)"

definition verify_hmac_signature :: "vault \<Rightarrow> time \<Rightarrow> string \<Rightarrow> int \<Rightarrow> bytes \<Rightarrow> string \<Rightarrow> time \<Rightarrow> bool" where
  \<comment> \<open>for a numeric timestamp; the last argument is \<open>tolerance_seconds\<close>\<close>
  "verify_hmac_signature v clock secret timestamp body provided tolerance =
     (if \<bar>clock - seconds timestamp\<bar> > tolerance then False
      else str_strip provided = compute_hmac_signature v secret timestamp body)"

subsection \<open>The update request\<close>

record NotificationPreferenceUpdate =
  npu_in_app_enabled :: "bool option"
  npu_email_enabled :: "bool option"
  npu_webhook_enabled :: "bool option"
  npu_webhook_url :: "string option"
  npu_webhook_secret :: "string option"
  npu_rotate_secret :: "bool option"
  npu_clear_webhook_secret :: "bool option"
  npu_min_severity :: "string option"

definition VALID_SEVERITIES :: "string list" where
  "VALID_SEVERITIES = [''INFO'', ''LOW'', ''MEDIUM'', ''HIGH'', ''CRITICAL'']"

text \<open>The validators: \<open>None\<close> is the validation error, \<open>Some v\<close> the value of the field.\<close>

definition validate_webhook_secret :: "string option \<Rightarrow> string option option" where
  "validate_webhook_secret v =
     (case v of
        None \<Rightarrow> Some None
      | Some s \<Rightarrow>
          let t = str_strip s
          in if t = [] then Some None
             else if length t < 32 then None
             else if length (remdups t) < 2 then None
             else Some (Some t))"

definition validate_min_severity :: "string option \<Rightarrow> string option option" where
  "validate_min_severity v =
     (case v of
        None \<Rightarrow> Some None
      | Some s \<Rightarrow>
          let t = str_strip (str_upper s) in if t \<in> set VALID_SEVERITIES then Some (Some t) else None)"

definition validate_webhook_url :: "string option \<Rightarrow> string option option" where
  "validate_webhook_url v =
     (case v of
        None \<Rightarrow> Some None
      | Some s \<Rightarrow>
          let t = str_strip s
          in if t = [] then Some None
             else if starts_with ''http://'' t \<or> starts_with ''https://'' t then Some (Some t) else None)"

definition validate_update :: "NotificationPreferenceUpdate \<Rightarrow> NotificationPreferenceUpdate option" where
  "validate_update d =
     do {
       secret \<leftarrow> validate_webhook_secret (npu_webhook_secret d);
       sev \<leftarrow> validate_min_severity (npu_min_severity d);
       url \<leftarrow> validate_webhook_url (npu_webhook_url d);
       Some (d\<lparr>npu_webhook_secret := secret, npu_min_severity := sev, npu_webhook_url := url\<rparr>)
     }"

subsection \<open>Preferences\<close>

record preference_response =
  pp_in_app_enabled :: bool
  pp_email_enabled :: bool
  pp_webhook_enabled :: bool
  pp_webhook_url :: "string option"
  pp_has_webhook_secret :: bool
  pp_webhook_secret_preview :: "string option"
  pp_min_severity :: string
  pp_circuit_broken :: bool
  pp_circuit_broken_at :: "time option"
  pp_updated_at :: time

definition stored_secret :: "pref \<Rightarrow> string option" where
  "stored_secret p = str_or (pf_encrypted_webhook_secret p) (pf_webhook_secret p)"

definition secret_preview :: "vault \<Rightarrow> string \<Rightarrow> string option" where
  "secret_preview v stored =
     (if starts_with ''v1$'' stored then
        (case decrypt_webhook_secret v stored of
           Inl err \<Rightarrow> Some ''wh_sec_...[encrypted]''
         | Inr s \<Rightarrow> get_secret_preview s)
      else get_secret_preview stored)"

definition preference_view :: "vault \<Rightarrow> pref \<Rightarrow> preference_response" where
  "preference_view v p =
     \<lparr>pp_in_app_enabled = pf_in_app_enabled p, pp_email_enabled = pf_email_enabled p,
      pp_webhook_enabled = pf_webhook_enabled p, pp_webhook_url = pf_webhook_url p,
      pp_has_webhook_secret = truthy_str (stored_secret p),
      pp_webhook_secret_preview =
        (if truthy_str (stored_secret p) then secret_preview v (the (stored_secret p)) else None),
      pp_min_severity = pf_min_severity p, pp_circuit_broken = pf_circuit_broken p,
      pp_circuit_broken_at = pf_circuit_broken_at p, pp_updated_at = pf_updated_at p\<rparr>"

definition get_preferences :: "vault \<Rightarrow> env \<Rightarrow> user \<Rightarrow> store \<Rightarrow> preference_response \<times> store" where
  "get_preferences v e u s =
     (let (p, s1) = get_or_create_preferences e (usr_id u) s in (preference_view v p, s1))"

datatype pref_error =
    SecretRefused secret_error
  | UrlRefused ssrf_error
  | UrlMissing

text \<open>The random bytes one update draws: salt and nonce of an envelope, and a generated secret.\<close>

record entropy =
  en_salt :: bytes
  en_nonce :: bytes
  en_token :: string

definition assign :: "'a option \<Rightarrow> ('a \<Rightarrow> pref \<Rightarrow> pref) \<Rightarrow> pref \<Rightarrow> pref" where
  \<comment> \<open>\<open>if payload.x is not None: pref.x = payload.x\<close>\<close>
  "assign x f p = (case x of None \<Rightarrow> p | Some v \<Rightarrow> f v p)"

definition write_basics :: "NotificationPreferenceUpdate \<Rightarrow> pref \<Rightarrow> pref" where
  "write_basics d p =
     assign (npu_min_severity d) (\<lambda>v. pf_min_severity_update (\<lambda>_. v))
       (assign (npu_email_enabled d) (\<lambda>v. pf_email_enabled_update (\<lambda>_. v))
         (assign (npu_in_app_enabled d) (\<lambda>v. pf_in_app_enabled_update (\<lambda>_. v)) p))"

definition store_secret :: "vault \<Rightarrow> entropy \<Rightarrow> string \<Rightarrow> pref \<Rightarrow> pref_error + pref" where
  "store_secret v en secret p =
     (case encrypt_webhook_secret v (en_salt en) (en_nonce en) secret of
        Inl err \<Rightarrow> Inl (SecretRefused err)
      | Inr c \<Rightarrow> Inr (p\<lparr>pf_webhook_secret := Some c, pf_encrypted_webhook_secret := Some c\<rparr>))"

definition write_secret :: "vault \<Rightarrow> entropy \<Rightarrow> NotificationPreferenceUpdate \<Rightarrow> pref \<Rightarrow> pref_error + pref" where
  "write_secret v en d p =
     (if npu_clear_webhook_secret d = Some True then
        Inr (p\<lparr>pf_webhook_secret := None, pf_encrypted_webhook_secret := None, pf_webhook_enabled := False\<rparr>)
      else if npu_rotate_secret d = Some True then store_secret v en (en_token en) p
      else case npu_webhook_secret d of None \<Rightarrow> Inr p | Some secret \<Rightarrow> store_secret v en secret p)"

definition check_webhook_url :: "(string \<Rightarrow> string list option) \<Rightarrow> string \<Rightarrow> ssrf_error + string list" where
  "check_webhook_url dns url =
     (case validate_target_url url of
        Inl err \<Rightarrow> Inl err
      | Inr (scheme, host, port, path) \<Rightarrow> resolve_and_validate_host dns host)"

definition write_url :: "(string \<Rightarrow> string list option) \<Rightarrow> NotificationPreferenceUpdate \<Rightarrow> pref \<Rightarrow> pref_error + pref" where
  "write_url dns d p =
     (case npu_webhook_url d of
        None \<Rightarrow> Inr p
      | Some raw \<Rightarrow>
          let url = str_strip raw
          in if url \<noteq> [] then
               (case check_webhook_url dns url of
                  Inl err \<Rightarrow> Inl (UrlRefused err)
                | Inr ips \<Rightarrow> Inr (p\<lparr>pf_webhook_url := Some url\<rparr>))
             else Inr (p\<lparr>pf_webhook_url := None, pf_webhook_enabled := False\<rparr>))"

definition write_enabled :: "NotificationPreferenceUpdate \<Rightarrow> pref \<Rightarrow> pref_error + pref" where
  "write_enabled d p =
     (case npu_webhook_enabled d of
        None \<Rightarrow> Inr p
      | Some True \<Rightarrow>
          if \<not> truthy_str (pf_webhook_url p) then Inl UrlMissing
          else Inr (p\<lparr>pf_webhook_enabled := True, pf_circuit_broken := False, pf_consecutive_failures := 0,
                     pf_circuit_broken_at := None\<rparr>)
      | Some False \<Rightarrow> Inr (p\<lparr>pf_webhook_enabled := False\<rparr>))"

definition preference_audit :: "env \<Rightarrow> nat \<Rightarrow> string option \<Rightarrow> pref \<Rightarrow> audit" where
  "preference_audit e uid ip p =
     \<lparr>au_id = 0, au_uuid = uuids e 0, au_action = ''NOTIFICATION_PREFERENCES_UPDATED'',
      au_actor_user_id = Some uid, au_target_resource = ''notification_preferences'',
      au_resource_id = show_nat (pf_id p),
      au_details = [(''in_app_enabled'', JBool (pf_in_app_enabled p)),
        (''webhook_enabled'', JBool (pf_webhook_enabled p)),
        (''has_webhook_url'', JBool (truthy_str (pf_webhook_url p))),
        (''has_webhook_secret'', JBool (truthy_str (pf_webhook_secret p))),
        (''min_severity'', JStr (pf_min_severity p)), (''circuit_broken'', JBool (pf_circuit_broken p))],
      au_ip_address = ip, au_created_at = now e\<rparr>"

definition written_pref ::
  "vault \<Rightarrow> (string \<Rightarrow> string list option) \<Rightarrow> env \<Rightarrow> entropy \<Rightarrow> NotificationPreferenceUpdate \<Rightarrow> pref \<Rightarrow>
   pref_error + pref" where
  "written_pref v dns e en d p =
     (case write_secret v en d (write_basics d p) of
        Inl err \<Rightarrow> Inl err
      | Inr p1 \<Rightarrow>
          (case write_url dns d p1 of
             Inl err \<Rightarrow> Inl err
           | Inr p2 \<Rightarrow>
               (case write_enabled d p2 of
                  Inl err \<Rightarrow> Inl err
                | Inr p3 \<Rightarrow> Inr (p3\<lparr>pf_updated_at := now e\<rparr>))))"

definition update_preferences ::
  "vault \<Rightarrow> (string \<Rightarrow> string list option) \<Rightarrow> env \<Rightarrow> entropy \<Rightarrow> user \<Rightarrow> NotificationPreferenceUpdate \<Rightarrow>
   string option \<Rightarrow> store \<Rightarrow> (pref_error + preference_response) \<times> store" where
  \<comment> \<open>an error leaves nothing but the committed default row\<close>
  "update_preferences v dns e en u d ip s =
     (let (p, s1) = get_or_create_preferences e (usr_id u) s
      in case written_pref v dns e en d p of
           Inl err \<Rightarrow> (Inl err, s1)
         | Inr p' \<Rightarrow>
             let s2 = add_audit (preference_audit e (usr_id u) ip p') (set_pref (pf_id p) (\<lambda>_. p') s1);
                 (r, s3) = get_preferences v e u s2
             in (Inr r, s3))"

subsection \<open>Envelopes\<close>

lemma split_on_sep: "c \<notin> set p \<Longrightarrow> split_on c (p @ c # s) = p # split_on c s"
  by (induction p) (auto split: list.splits)

lemma split_on_last: "c \<notin> set p \<Longrightarrow> split_on c p = [p]"
  by (induction p) auto

lemma envelope_parts:
  "split_on (CHR ''$'') (''v1$'' @ b64encode s @ ''$'' @ b64encode n @ ''$'' @ b64encode c) =
   [''v1'', b64encode s, b64encode n, b64encode c]"
  using split_on_sep [of "CHR ''$''" "''v1''"] b64encode_no_dollar
  by (simp add: split_on_sep split_on_last)

text \<open>What the code relies on of AES-GCM: opening a sealed text with the same key and nonce gives it back.\<close>

definition authentic :: "vault \<Rightarrow> bool" where
  "authentic v \<longleftrightarrow> (\<forall>k n m. va_open v k n (va_seal v k n m) = Some m)"

lemma encrypt_form:
  assumes "encrypt_webhook_secret v salt nonce s = Inr c"
  shows "\<exists>rk. get_root_encryption_key v = Inr rk \<and>
    c = ''v1$'' @ b64encode salt @ ''$'' @ b64encode nonce @ ''$'' @
      b64encode (va_seal v (va_pbkdf2 v (utf8_encode rk) salt) nonce (utf8_encode s))"
  using assms unfolding encrypt_webhook_secret_def Let_def by (auto split: if_splits sum.splits)

lemma decrypt_envelope:
  "decrypt_webhook_secret v (''v1$'' @ b64encode s @ ''$'' @ b64encode n @ ''$'' @ b64encode c) =
   open_envelope v s n c"
  unfolding decrypt_webhook_secret_def envelope_parts by (simp add: b64_roundtrip)

lemma encrypt_opens:
  assumes "authentic v" "ascii s" "encrypt_webhook_secret v salt nonce s = Inr c"
  shows "decrypt_webhook_secret v c = Inr s" "starts_with ''v1$'' c" "c \<noteq> []"
proof -
  obtain rk where rk: "get_root_encryption_key v = Inr rk"
    and c: "c = ''v1$'' @ b64encode salt @ ''$'' @ b64encode nonce @ ''$'' @
      b64encode (va_seal v (va_pbkdf2 v (utf8_encode rk) salt) nonce (utf8_encode s))"
    using encrypt_form [OF assms(3)] by blast
  show "decrypt_webhook_secret v c = Inr s"
    unfolding c decrypt_envelope open_envelope_def rk
    using assms(1) by (simp add: authentic_def utf8_roundtrip [OF assms(2)])
  show "starts_with ''v1$'' c" "c \<noteq> []" unfolding c by simp_all
qed

subsection \<open>Updates\<close>

lemma pref_of_set:
  assumes "pref_of uid s = Some p" "pf_user_id q = uid"
  shows "pref_of uid (set_pref (pf_id p) (\<lambda>_. q) s) = Some q"
proof -
  have "first_row (filter (\<lambda>x. pf_user_id x = uid) (upd_rows (\<lambda>x. pf_id x = pf_id p) (\<lambda>_. q) rs)) = Some q"
    if "first_row (filter (\<lambda>x. pf_user_id x = uid) rs) = Some p" for rs
    using that assms(2) by (induction rs) (auto simp: first_row_def upd_rows_Cons split: if_splits)
  then show ?thesis using assms(1) by (simp add: pref_of_def set_pref_def)
qed

lemma get_or_create_pref_of:
  "get_or_create_preferences e uid s = (p, s1) \<Longrightarrow> pref_of uid s1 = Some p \<and> pf_user_id p = uid"
  by (auto simp: get_or_create_preferences_def Let_def default_pref_def add_pref_def pref_of_def first_row_def
      filter_empty_conv split: option.splits list.splits)
    (auto dest!: filter_eq_ConsD)

lemma write_basics_ids [simp]:
  "pf_id (write_basics d p) = pf_id p" "pf_user_id (write_basics d p) = pf_user_id p"
  by (simp_all add: write_basics_def assign_def split: option.splits)

lemma write_secret_ids:
  "write_secret v en d p = Inr q \<Longrightarrow> pf_id q = pf_id p \<and> pf_user_id q = pf_user_id p"
  by (auto simp: write_secret_def store_secret_def split: if_splits sum.splits option.splits)

lemma write_url_ids: "write_url dns d p = Inr q \<Longrightarrow> pf_id q = pf_id p \<and> pf_user_id q = pf_user_id p"
  by (auto simp: write_url_def Let_def split: if_splits sum.splits option.splits)

lemma write_enabled_ids: "write_enabled d p = Inr q \<Longrightarrow> pf_id q = pf_id p \<and> pf_user_id q = pf_user_id p"
  by (auto simp: write_enabled_def split: if_splits option.splits bool.splits)

lemma written_pref_steps:
  assumes "written_pref v dns e en d p = Inr q"
  shows "\<exists>p1 p2 p3. write_secret v en d (write_basics d p) = Inr p1 \<and> write_url dns d p1 = Inr p2 \<and>
    write_enabled d p2 = Inr p3 \<and> q = p3\<lparr>pf_updated_at := now e\<rparr>"
  using assms by (auto simp: written_pref_def split: sum.splits)

lemma written_pref_ids:
  assumes "written_pref v dns e en d p = Inr q"
  shows "pf_id q = pf_id p" "pf_user_id q = pf_user_id p"
  using written_pref_steps [OF assms]
  by (auto dest!: write_secret_ids write_url_ids write_enabled_ids)

text \<open>An accepted update answers with the view of the row it wrote.\<close>

lemma update_preferences_cases:
  assumes "get_or_create_preferences e (usr_id u) s = (p, s1)"
  shows "update_preferences v dns e en u d ip s =
    (case written_pref v dns e en d p of
       Inl err \<Rightarrow> (Inl err, s1)
     | Inr q \<Rightarrow> (Inr (preference_view v q),
         add_audit (preference_audit e (usr_id u) ip q) (set_pref (pf_id p) (\<lambda>_. q) s1)))"
proof (cases "written_pref v dns e en d p")
  case (Inl err)
  then show ?thesis by (simp add: update_preferences_def assms)
next
  case (Inr q)
  have p: "pref_of (usr_id u) s1 = Some p" "pf_user_id p = usr_id u"
    using get_or_create_pref_of [OF assms] by simp_all
  have "pf_user_id q = usr_id u" using written_pref_ids [OF Inr] p(2) by simp
  from pref_of_set [OF p(1) this]
  have "pref_of (usr_id u) (add_audit (preference_audit e (usr_id u) ip q) (set_pref (pf_id p) (\<lambda>_. q) s1)) = Some q"
    by (simp add: pref_of_def add_audit_def)
  then have "get_or_create_preferences e (usr_id u)
      (add_audit (preference_audit e (usr_id u) ip q) (set_pref (pf_id p) (\<lambda>_. q) s1)) =
    (q, add_audit (preference_audit e (usr_id u) ip q) (set_pref (pf_id p) (\<lambda>_. q) s1))"
    by (simp add: get_or_create_preferences_def)
  then show ?thesis
    by (simp add: update_preferences_def assms Inr get_preferences_def)
qed

definition with_secret :: "string \<Rightarrow> pref \<Rightarrow> pref" where
  "with_secret c p = p\<lparr>pf_webhook_secret := Some c, pf_encrypted_webhook_secret := Some c\<rparr>"

lemma with_secret_simps [simp]:
  "pf_webhook_enabled (with_secret c p) = pf_webhook_enabled p" "pf_webhook_url (with_secret c p) = pf_webhook_url p"
  "with_secret c p\<lparr>pf_webhook_url := x\<rparr> = with_secret c (p\<lparr>pf_webhook_url := x\<rparr>)"
  "with_secret c p\<lparr>pf_webhook_enabled := b\<rparr> = with_secret c (p\<lparr>pf_webhook_enabled := b\<rparr>)"
  "with_secret c p\<lparr>pf_circuit_broken := b\<rparr> = with_secret c (p\<lparr>pf_circuit_broken := b\<rparr>)"
  "with_secret c p\<lparr>pf_consecutive_failures := n\<rparr> = with_secret c (p\<lparr>pf_consecutive_failures := n\<rparr>)"
  "with_secret c p\<lparr>pf_circuit_broken_at := t\<rparr> = with_secret c (p\<lparr>pf_circuit_broken_at := t\<rparr>)"
  "with_secret c p\<lparr>pf_updated_at := w\<rparr> = with_secret c (p\<lparr>pf_updated_at := w\<rparr>)"
  by (simp_all add: with_secret_def)

lemma with_secret_again: "with_secret c (with_secret c' p) = with_secret c p"
  by (simp add: with_secret_def)

lemma write_url_secret:
  "write_url dns d (with_secret c p) = map_sum id (with_secret c) (write_url dns d p)"
  by (simp add: write_url_def Let_def split: option.split sum.split)

lemma write_enabled_secret:
  "write_enabled d (with_secret c p) = map_sum id (with_secret c) (write_enabled d p)"
  by (simp add: write_enabled_def split: option.split bool.split)

text \<open>A rotation puts the envelope of the generated secret into the row and otherwise depends on it nowhere.\<close>

lemma rotation_writes:
  assumes "npu_rotate_secret d = Some True" "npu_clear_webhook_secret d \<noteq> Some True"
    and "encrypt_webhook_secret v (en_salt en) (en_nonce en) (en_token en) = Inr c"
  shows "written_pref v dns e en d p =
    (case write_url dns d (write_basics d p) of
       Inl err \<Rightarrow> Inl err
     | Inr p2 \<Rightarrow> map_sum id (\<lambda>p3. with_secret c (p3\<lparr>pf_updated_at := now e\<rparr>)) (write_enabled d p2))"
proof -
  have "write_secret v en d (write_basics d p) = Inr (with_secret c (write_basics d p))"
    using assms by (simp add: write_secret_def store_secret_def with_secret_def)
  moreover have "(case map_sum id (with_secret c) r of Inl err \<Rightarrow> Inl err
      | Inr p3 \<Rightarrow> Inr (p3\<lparr>pf_updated_at := now e\<rparr>)) =
    map_sum id (\<lambda>p3. with_secret c (p3\<lparr>pf_updated_at := now e\<rparr>)) r" for r :: "pref_error + pref"
    by (cases r) simp_all
  ultimately show ?thesis
    by (cases "write_url dns d (write_basics d p)") (simp_all add: written_pref_def write_url_secret write_enabled_secret)
qed

lemma preference_view_secret:
  assumes "authentic v" "ascii t" "encrypt_webhook_secret v salt nonce t = Inr c"
  shows "preference_view v (with_secret c p) =
    (preference_view v p)\<lparr>pp_has_webhook_secret := True, pp_webhook_secret_preview := get_secret_preview t\<rparr>"
  using encrypt_opens [OF assms]
  by (simp add: preference_view_def with_secret_def stored_secret_def str_or_def secret_preview_def)

lemma preview_of_suffix:
  assumes "str_strip t = t" "str_strip t' = t'" "4 \<le> length t" "4 \<le> length t'"
    and "drop (length t - 4) t = drop (length t' - 4) t'"
  shows "get_secret_preview t = get_secret_preview t'"
  using assms by (auto simp: get_secret_preview_def Let_def)

lemma preference_audit_secret:
  "c \<noteq> [] \<Longrightarrow> c' \<noteq> [] \<Longrightarrow>
   preference_audit e uid ip (with_secret c p) = preference_audit e uid ip (with_secret c' p)"
  by (simp add: preference_audit_def with_secret_def)

subsection \<open>Properties\<close>

text \<open>
  The secret survives the envelope, and only authenticated text is accepted.  Encrypting a
  non-empty secret under a configured key gives an envelope that decrypts to it; and whatever
  text the column holds, decryption yields something only when it names a ciphertext that
  AES-GCM opens to exactly that.
\<close>

theorem webhook_secret_roundtrip:
  assumes "authentic v" "get_root_encryption_key v = Inr rk" "ascii s" "s \<noteq> []"
  shows "(\<exists>c. encrypt_webhook_secret v salt nonce s = Inr c \<and> decrypt_webhook_secret v c = Inr s) \<and>
    (\<forall>c t. decrypt_webhook_secret v c = Inr t \<longrightarrow>
      (\<exists>salt' nonce' ct. va_open v (va_pbkdf2 v (utf8_encode rk) salt') nonce' ct = Some (utf8_encode t)))"
proof (intro conjI allI impI)
  obtain c where "encrypt_webhook_secret v salt nonce s = Inr c"
    using assms by (simp add: encrypt_webhook_secret_def Let_def)
  with encrypt_opens(1) [OF assms(1,3) this]
  show "\<exists>c. encrypt_webhook_secret v salt nonce s = Inr c \<and> decrypt_webhook_secret v c = Inr s" by blast
next
  fix c t
  assume "decrypt_webhook_secret v c = Inr t"
  then obtain x y z where "open_envelope v x y z = Inr t"
    by (auto simp: decrypt_webhook_secret_def split: if_splits list.splits option.splits prod.splits)
  then have "va_open v (va_pbkdf2 v (utf8_encode rk) x) y z = Some (utf8_encode t)"
    by (auto simp: open_envelope_def assms(2) split: option.splits dest!: utf8_decode_Some)
  then show "\<exists>x y z. va_open v (va_pbkdf2 v (utf8_encode rk) x) y z = Some (utf8_encode t)" by blast
qed

text \<open>
  A rotated secret stays secret.  Two rotations that differ only in the generated secret, with
  the same last four characters, answer the same and leave the same audit trail, notifications and
  events: nothing but those four characters ever leaves the encrypted column.
\<close>

theorem rotation_hides_secret:
  assumes "authentic v" "npu_rotate_secret d = Some True" "npu_clear_webhook_secret d \<noteq> Some True"
    and t: "ascii (en_token en)" "str_strip (en_token en) = en_token en" "4 \<le> length (en_token en)"
    and t': "ascii t'" "str_strip t' = t'" "4 \<le> length t'"
    and suffix: "drop (length t' - 4) t' = drop (length (en_token en) - 4) (en_token en)"
    and run: "update_preferences v dns e en u d ip s = (r, s1)"
      "update_preferences v dns e (en\<lparr>en_token := t'\<rparr>) u d ip s = (r', s1')"
  shows "r' = r \<and> st_audits s1' = st_audits s1 \<and> s1'\<lparr>st_prefs := []\<rparr> = s1\<lparr>st_prefs := []\<rparr>"
proof -
  obtain p s0 where g: "get_or_create_preferences e (usr_id u) s = (p, s0)" by fastforce
  have ne: "en_token en \<noteq> []" "t' \<noteq> []" using t(3) t'(3) by auto
  show ?thesis
  proof (cases "get_root_encryption_key v")
    case (Inl err)
    then have "written_pref v dns e en' d p = Inl (SecretRefused err)"
      if "en_token en' \<noteq> []" for en' :: entropy
      using that assms(2,3) by (simp add: written_pref_def write_secret_def store_secret_def encrypt_webhook_secret_def)
    from this [of en] this [of "en\<lparr>en_token := t'\<rparr>"] show ?thesis
      using run ne by (simp add: update_preferences_cases [OF g])
  next
    case (Inr rk)
    obtain c c' where c: "encrypt_webhook_secret v (en_salt en) (en_nonce en) (en_token en) = Inr c"
      and c': "encrypt_webhook_secret v (en_salt en) (en_nonce en) t' = Inr c'"
      using ne Inr by (simp add: encrypt_webhook_secret_def Let_def)
    note w = rotation_writes [OF assms(2,3) c, of dns e p]
    have w': "written_pref v dns e (en\<lparr>en_token := t'\<rparr>) d p =
      (case write_url dns d (write_basics d p) of
         Inl err \<Rightarrow> Inl err
       | Inr p2 \<Rightarrow> map_sum id (\<lambda>p3. with_secret c' (p3\<lparr>pf_updated_at := now e\<rparr>)) (write_enabled d p2))"
      using rotation_writes [OF assms(2,3), of v "en\<lparr>en_token := t'\<rparr>" c' dns e p] c' by simp
    have "preference_view v (with_secret c' q) = preference_view v (with_secret c q)" for q
      using preview_of_suffix [OF t'(2) t(2) t'(3) t(3) suffix]
      by (simp add: preference_view_secret [OF assms(1) t'(1) c'] preference_view_secret [OF assms(1) t(1) c])
    moreover have "preference_audit e (usr_id u) ip (with_secret c' q) = preference_audit e (usr_id u) ip (with_secret c q)" for q
      using preference_audit_secret encrypt_opens(3) assms(1) t(1) t'(1) c c' by metis
    ultimately have "r' = r \<and> st_audits s1' = st_audits s1 \<and> s1'\<lparr>st_prefs := []\<rparr> = s1\<lparr>st_prefs := []\<rparr>"
      if "write_url dns d (write_basics d p) = Inr p2" for p2
      using run unfolding update_preferences_cases [OF g] w w' that
      by (cases "write_enabled d p2") (auto simp: add_audit_def set_pref_def)
    then show ?thesis
      using run unfolding update_preferences_cases [OF g] w w'
      by (cases "write_url dns d (write_basics d p)") auto
  qed
qed

text \<open>
  An accepted webhook URL was resolved to allowed addresses.  A request that enables a webhook
  is accepted only with an URL; a URL it sets was validated and every address of its host is
  outside the blocked networks; the enabled webhook starts with a closed circuit; and a refused
  request leaves the row as it was.
\<close>

theorem webhook_url_checked:
  assumes "update_preferences v dns e en u d ip s = (res, s')" "pref_of (usr_id u) s = Some p"
  shows "(\<forall>r. res = Inr r \<longrightarrow>
      (\<forall>raw. npu_webhook_url d = Some raw \<and> str_strip raw \<noteq> [] \<longrightarrow>
        (\<exists>scheme host port path ips. validate_target_url (str_strip raw) = Inr (scheme, host, port, path) \<and>
           resolve_and_validate_host dns host = Inr ips \<and> ips \<noteq> [] \<and> (\<forall>x\<in>set ips. \<not> is_blocked_ip x) \<and>
           pp_webhook_url r = Some (str_strip raw))) \<and>
      (npu_webhook_enabled d = Some True \<longrightarrow>
        pp_webhook_enabled r \<and> truthy_str (pp_webhook_url r) \<and> \<not> pp_circuit_broken r \<and>
        (\<exists>q. pref_of (usr_id u) s' = Some q \<and> pf_consecutive_failures q = 0 \<and> webhook_ready q))) \<and>
    (\<forall>err. res = Inl err \<longrightarrow> s' = s)"
proof (rule conjI; intro allI impI)
  have g: "get_or_create_preferences e (usr_id u) s = (p, s)"
    by (simp add: get_or_create_preferences_def assms(2))
  note run = assms(1) [unfolded update_preferences_cases [OF g]]
  have "s' = s" if "res = Inl err" for err using run that by (auto split: sum.splits)
  then show "res = Inl err \<Longrightarrow> s' = s" for err .
  fix r assume "res = Inr r"
  then obtain q where q: "written_pref v dns e en d p = Inr q" and r: "r = preference_view v q"
    and s': "s' = add_audit (preference_audit e (usr_id u) ip q) (set_pref (pf_id p) (\<lambda>_. q) s)"
    using run by (auto split: sum.splits)
  obtain p1 p2 p3 where w: "write_url dns d p1 = Inr p2" "write_enabled d p2 = Inr p3"
    "q = p3\<lparr>pf_updated_at := now e\<rparr>"
    using written_pref_steps [OF q] by blast
  have "pf_user_id q = usr_id u" using written_pref_ids [OF q] pref_of_Some [OF assms(2)] by simp
  then have look: "pref_of (usr_id u) s' = Some q"
    using pref_of_set [OF assms(2)] by (simp add: s' pref_of_def add_audit_def)
  have enabled: "pp_webhook_enabled r \<and> truthy_str (pp_webhook_url r) \<and> \<not> pp_circuit_broken r \<and>
      (\<exists>q. pref_of (usr_id u) s' = Some q \<and> pf_consecutive_failures q = 0 \<and> webhook_ready q)"
    if "npu_webhook_enabled d = Some True"
    using w(2) that look
    by (auto simp: write_enabled_def r preference_view_def w(3) webhook_ready_def split: if_splits)
  have url: "pf_webhook_url q = pf_webhook_url p2"
    using w(2) by (auto simp: write_enabled_def w(3) split: if_splits option.splits bool.splits)
  have checked: "\<exists>scheme host port path ips. validate_target_url (str_strip raw) = Inr (scheme, host, port, path) \<and>
      resolve_and_validate_host dns host = Inr ips \<and> ips \<noteq> [] \<and> (\<forall>x\<in>set ips. \<not> is_blocked_ip x) \<and>
      pp_webhook_url r = Some (str_strip raw)"
    if raw: "npu_webhook_url d = Some raw \<and> str_strip raw \<noteq> []" for raw
  proof -
    obtain ips where ips: "check_webhook_url dns (str_strip raw) = Inr ips" "pf_webhook_url p2 = Some (str_strip raw)"
      using w(1) raw by (auto simp: write_url_def Let_def split: sum.splits)
    then obtain scheme host port path where
      "validate_target_url (str_strip raw) = Inr (scheme, host, port, path)"
      "resolve_and_validate_host dns host = Inr ips"
      by (auto simp: check_webhook_url_def split: sum.splits prod.splits)
    with resolved_not_blocked [OF this(2)] ips(2) show ?thesis by (auto simp: r preference_view_def url)
  qed
  show "(\<forall>raw. npu_webhook_url d = Some raw \<and> str_strip raw \<noteq> [] \<longrightarrow>
        (\<exists>scheme host port path ips. validate_target_url (str_strip raw) = Inr (scheme, host, port, path) \<and>
           resolve_and_validate_host dns host = Inr ips \<and> ips \<noteq> [] \<and> (\<forall>x\<in>set ips. \<not> is_blocked_ip x) \<and>
           pp_webhook_url r = Some (str_strip raw))) \<and>
      (npu_webhook_enabled d = Some True \<longrightarrow>
        pp_webhook_enabled r \<and> truthy_str (pp_webhook_url r) \<and> \<not> pp_circuit_broken r \<and>
        (\<exists>q. pref_of (usr_id u) s' = Some q \<and> pf_consecutive_failures q = 0 \<and> webhook_ready q))"
    by (rule conjI; intro allI impI; rule checked enabled)
qed

subsection \<open>Witnesses\<close>

definition sample_vault :: vault where
  \<comment> \<open>an authenticated sealing that keeps key and nonce in front of the text\<close>
  "sample_vault =
     \<lparr>va_env_key = None, va_settings_key = None, va_secret_key = ''0123456789abcdef0123456789abcdef'',
      va_pbkdf2 = (\<lambda>k s. s @ k), va_seal = (\<lambda>k n m. k @ n @ m),
      va_open = (\<lambda>k n c. if take (length (k @ n)) c = k @ n then Some (drop (length (k @ n)) c) else None),
      va_hmac = (\<lambda>k m. ''c0ffee'')\<rparr>"

lemma sample_vault_authentic: "authentic sample_vault"
  by (simp add: authentic_def sample_vault_def)

lemma sample_root_key: "get_root_encryption_key sample_vault = Inr ''0123456789abcdef0123456789abcdef''"
  by (simp add: get_root_encryption_key_def sample_vault_def str_or_def utf8_encode_def)

theorem webhook_secret_roundtrip_witness:
  "\<exists>c. encrypt_webhook_secret sample_vault [1, 2, 3] [4] ''open sesame'' = Inr c \<and>
     decrypt_webhook_secret sample_vault c = Inr ''open sesame''"
proof -
  have "ascii ''open sesame''" by (simp add: ascii_def)
  from webhook_secret_roundtrip [OF sample_vault_authentic sample_root_key this, of "[1, 2, 3]" "[4]"]
  show ?thesis by blast
qed

definition rotate_request :: NotificationPreferenceUpdate where
  "rotate_request =
     \<lparr>npu_in_app_enabled = None, npu_email_enabled = None, npu_webhook_enabled = Some True,
      npu_webhook_url = Some '' http://good.com/hook '', npu_webhook_secret = None, npu_rotate_secret = Some True,
      npu_clear_webhook_secret = None, npu_min_severity = Some ''LOW''\<rparr>"

definition sample_entropy :: entropy where
  "sample_entropy = \<lparr>en_salt = [7], en_nonce = [9], en_token = ''aaaa0001''\<rparr>"

lemma rotation_hides_secret_witness:
  "fst (update_preferences sample_vault sample_dns (sample_env 5) (sample_entropy\<lparr>en_token := ''bbbb0001''\<rparr>) alice
      rotate_request None empty_store) =
   fst (update_preferences sample_vault sample_dns (sample_env 5) sample_entropy alice rotate_request None empty_store)"
proof -
  have d: "npu_rotate_secret rotate_request = Some True" "npu_clear_webhook_secret rotate_request \<noteq> Some True"
    by (simp_all add: rotate_request_def)
  have t: "ascii (en_token sample_entropy)" "str_strip (en_token sample_entropy) = en_token sample_entropy"
    "4 \<le> length (en_token sample_entropy)" "ascii ''bbbb0001''" "str_strip ''bbbb0001'' = ''bbbb0001''"
    "4 \<le> length ''bbbb0001''"
    "drop (length ''bbbb0001'' - 4) ''bbbb0001'' = drop (length (en_token sample_entropy) - 4) (en_token sample_entropy)"
    by (simp_all add: sample_entropy_def ascii_def str_strip_def is_space_def)
  from rotation_hides_secret [OF sample_vault_authentic d t prod.collapse [symmetric] prod.collapse [symmetric]]
  show ?thesis by blast
qed

definition hooked_pref :: pref where
  "hooked_pref = (default_pref (sample_env 1) 1)\<lparr>pf_id := 1, pf_circuit_broken := True, pf_consecutive_failures := 5\<rparr>"

definition hooked_store :: store where
  "hooked_store = empty_store\<lparr>st_prefs := [hooked_pref], sq_pref := 2\<rparr>"

lemma rotate_accepted:
  "(case fst (update_preferences sample_vault sample_dns (sample_env 5) sample_entropy alice rotate_request None
      hooked_store) of Inl err \<Rightarrow> False | Inr r \<Rightarrow> True)"
  by code_simp

theorem webhook_url_checked_witness:
  "\<exists>q. pref_of 1 (snd (update_preferences sample_vault sample_dns (sample_env 5) sample_entropy alice rotate_request None
      hooked_store)) = Some q \<and> pf_consecutive_failures q = 0 \<and> webhook_ready q"
proof -
  obtain res s' where run: "update_preferences sample_vault sample_dns (sample_env 5) sample_entropy alice rotate_request
      None hooked_store = (res, s')" by fastforce
  obtain r where r: "res = Inr r" using rotate_accepted run by (cases res) auto
  have u: "usr_id alice = 1" by (simp add: alice_def)
  have look: "pref_of (usr_id alice) hooked_store = Some hooked_pref"
    by (simp add: pref_of_def hooked_store_def hooked_pref_def default_pref_def first_row_def u)
  have en: "npu_webhook_enabled rotate_request = Some True" by (simp add: rotate_request_def)
  show ?thesis using webhook_url_checked [OF run look] r en run by (simp add: u)
qed

end
