(* ===== verification/Dispatcher.thy ===== *)
theory Dispatcher
  imports Preferences
begin

text \<open>
  \<open>backend/services/notification_dispatcher.py\<close>: claiming of due outbox rows, one delivery of a
  webhook through a pinned address, the classification of its outcome, the three write-backs
  (delivered, failed, retry) and the circuit breaker on the user's preferences.  The resolver, the
  HTTP client, the JSON text of a payload and SHA-256 are parameters (\<open>egress\<close>).  The session
  factory is one that keeps the loaded values of a row after the commit.
\<close>

definition MAX_ATTEMPTS :: nat where
  "MAX_ATTEMPTS = 3"

definition LEASE_EXPIRY_SECONDS :: int where
  "LEASE_EXPIRY_SECONDS = 60"

subsection \<open>Claiming\<close>

definition eligible_job :: "time \<Rightarrow> outbox \<Rightarrow> bool" where
  \<comment> \<open>a \<open>NULL\<close> in \<open>locked_at\<close> compares to nothing\<close>
  "eligible_job t j =
     ((ob_status j = ''PENDING'' \<or>
       (ob_status j = ''PROCESSING'' \<and>
        (case ob_locked_at j of None \<Rightarrow> False | Some l \<Rightarrow> l < t - seconds LEASE_EXPIRY_SECONDS))) \<and>
      ob_next_attempt_at j \<le> t)"

definition lock_job :: "time \<Rightarrow> string \<Rightarrow> outbox \<Rightarrow> outbox" where
  "lock_job t pod j = j\<lparr>ob_status := ''PROCESSING'', ob_locked_at := Some t, ob_locked_by := Some pod\<rparr>"

definition due_jobs :: "time \<Rightarrow> nat list \<Rightarrow> nat \<Rightarrow> store \<Rightarrow> outbox list" where
  \<comment> \<open>the second argument are the rows other transactions have locked, skipped on PostgreSQL\<close>
  "due_jobs t skip batch s =
     take batch (sort_key ob_next_attempt_at
       (filter (\<lambda>j. eligible_job t j \<and> ob_id j \<notin> set skip) (st_outbox s)))"

definition set_jobs :: "(outbox \<Rightarrow> bool) \<Rightarrow> (outbox \<Rightarrow> outbox) \<Rightarrow> store \<Rightarrow> store" where
  "set_jobs p f s = s\<lparr>st_outbox := upd_rows p f (st_outbox s)\<rparr>"

definition claim_jobs_sync :: "string \<Rightarrow> nat list \<Rightarrow> nat \<Rightarrow> env \<Rightarrow> store \<Rightarrow> outbox list \<times> store" where
  \<comment> \<open>for a session factory whose rows can still be read after the commit (\<open>expire_on_commit=False\<close>)\<close>
  "claim_jobs_sync pod skip batch e s =
     (let jobs = due_jobs (now e) skip batch s
      in (map (lock_job (now e) pod) jobs,
          set_jobs (\<lambda>j. ob_id j \<in> ob_id ` set jobs) (lock_job (now e) pod) s))"

subsection \<open>One delivery\<close>

record webhook_post =
  wp_pinned_ip :: string
  wp_url :: string
  wp_headers :: "(string \<times> string) list"
  wp_body :: bytes

datatype post_result =
    Status int
  | TimeoutException string
  | TransportError string

record egress =
  eg_dns :: "string \<Rightarrow> string list option"
  eg_post :: "webhook_post \<Rightarrow> post_result"
  eg_json :: "dict \<Rightarrow> bytes"
  eg_sha256 :: "string \<Rightarrow> string"
  eg_str :: "json \<Rightarrow> string"
  eg_ssrf_text :: "ssrf_error \<Rightarrow> string"
  eg_secret_text :: "secret_error \<Rightarrow> string"

datatype verdict =
    Delivered
  | Terminal string bool \<comment> \<open>the message and \<open>is_ssrf\<close>\<close>
  | Retry string

definition delivery_secret :: "egress \<Rightarrow> vault \<Rightarrow> pref option \<Rightarrow> string + string" where
  "delivery_secret w v pref =
     (case pref of
        None \<Rightarrow> Inl ''User preference missing.''
      | Some p \<Rightarrow>
          if \<not> pf_webhook_enabled p \<or> pf_circuit_broken p then Inl ''Webhook disabled or circuit broken.''
          else if \<not> truthy_str (stored_secret p) then Inl ''Webhook secret not configured.''
          else let stored = the (stored_secret p)
               in if starts_with ''v1$'' stored then
                    (case decrypt_webhook_secret v stored of
                       Inl err \<Rightarrow> Inl (''Secret decryption failure: '' @ eg_secret_text w err)
                     | Inr secret \<Rightarrow> Inr secret)
                  else Inr stored)"

definition json_text :: "egress \<Rightarrow> json \<Rightarrow> string" where
  "json_text w j = (case j of JStr t \<Rightarrow> t | JInt i \<Rightarrow> show_epoch i | _ \<Rightarrow> eg_str w j)"

definition payload_text :: "egress \<Rightarrow> dict \<Rightarrow> string \<Rightarrow> json \<Rightarrow> string" where
  \<comment> \<open>\<open>str(payload.get(key, default))\<close>\<close>
  "payload_text w d k dflt = json_text w (case dict_get d k of None \<Rightarrow> dflt | Some j \<Rightarrow> j)"

definition webhook_event_id :: "egress \<Rightarrow> dict \<Rightarrow> string" where
  "webhook_event_id w d =
     eg_sha256 w (payload_text w d ''alert_uuid'' (JStr []) @ '':WEBHOOK:'' @
       payload_text w d ''event'' (JStr ''ALERT'') @ '':'' @ payload_text w d ''occurrence_count'' (JInt 1))"

definition host_header :: "string \<Rightarrow> int \<Rightarrow> string" where
  "host_header host port = (if port = 80 \<or> port = 443 then host else host @ '':'' @ show_epoch port)"

definition signed_post ::
  "egress \<Rightarrow> vault \<Rightarrow> env \<Rightarrow> outbox \<Rightarrow> string \<Rightarrow> string \<Rightarrow> int \<Rightarrow> string \<Rightarrow> webhook_post" where
  "signed_post w v e job secret host port ip =
     (let body = eg_json w (ob_payload job);
          epoch = now e div 1000000
      in \<lparr>wp_pinned_ip = ip, wp_url = ob_destination_url job,
          wp_headers =
            [(''Host'', host_header host port), (''Content-Type'', ''application/json; charset=utf-8''),
             (''User-Agent'', ''AI-Cyber-Security-Suite-Webhook/1.0''), (''X-SOC-Delivery-ID'', uuids e 0),
             (''X-SOC-Event-ID'', webhook_event_id w (ob_payload job)), (''X-SOC-Timestamp'', show_epoch epoch),
             (''X-SOC-Signature-256'', ''t='' @ show_epoch epoch @ '',v1='' @ compute_hmac_signature v secret epoch body),
             (''Connection'', ''close'')],
          wp_body = body\<rparr>)"

definition classify_response :: "post_result \<Rightarrow> verdict" where
  "classify_response r =
     (case r of
        Status c \<Rightarrow>
          if 200 \<le> c \<and> c < 300 then Delivered
          else if 300 \<le> c \<and> c < 400
          then Terminal (''Permanent failure: HTTP redirect ('' @ show_epoch c @ '') prohibited.'') False
          else if 400 \<le> c \<and> c < 500 then Terminal (''Client error HTTP '' @ show_epoch c @ ''.'') False
          else Retry (''Server error HTTP '' @ show_epoch c @ ''.'')
      | TimeoutException x \<Rightarrow> Retry (''Connection timeout: '' @ x)
      | TransportError x \<Rightarrow> Retry (''Network transport error: '' @ x))"

definition attempt_delivery ::
  "egress \<Rightarrow> vault \<Rightarrow> env \<Rightarrow> outbox \<Rightarrow> store \<Rightarrow> verdict \<times> webhook_post option" where
  "attempt_delivery w v e job s =
     (case delivery_secret w v (pref_of (ob_user_id job) s) of
        Inl msg \<Rightarrow> (Terminal msg False, None)
      | Inr secret \<Rightarrow>
          (case validate_target_url (ob_destination_url job) of
             Inl err \<Rightarrow> (Terminal (''SSRF security violation: '' @ eg_ssrf_text w err) True, None)
           | Inr (scheme, host, port, path) \<Rightarrow>
               (case resolve_and_validate_host (eg_dns w) host of
                  Inl err \<Rightarrow> (Terminal (''SSRF security violation: '' @ eg_ssrf_text w err) True, None)
                | Inr ips \<Rightarrow>
                    let post = signed_post w v e job secret host port (hd ips)
                    in (classify_response (eg_post w post), Some post))))"

subsection \<open>The circuit breaker\<close>

definition count_failure :: "time \<Rightarrow> pref \<Rightarrow> pref" where
  \<comment> \<open>the SQL update; every right-hand side reads the row as it was\<close>
  "count_failure t p =
     (let trip = 5 \<le> pf_consecutive_failures p + 1
      in p\<lparr>pf_consecutive_failures := pf_consecutive_failures p + 1,
           pf_circuit_broken := (if trip then True else pf_circuit_broken p),
           pf_circuit_broken_at := (if trip \<and> \<not> pf_circuit_broken p then Some t else pf_circuit_broken_at p),
           pf_webhook_enabled := (if trip then False else pf_webhook_enabled p)\<rparr>)"

definition set_prefs_of :: "nat \<Rightarrow> (pref \<Rightarrow> pref) \<Rightarrow> store \<Rightarrow> store" where
  "set_prefs_of uid f s = s\<lparr>st_prefs := upd_rows (\<lambda>p. pf_user_id p = uid) f (st_prefs s)\<rparr>"

definition broken_notification :: "env \<Rightarrow> nat \<Rightarrow> time \<Rightarrow> notification" where
  "broken_notification e uid t =
     \<lparr>nf_id = 0, nf_uuid = uuids e 0, nf_user_id = uid, nf_title = ''[WARNING] Webhook Delivery Disabled'',
      nf_message = ''Webhook delivery disabled: 5 consecutive delivery failures encountered. Please verify your endpoint and secret.'',
      nf_severity = ''HIGH'', nf_is_read = False, nf_link_url = Some ''/notifications/preferences'',
      nf_created_at = t\<rparr>"

definition broken_audit :: "env \<Rightarrow> nat \<Rightarrow> time \<Rightarrow> pref \<Rightarrow> audit" where
  "broken_audit e uid t p =
     \<lparr>au_id = 0, au_uuid = uuids e 1, au_action = ''WEBHOOK_CIRCUIT_BROKEN'', au_actor_user_id = Some uid,
      au_target_resource = ''notification_preferences'', au_resource_id = show_nat (pf_id p),
      au_details = [(''consecutive_failures'', JInt (int (pf_consecutive_failures p))),
        (''circuit_broken'', JBool True), (''reason'', JStr ''5 consecutive delivery failures'')],
      au_ip_address = None, au_created_at = t\<rparr>"

definition ssrf_audit :: "env \<Rightarrow> nat \<Rightarrow> audit" where
  "ssrf_audit e uid =
     \<lparr>au_id = 0, au_uuid = uuids e 2, au_action = ''WEBHOOK_SSRF_ABORTED'', au_actor_user_id = Some uid,
      au_target_resource = ''notification_outbox'', au_resource_id = ''egress'',
      au_details = [(''reason'', JStr ''SSRF blocked on webhook egress'')],
      au_ip_address = None, au_created_at = now e\<rparr>"

definition trip_audits :: "nat \<Rightarrow> time \<Rightarrow> store \<Rightarrow> audit list" where
  "trip_audits uid t s =
     filter (\<lambda>a. au_actor_user_id a = Some uid \<and> au_action a = ''WEBHOOK_CIRCUIT_BROKEN'' \<and>
       au_target_resource a = ''notification_preferences'' \<and> t \<le> au_created_at a) (st_audits s)"

definition announce_trip :: "env \<Rightarrow> nat \<Rightarrow> store \<Rightarrow> store" where
  "announce_trip e uid s =
     (case pref_of uid s of
        None \<Rightarrow> s
      | Some p \<Rightarrow>
          if 5 \<le> pf_consecutive_failures p \<and> pf_circuit_broken p then
            let t = (case pf_circuit_broken_at p of None \<Rightarrow> now e | Some x \<Rightarrow> x)
            in if trip_audits uid t s = []
               then add_audit (broken_audit e uid t p) (add_notification (broken_notification e uid t) s)
               else s
          else s)"

definition increment_circuit_breaker :: "env \<Rightarrow> nat \<Rightarrow> bool \<Rightarrow> store \<Rightarrow> store" where
  "increment_circuit_breaker e uid is_ssrf s =
     (let s1 = announce_trip e uid (set_prefs_of uid (count_failure (now e)) s)
      in if is_ssrf then add_audit (ssrf_audit e uid) s1 else s1)"

subsection \<open>Write-backs\<close>

definition job_row :: "nat \<Rightarrow> store \<Rightarrow> outbox option" where
  \<comment> \<open>\<open>sess.get(NotificationOutbox, job_id)\<close>\<close>
  "job_row i s = find (\<lambda>j. ob_id j = i) (st_outbox s)"

definition delivered_job :: "time \<Rightarrow> outbox \<Rightarrow> outbox" where
  "delivered_job t j =
     j\<lparr>ob_status := ''DELIVERED'', ob_delivered_at := Some t, ob_last_error := None, ob_locked_at := None,
       ob_locked_by := None\<rparr>"

definition failed_job :: "string \<Rightarrow> outbox \<Rightarrow> outbox" where
  "failed_job msg j =
     j\<lparr>ob_status := ''FAILED'', ob_last_error := Some (take 512 msg), ob_locked_at := None, ob_locked_by := None\<rparr>"

definition backoff :: "nat \<Rightarrow> time" where
  \<comment> \<open>\<open>min(60.0, 5.0 * 2 ** (n - 1))\<close> seconds\<close>
  "backoff n = min (seconds 60) (seconds 5 * 2 ^ (n - 1))"

definition retried_job :: "time \<Rightarrow> time \<Rightarrow> nat \<Rightarrow> string \<Rightarrow> outbox \<Rightarrow> outbox" where
  "retried_job t jitter n msg j =
     j\<lparr>ob_status := ''PENDING'', ob_attempt_count := n, ob_next_attempt_at := t + (backoff n + jitter),
       ob_last_error := Some (take 512 msg), ob_locked_at := None, ob_locked_by := None\<rparr>"

definition record_job_success :: "env \<Rightarrow> nat \<Rightarrow> nat \<Rightarrow> store \<Rightarrow> store" where
  "record_job_success e i uid s =
     s\<lparr>st_outbox := upd_rows (\<lambda>j. ob_id j = i) (delivered_job (now e)) (st_outbox s),
       st_prefs := upd_rows (\<lambda>p. pf_user_id p = uid \<and> \<not> pf_circuit_broken p)
         (pf_consecutive_failures_update (\<lambda>_. 0)) (st_prefs s)\<rparr>"

definition record_job_terminal_failure :: "env \<Rightarrow> nat \<Rightarrow> string \<Rightarrow> bool \<Rightarrow> store \<Rightarrow> store" where
  "record_job_terminal_failure e i msg is_ssrf s =
     (let s1 = set_jobs (\<lambda>j. ob_id j = i) (failed_job msg) s
      in case job_row i s of
           None \<Rightarrow> s1
         | Some j \<Rightarrow> if ob_user_id j = 0 then s1 else increment_circuit_breaker e (ob_user_id j) is_ssrf s1)"

definition record_job_retry_or_fail :: "env \<Rightarrow> time \<Rightarrow> nat \<Rightarrow> string \<Rightarrow> nat \<Rightarrow> store \<Rightarrow> store" where
  "record_job_retry_or_fail e jitter i msg current_attempt s =
     (let n = current_attempt + 1
      in case job_row i s of
           None \<Rightarrow> s
         | Some j \<Rightarrow>
             if MAX_ATTEMPTS \<le> n then
               increment_circuit_breaker e (ob_user_id j) False
                 (set_jobs (\<lambda>j. ob_id j = i)
                   (\<lambda>j. (failed_job (''Max attempts (3) exhausted: '' @ msg) j)\<lparr>ob_attempt_count := n\<rparr>) s)
             else set_jobs (\<lambda>j. ob_id j = i) (retried_job (now e) jitter n msg) s)"

definition record_verdict :: "env \<Rightarrow> time \<Rightarrow> outbox \<Rightarrow> verdict \<Rightarrow> store \<Rightarrow> store" where
  "record_verdict e jitter job vd s =
     (case vd of
        Delivered \<Rightarrow> record_job_success e (ob_id job) (ob_user_id job) s
      | Terminal msg is_ssrf \<Rightarrow> record_job_terminal_failure e (ob_id job) msg is_ssrf s
      | Retry msg \<Rightarrow> record_job_retry_or_fail e jitter (ob_id job) msg (ob_attempt_count job) s)"

text \<open>
  One dispatch reads the preferences at \<open>fst es\<close> and writes back at \<open>snd es\<close>; \<open>others\<close> is what
  the rest of the system commits while the request is under way.
\<close>

definition dispatch_job ::
  "egress \<Rightarrow> vault \<Rightarrow> env \<times> env \<Rightarrow> time \<Rightarrow> (store \<Rightarrow> store) \<Rightarrow> outbox \<Rightarrow> store \<Rightarrow> webhook_post option \<times> store" where
  "dispatch_job w v es jitter others job s =
     (let (vd, post) = attempt_delivery w v (fst es) job s
      in (post, record_verdict (snd es) jitter job vd (others s)))"

fun dispatch_all ::
  "egress \<Rightarrow> vault \<Rightarrow> (nat \<Rightarrow> env \<times> env) \<Rightarrow> time \<Rightarrow> (store \<Rightarrow> store) \<Rightarrow> outbox list \<Rightarrow> store \<Rightarrow>
   webhook_post list \<times> store" where
  "dispatch_all w v clock jitter others [] s = ([], s)"
| "dispatch_all w v clock jitter others (job # jobs) s =
     (let (post, s1) = dispatch_job w v (clock 0) jitter others job s;
          (posts, s2) = dispatch_all w v (\<lambda>i. clock (Suc i)) jitter others jobs s1
      in (case post of None \<Rightarrow> posts | Some p \<Rightarrow> p # posts, s2))"

definition tick ::
  "egress \<Rightarrow> vault \<Rightarrow> string \<Rightarrow> nat list \<Rightarrow> nat \<Rightarrow> env \<Rightarrow> (nat \<Rightarrow> env \<times> env) \<Rightarrow> time \<Rightarrow> (store \<Rightarrow> store) \<Rightarrow> store \<Rightarrow>
   (nat \<times> webhook_post list) \<times> store" where
  "tick w v pod skip batch e clock jitter others s =
     (let (jobs, s1) = claim_jobs_sync pod skip batch e s;
          (posts, s2) = dispatch_all w v clock jitter others jobs s1
      in ((length jobs, posts), s2))"

end
