(* ===== verification/DispatcherSafety.thy ===== *)
theory DispatcherSafety
  imports Dispatcher
begin

text \<open>
  What the dispatcher guarantees: where a webhook is posted to and how it is signed, the life of
  an outbox job as a refinement of a four-stage machine, the lease on claimed jobs, the retry
  schedule, and the circuit breaker.
\<close>

subsection \<open>Posting\<close>

lemma attempt_delivery_posts:
  assumes "attempt_delivery w v e job s = (vd, Some post)"
  shows "\<exists>p secret scheme host port path ips. pref_of (ob_user_id job) s = Some p \<and>
    pf_webhook_enabled p \<and> \<not> pf_circuit_broken p \<and> delivery_secret w v (Some p) = Inr secret \<and>
    validate_target_url (ob_destination_url job) = Inr (scheme, host, port, path) \<and>
    resolve_and_validate_host (eg_dns w) host = Inr ips \<and> post = signed_post w v e job secret host port (hd ips) \<and>
    vd = classify_response (eg_post w post)"
proof -
  obtain secret where sec: "delivery_secret w v (pref_of (ob_user_id job) s) = Inr secret"
    using assms by (auto simp: attempt_delivery_def split: sum.splits)
  then obtain p where p: "pref_of (ob_user_id job) s = Some p" "pf_webhook_enabled p" "\<not> pf_circuit_broken p"
    by (auto simp: delivery_secret_def split: option.splits if_splits)
  show ?thesis
    using assms sec p
    by (auto simp: attempt_delivery_def Let_def split: sum.splits prod.splits)
qed

text \<open>The digest is hexadecimal text, so stripping it changes nothing.\<close>

definition hex_digest :: "vault \<Rightarrow> bool" where
  "hex_digest v \<longleftrightarrow> (\<forall>k m. str_strip (va_hmac v k m) = va_hmac v k m)"

text \<open>
  C18: where a webhook goes and how it is signed.  A delivery posts at most once, only while the
  user's webhook is enabled and its circuit closed, to an address that was validated and is
  outside every blocked network; the posted body is the payload, the signature header verifies
  with the user's secret within five minutes, and the job counts as delivered exactly when the
  answer has a 2xx status.
\<close>

theorem webhook_post_confined:
  assumes "attempt_delivery w v e job s = (vd, Some post)" "hex_digest v"
    and "\<bar>clock - seconds (now e div 1000000)\<bar> \<le> seconds 300"
  shows "(\<exists>p secret sig. pref_of (ob_user_id job) s = Some p \<and> pf_webhook_enabled p \<and> \<not> pf_circuit_broken p \<and>
      delivery_secret w v (Some p) = Inr secret \<and>
      wp_headers post ! 6 = (''X-SOC-Signature-256'', ''t='' @ show_epoch (now e div 1000000) @ '',v1='' @ sig) \<and>
      verify_hmac_signature v clock secret (now e div 1000000) (wp_body post) sig (seconds 300)) \<and>
    \<not> is_blocked_ip (wp_pinned_ip post) \<and> wp_url post = ob_destination_url job \<and>
    wp_body post = eg_json w (ob_payload job) \<and>
    (vd = Delivered \<longleftrightarrow> (\<exists>c. eg_post w post = Status c \<and> 200 \<le> c \<and> c < 300))"
proof -
  obtain p secret scheme host port path ips where
    p: "pref_of (ob_user_id job) s = Some p" "pf_webhook_enabled p" "\<not> pf_circuit_broken p"
      "delivery_secret w v (Some p) = Inr secret"
    and ips: "resolve_and_validate_host (eg_dns w) host = Inr ips"
    and post: "post = signed_post w v e job secret host port (hd ips)"
    and vd: "vd = classify_response (eg_post w post)"
    using attempt_delivery_posts [OF assms(1)] by blast
  let ?sig = "compute_hmac_signature v secret (now e div 1000000) (wp_body post)"
  have "verify_hmac_signature v clock secret (now e div 1000000) (wp_body post) ?sig (seconds 300)"
    using assms(2,3) by (simp add: verify_hmac_signature_def compute_hmac_signature_def hex_digest_def)
  moreover have "wp_headers post ! 6 =
      (''X-SOC-Signature-256'', ''t='' @ show_epoch (now e div 1000000) @ '',v1='' @ ?sig)"
    by (simp add: post signed_post_def Let_def nth_Cons')
  ultimately have "\<exists>p secret sig. pref_of (ob_user_id job) s = Some p \<and> pf_webhook_enabled p \<and> \<not> pf_circuit_broken p \<and>
      delivery_secret w v (Some p) = Inr secret \<and>
      wp_headers post ! 6 = (''X-SOC-Signature-256'', ''t='' @ show_epoch (now e div 1000000) @ '',v1='' @ sig) \<and>
      verify_hmac_signature v clock secret (now e div 1000000) (wp_body post) sig (seconds 300)"
    using p by blast
  moreover have "\<not> is_blocked_ip (hd ips)" using resolved_not_blocked [OF ips] by (cases ips) auto
  moreover have "vd = Delivered \<longleftrightarrow> (\<exists>c. eg_post w post = Status c \<and> 200 \<le> c \<and> c < 300)"
    by (auto simp: vd classify_response_def split: post_result.splits if_splits)
  ultimately show ?thesis by (simp add: post signed_post_def Let_def)
qed

subsection \<open>The circuit breaker\<close>

lemma pref_of_set_prefs:
  assumes "\<And>p. pf_user_id (f p) = pf_user_id p"
  shows "pref_of uid (set_prefs_of uid f s) = map_option f (pref_of uid s)"
    "u \<noteq> uid \<Longrightarrow> pref_of u (set_prefs_of uid f s) = pref_of u s"
proof -
  have "first_row (filter (\<lambda>x. pf_user_id x = uid) (upd_rows (\<lambda>p. pf_user_id p = uid) f rs)) =
      map_option f (first_row (filter (\<lambda>x. pf_user_id x = uid) rs))" for rs
    by (induction rs) (auto simp: first_row_def upd_rows_Cons assms)
  then show "pref_of uid (set_prefs_of uid f s) = map_option f (pref_of uid s)"
    by (simp add: pref_of_def set_prefs_of_def)
  have "filter (\<lambda>x. pf_user_id x = u) (upd_rows (\<lambda>p. pf_user_id p = uid) f rs) =
      filter (\<lambda>x. pf_user_id x = u) rs" if "u \<noteq> uid" for rs
    using that by (induction rs) (auto simp: upd_rows_Cons assms)
  then show "u \<noteq> uid \<Longrightarrow> pref_of u (set_prefs_of uid f s) = pref_of u s"
    by (simp add: pref_of_def set_prefs_of_def)
qed

lemma count_failure_user [simp]: "pf_user_id (count_failure t p) = pf_user_id p"
  by (simp add: count_failure_def Let_def)

lemma pref_of_add [simp]:
  "pref_of u (add_audit a s) = pref_of u s" "pref_of u (add_notification n s) = pref_of u s"
  by (simp_all add: pref_of_def add_audit_def add_notification_def)

lemma pref_of_announce [simp]: "pref_of u (announce_trip e uid s) = pref_of u s"
  by (simp add: announce_trip_def Let_def split: option.split)

lemma pref_of_increment:
  "pref_of uid (increment_circuit_breaker e uid b s) = map_option (count_failure (now e)) (pref_of uid s)"
  by (simp add: increment_circuit_breaker_def Let_def pref_of_set_prefs)

definition trip_notices :: "nat \<Rightarrow> store \<Rightarrow> notification list" where
  "trip_notices uid s =
     filter (\<lambda>n. nf_user_id n = uid \<and> nf_title n = ''[WARNING] Webhook Delivery Disabled'') (st_notifications s)"

lemma trip_audits_frame [simp]:
  "trip_audits uid t (set_prefs_of uid' f s) = trip_audits uid t s"
  "trip_audits uid t (add_notification n s) = trip_audits uid t s"
  "trip_audits uid t (add_audit (ssrf_audit e uid') s) = trip_audits uid t s"
  by (simp_all add: trip_audits_def set_prefs_of_def add_notification_def add_audit_def ssrf_audit_def)

lemma trip_notices_frame [simp]:
  "trip_notices uid (set_prefs_of uid' f s) = trip_notices uid s"
  "trip_notices uid (add_audit a s) = trip_notices uid s"
  by (simp_all add: trip_notices_def set_prefs_of_def add_audit_def)

lemma trip_audits_broken:
  "trip_audits uid t (add_audit (broken_audit e uid x p) s) =
   trip_audits uid t s @ (if t \<le> x then [(broken_audit e uid x p)\<lparr>au_id := sq_audit s\<rparr>] else [])"
  by (simp add: trip_audits_def add_audit_def broken_audit_def)

lemma trip_notices_broken:
  "trip_notices uid (add_notification (broken_notification e uid x) s) =
   trip_notices uid s @ [(broken_notification e uid x)\<lparr>nf_id := sq_notification s\<rparr>]"
  by (simp add: trip_notices_def add_notification_def broken_notification_def)

definition breaker_at :: "nat \<Rightarrow> time \<Rightarrow> bool \<Rightarrow> nat \<Rightarrow> nat \<Rightarrow> store \<Rightarrow> bool" where
  \<comment> \<open>after \<open>n\<close> failures since \<open>t0\<close>, with \<open>k\<close> notices before them\<close>
  "breaker_at uid t0 enabled k n s \<longleftrightarrow>
     (\<exists>p. pref_of uid s = Some p \<and> pf_consecutive_failures p = n \<and> pf_circuit_broken p = (5 \<le> n) \<and>
        pf_webhook_enabled p = (enabled \<and> n < 5) \<and>
        (5 \<le> n \<longrightarrow> (\<exists>t. pf_circuit_broken_at p = Some t \<and> t0 \<le> t \<and> trip_audits uid t s \<noteq> []))) \<and>
     length (trip_audits uid t0 s) = (if 5 \<le> n then 1 else 0) \<and>
     length (trip_notices uid s) = k + (if 5 \<le> n then 1 else 0)"

lemma trip_audits_later: "t0 \<le> t \<Longrightarrow> trip_audits uid t0 s = [] \<Longrightarrow> trip_audits uid t s = []"
  by (auto simp: trip_audits_def filter_empty_conv)

lemma breaker_at_ssrf: "breaker_at uid t0 en k n s \<Longrightarrow> breaker_at uid t0 en k n (add_audit (ssrf_audit e u) s)"
  by (simp add: breaker_at_def)

lemma breaker_count_quiet:
  assumes "breaker_at uid t0 en k n s" "Suc n < 5"
  shows "breaker_at uid t0 en k (Suc n) (announce_trip e uid (set_prefs_of uid (count_failure (now e)) s))"
  using assms
  by (auto simp: breaker_at_def announce_trip_def pref_of_set_prefs count_failure_def Let_def)

lemma breaker_count_trip:
  assumes "breaker_at uid t0 en k n s" "Suc n = 5" "t0 \<le> now e"
  shows "breaker_at uid t0 en k (Suc n) (announce_trip e uid (set_prefs_of uid (count_failure (now e)) s))"
proof -
  have "trip_audits uid t0 s = []" using assms(1,2) by (simp add: breaker_at_def)
  with trip_audits_later [OF assms(3)] have "trip_audits uid (now e) s = []" .
  then show ?thesis
    using assms
    by (auto simp: breaker_at_def announce_trip_def pref_of_set_prefs count_failure_def Let_def
        trip_audits_broken trip_notices_broken)
qed

lemma breaker_count_more:
  assumes "breaker_at uid t0 en k n s" "5 \<le> n"
  shows "breaker_at uid t0 en k (Suc n) (announce_trip e uid (set_prefs_of uid (count_failure (now e)) s))"
  using assms
  by (auto simp: breaker_at_def announce_trip_def pref_of_set_prefs count_failure_def Let_def)

lemma breaker_step:
  assumes "breaker_at uid t0 en k n s" "t0 \<le> now e"
  shows "breaker_at uid t0 en k (Suc n) (increment_circuit_breaker e uid b s)"
proof -
  consider "Suc n < 5" | "Suc n = 5" | "5 \<le> n" by linarith
  then have "breaker_at uid t0 en k (Suc n) (announce_trip e uid (set_prefs_of uid (count_failure (now e)) s))"
    using breaker_count_quiet breaker_count_trip breaker_count_more assms by cases metis+
  then show ?thesis by (simp add: increment_circuit_breaker_def Let_def breaker_at_ssrf)
qed

lemma breaker_run:
  assumes "breaker_at uid t0 en k n s" "\<And>x. x \<in> set xs \<Longrightarrow> t0 \<le> now (fst x)"
  shows "breaker_at uid t0 en k (n + length xs) (fold (\<lambda>(e, b). increment_circuit_breaker e uid b) xs s)"
  using assms
proof (induction xs arbitrary: n s)
  case (Cons x xs)
  obtain e b where x: "x = (e, b)" by fastforce
  have "breaker_at uid t0 en k (Suc n) (increment_circuit_breaker e uid b s)"
    using breaker_step [OF Cons.prems(1)] Cons.prems(2) [of x] by (simp add: x)
  from Cons.IH [OF this Cons.prems(2)] show ?case by (simp add: x)
qed simp

text \<open>
  C17: the circuit breaker.  Of a run of failed deliveries of one user the counter is the length of
  the run; exactly from the fifth on the circuit is broken and the webhook disabled; and however
  many deliveries fail after that, the trip is audited and announced once.
\<close>

theorem breaker_trips_once:
  assumes "pref_of uid s = Some p" "pf_consecutive_failures p = 0" "\<not> pf_circuit_broken p"
    and "trip_audits uid t0 s = []" "\<And>x. x \<in> set xs \<Longrightarrow> t0 \<le> now (fst x)"
    and "s' = fold (\<lambda>(e, b). increment_circuit_breaker e uid b) xs s"
  shows "(\<exists>q. pref_of uid s' = Some q \<and> pf_consecutive_failures q = length xs \<and>
      pf_circuit_broken q = (5 \<le> length xs) \<and> pf_webhook_enabled q = (pf_webhook_enabled p \<and> length xs < 5)) \<and>
    length (trip_audits uid t0 s') = (if 5 \<le> length xs then 1 else 0) \<and>
    length (trip_notices uid s') = length (trip_notices uid s) + (if 5 \<le> length xs then 1 else 0)"
proof -
  have "breaker_at uid t0 (pf_webhook_enabled p) (length (trip_notices uid s)) 0 s"
    using assms(1-4) by (simp add: breaker_at_def)
  from breaker_run [OF this assms(5)] have
    "breaker_at uid t0 (pf_webhook_enabled p) (length (trip_notices uid s)) (length xs) s'"
    by (simp add: assms(6))
  then show ?thesis unfolding breaker_at_def by blast
qed

subsection \<open>Jobs and their rows\<close>

lemma dispatched_outbox [simp]:
  "st_outbox (set_prefs_of uid f s) = st_outbox s" "st_outbox (announce_trip e uid s) = st_outbox s"
  "st_outbox (increment_circuit_breaker e uid b s) = st_outbox s"
  "sq_outbox (set_prefs_of uid f s) = sq_outbox s" "sq_outbox (announce_trip e uid s) = sq_outbox s"
  "sq_outbox (increment_circuit_breaker e uid b s) = sq_outbox s"
  "st_outbox (set_jobs p g s) = upd_rows p g (st_outbox s)" "sq_outbox (set_jobs p g s) = sq_outbox s"
  by (simp_all add: set_prefs_of_def announce_trip_def increment_circuit_breaker_def set_jobs_def Let_def
      add_audit_def add_notification_def split: option.split)

lemma find_upd_rows:
  assumes "\<And>j. ob_id (f j) = ob_id j"
  shows "find (\<lambda>j. ob_id j = i) (upd_rows p f rs) =
    map_option (\<lambda>j. if p j then f j else j) (find (\<lambda>j. ob_id j = i) rs)"
  by (induction rs) (auto simp: upd_rows_Cons assms)

definition outbox_ids :: "store \<Rightarrow> bool" where
  "outbox_ids s = cursor_ordered ob_id (sq_outbox s) (st_outbox s)"

lemma outbox_ids_upd:
  assumes "outbox_ids s" "st_outbox s' = upd_rows p f (st_outbox s)" "sq_outbox s' = sq_outbox s"
    and "\<And>j. ob_id (f j) = ob_id j"
  shows "outbox_ids s'"
proof -
  have "map ob_id (st_outbox s') = map ob_id (st_outbox s)" unfolding assms(2) using assms(4) by (simp add: map_upd_rows)
  moreover have "\<forall>j\<in>set (st_outbox s'). ob_id j < sq_outbox s'"
    using assms by (auto simp: in_upd_rows outbox_ids_def cursor_ordered_def)
  ultimately show ?thesis using assms(1) by (simp add: outbox_ids_def cursor_ordered_def)
qed

lemma outbox_ids_unique:
  assumes "outbox_ids s" "job_row i s = Some j" "k \<in> set (st_outbox s)" "ob_id k = i"
  shows "k = j"
proof -
  have d: "distinct (map ob_id (st_outbox s))"
    using assms(1) by (simp add: outbox_ids_def cursor_ordered_def strict_sorted_iff)
  have "j \<in> set (st_outbox s)" "ob_id j = i"
    using assms(2) by (auto simp: job_row_def find_Some_iff)
  with d assms(3,4) show ?thesis by (auto simp: distinct_map dest: inj_onD)
qed

lemma job_row_Some: "job_row i s = Some j \<Longrightarrow> j \<in> set (st_outbox s) \<and> ob_id j = i"
  by (auto simp: job_row_def find_Some_iff)

definition settled_job :: "time \<Rightarrow> time \<Rightarrow> nat \<Rightarrow> verdict \<Rightarrow> outbox \<Rightarrow> outbox" where
  "settled_job t jitter n vd =
     (case vd of
        Delivered \<Rightarrow> delivered_job t
      | Terminal msg b \<Rightarrow> failed_job msg
      | Retry msg \<Rightarrow>
          if MAX_ATTEMPTS \<le> Suc n
          then (\<lambda>j. (failed_job (''Max attempts (3) exhausted: '' @ msg) j)\<lparr>ob_attempt_count := Suc n\<rparr>)
          else retried_job t jitter (Suc n) msg)"

lemma job_updates_id [simp]:
  "ob_id (lock_job t pod j) = ob_id j" "ob_id (settled_job t jitter n vd j) = ob_id j"
  by (simp_all add: lock_job_def settled_job_def delivered_job_def failed_job_def retried_job_def split: verdict.split)

lemma record_verdict_outbox:
  "st_outbox (record_verdict e jitter job vd s) =
   upd_rows (\<lambda>j. ob_id j = ob_id job) (settled_job (now e) jitter (ob_attempt_count job) vd) (st_outbox s)"
  "sq_outbox (record_verdict e jitter job vd s) = sq_outbox s"
proof -
  have none: "upd_rows (\<lambda>j. ob_id j = ob_id job) f (st_outbox s) = st_outbox s" if "job_row (ob_id job) s = None" for f
    using that by (auto simp: job_row_def find_None_iff intro!: upd_rows_id)
  show "st_outbox (record_verdict e jitter job vd s) =
     upd_rows (\<lambda>j. ob_id j = ob_id job) (settled_job (now e) jitter (ob_attempt_count job) vd) (st_outbox s)"
    by (cases vd) (auto simp: record_verdict_def record_job_success_def record_job_terminal_failure_def
        record_job_retry_or_fail_def settled_job_def Let_def none split: option.split)
  show "sq_outbox (record_verdict e jitter job vd s) = sq_outbox s"
    by (cases vd) (auto simp: record_verdict_def record_job_success_def record_job_terminal_failure_def
        record_job_retry_or_fail_def Let_def split: option.split)
qed

lemma due_jobs_sound:
  "j \<in> set (due_jobs t skip batch s) \<Longrightarrow> j \<in> set (st_outbox s) \<and> eligible_job t j \<and> ob_id j \<notin> set skip"
  by (auto simp: due_jobs_def dest!: in_set_takeD)

lemma claim_jobs_outbox:
  "st_outbox (snd (claim_jobs_sync pod skip batch e s)) =
   upd_rows (\<lambda>j. ob_id j \<in> ob_id ` set (due_jobs (now e) skip batch s)) (lock_job (now e) pod) (st_outbox s)"
  "sq_outbox (snd (claim_jobs_sync pod skip batch e s)) = sq_outbox s"
  by (simp_all add: claim_jobs_sync_def Let_def)

subsection \<open>Simulation\<close>

text \<open>
  A component implements an abstract machine: whatever it observes of its state moves along the
  steps of the machine, or stays, under every command that is issued when it may be.
\<close>

fun all_steps :: "('c \<Rightarrow> 's \<Rightarrow> bool) \<Rightarrow> ('c \<Rightarrow> 's \<Rightarrow> 's) \<Rightarrow> 'c list \<Rightarrow> 's \<Rightarrow> bool" where
  "all_steps may exec [] s = True"
| "all_steps may exec (c # cs) s = (may c s \<and> all_steps may exec cs (exec c s))"

locale simulation =
  fixes observe :: "'s \<Rightarrow> 'a option"
    and exec :: "'c \<Rightarrow> 's \<Rightarrow> 's"
    and may :: "'c \<Rightarrow> 's \<Rightarrow> bool"
    and inv :: "'s \<Rightarrow> bool"
    and spec :: "'a \<Rightarrow> 'a \<Rightarrow> bool"
  assumes inv_exec: "inv s \<Longrightarrow> inv (exec c s)"
    and simulated: "inv s \<Longrightarrow> may c s \<Longrightarrow> observe s = Some a \<Longrightarrow> \<exists>b. observe (exec c s) = Some b \<and> spec\<^sup>=\<^sup>= a b"
begin

lemma run_simulated:
  "inv s \<Longrightarrow> all_steps may exec cs s \<Longrightarrow> observe s = Some a \<Longrightarrow>
   \<exists>b. observe (fold exec cs s) = Some b \<and> spec\<^sup>*\<^sup>* a b"
proof (induction cs arbitrary: s a)
  case (Cons c cs)
  then obtain b where b: "observe (exec c s) = Some b" "spec\<^sup>=\<^sup>= a b"
    using simulated [of s c a] by auto
  from Cons.IH [OF inv_exec [OF Cons.prems(1)] _ b(1)] Cons.prems(2)
  obtain d where "observe (fold exec cs (exec c s)) = Some d" "spec\<^sup>*\<^sup>* b d" by auto
  then show ?case using b(2) by (auto intro: converse_rtranclp_into_rtranclp)
qed simp

end

subsection \<open>The life of a job\<close>

datatype stage = Waiting nat | Sending nat | Sent | Dead

definition stage_of :: "outbox \<Rightarrow> stage" where
  "stage_of j =
     (if ob_status j = ''PENDING'' then Waiting (ob_attempt_count j)
      else if ob_status j = ''PROCESSING'' then Sending (ob_attempt_count j)
      else if ob_status j = ''DELIVERED'' then Sent else Dead)"

inductive lifecycle :: "stage \<Rightarrow> stage \<Rightarrow> bool" where
  claim: "lifecycle (Waiting n) (Sending n)"
| deliver: "lifecycle (Sending n) Sent"
| give_up: "lifecycle (Sending n) Dead"
| again: "Suc n < 3 \<Longrightarrow> lifecycle (Sending n) (Waiting (Suc n))"

inductive_cases lifecycleE: "lifecycle a b"
inductive_simps lifecycle_final [simp]: "lifecycle Sent b" "lifecycle Dead b"

datatype outbox_op =
    Claim string "nat list" nat
  | Settle outbox verdict time
  | Enqueue outbox

fun exec_outbox :: "env \<times> outbox_op \<Rightarrow> store \<Rightarrow> store" where
  "exec_outbox (e, Claim pod skip batch) s = snd (claim_jobs_sync pod skip batch e s)"
| "exec_outbox (e, Settle job vd jitter) s = record_verdict e jitter job vd s"
| "exec_outbox (e, Enqueue job) s = enqueue_outbox job s"

fun timely :: "env \<times> outbox_op \<Rightarrow> store \<Rightarrow> bool" where
  \<comment> \<open>a write-back finds the row as its pod claimed it\<close>
  "timely (e, Settle job vd jitter) s = (job \<in> set (st_outbox s) \<and> ob_status job = ''PROCESSING'')"
| "timely (e, Claim pod skip batch) s = True"
| "timely (e, Enqueue job) s = True"

lemma exec_outbox_ids: "outbox_ids s \<Longrightarrow> outbox_ids (exec_outbox x s)"
proof (induction x s rule: exec_outbox.induct)
  case (1 e pod skip batch s)
  show ?case unfolding exec_outbox.simps
    by (rule outbox_ids_upd [OF 1 claim_jobs_outbox]) simp
next
  case (2 e job vd jitter s)
  show ?case unfolding exec_outbox.simps
    by (rule outbox_ids_upd [OF 2 record_verdict_outbox]) simp
next
  case (3 e job s)
  then show ?case
    using outbox_log.emit_ordered [of s job] by (simp add: enqueue_outbox_def outbox_ids_def)
qed

lemma find_append_Some: "find p xs = Some x \<Longrightarrow> find p (xs @ ys) = Some x"
  by (induction xs) (auto split: if_splits)

lemma job_row_enqueue: "job_row i s = Some j \<Longrightarrow> job_row i (enqueue_outbox k s) = Some j"
  by (simp add: job_row_def enqueue_outbox_def add_outbox_def find_append_Some)

lemma stage_settled:
  assumes "ob_status j = ''PROCESSING''"
  shows "lifecycle (stage_of j) (stage_of (settled_job t jitter (ob_attempt_count j) vd j))"
  using assms
  by (auto simp: settled_job_def stage_of_def delivered_job_def failed_job_def retried_job_def MAX_ATTEMPTS_def
      intro: lifecycle.intros split: verdict.split)

lemma stage_locked: "eligible_job u j \<Longrightarrow> lifecycle\<^sup>=\<^sup>= (stage_of j) (stage_of (lock_job t pod j))"
  by (auto simp: eligible_job_def stage_of_def lock_job_def intro: lifecycle.claim)

lemma exec_outbox_simulated:
  assumes "outbox_ids s" "timely x s" "job_row i s = Some j"
  shows "\<exists>k. job_row i (exec_outbox x s) = Some k \<and> lifecycle\<^sup>=\<^sup>= (stage_of j) (stage_of k)"
  using assms
proof (induction x s rule: exec_outbox.induct)
  case (1 e pod skip batch s)
  let ?p = "\<lambda>j. ob_id j \<in> ob_id ` set (due_jobs (now e) skip batch s)"
  have row: "job_row i (exec_outbox (e, Claim pod skip batch) s) =
      Some (if ?p j then lock_job (now e) pod j else j)"
    using 1(3) by (simp add: job_row_def claim_jobs_outbox find_upd_rows)
  have "eligible_job (now e) j" if due: "?p j"
  proof -
    obtain k where k: "k \<in> set (due_jobs (now e) skip batch s)" "ob_id k = ob_id j" using due by auto
    have "k = j"
      using outbox_ids_unique [OF 1(1,3)] due_jobs_sound [OF k(1)] k(2) job_row_Some [OF 1(3)] by simp
    then show ?thesis using due_jobs_sound [OF k(1)] by simp
  qed
  then show ?case using row stage_locked by auto
next
  case (2 e job vd jitter s)
  have row: "job_row i (exec_outbox (e, Settle job vd jitter) s) =
      Some (if ob_id j = ob_id job then settled_job (now e) jitter (ob_attempt_count job) vd j else j)"
    using 2(3) by (simp add: job_row_def record_verdict_outbox find_upd_rows)
  have "job = j" if "ob_id j = ob_id job"
    using outbox_ids_unique [OF 2(1,3), of job] 2(2) that job_row_Some [OF 2(3)] by simp
  then show ?case using row 2(2) stage_settled by auto
next
  case (3 e job s)
  then show ?case using job_row_enqueue by auto
qed

lemma settle_steps:
  \<comment> \<open>a timely write-back always moves its job\<close>
  assumes "outbox_ids s" "timely (e, Settle job vd jitter) s" "job_row (ob_id job) s = Some j"
  shows "\<exists>k. job_row (ob_id job) (exec_outbox (e, Settle job vd jitter) s) = Some k \<and> lifecycle (stage_of j) (stage_of k)"
proof -
  have j: "job = j" using outbox_ids_unique [OF assms(1,3), of job] assms(2) by simp
  have "job_row (ob_id job) (exec_outbox (e, Settle job vd jitter) s) =
      Some (settled_job (now e) jitter (ob_attempt_count job) vd j)"
    using assms(3) job_row_Some [OF assms(3)] by (simp add: job_row_def record_verdict_outbox find_upd_rows)
  then show ?thesis using stage_settled assms(2) by (auto simp: j)
qed

interpretation outbox_machine: simulation "\<lambda>s. map_option stage_of (job_row i s)" exec_outbox timely outbox_ids lifecycle
  for i
proof
  show "outbox_ids (exec_outbox c s)" if "outbox_ids s" for c s by (rule exec_outbox_ids [OF that])
next
  fix s c a
  assume "outbox_ids s" "timely c s" "map_option stage_of (job_row i s) = Some a"
  then show "\<exists>b. map_option stage_of (job_row i (exec_outbox c s)) = Some b \<and> lifecycle\<^sup>=\<^sup>= a b"
    using exec_outbox_simulated [of s c i] by fastforce
qed

lemma lifecycle_final_run: "lifecycle\<^sup>*\<^sup>* a b \<Longrightarrow> a = Sent \<or> a = Dead \<Longrightarrow> b = a"
  by (induction rule: converse_rtranclp_induct) auto

lemma lifecycle_attempts:
  assumes "lifecycle\<^sup>*\<^sup>* (Waiting 0) b"
  shows "b \<in> {Sent, Dead} \<union> Waiting ` {..<3} \<union> Sending ` {..<3}"
  using assms by (induction rule: rtranclp_induct) (auto elim!: lifecycleE)

fun settles :: "nat \<Rightarrow> env \<times> outbox_op \<Rightarrow> bool" where
  \<comment> \<open>the write-back of a try of job \<open>i\<close>\<close>
  "settles i (e, Settle job vd jitter) = (ob_id job = i)"
| "settles i _ = False"

primrec tries_left :: "stage \<Rightarrow> nat" where
  "tries_left (Waiting n) = 3 - n" | "tries_left (Sending n) = 3 - n" | "tries_left Sent = 0" | "tries_left Dead = 0"

definition on_course :: "stage \<Rightarrow> bool" where
  "on_course a \<longleftrightarrow> a \<in> {Sent, Dead} \<union> Waiting ` {..<3} \<union> Sending ` {..<3}"

lemma lifecycle_course:
  assumes "lifecycle a b" "on_course a"
  shows "on_course b" "tries_left b \<le> tries_left a" "\<exists>n. a = Sending n \<Longrightarrow> tries_left b < tries_left a"
  using assms by (auto simp: on_course_def elim!: lifecycleE)

lemma settle_sending: "timely (e, Settle job vd jitter) s \<Longrightarrow> \<exists>n. stage_of job = Sending n"
  by (simp add: stage_of_def)

lemma settles_bounded:
  "\<lbrakk>outbox_ids s; all_steps timely exec_outbox xs s; job_row i s = Some j; on_course (stage_of j)\<rbrakk> \<Longrightarrow>
   length (filter (settles i) xs) \<le> tries_left (stage_of j)"
proof (induction xs arbitrary: s j)
  case (Cons x xs)
  have t: "timely x s" "all_steps timely exec_outbox xs (exec_outbox x s)" using Cons.prems(2) by simp_all
  note ids = exec_outbox_ids [OF Cons.prems(1), of x]
  obtain k where k: "job_row i (exec_outbox x s) = Some k" "lifecycle\<^sup>=\<^sup>= (stage_of j) (stage_of k)"
    using exec_outbox_simulated [OF Cons.prems(1) t(1) Cons.prems(3)] by blast
  have c: "on_course (stage_of k) \<and> tries_left (stage_of k) \<le> tries_left (stage_of j)"
    using k(2) lifecycle_course [OF _ Cons.prems(4)] Cons.prems(4) by auto
  have less: "tries_left (stage_of k) < tries_left (stage_of j)" if st: "settles i x"
  proof -
    obtain e job vd jitter where x: "x = (e, Settle job vd jitter)" "ob_id job = i"
      using st by (cases "(i, x)" rule: settles.cases) auto
    have l: "lifecycle (stage_of j) (stage_of k)"
      using settle_steps [OF Cons.prems(1) t(1) [unfolded x(1)]] Cons.prems(3) k(1) unfolding x by auto
    have "job = j" using outbox_ids_unique [OF Cons.prems(1,3), of job] t(1) x by simp
    then show ?thesis using lifecycle_course(3) [OF l Cons.prems(4)] settle_sending t(1) unfolding x(1) by blast
  qed
  show ?case using Cons.IH [OF ids t(2) k(1)] c less by (cases "settles i x") auto
qed simp

text \<open>
  C16: the outbox refines the four-stage machine.  As long as every write-back finds the row as its
  pod claimed it, whatever pods claim, deliver, retry and enqueue in between, a job moves along the
  machine: a delivered or failed job stays so for good, and a fresh job has at most three tries
  written back.  A try that is never written back, because its pod died, is
  not among them.
\<close>

theorem outbox_refines_lifecycle:
  assumes "outbox_ids s" "all_steps timely exec_outbox xs s" "job_row i s = Some j"
  shows "\<exists>k. job_row i (fold exec_outbox xs s) = Some k \<and> lifecycle\<^sup>*\<^sup>* (stage_of j) (stage_of k) \<and>
    (stage_of j \<in> {Sent, Dead} \<longrightarrow> stage_of k = stage_of j) \<and>
    (stage_of j = Waiting 0 \<and> ob_status k \<in> {''PENDING'', ''PROCESSING''} \<longrightarrow> ob_attempt_count k < 3) \<and>
    (stage_of j = Waiting 0 \<longrightarrow> length (filter (settles i) xs) \<le> 3)"
proof -
  obtain k where k: "job_row i (fold exec_outbox xs s) = Some k" "lifecycle\<^sup>*\<^sup>* (stage_of j) (stage_of k)"
    using outbox_machine.run_simulated [OF assms(1,2), of i "stage_of j"] assms(3) by auto
  moreover have "ob_attempt_count k < 3"
    if "stage_of j = Waiting 0" "ob_status k \<in> {''PENDING'', ''PROCESSING''}"
    using lifecycle_attempts [of "stage_of k"] k(2) that by (auto simp: stage_of_def)
  moreover have "length (filter (settles i) xs) \<le> 3" if "stage_of j = Waiting 0"
    using settles_bounded [OF assms] that by (simp add: on_course_def)
  ultimately show ?thesis using lifecycle_final_run [OF k(2)] by blast
qed

text \<open>
  A try without a result is not counted.  When the pod that claimed a job dies, the job is handed out
  again after a minute with the same attempt count, and is again in the state from which that can
  happen: however often the webhook was posted to, the limit of three attempts never applies.
\<close>

theorem lost_try_not_counted:
  assumes "outbox_ids s" "job_row i s = Some j" "ob_status j = ''PROCESSING''" "ob_locked_at j = Some t"
    and "ob_next_attempt_at j \<le> now e" "t + seconds 60 < now e" "length (st_outbox s) \<le> batch"
  shows "\<exists>k\<in>set (fst (claim_jobs_sync pod [] batch e s)).
    job_row i (snd (claim_jobs_sync pod [] batch e s)) = Some k \<and> ob_attempt_count k = ob_attempt_count j \<and>
    ob_status k = ''PROCESSING'' \<and> ob_locked_at k = Some (now e) \<and> ob_next_attempt_at k = ob_next_attempt_at j"
proof -
  have "eligible_job (now e) j" using assms(3-6) by (simp add: eligible_job_def LEASE_EXPIRY_SECONDS_def)
  then have due: "j \<in> set (due_jobs (now e) [] batch s)"
    using job_row_Some [OF assms(2)] assms(7) by (simp add: due_jobs_def order_trans [OF length_filter_le])
  then have "lock_job (now e) pod j \<in> set (fst (claim_jobs_sync pod [] batch e s))"
    by (simp add: claim_jobs_sync_def Let_def)
  moreover have "job_row i (snd (claim_jobs_sync pod [] batch e s)) = Some (lock_job (now e) pod j)"
    using assms(2) due by (auto simp: job_row_def claim_jobs_outbox find_upd_rows)
  ultimately show ?thesis by (intro bexI [of _ "lock_job (now e) pod j"]) (simp_all add: lock_job_def)
qed

subsection \<open>Leases and retries\<close>

definition claim_all :: "(string \<times> nat list \<times> nat \<times> env) list \<Rightarrow> store \<Rightarrow> store" where
  "claim_all = fold (\<lambda>(pod, skip, batch, e). snd \<circ> claim_jobs_sync pod skip batch e)"

definition leased :: "nat set \<Rightarrow> time \<Rightarrow> store \<Rightarrow> bool" where
  "leased I t s \<longleftrightarrow> (\<forall>j\<in>set (st_outbox s). ob_id j \<in> I \<longrightarrow> ob_status j = ''PROCESSING'' \<and> ob_locked_at j = Some t)"

lemma leased_not_due:
  assumes "leased I t s" "u \<le> t + seconds LEASE_EXPIRY_SECONDS"
  shows "ob_id ` set (due_jobs u skip batch s) \<inter> I = {}"
  using assms by (auto simp: leased_def eligible_job_def dest!: due_jobs_sound)

lemma leased_claim:
  assumes "leased I t s" "now e \<le> t + seconds LEASE_EXPIRY_SECONDS"
  shows "leased I t (snd (claim_jobs_sync pod skip batch e s))"
proof -
  have "ob_id x \<notin> I" if "x \<in> set (due_jobs (now e) skip batch s)" for x
    using leased_not_due [OF assms, of skip batch] that by blast
  then show ?thesis
    using assms(1) unfolding leased_def claim_jobs_outbox by (fastforce simp: in_upd_rows)
qed

lemma leased_claims:
  "leased I t s \<Longrightarrow> (\<And>c. c \<in> set cs \<Longrightarrow> now (snd (snd (snd c))) \<le> t + seconds LEASE_EXPIRY_SECONDS) \<Longrightarrow>
   leased I t (claim_all cs s)"
proof (induction cs arbitrary: s)
  case (Cons c cs)
  obtain pod skip batch e where c: "c = (pod, skip, batch, e)" by (cases c)
  have "leased I t (snd (claim_jobs_sync pod skip batch e s))"
    using leased_claim [OF Cons.prems(1)] Cons.prems(2) [of c] by (simp add: c)
  from Cons.IH [OF this Cons.prems(2)] show ?case by (simp add: claim_all_def c)
qed (simp add: claim_all_def)

text \<open>
  A claimed job is leased for a minute.  A batch holds at most the requested number of due
  rows; and until a minute after the claim no other claim of any pod, whatever claims came in
  between, hands out one of its jobs.
\<close>

theorem outbox_lease_exclusive:
  assumes "claim_jobs_sync pod skip batch e s = (jobs, s1)"
    and "\<And>c. c \<in> set cs \<Longrightarrow> now (snd (snd (snd c))) \<le> now e + seconds 60"
    and "now e' \<le> now e + seconds 60" "claim_jobs_sync pod' skip' batch' e' (claim_all cs s1) = (jobs', s2)"
  shows "length jobs \<le> batch \<and> (\<forall>j\<in>set jobs. ob_next_attempt_at j \<le> now e \<and> ob_locked_by j = Some pod) \<and>
    ob_id ` set jobs \<inter> ob_id ` set jobs' = {}"
proof -
  let ?due = "due_jobs (now e) skip batch s"
  have jobs: "jobs = map (lock_job (now e) pod) ?due" and s1: "s1 = snd (claim_jobs_sync pod skip batch e s)"
    using assms(1) by (auto simp: claim_jobs_sync_def Let_def)
  have "leased (ob_id ` set ?due) (now e) s1"
    by (auto simp: leased_def s1 claim_jobs_outbox in_upd_rows lock_job_def)
  from leased_claims [OF this, of cs] assms(2)
  have "leased (ob_id ` set ?due) (now e) (claim_all cs s1)" by (simp add: LEASE_EXPIRY_SECONDS_def)
  from leased_not_due [OF this, of "now e'" skip' batch'] assms(3)
  have "ob_id ` set (due_jobs (now e') skip' batch' (claim_all cs s1)) \<inter> ob_id ` set ?due = {}"
    by (simp add: LEASE_EXPIRY_SECONDS_def)
  moreover have "jobs' = map (lock_job (now e') pod') (due_jobs (now e') skip' batch' (claim_all cs s1))"
    using assms(4) by (auto simp: claim_jobs_sync_def Let_def)
  moreover have "length ?due \<le> batch" by (simp add: due_jobs_def)
  ultimately show ?thesis
    using due_jobs_sound [of _ "now e" skip batch s]
    by (auto simp: jobs lock_job_def eligible_job_def image_image)
qed

text \<open>
  Retries are bounded and spaced.  A transient failure of a job ends it for good at the third
  attempt; before that the job waits at least five and a half and at most twelve seconds, during
  which no pod can claim it.
\<close>

theorem retry_bounded:
  assumes "job_row i s = Some r" "500000 \<le> jitter" "jitter \<le> 2000000"
    and "s' = record_job_retry_or_fail e jitter i msg n s"
  shows "\<exists>k. job_row i s' = Some k \<and> ob_attempt_count k = n + 1 \<and>
    (if 2 \<le> n then ob_status k = ''FAILED''
     else ob_status k = ''PENDING'' \<and> now e + 5500000 \<le> ob_next_attempt_at k \<and>
       ob_next_attempt_at k \<le> now e + seconds 12 \<and> (\<forall>t < now e + 5500000. \<not> eligible_job t k))"
proof -
  let ?k = "settled_job (now e) jitter n (Retry msg) r"
  have "job_row i s' = Some ?k"
    using record_verdict_outbox(1) [of e jitter "r\<lparr>ob_attempt_count := n\<rparr>" "Retry msg" s] job_row_Some [OF assms(1)]
      assms(1)
    by (simp add: record_verdict_def assms(4) job_row_def find_upd_rows)
  moreover have "n = 0 \<or> n = 1" if "\<not> 2 \<le> n" using that by linarith
  ultimately show ?thesis
    using assms(2,3)
    by (auto simp: settled_job_def retried_job_def failed_job_def MAX_ATTEMPTS_def backoff_def seconds_def
        eligible_job_def)
qed

text \<open>
  The write-backs are not fenced.  When a pod was slow and its job has meanwhile been claimed and
  delivered by another pod, its late transient failure puts the delivered row back to pending, and
  twelve seconds later the next claim hands the delivered job out again.
\<close>

theorem late_retry_redelivers:
  assumes "outbox_ids s" "job_row (ob_id job) s = Some r" "ob_status r = ''DELIVERED''" "ob_attempt_count job < 2"
    and "jitter \<le> 2000000" "now e + seconds 12 \<le> now e'" "length (st_outbox s) \<le> batch"
  shows "\<exists>j\<in>set (fst (claim_jobs_sync pod [] batch e' (record_verdict e jitter job (Retry msg) s))).
    ob_id j = ob_id job \<and> ob_delivered_at j = ob_delivered_at r"
proof -
  let ?s' = "record_verdict e jitter job (Retry msg) s"
  let ?k = "retried_job (now e) jitter (Suc (ob_attempt_count job)) msg r"
  have "job_row (ob_id job) ?s' = Some (settled_job (now e) jitter (ob_attempt_count job) (Retry msg) r)"
    using assms(2) job_row_Some [OF assms(2)] by (simp add: job_row_def record_verdict_outbox find_upd_rows)
  then have k: "?k \<in> set (st_outbox ?s')"
    using assms(4) job_row_Some by (auto simp: settled_job_def MAX_ATTEMPTS_def)
  have "ob_attempt_count job = 0 \<or> ob_attempt_count job = 1" using assms(4) by linarith
  then have "eligible_job (now e') ?k"
    using assms(5,6) by (auto simp: eligible_job_def retried_job_def backoff_def seconds_def)
  then have "?k \<in> set (due_jobs (now e') [] batch ?s')"
    using k assms(7) by (simp add: due_jobs_def record_verdict_outbox order_trans [OF length_filter_le])
  then have "lock_job (now e') pod ?k \<in> set (fst (claim_jobs_sync pod [] batch e' ?s'))"
    by (simp add: claim_jobs_sync_def Let_def)
  moreover have "ob_id (lock_job (now e') pod ?k) = ob_id job"
    "ob_delivered_at (lock_job (now e') pod ?k) = ob_delivered_at r"
    using job_row_Some [OF assms(2)] by (simp_all add: lock_job_def retried_job_def)
  ultimately show ?thesis by blast
qed

text \<open>
  A failed DNS lookup is never retried.  Although the dispatcher has a branch that schedules a
  retry when the resolution fails, the resolver reports every failure as a security error, so one
  unanswered lookup fails the job for good without a request, and is audited as an SSRF attempt.
\<close>

theorem dns_failure_is_terminal:
  assumes "delivery_secret w v (pref_of (ob_user_id job) s) = Inr secret"
    and "validate_target_url (ob_destination_url job) = Inr (scheme, host, port, path)"
    and "h = str_lower (str_strip host)" "h \<noteq> []" "numeric_ip h = None" "parse_ip h = None" "eg_dns w h = None"
    and "job_row (ob_id job) s = Some r" "ob_user_id r \<noteq> 0"
    and "dispatch_job w v (e, e') jitter (\<lambda>s. s) job s = (post, s')"
  shows "post = None \<and> (\<exists>k. job_row (ob_id job) s' = Some k \<and> ob_status k = ''FAILED'') \<and>
    (ssrf_audit e' (ob_user_id r))\<lparr>au_id := sq_audit s' - 1\<rparr> \<in> set (st_audits s')"
proof -
  have "resolve_and_validate_host (eg_dns w) host = Inl DNSFailure"
    using assms(3-7) by (simp add: resolve_and_validate_host_def Let_def)
  then have vd: "attempt_delivery w v e job s = (Terminal (''SSRF security violation: '' @ eg_ssrf_text w DNSFailure) True, None)"
    (is "_ = (Terminal ?msg True, None)")
    using assms(1,2) by (simp add: attempt_delivery_def)
  then have post: "post = None" and s': "s' = record_verdict e' jitter job (Terminal ?msg True) s"
    using assms(10) by (simp_all add: dispatch_job_def)
  have "job_row (ob_id job) s' = Some (settled_job (now e') jitter (ob_attempt_count job) (Terminal ?msg True) r)"
    using assms(8) job_row_Some [OF assms(8)] by (simp add: s' job_row_def record_verdict_outbox find_upd_rows)
  then have "\<exists>k. job_row (ob_id job) s' = Some k \<and> ob_status k = ''FAILED''"
    by (simp add: settled_job_def failed_job_def)
  moreover have "(ssrf_audit e' (ob_user_id r))\<lparr>au_id := sq_audit s' - 1\<rparr> \<in> set (st_audits s')"
    using assms(8,9)
    by (simp add: s' record_verdict_def record_job_terminal_failure_def increment_circuit_breaker_def Let_def add_audit_def)
  ultimately show ?thesis using post by blast
qed

lemma breaker_at_jobs: "breaker_at uid t0 en k n (set_jobs p f s) = breaker_at uid t0 en k n s"
  by (simp add: breaker_at_def set_jobs_def pref_of_def trip_audits_def trip_notices_def)

lemma disabled_dispatch:
  assumes "breaker_at uid t0 False k n s" "ob_user_id job = uid" "uid \<noteq> 0"
    and "job_row (ob_id job) s = Some r" "ob_user_id r = uid" "t0 \<le> now (snd es)"
  shows "\<exists>s1. dispatch_job w v es jitter (\<lambda>s. s) job s = (None, s1) \<and> breaker_at uid t0 False k (Suc n) s1 \<and>
    (\<forall>i x. job_row i s = Some x \<longrightarrow> (\<exists>y. job_row i s1 = Some y \<and> ob_user_id y = ob_user_id x))"
proof -
  let ?msg = "''Webhook disabled or circuit broken.''"
  let ?s1 = "record_verdict (snd es) jitter job (Terminal ?msg False) s"
  obtain p where "pref_of uid s = Some p" "\<not> pf_webhook_enabled p" using assms(1) by (auto simp: breaker_at_def)
  then have "attempt_delivery w v (fst es) job s = (Terminal ?msg False, None)"
    using assms(2) by (simp add: attempt_delivery_def delivery_secret_def)
  then have d: "dispatch_job w v es jitter (\<lambda>s. s) job s = (None, ?s1)" by (simp add: dispatch_job_def)
  have "?s1 = increment_circuit_breaker (snd es) uid False (set_jobs (\<lambda>j. ob_id j = ob_id job) (failed_job ?msg) s)"
    using assms(3-5) by (simp add: record_verdict_def record_job_terminal_failure_def Let_def)
  then have "breaker_at uid t0 False k (Suc n) ?s1"
    using breaker_step [OF iffD2 [OF breaker_at_jobs assms(1)] assms(6)] by metis
  moreover have "\<exists>y. job_row i ?s1 = Some y \<and> ob_user_id y = ob_user_id x" if "job_row i s = Some x" for i x
    using that by (simp add: job_row_def record_verdict_outbox find_upd_rows settled_job_def failed_job_def)
  ultimately show ?thesis using d by blast
qed

lemma disabled_dispatches:
  assumes "breaker_at uid t0 False k n s" "uid \<noteq> 0"
    and "\<And>job. job \<in> set jobs \<Longrightarrow> ob_user_id job = uid \<and> (\<exists>r. job_row (ob_id job) s = Some r \<and> ob_user_id r = uid)"
    and "\<And>i. t0 \<le> now (snd (clock i))"
  shows "\<exists>s'. dispatch_all w v clock jitter (\<lambda>s. s) jobs s = ([], s') \<and> breaker_at uid t0 False k (n + length jobs) s'"
  using assms
proof (induction jobs arbitrary: n s clock)
  case (Cons job jobs)
  obtain r where r: "job_row (ob_id job) s = Some r" "ob_user_id r = uid" "ob_user_id job = uid"
    using Cons.prems(3) [of job] by auto
  obtain s1 where d: "dispatch_job w v (clock 0) jitter (\<lambda>s. s) job s = (None, s1)"
    and b: "breaker_at uid t0 False k (Suc n) s1"
    and rows: "\<And>i x. job_row i s = Some x \<Longrightarrow> \<exists>y. job_row i s1 = Some y \<and> ob_user_id y = ob_user_id x"
    using disabled_dispatch [OF Cons.prems(1) r(3) Cons.prems(2) r(1,2) Cons.prems(4)] by blast
  have "ob_user_id j = uid \<and> (\<exists>x. job_row (ob_id j) s1 = Some x \<and> ob_user_id x = uid)" if "j \<in> set jobs" for j
    using Cons.prems(3) [of j] rows that by fastforce
  from Cons.IH [OF b Cons.prems(2) this, of "\<lambda>i. clock (Suc i)"] Cons.prems(4)
  obtain s' where "dispatch_all w v (\<lambda>i. clock (Suc i)) jitter (\<lambda>s. s) jobs s1 = ([], s')"
    "breaker_at uid t0 False k (Suc n + length jobs) s'" by auto
  then show ?case using d by simp
qed auto

text \<open>
  Switching the webhook off trips the breaker.  When a user disables the webhook while five or
  more jobs wait, dispatching them sends nothing, yet each counts as a failed delivery: the circuit
  is broken and the user is warned of delivery failures that never happened.
\<close>

theorem disabled_webhook_trips_breaker:
  assumes "pref_of uid s = Some p" "\<not> pf_webhook_enabled p" "\<not> pf_circuit_broken p" "pf_consecutive_failures p = 0"
    and "uid \<noteq> 0" "trip_audits uid t0 s = []" "5 \<le> length jobs" "\<And>i. t0 \<le> now (snd (clock i))"
    and "\<And>job. job \<in> set jobs \<Longrightarrow> ob_user_id job = uid \<and> (\<exists>r. job_row (ob_id job) s = Some r \<and> ob_user_id r = uid)"
    and "dispatch_all w v clock jitter (\<lambda>s. s) jobs s = (posts, s')"
  shows "posts = [] \<and> (\<exists>q. pref_of uid s' = Some q \<and> pf_circuit_broken q) \<and>
    length (trip_notices uid s') = Suc (length (trip_notices uid s))"
proof -
  have "breaker_at uid t0 False (length (trip_notices uid s)) 0 s"
    using assms(1-4,6) by (simp add: breaker_at_def)
  from disabled_dispatches [where clock = clock and jobs = jobs and w = w and v = v and jitter = jitter, OF this assms(5) assms(9) assms(8)] assms(10)
  have "posts = []" "breaker_at uid t0 False (length (trip_notices uid s)) (length jobs) s'" by auto
  then show ?thesis using assms(7) unfolding breaker_at_def by auto
qed

subsection \<open>Witnesses\<close>

definition sample_egress :: egress where
  "sample_egress =
     \<lparr>eg_dns = sample_dns, eg_post = (\<lambda>p. Status 204), eg_json = (\<lambda>d. utf8_encode ''{}''), eg_sha256 = (\<lambda>t. t),
      eg_str = (\<lambda>j. []), eg_ssrf_text = (\<lambda>err. ''blocked''), eg_secret_text = (\<lambda>err. ''bad'')\<rparr>"

definition sample_job :: "nat \<Rightarrow> outbox" where
  "sample_job i =
     \<lparr>ob_id = i, ob_uuid = [], ob_user_id = 1, ob_channel = ''WEBHOOK'', ob_destination_url = ''http://good.com/hook'',
      ob_payload = [(''event'', JStr ''ALERT_TRIGGERED'')], ob_idempotency_key = replicate i (CHR ''k''),
      ob_status = ''PENDING'', ob_attempt_count = 0, ob_max_attempts = 3, ob_next_attempt_at = 0,
      ob_locked_at = None, ob_locked_by = None, ob_delivered_at = None, ob_last_error = None, ob_created_at = 0\<rparr>"

definition live_pref :: pref where
  "live_pref =
     hooked_pref\<lparr>pf_webhook_enabled := True, pf_webhook_url := Some ''http://good.com/hook'',
       pf_webhook_secret := Some ''s3cret'', pf_circuit_broken := False, pf_consecutive_failures := 0\<rparr>"

definition job_store :: "pref \<Rightarrow> outbox list \<Rightarrow> store" where
  "job_store p js = empty_store\<lparr>st_prefs := [p], sq_pref := 2, st_outbox := js, sq_outbox := 10\<rparr>"

lemma job_store_simps [simp]:
  "st_outbox (job_store p js) = js" "st_audits (job_store p js) = []" "st_notifications (job_store p js) = []"
  "sq_outbox (job_store p js) = 10" "pref_of (pf_user_id p) (job_store p js) = Some p"
  by (simp_all add: job_store_def pref_of_def first_row_def empty_store_def)

lemma live_pref_simps [simp]:
  "pf_user_id live_pref = 1" "pf_webhook_enabled live_pref" "\<not> pf_circuit_broken live_pref"
  "pf_consecutive_failures live_pref = 0"
  by (simp_all add: live_pref_def hooked_pref_def default_pref_def)

lemma live_pref_of [simp]: "pref_of (Suc 0) (job_store live_pref js) = Some live_pref"
  using job_store_simps(5) [of live_pref js] by simp

lemma sample_delivery:
  "(case attempt_delivery sample_egress sample_vault (sample_env 5000000) (sample_job 1) (job_store live_pref []) of
      (Delivered, Some p) \<Rightarrow> wp_pinned_ip p = ''8.8.8.8'' | _ \<Rightarrow> False)"
  by code_simp

theorem webhook_post_confined_witness:
  "\<exists>post. attempt_delivery sample_egress sample_vault (sample_env 5000000) (sample_job 1) (job_store live_pref []) =
      (Delivered, Some post) \<and> \<not> is_blocked_ip (wp_pinned_ip post) \<and> wp_url post = ''http://good.com/hook''"
proof -
  obtain post where run: "attempt_delivery sample_egress sample_vault (sample_env 5000000) (sample_job 1)
      (job_store live_pref []) = (Delivered, Some post)"
    using sample_delivery by (auto split: prod.splits verdict.splits option.splits)
  have "hex_digest sample_vault" by (simp add: hex_digest_def sample_vault_def str_strip_def is_space_def)
  from webhook_post_confined [OF run this, of "seconds 5"] run show ?thesis
    by (simp add: seconds_def sample_job_def)
qed

theorem breaker_trips_once_witness:
  "length (trip_notices 1 (fold (\<lambda>(e, b). increment_circuit_breaker e 1 b) (replicate 7 (sample_env 3, False))
     (job_store live_pref []))) = 1"
proof -
  let ?xs = "replicate 7 (sample_env 3, False)"
  have p: "pref_of 1 (job_store live_pref []) = Some live_pref" "trip_audits 1 0 (job_store live_pref []) = []"
    by (simp_all add: trip_audits_def)
  have "0 \<le> now (fst x)" if "x \<in> set ?xs" for x using that by simp
  then have "length (trip_notices 1 (fold (\<lambda>(e, b). increment_circuit_breaker e 1 b) ?xs (job_store live_pref []))) =
      length (trip_notices 1 (job_store live_pref [])) + (if 5 \<le> length ?xs then 1 else 0)"
    using breaker_trips_once [OF p(1) live_pref_simps(4,3) p(2) _ refl, of ?xs] by blast
  also have "\<dots> = 1" by (simp add: trip_notices_def)
  finally show ?thesis .
qed

lemma sample_jobs_ids: "outbox_ids (job_store p (map sample_job [1, 2, 3, 4, 5]))"
  by (simp add: outbox_ids_def cursor_ordered_def sample_job_def)

definition sample_run :: "(env \<times> outbox_op) list" where
  "sample_run =
     [(sample_env 5, Claim ''pod-a'' [] 10),
      (sample_env 6, Settle (lock_job 5 ''pod-a'' (sample_job 1)) (Retry ''Connection timeout: '') 600000),
      (sample_env 7, Settle (lock_job 5 ''pod-a'' (sample_job 2)) Delivered 0),
      (sample_env 8, Claim ''pod-b'' [] 10)]"

lemma sample_run_timely: "all_steps timely exec_outbox sample_run (job_store live_pref (map sample_job [1, 2, 3, 4, 5]))"
  by code_simp

lemma sample_jobs_row: "job_row 2 (job_store p (map sample_job [1, 2, 3, 4, 5])) = Some (sample_job 2)"
  by (simp add: job_row_def sample_job_def)

theorem outbox_refines_lifecycle_witness:
  "\<exists>k. job_row 2 (fold exec_outbox sample_run (job_store live_pref (map sample_job [1, 2, 3, 4, 5]))) = Some k \<and>
     lifecycle\<^sup>*\<^sup>* (Waiting 0) (stage_of k)"
proof -
  have "stage_of (sample_job 2) = Waiting 0" by (simp add: stage_of_def sample_job_def)
  with outbox_refines_lifecycle [OF sample_jobs_ids sample_run_timely sample_jobs_row] show ?thesis by metis
qed

theorem outbox_lease_exclusive_witness:
  "ob_id ` set (fst (claim_jobs_sync ''pod-a'' [] 3 (sample_env 5) (job_store live_pref (map sample_job [1, 2, 3, 4, 5])))) \<inter>
   ob_id ` set (fst (claim_jobs_sync ''pod-c'' [] 3 (sample_env 60000005) (claim_all [(''pod-b'', [], 1, sample_env 6)]
     (snd (claim_jobs_sync ''pod-a'' [] 3 (sample_env 5) (job_store live_pref (map sample_job [1, 2, 3, 4, 5]))))))) = {}"
proof -
  have cs: "\<And>c. c \<in> set [(''pod-b'', [] :: nat list, 1 :: nat, sample_env 6)] \<Longrightarrow>
      now (snd (snd (snd c))) \<le> now (sample_env 5) + seconds 60"
    by (simp add: seconds_def)
  have e': "now (sample_env 60000005) \<le> now (sample_env 5) + seconds 60" by (simp add: seconds_def)
  show ?thesis
    using outbox_lease_exclusive [OF prod.collapse [symmetric] cs e' prod.collapse [symmetric]] by blast
qed

theorem retry_bounded_witness:
  "\<exists>k. job_row 2 (record_job_retry_or_fail (sample_env 5) 700000 2 ''timeout'' 2
      (job_store live_pref (map sample_job [1, 2, 3, 4, 5]))) = Some k \<and> ob_status k = ''FAILED''"
  using retry_bounded [OF sample_jobs_row _ _ refl, of 700000 "sample_env 5" "''timeout''" 2 live_pref] by auto

definition delivered_store :: store where
  "delivered_store = job_store live_pref [(sample_job 1)\<lparr>ob_status := ''DELIVERED'', ob_delivered_at := Some 9\<rparr>]"

theorem late_retry_redelivers_witness:
  "\<exists>j\<in>set (fst (claim_jobs_sync ''pod-b'' [] 10 (sample_env 90000000)
      (record_verdict (sample_env 70000000) 600000 (lock_job 5 ''pod-a'' (sample_job 1)) (Retry ''timeout'') delivered_store))).
    ob_id j = 1 \<and> ob_delivered_at j = Some 9"
proof -
  have "outbox_ids delivered_store"
    by (simp add: outbox_ids_def cursor_ordered_def delivered_store_def sample_job_def)
  moreover have "job_row (ob_id (lock_job 5 ''pod-a'' (sample_job 1))) delivered_store =
      Some ((sample_job 1)\<lparr>ob_status := ''DELIVERED'', ob_delivered_at := Some 9\<rparr>)"
    by (simp add: job_row_def delivered_store_def sample_job_def)
  ultimately show ?thesis
    using late_retry_redelivers [of delivered_store "lock_job 5 ''pod-a'' (sample_job 1)" _ 600000
        "sample_env 70000000" "sample_env 90000000" 10 "''pod-b''" "''timeout''"]
    by (simp add: sample_job_def lock_job_def seconds_def delivered_store_def)
qed

definition lost_job :: outbox where
  "lost_job = (sample_job 1)\<lparr>ob_destination_url := ''http://gone.com/hook''\<rparr>"

lemma lost_job_url: "validate_target_url (ob_destination_url lost_job) = Inr (''http'', ''gone.com'', 80, ''/hook'')"
  "numeric_ip ''gone.com'' = None" "parse_ip ''gone.com'' = None" "eg_dns sample_egress ''gone.com'' = None"
  "str_lower (str_strip ''gone.com'') = ''gone.com''"
  by code_simp+

theorem dns_failure_is_terminal_witness:
  "\<exists>k. job_row 1 (snd (dispatch_job sample_egress sample_vault (sample_env 5, sample_env 6) 600000 (\<lambda>s. s) lost_job
      (job_store live_pref [lost_job]))) = Some k \<and> ob_status k = ''FAILED''"
proof -
  let ?s = "job_store live_pref [lost_job]"
  have sec: "delivery_secret sample_egress sample_vault (pref_of (ob_user_id lost_job) ?s) = Inr ''s3cret''"
    by code_simp
  have row: "job_row (ob_id lost_job) ?s = Some lost_job" "ob_user_id lost_job \<noteq> 0" "ob_id lost_job = 1"
    by (simp_all add: job_row_def lost_job_def sample_job_def)
  from dns_failure_is_terminal [OF sec lost_job_url(1) lost_job_url(5) [symmetric] _ lost_job_url(2-4) row(1,2)
      prod.collapse [symmetric]]
  show ?thesis by (simp add: row(3))
qed

definition quiet_pref :: pref where
  "quiet_pref = live_pref\<lparr>pf_webhook_enabled := False\<rparr>"

theorem disabled_webhook_trips_breaker_witness:
  "fst (dispatch_all sample_egress sample_vault (\<lambda>i. (sample_env 5, sample_env 6)) 600000 (\<lambda>s. s)
      (map sample_job [1, 2, 3, 4, 5]) (job_store quiet_pref (map sample_job [1, 2, 3, 4, 5]))) = [] \<and>
   length (trip_notices 1 (snd (dispatch_all sample_egress sample_vault (\<lambda>i. (sample_env 5, sample_env 6)) 600000 (\<lambda>s. s)
      (map sample_job [1, 2, 3, 4, 5]) (job_store quiet_pref (map sample_job [1, 2, 3, 4, 5]))))) = 1"
proof -
  let ?s = "job_store quiet_pref (map sample_job [1, 2, 3, 4, 5])"
  have p: "pref_of 1 ?s = Some quiet_pref" "\<not> pf_webhook_enabled quiet_pref" "\<not> pf_circuit_broken quiet_pref"
    "pf_consecutive_failures quiet_pref = 0" "trip_audits 1 0 ?s = []"
    using job_store_simps(5) [of quiet_pref "map sample_job [1, 2, 3, 4, 5]"]
    by (simp_all add: quiet_pref_def trip_audits_def)
  have jobs: "ob_user_id job = 1 \<and> (\<exists>r. job_row (ob_id job) ?s = Some r \<and> ob_user_id r = 1)"
    if "job \<in> set (map sample_job [1, 2, 3, 4, 5])" for job
    using that by (auto simp: job_row_def sample_job_def)
  have n: "(1 :: nat) \<noteq> 0" "5 \<le> length (map sample_job [1, 2, 3, 4, 5])" "\<And>i :: nat. 0 \<le> now (snd (sample_env 5, sample_env 6))"
    by simp_all
  have "length (trip_notices 1 ?s) = 0" by (simp add: trip_notices_def)
  then show ?thesis
    using disabled_webhook_trips_breaker [where clock = "\<lambda>i. (sample_env 5, sample_env 6)",
        OF p(1-4) n(1) p(5) n(2,3) jobs prod.collapse [symmetric], of sample_egress sample_vault 600000]
    by (metis One_nat_def)
qed

end
