(* ===== verification/Suspension.thy ===== *)
theory Suspension
  imports Worker ContainmentSafety
begin

text \<open>
  How long a suspension lasts, across the components: the calls of users (\<open>MonitoringService\<close>), the
  claims of the schedulers, the checks of the workers and the containment actions, in any order, act on
  one state.  A suspended target without a lease stays so under every operation but the three that
  recover it.
\<close>

subsection \<open>Operations\<close>

definition out_of_service :: "nat \<Rightarrow> store \<Rightarrow> bool" where
  \<comment> \<open>target \<open>i\<close> is suspended and no worker holds a lease on it\<close>
  "out_of_service i st \<longleftrightarrow>
     store_ids st \<and> (\<exists>h\<in>set (st_targets st). tg_id h = i \<and> suspended h \<and> tg_execution_token h = None)"

datatype system_op =
    UserCall monitor_world monitor_call
  | ClaimCycle dialect config "nat \<Rightarrow> bool" env nat
  | Check worker_world env env env "store \<Rightarrow> store" "store \<Rightarrow> store" ClaimedTarget
  | Contain services env soar_op

primrec exec_system :: "system_op \<Rightarrow> soar \<Rightarrow> soar" where
  "exec_system (UserCall w mc) s = in_store (run_monitor w mc) s"
| "exec_system (ClaimCycle d c locked e n) s = in_store (\<lambda>st. snd (claim_targets d c locked e n st)) s"
| "exec_system (Check w e1 e2 e3 during between ct) s =
     in_store (\<lambda>st. snd (execute_target w e1 e2 e3 during between ct st)) s"
| "exec_system (Contain w e c) s = exec_soar (w, e, c) s"

fun recovering :: "nat \<Rightarrow> system_op \<Rightarrow> soar \<Rightarrow> bool" where
  \<comment> \<open>a reactivation of the target, its update to active, and the rollback of a quarantine that recorded it\<close>
  "recovering i (UserCall w (e, ok, u, ip, Reactivate x)) s =
     (\<exists>g\<in>set (st_targets (so_store s)). tg_id g = i \<and> tg_uuid g = x)"
| "recovering i (UserCall w (e, ok, u, ip, monitor_command.Update x m a)) s =
     (a = Some True \<and> (\<exists>g\<in>set (st_targets (so_store s)). tg_id g = i \<and> tg_uuid g = x))"
| "recovering i (Contain w e (Revert x u)) s =
     (\<exists>a. action_of_uuid x s = Some a \<and> ca_action_type a = QUARANTINE_TARGET \<and> recorded_target a = i)"
| "recovering i _ s = False"

primrec considerate :: "nat \<Rightarrow> system_op \<Rightarrow> bool" where
  \<comment> \<open>what other sessions commit within an operation leaves the target out of service\<close>
  "considerate i (UserCall w mc) = True"
| "considerate i (ClaimCycle d c locked e n) = True"
| "considerate i (Check w e1 e2 e3 during between ct) =
     (alert_race w \<and> (\<forall>st. out_of_service i st \<longrightarrow> out_of_service i (during st) \<and> out_of_service i (between st)))"
| "considerate i (Contain w e c) =
     (\<forall>s. out_of_service i (so_store s) \<longrightarrow>
        out_of_service i (so_store (sw_race w s)) \<and> out_of_service i (so_store (sw_overtake w s)))"

fun quiet :: "nat \<Rightarrow> system_op list \<Rightarrow> soar \<Rightarrow> bool" where
  "quiet i [] s = True"
| "quiet i (x # xs) s = (considerate i x \<and> \<not> recovering i x s \<and> quiet i xs (exec_system x s))"

subsection \<open>Calls, claims and checks\<close>

lemma out_of_serviceE:
  assumes "out_of_service i st"
  obtains h where "store_ids st" "h \<in> set (st_targets st)" "tg_id h = i" "suspended h" "tg_execution_token h = None"
  using assms by (auto simp: out_of_service_def)

lemma out_of_serviceI:
  "\<lbrakk>store_ids st; h \<in> set (st_targets st); tg_id h = i; suspended h; tg_execution_token h = None\<rbrakk> \<Longrightarrow> out_of_service i st"
  by (auto simp: out_of_service_def)

lemma out_of_service_row:
  assumes "out_of_service i st" "g \<in> set (st_targets st)" "tg_id g = i"
  shows "suspended g" "tg_execution_token g = None"
proof -
  obtain h where h: "store_ids st" "h \<in> set (st_targets st)" "tg_id h = i" "suspended h" "tg_execution_token h = None"
    by (rule out_of_serviceE [OF assms(1)])
  have "g = h" by (rule unique_by_eq [OF store_ids_targets [OF h(1)] assms(2) h(2)]) (simp add: assms(3) h(3))
  then show "suspended g" "tg_execution_token g = None" using h by simp_all
qed

lemma user_call_keeps:
  assumes "out_of_service i (so_store s)" "\<not> recovering i (UserCall w mc) s"
  shows "out_of_service i (run_monitor w mc (so_store s))"
proof -
  let ?s = "so_store s"
  obtain e ok u ip cmd where mc: "mc = (e, ok, u, ip, cmd)" by (cases mc)
  obtain h where h: "store_ids ?s" "h \<in> set (st_targets ?s)" "tg_id h = i" "suspended h" "tg_execution_token h = None"
    by (rule out_of_serviceE [OF assms(1)])
  have ids: "store_ids (run_monitor w mc ?s)" by (rule run_monitor_ids [OF h(1)])
  show ?thesis
    using mc
  proof (cases rule: run_monitor_cases [where w = w and s = ?s])
    case (3 x a d)
    have x: "x \<in> set (st_targets ?s)" "tg_uuid x = call_uuid cmd" using get_target_Some [OF 3(1)] by simp_all
    show ?thesis
    proof (cases "tg_id x = i")
      case True
      then have sx: "suspended x" "tg_execution_token x = None" using out_of_service_row [OF assms(1) x(1)] by simp_all
      have rec: "cmd \<noteq> Reactivate (tg_uuid x)" "\<And>m. cmd \<noteq> monitor_command.Update (tg_uuid x) m (Some True)"
        using assms(2) x(1) True by (auto simp: mc)
      have "suspended (call_update w mc ?s x) \<and> tg_execution_token (call_update w mc ?s x) = None"
        using sx rec x(2) 3(3)
        by (cases cmd) (auto simp: mc suspended_def call_update_def call_guard_def call_uuid_def update_attrs_def Let_def
            split: option.splits)
      moreover have "call_update w mc ?s x \<in> set (st_targets (run_monitor w mc ?s))"
        using x(1) by (auto simp: 3(4) in_upd_rows intro!: bexI [of _ x])
      moreover have "tg_id (call_update w mc ?s x) = i"
        using call_update_identity [of w mc ?s] True by (simp add: keeps_identity_def)
      ultimately show ?thesis using ids by (auto intro: out_of_serviceI)
    next
      case False
      then have "h \<in> set (st_targets (run_monitor w mc ?s))" using h(2,3) by (auto simp: 3(4) intro: upd_rows_keep)
      then show ?thesis using ids h by (auto intro: out_of_serviceI)
    qed
  qed (use h ids in \<open>auto intro: out_of_serviceI\<close>)
qed

lemma out_of_service_not_claimed:
  assumes "out_of_service i st"
  shows "i \<notin> tg_id ` set (claim_candidates d c locked e st)"
proof
  assume "i \<in> tg_id ` set (claim_candidates d c locked e st)"
  then obtain x where x: "x \<in> set (claim_candidates d c locked e st)" "tg_id x = i" by auto
  then have "x \<in> set (st_targets st)" "tg_is_active x"
    using set_claim_candidates [OF x(1)] by (auto simp: claimable_def)
  then show False using out_of_service_row [OF assms _ x(2)] by (simp add: suspended_def)
qed

lemma claim_keeps:
  assumes "out_of_service i st" shows "out_of_service i (snd (claim_targets d c locked e n st))"
proof -
  let ?s = "snd (claim_targets d c locked e n st)" and ?gs = "claim_candidates d c locked e st"
  obtain h where h: "store_ids st" "h \<in> set (st_targets st)" "tg_id h = i" "suspended h" "tg_execution_token h = None"
    by (rule out_of_serviceE [OF assms(1)])
  have "h \<in> set (filter (\<lambda>g. tg_id g \<notin> tg_id ` set ?gs) (st_targets st))"
    using h(2,3) out_of_service_not_claimed [OF assms, of d c locked e] by simp
  then have "h \<in> set (filter (\<lambda>g. tg_id g \<notin> tg_id ` set ?gs) (st_targets ?s))"
    unfolding claim_targets_eq claim_rows_others .
  then show ?thesis using h claim_targets_store_ids [OF h(1)] by (auto intro: out_of_serviceI)
qed

lemma finish_keeps:
  assumes "out_of_service i st" "finish_check e t ct uuid subtype p pr c sp n st = (ok, st')"
  shows "out_of_service i st'"
proof -
  obtain h where h: "store_ids st" "h \<in> set (st_targets st)" "tg_id h = i" "suspended h" "tg_execution_token h = None"
    by (rule out_of_serviceE [OF assms(1)])
  note f = finish_check_rows [OF h(1) assms(2)]
  show ?thesis
  proof (cases ok)
    case True
    then obtain g where g: "g \<in> set (st_targets st)"
        "owns_lease (now e) (ct_target_id ct) (ct_execution_token ct) (ct_execution_epoch ct) g"
      and rows: "st_targets st' = upd_rows (\<lambda>g. tg_id g = ct_target_id ct) (checked t ct pr c sp n) (st_targets st)"
      and ids: "store_ids st'"
      using f by auto
    have "ct_target_id ct \<noteq> i"
      using out_of_service_row(2) [OF assms(1) g(1)] g(2) by (auto simp: owns_lease_def)
    then have "h \<in> set (st_targets st')" using h(2,3) by (auto simp: rows intro: upd_rows_keep)
    then show ?thesis using ids h by (auto intro: out_of_serviceI)
  qed (use f assms(1) in simp)
qed

lemma out_of_service_targets:
  "out_of_service i st \<Longrightarrow> st_targets st' = st_targets st \<Longrightarrow> store_ids st' \<Longrightarrow> out_of_service i st'"
  by (auto simp: out_of_service_def)

lemma check_keeps:
  assumes "out_of_service i st" "considerate i (Check w e1 e2 e3 during between ct)"
  shows "out_of_service i (snd (execute_target w e1 e2 e3 during between ct st))"
proof -
  have others: "out_of_service i x \<Longrightarrow> out_of_service i (during x)" "out_of_service i x \<Longrightarrow> out_of_service i (between x)"
    and race: "alert_race w" for x
    using assms(2) by simp_all
  obtain r s' where run: "execute_target w e1 e2 e3 during between ct st = (r, s')" by fastforce
  then have "out_of_service i s'"
  proof (cases rule: execute_cases)
    case (reported p pr c et sv subtype sp n go s2)
    have d: "out_of_service i (during st)" by (rule others(1) [OF assms(1)])
    then have ids: "store_ids (during st)" by (simp add: out_of_service_def)
    have s2: "out_of_service i s2"
      by (rule out_of_service_targets [OF d report_targets(1) [OF race reported(6)] report_targets(2) [OF race reported(6) ids]])
    show ?thesis
    proof (cases go)
      case True
      then show ?thesis using reported(7) finish_keeps [OF others(2) [OF s2]] by simp
    qed (use reported(7) s2 in simp)
  qed (use others assms(1) in simp_all)
  then show ?thesis by (simp add: run)
qed

lemma suspension_starts:
  \<comment> \<open>the fifth failed check leaves its target out of service\<close>
  assumes "store_ids st" "finish_check e t ct uuid subtype p pr c True n st = (True, st')" "5 \<le> n"
  shows "out_of_service (ct_target_id ct) st'"
proof -
  obtain g where g: "g \<in> set (st_targets st)" "tg_id g = ct_target_id ct"
    and rows: "st_targets st' = upd_rows (\<lambda>g. tg_id g = ct_target_id ct) (checked t ct pr c True n) (st_targets st)"
    and ids: "store_ids st'"
    using finish_check_rows [OF assms(1,2)] by (auto simp: owns_lease_def)
  have "checked t ct pr c True n g \<in> set (st_targets st')" using g by (auto simp: rows in_upd_rows)
  then show ?thesis
    using ids g(2) assms(3)
    by (intro out_of_serviceI [of _ "checked t ct pr c True n g"]) (simp_all add: suspended_def)
qed

subsection \<open>Containment\<close>

text \<open>
  A predicate on the store that the containment actions keep: it does not depend on the logs, binding an
  incident keeps it, and so does the quarantine of an active target.  Then everything but a rollback
  keeps it, provided the other sessions do.
\<close>

definition guarded :: "(store \<Rightarrow> bool) \<Rightarrow> services \<Rightarrow> bool" where
  "guarded K w \<longleftrightarrow> (\<forall>s. K (so_store s) \<longrightarrow> K (so_store (sw_race w s)) \<and> K (so_store (sw_overtake w s)))"

lemma guardedD:
  "guarded K w \<Longrightarrow> K (so_store s) \<Longrightarrow> K (so_store (sw_race w s))"
  "guarded K w \<Longrightarrow> K (so_store s) \<Longrightarrow> K (so_store (sw_overtake w s))"
  by (simp_all add: guarded_def)

locale store_guard =
  fixes K :: "store \<Rightarrow> bool"
  assumes logs: "K (add_audit r st) = K st" "K (add_soc_event v st) = K st" "K (broadcast_soc v st) = K st"
    and binds: "K st \<Longrightarrow> bind_incident e q st = (j, st') \<Longrightarrow> K st'"
    and quarantines: "K st \<Longrightarrow> g \<in> set (st_targets st) \<Longrightarrow> tg_is_active g \<Longrightarrow> K (set_target (tg_id g) (quarantine_target a m) st)"
begin

lemma policy_keeps:
  "guarded K w \<Longrightarrow> K (so_store s) \<Longrightarrow> get_or_create_policy w e t s = (p, s') \<Longrightarrow> K (so_store s')"
  using policy_tables [of w e t s p s'] guardedD(1) by fastforce

lemma others_keep: "guarded K w \<Longrightarrow> K (so_store s) \<Longrightarrow> K (so_store (others_committed w t s))"
  by (simp add: others_committed_def guardedD)

lemma perform_keeps:
  assumes "perform w e q a s = (res, s')" "guarded K w" "K (so_store s)"
  shows "K (so_store s')"
proof (cases "aq_action_type q")
  case BLACKLIST_INDICATOR
  then have "perform_blacklist w e q a s = (res, s')" using assms(1) by (simp add: perform_def)
  then show ?thesis
  proof (cases rule: perform_blacklist_cases)
    case blocked
    then show ?thesis using assms(3) by (simp add: logs)
  next
    case (allowed p s1)
    have s1: "K (so_store s1)" by (rule policy_keeps [OF assms(2,3) allowed(2)])
    then have "K (so_store (sw_overtake w s1))" by (rule guardedD(2) [OF assms(2)])
    then show ?thesis using allowed(3) s1 by auto
  qed
next
  case QUARANTINE_TARGET
  then have "perform_quarantine e q a s = (res, s')" using assms(1) by (simp add: perform_def)
  then show ?thesis
  proof (cases rule: perform_quarantine_cases)
    case (idle f)
    then show ?thesis using assms(3) by (simp add: logs)
  next
    case (quarantined g d)
    have "g \<in> set (named_targets (aq_tenant_id q) (aq_target_identifier q) (so_store s))" using quarantined(1) by simp
    then have "g \<in> set (st_targets (so_store s))" by (simp add: named_targets_def)
    then show ?thesis using quarantines [OF assms(3)] quarantined(2,4) by simp
  qed
next
  case CREATE_INCIDENT
  then show ?thesis
    using assms(1,3) binds by (auto simp: perform_def perform_create_incident_def split: prod.splits)
qed (use assms in \<open>auto simp: perform_def perform_invalidate_cache_def perform_emit_def perform_notify_def logs\<close>)

lemma execute_keeps:
  assumes "execute_action w e q s = (a, s')" "guarded K w" "K (so_store s)"
  shows "K (so_store s')"
  using assms(1)
proof (cases rule: execute_action_cases)
  case (performed b res s3)
  have "K (so_store (sw_race w s))" by (rule guardedD(1) [OF assms(2,3)])
  then have "K (so_store s3)"
    using perform_keeps [OF performed(4) assms(2)] by (simp add: add_action_def)
  then show ?thesis using performed(5) by (auto simp: settle_def logs split: sum.splits if_splits)
qed (use assms guardedD in simp_all)

lemma run_actions_keeps:
  "run_actions w e r q n ts s = (res, s') \<Longrightarrow> guarded K w \<Longrightarrow> K (so_store s) \<Longrightarrow> K (so_store s')"
proof (induction w e r q n ts s rule: run_actions.induct)
  case (2 w e r q n t ts s)
  obtain a s1 where x: "execute_action w (env_shift (4 + 10 * n) e) (q\<lparr>aq_action_type := t\<rparr>) s = (a, s1)" by fastforce
  have s1: "K (so_store s1)" by (rule execute_keeps [OF x 2(3,4)])
  consider "s' = s" | "s' = s1" | "run_actions w e r q (Suc n) ts s1 = (res, s')"
    "\<not> (t \<in> {BLACKLIST_INDICATOR, QUARANTINE_TARGET} \<and> \<not> owns_run r s)" "ca_status a \<noteq> FAILED"
    using 2(2) x by (auto split: if_splits)
  then show ?case
  proof cases
    case 3
    show ?thesis by (rule 2(1) [OF 3(2) x [symmetric] 3(3,1) 2(3) s1])
  qed (use 2(4) s1 in simp_all)
qed simp

lemma acquire_keeps:
  assumes "acquire_tenant_concurrency_lease w e t s = (res, s')" "guarded K w" "K (so_store s)"
  shows "K (so_store s')"
proof -
  obtain p s1 where p: "get_or_create_policy w e t s = (p, s1)" by fastforce
  have "K (so_store s1)" "K (so_store (others_committed w t s))"
    by (rule policy_keeps [OF assms(2,3) p], rule others_keep [OF assms(2,3)])
  then show ?thesis
    using assms(1,3) p by (auto simp: acquire_tenant_concurrency_lease_def Let_def split: if_splits)
qed

lemma playbook_keeps:
  assumes "execute_playbook w e p s = (res, s')" "guarded K w" "K (so_store s)"
  shows "K (so_store s')"
  using assms(1)
proof (cases rule: execute_playbook_cases)
  case (refused err)
  then show ?thesis using acquire_keeps [OF refused(2) assms(2,3)] by simp
next
  case (raced token s1 r)
  then show ?thesis using guardedD(1) [OF assms(2) acquire_keeps [OF raced(2) assms(2,3)]] by simp
next
  case (started token s1 r r' s2)
  have s1: "K (so_store (sw_race w s1))" by (rule guardedD(1) [OF assms(2) acquire_keeps [OF started(2) assms(2,3)]])
  from started(5) obtain out s4 g where
    run: "run_actions w e r (action_of_playbook p r) 0 (action_sequence (pq_playbook_name p))
      (in_store (add_soc_event (triggered_event e p r)) (add_run r (sw_race w s1))) = (out, s4)"
    and s2: "s2 = in_store g (set_run (pr_id r) (\<lambda>_. r') s4)" "\<And>st. g st = st \<or> (\<exists>ev. g st = broadcast_soc ev st)"
    by (rule run_playbook_cases) blast+
  have "K (so_store s4)" using run_actions_keeps [OF run assms(2)] s1 by (simp add: add_run_def logs)
  then show ?thesis using s2(2) [of "so_store s4"] by (auto simp: started(7) s2(1) logs)
qed (use assms(3) in simp)

lemma evaluate_keeps:
  assumes "evaluate_alert_containment w e a s = (res, s')" "guarded K w" "K (so_store s)"
  shows "K (so_store s')"
proof -
  have start: "K (so_store s')" if st: "start_playbook w e p s1 = (res, s')" and s1: "K (so_store s1)" for p s1
  proof -
    obtain r where "execute_playbook w e p s1 = (r, s')"
      using st by (auto simp: start_playbook_def split: prod.splits sum.splits)
    from playbook_keeps [OF this assms(2) s1] show ?thesis .
  qed
  show ?thesis
    using assms(1)
  proof (cases rule: evaluate_cases)
    case (idle p)
    then show ?thesis using policy_keeps [OF assms(2,3)] by blast
  next
    case (quarantine p s1 g)
    show ?thesis by (rule start [OF quarantine(8) policy_keeps [OF assms(2,3) quarantine(2)]])
  next
    case (blacklist p s1)
    show ?thesis by (rule start [OF blacklist(6) policy_keeps [OF assms(2,3) blacklist(2)]])
  qed (use assms(3) others_keep [OF assms(2,3)] in simp_all)
qed

lemma update_policy_keeps:
  assumes "guarded K w" "K (so_store s)" shows "K (so_store (snd (update_policy w e t d uid s)))"
proof -
  obtain p s1 where g: "get_or_create_policy w e t s = (p, s1)" by fastforce
  have "K (so_store s1)" by (rule policy_keeps [OF assms g])
  then show ?thesis using others_keep [OF assms] by (simp add: update_policy_def g Let_def logs)
qed

lemma containment_keeps:
  assumes "guarded K w" "K (so_store s)" "\<And>x u. c \<noteq> Revert x u"
  shows "K (so_store (exec_soar (w, e, c) s))"
proof (cases c)
  case (Execute q)
  then show ?thesis
    using execute_keeps [OF _ assms(1,2), of e q] by (simp add: exec_soar_def prod_eq_iff)
next
  case (Playbook p)
  then show ?thesis
    using playbook_keeps [OF _ assms(1,2), of e p] by (simp add: exec_soar_def prod_eq_iff)
next
  case (Evaluate a)
  then show ?thesis
    using evaluate_keeps [OF _ assms(1,2), of e a] by (simp add: exec_soar_def prod_eq_iff)
next
  case (UpdatePolicy t d uid)
  then show ?thesis using update_policy_keeps [OF assms(1,2)] by (simp add: exec_soar_def)
qed (use assms(3) in simp)

end

lemma bind_incident_frame:
  assumes "bind_incident e q st = (j, st')"
  shows "st_targets st' = st_targets st" "store_ids st \<Longrightarrow> store_ids st'"
proof -
  have "st' = st \<or> (\<exists>x. st' = snd (threat_incident_for e q x st))"
    using assms by (auto simp: bind_incident_def split: option.splits if_splits prod.splits) (metis snd_conv)
  then show "st_targets st' = st_targets st" "store_ids st \<Longrightarrow> store_ids st'"
    using threat_incident_ids [of st] by (auto simp: threat_incident_for_def)
qed

interpretation suspension: store_guard "out_of_service i" for i
proof
  fix r v st
  have ids: "store_ids (add_audit r s) = store_ids s" "store_ids (add_soc_event v s) = store_ids s"
    "store_ids (publish_event p s) = store_ids s" for s r v p
    by (auto simp: store_ids_def add_defs cursor_ordered_def sorted_wrt_append less_Suc_eq)
  show "out_of_service i (add_audit r st) = out_of_service i st"
    "out_of_service i (add_soc_event v st) = out_of_service i st"
    "out_of_service i (broadcast_soc v st) = out_of_service i st"
    by (simp_all add: out_of_service_def broadcast_soc_def ids)
next
  fix st e q j st'
  assume "out_of_service i st" "bind_incident e q st = (j, st')"
  then show "out_of_service i st'"
    using bind_incident_frame [of e q st j st'] by (auto simp: out_of_service_def)
next
  fix st g a m
  assume o: "out_of_service i st" and g: "g \<in> set (st_targets st)" "tg_is_active g"
  obtain h where h: "store_ids st" "h \<in> set (st_targets st)" "tg_id h = i" "suspended h" "tg_execution_token h = None"
    by (rule out_of_serviceE [OF o])
  have "tg_id g \<noteq> i" using out_of_service_row(1) [OF o g(1)] g(2) by (auto simp: suspended_def)
  then have "h \<in> set (st_targets (set_target (tg_id g) (quarantine_target a m) st))"
    using h(2,3) by (auto simp: set_target_def intro: upd_rows_keep)
  moreover have "store_ids (set_target (tg_id g) (quarantine_target a m) st)"
    using h(1) by (intro store_ids_set) (simp_all add: quarantine_target_def)
  ultimately show "out_of_service i (set_target (tg_id g) (quarantine_target a m) st)"
    using h by (auto intro: out_of_serviceI)
qed

lemma revert_keeps:
  assumes "out_of_service i (so_store s)" "\<not> recovering i (Contain w e (Revert x u)) s"
  shows "out_of_service i (so_store (snd (revert_action e x u s)))"
proof -
  obtain res s' where run: "revert_action e x u s = (res, s')" by fastforce
  then have "out_of_service i (so_store s')"
  proof (cases rule: revert_cases)
    case (reverted a)
    have other: "ca_action_type a = QUARANTINE_TARGET \<Longrightarrow> recorded_target a \<noteq> i" using assms(2) reverted(1) by simp
    have "out_of_service i (so_store (roll_back e a s))"
    proof (cases "ca_action_type a = QUARANTINE_TARGET")
      case True
      obtain h where h: "store_ids (so_store s)" "h \<in> set (st_targets (so_store s))" "tg_id h = i" "suspended h"
        "tg_execution_token h = None" by (rule out_of_serviceE [OF assms(1)])
      have "\<not> quarantined_by a h" using other [OF True] h(3) by (simp add: quarantined_by_def)
      then have "h \<in> set (upd_rows (quarantined_by a) release_target (st_targets (so_store s)))"
        by (rule upd_rows_keep [OF h(2)])
      moreover have "store_ids ((so_store s)\<lparr>st_targets := upd_rows (quarantined_by a) release_target (st_targets (so_store s))\<rparr>)"
        using h(1) by (auto simp: store_ids_def release_target_def intro: cursor_ordered_upd_rows)
      ultimately show ?thesis
        using h(3-5) by (intro out_of_serviceI [of _ h]) (simp_all add: roll_back_def True)
    qed (use assms(1) in \<open>cases "ca_action_type a"; simp add: roll_back_def\<close>)
    then show ?thesis by (simp add: reverted(5) suspension.logs)
  qed (use assms(1) in simp_all)
  then show ?thesis by (simp add: run)
qed

subsection \<open>The suspension\<close>

lemma system_op_keeps:
  assumes "out_of_service i (so_store s)" "considerate i x" "\<not> recovering i x s"
  shows "out_of_service i (so_store (exec_system x s))"
proof (cases x)
  case (UserCall w mc)
  then show ?thesis using user_call_keeps [OF assms(1)] assms(3) by simp
next
  case (ClaimCycle d c locked e n)
  then show ?thesis using claim_keeps [OF assms(1)] by simp
next
  case (Check w e1 e2 e3 during between ct)
  then show ?thesis using check_keeps [OF assms(1)] assms(2) by simp
next
  case (Contain w e c)
  show ?thesis
  proof (cases "\<exists>y u. c = Revert y u")
    case True
    then show ?thesis using revert_keeps [OF assms(1)] assms(3) Contain by (auto simp: exec_soar_def)
  next
    case False
    have "guarded (out_of_service i) w" using assms(2) by (simp add: Contain guarded_def)
    from suspension.containment_keeps [OF this assms(1)] False show ?thesis by (simp add: Contain)
  qed
qed

lemma quiet_run_keeps:
  "out_of_service i (so_store s) \<Longrightarrow> quiet i xs s \<Longrightarrow> out_of_service i (so_store (fold exec_system xs s))"
  by (induction xs arbitrary: s) (simp_all add: system_op_keeps)

text \<open>
  C34: a suspension lasts until it is recovered.  Take a target that is suspended and has no lease,
  as the check that suspends it leaves it, and let users, schedulers, workers and the containment
  engine do anything in any order.  As long as nobody reactivates this target, updates it to active, or
  reverts a quarantine that recorded it, and what other sessions commit in the middle of an operation
  respects the suspension as well, it stays inactive with at least five failures and without a lease,
  and no scheduler claims it.
\<close>

theorem suspended_until_recovery:
  assumes "store_ids (so_store s)" "g \<in> set (st_targets (so_store s))" "suspended g" "tg_execution_token g = None"
    and "quiet (tg_id g) xs s"
  shows "(\<exists>h\<in>set (st_targets (so_store (fold exec_system xs s))). tg_id h = tg_id g \<and> suspended h \<and> tg_execution_token h = None) \<and>
    tg_id g \<notin> ct_target_id ` set (fst (claim_targets d c locked e n (so_store (fold exec_system xs s))))"
proof -
  have "out_of_service (tg_id g) (so_store (fold exec_system xs s))"
    by (rule quiet_run_keeps [OF out_of_serviceI [OF assms(1,2) refl assms(3,4)] assms(5)])
  then show ?thesis
    using out_of_service_not_claimed unfolding claim_targets_ids by (auto simp: out_of_service_def)
qed

text \<open>A resumption, a claim, a check of the target and the quarantine of another one leave it suspended.\<close>

definition sample_system :: "system_op list" where
  "sample_system =
     [UserCall sample_world (sample_env 10, True, alice, None, Resume ''t2''),
      ClaimCycle Postgresql pod_a (\<lambda>_. False) (sample_env 11) 7,
      Check sample_worker (sample_env 12) (sample_env 13) (sample_env 14) (\<lambda>s. s) (\<lambda>s. s) (sample_claim\<lparr>ct_target_id := 2\<rparr>),
      Contain sample_services (sample_env 15) (Execute quarantine_request)]"

theorem suspended_until_recovery_witness:
  "\<exists>h\<in>set (st_targets (so_store (fold exec_system sample_system watched_soar))). tg_id h = 2 \<and> suspended h \<and>
     tg_execution_token h = None"
proof -
  let ?g = "(sample_target 2 3)\<lparr>tg_uuid := ''t2'', tg_is_active := False, tg_consecutive_failures := 5\<rparr>"
  have g: "?g \<in> set (st_targets (so_store watched_soar))" "suspended ?g" "tg_execution_token ?g = None" and i: "tg_id ?g = 2"
    by (simp_all add: suspended_def watched_soar_def paused_store_def sample_target_def)
  have "quiet 2 sample_system watched_soar" by (simp add: sample_system_def sample_services_def)
  then have q: "quiet (tg_id ?g) sample_system watched_soar" by (simp only: i)
  show ?thesis by (rule suspended_until_recovery [OF watched_soar_ok(2) g q, THEN conjunct1, unfolded i])
qed

end
