(* ===== verification/Retention.thy ===== *)
theory Retention
  imports Broadcaster Containment
begin

text \<open>
  \<open>backend/services/retention_worker.py\<close>: the four pruning loops of one retention pass, the leader
  lock and one round of the worker's loop.  Each loop deletes a batch of the oldest eligible rows
  and commits, until a batch is short or the worker is stopped; \<open>running k\<close> is the flag at its
  \<open>k\<close>-th test.  Between two batches the table is as the last batch left it.
\<close>

definition BATCH_SIZE :: nat where
  "BATCH_SIZE = 500"

definition EVENT_STREAM_TTL_DAYS :: int where
  "EVENT_STREAM_TTL_DAYS = 7"

definition OUTBOX_TTL_DAYS :: int where
  "OUTBOX_TTL_DAYS = 30"

definition CONTAINMENT_TTL_DAYS :: int where
  "CONTAINMENT_TTL_DAYS = 90"

subsection \<open>One table\<close>

definition batch_keys :: "nat \<Rightarrow> ('r \<Rightarrow> nat) \<Rightarrow> ('r \<Rightarrow> bool) \<Rightarrow> 'r list \<Rightarrow> nat list" where
  \<comment> \<open>\<open>select(pk).where(..).order_by(pk).limit(n)\<close>\<close>
  "batch_keys n key old rows = take n (sort (map key (filter old rows)))"

definition delete_keys :: "('r \<Rightarrow> nat) \<Rightarrow> nat list \<Rightarrow> 'r list \<Rightarrow> 'r list" where
  "delete_keys key pks rows = filter (\<lambda>r. key r \<notin> set pks) rows"

lemma batch_keys_sub: "set (batch_keys n key old rows) \<subseteq> key ` {r \<in> set rows. old r}"
  by (auto simp: batch_keys_def dest!: in_set_takeD)

lemma delete_keys_shorter:
  assumes "batch_keys n key old rows \<noteq> []"
  shows "length (delete_keys key (batch_keys n key old rows) rows) < length rows"
proof -
  obtain k where "k \<in> set (batch_keys n key old rows)" using assms by (meson last_in_set)
  then obtain r where "r \<in> set rows" "key r \<in> set (batch_keys n key old rows)"
    using batch_keys_sub [of n key old rows] by auto
  then show ?thesis unfolding delete_keys_def by (auto intro: length_filter_less)
qed

function prune :: "('r \<Rightarrow> nat) \<Rightarrow> ('r \<Rightarrow> bool) \<Rightarrow> (nat \<Rightarrow> bool) \<Rightarrow> nat \<Rightarrow> 'r list \<Rightarrow> nat \<times> 'r list" where
  "prune key old running k rows =
     (if \<not> running k then (0, rows)
      else
        let pks = batch_keys BATCH_SIZE key old rows
        in if pks = [] then (0, rows)
           else
             let rest = delete_keys key pks rows
             in if length pks < BATCH_SIZE then (length pks, rest)
                else (case prune key old running (Suc k) rest of (n, final) \<Rightarrow> (length pks + n, final)))"
  by pat_completeness auto
termination
  by (relation "measure (\<lambda>(key, old, running, k, rows). length rows)") (auto simp: delete_keys_shorter)

declare prune.simps [simp del]

subsection \<open>A pass\<close>

definition old_event :: "time \<Rightarrow> soc_event \<Rightarrow> bool" where
  "old_event t v = (se_created_at v < t - days EVENT_STREAM_TTL_DAYS)"

definition old_job :: "time \<Rightarrow> outbox \<Rightarrow> bool" where
  "old_job t j =
     (ob_created_at j < t - days OUTBOX_TTL_DAYS \<and> ob_status j \<in> {''DELIVERED'', ''DEAD_LETTER''})"

definition old_action :: "time \<Rightarrow> action \<Rightarrow> bool" where
  "old_action t a =
     (ca_created_at a < t - days CONTAINMENT_TTL_DAYS \<and>
      ca_status a \<in> {EXECUTED, REVERTED, FAILED, BLOCKED_BY_ALLOWLIST})"

definition old_run :: "time \<Rightarrow> playbook_run \<Rightarrow> bool" where
  "old_run t r =
     (pr_created_at r < t - days CONTAINMENT_TTL_DAYS \<and>
      run_status_value (pr_status r) \<in> {''COMPLETED'', ''FAILED'', ''REVERTED''})"

definition prune_event_stream :: "time \<Rightarrow> (nat \<Rightarrow> bool) \<Rightarrow> soar \<Rightarrow> nat \<times> soar" where
  "prune_event_stream t running s =
     (case prune se_cursor_id (old_event t) running 0 (st_stream (so_store s)) of
        (n, rows) \<Rightarrow> (n, in_store (\<lambda>st. st\<lparr>st_stream := rows\<rparr>) s))"

definition prune_outbox :: "time \<Rightarrow> (nat \<Rightarrow> bool) \<Rightarrow> soar \<Rightarrow> nat \<times> soar" where
  "prune_outbox t running s =
     (case prune ob_id (old_job t) running 0 (st_outbox (so_store s)) of
        (n, rows) \<Rightarrow> (n, in_store (\<lambda>st. st\<lparr>st_outbox := rows\<rparr>) s))"

definition prune_containment_actions :: "time \<Rightarrow> (nat \<Rightarrow> bool) \<Rightarrow> soar \<Rightarrow> nat \<times> soar" where
  "prune_containment_actions t running s =
     (case prune ca_id (old_action t) running 0 (so_actions s) of (n, rows) \<Rightarrow> (n, s\<lparr>so_actions := rows\<rparr>))"

definition prune_playbook_runs :: "time \<Rightarrow> (nat \<Rightarrow> bool) \<Rightarrow> soar \<Rightarrow> nat \<times> soar" where
  "prune_playbook_runs t running s =
     (case prune pr_id (old_run t) running 0 (so_runs s) of (n, rows) \<Rightarrow> (n, s\<lparr>so_runs := rows\<rparr>))"

text \<open>The four flags are those that the four loops see.\<close>

definition run_once :: "time \<Rightarrow> (nat \<Rightarrow> nat \<Rightarrow> bool) \<Rightarrow> soar \<Rightarrow> (string \<times> nat) list \<times> soar" where
  "run_once t running s =
     (let (n1, s1) = prune_event_stream t (running 0) s;
          (n2, s2) = prune_outbox t (running 1) s1;
          (n3, s3) = prune_containment_actions t (running 2) s2;
          (n4, s4) = prune_playbook_runs t (running 3) s3
      in ([(''soc_event_stream'', n1), (''notification_outbox'', n2), (''soc_containment_actions'', n3),
           (''soc_playbook_runs'', n4)], s4))"

subsection \<open>The worker's loop\<close>

text \<open>
  The leader lock reads \<open>cache_service.redis_client\<close>.  Reading an attribute that the object does not
  have raises \<open>AttributeError\<close>; the attributes of a \<open>CacheService\<close> are those its class defines.
\<close>

definition CacheService_attributes :: "string list" where
  "CacheService_attributes =
     [''_client'', ''connect'', ''disconnect'', ''_make_key'', ''get'', ''set'', ''available'']"

datatype lock_answer = Acquired | Taken | LockError

definition try_acquire_leader_lock :: "string list \<Rightarrow> lock_answer option \<Rightarrow> bool option" where
  \<comment> \<open>\<open>None\<close> is the \<open>AttributeError\<close>; the second argument is the answer of Redis, \<open>None\<close> without a client\<close>
  "try_acquire_leader_lock attributes redis =
     (if ''redis_client'' \<notin> set attributes then None
      else Some (case redis of None \<Rightarrow> True | Some Acquired \<Rightarrow> True | Some Taken \<Rightarrow> False | Some LockError \<Rightarrow> True))"

definition worker_round ::
  "string list \<Rightarrow> lock_answer option \<Rightarrow> time \<Rightarrow> (nat \<Rightarrow> nat \<Rightarrow> bool) \<Rightarrow> soar \<Rightarrow> soar" where
  \<comment> \<open>one turn of \<open>_worker_loop\<close>; an exception is logged and ends the turn\<close>
  "worker_round attributes redis t running s =
     (case try_acquire_leader_lock attributes redis of
        Some True \<Rightarrow> snd (run_once t running s)
      | _ \<Rightarrow> s)"

subsection \<open>What a loop deletes\<close>

lemma length_batch_keys: "length (batch_keys n key old rows) = min n (length (filter old rows))"
  by (simp add: batch_keys_def)

lemma delete_short_batch:
  assumes "length (batch_keys n key old rows) < n" "distinct (map key rows)"
  shows "delete_keys key (batch_keys n key old rows) rows = filter (\<lambda>r. \<not> old r) rows"
proof -
  have "set (batch_keys n key old rows) = key ` {r \<in> set rows. old r}"
    using assms(1) by (simp add: length_batch_keys batch_keys_def min_def split: if_splits)
  then show ?thesis
    using assms(2) unfolding delete_keys_def by (auto simp: distinct_map inj_on_def intro!: filter_cong)
qed

lemma old_after_delete:
  assumes "distinct (map key rows)"
  shows "filter (\<lambda>r. \<not> old r) (delete_keys key (batch_keys n key old rows) rows) = filter (\<lambda>r. \<not> old r) rows"
    and "length (filter old (delete_keys key (batch_keys n key old rows) rows)) +
      length (batch_keys n key old rows) = length (filter old rows)"
    and "distinct (map key (delete_keys key (batch_keys n key old rows) rows))"
proof -
  let ?pks = "batch_keys n key old rows"
  have pk: "old r" if "r \<in> set rows" "key r \<in> set ?pks" for r
    using that assms batch_keys_sub [of n key old rows] by (auto simp: distinct_map inj_on_def)
  show "filter (\<lambda>r. \<not> old r) (delete_keys key ?pks rows) = filter (\<lambda>r. \<not> old r) rows"
    unfolding delete_keys_def using pk by (auto intro!: filter_cong)
  show "distinct (map key (delete_keys key ?pks rows))"
    unfolding delete_keys_def using assms by (rule distinct_map_filter)
  have dk: "distinct ?pks" using assms by (simp add: batch_keys_def distinct_map_filter)
  have "set ?pks = key ` set (filter (\<lambda>r. key r \<in> set ?pks) rows)"
    using batch_keys_sub [of n key old rows] by auto
  moreover have "distinct (map key (filter (\<lambda>r. key r \<in> set ?pks) rows))"
    using assms by (rule distinct_map_filter)
  ultimately have "length ?pks = length (filter (\<lambda>r. key r \<in> set ?pks) rows)"
    using dk by (metis distinct_card length_map set_map)
  also have "filter (\<lambda>r. key r \<in> set ?pks) rows = filter (\<lambda>r. key r \<in> set ?pks) (filter old rows)"
    using pk by (auto intro!: filter_cong)
  finally show "length (filter old (delete_keys key ?pks rows)) + length ?pks = length (filter old rows)"
    using sum_length_filter_compl [of "\<lambda>r. key r \<in> set ?pks" "filter old rows"]
    by (simp add: delete_keys_def conj_commute)
qed

lemma prune_stop: "\<not> running k \<or> batch_keys BATCH_SIZE key old rows = [] \<Longrightarrow> prune key old running k rows = (0, rows)"
  by (subst prune.simps) (simp add: Let_def)

lemma prune_last:
  "running k \<Longrightarrow> batch_keys BATCH_SIZE key old rows \<noteq> [] \<Longrightarrow> length (batch_keys BATCH_SIZE key old rows) < BATCH_SIZE \<Longrightarrow>
   prune key old running k rows =
     (length (batch_keys BATCH_SIZE key old rows), delete_keys key (batch_keys BATCH_SIZE key old rows) rows)"
  by (subst prune.simps) (simp add: Let_def)

lemma prune_more:
  "running k \<Longrightarrow> batch_keys BATCH_SIZE key old rows \<noteq> [] \<Longrightarrow> \<not> length (batch_keys BATCH_SIZE key old rows) < BATCH_SIZE \<Longrightarrow>
   prune key old running k rows =
     (case prune key old running (Suc k) (delete_keys key (batch_keys BATCH_SIZE key old rows) rows) of
        (n, final) \<Rightarrow> (length (batch_keys BATCH_SIZE key old rows) + n, final))"
  by (subst prune.simps) (simp add: Let_def)

text \<open>Whenever the loop is stopped, it has deleted only eligible rows, and it counts them.\<close>

lemma prune_keeps_live:
  assumes "prune key old running k rows = (n, final)" "distinct (map key rows)"
  shows "filter (\<lambda>r. \<not> old r) final = filter (\<lambda>r. \<not> old r) rows \<and>
    length (filter old final) + n = length (filter old rows) \<and> set final \<subseteq> set rows \<and> distinct (map key final)"
  using assms
proof (induction key old running k rows arbitrary: n final rule: prune.induct)
  case (1 key old running k rows)
  let ?pks = "batch_keys BATCH_SIZE key old rows"
  let ?rest = "delete_keys key ?pks rows"
  have sub: "set ?rest \<subseteq> set rows" by (auto simp: delete_keys_def)
  consider "\<not> running k \<or> ?pks = []" | "running k" "?pks \<noteq> []" "length ?pks < BATCH_SIZE"
    | "running k" "?pks \<noteq> []" "\<not> length ?pks < BATCH_SIZE" by blast
  then show ?case
  proof cases
    case 1
    then show ?thesis using "1.prems" by (simp add: prune_stop)
  next
    case 2
    then show ?thesis
      using "1.prems" old_after_delete [where n = BATCH_SIZE and old = old, OF "1.prems"(2)] sub
      by (simp add: prune_last)
  next
    case 3
    obtain m f where p: "prune key old running (Suc k) ?rest = (m, f)" by fastforce
    then have n: "n = length ?pks + m" "final = f"
      using 3 "1.prems"(1) by (simp_all add: prune_more)
    note d = old_after_delete [where n = BATCH_SIZE and old = old, OF "1.prems"(2)]
    from "1.IH" [OF _ refl 3(2) refl 3(3) p d(3)] 3(1) n d sub show ?thesis by auto
  qed
qed

text \<open>When it is not stopped, all of them: the loop equals one unbounded delete.\<close>

lemma prune_complete:
  assumes "\<And>i. running i" "distinct (map key rows)"
  shows "prune key old running k rows = (length (filter old rows), filter (\<lambda>r. \<not> old r) rows)"
  using assms
proof (induction key old running k rows rule: prune.induct)
  case (1 key old running k rows)
  let ?pks = "batch_keys BATCH_SIZE key old rows"
  let ?rest = "delete_keys key ?pks rows"
  note d = old_after_delete [where n = BATCH_SIZE and old = old, OF "1.prems"(2)]
  show ?case
  proof (cases "?pks = []")
    case True
    then have "filter old rows = []"
      using length_batch_keys [of BATCH_SIZE key old rows] by (auto simp: BATCH_SIZE_def min_def split: if_splits)
    then have "filter (\<lambda>r. \<not> old r) rows = rows" by (auto simp: filter_id_conv filter_empty_conv)
    then show ?thesis using True \<open>filter old rows = []\<close> by (simp add: prune_stop)
  next
    case ne: False
    show ?thesis
    proof (cases "length ?pks < BATCH_SIZE")
      case True
      have "length ?pks = length (filter old rows)"
        using True length_batch_keys [of BATCH_SIZE key old rows] by simp
      then show ?thesis
        using True ne "1.prems"(1) delete_short_batch [OF True "1.prems"(2)]
        by (simp add: prune_last)
    next
      case False
      have "prune key old running (Suc k) ?rest = (length (filter old ?rest), filter (\<lambda>r. \<not> old r) ?rest)"
        by (rule "1.IH" [OF _ refl ne refl False "1.prems"(1) d(3)]) (simp add: "1.prems"(1))
      then show ?thesis
        unfolding prune_more [of running, OF "1.prems"(1) ne False] using d by simp
    qed
  qed
qed

subsection \<open>Properties\<close>

definition retention_ids :: "soar \<Rightarrow> bool" where
  "retention_ids s \<longleftrightarrow>
     distinct (map se_cursor_id (st_stream (so_store s))) \<and> distinct (map ob_id (st_outbox (so_store s))) \<and>
     distinct (map ca_id (so_actions s)) \<and> distinct (map pr_id (so_runs s))"

lemma in_store_id: "in_store (\<lambda>st. st) s = s"
  by (simp add: in_store_def)

lemmas prune_defs =
  prune_event_stream_def prune_outbox_def prune_containment_actions_def prune_playbook_runs_def in_store_def

text \<open>
  A pass equals four unbounded deletes.  A pass that is not stopped ends and leaves of each table
  exactly the rows that are too young or still in progress, however many batches that takes; it
  counts what it deleted, and no other table changes.
\<close>

theorem retention_prunes_exactly:
  assumes "retention_ids s" "\<And>i k. running i k"
  shows "run_once t running s =
    ([(''soc_event_stream'', length (filter (old_event t) (st_stream (so_store s)))),
      (''notification_outbox'', length (filter (old_job t) (st_outbox (so_store s)))),
      (''soc_containment_actions'', length (filter (old_action t) (so_actions s))),
      (''soc_playbook_runs'', length (filter (old_run t) (so_runs s)))],
     s\<lparr>so_store := (so_store s)\<lparr>st_stream := filter (\<lambda>v. \<not> old_event t v) (st_stream (so_store s)),
          st_outbox := filter (\<lambda>j. \<not> old_job t j) (st_outbox (so_store s))\<rparr>,
        so_actions := filter (\<lambda>a. \<not> old_action t a) (so_actions s),
        so_runs := filter (\<lambda>r. \<not> old_run t r) (so_runs s)\<rparr>)"
  using assms by (simp add: run_once_def prune_defs prune_complete retention_ids_def)

lemma filter_live:
  assumes "filter (\<lambda>r. \<not> old r) final = filter (\<lambda>r. \<not> old r) rows" "\<And>r. live r \<Longrightarrow> \<not> old r"
  shows "filter live final = filter live rows"
proof -
  have "filter live xs = filter live (filter (\<lambda>r. \<not> old r) xs)" for xs
    using assms(2) by (induction xs) auto
  from this [of final] this [of rows] assms(1) show ?thesis by simp
qed

text \<open>
  Retention spares what is alive.  Wherever the worker is stopped, no row that is too young or in
  a state that is not listed is deleted; in particular pending and processing jobs, pending
  actions and running playbooks stay, and so, against the module's promise of terminal states, do
  failed jobs for ever.
\<close>

theorem retention_spares_live:
  assumes "retention_ids s" "run_once t running s = (counts, s')"
  shows "filter (\<lambda>v. \<not> old_event t v) (st_stream (so_store s')) = filter (\<lambda>v. \<not> old_event t v) (st_stream (so_store s)) \<and>
    filter (\<lambda>j. ob_status j \<in> {''PENDING'', ''PROCESSING'', ''FAILED''}) (st_outbox (so_store s')) =
      filter (\<lambda>j. ob_status j \<in> {''PENDING'', ''PROCESSING'', ''FAILED''}) (st_outbox (so_store s)) \<and>
    filter (\<lambda>a. ca_status a \<in> {PENDING, SKIPPED}) (so_actions s') = filter (\<lambda>a. ca_status a \<in> {PENDING, SKIPPED}) (so_actions s) \<and>
    filter (\<lambda>r. pr_status r \<in> {R_PENDING, R_RUNNING, R_PARTIALLY_REVERTED}) (so_runs s') =
      filter (\<lambda>r. pr_status r \<in> {R_PENDING, R_RUNNING, R_PARTIALLY_REVERTED}) (so_runs s)"
proof -
  obtain n1 r1 n2 r2 n3 r3 n4 r4 where
    p: "prune se_cursor_id (old_event t) (running 0) 0 (st_stream (so_store s)) = (n1, r1)"
      "prune ob_id (old_job t) (running 1) 0 (st_outbox (so_store s)) = (n2, r2)"
      "prune ca_id (old_action t) (running 2) 0 (so_actions s) = (n3, r3)"
      "prune pr_id (old_run t) (running 3) 0 (so_runs s) = (n4, r4)"
    by fastforce
  have s': "st_stream (so_store s') = r1" "st_outbox (so_store s') = r2" "so_actions s' = r3" "so_runs s' = r4"
    using assms(2) p by (auto simp: run_once_def prune_defs)
  note ids = assms(1) [unfolded retention_ids_def]
  have k: "filter (\<lambda>j. \<not> old_job t j) r2 = filter (\<lambda>j. \<not> old_job t j) (st_outbox (so_store s))"
    "filter (\<lambda>a. \<not> old_action t a) r3 = filter (\<lambda>a. \<not> old_action t a) (so_actions s)"
    "filter (\<lambda>r. \<not> old_run t r) r4 = filter (\<lambda>r. \<not> old_run t r) (so_runs s)"
    using prune_keeps_live [OF p(2)] prune_keeps_live [OF p(3)] prune_keeps_live [OF p(4)] ids by blast+
  have "filter (\<lambda>v. \<not> old_event t v) r1 = filter (\<lambda>v. \<not> old_event t v) (st_stream (so_store s))"
    using prune_keeps_live [OF p(1)] ids by blast
  moreover have "filter (\<lambda>j. ob_status j \<in> {''PENDING'', ''PROCESSING'', ''FAILED''}) r2 =
      filter (\<lambda>j. ob_status j \<in> {''PENDING'', ''PROCESSING'', ''FAILED''}) (st_outbox (so_store s))"
    by (rule filter_live [OF k(1)]) (auto simp: old_job_def)
  moreover have "filter (\<lambda>a. ca_status a \<in> {PENDING, SKIPPED}) r3 = filter (\<lambda>a. ca_status a \<in> {PENDING, SKIPPED}) (so_actions s)"
    by (rule filter_live [OF k(2)]) (auto simp: old_action_def)
  moreover have "filter (\<lambda>r. pr_status r \<in> {R_PENDING, R_RUNNING, R_PARTIALLY_REVERTED}) r4 =
      filter (\<lambda>r. pr_status r \<in> {R_PENDING, R_RUNNING, R_PARTIALLY_REVERTED}) (so_runs s)"
    by (rule filter_live [OF k(3)]) (auto simp: old_run_def)
  ultimately show ?thesis by (simp add: s')
qed

text \<open>
  Retention never runs.  The leader lock reads an attribute that the cache service does not
  have, so every round of the worker ends in an exception before anything is pruned.
\<close>

theorem retention_never_runs:
  "worker_round CacheService_attributes redis t running s = s"
  by (simp add: worker_round_def try_acquire_leader_lock_def CacheService_attributes_def)

text \<open>
  Retention resets clients that missed nothing.  A client that has received everything up to its
  tenant's event \<open>c\<close> and whose later events are all retained is told to resynchronise after the
  pass, because the cursor is shared by all tenants and its next event does not follow \<open>c\<close>
  directly; before the pass the same request was answered with exactly the missing events.
\<close>

theorem retention_resets_current_client:
  assumes "retention_ids s" "\<And>i k. running i k" "run_once t running s = (counts, s')"
    and "c \<in> se_cursor_id ` set (stream_rows u False (so_store s))"
    and "\<And>v. v \<in> set (stream_rows u False (so_store s)) \<Longrightarrow> se_cursor_id v \<le> c \<Longrightarrow> old_event t v"
    and "\<And>v. v \<in> set (stream_rows u False (so_store s)) \<Longrightarrow> c < se_cursor_id v \<Longrightarrow> \<not> old_event t v \<and> Suc c < se_cursor_id v"
    and "w \<in> set (stream_rows u False (so_store s))" "c < se_cursor_id w"
  shows "\<not> snd (get_replay_events u (int c) k False (so_store s)) \<and>
    fst (get_replay_events u (int c) k False (so_store s)) =
      map (replay_envelope False) (take k (sort_key se_cursor_id (stream_rows u False (so_store s')))) \<and>
    get_replay_events u (int c) k False (so_store s') = ([], True)"
proof -
  let ?rows = "stream_rows u False (so_store s)"
  have "st_stream (so_store s') = filter (\<lambda>v. \<not> old_event t v) (st_stream (so_store s))"
    using retention_prunes_exactly [OF assms(1,2)] assms(3) by auto
  then have "stream_rows u False (so_store s') = filter (\<lambda>v. \<not> old_event t v) ?rows"
    by (simp add: stream_rows_def conj_commute)
  also have "\<dots> = filter (\<lambda>v. c < se_cursor_id v) ?rows"
    using assms(5,6) by (intro filter_cong refl) (meson not_le)
  finally have rows': "stream_rows u False (so_store s') = filter (\<lambda>v. c < se_cursor_id v) ?rows" .
  have "Min (se_cursor_id ` set ?rows) \<le> c" using assms(4) by (intro Min_le) auto
  moreover have "Suc c < Min (se_cursor_id ` set (filter (\<lambda>v. c < se_cursor_id v) ?rows))"
  proof -
    have "se_cursor_id w \<in> se_cursor_id ` set (filter (\<lambda>v. c < se_cursor_id v) ?rows)" using assms(7,8) by auto
    then show ?thesis using assms(6) by (subst Min_gr_iff) auto
  qed
  moreover have "filter (\<lambda>v. c < se_cursor_id v) ?rows \<noteq> []" using assms(7,8) by (auto simp: filter_empty_conv)
  ultimately show ?thesis by (auto simp: get_replay_events_def Let_def rows')
qed

subsection \<open>Witnesses\<close>

definition stream_row :: "nat \<Rightarrow> time \<Rightarrow> soc_event" where
  "stream_row c t =
     \<lparr>se_cursor_id = c, se_event_id = [], se_tenant_id = 1, se_channel = ''soc'', se_event_type = ''alert_created'',
      se_aggregate_id = None, se_payload = [], se_created_at = t\<rparr>"

definition aged_soar :: soar where
  \<comment> \<open>an event twelve days old and one two days old\<close>
  "aged_soar =
     empty_soar\<lparr>so_store := empty_store\<lparr>st_stream := [stream_row 5 0, stream_row 9 (days 10)], sq_stream := 10\<rparr>\<rparr>"

lemma aged_soar_ids: "retention_ids aged_soar"
  by (simp add: retention_ids_def aged_soar_def empty_soar_def stream_row_def)

lemma aged_rows: "stream_rows 1 False (so_store aged_soar) = [stream_row 5 0, stream_row 9 (days 10)]"
  "st_stream (so_store aged_soar) = [stream_row 5 0, stream_row 9 (days 10)]"
  by (simp_all add: stream_rows_def aged_soar_def stream_row_def)

lemma aged_events: "old_event (days 12) (stream_row 5 0)" "\<not> old_event (days 12) (stream_row 9 (days 10))"
  by (simp_all add: old_event_def stream_row_def EVENT_STREAM_TTL_DAYS_def time_defs)

theorem retention_prunes_exactly_witness:
  "st_stream (so_store (snd (run_once (days 12) (\<lambda>i k. True) aged_soar))) = [stream_row 9 (days 10)]"
  using retention_prunes_exactly [OF aged_soar_ids, of "\<lambda>i k. True" "days 12"]
  by (simp add: aged_rows aged_events)

theorem retention_spares_live_witness:
  "filter (\<lambda>v. \<not> old_event (days 12) v) (st_stream (so_store (snd (run_once (days 12) (\<lambda>i k. i = 0) aged_soar)))) =
   [stream_row 9 (days 10)]"
  using retention_spares_live [OF aged_soar_ids prod.collapse [symmetric], of "days 12" "\<lambda>i k. i = 0"]
  by (simp add: aged_rows aged_events)

theorem retention_resets_current_client_witness:
  "get_replay_events 1 5 100 False (so_store (snd (run_once (days 12) (\<lambda>i k. True) aged_soar))) = ([], True)"
proof -
  have run: "run_once (days 12) (\<lambda>i k. True) aged_soar =
      (fst (run_once (days 12) (\<lambda>i k. True) aged_soar), snd (run_once (days 12) (\<lambda>i k. True) aged_soar))" by simp
  have c: "(5 :: nat) \<in> se_cursor_id ` set (stream_rows 1 False (so_store aged_soar))"
    "stream_row 9 (days 10) \<in> set (stream_rows 1 False (so_store aged_soar))" "5 < se_cursor_id (stream_row 9 (days 10))"
    unfolding aged_rows by (simp_all add: stream_row_def)
  have old: "old_event (days 12) v" if "v \<in> set (stream_rows 1 False (so_store aged_soar))" "se_cursor_id v \<le> 5" for v
    using that aged_events unfolding aged_rows by (auto simp: stream_row_def)
  have young: "\<not> old_event (days 12) v \<and> Suc 5 < se_cursor_id v"
    if "v \<in> set (stream_rows 1 False (so_store aged_soar))" "5 < se_cursor_id v" for v
    using that aged_events unfolding aged_rows by (auto simp: stream_row_def)
  from retention_resets_current_client [OF aged_soar_ids _ run c(1) old young c(2,3), of 100] show ?thesis by simp
qed

end
