(* ===== verification/Enrichment.thy ===== *)
theory Enrichment
  imports Probe
begin

text \<open>
  \<open>backend/services/intel_enrichment.py\<close>: on-demand enrichment of a scan by WHOIS age, TLS certificate,
  redirect chain and geolocation.  What WHOIS, the TLS handshake, the HTTP client, the resolver and
  ipinfo.io answer is the record \<open>enrich_net\<close>; the answers of the resolver may differ between the
  tasks and hops that ask it, which are numbered.
\<close>

definition ENRICH_MAX_REDIRECTS :: nat where "ENRICH_MAX_REDIRECTS = 3"

subsection \<open>Answers\<close>

datatype whois_date =
    DateTime time
  | DateText "time option" \<comment> \<open>a text, with what \<open>dateutil\<close> reads in it\<close>
  | DateNone
  | DateOther

datatype whois_answer =
    WhoisDate whois_date
  | WhoisDates "whois_date list"
  | WhoisFailed \<comment> \<open>an exception or the timeout\<close>

datatype tls_answer =
    TlsCert "time option" "string list" "string list" \<comment> \<open>readable \<open>notAfter\<close>, parts of issuer and subject\<close>
  | TlsNoCert
  | TlsTimedOut
  | TlsBadCert string
  | TlsFailed

record geo =
  ge_ip :: string
  ge_city :: "string option"
  ge_region :: "string option"
  ge_country :: "string option"
  ge_org :: "string option"

datatype geo_answer =
    GeoAnswer int "string option" "string option" "string option" "string option" "string option"
      \<comment> \<open>status, then the fields of the body\<close>
  | GeoFailed

record enrich_net =
  en_dns :: "nat \<Rightarrow> string \<Rightarrow> string list option"
  en_whois :: "string \<Rightarrow> whois_answer"
  en_tls :: "string \<Rightarrow> string \<Rightarrow> int \<Rightarrow> tls_answer"
  en_http :: "nat \<Rightarrow> string \<Rightarrow> string \<Rightarrow> http_outcome"
  en_urljoin :: "string \<Rightarrow> string \<Rightarrow> string option"
  en_ipinfo :: "string \<Rightarrow> geo_answer"
  en_api_key :: string

subsection \<open>WHOIS\<close>

definition age_in_days :: "time \<Rightarrow> time \<Rightarrow> int" where
  "age_in_days t created = max ((t - created) div days 1) 0"

definition sync_whois_lookup :: "time \<Rightarrow> whois_answer \<Rightarrow> int option" where
  "sync_whois_lookup t answer =
     (let of_date = (\<lambda>d. case d of
            DateTime c \<Rightarrow> Some (age_in_days t c)
          | DateText (Some c) \<Rightarrow> Some (age_in_days t c)
          | _ \<Rightarrow> None)
      in case answer of
           WhoisFailed \<Rightarrow> None
         | WhoisDate d \<Rightarrow> of_date d
         | WhoisDates [] \<Rightarrow> None
         | WhoisDates (d # _) \<Rightarrow> of_date d)"

definition get_domain_age_days :: "enrich_net \<Rightarrow> time \<Rightarrow> string \<Rightarrow> int option" where
  "get_domain_age_days net t url =
     (case sanitize_domain_for_whois url of None \<Rightarrow> None | Some d \<Rightarrow> sync_whois_lookup t (en_whois net d))"

subsection \<open>Certificates\<close>

record tls_info =
  ti_valid :: bool
  ti_reason :: "string option"
  ti_issuer :: "string option"
  ti_subject :: "string option"
  ti_expires_at :: "time option"
  ti_days_to_expiry :: "int option"

definition tls_refused :: "string \<Rightarrow> tls_info" where
  "tls_refused reason =
     \<lparr>ti_valid = False, ti_reason = Some reason, ti_issuer = None, ti_subject = None, ti_expires_at = None,
      ti_days_to_expiry = None\<rparr>"

definition joined_parts :: "string list \<Rightarrow> string option" where
  \<comment> \<open>the parts joined by blanks, at most 200 characters; an empty text counts as none\<close>
  "joined_parts ps = (if ps = [] \<or> join '' '' ps = [] then None else Some (take 200 (join '' '' ps)))"

definition sync_tls_inspect :: "time \<Rightarrow> tls_answer \<Rightarrow> tls_info" where
  \<comment> \<open>with the handlers of \<open>get_tls_info\<close>\<close>
  "sync_tls_inspect t answer =
     (case answer of
        TlsCert expiry issuer subject \<Rightarrow>
          \<lparr>ti_valid = True, ti_reason = None, ti_issuer = joined_parts issuer, ti_subject = joined_parts subject,
           ti_expires_at = expiry, ti_days_to_expiry = map_option (\<lambda>x. (x - t) div days 1) expiry\<rparr>
      | TlsNoCert \<Rightarrow> tls_refused ''No certificate returned''
      | TlsTimedOut \<Rightarrow> tls_refused ''TLS handshake timed out''
      | TlsBadCert m \<Rightarrow> tls_refused (''Certificate verification error: '' @ take 150 m)
      | TlsFailed \<Rightarrow> tls_refused ''TLS inspection failed or connection refused'')"

definition get_tls_info :: "enrich_net \<Rightarrow> time \<Rightarrow> string \<Rightarrow> tls_info \<times> connect list" where
  \<comment> \<open>the second component is the connection that was opened\<close>
  "get_tls_info net t url =
     (case validate_target_url url of
        Inl _ \<Rightarrow> (tls_refused ''SSRF blocked'', [])
      | Inr (scheme, host, port, _) \<Rightarrow>
          if scheme \<noteq> ''https'' then (tls_refused ''Not an HTTPS URL'', [])
          else case resolve_and_pin_host (en_dns net 0) host of
            Inl _ \<Rightarrow> (tls_refused ''SSRF blocked'', [])
          | Inr ip \<Rightarrow>
              (sync_tls_inspect t (en_tls net ip host port), [\<lparr>cn_ip = ip, cn_port = port, cn_host = host, cn_url = url\<rparr>]))"

subsection \<open>Redirects\<close>

record redirect_info =
  ri_count :: nat
  ri_final_url :: string
  ri_chain :: "string list"

fun bytes_read :: "nat \<Rightarrow> string list \<Rightarrow> nat" where
  \<comment> \<open>what is read of a body: the loop stops after the chunk that passes the ceiling\<close>
  "bytes_read n [] = n"
| "bytes_read n (c # cs) = (if n + length c > MAX_BODY_BYTES then n + length c else bytes_read (n + length c) cs)"

definition next_hop :: "enrich_net \<Rightarrow> string list \<Rightarrow> string \<Rightarrow> http_outcome \<Rightarrow> string option" where
  \<comment> \<open>the URL to go on with, none when the loop ends here\<close>
  "next_hop net chain current out =
     (case out of
        Response status True (Some loc) chunks \<Rightarrow>
          (case en_urljoin net current (str_strip loc) of
             None \<Rightarrow> None
           | Some next_url \<Rightarrow>
               (case urlparse next_url of
                  None \<Rightarrow> None
                | Some u \<Rightarrow>
                    if str_lower (ur_scheme u) \<notin> set [''http'', ''https''] then None
                    else if next_url \<in> set chain then None else Some next_url))
      | _ \<Rightarrow> None)"

fun redirect_loop :: "nat \<Rightarrow> enrich_net \<Rightarrow> nat \<Rightarrow> string list \<Rightarrow> string \<Rightarrow> nat \<Rightarrow> redirect_info \<times> connect list" where
  \<comment> \<open>iterations left, number of the hop, chain, current URL, redirects so far\<close>
  "redirect_loop 0 net hop chain current n = (\<lparr>ri_count = n, ri_final_url = current, ri_chain = chain\<rparr>, [])"
| "redirect_loop (Suc k) net hop chain current n =
     (let stop = \<lparr>ri_count = n, ri_final_url = current, ri_chain = chain\<rparr>
      in case validate_target_url current of
           Inl _ \<Rightarrow> (stop, [])
         | Inr (scheme, host, port, path) \<Rightarrow>
             (case resolve_and_pin_host (en_dns net (Suc (Suc hop))) host of
                Inl _ \<Rightarrow> (stop, [])
              | Inr ip \<Rightarrow>
                  let c = \<lparr>cn_ip = ip, cn_port = port, cn_host = host, cn_url = current\<rparr>
                  in case next_hop net chain current (en_http net hop ip current) of
                       None \<Rightarrow> (stop, [c])
                     | Some next_url \<Rightarrow>
                         (case redirect_loop k net (Suc hop) (chain @ [next_url]) next_url (Suc n) of
                            (r, cs) \<Rightarrow> (r, c # cs))))"

definition follow_redirect_chain :: "enrich_net \<Rightarrow> string \<Rightarrow> redirect_info \<times> connect list" where
  "follow_redirect_chain net url = redirect_loop ENRICH_MAX_REDIRECTS net 0 [url] url 0"

subsection \<open>Geolocation\<close>

definition geo_of :: "string \<Rightarrow> geo_answer \<Rightarrow> geo option" where
  "geo_of ip answer =
     (case answer of
        GeoAnswer code i city region country org \<Rightarrow>
          if code = 200
          then Some \<lparr>ge_ip = (case i of None \<Rightarrow> ip | Some x \<Rightarrow> x), ge_city = city, ge_region = region, ge_country = country, ge_org = org\<rparr>
          else None
      | GeoFailed \<Rightarrow> None)"

definition get_ip_geolocation :: "enrich_net \<Rightarrow> string \<Rightarrow> (string \<rightharpoonup> geo) \<Rightarrow> geo option \<times> (string \<rightharpoonup> geo)" where
  "get_ip_geolocation net url cache =
     (if str_strip (en_api_key net) = [] then (None, cache)
      else
        let host = (if contains ''://'' url
                    then (case validate_target_url url of Inl _ \<Rightarrow> None | Inr (_, h, _, _) \<Rightarrow> Some h)
                    else Some (str_strip url))
        in case host of
             None \<Rightarrow> (None, cache)
           | Some h \<Rightarrow>
               (case resolve_and_pin_host (en_dns net 1) h of
                  Inl _ \<Rightarrow> (None, cache)
                | Inr ip \<Rightarrow>
                    (case cache ip of
                       Some g \<Rightarrow> (Some g, cache)
                     | None \<Rightarrow>
                         (case geo_of ip (en_ipinfo net ip) of
                            None \<Rightarrow> (None, cache) | Some g \<Rightarrow> (Some g, cache(ip \<mapsto> g))))))"

subsection \<open>The whole enrichment\<close>

record enrichment =
  er_domain_age_days :: "int option"
  er_tls_info :: tls_info
  er_redirects :: redirect_info
  er_geolocation :: "geo option"
  er_blocked :: bool

definition enrich_scan :: "enrich_net \<Rightarrow> time \<Rightarrow> string \<Rightarrow> (string \<rightharpoonup> geo) \<Rightarrow> enrichment \<times> (string \<rightharpoonup> geo) \<times> connect list" where
  "enrich_scan net t url cache =
     (case validate_target_url url of
        Inl _ \<Rightarrow>
          (\<lparr>er_domain_age_days = None, er_tls_info = tls_refused ''blocked'',
            er_redirects = \<lparr>ri_count = 0, ri_final_url = url, ri_chain = [url]\<rparr>, er_geolocation = None, er_blocked = True\<rparr>,
           cache, [])
      | Inr _ \<Rightarrow>
          let age = get_domain_age_days net t url;
              (tls, c1) = get_tls_info net t url;
              (red, c2) = follow_redirect_chain net url;
              (g, cache') = get_ip_geolocation net url cache
          in (\<lparr>er_domain_age_days = age, er_tls_info = tls, er_redirects = red, er_geolocation = g, er_blocked = False\<rparr>,
              cache', c1 @ c2))"

subsection \<open>Lemmas\<close>

definition target_ok :: "connect \<Rightarrow> bool" where
  \<comment> \<open>the address is not blocked and host and port are those of a URL that passed the validation\<close>
  "target_ok c =
     (\<not> is_blocked_ip (cn_ip c) \<and>
      (case validate_target_url (cn_url c) of Inl _ \<Rightarrow> False | Inr (_, h, p, _) \<Rightarrow> h = cn_host c \<and> p = cn_port c))"

lemma next_hop_fresh: "next_hop net chain current out = Some u \<Longrightarrow> u \<notin> set chain"
  by (auto simp: next_hop_def split: http_outcome.splits bool.splits option.splits if_splits)

lemma redirect_loop_ok:
  assumes "redirect_loop k net hop chain current n = (r, cs)" "distinct chain" "chain \<noteq> []" "last chain = current"
    "length chain = Suc n"
  shows "list_all target_ok cs \<and> length cs \<le> k \<and> distinct (ri_chain r) \<and> last (ri_chain r) = ri_final_url r \<and>
    length (ri_chain r) = Suc (ri_count r) \<and> ri_count r \<le> n + k \<and> (\<exists>ext. ri_chain r = chain @ ext)"
  using assms
proof (induction k arbitrary: hop chain current n r cs)
  case (Suc k)
  let ?stop = "\<lparr>ri_count = n, ri_final_url = current, ri_chain = chain\<rparr>"
  show ?case
  proof (cases "validate_target_url current")
    case (Inl e)
    then show ?thesis using Suc.prems by auto
  next
    case v: (Inr x)
    obtain scheme host port path where x: "x = (scheme, host, port, path)" by (cases x)
    show ?thesis
    proof (cases "resolve_and_pin_host (en_dns net (Suc (Suc hop))) host")
      case (Inl e)
      then show ?thesis using Suc.prems v x by auto
    next
      case (Inr ip)
      let ?c = "\<lparr>cn_ip = ip, cn_port = port, cn_host = host, cn_url = current\<rparr>"
      have c: "target_ok ?c" using pin_not_blocked [OF Inr] by (simp add: target_ok_def v x)
      show ?thesis
      proof (cases "next_hop net chain current (en_http net hop ip current)")
        case None
        then have "r = ?stop" "cs = [?c]" using Suc.prems(1) by (simp_all add: v x Inr)
        then show ?thesis using Suc.prems c by auto
      next
        case (Some u)
        obtain cs' where l: "redirect_loop k net (Suc hop) (chain @ [u]) u (Suc n) = (r, cs')" and cs: "cs = ?c # cs'"
          using Suc.prems(1) by (auto simp: v x Inr Some split: prod.splits)
        have "list_all target_ok cs' \<and> length cs' \<le> k \<and> distinct (ri_chain r) \<and> last (ri_chain r) = ri_final_url r \<and>
          length (ri_chain r) = Suc (ri_count r) \<and> ri_count r \<le> Suc n + k \<and> (\<exists>ext. ri_chain r = (chain @ [u]) @ ext)"
          by (rule Suc.IH [OF l]) (use Suc.prems next_hop_fresh [OF Some] in auto)
        then show ?thesis using c cs by auto
      qed
    qed
  qed
qed auto

lemma tls_connects: "list_all target_ok (snd (get_tls_info net t url)) \<and> length (snd (get_tls_info net t url)) \<le> 1"
  using pin_not_blocked
  by (auto simp: get_tls_info_def target_ok_def split: sum.splits prod.splits)

lemma chain_connects:
  "list_all target_ok (snd (follow_redirect_chain net url)) \<and> length (snd (follow_redirect_chain net url)) \<le> 3"
  using redirect_loop_ok [of ENRICH_MAX_REDIRECTS net 0 "[url]" url 0]
  by (cases "follow_redirect_chain net url") (simp add: follow_redirect_chain_def ENRICH_MAX_REDIRECTS_def)

lemma bytes_read_bound:
  "n \<le> MAX_BODY_BYTES \<Longrightarrow> list_all (\<lambda>c. length c \<le> m) cs \<Longrightarrow> bytes_read n cs \<le> MAX_BODY_BYTES + m"
  by (induction n cs rule: bytes_read.induct) auto

subsection \<open>Theorems\<close>

text \<open>
  An enrichment opens at most four connections, each to an address that is not blocked, for the
  host and port of a URL that passed the validation, whatever the resolver, the servers and their
  redirects answer; a URL that does not pass opens none and is reported as blocked, and the cache of
  locations stays as it was.
\<close>

theorem enrichment_confined:
  "case enrich_scan net t url cache of (r, cache', cs) \<Rightarrow>
     list_all target_ok cs \<and> length cs \<le> 4 \<and>
     er_blocked r = (case validate_target_url url of Inl _ \<Rightarrow> True | Inr _ \<Rightarrow> False) \<and>
     (if er_blocked r then cs = [] \<and> cache' = cache \<and> ri_chain (er_redirects r) = [url] else True)"
  using tls_connects [of net t url] chain_connects [of net url]
  by (auto simp: enrich_scan_def Let_def split: sum.splits prod.splits)

text \<open>
  The redirect chain that is reported starts with the URL, names no URL twice, ends with the
  final URL, and is one longer than the number of redirects, which is at most three.
\<close>

theorem redirect_chain_faithful:
  "let r = fst (follow_redirect_chain net url) in
     distinct (ri_chain r) \<and> hd (ri_chain r) = url \<and> last (ri_chain r) = ri_final_url r \<and>
     length (ri_chain r) = Suc (ri_count r) \<and> ri_count r \<le> 3"
proof -
  obtain r cs where l: "redirect_loop ENRICH_MAX_REDIRECTS net 0 [url] url 0 = (r, cs)"
    by (cases "redirect_loop ENRICH_MAX_REDIRECTS net 0 [url] url 0")
  have f: "fst (follow_redirect_chain net url) = r" by (simp add: follow_redirect_chain_def l)
  have "list_all target_ok cs \<and> length cs \<le> ENRICH_MAX_REDIRECTS \<and> distinct (ri_chain r) \<and>
    last (ri_chain r) = ri_final_url r \<and> length (ri_chain r) = Suc (ri_count r) \<and> ri_count r \<le> 0 + ENRICH_MAX_REDIRECTS \<and>
    (\<exists>ext. ri_chain r = [url] @ ext)"
    by (rule redirect_loop_ok [OF l]) simp_all
  then show ?thesis unfolding f by (auto simp: Let_def ENRICH_MAX_REDIRECTS_def)
qed

definition sample_enrich_net :: enrich_net where
  "sample_enrich_net =
     \<lparr>en_dns = (\<lambda>_. sample_dns), en_whois = (\<lambda>_. WhoisFailed), en_tls = (\<lambda>_ _ _. TlsNoCert),
      en_http = (\<lambda>hop ip url. Response 302 True (Some ''http://evil.com/'') []), en_urljoin = (\<lambda>base loc. Some loc),
      en_ipinfo = (\<lambda>_. GeoFailed), en_api_key = []\<rparr>"

lemma enrichment_confined_witness:
  "map cn_ip (snd (snd (enrich_scan sample_enrich_net 0 ''http://good.com/'' Map.empty))) = [''8.8.8.8''] \<and>
   list_all target_ok (snd (snd (enrich_scan sample_enrich_net 0 ''http://good.com/'' Map.empty)))"
proof
  show "map cn_ip (snd (snd (enrich_scan sample_enrich_net 0 ''http://good.com/'' Map.empty))) = [''8.8.8.8'']"
    by code_simp
  show "list_all target_ok (snd (snd (enrich_scan sample_enrich_net 0 ''http://good.com/'' Map.empty)))"
    using enrichment_confined [where net = sample_enrich_net and t = 0 and url = "''http://good.com/''" and cache = Map.empty] by (simp add: split_beta)
qed

end
