(* ===== verification/Lifecycle.thy ===== *)
theory Lifecycle
  imports PyNet
begin

text \<open>
  \<open>backend/services/model_lifecycle.py\<close>: the model registry with its champion history, promotion,
  rollback and the coordinated reload of the prediction and explainer services (with
  \<open>reload_model\<close> of \<open>prediction.py\<close> and \<open>explainer.py\<close>); the promotion gate of
  \<open>ml/pipelines/retrain.py\<close>; the rollback handler of \<open>api/routers/mlops.py\<close>.  SHA-256 and unpickling
  are parameters over the bytes of a file.  The model directory has no links and no subdirectories.
\<close>

subsection \<open>Artifacts\<close>

text \<open>What the code asks of an unpickled object; \<open>None\<close> stands for an exception of \<open>pickle.load\<close>.\<close>

record pickled =
  pk_has_model :: bool
  pk_has_predict :: bool
  pk_has_classes :: bool
  pk_smoke_ok :: bool \<comment> \<open>\<open>predict_proba\<close> of a row of zeros returns\<close>
  pk_explainable :: bool \<comment> \<open>a \<open>TreeExplainer\<close> can be built on its model\<close>

record artifact_tools =
  at_dir :: string \<comment> \<open>\<open>MODEL_DIR\<close>\<close>
  at_sha256 :: "string \<Rightarrow> string"
  at_unpickle :: "string \<Rightarrow> pickled option"

type_synonym files = "string \<rightharpoonup> string"

definition path_name :: "string \<Rightarrow> string" where
  \<comment> \<open>\<open>Path(s).name\<close>\<close>
  "path_name s =
     (let parts = filter (\<lambda>p. p \<noteq> [] \<and> p \<noteq> ''.'') (split_on (CHR ''/'') s) in if parts = [] then [] else last parts)"

definition validate_model_path :: "string \<Rightarrow> string \<Rightarrow> string option" where
  \<comment> \<open>\<open>None\<close> is the \<open>ValueError\<close>, also that of a null byte in \<open>resolve\<close>\<close>
  "validate_model_path dir f =
     (if path_name f \<noteq> f \<or> contains ''..'' f \<or> CHR ''/'' \<in> set f \<or> CHR 0x5C \<in> set f then None
      else if CHR 0x00 \<in> set f then None
      else let resolved = (if f = [] then dir else dir @ ''/'' @ f)
           in if starts_with dir resolved then Some resolved else None)"

definition path_exists :: "files \<Rightarrow> string \<Rightarrow> bool" where
  \<comment> \<open>the empty name denotes the directory itself\<close>
  "path_exists fs f = (f = [] \<or> fs f \<noteq> None)"

subsection \<open>The registry\<close>

record registry =
  rg_production :: "string option"
  rg_staging :: "string option"
  rg_experimental :: "string option"
  rg_previous_champion :: "string option"
  rg_champion_history :: "string list"
  rg_demoted_models :: "string list"
  rg_artifacts_sha256 :: "string \<rightharpoonup> string"
  rg_last_promoted_at :: "time option"
  rg_last_rollback_at :: "time option"
  rg_promotion_metrics :: "(string \<rightharpoonup> rat) option"

definition default_model :: string where
  "default_model = ''xgboost_calibrated.pkl''"

definition get_registry :: "registry option \<Rightarrow> registry" where
  \<comment> \<open>\<open>None\<close> when there is no registry file\<close>
  "get_registry file =
     (case file of Some r \<Rightarrow> r
      | None \<Rightarrow> \<lparr>rg_production = Some default_model, rg_staging = Some default_model,
          rg_experimental = Some default_model, rg_previous_champion = None, rg_champion_history = [default_model],
          rg_demoted_models = [], rg_artifacts_sha256 = Map.empty, rg_last_promoted_at = None,
          rg_last_rollback_at = None, rg_promotion_metrics = None\<rparr>)"

definition production_of :: "registry \<Rightarrow> string" where
  \<comment> \<open>\<open>reg.get("production", "xgboost_calibrated.pkl")\<close>\<close>
  "production_of r = (case rg_production r of None \<Rightarrow> default_model | Some p \<Rightarrow> p)"

datatype lifecycle_error =
    ValueErr string
  | RuntimeErr string
  | OtherErr \<comment> \<open>what \<open>pickle.load\<close> raises\<close>

definition promote_candidate_to_registry ::
  "time \<Rightarrow> string \<Rightarrow> (string \<rightharpoonup> rat) \<Rightarrow> string option \<Rightarrow> registry \<Rightarrow> lifecycle_error + registry" where
  "promote_candidate_to_registry t cand metrics sha reg =
     (case sha of
        None \<Rightarrow> Inl (ValueErr ''Promotion rejected'')
      | Some s0 \<Rightarrow>
          if length (str_strip s0) \<noteq> 64 then Inl (ValueErr ''Promotion rejected'')
          else
            let s = str_strip s0;
                current = production_of reg;
                history = rg_champion_history reg;
                history' = (if current \<noteq> [] \<and> current \<notin> set history then history @ [current] else history);
                demoted = rg_demoted_models reg;
                demoted' = (if cand \<in> set demoted then remove1 cand demoted else demoted)
            in Inr (reg\<lparr>rg_artifacts_sha256 := (rg_artifacts_sha256 reg)(cand \<mapsto> s),
                 rg_production := Some cand, rg_staging := Some cand, rg_experimental := Some cand,
                 rg_previous_champion := Some current, rg_champion_history := history',
                 rg_demoted_models := demoted', rg_last_promoted_at := Some t, rg_promotion_metrics := Some metrics\<rparr>))"

subsection \<open>Rollback\<close>

definition usable_champion :: "artifact_tools \<Rightarrow> files \<Rightarrow> string \<Rightarrow> string list \<Rightarrow> string \<Rightarrow> bool" where
  "usable_champion tk fs current demoted champ =
     (champ \<noteq> current \<and> champ \<notin> set demoted \<and> validate_model_path (at_dir tk) champ \<noteq> None \<and> path_exists fs champ)"

definition rollback_candidate :: "artifact_tools \<Rightarrow> files \<Rightarrow> registry \<Rightarrow> string option" where
  "rollback_candidate tk fs reg =
     (let current = production_of reg; ok = usable_champion tk fs current (rg_demoted_models reg)
      in case find ok (rev (rg_champion_history reg)) of
           Some champ \<Rightarrow> if champ \<noteq> [] then Some champ
             else (case rg_previous_champion reg of Some p \<Rightarrow> if p \<noteq> [] \<and> ok p then Some p else None | None \<Rightarrow> None)
         | None \<Rightarrow> (case rg_previous_champion reg of Some p \<Rightarrow> if p \<noteq> [] \<and> ok p then Some p else None | None \<Rightarrow> None))"

definition verify_artifact :: "artifact_tools \<Rightarrow> registry \<Rightarrow> string \<Rightarrow> string \<Rightarrow> bool" where
  \<comment> \<open>the check of a recorded checksum; without one it passes\<close>
  "verify_artifact tk reg f content =
     (case rg_artifacts_sha256 reg f of None \<Rightarrow> True | Some s \<Rightarrow> s = [] \<or> at_sha256 tk content = s)"

definition record_rollback :: "time \<Rightarrow> string \<Rightarrow> registry \<Rightarrow> registry" where
  "record_rollback t champ reg =
     (let current = production_of reg; demoted = rg_demoted_models reg
      in reg\<lparr>rg_production := Some champ, rg_staging := Some champ,
           rg_demoted_models := (if current \<in> set demoted then demoted else demoted @ [current]),
           rg_previous_champion := None, rg_last_rollback_at := Some t\<rparr>)"

definition execute_model_rollback ::
  "artifact_tools \<Rightarrow> time \<Rightarrow> files \<Rightarrow> registry \<Rightarrow> lifecycle_error + (string \<times> string \<times> registry)" where
  \<comment> \<open>new champion, demoted model, registry\<close>
  "execute_model_rollback tk t fs reg =
     (case rollback_candidate tk fs reg of
        None \<Rightarrow> Inl (ValueErr ''No valid previous champion available in history for rollback.'')
      | Some champ \<Rightarrow>
          (case fs champ of
             None \<Rightarrow> Inl OtherErr
           | Some content \<Rightarrow>
               if \<not> verify_artifact tk reg champ content then Inl (ValueErr ''integrity check failed'')
               else case at_unpickle tk content of
                 None \<Rightarrow> Inl OtherErr
               | Some obj \<Rightarrow>
                   if \<not> pk_has_model obj \<and> \<not> pk_has_predict obj then Inl (RuntimeErr ''lacks required model interface'')
                   else Inr (champ, production_of reg, record_rollback t champ reg)))"

subsection \<open>Reload of the services\<close>

record serving =
  sv_registry :: "registry option"
  sv_prediction :: "string option" \<comment> \<open>the artifact in memory, \<open>None\<close> before the first load\<close>
  sv_explainer :: "string option"

definition model_file :: "artifact_tools \<Rightarrow> string \<Rightarrow> registry option \<Rightarrow> string" where
  \<comment> \<open>\<open>settings.MODEL_PATH.name\<close> under \<open>MODEL_ENV\<close>\<close>
  "model_file tk env file =
     path_name (at_dir tk @ ''/'' @
       (case file of None \<Rightarrow> default_model
        | Some r \<Rightarrow>
            (case (if env = ''production'' then rg_production r
                   else if env = ''staging'' then rg_staging r
                   else if env = ''experimental'' then rg_experimental r
                   else if env = ''previous_champion'' then rg_previous_champion r else None) of
               None \<Rightarrow> default_model | Some f \<Rightarrow> f)))"

definition prediction_load :: "artifact_tools \<Rightarrow> string \<Rightarrow> files \<Rightarrow> registry option \<Rightarrow> string option" where
  \<comment> \<open>the artifact that passes all checks of \<open>PredictionService.reload_model\<close>\<close>
  "prediction_load tk env fs file =
     (let f = model_file tk env file
      in case validate_model_path (at_dir tk) f of
           None \<Rightarrow> None
         | Some _ \<Rightarrow>
             (case fs f of
                None \<Rightarrow> None
              | Some content \<Rightarrow>
                  if \<not> verify_artifact tk (get_registry file) f content then None
                  else case at_unpickle tk content of
                    None \<Rightarrow> None
                  | Some obj \<Rightarrow>
                      if pk_has_model obj \<and> pk_has_classes obj \<and> pk_smoke_ok obj then Some content else None))"

definition prediction_reload :: "artifact_tools \<Rightarrow> string \<Rightarrow> files \<Rightarrow> serving \<Rightarrow> bool \<times> serving" where
  \<comment> \<open>\<open>False\<close> is the \<open>RuntimeError\<close> of a first load; a later failure keeps the model in memory\<close>
  "prediction_reload tk env fs s =
     (case prediction_load tk env fs (sv_registry s) of
        Some content \<Rightarrow> (True, s\<lparr>sv_prediction := Some content\<rparr>)
      | None \<Rightarrow> (sv_prediction s \<noteq> None, s))"

definition explainer_load :: "artifact_tools \<Rightarrow> string \<Rightarrow> files \<Rightarrow> registry option \<Rightarrow> string option" where
  "explainer_load tk env fs file =
     (let f = model_file tk env file
      in case validate_model_path (at_dir tk) f of
           None \<Rightarrow> None
         | Some _ \<Rightarrow>
             (case (if path_exists fs f then fs f else fs ''xgboost_optuna_best.pkl'') of
                None \<Rightarrow> None
              | Some content \<Rightarrow>
                  if \<not> verify_artifact tk (get_registry file) f content then None
                  else case at_unpickle tk content of
                    None \<Rightarrow> None
                  | Some obj \<Rightarrow> if pk_has_model obj \<and> pk_explainable obj then Some content else None))"

definition explainer_reload :: "artifact_tools \<Rightarrow> string \<Rightarrow> files \<Rightarrow> serving \<Rightarrow> bool \<times> serving" where
  "explainer_reload tk env fs s =
     (case explainer_load tk env fs (sv_registry s) of
        Some content \<Rightarrow> (True, s\<lparr>sv_explainer := Some content\<rparr>)
      | None \<Rightarrow>
          if sv_explainer s \<noteq> None then (False, s)
          else (case fs ''xgboost_optuna_best.pkl'' of
                  None \<Rightarrow> (False, s)
                | Some content \<Rightarrow>
                    (case at_unpickle tk content of
                       None \<Rightarrow> (False, s)
                     | Some obj \<Rightarrow> if pk_has_model obj \<and> pk_explainable obj
                         then (True, s\<lparr>sv_explainer := Some content\<rparr>) else (False, s))))"

definition restore_registry :: "registry option \<Rightarrow> serving \<Rightarrow> serving" where
  "restore_registry backup s = (case backup of None \<Rightarrow> s | Some r \<Rightarrow> s\<lparr>sv_registry := Some r\<rparr>)"

definition coordinate_model_reload ::
  "artifact_tools \<Rightarrow> string \<Rightarrow> files \<Rightarrow> registry option \<Rightarrow> serving \<Rightarrow> (lifecycle_error + unit) \<times> serving" where
  "coordinate_model_reload tk env fs backup s =
     (case prediction_reload tk env fs s of
        (False, s1) \<Rightarrow> (Inl (RuntimeErr ''PredictionService reload failed''), restore_registry backup s1)
      | (True, s1) \<Rightarrow>
          (case explainer_reload tk env fs s1 of
             (True, s2) \<Rightarrow> (Inr (), s2)
           | (False, s2) \<Rightarrow>
               (Inl (RuntimeErr ''ExplainerService reload failed; state reverted''),
                if backup = None then s2 else snd (prediction_reload tk env fs (restore_registry backup s2)))))"

text \<open>The rollback handler, with the lifecycle lock held: rollback, then reload with the old registry as backup.\<close>

datatype http_result = HttpOk "string \<times> string" | HttpStatus nat

definition http_of_error :: "lifecycle_error \<Rightarrow> http_result" where
  "http_of_error err =
     (case err of
        RuntimeErr m \<Rightarrow>
          if contains ''active'' (str_lower m) \<or> contains ''timed out'' (str_lower m) then HttpStatus 409 else HttpStatus 400
      | ValueErr _ \<Rightarrow> HttpStatus 400
      | OtherErr \<Rightarrow> HttpStatus 500)"

definition trigger_rollback ::
  "artifact_tools \<Rightarrow> string \<Rightarrow> time \<Rightarrow> files \<Rightarrow> bool \<Rightarrow> serving \<Rightarrow> http_result \<times> serving" where
  "trigger_rollback tk env t fs locked s =
     (if locked then (HttpStatus 409, s)
      else let backup = get_registry (sv_registry s)
           in case execute_model_rollback tk t fs backup of
                Inl err \<Rightarrow> (http_of_error err, s)
              | Inr (champ, old, reg) \<Rightarrow>
                  (case coordinate_model_reload tk env fs (Some backup) (s\<lparr>sv_registry := Some reg\<rparr>) of
                     (Inl err, s') \<Rightarrow> (http_of_error err, s')
                   | (Inr _, s') \<Rightarrow> (HttpOk (champ, old), s')))"

subsection \<open>The promotion gate\<close>

type_synonym metrics = "string \<rightharpoonup> rat"

definition metric :: "metrics \<Rightarrow> string \<Rightarrow> rat" where
  \<comment> \<open>\<open>metrics.get(k, 0.0)\<close>\<close>
  "metric m k = (case m k of None \<Rightarrow> 0 | Some v \<Rightarrow> v)"

definition rate_metric :: "metrics \<Rightarrow> string \<Rightarrow> rat" where
  \<comment> \<open>\<open>metrics.get(k, metrics.get("val_" + k, 0.0))\<close>\<close>
  "rate_metric m k = (case m k of None \<Rightarrow> metric m (''val_'' @ k) | Some v \<Rightarrow> v)"

definition calculate_safety_metrics :: "string list \<Rightarrow> string list \<Rightarrow> metrics" where
  "calculate_safety_metrics y_true y_pred =
     (let pairs = zip y_true y_pred;
          legit = filter (\<lambda>(a, b). a = ''legitimate'') pairs;
          threats = filter (\<lambda>(a, b). a \<noteq> ''legitimate'') pairs;
          ratio = (\<lambda>xs ys. if xs = [] then 0 else Fract (int (length ys)) (int (length xs)));
          fpr = py_round 4 (ratio legit (filter (\<lambda>(a, b). b \<noteq> ''legitimate'') legit));
          fnr = py_round 4 (ratio threats (filter (\<lambda>(a, b). b = ''legitimate'') threats))
      in [''fpr'' \<mapsto> fpr, ''fnr'' \<mapsto> fnr, ''val_fpr'' \<mapsto> fpr, ''val_fnr'' \<mapsto> fnr])"

definition promotion_gates :: "metrics \<Rightarrow> metrics \<Rightarrow> bool" where
  \<comment> \<open>candidate, champion\<close>
  "promotion_gates cand champ =
     (metric cand ''f1_macro'' \<ge> metric champ ''f1_macro'' - 2 / 1000 \<and>
      rate_metric cand ''fpr'' \<le> min (rate_metric champ ''fpr'' + 2 / 1000) (15 / 1000) \<and>
      rate_metric cand ''fnr'' \<le> min (rate_metric champ ''fnr'' + 5 / 1000) (30 / 1000) \<and>
      metric cand ''phishing_precision'' \<ge> 90 / 100 \<and>
      metric cand ''phishing_recall'' \<ge> max (metric champ ''phishing_recall'' - 1 / 100) (85 / 100) \<and>
      metric cand ''pr_auc'' \<ge> max (metric champ ''pr_auc'' - 5 / 1000) (90 / 100) \<and>
      metric cand ''accuracy'' \<ge> max (metric champ ''accuracy'' - 5 / 1000) (88 / 100))"

datatype champion_evaluation =
    ChampionMissing \<comment> \<open>no champion in the registry\<close>
  | ChampionFailed \<comment> \<open>it cannot be loaded, verified or evaluated\<close>
  | ChampionMetrics metrics

definition load_champion_model :: "artifact_tools \<Rightarrow> files \<Rightarrow> registry \<Rightarrow> string option \<times> string option" where
  \<comment> \<open>the artifact and the name\<close>
  "load_champion_model tk fs reg =
     (case rg_production reg of
        None \<Rightarrow> (None, None)
      | Some f \<Rightarrow>
          if f = [] then (None, None)
          else (case validate_model_path (at_dir tk) f of
                  None \<Rightarrow> (None, Some f)
                | Some _ \<Rightarrow>
                    (case fs f of
                       None \<Rightarrow> (None, Some f)
                     | Some content \<Rightarrow>
                         if \<not> verify_artifact tk reg f content then (None, Some f)
                         else case at_unpickle tk content of None \<Rightarrow> (None, Some f) | Some _ \<Rightarrow> (Some content, Some f))))"

definition evaluate_champion ::
  "artifact_tools \<Rightarrow> files \<Rightarrow> registry \<Rightarrow> (string \<Rightarrow> metrics option) \<Rightarrow> champion_evaluation" where
  \<comment> \<open>\<open>evaluate\<close> gives the metrics of an artifact on the validation split, \<open>None\<close> when it raises\<close>
  "evaluate_champion tk fs reg evaluate =
     (case load_champion_model tk fs reg of
        (None, None) \<Rightarrow> ChampionMissing
      | (None, Some _) \<Rightarrow> ChampionFailed
      | (Some content, _) \<Rightarrow> (case evaluate content of None \<Rightarrow> ChampionFailed | Some m \<Rightarrow> ChampionMetrics m))"

definition passes_gates :: "metrics \<Rightarrow> champion_evaluation \<Rightarrow> bool" where
  "passes_gates cand ev = (case ev of ChampionMetrics champ \<Rightarrow> promotion_gates cand champ | _ \<Rightarrow> False)"

definition logged_candidate :: "metrics \<Rightarrow> metrics" where
  \<comment> \<open>the metrics that are stored with a promotion\<close>
  "logged_candidate m =
     [''val_f1_macro'' \<mapsto> metric m ''f1_macro'', ''val_fpr'' \<mapsto> rate_metric m ''fpr'', ''val_fnr'' \<mapsto> rate_metric m ''fnr'',
      ''phishing_precision'' \<mapsto> metric m ''phishing_precision'', ''phishing_recall'' \<mapsto> metric m ''phishing_recall'',
      ''pr_auc'' \<mapsto> metric m ''pr_auc'', ''accuracy'' \<mapsto> metric m ''accuracy'']"

definition promote_trained ::
  "artifact_tools \<Rightarrow> time \<Rightarrow> string \<Rightarrow> string \<Rightarrow> (string \<Rightarrow> metrics option) \<Rightarrow> metrics \<Rightarrow> files \<Rightarrow> registry \<Rightarrow>
   (lifecycle_error + bool) \<times> files \<times> registry" where
  \<comment> \<open>the part of \<open>run_retraining_pipeline\<close> after the training of a candidate with artifact \<open>content\<close>: evaluation
    of the champion, gates, saving, checksum, promotion\<close>
  "promote_trained tk t name content evaluate cand fs reg =
     (let ev = evaluate_champion tk fs reg evaluate;
          fs' = fs(name \<mapsto> content);
          sha = at_sha256 tk content;
          promoted = (passes_gates cand ev \<and> length sha = 64)
      in case at_unpickle tk content of
           None \<Rightarrow> (Inl OtherErr, fs', reg)
         | Some obj \<Rightarrow>
             if \<not> pk_has_predict obj then (Inl OtherErr, fs', reg)
             else if \<not> promoted then (Inr False, fs', reg)
             else case promote_candidate_to_registry t name (logged_candidate cand) (Some sha) reg of
               Inl err \<Rightarrow> (Inl err, fs', reg)
             | Inr reg' \<Rightarrow> (Inr True, fs', reg'))"

definition retrain_and_reload ::
  "artifact_tools \<Rightarrow> string \<Rightarrow> time \<Rightarrow> string \<Rightarrow> string \<Rightarrow> (string \<Rightarrow> metrics option) \<Rightarrow> metrics \<Rightarrow> files \<Rightarrow>
   serving \<Rightarrow> (lifecycle_error + bool) \<times> files \<times> serving" where
  \<comment> \<open>what \<open>trigger_retraining\<close> does with a trained candidate under the lifecycle lock\<close>
  "retrain_and_reload tk env t name content evaluate cand fs s =
     (let backup = get_registry (sv_registry s)
      in case promote_trained tk t name content evaluate cand fs backup of
           (Inl err, fs', _) \<Rightarrow> (Inl err, fs', s)
         | (Inr False, fs', _) \<Rightarrow> (Inr False, fs', s)
         | (Inr True, fs', reg) \<Rightarrow>
             (case coordinate_model_reload tk env fs' (Some backup) (s\<lparr>sv_registry := Some reg\<rparr>) of
                (Inl err, s') \<Rightarrow> (Inl err, fs', s') | (Inr _, s') \<Rightarrow> (Inr True, fs', s')))"

datatype lifecycle_op =
    OpRetrain time string string "string \<Rightarrow> metrics option" metrics
  | OpRollback time bool

fun exec_lifecycle :: "artifact_tools \<Rightarrow> string \<Rightarrow> lifecycle_op \<Rightarrow> files \<times> serving \<Rightarrow> files \<times> serving" where
  "exec_lifecycle tk env (OpRetrain t name content evaluate cand) (fs, s) =
     snd (retrain_and_reload tk env t name content evaluate cand fs s)"
| "exec_lifecycle tk env (OpRollback t locked) (fs, s) = (fs, snd (trigger_rollback tk env t fs locked s))"

subsection \<open>Lemmas\<close>

lemma path_name_no_slash: "CHR ''/'' \<notin> set (path_name s)"
proof -
  let ?parts = "filter (\<lambda>p. p \<noteq> [] \<and> p \<noteq> ''.'') (split_on (CHR ''/'') s)"
  show ?thesis
  proof (cases "?parts = []")
    case False
    then have "last ?parts \<in> set (split_on (CHR ''/'') s)" using last_in_set by fastforce
    then show ?thesis using False split_on_no_sep by (simp add: path_name_def Let_def)
  qed (simp add: path_name_def Let_def)
qed

lemma find_in: "find p xs = Some x \<Longrightarrow> x \<in> set xs"
  by (induction xs) (auto split: if_splits)

lemma rollback_candidate_sound:
  assumes "rollback_candidate tk fs reg = Some champ"
  shows "champ \<noteq> []" "usable_champion tk fs (production_of reg) (rg_demoted_models reg) champ"
    "champ \<in> set (rg_champion_history reg) \<or> rg_previous_champion reg = Some champ"
proof -
  let ?ok = "usable_champion tk fs (production_of reg) (rg_demoted_models reg)"
  have "champ \<noteq> [] \<and> ?ok champ \<and> (champ \<in> set (rg_champion_history reg) \<or> rg_previous_champion reg = Some champ)"
  proof (cases "find ?ok (rev (rg_champion_history reg))")
    case None
    then show ?thesis using assms by (auto simp: rollback_candidate_def Let_def split: option.splits if_splits)
  next
    case (Some c)
    then have "?ok c" "c \<in> set (rg_champion_history reg)" using find_in find_SomeD by fastforce+
    then show ?thesis
      using assms Some by (auto simp: rollback_candidate_def Let_def split: option.splits if_splits)
  qed
  then show "champ \<noteq> []" "?ok champ" "champ \<in> set (rg_champion_history reg) \<or> rg_previous_champion reg = Some champ"
    by blast+
qed

lemma rollback_success:
  assumes "execute_model_rollback tk t fs reg = Inr (champ, old, reg')"
  obtains content where "rollback_candidate tk fs reg = Some champ" "old = production_of reg" "fs champ = Some content"
    "verify_artifact tk reg champ content" "reg' = record_rollback t champ reg"
  using assms by (auto simp: execute_model_rollback_def split: option.splits if_splits)

definition registry_ok :: "registry \<Rightarrow> bool" where
  "registry_ok r = (distinct (rg_demoted_models r) \<and> production_of r \<notin> set (rg_demoted_models r))"

lemma production_simps [simp]:
  "production_of (r\<lparr>rg_production := Some p\<rparr>) = p"
  "production_of (r\<lparr>rg_staging := q\<rparr>) = production_of r"
  by (simp_all add: production_of_def)

lemma promote_ok:
  assumes "promote_candidate_to_registry t cand m sha r = Inr r'" "registry_ok r"
  shows "registry_ok r'"
proof -
  have d: "distinct (rg_demoted_models r)" using assms(2) by (simp add: registry_ok_def)
  have "rg_production r' = Some cand" "rg_demoted_models r' = remove1 cand (rg_demoted_models r)"
    using assms(1) by (auto simp: promote_candidate_to_registry_def Let_def remove1_idem split: option.splits if_splits)
  then show ?thesis using d by (simp add: registry_ok_def production_of_def)
qed

lemma record_rollback_fields:
  "rg_production (record_rollback t champ r) = Some champ"
  "set (rg_demoted_models (record_rollback t champ r)) = insert (production_of r) (set (rg_demoted_models r))"
  "rg_champion_history (record_rollback t champ r) = rg_champion_history r"
  "rg_previous_champion (record_rollback t champ r) = None"
  by (auto simp: record_rollback_def Let_def)

lemma rollback_ok:
  assumes "execute_model_rollback tk t fs r = Inr (champ, old, r')" "registry_ok r"
  shows "registry_ok r'"
proof -
  have c: "rollback_candidate tk fs r = Some champ" and r': "r' = record_rollback t champ r"
    using assms(1) by (auto elim: rollback_success)
  from rollback_candidate_sound(2) [OF c] have u: "champ \<noteq> production_of r" "champ \<notin> set (rg_demoted_models r)"
    by (simp_all add: usable_champion_def)
  have "distinct (rg_demoted_models r')"
    using assms(2) r' by (simp add: registry_ok_def record_rollback_def Let_def)
  moreover have "production_of r' = champ" by (simp add: r' production_of_def record_rollback_fields)
  ultimately show ?thesis using u by (simp add: registry_ok_def r' record_rollback_fields)
qed

lemma default_ok: "registry_ok (get_registry None)"
  by (simp add: registry_ok_def get_registry_def)

lemma prediction_reload_registry [simp]: "sv_registry (snd (prediction_reload tk env fs s)) = sv_registry s"
  by (simp add: prediction_reload_def split: option.splits)

lemma explainer_reload_registry [simp]: "sv_registry (snd (explainer_reload tk env fs s)) = sv_registry s"
  by (simp add: explainer_reload_def split: option.splits)

lemma coordinate_registry:
  "sv_registry (snd (coordinate_model_reload tk env fs (Some b) s)) \<in> {sv_registry s, Some b}"
proof -
  obtain x s1 where 1: "prediction_reload tk env fs s = (x, s1)" by (cases "prediction_reload tk env fs s")
  obtain y s2 where 2: "explainer_reload tk env fs s1 = (y, s2)" by (cases "explainer_reload tk env fs s1")
  have "sv_registry s1 = sv_registry s" "sv_registry s2 = sv_registry s1"
    using prediction_reload_registry [of tk env fs s] explainer_reload_registry [of tk env fs s1] by (simp_all add: 1 2)
  then show ?thesis
    by (cases x; cases y) (simp_all add: coordinate_model_reload_def 1 2 restore_registry_def)
qed

lemma promote_trained_cases:
  assumes "promote_trained tk t name content evaluate cand fs reg = (res, fs', reg')"
  shows "reg' = reg \<or> (\<exists>sha. promote_candidate_to_registry t name (logged_candidate cand) sha reg = Inr reg')"
  using assms by (auto simp: promote_trained_def Let_def split: option.splits if_splits sum.splits)

definition serving_ok :: "serving \<Rightarrow> bool" where
  "serving_ok s = registry_ok (get_registry (sv_registry s))"

lemma serving_okI: "sv_registry s' \<in> {Some r, Some b} \<Longrightarrow> registry_ok r \<Longrightarrow> registry_ok b \<Longrightarrow> serving_ok s'"
  by (auto simp: serving_ok_def get_registry_def)

lemma trigger_rollback_ok:
  assumes "serving_ok s"
  shows "serving_ok (snd (trigger_rollback tk env t fs locked s))"
proof (cases "execute_model_rollback tk t fs (get_registry (sv_registry s))")
  case (Inl e)
  then show ?thesis using assms by (simp add: trigger_rollback_def Let_def)
next
  case (Inr x)
  obtain champ old reg where x: "x = (champ, old, reg)" by (cases x)
  have ok: "registry_ok (get_registry (sv_registry s))" using assms by (simp add: serving_ok_def)
  then have r: "registry_ok reg" using rollback_ok Inr x by blast
  let ?c = "coordinate_model_reload tk env fs (Some (get_registry (sv_registry s))) (s\<lparr>sv_registry := Some reg\<rparr>)"
  have "sv_registry (snd ?c) \<in> {Some reg, Some (get_registry (sv_registry s))}"
    using coordinate_registry [of tk env fs "get_registry (sv_registry s)" "s\<lparr>sv_registry := Some reg\<rparr>"] by simp
  then have "serving_ok (snd ?c)" using r ok by (rule serving_okI)
  then show ?thesis
    using assms by (auto simp: trigger_rollback_def Let_def Inr x split: prod.splits sum.splits)
qed

lemma retrain_ok:
  assumes "serving_ok s"
  shows "serving_ok (snd (snd (retrain_and_reload tk env t name content evaluate cand fs s)))"
proof -
  let ?b = "get_registry (sv_registry s)"
  obtain res fs' reg where p: "promote_trained tk t name content evaluate cand fs ?b = (res, fs', reg)"
    by (cases "promote_trained tk t name content evaluate cand fs ?b")
  have ok: "registry_ok ?b" using assms by (simp add: serving_ok_def)
  then have r: "registry_ok reg" using promote_trained_cases [OF p] promote_ok by blast
  let ?c = "coordinate_model_reload tk env fs' (Some ?b) (s\<lparr>sv_registry := Some reg\<rparr>)"
  have "sv_registry (snd ?c) \<in> {Some reg, Some ?b}"
    using coordinate_registry [of tk env fs' ?b "s\<lparr>sv_registry := Some reg\<rparr>"] by simp
  then have "serving_ok (snd ?c)" using r ok by (rule serving_okI)
  then show ?thesis
    using assms by (auto simp: retrain_and_reload_def Let_def p split: prod.splits sum.splits bool.splits)
qed

lemma exec_lifecycle_ok: "serving_ok (snd st) \<Longrightarrow> serving_ok (snd (exec_lifecycle tk env op st))"
  using trigger_rollback_ok retrain_ok by (cases op; cases st) auto

lemma lifecycle_run_ok: "serving_ok (snd st) \<Longrightarrow> serving_ok (snd (fold (exec_lifecycle tk env) ops st))"
proof (induction ops arbitrary: st)
  case (Cons op ops)
  from Cons.IH [OF exec_lifecycle_ok [OF Cons.prems]] show ?case by simp
qed simp

fun rollback_chain :: "artifact_tools \<Rightarrow> (time \<times> files) list \<Rightarrow> registry \<Rightarrow> string list" where
  \<comment> \<open>the champions that rollbacks in a row restore, up to the first that fails\<close>
  "rollback_chain tk [] reg = []"
| "rollback_chain tk ((t, fs) # calls) reg =
     (case execute_model_rollback tk t fs reg of
        Inl _ \<Rightarrow> []
      | Inr (champ, _, reg') \<Rightarrow> champ # rollback_chain tk calls reg')"

lemma rollback_chain_step:
  assumes "execute_model_rollback tk t fs reg = Inr (champ, old, reg')"
  shows "champ \<notin> insert (production_of reg) (set (rg_demoted_models reg))"
    "champ \<in> set (rg_champion_history reg) \<or> rg_previous_champion reg = Some champ"
    "production_of reg' = champ" "set (rg_demoted_models reg') = insert (production_of reg) (set (rg_demoted_models reg))"
    "rg_champion_history reg' = rg_champion_history reg" "rg_previous_champion reg' = None"
proof -
  have c: "rollback_candidate tk fs reg = Some champ" and r: "reg' = record_rollback t champ reg"
    using assms by (auto elim: rollback_success)
  from rollback_candidate_sound [OF c] show "champ \<notin> insert (production_of reg) (set (rg_demoted_models reg))"
    "champ \<in> set (rg_champion_history reg) \<or> rg_previous_champion reg = Some champ"
    by (simp_all add: usable_champion_def)
  show "production_of reg' = champ" "set (rg_demoted_models reg') = insert (production_of reg) (set (rg_demoted_models reg))"
    "rg_champion_history reg' = rg_champion_history reg" "rg_previous_champion reg' = None"
    by (simp_all add: r production_of_def record_rollback_fields)
qed

lemma rollback_chain_fresh:
  "set (rollback_chain tk calls reg) \<inter> insert (production_of reg) (set (rg_demoted_models reg)) = {} \<and>
   distinct (rollback_chain tk calls reg) \<and>
   set (rollback_chain tk calls reg) \<subseteq> set (rg_champion_history reg) \<union> set_option (rg_previous_champion reg)"
proof (induction calls arbitrary: reg)
  case (Cons c calls)
  obtain t fs where c: "c = (t, fs)" by (cases c)
  show ?case
  proof (cases "execute_model_rollback tk t fs reg")
    case (Inr x)
    obtain champ old reg' where x: "x = (champ, old, reg')" by (cases x)
    note step = rollback_chain_step [OF Inr [unfolded x]]
    from Cons.IH [of reg'] step show ?thesis by (auto simp: c Inr x)
  qed (simp add: c)
qed simp

subsection \<open>Theorems\<close>

definition example_sha :: "string \<Rightarrow> string" where
  "example_sha c = take 64 (c @ replicate 64 (CHR ''0''))"

definition example_pickled :: "string \<Rightarrow> pickled option" where
  "example_pickled c =
     Some \<lparr>pk_has_model = True, pk_has_predict = True, pk_has_classes = (c \<noteq> ''old format''), pk_smoke_ok = True,
       pk_explainable = True\<rparr>"

definition example_tools :: artifact_tools where
  "example_tools = \<lparr>at_dir = ''/store'', at_sha256 = example_sha, at_unpickle = example_pickled\<rparr>"

definition good_metrics :: metrics where
  "good_metrics = [''f1_macro'' \<mapsto> 95 / 100, ''fpr'' \<mapsto> 1 / 100, ''fnr'' \<mapsto> 2 / 100, ''phishing_precision'' \<mapsto> 93 / 100,
     ''phishing_recall'' \<mapsto> 92 / 100, ''pr_auc'' \<mapsto> 96 / 100, ''accuracy'' \<mapsto> 95 / 100]"

definition example_files :: files where
  "example_files = [default_model \<mapsto> ''first'', ''a.pkl'' \<mapsto> ''A'', ''b.pkl'' \<mapsto> ''B'', ''c.pkl'' \<mapsto> ''C'']"

text \<open>
  C19: in every run of retrainings and rollbacks that starts from a well-formed registry, with any
  outcome of gates and reloads, the model in production is never one of the demoted ones, and no
  model is demoted twice.
\<close>

theorem production_never_demoted:
  assumes "registry_ok (get_registry file)"
  shows "production_of (get_registry (sv_registry (snd
      (fold (exec_lifecycle tk env) ops (fs, \<lparr>sv_registry = file, sv_prediction = p, sv_explainer = x\<rparr>))))) \<notin>
    set (rg_demoted_models (get_registry (sv_registry (snd
      (fold (exec_lifecycle tk env) ops (fs, \<lparr>sv_registry = file, sv_prediction = p, sv_explainer = x\<rparr>))))))"
proof -
  let ?st = "(fs, \<lparr>sv_registry = file, sv_prediction = p, sv_explainer = x\<rparr>)"
  have "serving_ok (snd ?st)" using assms by (simp add: serving_ok_def)
  then have "serving_ok (snd (fold (exec_lifecycle tk env) ops ?st))" by (rule lifecycle_run_ok)
  then show ?thesis unfolding serving_ok_def registry_ok_def by (rule conjunct2)
qed

definition serving_example :: serving where
  "serving_example = \<lparr>sv_registry = None, sv_prediction = Some ''first'', sv_explainer = Some ''first''\<rparr>"

lemma production_never_demoted_witness:
  "production_of (get_registry (sv_registry (snd (fold (exec_lifecycle example_tools ''production'')
      [OpRetrain 1 ''n.pkl'' ''new'' (\<lambda>_. Some good_metrics) good_metrics, OpRollback 2 False, OpRollback 3 False]
      (example_files, \<lparr>sv_registry = None, sv_prediction = Some ''first'', sv_explainer = Some ''first''\<rparr>))))) \<notin>
    set (rg_demoted_models (get_registry (sv_registry (snd (fold (exec_lifecycle example_tools ''production'')
      [OpRetrain 1 ''n.pkl'' ''new'' (\<lambda>_. Some good_metrics) good_metrics, OpRollback 2 False, OpRollback 3 False]
      (example_files, \<lparr>sv_registry = None, sv_prediction = Some ''first'', sv_explainer = Some ''first''\<rparr>))))))"
  by (rule production_never_demoted [OF default_ok])

text \<open>
  C21: rollbacks in a row restore pairwise different models that were neither in production nor
  demoted when they began, each from the champion history (or the recorded predecessor); so no bad
  champion returns, and after at most one more rollback than the history has entries they stop.
\<close>

theorem rollbacks_never_return:
  "distinct (production_of reg # rollback_chain tk calls reg) \<and>
   list_all (\<lambda>m. m \<notin> set (rg_demoted_models reg)) (rollback_chain tk calls reg) \<and>
   length (rollback_chain tk calls reg) \<le> Suc (length (rg_champion_history reg))"
proof -
  let ?c = "rollback_chain tk calls reg"
  note f = rollback_chain_fresh [of tk calls reg]
  have "length ?c = card (set ?c)" using f by (simp add: distinct_card)
  also have "\<dots> \<le> card (set (rg_champion_history reg) \<union> set_option (rg_previous_champion reg))"
    using f by (intro card_mono) simp_all
  also have "\<dots> \<le> card (set (rg_champion_history reg)) + card (set_option (rg_previous_champion reg))"
    by (rule card_Un_le)
  also have "\<dots> \<le> length (rg_champion_history reg) + 1"
    by (intro add_mono card_length) (cases "rg_previous_champion reg"; simp)
  finally show ?thesis using f by (auto simp: list_all_iff)
qed

text \<open>
  A model file name that passes the check denotes the model directory itself or a direct entry
  of it: the name has no separator, no backslash and no \<open>..\<close>, and the path is the directory, a slash and
  the name.
\<close>

theorem model_path_confined:
  assumes "validate_model_path dir f = Some p"
  shows "p = (if f = [] then dir else dir @ ''/'' @ f) \<and> CHR ''/'' \<notin> set f \<and> CHR 0x5C \<notin> set f \<and>
    \<not> contains ''..'' f \<and> f \<noteq> ''.''"
proof -
  have "path_name ''.'' = []" by code_simp
  then show ?thesis using assms by (auto simp: validate_model_path_def Let_def split: if_splits)
qed

lemma model_path_confined_witness:
  "validate_model_path ''/store'' ''xgb.pkl'' = Some ''/store/xgb.pkl'' \<and> CHR ''/'' \<notin> set ''xgb.pkl''"
proof -
  have v: "validate_model_path ''/store'' ''xgb.pkl'' = Some ''/store/xgb.pkl''" by code_simp
  show ?thesis using model_path_confined [OF v] v by simp
qed

lemma model_paths_refused:
  "validate_model_path ''/store'' ''../etc/passwd'' = None" "validate_model_path ''/store'' ''..'' = None"
  "validate_model_path ''/store'' ''a/b'' = None" "validate_model_path ''/store'' ''/etc/passwd'' = None"
  "validate_model_path ''/store'' ''.'' = None"
  by code_simp+

lemma promote_trained_True:
  assumes "promote_trained tk t name content evaluate cand fs reg = (Inr True, fs', reg')"
  obtains champ where "evaluate_champion tk fs reg evaluate = ChampionMetrics champ" "promotion_gates cand champ"
    "length (at_sha256 tk content) = 64" "fs' = fs(name \<mapsto> content)"
    "promote_candidate_to_registry t name (logged_candidate cand) (Some (at_sha256 tk content)) reg = Inr reg'"
  using assms
  by (auto simp: promote_trained_def Let_def passes_gates_def split: option.splits if_splits sum.splits
      champion_evaluation.splits)

lemma evaluated_champion_verified:
  assumes "evaluate_champion tk fs reg evaluate = ChampionMetrics m"
  obtains f content where "rg_production reg = Some f" "fs f = Some content" "verify_artifact tk reg f content"
    "evaluate content = Some m"
  using assms
  by (auto simp: evaluate_champion_def load_champion_model_def split: option.splits if_splits prod.splits)

text \<open>
  C20: a retraining promotes a candidate only when the champion it replaces could be loaded, verified
  against its recorded checksum and evaluated, and the candidate stays below 1.5 percent false
  positives and 3 percent false negatives and reaches the floors of the other metrics; the
  registry then names the candidate everywhere, with the checksum of the file that was saved and the
  old champion in the history.
\<close>

theorem promotion_needs_all_gates:
  assumes "promote_trained tk t name content evaluate cand fs reg = (Inr True, fs', reg')"
  shows "\<exists>old_content champ.
    fs (production_of reg) = Some old_content \<and> verify_artifact tk reg (production_of reg) old_content \<and>
    evaluate old_content = Some champ \<and> metric cand ''f1_macro'' \<ge> metric champ ''f1_macro'' - 2 / 1000 \<and>
    rate_metric cand ''fpr'' \<le> 15 / 1000 \<and> rate_metric cand ''fnr'' \<le> 30 / 1000 \<and>
    metric cand ''phishing_precision'' \<ge> 90 / 100 \<and> metric cand ''phishing_recall'' \<ge> 85 / 100 \<and>
    metric cand ''pr_auc'' \<ge> 90 / 100 \<and> metric cand ''accuracy'' \<ge> 88 / 100 \<and>
    production_of reg' = name \<and> fs' name = Some content \<and>
    (production_of reg = [] \<or> production_of reg \<in> set (rg_champion_history reg'))"
proof -
  obtain champ where ev: "evaluate_champion tk fs reg evaluate = ChampionMetrics champ"
    and g: "promotion_gates cand champ" and fs': "fs' = fs(name \<mapsto> content)"
    and p: "promote_candidate_to_registry t name (logged_candidate cand) (Some (at_sha256 tk content)) reg = Inr reg'"
    using assms by (rule promote_trained_True)
  from ev obtain f c where f: "rg_production reg = Some f" "fs f = Some c" "verify_artifact tk reg f c" "evaluate c = Some champ"
    by (rule evaluated_champion_verified)
  have "production_of reg = f" by (simp add: production_of_def f(1))
  moreover have "production_of reg' = name \<and> (production_of reg = [] \<or> production_of reg \<in> set (rg_champion_history reg'))"
    using p by (auto simp: promote_candidate_to_registry_def Let_def production_of_def split: if_splits)
  ultimately show ?thesis
    using f g fs' unfolding promotion_gates_def by (intro exI [of _ c] exI [of _ champ]) auto
qed

lemma promotion_needs_all_gates_witness:
  "\<exists>c. example_files (production_of (get_registry None)) = Some c \<and> rate_metric good_metrics ''fpr'' \<le> 15 / 1000"
proof -
  let ?r = "promote_trained example_tools 7 ''n.pkl'' ''new'' (\<lambda>_. Some good_metrics) good_metrics example_files (get_registry None)"
  have "fst ?r = Inr True" by code_simp
  then have "?r = (Inr True, fst (snd ?r), snd (snd ?r))" by (simp add: prod_eq_iff)
  from promotion_needs_all_gates [OF this] show ?thesis by blast
qed

text \<open>
  With both services running, a reload that reports success after the prediction service
  accepted the new artifact leaves both services on the same artifact, the verified file of the
  registry; a reload that fails in the explainer restores the registry given as a backup, keeps the
  explainer and takes the prediction service back to that registry's artifact.
\<close>

theorem reload_keeps_services_together:
  assumes "sv_explainer s \<noteq> None" "prediction_load tk env fs (sv_registry s) = Some content"
    "fs (model_file tk env (sv_registry s)) \<noteq> None"
  shows "case coordinate_model_reload tk env fs (Some backup) s of
      (Inr _, s') \<Rightarrow> sv_prediction s' = Some content \<and> sv_explainer s' = Some content \<and> sv_registry s' = sv_registry s \<and>
        verify_artifact tk (get_registry (sv_registry s)) (model_file tk env (sv_registry s)) content
    | (Inl _, s') \<Rightarrow> sv_registry s' = Some backup \<and> sv_explainer s' = sv_explainer s \<and>
        (prediction_load tk env fs (Some backup) = None \<or> sv_prediction s' = prediction_load tk env fs (Some backup))"
proof -
  let ?f = "model_file tk env (sv_registry s)"
  have c: "fs ?f = Some content" "verify_artifact tk (get_registry (sv_registry s)) ?f content"
    using assms(2) by (auto simp: prediction_load_def Let_def split: option.splits if_splits)
  have p: "prediction_reload tk env fs s = (True, s\<lparr>sv_prediction := Some content\<rparr>)"
    by (simp add: prediction_reload_def assms(2))
  have e: "explainer_load tk env fs (sv_registry s) \<in> {None, Some content}"
    using c by (auto simp: explainer_load_def Let_def path_exists_def split: option.splits if_splits)
  show ?thesis
  proof (cases "explainer_load tk env fs (sv_registry s)")
    case None
    then have "explainer_reload tk env fs (s\<lparr>sv_prediction := Some content\<rparr>) = (False, s\<lparr>sv_prediction := Some content\<rparr>)"
      using assms(1) by (simp add: explainer_reload_def)
    then have "coordinate_model_reload tk env fs (Some backup) s =
      (Inl (RuntimeErr ''ExplainerService reload failed; state reverted''),
       snd (prediction_reload tk env fs (s\<lparr>sv_prediction := Some content, sv_registry := Some backup\<rparr>)))"
      by (simp add: coordinate_model_reload_def p restore_registry_def)
    then show ?thesis by (simp add: prediction_reload_def split: option.splits)
  next
    case (Some d)
    then show ?thesis using e c by (simp add: coordinate_model_reload_def p explainer_reload_def)
  qed
qed

lemma reload_keeps_services_together_witness:
  "case coordinate_model_reload example_tools ''production'' example_files (Some (get_registry None)) serving_example of
      (Inr _, s') \<Rightarrow> sv_prediction s' = Some ''first'' \<and> sv_explainer s' = Some ''first''
    | (Inl _, s') \<Rightarrow> False"
proof -
  let ?c = "coordinate_model_reload example_tools ''production'' example_files (Some (get_registry None)) serving_example"
  have "fst ?c = Inr ()" by code_simp
  moreover have "sv_explainer serving_example \<noteq> None" by (simp add: serving_example_def)
  moreover have "prediction_load example_tools ''production'' example_files (sv_registry serving_example) = Some ''first''"
    by code_simp
  moreover have "example_files (model_file example_tools ''production'' (sv_registry serving_example)) \<noteq> None"
    by code_simp
  ultimately show ?thesis
    using reload_keeps_services_together
      [of serving_example example_tools "''production''" example_files "''first''" "get_registry None"]
    by (cases ?c) (auto split: sum.splits)
qed

text \<open>
  C0: \<open>PredictionService.reload_model\<close> keeps the model in memory without an error when the new
  artifact fails its checks, so the coordinated reload reports success although the prediction
  service stays on the old artifact while the explainer moves to the new one.  For instance the
  rollback to an artifact without \<open>classes_\<close> answers 200 and the demoted model goes on predicting.
\<close>

theorem reload_can_split_services:
  assumes "sv_prediction s = Some old" "prediction_load tk env fs (sv_registry s) = None"
    "explainer_load tk env fs (sv_registry s) = Some content"
  shows "coordinate_model_reload tk env fs backup s = (Inr (), s\<lparr>sv_explainer := Some content\<rparr>)"
  using assms by (simp add: coordinate_model_reload_def prediction_reload_def explainer_reload_def)

definition rolled_back_registry :: registry where
  "rolled_back_registry = (get_registry None)\<lparr>rg_production := Some ''old.pkl''\<rparr>"

lemma reload_can_split_services_witness:
  "coordinate_model_reload example_tools ''production'' [''old.pkl'' \<mapsto> ''old format''] None
     \<lparr>sv_registry = Some rolled_back_registry, sv_prediction = Some ''bad'', sv_explainer = Some ''bad''\<rparr> =
   (Inr (), \<lparr>sv_registry = Some rolled_back_registry, sv_prediction = Some ''bad'', sv_explainer = Some ''old format''\<rparr>)"
proof -
  let ?s = "\<lparr>sv_registry = Some rolled_back_registry, sv_prediction = Some ''bad'', sv_explainer = Some ''bad''\<rparr>"
  have "prediction_load example_tools ''production'' [''old.pkl'' \<mapsto> ''old format''] (sv_registry ?s) = None"
    "explainer_load example_tools ''production'' [''old.pkl'' \<mapsto> ''old format''] (sv_registry ?s) = Some ''old format''"
    by code_simp+
  from reload_can_split_services [OF _ this, of "''bad''"] show ?thesis by simp
qed

definition after_promotion :: "string \<Rightarrow> registry \<Rightarrow> registry" where
  "after_promotion f r =
     (case promote_candidate_to_registry 0 f good_metrics (Some (replicate 64 (CHR ''0''))) r of Inr r' \<Rightarrow> r' | Inl _ \<Rightarrow> r)"

text \<open>
  A model that comes back into production keeps its old place in the champion history, because
  the history only takes models it does not contain.  When A, B, A and C are promoted in this order,
  the rollback of C therefore restores B, although A was the champion before C and is valid.
\<close>

theorem rollback_misses_last_champion:
  "(let r = after_promotion ''c.pkl'' (after_promotion ''a.pkl'' (after_promotion ''b.pkl'' (after_promotion ''a.pkl'' (get_registry None))))
    in rg_previous_champion r = Some ''a.pkl'' \<and>
       usable_champion example_tools example_files (production_of r) (rg_demoted_models r) ''a.pkl'' \<and>
       rollback_candidate example_tools example_files r = Some ''b.pkl'')"
  by code_simp

definition decayed :: "nat \<Rightarrow> metrics" where
  "decayed k = good_metrics(''f1_macro'' \<mapsto> 95 / 100 - of_nat k * (2 / 1000))"

text \<open>
  The gate compares macro F1 only with the champion that is replaced, minus a margin of 0.002,
  and has no floor for it: a chain of promotions passes every gate while F1 falls by 0.002 each time.
\<close>

theorem gate_lets_f1_decay:
  "promotion_gates (decayed (Suc k)) (decayed k) \<and>
   metric (decayed k) ''f1_macro'' = 95 / 100 - of_nat k * (2 / 1000)"
  by (simp add: promotion_gates_def decayed_def metric_def rate_metric_def good_metrics_def field_simps)

lemma experimental_ignores_rollback:
  "rg_experimental (record_rollback t champ r) = rg_experimental r"
  by (simp add: record_rollback_def Let_def)

lemma unrecorded_checksum_passes:
  "rg_artifacts_sha256 r f = None \<Longrightarrow> verify_artifact tk r f content"
  by (simp add: verify_artifact_def)

end
