(* ===== verification/LifecycleLock.thy ===== *)
theory LifecycleLock
  imports Prelude
begin

text \<open>
  The lock file of \<open>backend/services/model_lifecycle.py\<close> (\<open>ModelLifecycleLock\<close>): processes that create
  the file exclusively, write their pid into it, take over the lock of a dead process, wait, and
  release.  One action is one system call, so that other processes may act between any two of them.
  The first look at the file, \<open>is_locked\<close>, is the action by which a process starts: it goes on when
  there is no file, or when there is one of a dead owner that is old enough to be unlinked; otherwise
  the operation is refused.
\<close>

subsection \<open>States and actions\<close>

record lock_file =
  lf_creator :: nat \<comment> \<open>who holds the descriptor it was created with\<close>
  lf_pid :: "nat option" \<comment> \<open>what the file says, \<open>None\<close> while it is empty\<close>

datatype pc =
    Idle
  | Expiring \<comment> \<open>found an old file of a dead owner\<close>
  | Trying \<comment> \<open>about to open with \<open>O_CREAT | O_EXCL\<close>\<close>
  | Writing \<comment> \<open>the file is created, the pid not yet written\<close>
  | Refused \<comment> \<open>in the handler of \<open>FileExistsError\<close>\<close>
  | Unlinking \<comment> \<open>the owner was found dead\<close>
  | Holding

record lock_state =
  lk_file :: "lock_file option"
  lk_pc :: "nat \<Rightarrow> pc"
  lk_alive :: "nat \<Rightarrow> bool"

datatype lock_action = Start | StartStale | Expire | Open | WritePid | CheckOwner | GiveUp | Unlink | Release | Crash

definition is_lock_process_alive :: "lock_state \<Rightarrow> bool" where
  "is_lock_process_alive s =
     (case lk_file s of None \<Rightarrow> False
      | Some f \<Rightarrow> (case lf_pid f of None \<Rightarrow> False | Some p \<Rightarrow> lk_alive s p))"

definition goto :: "nat \<Rightarrow> pc \<Rightarrow> lock_state \<Rightarrow> lock_state" where
  "goto p l s = s\<lparr>lk_pc := (lk_pc s)(p := l)\<rparr>"

fun lock_step :: "lock_action \<Rightarrow> nat \<Rightarrow> lock_state \<Rightarrow> lock_state option" where
  \<comment> \<open>\<open>None\<close> when process \<open>p\<close> cannot take the action\<close>
  "lock_step Start p s =
     (if lk_alive s p \<and> lk_pc s p = Idle \<and> lk_file s = None then Some (goto p Trying s) else None)"
| "lock_step StartStale p s =
     (if lk_alive s p \<and> lk_pc s p = Idle \<and> lk_file s \<noteq> None \<and> \<not> is_lock_process_alive s
      then Some (goto p Expiring s) else None)"
| "lock_step Expire p s =
     (if lk_alive s p \<and> lk_pc s p = Expiring then Some (goto p Trying (s\<lparr>lk_file := None\<rparr>)) else None)"
| "lock_step Open p s =
     (if lk_alive s p \<and> lk_pc s p = Trying
      then (case lk_file s of
              None \<Rightarrow> Some (goto p Writing (s\<lparr>lk_file := Some \<lparr>lf_creator = p, lf_pid = None\<rparr>\<rparr>))
            | Some _ \<Rightarrow> Some (goto p Refused s))
      else None)"
| "lock_step WritePid p s =
     (if lk_alive s p \<and> lk_pc s p = Writing
      then Some (goto p Holding (s\<lparr>lk_file := map_option (\<lambda>f. if lf_creator f = p then f\<lparr>lf_pid := Some p\<rparr> else f) (lk_file s)\<rparr>))
      else None)"
| "lock_step CheckOwner p s =
     (if lk_alive s p \<and> lk_pc s p = Refused
      then Some (goto p (if is_lock_process_alive s then Trying else Unlinking) s) else None)"
| "lock_step GiveUp p s =
     (if lk_alive s p \<and> lk_pc s p = Refused \<and> is_lock_process_alive s then Some (goto p Idle s) else None)"
| "lock_step Unlink p s =
     (if lk_alive s p \<and> lk_pc s p = Unlinking then Some (goto p Trying (s\<lparr>lk_file := None\<rparr>)) else None)"
| "lock_step Release p s =
     (if lk_alive s p \<and> lk_pc s p = Holding then Some (goto p Idle (s\<lparr>lk_file := None\<rparr>)) else None)"
| "lock_step Crash p s = (if lk_alive s p then Some (s\<lparr>lk_alive := (lk_alive s)(p := False)\<rparr>) else None)"

definition unlocked :: lock_state where
  "unlocked = \<lparr>lk_file = None, lk_pc = (\<lambda>_. Idle), lk_alive = (\<lambda>_. True)\<rparr>"

fun lock_run :: "(lock_action \<times> nat) list \<Rightarrow> lock_state \<Rightarrow> lock_state option" where
  "lock_run [] s = Some s"
| "lock_run ((a, p) # acts) s = (case lock_step a p s of None \<Rightarrow> None | Some s' \<Rightarrow> lock_run acts s')"

definition holds :: "lock_state \<Rightarrow> nat \<Rightarrow> bool" where
  "holds s p = (lk_alive s p \<and> lk_pc s p = Holding)"

definition LOCK_MAX_AGE_SECONDS :: int where
  "LOCK_MAX_AGE_SECONDS = 900"

definition is_locked :: "bool \<Rightarrow> int \<Rightarrow> lock_state \<Rightarrow> bool \<times> lock_state" where
  \<comment> \<open>is the in-process lock taken, the age of the file in seconds\<close>
  "is_locked in_process age s =
     (if in_process then (True, s)
      else case lk_file s of
        None \<Rightarrow> (False, s)
      | Some _ \<Rightarrow>
          if is_lock_process_alive s then (True, s)
          else if age > LOCK_MAX_AGE_SECONDS then (False, s\<lparr>lk_file := None\<rparr>)
          else (True, s))"

subsection \<open>Lemmas\<close>

definition sound_cleanup :: "lock_action \<Rightarrow> lock_state \<Rightarrow> bool" where
  \<comment> \<open>a file that is unlinked by a clean-up was created by a process that is dead\<close>
  "sound_cleanup a s =
     (a \<in> {Unlink, Expire} \<longrightarrow> (case lk_file s of None \<Rightarrow> True | Some f \<Rightarrow> \<not> lk_alive s (lf_creator f)))"

fun sound_run :: "(lock_action \<times> nat) list \<Rightarrow> lock_state \<Rightarrow> bool" where
  "sound_run [] s = True"
| "sound_run ((a, p) # acts) s =
     (sound_cleanup a s \<and> (case lock_step a p s of None \<Rightarrow> True | Some s' \<Rightarrow> sound_run acts s'))"

definition lock_inv :: "lock_state \<Rightarrow> bool" where
  \<comment> \<open>a live process past the creation still owns the file\<close>
  "lock_inv s =
     (\<forall>p. lk_alive s p \<and> lk_pc s p \<in> {Writing, Holding} \<longrightarrow> (\<exists>f. lk_file s = Some f \<and> lf_creator f = p))"

lemma lock_inv_unique:
  assumes "lock_inv s" "lk_alive s p" "lk_pc s p \<in> {Writing, Holding}" "lk_alive s q" "lk_pc s q \<in> {Writing, Holding}"
  shows "p = q"
proof -
  obtain f where "lk_file s = Some f" "lf_creator f = p" using assms(1-3) by (auto simp: lock_inv_def)
  moreover obtain g where "lk_file s = Some g" "lf_creator g = q" using assms(1,4,5) by (auto simp: lock_inv_def)
  ultimately show ?thesis by simp
qed

lemma lock_inv_step:
  assumes "lock_inv s" "sound_cleanup a s" "lock_step a p s = Some s'"
  shows "lock_inv s'"
proof (cases a)
  case Open
  then show ?thesis using assms by (auto simp: lock_inv_def goto_def split: if_splits option.splits)
next
  case WritePid
  then show ?thesis using assms by (auto simp: lock_inv_def goto_def split: if_splits)
next
  case Expire
  then show ?thesis using assms by (fastforce simp: lock_inv_def goto_def sound_cleanup_def split: if_splits option.splits)
next
  case Unlink
  then show ?thesis using assms by (fastforce simp: lock_inv_def goto_def sound_cleanup_def split: if_splits option.splits)
next
  case Release
  then have p: "lk_alive s p" "lk_pc s p \<in> {Writing, Holding}" and s': "s' = goto p Idle (s\<lparr>lk_file := None\<rparr>)"
    using assms(3) by (simp_all split: if_splits)
  have "q = p" if "lk_alive s q" "lk_pc s q \<in> {Writing, Holding}" for q
    using lock_inv_unique [OF assms(1) that p] .
  then show ?thesis unfolding lock_inv_def s' goto_def by auto
qed (use assms in \<open>auto simp: lock_inv_def goto_def split: if_splits\<close>)

lemma lock_inv_run:
  "lock_inv s \<Longrightarrow> sound_run acts s \<Longrightarrow> lock_run acts s = Some s' \<Longrightarrow> lock_inv s'"
proof (induction acts arbitrary: s)
  case (Cons x acts)
  obtain a p where x: "x = (a, p)" by (cases x)
  from Cons.prems(3) obtain t where t: "lock_step a p s = Some t" "lock_run acts t = Some s'"
    by (auto simp: x split: option.splits)
  moreover have "sound_cleanup a s" "sound_run acts t" using Cons.prems(2) t(1) by (simp_all add: x)
  ultimately show ?case using Cons.IH lock_inv_step [OF Cons.prems(1)] by blast
qed simp

lemma unlocked_inv: "lock_inv unlocked"
  by (simp add: lock_inv_def unlocked_def)

subsection \<open>Theorems\<close>

text \<open>
  C23: as long as every clean-up unlinks only files of processes that are dead by then, at most one
  live process holds the lock, whatever crashes and interleavings happen.
\<close>

theorem lock_exclusive_with_sound_cleanup:
  assumes "lock_run acts unlocked = Some s" "sound_run acts unlocked" "holds s p" "holds s q"
  shows "p = q"
proof -
  have "lock_inv s" using lock_inv_run [OF unlocked_inv assms(2,1)] .
  then show ?thesis using lock_inv_unique assms(3,4) by (simp add: holds_def)
qed

definition takeover :: "(lock_action \<times> nat) list" where
  "takeover =
     [(Start, 1), (Start, 2), (Open, 1), (WritePid, 1), (Crash, 1), (Open, 2), (CheckOwner, 2), (Unlink, 2),
      (Open, 2), (WritePid, 2)]"

lemma lock_exclusive_with_sound_cleanup_witness:
  "(case lock_run takeover unlocked of None \<Rightarrow> False | Some s \<Rightarrow> sound_run takeover unlocked \<and> holds s 2 \<and> \<not> holds s 1)"
proof -
  obtain s where s: "lock_run takeover unlocked = Some s" "holds s 2"
    by (cases "lock_run takeover unlocked") (simp_all add: takeover_def unlocked_def goto_def is_lock_process_alive_def holds_def)
  have snd: "sound_run takeover unlocked"
    by (simp add: takeover_def unlocked_def goto_def is_lock_process_alive_def sound_cleanup_def)
  have "\<not> holds s 1"
  proof
    assume "holds s 1"
    from lock_exclusive_with_sound_cleanup [OF s(1) snd this s(2)] show False by simp
  qed
  then show ?thesis using s snd by simp
qed

lemma creation_window_reachable:
  \<comment> \<open>any two processes that start together can get there\<close>
  assumes "p \<noteq> q"
  obtains s where "lock_run [(Start, p), (Start, q), (Open, p), (Open, q)] unlocked = Some s"
    "lk_alive s p" "lk_alive s q" "lk_pc s p = Writing" "lk_pc s q = Refused"
    "lk_file s = Some \<lparr>lf_creator = p, lf_pid = None\<rparr>"
  using assms by (simp add: unlocked_def goto_def)

text \<open>
  C22: the lock is not exclusive in general.  Between the creation of the file and the write of the
  pid its owner counts as dead.  So whenever a process is in that window and another has found the
  file, the other can take it for an orphan and unlink it, and both hold the lock without any crash;
  the first to finish removes the other's file as well, and a third process that is waiting gets the
  lock while the other still holds it.
\<close>

theorem lock_cleanup_breaks_exclusion:
  assumes "p \<noteq> q" "lk_alive s p" "lk_alive s q" "lk_pc s p = Writing" "lk_pc s q = Refused"
    and "lk_file s = Some f" "lf_pid f = None"
  shows "\<exists>s1 s2. lock_run [(CheckOwner, q), (Unlink, q), (Open, q), (WritePid, q), (WritePid, p)] s = Some s1 \<and>
    holds s1 p \<and> holds s1 q \<and>
    lock_step Release p s1 = Some s2 \<and> holds s2 q \<and> lk_file s2 = None \<and>
    (\<forall>r. r \<notin> {p, q} \<and> lk_alive s r \<and> lk_pc s r = Trying \<longrightarrow>
       (\<exists>s3. lock_run [(Open, r), (WritePid, r)] s2 = Some s3 \<and> holds s3 q \<and> holds s3 r))"
  using assms by (auto simp: goto_def is_lock_process_alive_def holds_def)

lemma lock_cleanup_breaks_exclusion_witness:
  "\<exists>s s1. lock_run [(Start, 1), (Start, 2), (Open, 1), (Open, 2)] unlocked = Some s \<and>
     lock_run [(CheckOwner, 2), (Unlink, 2), (Open, 2), (WritePid, 2), (WritePid, 1)] s = Some s1 \<and> holds s1 1 \<and> holds s1 2"
proof -
  have ne: "(1 :: nat) \<noteq> 2" by simp
  obtain s where s: "lock_run [(Start, 1), (Start, 2), (Open, 1), (Open, 2)] unlocked = Some s"
    "lk_alive s 1" "lk_alive s 2" "lk_pc s 1 = Writing" "lk_pc s 2 = Refused" "lk_file s = Some \<lparr>lf_creator = 1, lf_pid = None\<rparr>"
    by (rule creation_window_reachable [OF ne])
  from lock_cleanup_breaks_exclusion [OF ne s(2-6)] s(1) show ?thesis by (simp only: lock_file.simps simp_thms) blast
qed

lemma is_locked_sound:
  "fst (is_locked in_process age s) = False \<Longrightarrow>
   \<not> in_process \<and> lk_file (snd (is_locked in_process age s)) = None"
  by (auto simp: is_locked_def split: option.splits if_splits)

lemma start_looks_first:
  "fst (is_locked False age s) \<Longrightarrow> lock_step Start p s = None"
  "lock_step Start p s = Some s' \<Longrightarrow> is_locked False age s = (False, s)"
  "lock_step StartStale p s = Some s' \<Longrightarrow> LOCK_MAX_AGE_SECONDS < age \<Longrightarrow>
     is_locked False age s = (False, s\<lparr>lk_file := None\<rparr>)"
  by (auto simp: is_locked_def split: option.splits if_splits)

end
