(* ===== verification/Learning.thy ===== *)
theory Learning
  imports ThreatIntel Lifecycle
begin

text \<open>
  Active learning: \<open>backend/services/learning.py\<close>, the scan handler of \<open>api/routers/scan.py\<close> that feeds it
  and \<open>PredictionService.predict\<close> of \<open>prediction.py\<close>.  A scan of an unknown URL is classified by the
  model, stored as a zero-day row, verified against the threat intelligence, and used for retraining.
  The table of scans is a list in insertion order; the class probabilities of the model, the feature
  vector of a URL and the outcome of a training run are parameters.
\<close>

subsection \<open>Prediction\<close>

definition malicious_order :: "string list" where
  "malicious_order = [''malware'', ''phishing'', ''defacement'']"

definition cascade_step ::
  "string list \<Rightarrow> (string \<rightharpoonup> rat) \<Rightarrow> (string \<Rightarrow> rat) \<Rightarrow> string \<Rightarrow> string option \<times> rat \<Rightarrow> string option \<times> rat" where
  "cascade_step classes thresholds proba c acc =
     (if c \<notin> set classes then acc
      else let conf = proba c; threshold = (case thresholds c of None \<Rightarrow> 1 / 2 | Some t \<Rightarrow> t)
           in if conf \<ge> threshold \<and> conf > snd acc then (Some c, conf) else acc)"

fun argmax :: "(string \<Rightarrow> rat) \<Rightarrow> string list \<Rightarrow> string" where
  \<comment> \<open>the first class of largest probability\<close>
  "argmax proba [] = []"
| "argmax proba [c] = c"
| "argmax proba (c # cs) = (let m = argmax proba cs in if proba c \<ge> proba m then c else m)"

definition predict :: "string list \<Rightarrow> (string \<rightharpoonup> rat) \<Rightarrow> (string \<Rightarrow> rat) \<Rightarrow> string \<times> rat" where
  "predict classes thresholds proba =
     (case fold (cascade_step classes thresholds proba) malicious_order (None, 0) of
        (Some c, conf) \<Rightarrow> (c, conf)
      | (None, _) \<Rightarrow> (argmax proba classes, proba (argmax proba classes)))"

subsection \<open>Feature vectors\<close>

datatype feature_value = FInt int | FFloat rat | FNan | FInf bool | FBool bool | FOther

datatype feature_json = FvDict "(string \<times> feature_value) list" | FvOther

definition is_valid_feature_vector :: "feature_json option \<Rightarrow> string list \<Rightarrow> bool" where
  \<comment> \<open>keys of a dict are distinct; integers are in the range of a float\<close>
  "is_valid_feature_vector fv expected =
     (case fv of
        Some (FvDict d) \<Rightarrow>
          length d = length expected \<and>
          list_all (\<lambda>k. case map_of d k of Some (FInt _) \<Rightarrow> True | Some (FFloat _) \<Rightarrow> True | _ \<Rightarrow> False) expected
      | _ \<Rightarrow> False)"

definition feature_float :: "feature_json option \<Rightarrow> string \<Rightarrow> rat" where
  "feature_float fv k =
     (case fv of Some (FvDict d) \<Rightarrow>
        (case map_of d k of Some (FInt n) \<Rightarrow> of_int n | Some (FFloat q) \<Rightarrow> q | _ \<Rightarrow> 0) | _ \<Rightarrow> 0)"

subsection \<open>Scans\<close>

record scan =
  sc_id :: nat
  sc_url :: string
  sc_prediction :: string
  sc_confidence :: rat
  sc_is_zero_day :: bool
  sc_feature_vector :: "feature_json option"
  sc_source_feed :: "string option"
  sc_is_retrained :: bool
  sc_verified_label :: "string option"
  sc_label_provenance :: "string option"
  sc_retrain_status :: string
  sc_retrain_attempt_count :: nat
  sc_last_retrain_attempt :: "time option"
  sc_retrained_at :: "time option"
  sc_created_at :: time

definition new_scan ::
  "time \<Rightarrow> nat \<Rightarrow> string \<Rightarrow> string \<Rightarrow> rat \<Rightarrow> bool \<Rightarrow> feature_json option \<Rightarrow> string \<Rightarrow> scan" where
  "new_scan t i url prediction confidence zero fv source =
     \<lparr>sc_id = i, sc_url = url, sc_prediction = prediction, sc_confidence = py_round 4 confidence, sc_is_zero_day = zero,
      sc_feature_vector = fv, sc_source_feed = Some source, sc_is_retrained = False, sc_verified_label = None,
      sc_label_provenance = None, sc_retrain_status = ''UNVERIFIED'', sc_retrain_attempt_count = 0,
      sc_last_retrain_attempt = None, sc_retrained_at = None, sc_created_at = t\<rparr>"

record classifier =
  cl_features :: "string \<Rightarrow> feature_json"
  cl_classes :: "string list"
  cl_thresholds :: "string \<rightharpoonup> rat"
  cl_proba :: "feature_json \<Rightarrow> string \<Rightarrow> rat"

datatype scan_response = ScanRejected | ScanResponse string string rat bool \<comment> \<open>URL, prediction, confidence, cache hit\<close>

definition scan_url ::
  "time \<Rightarrow> classifier \<Rightarrow> (string \<times> rat) option \<Rightarrow> threat option \<Rightarrow> string \<Rightarrow> scan list \<Rightarrow> scan_response \<times> scan list \<times> nat option" where
  \<comment> \<open>cached result, answer of the threat intelligence; the last component is the scan whose background tasks start\<close>
  "scan_url t m cached hit url rows =
     (if str_strip url = [] then (ScanRejected, rows, None)
      else case cached of
        Some (p, c) \<Rightarrow> (ScanResponse url p c True, rows, None)
      | None \<Rightarrow>
          let i = Suc (foldr max (map sc_id rows) 0)
          in case hit of
               Some th \<Rightarrow>
                 (ScanResponse url (th_prediction th) (py_round 4 (th_confidence th)) False,
                  rows @ [new_scan t i url (th_prediction th) (th_confidence th) False None (th_source th)], None)
             | None \<Rightarrow>
                 let fv = cl_features m url; (p, c) = predict (cl_classes m) (cl_thresholds m) (cl_proba m fv)
                 in (ScanResponse url p (py_round 4 c) False,
                     rows @ [new_scan t i url p c True (Some fv) ''ml''], Some i))"

subsection \<open>Ground truth\<close>

definition AUTHORITATIVE_THREAT_SOURCES :: "string list" where
  "AUTHORITATIVE_THREAT_SOURCES = [''virustotal'', ''phishtank'', ''local_blacklist'']"

definition MAX_RETRAIN_ATTEMPTS :: nat where
  "MAX_RETRAIN_ATTEMPTS = 3"

definition is_trusted_allowlist_domain :: "string \<Rightarrow> bool" where
  "is_trusted_allowlist_domain url =
     (let h = url_host (if contains ''://'' url then url else ''http://'' @ url) in h \<noteq> [] \<and> trusted_host h)"

definition verify_sample_label :: "threat option \<Rightarrow> string \<Rightarrow> (string \<times> string) option" where
  \<comment> \<open>the answer of the threat intelligence and the URL; label and provenance\<close>
  "verify_sample_label hit url =
     (case hit of
        Some th \<Rightarrow>
          if th_source th \<in> set AUTHORITATIVE_THREAT_SOURCES then Some (th_prediction th, th_source th @ ''_detection'')
          else None
      | None \<Rightarrow> if is_trusted_allowlist_domain url then Some (''legitimate'', ''trusted_allowlist'') else None)"

definition accepted_status :: "string \<Rightarrow> bool" where
  "accepted_status st = (st \<in> set [''VERIFIED'', ''EVALUATED'', ''PROMOTED''])"

definition duplicate_sample :: "nat \<Rightarrow> string \<Rightarrow> scan list \<Rightarrow> bool" where
  \<comment> \<open>the first matching id is tested for truth, and zero is false\<close>
  "duplicate_sample i url rows =
     (case filter (\<lambda>r. str_lower (sc_url r) = str_lower (str_strip url) \<and> accepted_status (sc_retrain_status r) \<and> sc_id r \<noteq> i)
        rows of [] \<Rightarrow> False | r # _ \<Rightarrow> sc_id r \<noteq> 0)"

definition set_status :: "nat \<Rightarrow> string \<Rightarrow> scan list \<Rightarrow> scan list" where
  "set_status i st rows = upd_rows (\<lambda>r. sc_id r = i) (sc_retrain_status_update (\<lambda>_. st)) rows"

definition verified_as :: "string \<Rightarrow> string \<Rightarrow> scan \<Rightarrow> scan" where
  "verified_as label prov r =
     r\<lparr>sc_verified_label := Some label, sc_label_provenance := Some prov, sc_retrain_status := ''VERIFIED''\<rparr>"

definition process_and_verify_zero_day_sample ::
  "string list \<Rightarrow> nat \<Rightarrow> string \<Rightarrow> threat option \<Rightarrow> scan list \<Rightarrow> string \<times> scan list" where
  "process_and_verify_zero_day_sample schema i url hit rows =
     (case find (\<lambda>r. sc_id r = i) rows of
        None \<Rightarrow> (''NOT_FOUND'', rows)
      | Some r \<Rightarrow>
          if \<not> is_valid_feature_vector (sc_feature_vector r) schema then (''INVALID'', set_status i ''INVALID'' rows)
          else if duplicate_sample i url rows then (''DUPLICATE'', set_status i ''DUPLICATE'' rows)
          else case verify_sample_label hit url of
            None \<Rightarrow> (''AMBIGUOUS'', set_status i ''AMBIGUOUS'' rows)
          | Some (label, prov) \<Rightarrow> (''VERIFIED'', upd_rows (\<lambda>r. sc_id r = i) (verified_as label prov) rows))"

subsection \<open>Datasets\<close>

definition eligible_sample :: "scan \<Rightarrow> bool" where
  "eligible_sample r =
     (sc_is_zero_day r \<and> \<not> sc_is_retrained r \<and> sc_retrain_status r = ''VERIFIED'' \<and>
      sc_retrain_attempt_count r < MAX_RETRAIN_ATTEMPTS \<and> sc_feature_vector r \<noteq> None)"

definition fetch_verified_zero_day_samples :: "nat \<Rightarrow> scan list \<Rightarrow> scan list" where
  "fetch_verified_zero_day_samples limit rows = take limit (sort_key (\<lambda>r. - sc_created_at r) (filter eligible_sample rows))"

definition usable_sample :: "string list \<Rightarrow> scan \<Rightarrow> bool" where
  "usable_sample schema r =
     (is_valid_feature_vector (sc_feature_vector r) schema \<and> truthy_str (sc_verified_label r))"

definition evaluated_sample :: "time \<Rightarrow> string list \<Rightarrow> scan \<Rightarrow> scan" where
  "evaluated_sample t schema r =
     (if \<not> is_valid_feature_vector (sc_feature_vector r) schema then r\<lparr>sc_retrain_status := ''INVALID''\<rparr>
      else if \<not> truthy_str (sc_verified_label r) then r
      else r\<lparr>sc_retrain_status := ''EVALUATED'', sc_retrain_attempt_count := sc_retrain_attempt_count r + 1,
             sc_last_retrain_attempt := Some t\<rparr>)"

record dataset =
  ds_features :: "rat list list"
  ds_labels :: "string list"
  ds_sample_ids :: "nat list"
  ds_provenance :: "nat \<rightharpoonup> string \<times> string"

definition build_zero_day_dataset :: "time \<Rightarrow> string list \<Rightarrow> nat \<Rightarrow> scan list \<Rightarrow> dataset \<times> scan list" where
  "build_zero_day_dataset t schema limit rows =
     (let samples = fetch_verified_zero_day_samples limit rows;
          used = filter (usable_sample schema) samples
      in (\<lparr>ds_features = map (\<lambda>r. map (feature_float (sc_feature_vector r)) schema) used,
           ds_labels = map (\<lambda>r. the (sc_verified_label r)) used,
           ds_sample_ids = map sc_id used,
           ds_provenance = map_of (map (\<lambda>r. (sc_id r, the (sc_verified_label r),
             case sc_label_provenance r of None \<Rightarrow> ''unknown'' | Some p \<Rightarrow> if p = [] then ''unknown'' else p)) (rev used))\<rparr>,
          upd_rows (\<lambda>r. sc_id r \<in> sc_id ` set samples) (evaluated_sample t schema) rows))"

definition reset_sample :: "scan \<Rightarrow> scan" where
  "reset_sample r =
     (if sc_retrain_status r = ''EVALUATED''
      then r\<lparr>sc_retrain_status := ''VERIFIED'', sc_retrain_attempt_count := sc_retrain_attempt_count r - 1\<rparr> else r)"

definition reset_samples_from_evaluation :: "nat list \<Rightarrow> scan list \<Rightarrow> nat \<times> scan list" where
  "reset_samples_from_evaluation ids rows =
     (length (filter (\<lambda>r. sc_id r \<in> set ids \<and> sc_retrain_status r = ''EVALUATED'') rows),
      upd_rows (\<lambda>r. sc_id r \<in> set ids) reset_sample rows)"

definition outcome_sample :: "time \<Rightarrow> bool \<Rightarrow> (nat \<rightharpoonup> string \<times> string) \<Rightarrow> scan \<Rightarrow> scan" where
  "outcome_sample t promoted prov r =
     (if promoted then
        (let r1 = r\<lparr>sc_is_retrained := True, sc_retrained_at := Some t, sc_retrain_status := ''PROMOTED''\<rparr>
         in case prov (sc_id r) of None \<Rightarrow> r1
            | Some (label, p) \<Rightarrow> r1\<lparr>sc_verified_label := Some label, sc_label_provenance := Some p\<rparr>)
      else if sc_retrain_attempt_count r \<ge> MAX_RETRAIN_ATTEMPTS
        then r\<lparr>sc_retrain_status := ''QUARANTINED'', sc_is_retrained := True\<rparr>
      else r\<lparr>sc_retrain_status := ''REJECTED''\<rparr>)"

definition mark_samples_outcome ::
  "time \<Rightarrow> nat list \<Rightarrow> bool \<Rightarrow> (nat \<rightharpoonup> string \<times> string) \<Rightarrow> scan list \<Rightarrow> nat \<times> scan list" where
  "mark_samples_outcome t ids promoted prov rows =
     (length (filter (\<lambda>r. sc_id r \<in> set ids) rows), upd_rows (\<lambda>r. sc_id r \<in> set ids) (outcome_sample t promoted prov) rows)"

subsection \<open>Autonomous retraining\<close>

record retrain_policy =
  rp_auto_enabled :: bool
  rp_cooldown_hours :: int
  rp_threshold :: nat

datatype retrain_error = LockUnavailable | PipelineRaised | ReloadRaised

text \<open>
  The pipeline is \<open>None\<close> when it raises, otherwise whether it promoted, with the registry it left.  The
  two booleans say whether the lifecycle lock looks active at the first test and whether it is
  acquired later.
\<close>

definition cooldown_active :: "retrain_policy \<Rightarrow> time \<Rightarrow> registry \<Rightarrow> bool" where
  "cooldown_active pol t reg =
     (case rg_last_promoted_at reg of None \<Rightarrow> False | Some p \<Rightarrow> t - p < hours (rp_cooldown_hours pol))"

definition train_and_mark ::
  "artifact_tools \<Rightarrow> string \<Rightarrow> time \<Rightarrow> (bool \<times> files \<times> registry) option \<Rightarrow> bool \<Rightarrow> dataset \<Rightarrow> serving \<times> scan list \<Rightarrow>
   (retrain_error + bool) \<times> serving \<times> scan list" where
  \<comment> \<open>the part under the lock\<close>
  "train_and_mark tk env t pipeline services ds st =
     (case st of (s, rows) \<Rightarrow>
       let backup = get_registry (sv_registry s)
       in case pipeline of
            None \<Rightarrow> (Inl PipelineRaised, s, snd (reset_samples_from_evaluation (ds_sample_ids ds) rows))
          | Some (promoted, fs, reg) \<Rightarrow>
              let rows' = snd (mark_samples_outcome t (ds_sample_ids ds) promoted (ds_provenance ds) rows)
              in if promoted then
                   (if services then
                      (case coordinate_model_reload tk env fs (Some backup) (s\<lparr>sv_registry := Some reg\<rparr>) of
                         (Inl _, s') \<Rightarrow> (Inl ReloadRaised, s', rows') | (Inr _, s') \<Rightarrow> (Inr True, s', rows'))
                    else (Inr True, s\<lparr>sv_registry := Some reg\<rparr>, rows'))
                 else (Inr False, s, rows'))"

definition check_and_trigger_autonomous_retraining ::
  "artifact_tools \<Rightarrow> string \<Rightarrow> time \<Rightarrow> retrain_policy \<Rightarrow> string list \<Rightarrow> bool \<Rightarrow> bool \<Rightarrow>
   (dataset \<Rightarrow> (bool \<times> files \<times> registry) option) \<Rightarrow> bool \<Rightarrow> serving \<times> scan list \<Rightarrow>
   (retrain_error + bool) \<times> serving \<times> scan list" where
  "check_and_trigger_autonomous_retraining tk env t pol schema lock_active acquired pipeline services st =
     (case st of (s, rows) \<Rightarrow>
       if \<not> rp_auto_enabled pol \<or> lock_active \<or> cooldown_active pol t (get_registry (sv_registry s)) then (Inr False, s, rows)
       else if length (filter eligible_sample rows) < rp_threshold pol then (Inr False, s, rows)
       else case build_zero_day_dataset t schema (rp_threshold pol * 2) rows of
         (ds, rows1) \<Rightarrow>
           if length (ds_labels ds) < rp_threshold pol
           then (Inr False, s, snd (reset_samples_from_evaluation (ds_sample_ids ds) rows1))
           else if \<not> acquired then (Inl LockUnavailable, s, rows1)
           else train_and_mark tk env t (pipeline ds) services ds (s, rows1))"

datatype learning_op =
    LScan time classifier "(string \<times> rat) option" "threat option" string "threat option"
      \<comment> \<open>a scan, and the answer of the intelligence when its background task asks again\<close>
  | LTrigger time retrain_policy bool bool "dataset \<Rightarrow> (bool \<times> files \<times> registry) option" bool
  | LRetrain time nat "dataset \<Rightarrow> (bool \<times> files \<times> registry) option" \<comment> \<open>\<open>/mlops/retrain\<close>, lock held\<close>

fun exec_learning :: "artifact_tools \<Rightarrow> string \<Rightarrow> string list \<Rightarrow> learning_op \<Rightarrow> serving \<times> scan list \<Rightarrow> serving \<times> scan list" where
  "exec_learning tk env schema (LScan t m cached hit url again) (s, rows) =
     (case scan_url t m cached hit url rows of
        (_, rows', None) \<Rightarrow> (s, rows')
      | (_, rows', Some i) \<Rightarrow> (s, snd (process_and_verify_zero_day_sample schema i url again rows')))"
| "exec_learning tk env schema (LTrigger t pol active acquired pipeline services) st =
     snd (check_and_trigger_autonomous_retraining tk env t pol schema active acquired pipeline services st)"
| "exec_learning tk env schema (LRetrain t limit pipeline) (s, rows) =
     (case build_zero_day_dataset t schema limit rows of
        (ds, rows1) \<Rightarrow> snd (train_and_mark tk env t (pipeline ds) True ds (s, rows1)))"

subsection \<open>Lemmas on the prediction\<close>

definition crosses :: "string list \<Rightarrow> (string \<rightharpoonup> rat) \<Rightarrow> (string \<Rightarrow> rat) \<Rightarrow> string \<Rightarrow> bool" where
  "crosses classes thresholds proba c =
     (c \<in> set classes \<and> proba c > 0 \<and> proba c \<ge> (case thresholds c of None \<Rightarrow> 1 / 2 | Some t \<Rightarrow> t))"

definition cascade_inv :: "string list \<Rightarrow> (string \<rightharpoonup> rat) \<Rightarrow> (string \<Rightarrow> rat) \<Rightarrow> string set \<Rightarrow> string option \<times> rat \<Rightarrow> bool" where
  "cascade_inv classes thr proba seen acc =
     (case acc of
        (None, v) \<Rightarrow> v = 0 \<and> (\<forall>d\<in>seen. \<not> crosses classes thr proba d)
      | (Some c, v) \<Rightarrow> c \<in> seen \<and> v = proba c \<and> crosses classes thr proba c \<and>
          (\<forall>d\<in>seen. crosses classes thr proba d \<longrightarrow> proba d \<le> v))"

lemma cascade_step_inv:
  "cascade_inv classes thr proba seen acc \<Longrightarrow>
   cascade_inv classes thr proba (insert c seen) (cascade_step classes thr proba c acc)"
  by (cases acc; cases "fst acc")
    (auto simp: cascade_inv_def cascade_step_def crosses_def Let_def split: option.splits if_splits)

lemma cascade_fold_inv:
  "cascade_inv classes thr proba seen acc \<Longrightarrow>
   cascade_inv classes thr proba (seen \<union> set cs) (fold (cascade_step classes thr proba) cs acc)"
proof (induction cs arbitrary: seen acc)
  case (Cons c cs)
  from Cons.IH [OF cascade_step_inv [OF Cons.prems]] show ?case by simp
qed simp

lemma argmax_max: "c \<in> set cs \<Longrightarrow> proba c \<le> proba (argmax proba cs)"
  by (induction proba cs rule: argmax.induct) (auto simp: Let_def)

lemma argmax_in: "cs \<noteq> [] \<Longrightarrow> argmax proba cs \<in> set cs"
  by (induction proba cs rule: argmax.induct) (auto simp: Let_def)

subsection \<open>Lemmas on the rows\<close>

definition row_ok :: "scan \<Rightarrow> bool" where
  "row_ok r =
     (sc_retrain_attempt_count r \<le> 1 \<and> sc_retrain_status r \<noteq> ''QUARANTINED'' \<and>
      (sc_retrain_status r \<in> set [''UNVERIFIED'', ''VERIFIED''] \<longrightarrow> sc_retrain_attempt_count r = 0))"

definition scans_ok :: "scan list \<Rightarrow> bool" where
  "scans_ok rows = (unique_by sc_id rows \<and> list_all row_ok rows)"

lemma fetched_eligible: "r \<in> set (fetch_verified_zero_day_samples limit rows) \<Longrightarrow> r \<in> set rows \<and> eligible_sample r"
  by (auto simp: fetch_verified_zero_day_samples_def dest: in_set_takeD)

lemma fetched_id:
  assumes "unique_by sc_id rows" "r \<in> set rows" "sc_id r \<in> sc_id ` set (fetch_verified_zero_day_samples limit rows)"
  shows "r \<in> set (fetch_verified_zero_day_samples limit rows) \<and> eligible_sample r"
proof -
  obtain x where x: "x \<in> set (fetch_verified_zero_day_samples limit rows)" "sc_id r = sc_id x" using assms(3) by auto
  with fetched_eligible unique_by_eq [OF assms(1,2)] show ?thesis by metis
qed

lemma evaluated_sample_id [simp]: "sc_id (evaluated_sample t schema r) = sc_id r"
  by (simp add: evaluated_sample_def)

lemma reset_sample_id [simp]: "sc_id (reset_sample r) = sc_id r"
  by (simp add: reset_sample_def)

lemma outcome_sample_id [simp]: "sc_id (outcome_sample t pr prov r) = sc_id r"
  by (simp add: outcome_sample_def Let_def split: option.splits)

lemma verified_as_id [simp]: "sc_id (verified_as l p r) = sc_id r"
  by (simp add: verified_as_def)

lemma scans_ok_upd:
  assumes "scans_ok rows" "\<And>r. sc_id (f r) = sc_id r" "\<And>r. r \<in> set rows \<Longrightarrow> p r \<Longrightarrow> row_ok r \<Longrightarrow> row_ok (f r)"
  shows "scans_ok (upd_rows p f rows)"
  using assms unique_by_upd [of sc_id rows p f] unfolding scans_ok_def list_all_iff
  by (metis in_upd_rows)

lemma row_ok_evaluated: "row_ok r \<Longrightarrow> eligible_sample r \<Longrightarrow> row_ok (evaluated_sample t schema r)"
  by (auto simp: row_ok_def eligible_sample_def evaluated_sample_def)

lemma row_ok_reset: "row_ok r \<Longrightarrow> row_ok (reset_sample r)"
  by (auto simp: row_ok_def reset_sample_def)

lemma row_ok_outcome: "row_ok r \<Longrightarrow> row_ok (outcome_sample t pr prov r)"
  by (auto simp: row_ok_def outcome_sample_def Let_def MAX_RETRAIN_ATTEMPTS_def split: option.splits)

lemma build_rows: "snd (build_zero_day_dataset t schema limit rows) =
  upd_rows (\<lambda>r. sc_id r \<in> sc_id ` set (fetch_verified_zero_day_samples limit rows)) (evaluated_sample t schema) rows"
  by (simp add: build_zero_day_dataset_def Let_def)

lemma build_ids: "ds_sample_ids (fst (build_zero_day_dataset t schema limit rows)) =
  map sc_id (filter (usable_sample schema) (fetch_verified_zero_day_samples limit rows))"
  by (simp add: build_zero_day_dataset_def Let_def)

lemma build_ok: "scans_ok rows \<Longrightarrow> scans_ok (snd (build_zero_day_dataset t schema limit rows))"
  unfolding build_rows
  by (intro scans_ok_upd) (auto simp: scans_ok_def dest: fetched_id intro: row_ok_evaluated)

lemma reset_ok: "scans_ok rows \<Longrightarrow> scans_ok (snd (reset_samples_from_evaluation ids rows))"
  by (simp add: reset_samples_from_evaluation_def scans_ok_upd row_ok_reset)

lemma mark_ok: "scans_ok rows \<Longrightarrow> scans_ok (snd (mark_samples_outcome t ids pr prov rows))"
  by (simp add: mark_samples_outcome_def scans_ok_upd row_ok_outcome)

lemma train_and_mark_rows:
  "snd (snd (train_and_mark tk env t out services ds (s, rows))) \<in>
     {snd (reset_samples_from_evaluation (ds_sample_ids ds) rows)} \<union>
     range (\<lambda>pr. snd (mark_samples_outcome t (ds_sample_ids ds) pr (ds_provenance ds) rows))"
proof (cases out)
  case (Some x)
  obtain pr fs reg where x: "x = (pr, fs, reg)" by (cases x)
  have "snd (snd (train_and_mark tk env t out services ds (s, rows))) =
    snd (mark_samples_outcome t (ds_sample_ids ds) pr (ds_provenance ds) rows)"
    by (simp add: train_and_mark_def Let_def Some x split: prod.splits sum.splits)
  then show ?thesis by blast
qed (simp add: train_and_mark_def Let_def)

lemma trigger_rows:
  fixes schema rows t pol
  defines "b \<equiv> build_zero_day_dataset t schema (rp_threshold pol * 2) rows"
  shows "snd (snd (check_and_trigger_autonomous_retraining tk env t pol schema active acquired pipeline services (s, rows))) \<in>
     {rows, snd b, snd (reset_samples_from_evaluation (ds_sample_ids (fst b)) (snd b))} \<union>
     range (\<lambda>pr. snd (mark_samples_outcome t (ds_sample_ids (fst b)) pr (ds_provenance (fst b)) (snd b)))"
  using train_and_mark_rows [of tk env t "pipeline (fst b)" services "fst b" s "snd b"]
  by (auto simp: check_and_trigger_autonomous_retraining_def Let_def b_def split_beta)

lemma fresh_id: "Suc (foldr max (map sc_id rows) 0) \<notin> sc_id ` set rows"
proof -
  have "x \<in> set rows \<Longrightarrow> sc_id x \<le> foldr max (map sc_id rows) 0" for x
    by (induction rows) auto
  then show ?thesis by fastforce
qed

lemma scan_url_rows:
  "(\<exists>res. scan_url t m cached hit url rows = (res, rows, None)) \<or>
   (\<exists>res n w. scan_url t m cached hit url rows = (res, rows @ [n], w) \<and> sc_id n \<notin> sc_id ` set rows \<and>
      sc_retrain_status n = ''UNVERIFIED'' \<and> sc_retrain_attempt_count n = 0 \<and> w \<in> {None, Some (sc_id n)})"
  using fresh_id [of rows]
  by (auto simp: scan_url_def Let_def new_scan_def split: option.splits prod.splits)

lemma process_rows:
  "snd (process_and_verify_zero_day_sample schema i url hit rows) \<in>
     insert rows ((\<lambda>f. upd_rows (\<lambda>r. sc_id r = i) f rows) `
       (range (\<lambda>(l, p). verified_as l p) \<union> (\<lambda>st. sc_retrain_status_update (\<lambda>_. st)) ` set [''INVALID'', ''DUPLICATE'', ''AMBIGUOUS'']))"
  unfolding process_and_verify_zero_day_sample_def set_status_def by (auto split: option.splits)

lemma process_ok:
  assumes "scans_ok rows" "\<And>r. r \<in> set rows \<Longrightarrow> sc_id r = i \<Longrightarrow> sc_retrain_attempt_count r = 0"
  shows "scans_ok (snd (process_and_verify_zero_day_sample schema i url hit rows))"
proof -
  have ok: "scans_ok (upd_rows (\<lambda>r. sc_id r = i) f rows)"
    if "f \<in> range (\<lambda>(l, p). verified_as l p) \<union> (\<lambda>st. sc_retrain_status_update (\<lambda>_. st)) ` set [''INVALID'', ''DUPLICATE'', ''AMBIGUOUS'']" for f
    using assms that by (intro scans_ok_upd) (auto simp: row_ok_def verified_as_def)
  show ?thesis
    using process_rows [of schema i url hit rows]
    by (elim insertE imageE; simp only:) (intro assms(1), rule ok)
qed

lemma process_keeps:
  "x \<in> set rows \<Longrightarrow> sc_id x \<noteq> i \<Longrightarrow> x \<in> set (snd (process_and_verify_zero_day_sample schema i url hit rows))"
  using process_rows [of schema i url hit rows] by (auto simp: in_upd_rows)

lemma scan_op_ok:
  assumes "scans_ok rows"
  shows "scans_ok (snd (exec_learning tk env schema (LScan t m cached hit url again) (s, rows)))"
  using scan_url_rows [of t m cached hit url rows]
proof (elim disjE exE conjE)
  fix res n w
  assume sc: "scan_url t m cached hit url rows = (res, rows @ [n], w)" and n: "sc_id n \<notin> sc_id ` set rows"
    "sc_retrain_status n = ''UNVERIFIED''" "sc_retrain_attempt_count n = 0" and w: "w \<in> {None, Some (sc_id n)}"
  have ok: "scans_ok (rows @ [n])" using assms n by (auto simp: scans_ok_def row_ok_def intro: unique_by_snoc)
  have fresh: "sc_retrain_attempt_count r = 0" if "r \<in> set (rows @ [n])" "sc_id r = sc_id n" for r
  proof -
    have "r \<notin> set rows" using n(1) that(2) by (metis imageI)
    then show ?thesis using that(1) n(3) by simp
  qed
  have "scans_ok (snd (process_and_verify_zero_day_sample schema (sc_id n) url again (rows @ [n])))"
    by (rule process_ok [OF ok fresh])
  then show ?thesis using w ok by (auto simp: sc)
qed (use assms in simp)

lemma trigger_ok:
  assumes "scans_ok rows"
  shows "scans_ok (snd (snd (check_and_trigger_autonomous_retraining tk env t pol schema active acquired pipeline services (s, rows))))"
  using trigger_rows [of tk env t pol schema active acquired pipeline services s rows]
  by (elim UnE insertE rangeE emptyE; simp only:) (intro assms build_ok reset_ok mark_ok)+

lemma exec_learning_ok: "scans_ok (snd st) \<Longrightarrow> scans_ok (snd (exec_learning tk env schema op st))"
proof (cases op)
  case (LScan t m cached hit url again)
  assume "scans_ok (snd st)"
  then show ?thesis using scan_op_ok LScan by (cases st) (simp only: snd_conv)
next
  case (LTrigger t pol active acquired pipeline services)
  assume "scans_ok (snd st)"
  then show ?thesis using trigger_ok LTrigger by (cases st) simp
next
  case (LRetrain t limit pipeline)
  assume ok: "scans_ok (snd st)"
  obtain s rows where st: "st = (s, rows)" by (cases st)
  let ?b = "build_zero_day_dataset t schema limit rows"
  have "scans_ok (snd ?b)" using ok st build_ok by simp
  then have "scans_ok (snd (snd (train_and_mark tk env t (pipeline (fst ?b)) True (fst ?b) (s, snd ?b))))"
    using train_and_mark_rows [of tk env t "pipeline (fst ?b)" True "fst ?b" s "snd ?b"] reset_ok mark_ok by auto
  then show ?thesis by (simp add: LRetrain st split_beta)
qed

lemma learning_run_ok: "scans_ok (snd st) \<Longrightarrow> scans_ok (snd (fold (exec_learning tk env schema) ops st))"
proof (induction ops arbitrary: st)
  case (Cons op ops)
  from Cons.IH [OF exec_learning_ok [OF Cons.prems]] show ?case by simp
qed simp

subsection \<open>Rows at rest\<close>

lemma build_keeps:
  assumes "scans_ok rows" "r \<in> set rows" "sc_retrain_status r \<noteq> ''VERIFIED''"
  shows "r \<in> set (snd (build_zero_day_dataset t schema limit rows)) \<and>
    sc_id r \<notin> set (ds_sample_ids (fst (build_zero_day_dataset t schema limit rows)))"
proof -
  have "sc_id r \<notin> sc_id ` set (fetch_verified_zero_day_samples limit rows)"
    using fetched_id assms by (fastforce simp: scans_ok_def eligible_sample_def)
  then show ?thesis using assms(2) unfolding build_rows build_ids by (auto intro: upd_rows_keep)
qed

lemma marks_keep:
  assumes "r \<in> set rows" "sc_id r \<notin> set ids"
  shows "r \<in> set (snd (reset_samples_from_evaluation ids rows))" "r \<in> set (snd (mark_samples_outcome t ids pr prov rows))"
  using assms by (simp_all add: reset_samples_from_evaluation_def mark_samples_outcome_def upd_rows_keep)

lemma exec_learning_keeps:
  assumes "scans_ok (snd st)" "r \<in> set (snd st)" "sc_retrain_status r \<noteq> ''VERIFIED''"
  shows "r \<in> set (snd (exec_learning tk env schema op st))"
proof -
  obtain s rows where st: "st = (s, rows)" by (cases st)
  show ?thesis
  proof (cases op)
    case (LScan t m cached hit url again)
    show ?thesis
      using scan_url_rows [of t m cached hit url rows]
    proof (elim disjE exE conjE)
      fix res n w
      assume sc: "scan_url t m cached hit url rows = (res, rows @ [n], w)" and n: "sc_id n \<notin> sc_id ` set rows"
        and w: "w \<in> {None, Some (sc_id n)}"
      have "sc_id r \<in> sc_id ` set rows" using assms(2) st by (intro imageI) simp
      then have "sc_id r \<noteq> sc_id n" using n by metis
      then have "r \<in> set (snd (process_and_verify_zero_day_sample schema (sc_id n) url again (rows @ [n])))"
        using assms(2) st by (intro process_keeps) simp_all
      then show ?thesis using w assms(2) by (auto simp: LScan st sc)
    qed (use assms(2) in \<open>simp add: LScan st\<close>)
  next
    case (LTrigger t pol active acquired pipeline services)
    show ?thesis
      using trigger_rows [of tk env t pol schema active acquired pipeline services s rows]
        build_keeps [OF assms(1-3) [unfolded st snd_conv]] marks_keep assms(2)
      unfolding LTrigger st by fastforce
  next
    case (LRetrain t limit pipeline)
    let ?b = "build_zero_day_dataset t schema limit rows"
    show ?thesis
      using train_and_mark_rows [of tk env t "pipeline (fst ?b)" True "fst ?b" s "snd ?b"]
        build_keeps [OF assms(1-3) [unfolded st snd_conv]] marks_keep
      unfolding LRetrain st by (fastforce simp: split_beta)
  qed
qed

lemma learning_run_keeps:
  "scans_ok (snd st) \<Longrightarrow> r \<in> set (snd st) \<Longrightarrow> sc_retrain_status r \<noteq> ''VERIFIED'' \<Longrightarrow>
   r \<in> set (snd (fold (exec_learning tk env schema) ops st))"
proof (induction ops arbitrary: st)
  case (Cons op ops)
  from Cons.IH [OF exec_learning_ok [OF Cons.prems(1)] exec_learning_keeps [OF Cons.prems]] Cons.prems(3)
  show ?case by simp
qed simp

subsection \<open>Labels\<close>

fun stable_op :: "learning_op \<Rightarrow> bool" where
  \<comment> \<open>the threat intelligence gives the same answer twice\<close>
  "stable_op (LScan t m cached hit url again) = (again = hit)"
| "stable_op op = True"

definition label_ok :: "scan \<Rightarrow> bool" where
  "label_ok r = (sc_verified_label r \<in> {None, Some ''legitimate''})"

lemma label_ok_upd:
  "list_all label_ok rows \<Longrightarrow> (\<And>r. label_ok r \<Longrightarrow> label_ok (f r)) \<Longrightarrow> list_all label_ok (upd_rows p f rows)"
  unfolding list_all_iff by (metis in_upd_rows)

lemma label_ok_steps:
  "label_ok r \<Longrightarrow> label_ok (evaluated_sample t schema r)" "label_ok r \<Longrightarrow> label_ok (reset_sample r)"
  "label_ok r \<Longrightarrow> label_ok (sc_retrain_status_update g r)"
  by (simp_all add: label_ok_def evaluated_sample_def reset_sample_def)

lemma label_ok_outcome:
  "label_ok r \<Longrightarrow> (\<And>i l p. prov i = Some (l, p) \<Longrightarrow> l = ''legitimate'') \<Longrightarrow> label_ok (outcome_sample t pr prov r)"
  by (auto simp: label_ok_def outcome_sample_def Let_def split: option.splits)

lemma build_labels:
  "set (ds_labels (fst (build_zero_day_dataset t schema limit rows))) =
     (\<lambda>r. the (sc_verified_label r)) ` set (filter (usable_sample schema) (fetch_verified_zero_day_samples limit rows))"
  by (simp add: build_zero_day_dataset_def Let_def)

lemma build_provenance:
  assumes "ds_provenance (fst (build_zero_day_dataset t schema limit rows)) i = Some (l, p)"
  shows "\<exists>r\<in>set rows. sc_id r = i \<and> eligible_sample r \<and> usable_sample schema r \<and> sc_verified_label r = Some l"
proof -
  let ?u = "filter (usable_sample schema) (fetch_verified_zero_day_samples limit rows)"
  have "(i, l, p) \<in> set (map (\<lambda>r. (sc_id r, the (sc_verified_label r),
    case sc_label_provenance r of None \<Rightarrow> ''unknown'' | Some p \<Rightarrow> if p = [] then ''unknown'' else p)) (rev ?u))"
    using assms unfolding build_zero_day_dataset_def Let_def by (intro map_of_SomeD) simp
  then obtain r where r: "r \<in> set ?u" "sc_id r = i" "the (sc_verified_label r) = l" by auto
  then have "usable_sample schema r" "r \<in> set rows" "eligible_sample r" using fetched_eligible by auto
  moreover from this(1) have "sc_verified_label r \<noteq> None" by (cases "sc_verified_label r") (simp_all add: usable_sample_def)
  ultimately show ?thesis using r by auto
qed

lemma build_label_ok:
  assumes "list_all label_ok rows"
  shows "list_all label_ok (snd (build_zero_day_dataset t schema limit rows))"
    "ds_provenance (fst (build_zero_day_dataset t schema limit rows)) i = Some (l, p) \<Longrightarrow> l = ''legitimate''"
proof -
  show "list_all label_ok (snd (build_zero_day_dataset t schema limit rows))"
    unfolding build_rows by (intro label_ok_upd assms label_ok_steps(1))
  assume "ds_provenance (fst (build_zero_day_dataset t schema limit rows)) i = Some (l, p)"
  from build_provenance [OF this] obtain r where "r \<in> set rows" "sc_verified_label r = Some l" by blast
  with assms show "l = ''legitimate''" by (auto simp: list_all_iff label_ok_def)
qed

lemma reset_label_ok: "list_all label_ok rows \<Longrightarrow> list_all label_ok (snd (reset_samples_from_evaluation ids rows))"
  by (simp add: reset_samples_from_evaluation_def label_ok_upd label_ok_steps)

lemma mark_label_ok:
  "list_all label_ok rows \<Longrightarrow> (\<And>i l p. prov i = Some (l, p) \<Longrightarrow> l = ''legitimate'') \<Longrightarrow>
   list_all label_ok (snd (mark_samples_outcome t ids pr prov rows))"
  by (simp add: mark_samples_outcome_def label_ok_upd label_ok_outcome)

lemma verify_None_label: "verify_sample_label None url = Some (l, p) \<Longrightarrow> l = ''legitimate''"
  by (simp add: verify_sample_label_def split: if_splits)

lemma process_label_ok:
  assumes "list_all label_ok rows"
  shows "list_all label_ok (snd (process_and_verify_zero_day_sample schema i url None rows))"
proof -
  have v: "label_ok (verified_as l p r)" if "verify_sample_label None url = Some (l, p)" for l p r
    using verify_None_label [OF that] by (simp add: label_ok_def verified_as_def)
  show ?thesis
    using assms v
    by (auto simp: process_and_verify_zero_day_sample_def set_status_def intro!: label_ok_upd label_ok_steps split: option.splits)
qed

lemma scan_url_hit: "scan_url t m cached hit url rows = (res, rows', Some i) \<Longrightarrow> hit = None"
  by (auto simp: scan_url_def Let_def split: option.splits if_splits prod.splits)

lemma scan_url_labels:
  "scan_url t m cached hit url rows = (res, rows', w) \<Longrightarrow> list_all label_ok rows \<Longrightarrow> list_all label_ok rows'"
  by (auto simp: scan_url_def Let_def new_scan_def label_ok_def split: option.splits if_splits prod.splits)

lemma train_label_ok:
  fixes schema rows t limit
  defines "b \<equiv> build_zero_day_dataset t schema limit rows"
  assumes "list_all label_ok rows"
  shows "list_all label_ok (snd (snd (train_and_mark tk env t out services (fst b) (s, snd b))))"
proof -
  note bl = build_label_ok [OF assms(2), of t schema limit, folded b_def]
  show ?thesis
    using train_and_mark_rows [of tk env t out services "fst b" s "snd b"]
    by (elim UnE insertE rangeE emptyE; simp only:) (intro reset_label_ok mark_label_ok bl; assumption?)+
qed

lemma exec_label_ok:
  assumes "list_all label_ok (snd st)" "stable_op op"
  shows "list_all label_ok (snd (exec_learning tk env schema op st))"
proof -
  obtain s rows where st: "st = (s, rows)" by (cases st)
  show ?thesis
  proof (cases op)
    case (LScan t m cached hit url again)
    obtain res rows' w where sc: "scan_url t m cached hit url rows = (res, rows', w)" by (cases "scan_url t m cached hit url rows")
    have ok: "list_all label_ok rows'" using scan_url_labels [OF sc] assms(1) st by simp
    show ?thesis
    proof (cases w)
      case (Some i)
      then have "again = None" using scan_url_hit sc assms(2) LScan by auto
      then show ?thesis using process_label_ok [OF ok] by (simp add: LScan st sc Some)
    qed (simp add: LScan st sc ok)
  next
    case (LTrigger t pol active acquired pipeline services)
    note bl = build_label_ok [OF assms(1) [unfolded st snd_conv]]
    show ?thesis
      using trigger_rows [of tk env t pol schema active acquired pipeline services s rows] unfolding LTrigger st exec_learning.simps
      by (elim UnE insertE rangeE emptyE; simp only:)
        (intro reset_label_ok mark_label_ok bl assms(1) [unfolded st snd_conv]; assumption?)+
  next
    case (LRetrain t limit pipeline)
    then show ?thesis using train_label_ok assms(1) by (simp add: st split_beta)
  qed
qed

lemma run_label_ok:
  "list_all label_ok (snd st) \<Longrightarrow> list_all stable_op ops \<Longrightarrow>
   list_all label_ok (snd (fold (exec_learning tk env schema) ops st))"
proof (induction ops arbitrary: st)
  case (Cons op ops)
  have "stable_op op" "list_all stable_op ops" using Cons.prems(2) by simp_all
  from Cons.IH [OF exec_label_ok [OF Cons.prems(1) this(1)] this(2)] show ?case by simp
qed simp

subsection \<open>Theorems\<close>

text \<open>
  The prediction is a malicious class only by its own threshold as long as one crosses: if some
  malicious class reaches its threshold, the answer is such a class with its own probability, and
  none of the classes over their thresholds is more probable; otherwise it is the most probable of
  all classes.
\<close>

theorem predict_cascade:
  "case predict classes thresholds proba of (c, conf) \<Rightarrow>
     conf = proba c \<and>
     (if list_ex (crosses classes thresholds proba) malicious_order
      then c \<in> set malicious_order \<and> crosses classes thresholds proba c \<and>
        list_all (\<lambda>d. crosses classes thresholds proba d \<longrightarrow> proba d \<le> conf) malicious_order
      else list_all (\<lambda>d. proba d \<le> conf) classes)"
proof -
  let ?acc = "fold (cascade_step classes thresholds proba) malicious_order (None, 0)"
  have inv: "cascade_inv classes thresholds proba (set malicious_order) ?acc"
    using cascade_fold_inv [of classes thresholds proba "{}" "(None, 0)" malicious_order] by (simp add: cascade_inv_def)
  show ?thesis
  proof (cases ?acc)
    case (Pair w v)
    show ?thesis
    proof (cases w)
      case None
      then show ?thesis using inv argmax_max [of _ classes proba]
        by (auto simp: predict_def Pair cascade_inv_def list_ex_iff list_all_iff)
    next
      case (Some c)
      then show ?thesis using inv by (auto simp: predict_def Pair cascade_inv_def list_ex_iff list_all_iff)
    qed
  qed
qed

lemma predict_cascade_witness:
  "(case predict [''legitimate'', ''malware'', ''phishing''] Map.empty
      (\<lambda>c. if c = ''phishing'' then 6 / 10 else 2 / 10) of (c, conf) \<Rightarrow> c = ''phishing'' \<and> conf = 6 / 10)"
proof -
  let ?p = "\<lambda>c. if c = ''phishing'' then 6 / 10 else 2 / 10 :: rat"
  have "fst (predict [''legitimate'', ''malware'', ''phishing''] Map.empty ?p) = ''phishing''" by code_simp
  then show ?thesis
    using predict_cascade [where classes = "[''legitimate'', ''malware'', ''phishing'']" and thresholds = Map.empty
        and proba = ?p] by (auto split: prod.splits)
qed

text \<open>
  The comment promises to fall back to legitimate when no malicious class reaches its threshold;
  the code takes the most probable class of all, so a threshold above it has no effect: with a
  threshold of 0.9 a phishing probability of 0.6 is still answered with phishing.
\<close>

theorem fallback_ignores_thresholds:
  "predict [''legitimate'', ''phishing''] [''phishing'' \<mapsto> 9 / 10] (\<lambda>c. if c = ''phishing'' then 6 / 10 else 4 / 10) =
     (''phishing'', 6 / 10)"
  by code_simp

text \<open>
  C24: a verified label never comes from the model or from a heuristic: it is the verdict of PhishTank
  or VirusTotal, or it is legitimate for a host on the list of trusted domains that no layer of the
  threat intelligence reports.
\<close>

theorem labels_are_authoritative:
  assumes "check_url cfg t answer vt url f = (hit, f')" "verify_sample_label hit url = Some (label, prov)"
  shows "if hit = None then label = ''legitimate'' \<and> prov = ''trusted_allowlist'' \<and> is_trusted_allowlist_domain url
    else prov \<in> {''phishtank_detection'', ''virustotal_detection''} \<and> label \<in> {''phishing'', ''malware''} \<and>
      heuristic_check url = None \<and> url \<notin> set LOCAL_BLACKLIST"
proof (cases hit)
  case None
  then show ?thesis using assms(2) by (simp add: verify_sample_label_def split: if_splits)
next
  case (Some th)
  have a: "th_source th \<in> set AUTHORITATIVE_THREAT_SOURCES" "label = th_prediction th" "prov = th_source th @ ''_detection''"
    using assms(2) by (simp_all add: Some verify_sample_label_def split: if_splits)
  have "check_url cfg t answer vt url f = (Some th, f')" using assms(1) Some by simp
  then show ?thesis
  proof (cases rule: check_url_cases)
    case 1
    then show ?thesis using a by (simp add: AUTHORITATIVE_THREAT_SOURCES_def)
  next
    case 2
    from heuristic_phishing(1) [OF this(2)] show ?thesis
      using a(1) by (auto simp: heuristic_threat_def AUTHORITATIVE_THREAT_SOURCES_def)
  next
    case 3
    then show ?thesis using a Some by simp
  next
    case 4
    then obtain m s where "th = vt_threat m s" using check_virustotal_Some by blast
    then show ?thesis using 4 a Some by (simp add: vt_threat_def)
  qed
qed

lemma labels_are_authoritative_witness:
  "\<exists>f' label prov. check_url intel_example 0 None (\<lambda>_. VtStatus 200 (Some (4, 1))) ''http://www.github.com/'' empty_feed =
     (Some (vt_threat 4 1), f') \<and> label \<in> {''phishing'', ''malware''} \<and> prov = ''virustotal_detection''"
proof -
  have c: "check_url intel_example 0 None (\<lambda>_. VtStatus 200 (Some (4, 1))) ''http://www.github.com/'' empty_feed =
    (Some (vt_threat 4 1), empty_feed)"
    by code_simp
  have v: "verify_sample_label (Some (vt_threat 4 1)) ''http://www.github.com/'' = Some (''malware'', ''virustotal_detection'')"
    by code_simp
  from labels_are_authoritative [OF c v] c show ?thesis by auto
qed

text \<open>
  The set of authoritative sources names \<open>local_blacklist\<close>, while the threat intelligence calls this
  layer \<open>blacklist\<close>: a URL of the local blacklist is never given a label.
\<close>

theorem blacklist_never_labels:
  assumes "url \<in> set LOCAL_BLACKLIST"
  shows "verify_sample_label (fst (check_url cfg t answer vt url f)) url = None"
  using assms by (simp add: check_url_def verify_sample_label_def AUTHORITATIVE_THREAT_SOURCES_def)

lemma blacklist_never_labels_witness:
  "verify_sample_label (fst (check_url intel_example 0 None (\<lambda>_. VtException) ''http://secure-login-paypal.com'' empty_feed))
     ''http://secure-login-paypal.com'' = None"
  by (rule blacklist_never_labels) (simp add: LOCAL_BLACKLIST_def)

text \<open>
  C25: only a scan that no layer of the threat intelligence reports becomes a zero-day sample, and its
  label is asked of the same layers: unless an answer changes in between, every label of every
  dataset is legitimate, so that the retraining never sees a malicious zero-day sample.
\<close>

theorem zero_day_data_is_all_legitimate:
  assumes "list_all stable_op ops"
  shows "set (ds_labels (fst (build_zero_day_dataset t schema limit
    (snd (fold (exec_learning tk env schema) ops (s, [])))))) \<subseteq> {''legitimate''}"
proof -
  let ?rows = "snd (fold (exec_learning tk env schema) ops (s, []))"
  have ok: "list_all label_ok ?rows" using run_label_ok [of "(s, [])"] assms by simp
  show ?thesis
  proof
    fix l
    assume "l \<in> set (ds_labels (fst (build_zero_day_dataset t schema limit ?rows)))"
    then obtain r where r: "l = the (sc_verified_label r)" "usable_sample schema r"
      "r \<in> set (fetch_verified_zero_day_samples limit ?rows)"
      unfolding build_labels by auto
    have "label_ok r" using ok fetched_eligible [OF r(3)] by (simp add: list_all_iff)
    then show "l \<in> {''legitimate''}" using r(1,2) by (auto simp: label_ok_def usable_sample_def)
  qed
qed

text \<open>
  Starting from an empty table, whatever is scanned, retrained, aborted or promoted in whatever
  order, no sample is ever quarantined and none is tried twice: a sample of a rejected candidate is
  REJECTED, which the selection never takes again, so the limit of three attempts is never reached.
\<close>

theorem quarantine_never_reached:
  "list_all (\<lambda>r. sc_retrain_status r \<noteq> ''QUARANTINED'' \<and> sc_retrain_attempt_count r \<le> 1)
     (snd (fold (exec_learning tk env schema) ops (s, [])))"
proof -
  have "scans_ok (snd (fold (exec_learning tk env schema) ops (s, [])))"
    by (rule learning_run_ok) (simp add: scans_ok_def unique_by_def)
  then show ?thesis by (auto simp: scans_ok_def list_all_iff row_ok_def)
qed

lemma upd_rows_twice:
  "(\<And>r. q (f r) = q r) \<Longrightarrow> (\<And>r. p r \<longleftrightarrow> q r) \<Longrightarrow> upd_rows q g (upd_rows p f rows) = upd_rows p (g \<circ> f) rows"
  by (induction rows) (simp_all add: row_simps)

definition forget_attempt :: "scan \<Rightarrow> scan" where
  "forget_attempt r = r\<lparr>sc_last_retrain_attempt := None\<rparr>"

lemma reset_undoes_evaluation:
  "eligible_sample r \<Longrightarrow> usable_sample schema r \<Longrightarrow>
   forget_attempt (reset_sample (evaluated_sample t schema r)) = forget_attempt r"
  by (simp add: eligible_sample_def usable_sample_def evaluated_sample_def reset_sample_def forget_attempt_def)

text \<open>
  C26: when a retraining aborts or its pipeline raises, the reset gives back the table as it was before
  the dataset was built, up to the times of the last attempts: no sample is lost and no attempt is
  counted.
\<close>

theorem abort_restores_samples:
  assumes "unique_by sc_id rows" "list_all (usable_sample schema) (filter eligible_sample rows)"
  shows "map forget_attempt (snd (reset_samples_from_evaluation
      (ds_sample_ids (fst (build_zero_day_dataset t schema limit rows))) (snd (build_zero_day_dataset t schema limit rows)))) =
    map forget_attempt rows"
proof -
  let ?s = "fetch_verified_zero_day_samples limit rows"
  let ?p = "\<lambda>r. sc_id r \<in> sc_id ` set ?s"
  have "filter (usable_sample schema) ?s = ?s"
    using assms(2) fetched_eligible by (auto simp: list_all_iff intro: filter_True)
  then have ids: "set (ds_sample_ids (fst (build_zero_day_dataset t schema limit rows))) = sc_id ` set ?s"
    by (simp add: build_ids)
  have "upd_rows ?p reset_sample (upd_rows ?p (evaluated_sample t schema) rows) =
    upd_rows ?p (reset_sample \<circ> evaluated_sample t schema) rows"
    by (rule upd_rows_twice) simp_all
  moreover have "map forget_attempt (upd_rows ?p (reset_sample \<circ> evaluated_sample t schema) rows) = map forget_attempt rows"
    using fetched_id [OF assms(1)] assms(2) reset_undoes_evaluation
    by (auto simp: upd_rows_def list_all_iff)
  ultimately show ?thesis by (simp add: reset_samples_from_evaluation_def ids build_rows)
qed

definition sample_row :: "nat \<Rightarrow> string \<Rightarrow> scan" where
  "sample_row i url =
     verified_as ''legitimate'' ''trusted_allowlist''
       (new_scan 0 i url ''legitimate'' 1 True (Some (FvDict [(''len'', FInt 20)])) ''ml'')"

definition sample_rows :: "scan list" where
  "sample_rows = [sample_row 1 ''http://github.com/a'', sample_row 2 ''http://github.com/b'']"

lemma sample_rows_ok: "scans_ok sample_rows" "unique_by sc_id sample_rows"
  by (simp_all add: scans_ok_def unique_by_def sample_rows_def sample_row_def new_scan_def verified_as_def row_ok_def)

lemma sample_rows_usable: "list_all (usable_sample [''len'']) (filter eligible_sample sample_rows)"
  by (simp add: sample_rows_def sample_row_def new_scan_def verified_as_def usable_sample_def is_valid_feature_vector_def
      truthy_str_def)

lemma abort_restores_samples_witness:
  "map forget_attempt (snd (reset_samples_from_evaluation
      (ds_sample_ids (fst (build_zero_day_dataset 9 [''len''] 5 sample_rows))) (snd (build_zero_day_dataset 9 [''len''] 5 sample_rows)))) =
    map forget_attempt sample_rows"
  by (rule abort_restores_samples [OF sample_rows_ok(2) sample_rows_usable])

text \<open>
  When the lifecycle lock cannot be acquired after the dataset was built, the samples are not
  reset: at least as many as the threshold stay EVALUATED, and no later scan, trigger or retraining
  ever touches them again.
\<close>

theorem lock_failure_strands_samples:
  assumes "scans_ok rows"
    "check_and_trigger_autonomous_retraining tk env t pol schema active acquired pipeline services (s, rows) =
       (Inl LockUnavailable, s', rows')"
  shows "\<exists>ids. rp_threshold pol \<le> length ids \<and> distinct ids \<and>
    list_all (\<lambda>i. list_ex (\<lambda>r. sc_id r = i \<and> eligible_sample r) rows) ids \<and>
    list_all (\<lambda>r. sc_id r \<in> set ids \<longrightarrow> sc_retrain_status r = ''EVALUATED'' \<and>
      r \<in> set (snd (fold (exec_learning tk' env' schema) ops (s'', rows')))) rows'"
proof -
  let ?b = "build_zero_day_dataset t schema (rp_threshold pol * 2) rows"
  let ?s = "fetch_verified_zero_day_samples (rp_threshold pol * 2) rows"
  let ?u = "filter (usable_sample schema) ?s"
  have rows': "rows' = snd ?b" and th: "rp_threshold pol \<le> length (ds_labels (fst ?b))"
    using assms(2)
    by (auto simp: check_and_trigger_autonomous_retraining_def Let_def train_and_mark_def split: if_splits prod.splits
        option.splits sum.splits)
  have len: "length (ds_labels (fst ?b)) = length (map sc_id ?u)" by (simp add: build_zero_day_dataset_def Let_def)
  have u: "unique_by sc_id rows" using assms(1) by (simp add: scans_ok_def)
  have dist: "distinct (map sc_id ?u)"
  proof -
    have "distinct (map sc_id (sort_key (\<lambda>r. - sc_created_at r) (filter eligible_sample rows)))"
      using u unfolding unique_by_def
      by (metis distinct_map distinct_filter distinct_sort inj_on_subset filter_is_subset set_sort)
    then show ?thesis
      unfolding fetch_verified_zero_day_samples_def by (intro distinct_map_filter) (simp add: take_map [symmetric])
  qed
  have el: "list_all (\<lambda>i. list_ex (\<lambda>r. sc_id r = i \<and> eligible_sample r) rows) (map sc_id ?u)"
    using fetched_eligible by (fastforce simp: list_all_iff list_ex_iff)
  have ok': "scans_ok rows'" using build_ok [OF assms(1)] rows' by simp
  have ev: "sc_retrain_status r = ''EVALUATED''" if r: "r \<in> set rows'" "sc_id r \<in> set (map sc_id ?u)" for r
  proof -
    obtain x where x: "x \<in> set rows" "r = (if sc_id x \<in> sc_id ` set ?s then evaluated_sample t schema x else x)"
      using r(1) unfolding rows' build_rows in_upd_rows by blast
    have idx: "sc_id r = sc_id x" using x(2) by (simp split: if_splits)
    from r(2) obtain y where y: "y \<in> set ?u" "sc_id r = sc_id y" by auto
    then have "x = y" using unique_by_eq [OF u x(1)] fetched_eligible idx by auto
    then show ?thesis using y(1) x(2) by (simp add: usable_sample_def evaluated_sample_def)
  qed
  have "list_all (\<lambda>r. sc_id r \<in> set (map sc_id ?u) \<longrightarrow> sc_retrain_status r = ''EVALUATED'' \<and>
      r \<in> set (snd (fold (exec_learning tk' env' schema) ops (s'', rows')))) rows'"
    using ev learning_run_keeps [of "(s'', rows')"] ok' by (fastforce simp: list_all_iff)
  with th len dist el show ?thesis by (intro exI [of _ "map sc_id ?u"]) simp
qed

lemma lock_failure_strands_samples_witness:
  "\<exists>ids. 2 \<le> length ids \<and> distinct ids \<and>
     list_all (\<lambda>i. list_ex (\<lambda>r. sc_id r = i \<and> eligible_sample r) sample_rows) ids"
proof -
  let ?pol = "\<lparr>rp_auto_enabled = True, rp_cooldown_hours = 6, rp_threshold = 2\<rparr>"
  let ?c = "check_and_trigger_autonomous_retraining example_tools ''production'' 0 ?pol [''len''] False False (\<lambda>_. None) True
    (serving_example, sample_rows)"
  have "fst ?c = Inl LockUnavailable" by code_simp
  then have "?c = (Inl LockUnavailable, fst (snd ?c), snd (snd ?c))" by (simp add: prod_eq_iff)
  from lock_failure_strands_samples [OF sample_rows_ok(1) this] show ?thesis
    unfolding retrain_policy.select_convs by blast
qed

lemma zero_day_data_is_all_legitimate_witness:
  "set (ds_labels (fst (build_zero_day_dataset 9 [''len''] 5 (snd (fold (exec_learning example_tools ''production'' [''len''])
     [LScan 1 \<lparr>cl_features = (\<lambda>_. FvDict [(''len'', FInt 20)]), cl_classes = [''legitimate''], cl_thresholds = Map.empty,
        cl_proba = (\<lambda>_ _. 1)\<rparr> None None ''http://github.com/a'' None] (serving_example, [])))))) \<subseteq> {''legitimate''}"
  by (rule zero_day_data_is_all_legitimate) simp

end
