(* ===== verification/Streams.thy ===== *)
theory Streams
  imports Broadcaster PyNet
begin

text \<open>
  The streaming gateway \<open>backend/api/routers/streams.py\<close>: authentication of a stream by header or
  ticket (with \<open>get_current_user\<close> of \<open>api/dependencies.py\<close>), the handlers that open a stream, and the
  generator of its frames.  A round of the generator's loop is one record: the clock at its checks, the
  state of the user's row if it is looked up, the clock when the wait for the queue (a second at
  most) is over, and the item the queue gave, if any.
  Decoding a JWT is a parameter.
\<close>

subsection \<open>Authentication\<close>

datatype stream_http = BadRequest400 | Unauthorized401 | Forbidden403 | ListenerRefused http_error

definition get_current_user :: "(string \<Rightarrow> nat option) \<Rightarrow> string \<Rightarrow> user list \<Rightarrow> stream_http + user" where
  "get_current_user decode token users =
     (if token = [] then Inl Unauthorized401
      else case decode token of
        None \<Rightarrow> Inl Unauthorized401
      | Some i \<Rightarrow>
          (case find (\<lambda>u. usr_id u = i) users of
             None \<Rightarrow> Inl Unauthorized401
           | Some u \<Rightarrow> if usr_is_active u then Inr u else Inl Unauthorized401))"

record stream_request =
  rq_ticket :: "string option"
  rq_token :: "string option"
  rq_authorization :: "string option"

definition ticket_user :: "user list \<Rightarrow> nat option \<Rightarrow> stream_http + user" where
  \<comment> \<open>the owner of a burnt ticket; the id zero counts as none\<close>
  "ticket_user users uid =
     (case uid of
        None \<Rightarrow> Inl Unauthorized401
      | Some i \<Rightarrow>
          if i = 0 then Inl Unauthorized401
          else (case find (\<lambda>u. usr_id u = i) users of
                  None \<Rightarrow> Inl Unauthorized401
                | Some u \<Rightarrow> if usr_is_active u then Inr u else Inl Unauthorized401))"

definition get_stream_user ::
  "ticket_calls \<Rightarrow> env \<Rightarrow> (string \<Rightarrow> nat option) \<Rightarrow> user list \<Rightarrow> stream_request \<Rightarrow> broadcaster \<Rightarrow> redis \<Rightarrow>
   (stream_http + user) \<times> broadcaster \<times> redis" where
  "get_stream_user w e decode users rq b r =
     (if truthy_str (rq_token rq) then (Inl BadRequest400, b, r)
      else case rq_authorization rq of
        Some h \<Rightarrow>
          if starts_with ''Bearer '' h then (get_current_user decode (str_strip (drop 7 h)) users, b, r)
          else if truthy_str (rq_ticket rq)
            then (case validate_and_burn_stream_ticket w e (the (rq_ticket rq)) b r of
                    (uid, b', r') \<Rightarrow> (ticket_user users uid, b', r'))
          else (Inl Unauthorized401, b, r)
      | None \<Rightarrow>
          if truthy_str (rq_ticket rq)
          then (case validate_and_burn_stream_ticket w e (the (rq_ticket rq)) b r of
                  (uid, b', r') \<Rightarrow> (ticket_user users uid, b', r'))
          else (Inl Unauthorized401, b, r))"

definition stream_endpoint ::
  "bool \<Rightarrow> user \<Rightarrow> string \<Rightarrow> string option \<Rightarrow> broadcaster \<Rightarrow> redis \<Rightarrow> (stream_http + nat) \<times> broadcaster \<times> redis" where
  \<comment> \<open>the handlers of the channels alerts, notifications and soc: the queue of the new stream\<close>
  "stream_endpoint up u channel min_sev b r =
     (case register_listener up u channel min_sev False b r of
        (Inl err, b', r') \<Rightarrow> (Inl (ListenerRefused err), b', r') | (Inr q, b', r') \<Rightarrow> (Inr q, b', r'))"

definition stream_admin_soc ::
  "bool \<Rightarrow> env \<Rightarrow> user \<Rightarrow> string option \<Rightarrow> string option \<Rightarrow> store \<Rightarrow> broadcaster \<Rightarrow> redis \<Rightarrow>
   (stream_http + nat) \<times> store \<times> broadcaster \<times> redis" where
  \<comment> \<open>the third argument from the left is the caller, the next two the address and the severity filter\<close>
  "stream_admin_soc up e u ip min_sev s b r =
     (if \<not> is_admin u then (Inl Forbidden403, s, b, r)
      else
        let a = \<lparr>au_id = 0, au_uuid = uuids e 0, au_action = ''ADMIN_SOC_STREAM_CONNECTED'',
                 au_actor_user_id = Some (usr_id u), au_target_resource = ''streams'', au_resource_id = ''admin/soc/stream'',
                 au_details = [(''channel'', JStr ''admin_soc''), (''ip'', json_str ip)], au_ip_address = ip, au_created_at = now e\<rparr>;
            s' = add_audit a s
        in case register_listener up u ''soc'' min_sev True b r of
             (Inl err, b', r') \<Rightarrow> (Inl (ListenerRefused err), s', b', r')
           | (Inr q, b', r') \<Rightarrow> (Inr q, s', b', r'))"

subsection \<open>Frames\<close>

datatype frame =
    Connected string
  | StreamReset
  | EventFrame envelope
  | StreamRefresh
  | AuthRevoked string
  | Ping
  | ShutdownFrame
  | OverflowFrame int

record tick =
  tk_now :: time
  tk_row :: "(bool \<times> string) option" \<comment> \<open>\<open>is_active\<close> and role of the user's row\<close>
  tk_got :: time \<comment> \<open>the end of the wait for the queue\<close>
  tk_item :: "item option"

definition STREAM_MAX_LIFETIME_SECONDS :: int where "STREAM_MAX_LIFETIME_SECONDS = 3600"
definition AUTH_CHECK_SECONDS :: int where "AUTH_CHECK_SECONDS = 45"

definition revoked :: "bool \<Rightarrow> (bool \<times> string) option \<Rightarrow> string option" where
  \<comment> \<open>the reason to end the stream\<close>
  "revoked admin row =
     (case row of
        None \<Rightarrow> Some ''account_deactivated''
      | Some (active, role) \<Rightarrow>
          if \<not> active then Some ''account_deactivated''
          else if admin \<and> role \<noteq> ''admin'' then Some ''admin_role_revoked'' else None)"

definition limit_reached :: "int option \<Rightarrow> int \<Rightarrow> bool" where
  "limit_reached mx n = (case mx of None \<Rightarrow> False | Some m \<Rightarrow> n \<ge> m)"

fun stream_loop :: "bool \<Rightarrow> time \<Rightarrow> time \<Rightarrow> int option \<Rightarrow> int \<Rightarrow> tick list \<Rightarrow> (time \<times> frame) list" where
  \<comment> \<open>the arguments: admin stream, start, last check, limit, events so far, the rounds to come\<close>
  "stream_loop admin start checked mx n [] = []"
| "stream_loop admin start checked mx n (k # ks) =
     (if tk_now k - start \<ge> seconds STREAM_MAX_LIFETIME_SECONDS then [(tk_now k, StreamRefresh)]
      else
        let check = tk_now k - checked > seconds AUTH_CHECK_SECONDS; checked' = (if check then tk_now k else checked)
        in case (if check then revoked admin (tk_row k) else None) of
             Some reason \<Rightarrow> [(tk_now k, AuthRevoked reason)]
           | None \<Rightarrow>
               (case tk_item k of
                  None \<Rightarrow> stream_loop admin start checked' mx n ks
                | Some Heartbeat \<Rightarrow> (tk_got k, Ping) # stream_loop admin start checked' mx n ks
                | Some ServerShutdown \<Rightarrow> [(tk_got k, ShutdownFrame)]
                | Some (StreamOverflow c) \<Rightarrow> [(tk_got k, OverflowFrame c)]
                | Some (Event en) \<Rightarrow>
                    (tk_got k, EventFrame en) #
                      (if limit_reached mx (n + 1) then [] else stream_loop admin start checked' mx (n + 1) ks)))"

fun replay_frames :: "int option \<Rightarrow> int \<Rightarrow> envelope list \<Rightarrow> frame list \<times> int \<times> bool" where
  \<comment> \<open>frames, events so far, and whether the stream goes on\<close>
  "replay_frames mx n [] = ([], n, True)"
| "replay_frames mx n (en # ens) =
     (if limit_reached mx (n + 1) then ([EventFrame en], n + 1, False)
      else case replay_frames mx (n + 1) ens of (fs, n', go) \<Rightarrow> (EventFrame en # fs, n', go))"

definition REPLAY_LIMIT :: nat where "REPLAY_LIMIT = 100"

definition sse_replay :: "nat \<Rightarrow> bool \<Rightarrow> string option \<Rightarrow> int option \<Rightarrow> store \<Rightarrow> frame list \<times> int \<times> bool" where
  \<comment> \<open>a \<open>Last-Event-ID\<close> that is not a number is only logged\<close>
  "sse_replay uid admin last_event_id mx s =
     (case (if truthy_str last_event_id then py_int digit_value 10 (the last_event_id) else None) of
        None \<Rightarrow> ([], 0, True)
      | Some c \<Rightarrow>
          (case get_replay_events uid c REPLAY_LIMIT admin s of
             (_, True) \<Rightarrow> ([StreamReset], 1, \<not> limit_reached mx 1)
           | (ens, False) \<Rightarrow> replay_frames mx 0 ens))"

definition sse_event_stream ::
  "string \<Rightarrow> user \<Rightarrow> bool \<Rightarrow> string option \<Rightarrow> int option \<Rightarrow> string option \<Rightarrow> time \<Rightarrow> store \<Rightarrow> tick list \<Rightarrow> (time \<times> frame) list" where
  \<comment> \<open>pod, user, admin stream, \<open>Last-Event-ID\<close>, \<open>max_events\<close>, \<open>X-Stream-Limit\<close>, start\<close>
  "sse_event_stream pod u admin last_event_id max_events header start s ticks =
     (let mx = (case max_events of Some m \<Rightarrow> Some m
                | None \<Rightarrow> (case header of None \<Rightarrow> None | Some h \<Rightarrow> py_int digit_value 10 h))
      in (start, Connected pod) #
           (if mx = Some 0 then []
            else case sse_replay (usr_id u) admin last_event_id mx s of
              (fs, n, go) \<Rightarrow> map (Pair start) fs @ (if go then stream_loop admin start start mx n ticks else [])))"

subsection \<open>Lemmas\<close>

definition queue_events :: "tick list \<Rightarrow> envelope list" where
  "queue_events ks = List.map_filter (\<lambda>k. case tk_item k of Some (Event en) \<Rightarrow> Some en | _ \<Rightarrow> None) ks"

definition frame_events :: "(time \<times> frame) list \<Rightarrow> envelope list" where
  "frame_events fs = List.map_filter (\<lambda>(t, f). case f of EventFrame en \<Rightarrow> Some en | _ \<Rightarrow> None) fs"

lemma events_simps [simp]:
  "queue_events [] = []" "frame_events [] = []"
  "queue_events (k # ks) = (case tk_item k of Some (Event en) \<Rightarrow> en # queue_events ks | _ \<Rightarrow> queue_events ks)"
  "frame_events ((t, f) # fs) = (case f of EventFrame en \<Rightarrow> en # frame_events fs | _ \<Rightarrow> frame_events fs)"
  by (simp_all add: queue_events_def frame_events_def List.map_filter_simps split: option.splits item.splits frame.splits)

lemma set_map_filter_events:
  "set (List.map_filter (\<lambda>(t, f). case f of EventFrame en \<Rightarrow> Some en | _ \<Rightarrow> None) fs) =
     {en. \<exists>t. (t, EventFrame en) \<in> set fs}"
  by (induction fs) (auto simp: List.map_filter_simps split: frame.splits)

lemma stream_loop_prefix: "\<exists>rest. queue_events ks = frame_events (stream_loop admin start checked mx n ks) @ rest"
proof (induction admin start checked mx n ks rule: stream_loop.induct)
  case (2 admin start checked mx n k ks)
  show ?case
    using 2 by (auto simp: Let_def split: option.splits item.splits if_splits)
qed simp

definition authorized :: "bool \<Rightarrow> tick \<Rightarrow> bool" where
  "authorized admin k = (revoked admin (tk_row k) = None)"

definition recheck :: "time \<Rightarrow> tick \<Rightarrow> time" where
  "recheck checked k = (if tk_now k - checked > seconds AUTH_CHECK_SECONDS then tk_now k else checked)"

lemma stream_event_cases:
  assumes "(t, EventFrame en) \<in> set (stream_loop admin start checked mx n (k # ks))"
  shows "tk_now k < start + seconds STREAM_MAX_LIFETIME_SECONDS"
    "recheck checked k = checked \<and> tk_now k \<le> checked + seconds AUTH_CHECK_SECONDS \<or>
     recheck checked k = tk_now k \<and> authorized admin k"
    "t = tk_got k \<or> (\<exists>n'. (t, EventFrame en) \<in> set (stream_loop admin start (recheck checked k) mx n' ks))"
proof -
  have life: "\<not> tk_now k - start \<ge> seconds STREAM_MAX_LIFETIME_SECONDS"
    using assms by (rule contrapos_pn) simp
  then show "tk_now k < start + seconds STREAM_MAX_LIFETIME_SECONDS" by simp
  have auth: "tk_now k - checked > seconds AUTH_CHECK_SECONDS \<Longrightarrow> authorized admin k"
    using assms life by (cases "revoked admin (tk_row k)") (simp_all add: authorized_def Let_def)
  then show "recheck checked k = checked \<and> tk_now k \<le> checked + seconds AUTH_CHECK_SECONDS \<or>
     recheck checked k = tk_now k \<and> authorized admin k"
    by (auto simp: recheck_def)
  show "t = tk_got k \<or> (\<exists>n'. (t, EventFrame en) \<in> set (stream_loop admin start (recheck checked k) mx n' ks))"
    using assms life auth unfolding authorized_def
    by (cases "tk_now k - checked > seconds AUTH_CHECK_SECONDS")
      (auto simp: Let_def recheck_def split: option.splits item.splits if_splits)
qed

definition prompt_round :: "time \<Rightarrow> tick \<Rightarrow> bool" where
  \<comment> \<open>look-up of the user and wait for the queue together take at most so long\<close>
  "prompt_round d k = (tk_now k \<le> tk_got k \<and> tk_got k \<le> tk_now k + d)"

lemma stream_loop_checked:
  "\<lbrakk>(t, EventFrame en) \<in> set (stream_loop admin start checked mx n ks); list_all (prompt_round d) ks\<rbrakk> \<Longrightarrow>
    t < start + seconds STREAM_MAX_LIFETIME_SECONDS + d \<and>
    (t \<le> checked + seconds AUTH_CHECK_SECONDS + d \<or>
     (\<exists>k\<in>set ks. authorized admin k \<and> t \<le> tk_now k + seconds AUTH_CHECK_SECONDS + d))"
proof (induction ks arbitrary: checked n)
  case (Cons k ks)
  have pos: "0 \<le> seconds AUTH_CHECK_SECONDS" by (simp add: time_defs AUTH_CHECK_SECONDS_def)
  note c = stream_event_cases [OF Cons.prems(1)]
  from c(3) show ?case
  proof
    assume "t = tk_got k"
    then show ?thesis using c(1,2) pos Cons.prems(2) by (auto simp: prompt_round_def)
  next
    assume "\<exists>n'. (t, EventFrame en) \<in> set (stream_loop admin start (recheck checked k) mx n' ks)"
    then show ?thesis using Cons.IH c(2) Cons.prems(2) by fastforce
  qed
qed simp

lemma replay_frames_events:
  "set (fst (replay_frames mx n ens)) \<subseteq> EventFrame ` set ens"
  by (induction mx n ens rule: replay_frames.induct) (auto split: prod.splits)

lemma event_stream_cases:
  assumes "(t, EventFrame en) \<in> set (sse_event_stream pod u admin lid mx h start s ticks)"
  shows "t = start \<or> (\<exists>m n. (t, EventFrame en) \<in> set (stream_loop admin start start m n ticks))"
  using assms by (auto simp: sse_event_stream_def Let_def split: prod.splits if_splits)

lemma queue_events_in: "en \<in> set (queue_events ks) \<Longrightarrow> \<exists>k\<in>set ks. tk_item k = Some (Event en)"
  by (induction ks) (auto split: option.splits item.splits)

lemma frame_events_in: "(t, EventFrame en) \<in> set fs \<Longrightarrow> en \<in> set (frame_events fs)"
  by (induction fs) (auto split: frame.splits)

lemma replay_rows_tenant:
  assumes "get_replay_events tenant c k False s = (ens, rst)" "en \<in> set ens"
  shows "en_tenant_id en = tenant"
proof -
  let ?rows = "filter (\<lambda>v. int (se_cursor_id v) > c) (stream_rows tenant False s)"
  have "ens = map (replay_envelope False) (take k (sort_key se_cursor_id ?rows)) \<or> ens = []"
    using assms(1) by (auto simp: get_replay_events_def Let_def split: if_splits)
  then obtain v where v: "v \<in> set (take k (sort_key se_cursor_id ?rows))" "en = replay_envelope False v"
    using assms(2) by auto
  from in_set_takeD [OF v(1)] have "v \<in> set (stream_rows tenant False s)" by simp
  then show ?thesis using v(2) by (simp add: stream_rows_def replay_envelope_def)
qed

lemma sse_replay_tenant:
  "EventFrame en \<in> set (fst (sse_replay uid False lid mx s)) \<Longrightarrow> en_tenant_id en = uid"
  using replay_frames_events replay_rows_tenant
  by (fastforce simp: sse_replay_def split: option.splits prod.splits bool.splits if_splits)

subsection \<open>Theorems\<close>


text \<open>
  A tenant's stream carries only events of that tenant, those of the replay and those of its
  queue; the latter in the order of the queue, each once, without a gap up to the end of the stream.
\<close>

theorem stream_carries_own_events:
  assumes "list_all (\<lambda>k. case tk_item k of Some (Event en) \<Rightarrow> en_tenant_id en = usr_id u | _ \<Rightarrow> True) ticks"
  shows "list_all (\<lambda>en. en_tenant_id en = usr_id u)
      (frame_events (sse_event_stream pod u False lid mx h start s ticks)) \<and>
    (\<exists>rest. queue_events ticks = frame_events (stream_loop False start start m n ticks) @ rest)"
proof -
  have own: "en_tenant_id en = usr_id u" if "en \<in> set (queue_events ticks)" for en
    using queue_events_in [OF that] assms by (fastforce simp: list_all_iff)
  have loop: "set (frame_events (stream_loop False start start m' n' ticks)) \<subseteq> set (queue_events ticks)" for m' n'
    using stream_loop_prefix [of ticks False start start m' n'] by (metis Un_upper1 set_append)
  have "en_tenant_id en = usr_id u" if en: "en \<in> set (frame_events (sse_event_stream pod u False lid mx h start s ticks))" for en
  proof -
    from en obtain t where f: "(t, EventFrame en) \<in> set (sse_event_stream pod u False lid mx h start s ticks)"
      unfolding frame_events_def set_map_filter_events by blast
    let ?mx = "case mx of Some m \<Rightarrow> Some m | None \<Rightarrow> (case h of None \<Rightarrow> None | Some h \<Rightarrow> py_int digit_value 10 h)"
    from f have "EventFrame en \<in> set (fst (sse_replay (usr_id u) False lid ?mx s)) \<or>
      (\<exists>m n. (t, EventFrame en) \<in> set (stream_loop False start start m n ticks))"
      by (auto simp: sse_event_stream_def Let_def split: prod.splits if_splits)
    then show ?thesis using sse_replay_tenant own loop frame_events_in by blast
  qed
  then show ?thesis using stream_loop_prefix by (auto simp: list_all_iff)
qed

definition stream_tick :: "time \<Rightarrow> bool \<Rightarrow> item option \<Rightarrow> tick" where
  "stream_tick t active i =
     \<lparr>tk_now = seconds t, tk_row = Some (active, ''user''), tk_got = seconds t + 500000, tk_item = i\<rparr>"

definition example_event :: envelope where
  "example_event =
     \<lparr>en_cursor_id = 1, en_event_id = ''e1'', en_event_type = ''alert_created'', en_timestamp = 0, en_tenant_id = 7,
      en_channel = ''soc'', en_aggregate_id = None, en_data = []\<rparr>"

definition stream_example_user :: user where
  "stream_example_user = \<lparr>usr_id = 7, usr_role = ''user'', usr_is_active = True\<rparr>"

definition example_ticks :: "tick list" where
  "example_ticks =
     [stream_tick 1 True (Some (Event example_event)), stream_tick 30 False (Some (Event example_event)),
      stream_tick 60 False (Some (Event example_event)), stream_tick 61 False (Some (Event example_event))]"


lemma revoked_stream_example:
  "map snd (sse_event_stream ''pod'' stream_example_user False None None None 0 empty_store example_ticks) =
     [Connected ''pod'', EventFrame example_event, EventFrame example_event, AuthRevoked ''account_deactivated'']"
  by code_simp

lemma stream_carries_own_events_witness:
  "list_all (\<lambda>en. en_tenant_id en = 7)
     (frame_events (sse_event_stream ''pod'' stream_example_user False None None None 0 empty_store example_ticks))"
proof -
  have "list_all (\<lambda>k. case tk_item k of Some (Event en) \<Rightarrow> en_tenant_id en = usr_id stream_example_user | _ \<Rightarrow> True) example_ticks"
    by (simp add: example_ticks_def stream_tick_def example_event_def stream_example_user_def)
  from stream_carries_own_events [OF this] show ?thesis by (simp add: stream_example_user_def)
qed

text \<open>
  A stream is opened only without a token in the query, for an active user of the table, who is the
  one the bearer token decodes to or the one the ticket was issued for; a ticket that was used is gone.
\<close>

theorem stream_user_authenticated:
  assumes "get_stream_user w e decode users rq b r = (Inr u, b', r')"
  shows "\<not> truthy_str (rq_token rq) \<and> u \<in> set users \<and> usr_is_active u \<and>
    (if (case rq_authorization rq of None \<Rightarrow> False | Some h \<Rightarrow> starts_with ''Bearer '' h)
     then decode (str_strip (drop 7 (the (rq_authorization rq)))) = Some (usr_id u)
     else validate_and_burn_stream_ticket w e (the (rq_ticket rq)) b r = (Some (usr_id u), b', r'))"
proof -
  have cur: "x \<in> set users \<and> usr_is_active x \<and> decode tok = Some (usr_id x)"
    if "get_current_user decode tok users = Inr x" for tok x
    using that by (auto simp: get_current_user_def find_Some_iff split: option.splits if_splits)
  have tic: "x \<in> set users \<and> usr_is_active x \<and> uid = Some (usr_id x)" if "ticket_user users uid = Inr x" for uid x
    using that by (auto simp: ticket_user_def find_Some_iff split: option.splits if_splits)
  show ?thesis
    using assms cur tic by (auto simp: get_stream_user_def split: option.splits if_splits prod.splits)
qed

lemma stream_user_authenticated_witness:
  "get_stream_user getdel_calls \<lparr>now = 5, uuids = (\<lambda>_. [])\<rparr> (\<lambda>t. if t = ''jwt'' then Some 7 else None) [stream_example_user]
     \<lparr>rq_ticket = None, rq_token = None, rq_authorization = Some ''Bearer jwt''\<rparr> (new_broadcaster ''pod'' False)
     \<lparr>rd_counts = (\<lambda>_. 0), rd_tickets = (\<lambda>_. None)\<rparr> =
     (Inr stream_example_user, new_broadcaster ''pod'' False, \<lparr>rd_counts = (\<lambda>_. 0), rd_tickets = (\<lambda>_. None)\<rparr>) \<and>
   usr_is_active stream_example_user"
proof -
  let ?g = "get_stream_user getdel_calls \<lparr>now = 5, uuids = (\<lambda>_. [])\<rparr> (\<lambda>t. if t = ''jwt'' then Some 7 else None) [stream_example_user]
     \<lparr>rq_ticket = None, rq_token = None, rq_authorization = Some ''Bearer jwt''\<rparr> (new_broadcaster ''pod'' False)
     \<lparr>rd_counts = (\<lambda>_. 0), rd_tickets = (\<lambda>_. None)\<rparr>"
  have j: "str_strip (drop 7 ''Bearer jwt'') = ''jwt''" by code_simp
  have g: "?g = (Inr stream_example_user, new_broadcaster ''pod'' False, \<lparr>rd_counts = (\<lambda>_. 0), rd_tickets = (\<lambda>_. None)\<rparr>)"
    by (simp add: get_stream_user_def get_current_user_def stream_example_user_def j [simplified])
  from stream_user_authenticated [OF g] g show ?thesis by blast
qed

lemma admin_stream_gate:
  assumes "stream_admin_soc up e u ip ms s b r = (Inr q, s', b', r')"
  shows "is_admin u" "st_audits s' \<noteq> st_audits s"
  using assms by (auto simp: stream_admin_soc_def Let_def add_audit_def split: if_splits prod.splits sum.splits)

end
