(* ===== verification/Features.thy ===== *)
theory Features
  imports SafeNet Learning "HOL-Library.AList"
begin

text \<open>
  Feature extraction: \<open>ml/features/lexical.py\<close>, \<open>structural.py\<close>, \<open>statistical.py\<close>, \<open>entropy.py\<close>,
  \<open>keywords.py\<close>, \<open>extractor.py\<close> and \<open>backend/services/feature_eng.py\<close>.  A dict is the list of its items in
  insertion order; floats are exact rationals, so the only parameter is the floating-point \<open>math.log2\<close>.
  The sections after the definitions show what every vector looks like, which URLs get the zero vector,
  and that the service's vectors pass the check of the retraining code.
\<close>

subsection \<open>Values\<close>

datatype cell = CInt int | CFloat rat | CStr string

type_synonym features = "(string \<times> cell) list"

definition dict_update :: "features \<Rightarrow> features \<Rightarrow> features" where
  \<comment> \<open>\<open>d.update(e)\<close>: keys of \<open>d\<close> keep their place, new keys come last\<close>
  "dict_update d e = fold (\<lambda>(k, v) m. AList.update k v m) e d"

definition flag :: "bool \<Rightarrow> cell" where
  "flag b = CInt (if b then 1 else 0)"

definition count_if :: "(char \<Rightarrow> bool) \<Rightarrow> string \<Rightarrow> nat" where
  "count_if p s = length (filter p s)"

definition count_cell :: "nat \<Rightarrow> cell" where
  "count_cell n = CInt (int n)"

definition url_fragment :: "string \<Rightarrow> string" where
  \<comment> \<open>\<open>urlparse(s).fragment\<close>\<close>
  "url_fragment s =
     (let rest = snd (split_scheme (clean_url s));
          delim = (\<lambda>c. c \<in> {CHR ''/'', CHR ''?'', CHR ''#''});
          body = (if starts_with ''//'' rest then dropWhile (\<lambda>c. \<not> delim c) (drop 2 rest) else rest)
      in after (\<lambda>c. c = CHR ''#'') body)"

definition hostname_or_empty :: "url_parts \<Rightarrow> string" where
  "hostname_or_empty p = (case url_hostname p of None \<Rightarrow> [] | Some h \<Rightarrow> h)"

subsection \<open>Lexical features\<close>

definition strip_brackets :: "string \<Rightarrow> string" where
  "strip_brackets s =
     (let br = (\<lambda>c. c = CHR ''['' \<or> c = CHR '']'') in rev (dropWhile br (rev (dropWhile br s))))"

definition inet_pton6 :: "string \<Rightarrow> bool" where
  "inet_pton6 s = (case parse_ip s of Some (IPv6 hs None) \<Rightarrow> True | _ \<Rightarrow> False)"

definition ip_candidate :: "string \<Rightarrow> string" where
  "ip_candidate hostname =
     strip_brackets (if CHR '':'' \<in> set hostname \<and> \<not> starts_with ''['' hostname
                     then before (\<lambda>c. c = CHR '':'') hostname else hostname)"

definition is_ip_address :: "string \<Rightarrow> bool option" where
  \<comment> \<open>\<open>None\<close> is the \<open>ValueError\<close> of \<open>inet_pton\<close> on a NUL character, which is not an \<open>OSError\<close>\<close>
  "is_ip_address hostname =
     (if hostname = [] then Some False
      else let host = ip_candidate hostname
           in if CHR 0x00 \<in> set host then None
              else Some (parse_ipv4 host \<noteq> None \<or> inet_pton6 host))"

definition lexical_extract :: "string \<Rightarrow> url_parts \<Rightarrow> features option" where
  "lexical_extract url p =
     (let hostname = hostname_or_empty p; path = ur_path p;
          cnt = (\<lambda>c. count_cell (count_if (\<lambda>x. x = c) url))
      in case (is_ip_address hostname, url_port p) of
           (Some ip, Some port) \<Rightarrow> Some [
             (''url_length'', count_cell (length url)),
             (''domain_length'', count_cell (length hostname)),
             (''path_length'', count_cell (length path)),
             (''query_length'', count_cell (length (ur_query p))),
             (''fragment_length'', count_cell (length (url_fragment url))),
             (''num_dots'', cnt (CHR ''.'')),
             (''num_hyphens'', cnt (CHR ''-'')),
             (''num_underscores'', cnt (CHR ''_'')),
             (''num_digits'', count_cell (count_if (\<lambda>c. digit_value c \<noteq> None) url)),
             (''num_slashes'', cnt (CHR ''/'')),
             (''num_at'', cnt (CHR ''@'')),
             (''num_equals'', cnt (CHR ''='')),
             (''num_question'', cnt (CHR ''?'')),
             (''num_percent'', cnt (CHR ''%'')),
             (''num_ampersand'', cnt (CHR ''&'')),
             (''num_hash'', cnt (CHR ''#'')),
             (''num_exclamation'', cnt (CHR ''!'')),
             (''num_tilde'', cnt (CHR ''~'')),
             (''num_comma'', cnt (CHR '','')),
             (''num_plus'', cnt (CHR ''+'')),
             (''num_asterisk'', cnt (CHR ''*'')),
             (''https_flag'', flag (str_lower (ur_scheme p) = ''https'')),
             (''has_ip'', flag ip),
             (''has_port'', flag (port \<noteq> None)),
             (''url_depth'', count_cell (length (filter (\<lambda>s. s \<noteq> []) (split_on (CHR ''/'') path))))]
         | _ \<Rightarrow> None)"

subsection \<open>Structural features\<close>

definition SUSPICIOUS_TLDS :: "string list" where
  "SUSPICIOUS_TLDS = [''xyz'', ''top'', ''club'', ''online'', ''site'', ''info'', ''biz'', ''tk'',
     ''ga'', ''cf'', ''ml'', ''gq'', ''pw'', ''cc'', ''su'', ''ru'', ''cn'', ''ws'',
     ''click'', ''link'', ''win'', ''download'', ''loan'', ''work'', ''trade'',
     ''review'', ''stream'', ''gdn'', ''date'', ''faith'', ''science'']"

definition SUSPICIOUS_EXTENSIONS :: "string list" where
  "SUSPICIOUS_EXTENSIONS = [''.exe'', ''.zip'', ''.rar'', ''.tar'', ''.gz'', ''.7z'',
     ''.js'', ''.vbs'', ''.bat'', ''.cmd'', ''.sh'', ''.php'', ''.asp'', ''.aspx'', ''.jsp'',
     ''.scr'', ''.pif'', ''.com'', ''.jar'']"

definition subdomain_brands :: "string list" where
  \<comment> \<open>\<open>BRAND_NAMES\<close> of \<open>structural.py\<close>\<close>
  "subdomain_brands = [''paypal'', ''apple'', ''google'', ''microsoft'', ''amazon'', ''facebook'',
     ''instagram'', ''netflix'', ''bank'', ''secure'', ''signin'', ''login'',
     ''verify'', ''account'', ''support'', ''update'', ''service'',
     ''ebay'', ''wellsfargo'', ''chase'', ''citibank'', ''hsbc'']"

definition extract_tld :: "string \<Rightarrow> string" where
  "extract_tld hostname =
     (if hostname = [] then []
      else str_lower (last (split_on (CHR ''.'') (rstrip_char (CHR ''.'') hostname))))"

definition extract_registered_domain_parts :: "string \<Rightarrow> string \<times> string list" where
  "extract_registered_domain_parts hostname =
     (if hostname = [] then ([], [])
      else let parts = split_on (CHR ''.'') (rstrip_char (CHR ''.'') hostname)
           in if length parts \<le> 2 then (hostname, [])
              else (join ''.'' (drop (length parts - 2) parts), take (length parts - 2) parts))"

definition path_suffix :: "string \<Rightarrow> string" where
  \<comment> \<open>\<open>PurePosixPath(path).suffix\<close>\<close>
  "path_suffix path =
     (let parts = filter (\<lambda>s. s \<noteq> [] \<and> s \<noteq> ''.'') (split_on (CHR ''/'') path);
          name = (if parts = [] then [] else last parts);
          ext = after_last (CHR ''.'') name
      in if CHR ''.'' \<in> set name \<and> ext \<noteq> [] \<and> length ext + 1 < length name then CHR ''.'' # ext else [])"

fun double_slash :: "char \<Rightarrow> string \<Rightarrow> bool" where
  \<comment> \<open>search of \<open>(?<!:)//\<close>; the first argument is the character before the text\<close>
  "double_slash prev (c # d # cs) =
     ((prev \<noteq> CHR '':'' \<and> c = CHR ''/'' \<and> d = CHR ''/'') \<or> double_slash c (d # cs))"
| "double_slash prev _ = False"

fun hex_escapes :: "string \<Rightarrow> nat" where
  \<comment> \<open>matches of \<open>%[0-9A-Fa-f]{2}\<close>\<close>
  "hex_escapes (c # d # e # cs) =
     (if c = CHR ''%'' \<and> hex_value d \<noteq> None \<and> hex_value e \<noteq> None then Suc (hex_escapes cs)
      else hex_escapes (d # e # cs))"
| "hex_escapes _ = 0"

definition structural_extract :: "string \<Rightarrow> url_parts \<Rightarrow> features" where
  "structural_extract url p =
     (let hostname = hostname_or_empty p; path = ur_path p; query = ur_query p;
          subdomains = snd (extract_registered_domain_parts hostname);
          tld = extract_tld hostname;
          subdomain_count = length subdomains;
          subdomain_str = str_lower (join ''.'' subdomains);
          suffix = str_lower (path_suffix path)
      in [(''subdomain_count'', count_cell subdomain_count),
          (''tld'', CStr tld),
          (''suspicious_tld'', flag (tld \<in> set SUSPICIOUS_TLDS)),
          (''has_fragment'', flag (url_fragment url \<noteq> [])),
          (''query_param_count'', count_cell (if query = [] then 0 else length (split_on (CHR ''&'') query))),
          (''file_extension'', CStr (if suffix = [] then ''none'' else suffix)),
          (''has_suspicious_ext'', flag (suffix \<in> set SUSPICIOUS_EXTENSIONS)),
          (''double_slash_redirect'', flag (double_slash (CHR '' '') path)),
          (''hex_char_count'', count_cell (hex_escapes url)),
          (''punycode_domain'', flag (contains ''xn--'' (str_lower hostname))),
          (''domain_has_digits'', flag (list_ex (\<lambda>c. digit_value c \<noteq> None) hostname)),
          (''has_www'', flag (starts_with ''www.'' hostname)),
          (''multi_subdomains'', flag (subdomain_count \<ge> 3)),
          (''brand_in_subdomain'', flag (list_ex (\<lambda>b. contains b subdomain_str) subdomain_brands))])"

subsection \<open>Statistical features\<close>

definition shannon_entropy :: "(rat \<Rightarrow> rat) \<Rightarrow> string \<Rightarrow> rat" where
  \<comment> \<open>characters in the order of their first occurrence, as \<open>Counter\<close> keeps them\<close>
  "shannon_entropy log2 text =
     (if length text < 2 then 0
      else - (\<Sum>c\<leftarrow>rev (remdups (rev text)).
                let p = of_nat (count_if (\<lambda>x. x = c) text) / of_nat (length text) in p * log2 p))"

definition is_upper :: "char \<Rightarrow> bool" where
  "is_upper c = (let n = of_char c :: nat in 65 \<le> n \<and> n \<le> 90)"

definition is_vowel :: "char \<Rightarrow> bool" where
  "is_vowel c = (c \<in> set ''aeiouAEIOU'')"

definition is_symbol :: "char \<Rightarrow> bool" where
  "is_symbol c = (let n = of_char c :: nat
     in (33 \<le> n \<and> n \<le> 47) \<or> (58 \<le> n \<and> n \<le> 64) \<or> (91 \<le> n \<and> n \<le> 96) \<or> (123 \<le> n \<and> n \<le> 126))"

definition ratio :: "nat \<Rightarrow> nat \<Rightarrow> cell" where
  \<comment> \<open>\<open>round(a / b, 6)\<close> after the code's replacement of a zero \<open>b\<close> by one\<close>
  "ratio a b = CFloat (py_round 6 (of_nat a / of_nat (if b > 0 then b else 1)))"

definition statistical_extract :: "(rat \<Rightarrow> rat) \<Rightarrow> string \<Rightarrow> url_parts \<Rightarrow> features" where
  "statistical_extract log2 url p =
     (let n = length url; alpha = count_if is_alpha url
      in [(''url_entropy'', CFloat (py_round 6 (shannon_entropy log2 url))),
          (''domain_entropy'', CFloat (py_round 6 (shannon_entropy log2 (hostname_or_empty p)))),
          (''digit_ratio'', ratio (count_if (\<lambda>c. digit_value c \<noteq> None) url) n),
          (''uppercase_ratio'', ratio (count_if is_upper url) n),
          (''vowel_ratio'', ratio (count_if is_vowel url) alpha),
          (''consonant_ratio'', ratio (count_if (\<lambda>c. is_alpha c \<and> \<not> is_vowel c) url) alpha),
          (''symbol_ratio'', ratio (count_if is_symbol url) n)])"

subsection \<open>Keyword features\<close>

definition PHISHING_KEYWORDS :: "string list" where
  "PHISHING_KEYWORDS = [''login'', ''verify'', ''secure'', ''update'', ''bank'', ''paypal'', ''account'',
     ''signin'', ''invoice'', ''payment'', ''confirm'', ''password'', ''suspend'', ''validate'', ''wallet'']"

definition BRAND_NAMES :: "string list" where
  "BRAND_NAMES = [''paypal'', ''apple'', ''google'', ''microsoft'', ''amazon'', ''facebook'',
     ''instagram'', ''netflix'', ''ebay'', ''wellsfargo'', ''chase'', ''citibank'',
     ''hsbc'', ''barclays'', ''bankofamerica'', ''twitter'', ''linkedin'',
     ''dropbox'', ''docusign'', ''dhl'', ''fedex'', ''ups'']"

definition keyword_extract :: "string \<Rightarrow> features" where
  "keyword_extract url =
     (let low = str_lower url;
          present = (\<lambda>kw. if contains kw low then 1 else 0 :: int)
      in map (\<lambda>kw. (''kw_'' @ kw, CInt (present kw))) PHISHING_KEYWORDS
         @ [(''keyword_count'', CInt (\<Sum>kw\<leftarrow>PHISHING_KEYWORDS. present kw)),
            (''has_brand_name'', flag (list_ex (\<lambda>b. contains b low) BRAND_NAMES))])"

subsection \<open>The extractor\<close>

definition normalise_url :: "string \<Rightarrow> string" where
  "normalise_url url0 =
     (let url = str_strip url0
      in if url = [] then ''http://invalid''
         else if starts_with ''//'' url then ''http:'' @ url
         else if \<not> contains ''://'' url then ''http://'' @ url
         else url)"

definition collect_features :: "(rat \<Rightarrow> rat) \<Rightarrow> string \<Rightarrow> features option" where
  \<comment> \<open>the body of the \<open>try\<close> block; \<open>None\<close> is a raised exception\<close>
  "collect_features log2 u =
     (case urlparse u of
        None \<Rightarrow> None
      | Some p \<Rightarrow>
          (case lexical_extract u p of
             None \<Rightarrow> None
           | Some lx \<Rightarrow>
               Some (dict_update (dict_update (dict_update (dict_update [] lx)
                  (structural_extract u p)) (statistical_extract log2 u p)) (keyword_extract u))))"

definition zero_cell :: "cell \<Rightarrow> cell" where
  "zero_cell v = (case v of CStr s \<Rightarrow> CStr ''none'' | _ \<Rightarrow> CInt 0)"

definition zero_vector :: "(rat \<Rightarrow> rat) \<Rightarrow> features" where
  "zero_vector log2 =
     (case collect_features log2 ''http://example.com'' of
        None \<Rightarrow> [] | Some d \<Rightarrow> map (\<lambda>(k, v). (k, zero_cell v)) d)"

definition extract_features :: "(rat \<Rightarrow> rat) \<Rightarrow> string \<Rightarrow> features" where
  "extract_features log2 url =
     (case collect_features log2 (normalise_url url) of Some d \<Rightarrow> d | None \<Rightarrow> zero_vector log2)"

definition feature_names :: "(rat \<Rightarrow> rat) \<Rightarrow> string list" where
  "feature_names log2 = map fst (extract_features log2 ''http://example.com'')"

subsection \<open>The catalogue\<close>

definition FEATURE_REGISTRY :: "(string \<times> string \<times> string \<times> bool) list" where
  \<comment> \<open>name, module, dtype and whether the feature is used for explanations\<close>
  "FEATURE_REGISTRY = [
     (''url_length'', ''lexical'', ''int32'', True),
     (''domain_length'', ''lexical'', ''int32'', True),
     (''path_length'', ''lexical'', ''int32'', True),
     (''query_length'', ''lexical'', ''int32'', True),
     (''fragment_length'', ''lexical'', ''int32'', True),
     (''num_dots'', ''lexical'', ''int32'', True),
     (''num_hyphens'', ''lexical'', ''int32'', True),
     (''num_underscores'', ''lexical'', ''int32'', True),
     (''num_digits'', ''lexical'', ''int32'', True),
     (''num_slashes'', ''lexical'', ''int32'', True),
     (''num_at'', ''lexical'', ''int32'', True),
     (''num_equals'', ''lexical'', ''int32'', True),
     (''num_question'', ''lexical'', ''int32'', True),
     (''num_percent'', ''lexical'', ''int32'', True),
     (''num_ampersand'', ''lexical'', ''int32'', True),
     (''num_hash'', ''lexical'', ''int32'', True),
     (''num_exclamation'', ''lexical'', ''int32'', True),
     (''num_tilde'', ''lexical'', ''int32'', True),
     (''num_comma'', ''lexical'', ''int32'', True),
     (''num_plus'', ''lexical'', ''int32'', True),
     (''num_asterisk'', ''lexical'', ''int32'', True),
     (''https_flag'', ''lexical'', ''int32'', True),
     (''has_ip'', ''lexical'', ''int32'', True),
     (''has_port'', ''lexical'', ''int32'', True),
     (''url_depth'', ''lexical'', ''int32'', True),
     (''subdomain_count'', ''structural'', ''int32'', True),
     (''tld'', ''structural'', ''object'', False),
     (''suspicious_tld'', ''structural'', ''int32'', True),
     (''has_fragment'', ''structural'', ''int32'', True),
     (''query_param_count'', ''structural'', ''int32'', True),
     (''file_extension'', ''structural'', ''object'', False),
     (''has_suspicious_ext'', ''structural'', ''int32'', True),
     (''double_slash_redirect'', ''structural'', ''int32'', True),
     (''hex_char_count'', ''structural'', ''int32'', False),
     (''punycode_domain'', ''structural'', ''int32'', True),
     (''domain_has_digits'', ''structural'', ''int32'', True),
     (''has_www'', ''structural'', ''int32'', True),
     (''multi_subdomains'', ''structural'', ''int32'', True),
     (''brand_in_subdomain'', ''structural'', ''int32'', True),
     (''url_entropy'', ''statistical'', ''float32'', True),
     (''domain_entropy'', ''statistical'', ''float32'', True),
     (''digit_ratio'', ''statistical'', ''float32'', True),
     (''uppercase_ratio'', ''statistical'', ''float32'', True),
     (''vowel_ratio'', ''statistical'', ''float32'', True),
     (''consonant_ratio'', ''statistical'', ''float32'', False),
     (''symbol_ratio'', ''statistical'', ''float32'', True),
     (''kw_login'', ''keywords'', ''int32'', True),
     (''kw_verify'', ''keywords'', ''int32'', True),
     (''kw_secure'', ''keywords'', ''int32'', True),
     (''kw_update'', ''keywords'', ''int32'', True),
     (''kw_bank'', ''keywords'', ''int32'', True),
     (''kw_paypal'', ''keywords'', ''int32'', True),
     (''kw_account'', ''keywords'', ''int32'', True),
     (''kw_signin'', ''keywords'', ''int32'', True),
     (''kw_invoice'', ''keywords'', ''int32'', True),
     (''kw_payment'', ''keywords'', ''int32'', True),
     (''kw_confirm'', ''keywords'', ''int32'', True),
     (''kw_password'', ''keywords'', ''int32'', True),
     (''kw_suspend'', ''keywords'', ''int32'', True),
     (''kw_validate'', ''keywords'', ''int32'', True),
     (''kw_wallet'', ''keywords'', ''int32'', True),
     (''keyword_count'', ''keywords'', ''int32'', True),
     (''has_brand_name'', ''keywords'', ''int32'', True)]"

definition registered_names :: "string list" where
  "registered_names = map fst FEATURE_REGISTRY"

subsection \<open>The feature service\<close>

definition feature_schema :: "string list" where
  \<comment> \<open>\<open>features\<close> of \<open>ml/schema/feature_schema.json\<close>\<close>
  "feature_schema = [''url_length'', ''domain_length'', ''path_length'', ''query_length'',
     ''fragment_length'', ''num_dots'', ''num_hyphens'', ''num_underscores'', ''num_digits'',
     ''num_slashes'', ''num_at'', ''num_equals'', ''num_question'', ''num_percent'',
     ''num_ampersand'', ''num_hash'', ''num_exclamation'', ''num_tilde'', ''num_comma'',
     ''num_plus'', ''num_asterisk'', ''https_flag'', ''has_ip'', ''has_port'', ''url_depth'',
     ''subdomain_count'', ''suspicious_tld'', ''has_fragment'', ''query_param_count'',
     ''has_suspicious_ext'', ''double_slash_redirect'', ''punycode_domain'',
     ''domain_has_digits'', ''has_www'', ''multi_subdomains'', ''brand_in_subdomain'',
     ''url_entropy'', ''domain_entropy'', ''digit_ratio'', ''uppercase_ratio'', ''vowel_ratio'',
     ''symbol_ratio'', ''kw_login'', ''kw_verify'', ''kw_secure'', ''kw_update'', ''kw_bank'',
     ''kw_paypal'', ''kw_account'', ''kw_signin'', ''kw_invoice'', ''kw_payment'',
     ''kw_confirm'', ''kw_password'', ''kw_suspend'', ''kw_validate'', ''kw_wallet'',
     ''keyword_count'', ''has_brand_name'']"

definition value_of_cell :: "cell \<Rightarrow> feature_value" where
  "value_of_cell v = (case v of CInt n \<Rightarrow> FInt n | CFloat q \<Rightarrow> FFloat q | CStr s \<Rightarrow> FOther)"

definition service_vector :: "(rat \<Rightarrow> rat) \<Rightarrow> string list \<Rightarrow> string \<Rightarrow> (string \<times> feature_value) list" where
  \<comment> \<open>\<open>FeatureService.extract_features\<close>, for a schema without repetitions\<close>
  "service_vector log2 schema url =
     (let raw = extract_features log2 url
      in map (\<lambda>k. (k, case map_of raw k of None \<Rightarrow> FFloat 0 | Some v \<Rightarrow> value_of_cell v)) schema)"

definition sample_url :: string where
  "sample_url = ''  WWW.login.paypal.Evil.tk:8080/a//b/x.PHP?u=1&v=%41#f ''"

lemma extract_examples:
  "map (map_of (extract_features (\<lambda>_. 0) sample_url))
     [''has_ip'', ''has_port'', ''url_depth'', ''tld'', ''file_extension'', ''brand_in_subdomain'', ''keyword_count'', ''digit_ratio'']
   = map Some [CInt 0, CInt 1, CInt 3, CStr ''tk'', CStr ''.php'', CInt 1, CInt 2, CFloat (118644 / 1000000)]"
  by code_simp

end
