(* ===== verification/FeatureChecks.thy ===== *)
theory FeatureChecks
  imports Features
begin

text \<open>
  What \<open>ml/features/validator.py\<close> and \<open>catalog.py\<close> expect of the feature vectors of \<open>extractor.py\<close>, proved
  of every vector, and the batch pipeline of \<open>pipeline.py\<close>.
\<close>

subsection \<open>Every vector has the registered features\<close>

datatype kind = Count | Flag | Ratio | Entropy | Text

definition RATIO_FEATURES :: "string list" where
  "RATIO_FEATURES = [''digit_ratio'', ''uppercase_ratio'', ''vowel_ratio'', ''consonant_ratio'', ''symbol_ratio'']"

definition COUNT_FEATURES :: "string list" where
  "COUNT_FEATURES = [''url_length'', ''domain_length'', ''path_length'', ''query_length'',
     ''fragment_length'', ''num_dots'', ''num_hyphens'', ''num_underscores'',
     ''num_digits'', ''num_slashes'', ''num_at'', ''num_equals'', ''num_question'',
     ''num_percent'', ''num_ampersand'', ''num_hash'', ''num_exclamation'',
     ''num_tilde'', ''num_comma'', ''num_plus'', ''num_asterisk'',
     ''url_depth'', ''subdomain_count'', ''query_param_count'', ''hex_char_count'', ''keyword_count'']"

definition kind_of :: "string \<times> string \<times> string \<times> bool \<Rightarrow> kind" where
  "kind_of r =
     (let (n, m, t, s) = r
      in if t = ''object'' then Text
         else if n \<in> set RATIO_FEATURES then Ratio
         else if t = ''float32'' then Entropy
         else if n \<in> set COUNT_FEATURES then Count else Flag)"

fun value_ok :: "kind \<Rightarrow> cell \<Rightarrow> bool" where
  "value_ok Count (CInt n) = (0 \<le> n)"
| "value_ok Flag (CInt n) = (n = 0 \<or> n = 1)"
| "value_ok Ratio (CFloat q) = (0 \<le> q \<and> q \<le> 1)"
| "value_ok Ratio (CInt n) = (n = 0)"
| "value_ok Entropy (CFloat q) = True"
| "value_ok Entropy (CInt n) = (n = 0)"
| "value_ok Text (CStr s) = True"
| "value_ok _ _ = False"

lemma registered_kinds:
  "map kind_of FEATURE_REGISTRY =
     replicate 21 Count @ [Flag, Flag, Flag, Count]
     @ [Count, Text, Flag, Flag, Count, Text, Flag, Flag, Count, Flag, Flag, Flag, Flag, Flag]
     @ [Entropy, Entropy, Ratio, Ratio, Ratio, Ratio, Ratio]
     @ replicate 15 Flag @ [Count, Flag]"
  by code_simp

lemma value_ok_cells [simp]:
  "value_ok Flag (flag b)" "value_ok Count (count_cell n)"
  by (simp_all add: flag_def count_cell_def)

lemma round_half_even_bounds:
  "0 \<le> q \<Longrightarrow> 0 \<le> round_half_even q"
  "q \<le> of_int n \<Longrightarrow> round_half_even q \<le> n"
proof -
  show "0 \<le> q \<Longrightarrow> 0 \<le> round_half_even q"
    by (simp add: round_half_even_def Let_def)
  assume q: "q \<le> of_int n"
  then have "floor q \<le> n"
    by linarith
  moreover have "floor q = n \<Longrightarrow> q - of_int (floor q) \<le> 0"
    using q by simp
  ultimately show "round_half_even q \<le> n"
    by (cases "floor q = n") (auto simp: round_half_even_def Let_def)
qed

lemma py_round_unit: "0 \<le> q \<Longrightarrow> q \<le> 1 \<Longrightarrow> 0 \<le> py_round k q \<and> py_round k q \<le> 1"
proof -
  assume q: "0 \<le> q" "q \<le> 1"
  have "0 \<le> round_half_even (q * 10 ^ k)"
    using q by (intro round_half_even_bounds) simp
  moreover have "round_half_even (q * 10 ^ k) \<le> 10 ^ k"
    using q by (intro round_half_even_bounds) (simp add: mult_left_le_one_le)
  then have "(of_int (round_half_even (q * 10 ^ k)) :: rat) \<le> of_int (10 ^ k)"
    by (simp only: of_int_le_iff)
  ultimately show ?thesis
    by (simp add: py_round_def)
qed

lemma ratio_ok [simp]: "a \<le> b \<Longrightarrow> value_ok Ratio (ratio a b)"
  using py_round_unit [of "of_nat a / of_nat (if b > 0 then b else 1)" 6]
  by (simp add: ratio_def divide_simps)

lemma count_if_le_length [simp]: "count_if p s \<le> length s"
  by (simp add: count_if_def)

lemma count_if_mono: "(\<And>c. p c \<Longrightarrow> q c) \<Longrightarrow> count_if p s \<le> count_if q s"
  unfolding count_if_def by (induction s) (auto intro: le_SucI)

lemma vowels_alpha: "is_vowel c \<Longrightarrow> is_alpha c"
proof -
  have "list_all is_alpha ''aeiouAEIOU''"
    by code_simp
  then show "is_vowel c \<Longrightarrow> is_alpha c"
    unfolding is_vowel_def list_all_iff by blast
qed

lemma dict_update_append:
  "distinct (map fst (d @ e)) \<Longrightarrow> dict_update d e = d @ e"
proof (induction e arbitrary: d)
  case Nil
  then show ?case by (simp add: dict_update_def)
next
  case (Cons kv e)
  have new: "fst kv \<notin> fst ` set d"
    using Cons.prems by auto
  have "AList.update (fst kv) (snd kv) d = d @ [kv]"
    using new by (induction d) auto
  then have "dict_update d (kv # e) = dict_update (d @ [kv]) e"
    by (simp add: dict_update_def case_prod_beta)
  also have "\<dots> = (d @ [kv]) @ e"
    by (rule Cons.IH) (use Cons.prems in simp)
  finally show ?case by simp
qed


abbreviation lexical_part :: "features \<Rightarrow> bool" where
  "lexical_part d \<equiv> map fst d = take 25 registered_names
     \<and> list_all2 value_ok (replicate 21 Count @ [Flag, Flag, Flag, Count]) (map snd d)"

lemma part_names:
  "take 25 registered_names = [''url_length'', ''domain_length'', ''path_length'', ''query_length'', ''fragment_length'', 
     ''num_dots'', ''num_hyphens'', ''num_underscores'', ''num_digits'', ''num_slashes'', ''num_at'', 
     ''num_equals'', ''num_question'', ''num_percent'', ''num_ampersand'', ''num_hash'', ''num_exclamation'', 
     ''num_tilde'', ''num_comma'', ''num_plus'', ''num_asterisk'', ''https_flag'', ''has_ip'', ''has_port'', 
     ''url_depth'']"
  "take 14 (drop 25 registered_names) = [''subdomain_count'', ''tld'', ''suspicious_tld'', ''has_fragment'', ''query_param_count'', 
     ''file_extension'', ''has_suspicious_ext'', ''double_slash_redirect'', ''hex_char_count'', 
     ''punycode_domain'', ''domain_has_digits'', ''has_www'', ''multi_subdomains'', ''brand_in_subdomain'']
     "
  "take 7 (drop 39 registered_names) = [''url_entropy'', ''domain_entropy'', ''digit_ratio'', ''uppercase_ratio'', ''vowel_ratio'', 
     ''consonant_ratio'', ''symbol_ratio'']"
  "drop 46 registered_names = map (\<lambda>kw. ''kw_'' @ kw) PHISHING_KEYWORDS @ [''keyword_count'', ''has_brand_name'']"
  "distinct registered_names"
  by code_simp+

lemma registered_split:
  "registered_names = take 25 registered_names @ take 14 (drop 25 registered_names)
     @ take 7 (drop 39 registered_names) @ drop 46 registered_names"
  by code_simp

lemma lexical_part: "lexical_extract u p = Some lx \<Longrightarrow> lexical_part lx"
  unfolding part_names lexical_extract_def Let_def
  by (auto split: option.splits prod.splits simp: eval_nat_numeral)

lemma structural_part:
  "map fst (structural_extract u p) = take 14 (drop 25 registered_names)"
  "list_all2 value_ok [Count, Text, Flag, Flag, Count, Text, Flag, Flag, Count, Flag, Flag, Flag, Flag, Flag]
     (map snd (structural_extract u p))"
  unfolding part_names structural_extract_def Let_def by simp_all

lemma statistical_part:
  "map fst (statistical_extract log2 u p) = take 7 (drop 39 registered_names)"
  "list_all2 value_ok [Entropy, Entropy, Ratio, Ratio, Ratio, Ratio, Ratio] (map snd (statistical_extract log2 u p))"
  unfolding part_names statistical_extract_def Let_def
  using ratio_ok [OF count_if_mono [of is_vowel is_alpha, OF vowels_alpha]]
    ratio_ok [OF count_if_mono [of "\<lambda>c. is_alpha c \<and> \<not> is_vowel c" is_alpha]]
  by simp_all

lemma keyword_part:
  "map fst (keyword_extract u) = drop 46 registered_names"
  "list_all2 value_ok (replicate 15 Flag @ [Count, Flag]) (map snd (keyword_extract u))"
  unfolding part_names keyword_extract_def Let_def
  by (simp_all add: PHISHING_KEYWORDS_def eval_nat_numeral)

lemma collected_parts:
  assumes "collect_features log2 u = Some d"
  obtains p lx where "urlparse u = Some p" "lexical_extract u p = Some lx"
    "d = lx @ structural_extract u p @ statistical_extract log2 u p @ keyword_extract u"
proof -
  obtain p lx where p: "urlparse u = Some p" and lx: "lexical_extract u p = Some lx"
    using assms by (auto simp: collect_features_def split: option.splits)
  let ?d = "lx @ structural_extract u p @ statistical_extract log2 u p @ keyword_extract u"
  have names: "map fst ?d = registered_names"
    using lexical_part [OF lx] structural_part(1) statistical_part(1) keyword_part(1) registered_split by simp
  then have dist: "distinct (map fst ?d)"
    using part_names(5) by (simp only:)
  have "d = dict_update (dict_update (dict_update (dict_update [] lx) (structural_extract u p))
      (statistical_extract log2 u p)) (keyword_extract u)"
    using assms p lx by (simp add: collect_features_def)
  also have "\<dots> = ?d"
    using dist by (simp add: dict_update_append Int_Un_distrib Int_Un_distrib2)
  finally show ?thesis
    using p lx that by blast
qed


lemma collected_typing:
  assumes "collect_features log2 u = Some d"
  shows "map fst d = registered_names" "list_all2 value_ok (map kind_of FEATURE_REGISTRY) (map snd d)"
proof -
  obtain p lx where lx: "lexical_extract u p = Some lx"
    and d: "d = lx @ structural_extract u p @ statistical_extract log2 u p @ keyword_extract u"
    using assms by (rule collected_parts)
  show "map fst d = registered_names"
    using lexical_part [OF lx] structural_part(1) statistical_part(1) keyword_part(1) registered_split
    by (simp add: d)
  let ?a = "replicate 21 Count @ [Flag, Flag, Flag, Count]"
  let ?b = "[Count, Text, Flag, Flag, Count, Text, Flag, Flag, Count, Flag, Flag, Flag, Flag, Flag]"
  let ?c = "[Entropy, Entropy, Ratio, Ratio, Ratio, Ratio, Ratio]"
  let ?d = "replicate 15 Flag @ [Count, Flag]"
  have "map kind_of FEATURE_REGISTRY = ?a @ ?b @ ?c @ ?d"
    using registered_kinds by (simp only: append_assoc)
  moreover have "list_all2 value_ok (?a @ ?b @ ?c @ ?d) (map snd d)"
    unfolding d map_append
    by (intro list_all2_appendI structural_part statistical_part keyword_part)
      (use lexical_part [OF lx] in blast)
  ultimately show "list_all2 value_ok (map kind_of FEATURE_REGISTRY) (map snd d)"
    by (simp only:)
qed

lemma sample_collected: "collect_features log2 ''http://example.com'' \<noteq> None"
proof -
  have p: "map_option (\<lambda>p. (is_ip_address (hostname_or_empty p) = None, url_port p = None)) (urlparse ''http://example.com'')
      = Some (False, False)"
    by code_simp
  then obtain p where "urlparse ''http://example.com'' = Some p"
      "is_ip_address (hostname_or_empty p) \<noteq> None" "url_port p \<noteq> None"
    by auto
  then show ?thesis
    by (auto simp: collect_features_def lexical_extract_def Let_def)
qed

lemma zero_cell_ok: "value_ok k v \<Longrightarrow> value_ok k (zero_cell v)"
  by (cases k; cases v) (simp_all add: zero_cell_def)

lemma zero_vector_typing:
  "map fst (zero_vector log2) = registered_names"
  "list_all2 value_ok (map kind_of FEATURE_REGISTRY) (map snd (zero_vector log2))"
proof -
  obtain d where d: "collect_features log2 ''http://example.com'' = Some d"
    using sample_collected by blast
  have z: "map fst (zero_vector log2) = map fst d" "map snd (zero_vector log2) = map zero_cell (map snd d)"
    by (simp_all add: zero_vector_def d case_prod_beta comp_def)
  show "map fst (zero_vector log2) = registered_names"
    using collected_typing(1) [OF d] by (simp only: z)
  show "list_all2 value_ok (map kind_of FEATURE_REGISTRY) (map snd (zero_vector log2))"
    unfolding z using collected_typing(2) [OF d] zero_cell_ok
    by (auto simp: list_all2_conv_all_nth)
qed

text \<open>
  C29: Whatever text it is given, the extractor returns exactly the features of the catalogue in its
  order, and every value is of the kind the validator expects: counts are not negative, flags are 0
  or 1, ratios lie between 0 and 1, and only the two text features are strings.
\<close>
theorem extracted_features_well_typed:
  "map fst (extract_features log2 url) = registered_names \<and>
   list_all2 value_ok (map kind_of FEATURE_REGISTRY) (map snd (extract_features log2 url))"
  using collected_typing zero_vector_typing
  by (simp add: extract_features_def split: option.splits)

subsection \<open>The zero vector\<close>

definition unparsable :: "string \<Rightarrow> bool" where
  \<comment> \<open>text for which \<open>urlparse\<close>, the port or \<open>inet_pton\<close> raises \<open>ValueError\<close>\<close>
  "unparsable u =
     (case urlparse u of None \<Rightarrow> True
      | Some p \<Rightarrow> url_port p = None \<or> CHR 0x00 \<in> set (ip_candidate (hostname_or_empty p)))"

lemma collect_None: "collect_features log2 u = None \<longleftrightarrow> unparsable u"
  by (auto simp: collect_features_def unparsable_def lexical_extract_def Let_def is_ip_address_def
      ip_candidate_def strip_brackets_def split: option.splits prod.splits)

lemma normalise_nonempty: "normalise_url u \<noteq> []"
  by (simp add: normalise_url_def Let_def)

lemma url_length_collected:
  assumes "collect_features log2 u = Some d" shows "hd d = (''url_length'', CInt (int (length u)))"
proof -
  obtain p lx where lx: "lexical_extract u p = Some lx"
    and d: "d = lx @ structural_extract u p @ statistical_extract log2 u p @ keyword_extract u"
    using assms by (rule collected_parts)
  have "hd lx = (''url_length'', CInt (int (length u))) \<and> lx \<noteq> []"
    using lx by (auto simp: lexical_extract_def Let_def count_cell_def split: option.splits prod.splits)
  then show ?thesis
    by (simp add: d)
qed

lemma zero_vector_head: "hd (zero_vector log2) = (''url_length'', CInt 0)"
proof -
  obtain d where d: "collect_features log2 ''http://example.com'' = Some d"
    using sample_collected by blast
  have "length (map fst d) = length registered_names"
    using collected_typing(1) [OF d] by (simp only:)
  then have "d \<noteq> []"
    by (auto simp: registered_names_def FEATURE_REGISTRY_def)
  then show ?thesis
    using url_length_collected [OF d] by (cases d) (simp_all add: zero_vector_def d zero_cell_def)
qed

theorem zero_vector_iff_unparsable:
  "extract_features log2 url = zero_vector log2 \<longleftrightarrow> unparsable (normalise_url url)"
proof (cases "collect_features log2 (normalise_url url)")
  case None
  then show ?thesis
    using collect_None [of log2 "normalise_url url"] by (simp add: extract_features_def)
next
  case (Some d)
  have "hd d \<noteq> hd (zero_vector log2)"
    using normalise_nonempty by (simp add: url_length_collected [OF Some] zero_vector_head)
  moreover have "\<not> unparsable (normalise_url url)"
    using Some collect_None [of log2 "normalise_url url"] by simp
  ultimately show ?thesis
    using Some by (auto simp: extract_features_def)
qed


lemma backslash_hides_everything:
  \<comment> \<open>browsers read the character after the port number as a slash\<close>
  "extract_features log2 (''http://paypal-login.evil.tk:80'' @ [CHR 0x5C] @ ''verify?account=1'') = zero_vector log2"
proof -
  have "unparsable (normalise_url (''http://paypal-login.evil.tk:80'' @ [CHR 0x5C] @ ''verify?account=1''))"
    by code_simp
  then show ?thesis
    by (simp only: zero_vector_iff_unparsable)
qed

subsection \<open>IPv6 hosts\<close>

lemma split_on_absent: "c \<notin> set s \<Longrightarrow> split_on c s = [s]"
  by (induction s) auto

lemma hd_split_on: "hd (split_on c s) = before (\<lambda>x. x = c) s"
  by (induction s) (auto simp: before_def split: list.splits)

lemma before_before: "c \<in> set (before p s) \<Longrightarrow> before (\<lambda>x. x = c) (before p s) = before (\<lambda>x. x = c) s"
  by (induction s) (auto simp: before_def split: if_splits)

lemma before_subset: "set (before p s) \<subseteq> set s"
  by (auto simp: before_def dest: set_takeWhileD)

lemma options_hd: "options (map f ps) \<noteq> None \<Longrightarrow> ps \<noteq> [] \<Longrightarrow> f (hd ps) \<noteq> None"
  by (cases ps; cases "f (hd ps)") auto

lemma expand_ipv6_head:
  assumes e: "expand_ipv6 ps tail \<noteq> None" and ps: "ps \<noteq> []"
  shows "hd ps = [] \<or> parse_hextet (hd ps) \<noteq> None"
proof -
  define mids where "mids = filter (\<lambda>i. 1 \<le> i \<and> i + 1 < length ps + length tail \<and> i < length ps \<and> ps ! i = []) [0..<length ps]"
  note e' = e [unfolded expand_ipv6_def Let_def, folded mids_def]
  consider "mids = []" | k where "mids = [k]" | i j ks where "mids = i # j # ks"
    by (metis list.exhaust)
  then show ?thesis
  proof cases
    case 1
    have "options (map parse_hextet ps) \<noteq> None"
      using e' unfolding 1 by (simp split: if_splits)
    then show ?thesis
      using ps options_hd [of parse_hextet ps] by blast
  next
    case (2 k)
    have "k \<in> set mids"
      by (simp add: 2)
    then have k: "1 \<le> k"
      by (simp add: mids_def)
    then have h: "take k ps \<noteq> []" "hd (take k ps) = hd ps"
      using ps by (cases ps; cases k; simp)+
    show ?thesis
    proof (cases "hd ps = []")
      case False
      then have "options (map parse_hextet (take k ps)) \<noteq> None"
        using e' h unfolding 2 by (simp split: if_split_asm option.split_asm)
      then show ?thesis
        using options_hd [of parse_hextet "take k ps"] h by simp
    qed simp
  next
    case 3
    then show ?thesis
      using e' by (simp split: if_splits)
  qed
qed

lemma parse_hextet_chars: "parse_hextet s \<noteq> None \<Longrightarrow> c \<in> set s \<Longrightarrow> hex_value c \<noteq> None"
  unfolding parse_hextet_def using read_base_chars [of hex_value 16 0 s] by (auto split: if_splits)

lemma parse_hextets_head:
  assumes "parse_hextets s \<noteq> None"
  shows "CHR '':'' \<in> set s" "\<And>c. c \<in> set (before (\<lambda>x. x = CHR '':'') s) \<Longrightarrow> hex_value c \<noteq> None"
proof -
  let ?ps = "split_on (CHR '':'') s"
  have len: "3 \<le> length ?ps"
    using assms by (auto simp: parse_hextets_def Let_def split: if_splits)
  then show "CHR '':'' \<in> set s"
    using split_on_absent [of "CHR '':''" s] by (cases "CHR '':'' \<in> set s") auto
  have bl: "butlast ?ps \<noteq> []" "hd (butlast ?ps) = hd ?ps"
    using len by (cases ?ps; cases "tl ?ps"; simp)+
  have "hd ?ps = [] \<or> parse_hextet (hd ?ps) \<noteq> None"
    using assms expand_ipv6_head [of ?ps "[]"] expand_ipv6_head [of "butlast ?ps"] bl len
    by (auto simp: parse_hextets_def Let_def split: if_splits option.splits list.splits)
  then show "\<And>c. c \<in> set (before (\<lambda>x. x = CHR '':'') s) \<Longrightarrow> hex_value c \<noteq> None"
    using parse_hextet_chars hd_split_on [of "CHR '':''" s] by (metis empty_iff empty_set)
qed

lemma no_colon_no_ipv6: "CHR '':'' \<notin> set s \<Longrightarrow> \<not> inet_pton6 s"
proof -
  assume s: "CHR '':'' \<notin> set s"
  have "parse_hextets (before (\<lambda>c. c = CHR ''%'') s) = None"
    using parse_hextets_head(1) before_subset s by blast
  then show ?thesis
    by (auto simp: inet_pton6_def parse_ip_def Let_def split: option.splits if_splits ip_address.splits)
qed

lemma no_dot_no_ipv4: "CHR ''.'' \<notin> set s \<Longrightarrow> parse_ipv4 s = None"
  by (simp add: parse_ipv4_def split_on_absent)

lemma strip_brackets_id: "CHR ''['' \<notin> set s \<Longrightarrow> CHR '']'' \<notin> set s \<Longrightarrow> strip_brackets s = s"
proof -
  assume s: "CHR ''['' \<notin> set s" "CHR '']'' \<notin> set s"
  have d: "dropWhile (\<lambda>c. c = CHR ''['' \<or> c = CHR '']'') t = t" if "set t \<subseteq> set s" for t
    using that s by (cases t) auto
  show ?thesis
    by (simp add: strip_brackets_def d)
qed

theorem ipv6_literals_not_flagged:
  assumes "parse_ip h = Some (IPv6 hs sc)"
  shows "is_ip_address h = Some False"
proof -
  let ?addr = "before (\<lambda>c. c = CHR ''%'') h" and ?host = "before (\<lambda>c. c = CHR '':'') h"
  have addr: "parse_hextets ?addr \<noteq> None"
    using assms by (auto simp: parse_ip_def Let_def split: option.splits if_splits)
  have colon: "CHR '':'' \<in> set ?addr"
    by (rule parse_hextets_head(1) [OF addr])
  then have same: "before (\<lambda>c. c = CHR '':'') ?addr = ?host"
    by (rule before_before)
  have hex: "hex_value c \<noteq> None" if "c \<in> set ?host" for c
    using parse_hextets_head(2) [OF addr] that same by simp
  have bad: "hex_value (CHR ''['') = None" "hex_value (CHR '']'') = None" "hex_value (CHR ''.'') = None"
      "hex_value (CHR 0x00) = None"
    by code_simp+
  have in_h: "CHR '':'' \<in> set h"
    using colon before_subset by blast
  have chars: "CHR ''['' \<notin> set ?host" "CHR '']'' \<notin> set ?host" "CHR 0x00 \<notin> set ?host" "CHR ''.'' \<notin> set ?host"
    using hex bad by blast+
  have "CHR ''['' \<in> set ?host" if "starts_with ''['' h"
    using that by (cases h) (auto simp: before_def)
  then have "\<not> starts_with ''['' h"
    using chars(1) by blast
  then have "ip_candidate h = ?host"
    using in_h strip_brackets_id [OF chars(1, 2)] by (simp only: ip_candidate_def) simp
  moreover have "\<not> inet_pton6 ?host"
    by (rule no_colon_no_ipv6 [OF takeWhile_no_sep])
  moreover have "parse_ipv4 ?host = None"
    by (rule no_dot_no_ipv4 [OF chars(4)])
  moreover have "h \<noteq> []"
    using in_h by auto
  ultimately show ?thesis
    using chars(3) by (simp only: is_ip_address_def Let_def) simp
qed

theorem ipv6_literals_not_flagged_witness:
  "is_ip_address ''2001:db8::1'' = Some False"
proof -
  have "parse_ip ''2001:db8::1'' = Some (IPv6 [8193, 3512, 0, 0, 0, 0, 0, 1] None)"
    by code_simp
  then show ?thesis
    by (rule ipv6_literals_not_flagged)
qed

subsection \<open>Vectors of the service\<close>

lemma schema_is_explained_part:
  "feature_schema = map fst (filter (\<lambda>(n, m, t, s). s) FEATURE_REGISTRY)"
  by code_simp

lemma schema_numeric:
  "list_all (\<lambda>k. list_ex (\<lambda>r. fst r = k \<and> kind_of r \<noteq> Text) FEATURE_REGISTRY) feature_schema"
  by code_simp

lemma map_of_tabulate: "k \<in> set ks \<Longrightarrow> map_of (map (\<lambda>k. (k, f k)) ks) k = Some (f k)"
  by (induction ks) auto

lemma typed_lookup:
  assumes "map fst d = map fst rs" "list_all2 value_ok (map f rs) (map snd d)" "distinct (map fst rs)" "r \<in> set rs"
  obtains v where "map_of d (fst r) = Some v" "value_ok (f r) v"
proof -
  obtain i where i: "i < length rs" "r = rs ! i"
    using assms(4) by (auto simp: in_set_conv_nth)
  have len: "length d = length rs"
    using arg_cong [OF assms(1), of length] by simp
  have key: "fst (d ! i) = fst r"
    using arg_cong [OF assms(1), of "\<lambda>xs. xs ! i"] i len by simp
  have "distinct (map fst d)"
    using assms(1, 3) by simp
  then have "map_of d (fst (d ! i)) = Some (snd (d ! i))"
    using i len by (auto intro!: map_of_is_SomeI)
  moreover have "value_ok (f r) (snd (d ! i))"
    using assms(2) i len by (auto simp: list_all2_conv_all_nth)
  ultimately show ?thesis
    using that key by metis
qed

lemma extracted_value:
  assumes "r \<in> set FEATURE_REGISTRY"
  obtains v where "map_of (extract_features log2 url) (fst r) = Some v" "value_ok (kind_of r) v"
proof (rule typed_lookup [of "extract_features log2 url" FEATURE_REGISTRY kind_of r])
  show "map fst (extract_features log2 url) = map fst FEATURE_REGISTRY"
      "list_all2 value_ok (map kind_of FEATURE_REGISTRY) (map snd (extract_features log2 url))"
    using collected_typing zero_vector_typing
    by (simp_all add: extract_features_def registered_names_def split: option.splits)
  show "distinct (map fst FEATURE_REGISTRY)"
    using part_names(5) by (simp add: registered_names_def)
qed (use assms that in blast)+

text \<open>
  The vector the feature service builds for a URL, whatever the URL, passes the check the retraining
  code makes of stored vectors against the same schema: no key is missing and no value is a string.
\<close>
theorem scanned_vectors_valid:
  "is_valid_feature_vector (Some (FvDict (service_vector log2 feature_schema url))) feature_schema"
proof -
  have "(case map_of (service_vector log2 feature_schema url) k of
       Some (FInt _) \<Rightarrow> True | Some (FFloat _) \<Rightarrow> True | _ \<Rightarrow> False)" if k: "k \<in> set feature_schema" for k
  proof -
    obtain r where r: "r \<in> set FEATURE_REGISTRY" "fst r = k" "kind_of r \<noteq> Text"
      using schema_numeric k by (auto simp: list_all_iff list_ex_iff)
    obtain v where v: "map_of (extract_features log2 url) (fst r) = Some v" "value_ok (kind_of r) v"
      by (rule extracted_value [OF r(1)])
    have "map_of (service_vector log2 feature_schema url) k = Some (value_of_cell v)"
      using k v(1) r(2) by (simp add: service_vector_def Let_def map_of_tabulate)
    moreover have "\<not> (\<exists>s. v = CStr s)"
      using v(2) r(3) by (cases "kind_of r") auto
    ultimately show ?thesis
      by (cases v) (auto simp: value_of_cell_def)
  qed
  then show ?thesis
    by (auto simp: is_valid_feature_vector_def list_all_iff service_vector_def Let_def)
qed

end
