(* ===== verification/FeatureStore.thy ===== *)
theory FeatureStore
  imports FeatureChecks "HOL-Library.Multiset"
begin

text \<open>
  The batch side of feature extraction: the feature matrix and its checks (\<open>ml/features/validator.py\<close>), the
  extraction loop of \<open>pipeline.py\<close> with the shared dicts of the extractor's cache, and the feature selection
  of \<open>ml/selection/selector.py\<close>.  A frame is a list of column names and a list of rows of cells, where
  \<open>None\<close> is NaN; variances and correlations, which numpy computes, are parameters, \<open>None\<close> again for NaN.
\<close>

subsection \<open>Frames\<close>

record frame =
  fr_columns :: "string list"
  fr_rows :: "cell option list list"

definition add_new :: "'a \<Rightarrow> 'a list \<Rightarrow> 'a list" where
  "add_new k acc = (if k \<in> set acc then acc else acc @ [k])"

definition frame_of :: "features list \<Rightarrow> frame" where
  \<comment> \<open>the frame of a list of \<open>Series\<close>: columns in the order of their first appearance, NaN where a key is missing\<close>
  "frame_of ds =
     (let cols = fold add_new (concat (map (map fst) ds)) []
      in \<lparr>fr_columns = cols, fr_rows = map (\<lambda>d. map (map_of d) cols) ds\<rparr>)"

definition frame_items :: "frame \<Rightarrow> (string \<times> cell option list) list" where
  "frame_items f = map (\<lambda>i. (fr_columns f ! i, map (\<lambda>r. r ! i) (fr_rows f))) [0..<length (fr_columns f)]"

definition numeric_column :: "cell option list \<Rightarrow> bool" where
  "numeric_column col = list_all (\<lambda>c. case c of Some (CStr s) \<Rightarrow> False | _ \<Rightarrow> True) col"

definition cell_number :: "cell option \<Rightarrow> rat option" where
  "cell_number c = (case c of Some (CInt n) \<Rightarrow> Some (of_int n) | Some (CFloat q) \<Rightarrow> Some q | _ \<Rightarrow> None)"

subsection \<open>The validator\<close>

datatype issue =
    NullIssue string nat
  | ConstantIssue string
  | RatioIssue string nat
  | NegativeIssue string nat
  | DuplicateIssue string
  | CorrelationIssue string string

definition report_count :: "(nat \<Rightarrow> issue) \<Rightarrow> nat \<Rightarrow> issue list" where
  "report_count mk n = (if n > 0 then [mk n] else [])"

definition check_nulls :: "frame \<Rightarrow> issue list" where
  "check_nulls f =
     concat (map (\<lambda>(n, col). report_count (NullIssue n) (length (filter (\<lambda>c. c = None) col))) (frame_items f))"

definition check_constants :: "frame \<Rightarrow> issue list" where
  "check_constants f =
     map (\<lambda>(n, col). ConstantIssue n)
       (filter (\<lambda>(n, col). numeric_column col
          \<and> length (remdups (filter (\<lambda>v. v \<noteq> None) (map cell_number col))) \<le> 1) (frame_items f))"

definition outside :: "(rat \<Rightarrow> bool) \<Rightarrow> cell option list \<Rightarrow> nat" where
  "outside bad col = length (filter (\<lambda>c. case cell_number c of Some q \<Rightarrow> bad q | None \<Rightarrow> False) col)"

definition check_ranges :: "frame \<Rightarrow> issue list" where
  "check_ranges f =
     concat (map (\<lambda>n. case map_of (frame_items f) n of None \<Rightarrow> []
                   | Some col \<Rightarrow> report_count (RatioIssue n) (outside (\<lambda>q. q < 0 \<or> q > 1) col)) RATIO_FEATURES)
     @ concat (map (\<lambda>n. case map_of (frame_items f) n of None \<Rightarrow> []
                   | Some col \<Rightarrow> report_count (NegativeIssue n) (outside (\<lambda>q. q < 0) col)) COUNT_FEATURES)"

fun duplicate_columns :: "string list \<Rightarrow> string list \<Rightarrow> issue list" where
  "duplicate_columns seen [] = []"
| "duplicate_columns seen (c # cs) =
     (if c \<in> set seen then [DuplicateIssue c] else []) @ duplicate_columns (c # seen) cs"

fun correlated_pairs :: "(string \<Rightarrow> string \<Rightarrow> rat option) \<Rightarrow> string list \<Rightarrow> issue list" where
  "correlated_pairs corr [] = []"
| "correlated_pairs corr (c # cs) =
     map (CorrelationIssue c) (filter (\<lambda>d. case corr c d of Some v \<Rightarrow> v \<ge> 98 / 100 | None \<Rightarrow> False) cs)
     @ correlated_pairs corr cs"

definition validate_frame :: "(string \<Rightarrow> string \<Rightarrow> rat option) \<Rightarrow> frame \<Rightarrow> issue list" where
  \<comment> \<open>the issues of \<open>FeatureValidator.validate\<close>; it returns whether there are none\<close>
  "validate_frame corr f =
     check_nulls f @ check_constants f @ check_ranges f @ duplicate_columns [] (fr_columns f)
     @ correlated_pairs corr (map fst (filter (\<lambda>(n, col). numeric_column col) (frame_items f)))"

subsection \<open>The extraction loop\<close>

text \<open>
  \<open>FeatureExtractor.extract\<close> is wrapped in \<open>lru_cache\<close>, so rows with the same URL get the same dict, and
  \<open>_extract_row\<close> writes the row's own columns into it.  The cache is a list of the shared dicts, the most
  recently used one first; a dict handed out is always its first entry.
\<close>

record source_row =
  sr_url :: string
  sr_label :: string
  sr_source :: string

type_synonym dict_cache = "(string \<times> features) list"

definition CACHE_SIZE :: nat where
  "CACHE_SIZE = 10000"

definition cached_extract :: "(rat \<Rightarrow> rat) \<Rightarrow> string \<Rightarrow> dict_cache \<Rightarrow> features \<times> dict_cache" where
  "cached_extract log2 url cache =
     (case map_of cache url of
        Some d \<Rightarrow> (d, (url, d) # filter (\<lambda>(k, _). k \<noteq> url) cache)
      | None \<Rightarrow> let d = extract_features log2 url in (d, take CACHE_SIZE ((url, d) # cache)))"

definition tag_row :: "source_row \<Rightarrow> features \<Rightarrow> features" where
  "tag_row r d =
     AList.update ''source'' (CStr (sr_source r))
       (AList.update ''label'' (CStr (sr_label r)) (AList.update ''url'' (CStr (sr_url r)) d))"

definition extract_row :: "(rat \<Rightarrow> rat) \<Rightarrow> source_row \<Rightarrow> dict_cache \<Rightarrow> features \<times> dict_cache" where
  \<comment> \<open>the row's \<open>Series\<close> is a copy; the dict in the cache is changed in place\<close>
  "extract_row log2 r cache =
     (let (d, cache) = cached_extract log2 (sr_url r) cache; d' = tag_row r d
      in (d', map (\<lambda>(k, v). if k = sr_url r then (k, d') else (k, v)) cache))"

fun extract_chunk :: "(rat \<Rightarrow> rat) \<Rightarrow> source_row list \<Rightarrow> dict_cache \<Rightarrow> features list \<times> dict_cache" where
  "extract_chunk log2 [] cache = ([], cache)"
| "extract_chunk log2 (r # rs) cache =
     (let (d, cache) = extract_row log2 r cache; (ds, cache) = extract_chunk log2 rs cache in (d # ds, cache))"

function run_chunks :: "(rat \<Rightarrow> rat) \<Rightarrow> nat \<Rightarrow> source_row list \<Rightarrow> dict_cache \<Rightarrow> features list \<times> dict_cache" where
  \<comment> \<open>\<open>range(0, total, n)\<close> for a positive chunk size\<close>
  "run_chunks log2 n rs cache =
     (if rs = [] \<or> n = 0 then ([], cache)
      else let (ds, cache) = extract_chunk log2 (take n rs) cache;
               (es, cache) = run_chunks log2 n (drop n rs) cache
           in (ds @ es, cache))"
  by pat_completeness auto
termination by (relation "measure (\<lambda>(l, n, rs, c). length rs)") auto

declare run_chunks.simps [simp del]

definition cached_feature_names :: "(rat \<Rightarrow> rat) \<Rightarrow> dict_cache \<Rightarrow> string list" where
  "cached_feature_names log2 cache = map fst (fst (cached_extract log2 ''http://example.com'' cache))"

subsection \<open>Feature selection\<close>

definition META_COLS :: "string list" where
  "META_COLS = [''url'', ''label'', ''source'']"

datatype drop_reason = ExplicitDrop | NonNumeric | LowVariance | HighCorrelation string

type_synonym selection = "string list \<times> (string \<times> drop_reason) list"

fun explicit_drops :: "string list \<Rightarrow> selection \<Rightarrow> selection" where
  "explicit_drops [] sel = sel"
| "explicit_drops (f # fs) (cands, dropped) =
     explicit_drops fs (if f \<in> set cands then (remove1 f cands, dropped @ [(f, ExplicitDrop)]) else (cands, dropped))"

definition drop_where :: "(string \<Rightarrow> bool) \<Rightarrow> drop_reason \<Rightarrow> selection \<Rightarrow> selection" where
  "drop_where p why sel =
     (let (cands, dropped) = sel
      in (filter (\<lambda>c. \<not> p c) cands, dropped @ map (\<lambda>c. (c, why)) (filter p cands)))"

fun correlation_drops ::
  "(string \<Rightarrow> string \<Rightarrow> bool) \<Rightarrow> string list \<Rightarrow> (string \<times> drop_reason) list \<Rightarrow> (string \<times> drop_reason) list" where
  "correlation_drops high [] dropped = dropped"
| "correlation_drops high (c # cs) dropped =
     correlation_drops high cs
       (if c \<in> fst ` set dropped then dropped
        else dropped @ map (\<lambda>d. (d, HighCorrelation c))
               (filter (\<lambda>d. d \<notin> fst ` set dropped \<and> high c d) cs))"

text \<open>
  The first \<open>fit\<close> of a selector, as the selection script calls it: \<open>self.dropped\<close>, which \<open>fit\<close> does not
  reset, starts empty.
\<close>

definition selector_fit ::
  "string list \<Rightarrow> (string \<Rightarrow> bool) \<Rightarrow> (string \<Rightarrow> rat option) \<Rightarrow> rat \<Rightarrow> (string \<Rightarrow> string \<Rightarrow> rat option) \<Rightarrow> rat
     \<Rightarrow> string list \<Rightarrow> selection" where
  \<comment> \<open>\<open>FeatureSelector.fit\<close>: the retained features and the dropped ones with the reason\<close>
  "selector_fit drops numeric var var_threshold corr corr_threshold columns =
     (let start = filter (\<lambda>c. c \<notin> set META_COLS) columns;
          low = (\<lambda>c. case var c of Some v \<Rightarrow> v \<le> var_threshold | None \<Rightarrow> False);
          high = (\<lambda>c d. case corr c d of Some v \<Rightarrow> v \<ge> corr_threshold | None \<Rightarrow> False);
          (cands, dropped) = drop_where low LowVariance
             (drop_where (\<lambda>c. \<not> numeric c) NonNumeric (explicit_drops drops (start, [])));
          corr_dropped = correlation_drops high cands []
      in (filter (\<lambda>c. c \<notin> fst ` set corr_dropped) cands, dropped @ corr_dropped))"

definition selector_transform :: "string list \<Rightarrow> string list \<Rightarrow> string list option" where
  \<comment> \<open>the columns kept; \<open>None\<close> is the \<open>RuntimeError\<close> of a selector that was not fitted\<close>
  "selector_transform retained columns =
     (if retained = [] then None
      else Some (filter (\<lambda>c. c \<in> set columns) retained @ filter (\<lambda>c. c \<in> set columns) META_COLS))"


subsection \<open>What the validator can report\<close>

lemma add_new_simps: "set (add_new k acc) = insert k (set acc)" "distinct acc \<Longrightarrow> distinct (add_new k acc)"
  by (auto simp: add_new_def)

lemma fold_add_new: "set ks \<subseteq> set acc \<Longrightarrow> fold add_new ks acc = acc"
  by (induction ks) (auto simp: add_new_def)

lemma fold_add_new_append: "distinct (acc @ ks) \<Longrightarrow> fold add_new ks acc = acc @ ks"
  by (induction ks arbitrary: acc) (auto simp: add_new_def)

lemma same_columns:
  assumes "list_all (\<lambda>d. map fst d = ks) ds" "distinct ks" "ds \<noteq> []"
  shows "fr_columns (frame_of ds) = ks"
proof -
  obtain d es where ds: "ds = d # es"
    using assms(3) by (cases ds) auto
  have "set (concat (map (map fst) es)) \<subseteq> set ks"
    using assms(1) by (auto simp: ds list_all_iff)
  then have "fold add_new (concat (map (map fst) es)) ks = ks"
    by (rule fold_add_new)
  moreover have "fold add_new (map fst d) [] = ks"
    using fold_add_new_append [of "[]" ks] assms(1, 2) by (simp add: ds)
  ultimately show ?thesis
    by (simp add: frame_of_def Let_def ds)
qed

lemma frame_items_of: "frame_items (frame_of ds) = map (\<lambda>k. (k, map (\<lambda>d. map_of d k) ds)) (fr_columns (frame_of ds))"
  by (intro nth_equalityI) (simp_all add: frame_items_def frame_of_def Let_def comp_def)

definition expected_issue :: "issue \<Rightarrow> bool" where
  "expected_issue i = (case i of ConstantIssue c \<Rightarrow> True | CorrelationIssue c d \<Rightarrow> True | _ \<Rightarrow> False)"

lemma no_duplicates: "distinct ks \<Longrightarrow> set seen \<inter> set ks = {} \<Longrightarrow> duplicate_columns seen ks = []"
  by (induction ks arbitrary: seen) auto

lemma correlated_pairs_expected: "list_all expected_issue (correlated_pairs corr ks)"
  by (induction ks) (auto simp: list_all_iff expected_issue_def)

lemma report_count_zero [simp]: "report_count mk 0 = []"
  by (simp add: report_count_def)

lemma outside_none: "(\<And>c q. c \<in> set col \<Longrightarrow> cell_number c = Some q \<Longrightarrow> \<not> bad q) \<Longrightarrow> outside bad col = 0"
  by (auto simp: outside_def filter_empty_conv split: option.splits)

lemma validator_kinds:
  "list_all (\<lambda>n. list_ex (\<lambda>r. fst r = n \<and> kind_of r = Ratio) FEATURE_REGISTRY) RATIO_FEATURES"
  "list_all (\<lambda>n. list_ex (\<lambda>r. fst r = n \<and> kind_of r = Count) FEATURE_REGISTRY) COUNT_FEATURES"
  by code_simp+

lemma ratio_value: "value_ok Ratio v \<Longrightarrow> cell_number (Some v) = Some q \<Longrightarrow> 0 \<le> q \<and> q \<le> 1"
  by (cases v) (auto simp: cell_number_def)

lemma count_value: "value_ok Count v \<Longrightarrow> cell_number (Some v) = Some q \<Longrightarrow> 0 \<le> q"
  by (cases v) (auto simp: cell_number_def)

lemma extracted_cell:
  assumes "list_ex (\<lambda>r. fst r = n \<and> kind_of r = k) FEATURE_REGISTRY"
  obtains v where "map_of (extract_features log2 url) n = Some v" "value_ok k v"
proof -
  obtain r where "r \<in> set FEATURE_REGISTRY" "fst r = n" "kind_of r = k"
    using assms by (auto simp: list_ex_iff)
  then show ?thesis
    using that extracted_value [of r log2 url] by metis
qed

lemma extracted_keys: "map fst (extract_features log2 url) = registered_names"
  using collected_typing(1) zero_vector_typing(1) by (simp add: extract_features_def split: option.splits)

text \<open>
  On a matrix of extracted features the validator can only report constant columns and highly
  correlated pairs: there are no null values, ratios and counts are in range and no column name
  occurs twice, whatever the URLs were.
\<close>
theorem extracted_matrix_in_range:
  "list_all expected_issue (validate_frame corr (frame_of (map (extract_features log2) urls)))"
proof (cases "urls = []")
  case True
  then show ?thesis
    by (simp add: validate_frame_def check_nulls_def check_constants_def check_ranges_def frame_items_def frame_of_def
        Let_def list_all_iff)
next
  case False
  let ?f = "frame_of (map (extract_features log2) urls)"
  have cols: "fr_columns ?f = registered_names"
    using False part_names(5) by (intro same_columns) (simp_all add: list_all_iff extracted_keys)
  have items: "frame_items ?f = map (\<lambda>k. (k, map (\<lambda>u. map_of (extract_features log2 u) k) urls)) registered_names"
    by (simp add: frame_items_of cols comp_def)
  have col: "map_of (frame_items ?f) n = Some (map (\<lambda>u. map_of (extract_features log2 u) n) urls)"
    if "n \<in> set registered_names" for n
    using that unfolding items by (rule map_of_tabulate)
  have nulls: "check_nulls ?f = []"
  proof -
    have "map_of (extract_features log2 u) k \<noteq> None \<and> None \<noteq> map_of (extract_features log2 u) k"
      if "k \<in> set registered_names" for u k
      using that extracted_keys [of log2 u] by (metis map_of_eq_None_iff set_map)
    then show ?thesis
      by (auto simp: check_nulls_def items report_count_def filter_empty_conv)
  qed
  have known: "n \<in> set registered_names"
    if "list_ex (\<lambda>r. fst r = n \<and> kind_of r = k) FEATURE_REGISTRY" for n k
    using that by (auto simp: list_ex_iff registered_names_def)
  have zr: "outside (\<lambda>q. q < 0 \<or> q > 1) (map (\<lambda>u. map_of (extract_features log2 u) n) urls) = 0"
    if "list_ex (\<lambda>r. fst r = n \<and> kind_of r = Ratio) FEATURE_REGISTRY" for n
    using extracted_cell [OF that, of log2] ratio_value
    by (intro outside_none) (auto simp: not_less, (metis option.inject)+)
  have zc: "outside (\<lambda>q. q < 0) (map (\<lambda>u. map_of (extract_features log2 u) n) urls) = 0"
    if "list_ex (\<lambda>r. fst r = n \<and> kind_of r = Count) FEATURE_REGISTRY" for n
    using extracted_cell [OF that, of log2] count_value
    by (intro outside_none) (auto simp: not_less, metis option.inject)
  have r: "(case map_of (frame_items ?f) n of None \<Rightarrow> []
      | Some col \<Rightarrow> report_count (RatioIssue n) (outside (\<lambda>q. q < 0 \<or> q > 1) col)) = []" if "n \<in> set RATIO_FEATURES" for n
  proof -
    have "list_ex (\<lambda>r. fst r = n \<and> kind_of r = Ratio) FEATURE_REGISTRY"
      using validator_kinds(1) that by (simp only: list_all_iff)
    then show ?thesis
      by (simp only: col [OF known] zr option.case report_count_zero)
  qed
  have c: "(case map_of (frame_items ?f) n of None \<Rightarrow> []
      | Some col \<Rightarrow> report_count (NegativeIssue n) (outside (\<lambda>q. q < 0) col)) = []" if "n \<in> set COUNT_FEATURES" for n
  proof -
    have "list_ex (\<lambda>r. fst r = n \<and> kind_of r = Count) FEATURE_REGISTRY"
      using validator_kinds(2) that by (simp only: list_all_iff)
    then show ?thesis
      by (simp only: col [OF known] zc option.case report_count_zero)
  qed
  have ranges: "check_ranges ?f = []"
    unfolding check_ranges_def by (simp only: append_is_Nil_conv concat_eq_Nil_conv set_map) (blast intro: r c)
  have "list_all expected_issue (check_constants ?f)"
    by (auto simp: check_constants_def list_all_iff expected_issue_def)
  then show ?thesis
    using nulls ranges no_duplicates [of registered_names "[]"] part_names(5) correlated_pairs_expected
    by (simp add: validate_frame_def cols)
qed


subsection \<open>The extraction loop\<close>

definition row_meta :: "source_row \<Rightarrow> features" where
  "row_meta r = [(''url'', CStr (sr_url r)), (''label'', CStr (sr_label r)), (''source'', CStr (sr_source r))]"

definition tagged :: "(rat \<Rightarrow> rat) \<Rightarrow> string \<Rightarrow> features \<Rightarrow> bool" where
  "tagged log2 u d \<longleftrightarrow> d = extract_features log2 u \<or> (\<exists>r. d = extract_features log2 u @ row_meta r)"

definition cache_ok :: "(rat \<Rightarrow> rat) \<Rightarrow> dict_cache \<Rightarrow> bool" where
  "cache_ok log2 cache \<longleftrightarrow> (\<forall>(u, d)\<in>set cache. tagged log2 u d)"

lemma meta_not_registered: "list_all (\<lambda>k. k \<notin> set registered_names) META_COLS"
  by code_simp

lemma update_append: "k \<notin> fst ` set d \<Longrightarrow> AList.update k v (d @ e) = d @ AList.update k v e"
  by (induction d) auto

lemma tag_row_tagged: "tagged log2 u d \<Longrightarrow> tag_row r d = extract_features log2 u @ row_meta r"
proof -
  assume t: "tagged log2 u d"
  have "fst ` set (extract_features log2 u) = set registered_names"
    using extracted_keys [of log2 u] by (metis list.set_map)
  then have "k \<notin> fst ` set (extract_features log2 u)" if "k \<in> set META_COLS" for k
    using that meta_not_registered by (auto simp: list_all_iff)
  then have new: "''url'' \<notin> fst ` set (extract_features log2 u)" "''label'' \<notin> fst ` set (extract_features log2 u)"
      "''source'' \<notin> fst ` set (extract_features log2 u)"
    by (simp_all add: META_COLS_def)
  obtain m where m: "d = extract_features log2 u @ m" "m = [] \<or> (\<exists>r. m = row_meta r)"
    using t by (auto simp: tagged_def)
  have "tag_row r d = extract_features log2 u @ tag_row r m"
    by (simp add: tag_row_def m(1) update_append new)
  moreover have "tag_row r m = row_meta r"
    using m(2) by (auto simp: tag_row_def row_meta_def)
  ultimately show ?thesis by simp
qed

lemma cache_ok_simps:
  "cache_ok log2 (e # cache) \<longleftrightarrow> tagged log2 (fst e) (snd e) \<and> cache_ok log2 cache"
  "cache_ok log2 cache \<Longrightarrow> cache_ok log2 (take n cache)"
  "cache_ok log2 cache \<Longrightarrow> cache_ok log2 (filter p cache)"
  by (auto simp: cache_ok_def dest!: in_set_takeD)

lemma cached_extract_ok:
  assumes "cache_ok log2 cache"
  shows "tagged log2 u (fst (cached_extract log2 u cache))" "cache_ok log2 (snd (cached_extract log2 u cache))"
proof -
  have hit: "tagged log2 u d" if "map_of cache u = Some d" for d
    using assms map_of_SomeD [OF that] by (auto simp: cache_ok_def)
  have new: "tagged log2 u (extract_features log2 u)"
    by (simp add: tagged_def)
  show "tagged log2 u (fst (cached_extract log2 u cache))"
    using hit new by (simp add: cached_extract_def Let_def split: option.splits)
  show "cache_ok log2 (snd (cached_extract log2 u cache))"
    unfolding cached_extract_def Let_def using assms hit new
    by (cases "map_of cache u") (simp_all only: option.case snd_conv fst_conv cache_ok_simps)
qed

lemma extract_row_ok:
  assumes "cache_ok log2 cache"
  shows "fst (extract_row log2 r cache) = extract_features log2 (sr_url r) @ row_meta r"
    "cache_ok log2 (snd (extract_row log2 r cache))"
  using cached_extract_ok [OF assms, of "sr_url r"]
  by (auto simp: extract_row_def Let_def case_prod_beta tag_row_tagged cache_ok_def tagged_def split: if_splits)

lemma extract_chunk_ok:
  "cache_ok log2 cache \<Longrightarrow>
   fst (extract_chunk log2 rs cache) = map (\<lambda>r. extract_features log2 (sr_url r) @ row_meta r) rs
   \<and> cache_ok log2 (snd (extract_chunk log2 rs cache))"
  by (induction rs arbitrary: cache) (simp_all add: Let_def case_prod_beta extract_row_ok)

lemma run_chunks_ok:
  "cache_ok log2 cache \<Longrightarrow> 0 < n \<Longrightarrow>
   fst (run_chunks log2 n rs cache) = map (\<lambda>r. extract_features log2 (sr_url r) @ row_meta r) rs"
proof (induction log2 n rs cache rule: run_chunks.induct)
  case (1 log2 n rs cache)
  show ?case
  proof (cases "rs = []")
    case True
    then show ?thesis by (simp add: run_chunks.simps)
  next
    case False
    obtain ds c where c: "extract_chunk log2 (take n rs) cache = (ds, c)"
      by (cases "extract_chunk log2 (take n rs) cache")
    have ds: "ds = map (\<lambda>r. extract_features log2 (sr_url r) @ row_meta r) (take n rs)" "cache_ok log2 c"
      using extract_chunk_ok [OF "1.prems"(1), of "take n rs"] by (simp_all add: c)
    have "fst (run_chunks log2 n (drop n rs) c) = map (\<lambda>r. extract_features log2 (sr_url r) @ row_meta r) (drop n rs)"
      using "1.IH" [OF _ c [symmetric]] False "1.prems"(2) ds(2) by simp
    then have "fst (run_chunks log2 n rs cache) =
        map (\<lambda>r. extract_features log2 (sr_url r) @ row_meta r) (take n rs)
        @ map (\<lambda>r. extract_features log2 (sr_url r) @ row_meta r) (drop n rs)"
      using False "1.prems"(2) by (subst run_chunks.simps) (simp add: c ds(1) case_prod_beta)
    then show ?thesis
      by (simp only: map_append [symmetric] append_take_drop_id)
  qed
qed

text \<open>
  C30: Although rows with the same URL share one mutable dict of the extractor's cache, the batch pipeline
  yields for every row the features of its URL followed by its own URL, label and source, for every
  chunk size and whatever the cache evicts.
\<close>
theorem pipeline_rows_exact:
  "fst (run_chunks log2 (Suc n) rs []) = map (\<lambda>r. extract_features log2 (sr_url r) @ row_meta r) rs"
  by (rule run_chunks_ok) (simp_all add: cache_ok_def)

theorem feature_names_polluted:
  \<comment> \<open>a row whose URL is the sample URL leaves its own columns in the cached dict\<close>
  "cached_feature_names log2 (snd (extract_row log2 (r\<lparr>sr_url := ''http://example.com''\<rparr>) [])) =
     registered_names @ META_COLS"
proof -
  let ?u = "''http://example.com''" and ?r = "r\<lparr>sr_url := ''http://example.com''\<rparr>"
  have "tag_row ?r (extract_features log2 ?u) = extract_features log2 ?u @ row_meta ?r"
    by (rule tag_row_tagged) (simp add: tagged_def)
  then have "snd (extract_row log2 ?r []) = [(?u, extract_features log2 ?u @ row_meta ?r)]"
    by (simp add: extract_row_def cached_extract_def CACHE_SIZE_def Let_def)
  then show ?thesis
    by (simp add: cached_feature_names_def cached_extract_def extracted_keys row_meta_def META_COLS_def)
qed


subsection \<open>Feature selection\<close>

lemma explicit_drops_mset:
  "mset (fst (explicit_drops fs (cands, dropped))) + mset (map fst (snd (explicit_drops fs (cands, dropped)))) =
   mset cands + mset (map fst dropped)"
  by (induction fs arbitrary: cands dropped) (simp_all del: mset_map add: mset_map [symmetric])

lemma explicit_drops_kept:
  "distinct cands \<Longrightarrow> fst (explicit_drops fs (cands, dropped)) = filter (\<lambda>c. c \<notin> set fs) cands"
proof (induction fs arbitrary: cands dropped)
  case (Cons f fs)
  have "filter (\<lambda>c. c \<notin> set fs) (remove1 f cands) = filter (\<lambda>c. c \<notin> set (f # fs)) cands"
    using Cons.prems by (auto simp: distinct_remove1_removeAll removeAll_filter_not_eq intro!: filter_cong)
  moreover have "filter (\<lambda>c. c \<notin> set fs) cands = filter (\<lambda>c. c \<notin> set (f # fs)) cands" if "f \<notin> set cands"
    using that by (auto intro!: filter_cong)
  ultimately show ?case
    using Cons by (simp add: distinct_remove1)
qed simp

lemma drop_where_mset:
  "mset (fst (drop_where p why sel)) + mset (map fst (snd (drop_where p why sel))) =
   mset (fst sel) + mset (map fst (snd sel))"
proof -
  have "mset (filter (\<lambda>c. \<not> p c) cs) + mset (filter p cs) = mset cs" for cs
    using multiset_partition [of "mset cs" p] by (simp add: mset_filter add.commute)
  then show ?thesis
    by (simp add: drop_where_def case_prod_beta Let_def comp_def add.assoc)
qed

definition new_drops ::
  "(string \<Rightarrow> string \<Rightarrow> bool) \<Rightarrow> string \<Rightarrow> string list \<Rightarrow> (string \<times> drop_reason) list \<Rightarrow> (string \<times> drop_reason) list" where
  "new_drops high c cs D =
     (if c \<in> fst ` set D then []
      else map (\<lambda>d. (d, HighCorrelation c)) (filter (\<lambda>d. d \<notin> fst ` set D \<and> high c d) cs))"

lemma correlation_step: "correlation_drops high (c # cs) D = correlation_drops high cs (D @ new_drops high c cs D)"
  by (simp add: new_drops_def)

lemma new_drops_facts:
  "fst ` set (new_drops high c cs D) \<subseteq> set cs - fst ` set D"
  "(d, why) \<in> set (new_drops high c cs D) \<Longrightarrow> c \<notin> fst ` set D \<and> why = HighCorrelation c \<and> high c d"
  "distinct cs \<Longrightarrow> distinct (map fst (new_drops high c cs D))"
  by (auto simp: new_drops_def comp_def image_iff split: if_splits)

lemma new_drops_hit:
  assumes "c \<notin> fst ` set D" "d \<in> set cs" "high c d" shows "d \<in> fst ` set (D @ new_drops high c cs D)"
proof (cases "d \<in> fst ` set D")
  case False
  then have "(d, HighCorrelation c) \<in> set (new_drops high c cs D)"
    using assms by (simp add: new_drops_def)
  then have "fst (d, HighCorrelation c) \<in> fst ` set (new_drops high c cs D)"
    by (rule imageI)
  then show ?thesis by (simp add: image_Un)
qed (simp add: image_Un)

lemma correlation_drops_grow:
  "\<exists>E. correlation_drops high cs D = D @ E \<and> fst ` set E \<subseteq> set cs"
proof (induction cs arbitrary: D)
  case (Cons c cs)
  let ?new = "new_drops high c cs D"
  obtain E where "correlation_drops high cs (D @ ?new) = (D @ ?new) @ E" "fst ` set E \<subseteq> set cs"
    using Cons.IH by blast
  then have "correlation_drops high (c # cs) D = D @ (?new @ E)" "fst ` set (?new @ E) \<subseteq> set (c # cs)"
    using new_drops_facts(1) [of high c cs D] unfolding correlation_step by auto
  then show ?case by blast
qed simp

lemma correlation_drops_distinct:
  "distinct (map fst D) \<Longrightarrow> distinct cs \<Longrightarrow> distinct (map fst (correlation_drops high cs D))"
proof (induction cs arbitrary: D)
  case (Cons c cs)
  have "distinct (map fst (D @ new_drops high c cs D))"
    using Cons.prems new_drops_facts(1) [of high c cs D] new_drops_facts(3) [of cs high c D] by auto
  then show ?case
    using Cons unfolding correlation_step by simp
qed simp

lemma correlation_drops_separated:
  "sorted_wrt (\<lambda>c d. \<not> high c d) (filter (\<lambda>c. c \<notin> fst ` set (correlation_drops high cs D)) cs)"
proof (induction cs arbitrary: D)
  case (Cons c cs)
  let ?D = "D @ new_drops high c cs D"
  let ?R = "correlation_drops high cs ?D"
  have keys: "fst ` set ?D \<subseteq> fst ` set ?R"
    using correlation_drops_grow [of high cs ?D] by auto
  have "\<not> high c d" if "c \<notin> fst ` set ?R" "d \<in> set cs" "d \<notin> fst ` set ?R" for d
    using that keys new_drops_hit [where c = c and D = D and d = d and cs = cs and high = high] by auto
  then show ?case
    using Cons.IH [of ?D] unfolding correlation_step by simp
qed simp

lemma correlation_drops_justified:
  "distinct cs \<Longrightarrow> (d, why) \<in> set (correlation_drops high cs D) \<Longrightarrow>
   (d, why) \<in> set D \<or> (\<exists>c. why = HighCorrelation c \<and> c \<in> set cs \<and> high c d
      \<and> c \<notin> fst ` set (correlation_drops high cs D))"
proof (induction cs arbitrary: D)
  case (Cons c cs)
  let ?R = "correlation_drops high cs (D @ new_drops high c cs D)"
  consider "(d, why) \<in> set D" | "(d, why) \<in> set (new_drops high c cs D)"
    | c' where "why = HighCorrelation c'" "c' \<in> set cs" "high c' d" "c' \<notin> fst ` set ?R"
    using Cons.IH [of "D @ new_drops high c cs D"] Cons.prems unfolding correlation_step by auto
  then show ?case
  proof cases
    case 2
    obtain E where E: "?R = (D @ new_drops high c cs D) @ E" "fst ` set E \<subseteq> set cs"
      using correlation_drops_grow by blast
    have "c \<notin> fst ` set ?R"
      using new_drops_facts(1) [of high c cs D] new_drops_facts(2) [OF 2] Cons.prems(1) E(2)
      unfolding E(1) by auto
    then show ?thesis
      using new_drops_facts(2) [OF 2] unfolding correlation_step by (metis list.set_intros(1))
  next
    case (3 c')
    then show ?thesis
      unfolding correlation_step by (metis list.set_intros(2))
  qed simp
qed simp

definition justified_drop ::
  "(string \<Rightarrow> string \<Rightarrow> bool) \<Rightarrow> string list \<Rightarrow> string \<times> drop_reason \<Rightarrow> bool" where
  "justified_drop high retained x =
     (case snd x of HighCorrelation c \<Rightarrow> c \<in> set retained \<and> high c (fst x) | _ \<Rightarrow> True)"


lemma selector_stages:
  assumes d: "distinct columns"
    and fit: "selector_fit drops numeric var vt corr ct columns = (retained, dropped)"
    and high: "high = (\<lambda>c d. case corr c d of Some v \<Rightarrow> v \<ge> ct | None \<Rightarrow> False)"
  obtains cands early where "distinct cands"
    "mset cands + mset (map fst early) = mset (filter (\<lambda>c. c \<notin> set META_COLS) columns)"
    "list_all (\<lambda>c. numeric c \<and> c \<notin> set drops) cands"
    "list_all (\<lambda>(d, why). case why of HighCorrelation c \<Rightarrow> False | _ \<Rightarrow> True) early"
    "retained = filter (\<lambda>c. c \<notin> fst ` set (correlation_drops high cands [])) cands"
    "dropped = early @ correlation_drops high cands []"
proof -
  let ?start = "filter (\<lambda>c. c \<notin> set META_COLS) columns"
  define s1 where "s1 = explicit_drops drops (?start, [])"
  define s2 where "s2 = drop_where (\<lambda>c. \<not> numeric c) NonNumeric s1"
  define s3 where "s3 = drop_where (\<lambda>c. case var c of Some v \<Rightarrow> v \<le> vt | None \<Rightarrow> False) LowVariance s2"
  have s1: "fst s1 = filter (\<lambda>c. c \<notin> set drops) ?start"
    using d by (simp add: s1_def explicit_drops_kept)
  have m: "mset (fst s3) + mset (map fst (snd s3)) = mset ?start"
    using explicit_drops_mset [of drops ?start "[]"] unfolding s3_def s2_def drop_where_mset s1_def by simp
  have "distinct (fst s3)" "list_all (\<lambda>c. numeric c \<and> c \<notin> set drops) (fst s3)"
    using d by (auto simp: s3_def s2_def drop_where_def case_prod_beta Let_def s1 list_all_iff)
  moreover have "list_all (\<lambda>(d, why). case why of HighCorrelation c \<Rightarrow> False | _ \<Rightarrow> True) (snd s3)"
  proof -
    have "list_all (\<lambda>(d, why). case why of HighCorrelation c \<Rightarrow> False | _ \<Rightarrow> True) (snd (explicit_drops fs (cs, ds)))"
      if "list_all (\<lambda>(d, why). case why of HighCorrelation c \<Rightarrow> False | _ \<Rightarrow> True) ds" for fs cs ds
      using that by (induction fs arbitrary: cs ds) auto
    from this [of "[]" drops ?start] show ?thesis
      by (auto simp: s3_def s2_def s1_def drop_where_def case_prod_beta Let_def list_all_iff)
  qed
  moreover have "retained = filter (\<lambda>c. c \<notin> fst ` set (correlation_drops high (fst s3) [])) (fst s3)"
      "dropped = snd s3 @ correlation_drops high (fst s3) []"
    using fit unfolding s3_def s2_def s1_def high by (simp_all add: selector_fit_def Let_def case_prod_beta)
  ultimately show ?thesis
    using that m by blast
qed

text \<open>
  C31: Feature selection partitions the feature columns into retained and dropped ones, each dropped once;
  retained columns are numeric, not excluded by the configuration and pairwise below the correlation
  threshold, and whatever was dropped for a correlation is represented by a retained column.
\<close>
theorem selection_is_partition:
  assumes "distinct columns"
    and "selector_fit drops numeric var vt corr ct columns = (retained, dropped)"
    and "high = (\<lambda>c d. case corr c d of Some v \<Rightarrow> v \<ge> ct | None \<Rightarrow> False)"
  shows "mset retained + mset (map fst dropped) = mset (filter (\<lambda>c. c \<notin> set META_COLS) columns)
    \<and> sorted_wrt (\<lambda>c d. \<not> high c d) retained
    \<and> list_all (\<lambda>c. numeric c \<and> c \<notin> set drops) retained
    \<and> list_all (justified_drop high retained) dropped"
proof -
  obtain cands early where dist: "distinct cands"
    and m: "mset cands + mset (map fst early) = mset (filter (\<lambda>c. c \<notin> set META_COLS) columns)"
    and ok: "list_all (\<lambda>c. numeric c \<and> c \<notin> set drops) cands"
    and e: "list_all (\<lambda>(d, why). case why of HighCorrelation c \<Rightarrow> False | _ \<Rightarrow> True) early"
    and r: "retained = filter (\<lambda>c. c \<notin> fst ` set (correlation_drops high cands [])) cands"
    and dr: "dropped = early @ correlation_drops high cands []"
    using assms by (rule selector_stages)
  let ?D = "correlation_drops high cands []"
  have sub: "fst ` set ?D \<subseteq> set cands"
    using correlation_drops_grow [of high cands "[]"] by auto
  have "mset (map fst ?D) = mset (filter (\<lambda>c. c \<in> fst ` set ?D) cands)"
    using correlation_drops_distinct [of "[]" cands high] dist sub
    by (intro set_eq_iff_mset_eq_distinct [THEN iffD1]) auto
  then have "mset retained + mset (map fst ?D) = mset cands"
    using multiset_partition [of "mset cands" "\<lambda>c. c \<in> fst ` set ?D"] by (simp add: r mset_filter add.commute)
  then have "mset retained + mset (map fst dropped) = mset cands + mset (map fst early)"
    by (simp add: dr add.left_commute add.commute del: mset_map)
  moreover have "list_all (justified_drop high retained) dropped"
  proof -
    have "justified_drop high retained (d, why)" if "(d, why) \<in> set early" for d why
      using e that by (auto simp: list_all_iff justified_drop_def split: drop_reason.splits)
    moreover have "justified_drop high retained (d, why)" if "(d, why) \<in> set ?D" for d why
      using correlation_drops_justified [OF dist that] by (auto simp: r justified_drop_def)
    ultimately show ?thesis
      by (auto simp: dr list_all_iff)
  qed
  moreover have "sorted_wrt (\<lambda>c d. \<not> high c d) retained"
    unfolding r by (rule correlation_drops_separated)
  moreover have "list_all (\<lambda>c. numeric c \<and> c \<notin> set drops) retained"
    using ok by (simp add: r list_all_iff)
  ultimately show ?thesis
    using m by simp
qed

theorem selection_is_partition_witness:
  "mset [''a'', ''c''] + mset (map fst [(''x'', ExplicitDrop), (''t'', NonNumeric), (''k'', LowVariance), (''b'', HighCorrelation ''a'')])
     = mset (filter (\<lambda>c. c \<notin> set META_COLS) [''a'', ''x'', ''b'', ''t'', ''k'', ''c'', ''url'', ''label'', ''source''])"
proof -
  let ?cols = "[''a'', ''x'', ''b'', ''t'', ''k'', ''c'', ''url'', ''label'', ''source'']"
  let ?corr = "\<lambda>c d. if c = ''a'' \<and> d = ''b'' then Some 1 else if c = ''k'' then None else Some (1 / 2 :: rat)"
  have fit: "selector_fit [''x''] (\<lambda>c. c \<noteq> ''t'') (\<lambda>c. if c = ''k'' then Some 0 else Some (1 :: rat)) 0 ?corr (98 / 100) ?cols
      = ([''a'', ''c''], [(''x'', ExplicitDrop), (''t'', NonNumeric), (''k'', LowVariance), (''b'', HighCorrelation ''a'')])"
    by code_simp
  have "distinct ?cols"
    by code_simp
  from selection_is_partition [OF this fit refl] show ?thesis
    by blast
qed

end
