(* ===== verification/Datasets.thy ===== *)
theory Datasets
  imports Learning IpText
begin

text \<open>
  Dataset preparation: \<open>src/data/clean.py\<close>, \<open>merge.py\<close> and \<open>validate.py\<close>, the train, validation and test
  splits of \<open>ml/datasets/splitter.py\<close> and the thresholds of \<open>ml/models/thresholds.py\<close>.  What
  \<open>pandas.read_csv\<close> makes of a file is a frame of optional strings, \<open>None\<close> for NaN; the text of a cell
  is what \<open>astype(str)\<close> yields.  Whether a cell is numeric, the validity of a URL, the shuffling, the
  stratified split, the encoding of a split and its SHA-256 digest are parameters.
\<close>

subsection \<open>Cleaning\<close>

record csv =
  cs_columns :: "string list"
  cs_rows :: "string option list list"

record clean_row =
  cr_url :: string
  cr_label :: string
  cr_source :: string

definition URL_COLUMN_ALIASES :: "string list" where
  "URL_COLUMN_ALIASES = [''url'', ''URL'', ''domain'', ''Domain'', ''website'', ''Website'',
     ''address'', ''Address'', ''link'', ''Link'', ''hostname'', ''Hostname'']"

definition LABEL_COLUMN_ALIASES :: "string list" where
  "LABEL_COLUMN_ALIASES = [''label'', ''Label'', ''type'', ''Type'', ''class'', ''Class'',
     ''status'', ''Status'', ''tag'', ''Tag'', ''result'', ''Result'']"

definition find_column :: "string list \<Rightarrow> string list \<Rightarrow> string option" where
  "find_column cols aliases =
     (case find (\<lambda>a. a \<in> set cols) aliases of
        Some a \<Rightarrow> Some a
      | None \<Rightarrow>
          let lower_cols = map_of (rev (map (\<lambda>c. (str_lower c, c)) cols))
          in case find (\<lambda>a. lower_cols (str_lower a) \<noteq> None) aliases of
               Some a \<Rightarrow> lower_cols (str_lower a) | None \<Rightarrow> None)"

definition ranked :: "(string option \<Rightarrow> bool) \<Rightarrow> csv \<Rightarrow> bool" where
  \<comment> \<open>at least two columns and more than 95 percent numbers in the first; the mean over no rows is NaN\<close>
  "ranked number f =
     (length (cs_columns f) \<ge> 2 \<and> cs_rows f \<noteq> []
      \<and> 100 * length (filter (\<lambda>r. number (r ! 0)) (cs_rows f)) > 95 * length (cs_rows f))"

definition rank_format :: "(string option \<Rightarrow> bool) \<Rightarrow> csv \<Rightarrow> csv" where
  "rank_format number f =
     (if ranked number f then
        let a = cs_columns f ! 0; b = cs_columns f ! 1;
            cols = map (\<lambda>c. if c = b then ''url'' else if c = a then ''rank'' else c) (cs_columns f)
        in if ''label'' \<in> set cols then f\<lparr>cs_columns := cols\<rparr>
           else \<lparr>cs_columns = cols @ [''label''], cs_rows = map (\<lambda>r. r @ [Some ''legitimate'']) (cs_rows f)\<rparr>
      else f)"

definition cell_text :: "string option \<Rightarrow> string" where
  "cell_text c = (case c of None \<Rightarrow> ''nan'' | Some s \<Rightarrow> s)"

definition column_index :: "csv \<Rightarrow> string \<Rightarrow> nat" where
  "column_index f c = length (takeWhile (\<lambda>x. x \<noteq> c) (cs_columns f))"

definition label_map :: "string \<Rightarrow> string" where
  "label_map l =
     (if l \<in> {''phishing'', ''bad'', ''malicious'', ''1'', ''spam''} then ''phishing''
      else if l \<in> {''legitimate'', ''good'', ''benign'', ''0'', ''clean''} then ''legitimate'' else l)"

fun drop_duplicates :: "('a \<Rightarrow> 'b) \<Rightarrow> 'b list \<Rightarrow> 'a list \<Rightarrow> 'a list" where
  \<comment> \<open>the first row of each key is kept\<close>
  "drop_duplicates key seen [] = []"
| "drop_duplicates key seen (x # xs) =
     (if key x \<in> set seen then drop_duplicates key seen xs else x # drop_duplicates key (key x # seen) xs)"

datatype 'a result = Failed | Crashed | Done 'a

definition working_rows :: "csv \<Rightarrow> string \<Rightarrow> string option \<Rightarrow> string \<Rightarrow> string \<Rightarrow> clean_row list" where
  "working_rows f url_col label_col label_hint name =
     map (\<lambda>r. \<lparr>cr_url = str_strip (cell_text (r ! column_index f url_col)),
                cr_label = (case label_col of None \<Rightarrow> label_hint
                   | Some c \<Rightarrow> str_lower (str_strip (cell_text (r ! column_index f c)))),
                cr_source = name\<rparr>) (cs_rows f)"

definition clean_rows :: "clean_row list \<Rightarrow> clean_row list" where
  "clean_rows rows =
     map (\<lambda>r. r\<lparr>cr_label := label_map (cr_label r)\<rparr>)
       (drop_duplicates cr_url [] (filter (\<lambda>r. cr_url r \<noteq> [] \<and> cr_url r \<noteq> ''nan'') rows))"

definition clean_single :: "(string option \<Rightarrow> bool) \<Rightarrow> string \<Rightarrow> string \<Rightarrow> csv option \<Rightarrow> clean_row list result" where
  \<comment> \<open>\<open>Failed\<close>: the file is skipped; \<open>Crashed\<close>: a column selected by name occurs twice, and the string methods
    of a \<open>DataFrame\<close> raise \<open>AttributeError\<close> outside every \<open>try\<close>\<close>
  "clean_single number name label_hint csv_file =
     (case csv_file of
        None \<Rightarrow> Failed
      | Some f0 \<Rightarrow>
          let f = rank_format number f0
          in case find_column (cs_columns f) URL_COLUMN_ALIASES of
               None \<Rightarrow> Failed
             | Some u \<Rightarrow>
                 let lc = find_column (cs_columns f) LABEL_COLUMN_ALIASES;
                     twice = (\<lambda>c. length (filter (\<lambda>x. x = c) (cs_columns f)) > 1)
                 in if twice u \<or> (case lc of None \<Rightarrow> False | Some c \<Rightarrow> twice c) then Crashed
                    else Done (clean_rows (working_rows f u lc label_hint name)))"

subsection \<open>Merging\<close>

definition SCHEMA_COLUMNS :: "string list" where
  "SCHEMA_COLUMNS = [''url'', ''label'', ''source'']"

definition schema_part :: "csv \<Rightarrow> string option list list option" where
  \<comment> \<open>\<open>df[SCHEMA_COLUMNS]\<close>, \<open>None\<close> when a column is missing\<close>
  "schema_part f =
     (if list_all (\<lambda>c. c \<in> set (cs_columns f)) SCHEMA_COLUMNS
      then Some (map (\<lambda>r. map (\<lambda>c. r ! column_index f c) SCHEMA_COLUMNS) (cs_rows f)) else None)"

definition merge_files ::
  "(string option list list \<Rightarrow> string option list list) \<Rightarrow> csv option list \<Rightarrow> string option list list option" where
  \<comment> \<open>the files sorted by name, \<open>None\<close> one that cannot be read; no result when no frame is left\<close>
  "merge_files shuffle files =
     (let frames = List.map_filter (\<lambda>f. case f of None \<Rightarrow> None | Some c \<Rightarrow> schema_part c) files
      in if frames = [] then None else Some (shuffle (concat frames)))"

definition csv_of_rows :: "clean_row list \<Rightarrow> csv" where
  \<comment> \<open>a cleaned file as it is written\<close>
  "csv_of_rows rows =
     \<lparr>cs_columns = SCHEMA_COLUMNS, cs_rows = map (\<lambda>r. [Some (cr_url r), Some (cr_label r), Some (cr_source r)]) rows\<rparr>"

subsection \<open>Validation\<close>

definition VALID_LABELS :: "string list" where
  "VALID_LABELS = [''phishing'', ''legitimate'', ''defacement'', ''malware'']"

datatype data_issue =
    MissingColumns "string list"
  | Nulls nat string
  | UnknownLabels "string option list"
  | InvalidUrls nat
  | DuplicateUrls nat

fun count_repeats :: "'a list \<Rightarrow> 'a list \<Rightarrow> nat" where
  "count_repeats seen [] = 0"
| "count_repeats seen (x # xs) = (if x \<in> set seen then Suc (count_repeats seen xs) else count_repeats (x # seen) xs)"

definition csv_column :: "csv \<Rightarrow> string \<Rightarrow> string option list" where
  "csv_column f c = map (\<lambda>r. r ! column_index f c) (cs_rows f)"

definition validate_single ::
  "(string list \<Rightarrow> string list) \<Rightarrow> (string \<Rightarrow> bool) \<Rightarrow> csv \<Rightarrow> data_issue list" where
  \<comment> \<open>\<open>sample\<close> draws 2000 of the URLs, \<open>valid\<close> is the verdict of the \<open>validators\<close> package; status PASS is the empty list\<close>
  "validate_single sample valid f =
     (let missing = filter (\<lambda>c. c \<notin> set (cs_columns f)) SCHEMA_COLUMNS
      in if missing \<noteq> [] then [MissingColumns missing]
         else let null_counts = map (\<lambda>c. (c, length (filter (\<lambda>x. x = None) (csv_column f c)))) SCHEMA_COLUMNS;
                  bad = filter (\<lambda>l. case l of None \<Rightarrow> True | Some s \<Rightarrow> s \<notin> set VALID_LABELS) (csv_column f ''label'');
                  urls = map the (filter (\<lambda>x. x \<noteq> None) (csv_column f ''url''));
                  drawn = (if length urls > 2000 then sample urls else urls);
                  invalid = length (filter (\<lambda>u. \<not> valid u) drawn);
                  dups = count_repeats [] (csv_column f ''url'')
              in map (\<lambda>(c, n). Nulls n c) (filter (\<lambda>(c, n). n > 0) null_counts)
                 @ (if bad \<noteq> [] then [UnknownLabels (take 5 (drop_duplicates id [] bad))] else [])
                 @ (if invalid > 0 then [InvalidUrls invalid] else [])
                 @ (if dups > 0 then [DuplicateUrls dups] else []))"

subsection \<open>Splits\<close>

datatype manifest = Unreadable | Manifest "string \<rightharpoonup> string" \<comment> \<open>the checksums by file name\<close>

record 'b split_files =
  sf_train :: "'b option"
  sf_val :: "'b option"
  sf_test :: "'b option"
  sf_manifest :: "manifest option"

definition checksum_ok :: "('b \<Rightarrow> string) \<Rightarrow> (string \<rightharpoonup> string) \<Rightarrow> string \<times> 'b \<Rightarrow> bool" where
  "checksum_ok sha recorded x =
     (case recorded (fst x) of None \<Rightarrow> True | Some s \<Rightarrow> s = [] \<or> sha (snd x) = s)"

definition splits_verified :: "('b \<Rightarrow> string) \<Rightarrow> 'b split_files \<Rightarrow> bool" where
  "splits_verified sha fs =
     (case (sf_manifest fs, sf_train fs, sf_val fs, sf_test fs) of
        (Some (Manifest recorded), Some a, Some b, Some c) \<Rightarrow>
          list_all (checksum_ok sha recorded) [(''train.parquet'', a), (''val.parquet'', b), (''test.parquet'', c)]
      | _ \<Rightarrow> False)"

definition write_splits :: "('b \<Rightarrow> string) \<Rightarrow> 'b \<times> 'b \<times> 'b \<Rightarrow> 'b split_files" where
  "write_splits sha parts =
     (let (a, b, c) = parts
      in \<lparr>sf_train = Some a, sf_val = Some b, sf_test = Some c,
          sf_manifest = Some (Manifest [''train.parquet'' \<mapsto> sha a, ''val.parquet'' \<mapsto> sha b, ''test.parquet'' \<mapsto> sha c])\<rparr>)"

definition run_split :: "('b \<Rightarrow> string) \<Rightarrow> ('d \<Rightarrow> 'b \<times> 'b \<times> 'b) \<Rightarrow> bool \<Rightarrow> 'd \<Rightarrow> 'b split_files \<Rightarrow> 'b split_files" where
  \<comment> \<open>\<open>DatasetSplitter.split\<close>; \<open>partition_rows\<close> is the stratified split of the source and its encoding\<close>
  "run_split sha partition_rows force source fs =
     (if \<not> force \<and> splits_verified sha fs then fs else write_splits sha (partition_rows source))"

subsection \<open>Thresholds\<close>

definition candidate_thresholds :: "rat list" where
  \<comment> \<open>\<open>np.arange(0.1, 0.95, 0.05)\<close>\<close>
  "candidate_thresholds = map (\<lambda>k. 1 / 10 + of_nat k / 20) [0..<17]"

definition best_step :: "(rat \<Rightarrow> rat) \<Rightarrow> rat \<Rightarrow> rat \<times> rat \<Rightarrow> rat \<times> rat" where
  "best_step score t best = (if score t > fst best then (score t, t) else best)"

definition optimize_thresholds ::
  "(bool list \<Rightarrow> bool list \<Rightarrow> rat) \<Rightarrow> nat list \<Rightarrow> rat list list \<Rightarrow> string list \<Rightarrow> (string \<times> rat) list" where
  \<comment> \<open>\<open>f1_score\<close> of scikit-learn, the class indices of the samples, their probabilities by class, the classes\<close>
  "optimize_thresholds f1 y_true y_proba classes =
     map (\<lambda>i. (classes ! i,
        if classes ! i = ''legitimate'' then 1 / 2
        else snd (fold (best_step (\<lambda>t. f1 (map (\<lambda>y. y = i) y_true) (map (\<lambda>row. row ! i \<ge> t) y_proba)))
                    candidate_thresholds (0, 1 / 2))))
       [0..<length classes]"


subsection \<open>Cleaned rows\<close>

lemma drop_duplicates_fresh: "x \<in> set (drop_duplicates key seen xs) \<Longrightarrow> key x \<notin> set seen"
  by (induction xs arbitrary: seen) (fastforce split: if_splits)+

lemma drop_duplicates_distinct: "distinct (map key (drop_duplicates key seen xs))"
proof (induction xs arbitrary: seen)
  case (Cons a xs)
  have "key a \<notin> key ` set (drop_duplicates key (key a # seen) xs)"
    using drop_duplicates_fresh [of _ key "key a # seen" xs] by fastforce
  then show ?case
    using Cons by simp
qed simp

lemma drop_duplicates_subset: "set (drop_duplicates key seen xs) \<subseteq> set xs"
  by (induction xs arbitrary: seen) auto

lemma drop_duplicates_id:
  "distinct (map key xs) \<Longrightarrow> key ` set xs \<inter> set seen = {} \<Longrightarrow> drop_duplicates key seen xs = xs"
  by (induction xs arbitrary: seen) auto

lemma takeWhile_to: "x \<notin> set xs \<Longrightarrow> takeWhile (\<lambda>y. y \<noteq> x) (xs @ [x]) = xs"
  by (induction xs) auto

lemma str_strip_Nil [simp]: "str_strip [] = []"
  by (simp add: str_strip_def)

lemma lower_char_idem: "lower_char (lower_char c) = lower_char c"
  by (auto simp: lower_char_def Let_def)

lemma str_lower_idem [simp]: "str_lower (str_lower s) = str_lower s"
  by (simp add: str_lower_def lower_char_idem)

lemma strip_lower_strip [simp]: "str_strip (str_lower (str_strip s)) = str_lower (str_strip s)"
  using lower_strip_ends [of s] str_strip_id [of "str_lower (str_strip s)"]
  by (cases "str_lower (str_strip s) = []") simp_all

lemma label_map_idem [simp]: "label_map (label_map l) = label_map l"
  by (simp add: label_map_def)

lemma label_map_normal: "str_lower (str_strip l) = l \<Longrightarrow> str_lower (str_strip (label_map l)) = label_map l"
proof -
  have c: "str_lower (str_strip ''phishing'') = ''phishing''" "str_lower (str_strip ''legitimate'') = ''legitimate''"
    by code_simp+
  show "str_lower (str_strip l) = l \<Longrightarrow> str_lower (str_strip (label_map l)) = label_map l"
    using c by (simp add: label_map_def)
qed

definition clean_row_ok :: "string \<Rightarrow> clean_row \<Rightarrow> bool" where
  "clean_row_ok name r \<longleftrightarrow>
     cr_url r \<noteq> [] \<and> cr_url r \<noteq> ''nan'' \<and> str_strip (cr_url r) = cr_url r
     \<and> label_map (cr_label r) = cr_label r \<and> cr_source r = name"

definition for_done :: "('a \<Rightarrow> bool) \<Rightarrow> 'a result \<Rightarrow> bool" where
  "for_done P res = (case res of Done x \<Rightarrow> P x | _ \<Rightarrow> True)"

lemma clean_rows_ok:
  assumes "list_all (\<lambda>r. str_strip (cr_url r) = cr_url r \<and> cr_source r = name) rows"
  shows "distinct (map cr_url (clean_rows rows))" "list_all (clean_row_ok name) (clean_rows rows)"
proof -
  let ?kept = "filter (\<lambda>r. cr_url r \<noteq> [] \<and> cr_url r \<noteq> ''nan'') rows"
  show "distinct (map cr_url (clean_rows rows))"
    using drop_duplicates_distinct [of cr_url "[]" ?kept] by (simp add: clean_rows_def comp_def)
  show "list_all (clean_row_ok name) (clean_rows rows)"
    using assms drop_duplicates_subset [of cr_url "[]" ?kept]
    by (auto simp: clean_rows_def list_all_iff clean_row_ok_def)
qed

text \<open>
  Cleaning a CSV file yields rows with pairwise different, stripped, non-empty URLs, labels in
  canonical form and the name of the file as their source.
\<close>
theorem cleaned_rows_canonical:
  "for_done (\<lambda>rows. distinct (map cr_url rows) \<and> list_all (clean_row_ok name) rows) (clean_single number name hint f)"
proof -
  have "distinct (map cr_url (clean_rows (working_rows g u lc hint name)))
      \<and> list_all (clean_row_ok name) (clean_rows (working_rows g u lc hint name))" for g u lc
    by (intro conjI clean_rows_ok [where name = name]) (simp_all add: working_rows_def list_all_iff)
  then show ?thesis
    by (simp add: for_done_def clean_single_def Let_def split: option.splits)
qed

theorem numeric_first_column_is_legitimate:
  \<comment> \<open>a file whose first column is a number, such as an identifier, and that has no column \<open>label\<close> is
    taken for a list of top-ranked domains, whatever its directory and its own label column say\<close>
  assumes "ranked number f" "''label'' \<notin> set (cs_columns f)" "list_all (\<lambda>r. length r = length (cs_columns f)) (cs_rows f)"
  shows "for_done (list_all (\<lambda>r. cr_label r = ''legitimate'')) (clean_single number name hint (Some f))"
proof -
  let ?cols = "map (\<lambda>c. if c = cs_columns f ! 1 then ''url'' else if c = cs_columns f ! 0 then ''rank'' else c) (cs_columns f)"
  define g where "g = \<lparr>cs_columns = ?cols @ [''label''], cs_rows = map (\<lambda>r. r @ [Some ''legitimate'']) (cs_rows f)\<rparr>"
  have new: "''label'' \<notin> set ?cols"
    using assms(2) by (auto split: if_splits)
  then have g: "rank_format number f = g"
    using assms(1) new by (simp only: rank_format_def g_def Let_def if_True if_False)
  have lc: "find_column (cs_columns g) LABEL_COLUMN_ALIASES = Some ''label''"
    by (simp add: find_column_def LABEL_COLUMN_ALIASES_def g_def)
  have "takeWhile (\<lambda>x. x \<noteq> ''label'') (?cols @ [''label'']) = ?cols"
    using new by (rule takeWhile_to)
  then have ix: "column_index g ''label'' = length (cs_columns f)"
    by (simp add: column_index_def g_def)
  have "r ! length (cs_columns f) = Some ''legitimate''" if "r \<in> set (cs_rows g)" for r
    using that assms(3) by (auto simp: g_def list_all_iff nth_append)
  moreover have "label_map (str_lower (str_strip ''legitimate'')) = ''legitimate''"
    by code_simp
  ultimately have "list_all (\<lambda>r. label_map (cr_label r) = ''legitimate'') (working_rows g u (Some ''label'') hint name)" for u
    by (auto simp: working_rows_def ix list_all_iff cell_text_def)
  then have "list_all (\<lambda>r. cr_label r = ''legitimate'') (clean_rows (working_rows g u (Some ''label'') hint name))" for u
    using drop_duplicates_subset by (fastforce simp: clean_rows_def list_all_iff)
  then show ?thesis
    by (simp add: for_done_def clean_single_def Let_def g lc split: option.splits)
qed


theorem numeric_first_column_is_legitimate_witness:
  "for_done (list_all (\<lambda>r. cr_label r = ''legitimate''))
     (clean_single (\<lambda>c. c = Some ''7'') ''verified_online.csv'' ''phishing''
        (Some \<lparr>cs_columns = [''phish_id'', ''url'', ''type''], cs_rows = [[Some ''7'', Some ''http://evil.tk/'', Some ''phishing'']]\<rparr>))"
proof (rule numeric_first_column_is_legitimate)
  show "ranked (\<lambda>c. c = Some ''7'')
      \<lparr>cs_columns = [''phish_id'', ''url'', ''type''], cs_rows = [[Some ''7'', Some ''http://evil.tk/'', Some ''phishing'']]\<rparr>"
    by code_simp
qed simp_all

subsection \<open>Cleaning twice, and validating what was cleaned\<close>

lemma find_columns_written:
  "find_column SCHEMA_COLUMNS URL_COLUMN_ALIASES = Some ''url''"
  "find_column SCHEMA_COLUMNS LABEL_COLUMN_ALIASES = Some ''label''"
  by code_simp+

lemma written_columns:
  "column_index (csv_of_rows rows) ''url'' = 0" "column_index (csv_of_rows rows) ''label'' = 1"
  "column_index (csv_of_rows rows) ''source'' = 2" "cs_columns (csv_of_rows rows) = SCHEMA_COLUMNS"
  "cs_rows (csv_of_rows rows) = map (\<lambda>r. [Some (cr_url r), Some (cr_label r), Some (cr_source r)]) rows"
  by (simp_all add: column_index_def csv_of_rows_def SCHEMA_COLUMNS_def)

definition normal_row :: "clean_row \<Rightarrow> bool" where
  "normal_row r \<longleftrightarrow>
     cr_url r \<noteq> [] \<and> cr_url r \<noteq> ''nan'' \<and> str_strip (cr_url r) = cr_url r
     \<and> label_map (cr_label r) = cr_label r \<and> str_lower (str_strip (cr_label r)) = cr_label r"

lemma clean_written:
  assumes "distinct (map cr_url rows)" "list_all normal_row rows" "\<not> ranked number (csv_of_rows rows)"
  shows "clean_single number name hint (Some (csv_of_rows rows)) = Done (map (\<lambda>r. r\<lparr>cr_source := name\<rparr>) rows)"
proof -
  let ?f = "csv_of_rows rows" and ?rows = "map (\<lambda>r. r\<lparr>cr_source := name\<rparr>) rows"
  have same: "rank_format number ?f = ?f"
    using assms(3) by (simp add: rank_format_def)
  have "working_rows ?f ''url'' (Some ''label'') hint name = ?rows"
    using assms(2) by (auto simp: working_rows_def written_columns cell_text_def list_all_iff normal_row_def)
  moreover have "clean_rows ?rows = ?rows"
  proof -
    have "filter (\<lambda>r. cr_url r \<noteq> [] \<and> cr_url r \<noteq> ''nan'') ?rows = ?rows"
      using assms(2) by (auto simp: filter_id_conv list_all_iff normal_row_def)
    moreover have "drop_duplicates cr_url [] ?rows = ?rows"
      using assms(1) by (intro drop_duplicates_id) (simp_all add: comp_def)
    ultimately show ?thesis
      using assms(2) by (auto simp: clean_rows_def list_all_iff normal_row_def)
  qed
  ultimately show ?thesis
    by (simp add: clean_single_def Let_def same find_columns_written written_columns) (simp add: SCHEMA_COLUMNS_def)
qed

lemma clean_rows_normal:
  assumes "list_all (\<lambda>r. str_strip (cr_url r) = cr_url r \<and> str_lower (str_strip (cr_label r)) = cr_label r) rows"
  shows "list_all normal_row (clean_rows rows)"
  using assms drop_duplicates_subset [of cr_url "[]" "filter (\<lambda>r. cr_url r \<noteq> [] \<and> cr_url r \<noteq> ''nan'') rows"]
  by (auto simp: clean_rows_def list_all_iff normal_row_def label_map_normal)

lemma cleaned_normal:
  assumes "clean_single number name hint f = Done rows" "str_lower (str_strip hint) = hint"
  shows "distinct (map cr_url rows) \<and> list_all normal_row rows"
proof -
  obtain g u lc where rows: "rows = clean_rows (working_rows g u lc hint name)"
    using assms(1) by (auto simp: clean_single_def Let_def split: option.splits if_splits)
  have "distinct (map cr_url rows)"
    unfolding rows by (rule clean_rows_ok(1) [where name = name]) (simp add: working_rows_def list_all_iff)
  moreover have "list_all normal_row rows"
    unfolding rows using assms(2)
    by (intro clean_rows_normal) (auto simp: working_rows_def list_all_iff split: option.splits)
  ultimately show ?thesis by simp
qed

text \<open>
  Cleaning is idempotent: a cleaned file that is written and cleaned again gives the same URLs and
  labels, under the new file's name, unless more than 95 percent of its URLs are numbers.
\<close>
theorem cleaning_idempotent:
  assumes "clean_single number name hint f = Done rows" "str_lower (str_strip hint) = hint"
    "\<not> ranked number (csv_of_rows rows)"
  shows "clean_single number name' hint' (Some (csv_of_rows rows)) = Done (map (\<lambda>r. r\<lparr>cr_source := name'\<rparr>) rows)"
  using cleaned_normal [OF assms(1, 2)] assms(3) by (intro clean_written) simp_all

definition sample_csv :: csv where
  "sample_csv = \<lparr>cs_columns = [''URL'', ''Type''],
     cs_rows = [[Some '' http://evil.tk/ '', Some ''Bad''], [None, Some ''benign''], [Some ''example.org'', Some ''defacement''],
       [Some ''http://evil.tk/'', Some ''benign'']]\<rparr>"

theorem cleaning_idempotent_witness:
  "clean_single (\<lambda>_. False) ''b'' ''legitimate''
     (Some (csv_of_rows [\<lparr>cr_url = ''http://evil.tk/'', cr_label = ''phishing'', cr_source = ''a''\<rparr>,
        \<lparr>cr_url = ''example.org'', cr_label = ''defacement'', cr_source = ''a''\<rparr>])) =
   Done [\<lparr>cr_url = ''http://evil.tk/'', cr_label = ''phishing'', cr_source = ''b''\<rparr>,
        \<lparr>cr_url = ''example.org'', cr_label = ''defacement'', cr_source = ''b''\<rparr>]"
proof -
  let ?rows = "[\<lparr>cr_url = ''http://evil.tk/'', cr_label = ''phishing'', cr_source = ''a''\<rparr>,
        \<lparr>cr_url = ''example.org'', cr_label = ''defacement'', cr_source = ''a''\<rparr>]"
  have c: "clean_single (\<lambda>_. False) ''a'' ''phishing'' (Some sample_csv) = Done ?rows"
    by code_simp
  have h: "str_lower (str_strip ''phishing'') = ''phishing''"
    by code_simp
  have r: "\<not> ranked (\<lambda>_. False) (csv_of_rows ?rows)"
    by code_simp
  show ?thesis
    using cleaning_idempotent [OF c h r, of "''b''" "''legitimate''"] by simp
qed


lemma count_repeats_distinct: "distinct xs \<Longrightarrow> set seen \<inter> set xs = {} \<Longrightarrow> count_repeats seen xs = 0"
  by (induction xs arbitrary: seen) auto

definition label_or_url_issue :: "data_issue \<Rightarrow> bool" where
  "label_or_url_issue i = (case i of UnknownLabels ls \<Rightarrow> True | InvalidUrls n \<Rightarrow> True | _ \<Rightarrow> False)"

theorem cleaned_file_validates:
  \<comment> \<open>of a written file, only labels outside the known four and malformed URLs are ever reported\<close>
  assumes "clean_single number name hint f = Done rows"
  shows "list_all label_or_url_issue (validate_single sample valid (csv_of_rows rows))"
proof -
  have "for_done (\<lambda>rows. distinct (map cr_url rows) \<and> list_all (clean_row_ok name) rows) (clean_single number name hint f)"
  proof -
    have "distinct (map cr_url (clean_rows (working_rows g u lc hint name)))
        \<and> list_all (clean_row_ok name) (clean_rows (working_rows g u lc hint name))" for g u lc
      by (intro conjI clean_rows_ok [where name = name]) (simp_all add: working_rows_def list_all_iff)
    then show ?thesis
      by (simp add: for_done_def clean_single_def Let_def split: option.splits)
  qed
  then have d: "distinct (map cr_url rows)"
    by (simp add: for_done_def assms)
  have cols: "csv_column (csv_of_rows rows) ''url'' = map (\<lambda>r. Some (cr_url r)) rows"
      "csv_column (csv_of_rows rows) ''label'' = map (\<lambda>r. Some (cr_label r)) rows"
      "csv_column (csv_of_rows rows) ''source'' = map (\<lambda>r. Some (cr_source r)) rows"
    by (simp_all add: csv_column_def written_columns comp_def)
  have "count_repeats [] (map (\<lambda>r. Some (cr_url r)) rows) = 0"
    using d by (intro count_repeats_distinct) (auto simp: distinct_map inj_on_def)
  then show ?thesis
    unfolding validate_single_def written_columns Let_def
    by (simp add: SCHEMA_COLUMNS_def cols label_or_url_issue_def)
qed

theorem cleaned_file_validates_witness:
  "list_all label_or_url_issue (validate_single id (\<lambda>_. True)
     (csv_of_rows [\<lparr>cr_url = ''http://evil.tk/'', cr_label = ''phishing'', cr_source = ''a''\<rparr>,
        \<lparr>cr_url = ''example.org'', cr_label = ''defacement'', cr_source = ''a''\<rparr>]))"
proof -
  have c: "clean_single (\<lambda>_. False) ''a'' ''phishing'' (Some sample_csv) =
      Done [\<lparr>cr_url = ''http://evil.tk/'', cr_label = ''phishing'', cr_source = ''a''\<rparr>,
        \<lparr>cr_url = ''example.org'', cr_label = ''defacement'', cr_source = ''a''\<rparr>]"
    by code_simp
  show ?thesis
    by (rule cleaned_file_validates [OF c])
qed

lemma schema_part_written:
  "schema_part (csv_of_rows rows) = Some (map (\<lambda>r. [Some (cr_url r), Some (cr_label r), Some (cr_source r)]) rows)"
proof -
  have "schema_part (csv_of_rows rows) =
      Some (map (\<lambda>r. map (\<lambda>c. r ! column_index (csv_of_rows rows) c) SCHEMA_COLUMNS) (cs_rows (csv_of_rows rows)))"
    by (simp add: schema_part_def written_columns list_all_iff)
  then show ?thesis
    by (simp add: SCHEMA_COLUMNS_def written_columns comp_def numeral_2_eq_2)
qed

theorem merge_keeps_contradictions:
  \<comment> \<open>rows of different files are not compared: the merged data set has all rows of all of them\<close>
  "merge_files id (map (\<lambda>rows. Some (csv_of_rows rows)) (rows # files)) =
     Some (map (\<lambda>r. [Some (cr_url r), Some (cr_label r), Some (cr_source r)]) (concat (rows # files)))"
proof -
  have "List.map_filter (\<lambda>f. case f of None \<Rightarrow> None | Some c \<Rightarrow> schema_part c) (map (\<lambda>rows. Some (csv_of_rows rows)) fs)
      = map (map (\<lambda>r. [Some (cr_url r), Some (cr_label r), Some (cr_source r)])) fs" for fs
    by (induction fs) (simp_all add: List.map_filter_simps schema_part_written)
  from this [of "rows # files"] show ?thesis
    by (simp add: merge_files_def Let_def map_concat)
qed

subsection \<open>Splits\<close>

lemma written_splits_verified: "splits_verified sha (write_splits sha parts)"
  by (simp add: splits_verified_def write_splits_def checksum_ok_def case_prod_beta)

text \<open>
  Once a split was made, running the splitter again without force, on whatever source, changes
  nothing; a changed test file whose digest differs from a recorded one is not accepted.
\<close>
theorem splits_stable:
  "run_split sha partition_rows False source' (run_split sha partition_rows force source fs)
     = run_split sha partition_rows force source fs
   \<and> splits_verified sha ((write_splits sha (a, b, c))\<lparr>sf_test := Some c'\<rparr>) = (sha c' = sha c \<or> sha c = [])"
proof -
  have "splits_verified sha (run_split sha partition_rows force source fs)"
    by (simp add: run_split_def written_splits_verified)
  then have "run_split sha partition_rows False source' (run_split sha partition_rows force source fs)
      = run_split sha partition_rows force source fs"
    by (simp add: run_split_def [of _ _ False])
  moreover have "splits_verified sha ((write_splits sha (a, b, c))\<lparr>sf_test := Some c'\<rparr>) = (sha c' = sha c \<or> sha c = [])"
    by (auto simp: splits_verified_def write_splits_def checksum_ok_def)
  ultimately show ?thesis by simp
qed

theorem empty_manifest_accepts_anything:
  "splits_verified sha \<lparr>sf_train = Some a, sf_val = Some b, sf_test = Some c, sf_manifest = Some (Manifest Map.empty)\<rparr>"
  by (simp add: splits_verified_def checksum_ok_def)

subsection \<open>Thresholds\<close>

lemma best_step_fold:
  "fst (fold (best_step score) ts b) \<ge> fst b"
  "t \<in> set ts \<Longrightarrow> score t \<le> fst (fold (best_step score) ts b)"
  "fold (best_step score) ts b = b \<or> (snd (fold (best_step score) ts b) \<in> set ts
     \<and> score (snd (fold (best_step score) ts b)) = fst (fold (best_step score) ts b))"
proof (induction ts arbitrary: b)
  case (Cons u ts)
  have s: "fst b \<le> fst (best_step score u b)" "score u \<le> fst (best_step score u b)" for b
    by (simp_all add: best_step_def)
  { case 1 show ?case using Cons.IH(1) [of "best_step score u b"] s(1) [of b] by simp }
  { case 2 then show ?case
      using Cons.IH(1) [of "best_step score u b"] Cons.IH(2) [of "best_step score u b"] s(2) [of b] by auto }
  { case 3 show ?case
      using Cons.IH(3) [of "best_step score u b"] by (auto simp: best_step_def) }
qed simp_all

definition class_score ::
  "(bool list \<Rightarrow> bool list \<Rightarrow> rat) \<Rightarrow> nat list \<Rightarrow> rat list list \<Rightarrow> nat \<Rightarrow> rat \<Rightarrow> rat" where
  "class_score f1 y_true y_proba i t = f1 (map (\<lambda>y. y = i) y_true) (map (\<lambda>row. row ! i \<ge> t) y_proba)"

text \<open>
  Every class gets one threshold between 0.1 and 0.9, and for every class but the legitimate one no
  candidate threshold has a larger F1 score on the validation data.
\<close>
theorem thresholds_optimal:
  assumes "\<And>truth pred. 0 \<le> f1 truth pred"
  shows "map fst (optimize_thresholds f1 y_true y_proba classes) = classes \<and>
   list_all (\<lambda>i. let (c, t) = optimize_thresholds f1 y_true y_proba classes ! i
     in 1 / 10 \<le> t \<and> t \<le> 9 / 10
        \<and> (c = ''legitimate'' \<or> list_all (\<lambda>u. class_score f1 y_true y_proba i u \<le> class_score f1 y_true y_proba i t) candidate_thresholds))
     [0..<length classes]"
proof -
  have cand: "1 / 10 \<le> t \<and> t \<le> 9 / 10" if "t \<in> set candidate_thresholds" for t
    using that by (auto simp: candidate_thresholds_def)
  have "1 / 10 \<le> t \<and> t \<le> 9 / 10 \<and> list_all (\<lambda>u. s u \<le> s t) candidate_thresholds"
    if t: "t = snd (fold (best_step s) candidate_thresholds (0, 1 / 2))" and s: "\<And>u. 0 \<le> s u" for s :: "rat \<Rightarrow> rat" and t
  proof (cases "fold (best_step s) candidate_thresholds (0, 1 / 2) = (0, 1 / 2)")
    case True
    then have "s u \<le> 0" if "u \<in> set candidate_thresholds" for u
      using best_step_fold(2) [OF that, of s "(0, 1 / 2)"] by simp
    then have "s u = 0" if "u \<in> set candidate_thresholds" for u
      using s [of u] that by (simp add: antisym)
    then show ?thesis
      using True t s by (simp add: list_all_iff)
  next
    case False
    then have "t \<in> set candidate_thresholds" "s t = fst (fold (best_step s) candidate_thresholds (0, 1 / 2))"
      using best_step_fold(3) [of s candidate_thresholds "(0, 1 / 2)"] t by simp_all
    then show ?thesis
      using cand best_step_fold(2) [of _ candidate_thresholds s "(0, 1 / 2)"] by (simp add: list_all_iff)
  qed
  note best = this [OF refl]
  have "map fst (optimize_thresholds f1 y_true y_proba classes) = classes"
    by (simp add: optimize_thresholds_def comp_def map_nth)
  moreover have "\<And>i u. 0 \<le> class_score f1 y_true y_proba i u"
    by (simp add: class_score_def assms)
  ultimately show ?thesis
    using best by (simp add: list_all_iff optimize_thresholds_def class_score_def [symmetric, abs_def] class_score_def [symmetric])
qed


definition f1_score :: "bool list \<Rightarrow> bool list \<Rightarrow> rat" where
  \<comment> \<open>\<open>zero_division=0\<close>\<close>
  "f1_score truth pred =
     (let pairs = zip truth pred;
          tp = length (filter (\<lambda>(t, p). t \<and> p) pairs);
          wrong = length (filter (\<lambda>(t, p). t \<noteq> p) pairs)
      in if 2 * tp + wrong = 0 then 0 else of_nat (2 * tp) / of_nat (2 * tp + wrong))"

theorem thresholds_optimal_witness:
  "optimize_thresholds f1_score [0, 1, 1] [[7 / 10, 3 / 10], [6 / 10, 4 / 10], [2 / 10, 8 / 10]] [''legitimate'', ''phishing'']
     = [(''legitimate'', 1 / 2), (''phishing'', 35 / 100)]
   \<and> class_score f1_score [0, 1, 1] [[7 / 10, 3 / 10], [6 / 10, 4 / 10], [2 / 10, 8 / 10]] 1 (1 / 2)
       \<le> class_score f1_score [0, 1, 1] [[7 / 10, 3 / 10], [6 / 10, 4 / 10], [2 / 10, 8 / 10]] 1 (35 / 100)"
proof -
  let ?y = "[0, 1, 1] :: nat list" and ?p = "[[7 / 10, 3 / 10], [6 / 10, 4 / 10], [2 / 10, 8 / 10]] :: rat list list"
  let ?r = "optimize_thresholds f1_score ?y ?p [''legitimate'', ''phishing'']"
  have r: "?r = [(''legitimate'', 1 / 2), (''phishing'', 35 / 100)]"
    by code_simp
  have half: "(1 / 2 :: rat) \<in> set candidate_thresholds"
    by code_simp
  have "0 \<le> f1_score truth pred" for truth pred
    by (simp add: f1_score_def Let_def)
  from thresholds_optimal [of f1_score ?y ?p "[''legitimate'', ''phishing'']", OF this]
  have "list_all (\<lambda>u. class_score f1_score ?y ?p 1 u \<le> class_score f1_score ?y ?p 1 (35 / 100)) candidate_thresholds"
    unfolding r by simp
  then show ?thesis
    using r half unfolding list_all_iff by blast
qed

end
