(* ===== verification/Routers.thy ===== *)
theory Routers
  imports Monitoring Incidents
begin

text \<open>
  The HTTP handlers of \<open>api/routers/monitor.py\<close>, \<open>alerts.py\<close> and \<open>incidents.py\<close> with the request models of
  \<open>schemas/monitor.py\<close>, \<open>schemas/alerts.py\<close> and \<open>schemas/soc.py\<close>: the validation of a request, the call
  of the service, the exceptions each handler turns into a status code, and the response.  The user is the
  one that \<open>get_current_user\<close> returned; rate limits and the texts of error messages are left out.
\<close>

subsection \<open>Responses\<close>

datatype 'a http =
    Reply nat 'a \<comment> \<open>status code and body\<close>
  | Refused nat \<comment> \<open>an \<open>HTTPException\<close> or a failed validation\<close>
  | Unhandled \<comment> \<open>an exception that leaves the handler; \<open>general_exception_handler\<close> answers 500\<close>

fun http_status :: "'a http \<Rightarrow> nat" where
  "http_status (Reply c x) = c"
| "http_status (Refused c) = c"
| "http_status Unhandled = 500"

definition answer :: "nat \<Rightarrow> ('e \<Rightarrow> nat option) \<Rightarrow> ('a \<Rightarrow> 'b) \<Rightarrow> ('e + 'a) \<times> 's \<Rightarrow> 'b http \<times> 's" where
  \<comment> \<open>the body of a handler's \<open>try\<close> and its \<open>except\<close> clauses\<close>
  "answer success caught view r =
     (case fst r of
        Inr x \<Rightarrow> (Reply success (view x), snd r)
      | Inl err \<Rightarrow> ((case caught err of Some c \<Rightarrow> Refused c | None \<Rightarrow> Unhandled), snd r))"

definition paged :: "int \<Rightarrow> int \<Rightarrow> bool" where
  \<comment> \<open>\<open>Query(ge=1)\<close> and \<open>Query(ge=1, le=100)\<close>\<close>
  "paged page psize = (1 \<le> page \<and> 1 \<le> psize \<and> psize \<le> 100)"

subsection \<open>Monitoring targets\<close>

definition require_http_scheme :: "string \<Rightarrow> string option" where
  "require_http_scheme url =
     (case urlparse (str_strip url) of
        None \<Rightarrow> None
      | Some p \<Rightarrow> if ur_scheme p \<in> {''http'', ''https''} \<and> ur_netloc p \<noteq> [] then Some (str_strip url) else None)"

definition valid_interval :: "int \<Rightarrow> bool" where
  "valid_interval m = (5 \<le> m \<and> m \<le> 1440)"

definition MonitoringTargetCreate :: "string \<Rightarrow> int \<Rightarrow> (string \<times> int) option" where
  "MonitoringTargetCreate url m =
     (if 1 \<le> length url \<and> length url \<le> 2048 \<and> valid_interval m
      then map_option (\<lambda>u. (u, m)) (require_http_scheme url) else None)"

definition monitor_status :: "monitor_error list \<Rightarrow> monitor_error \<Rightarrow> nat option" where
  \<comment> \<open>the classes a handler names, then \<open>MonitorServiceError\<close>; a failed commit is not one of its subclasses\<close>
  "monitor_status named err =
     (if err = CommitError then None
      else if err \<notin> set named then Some 500
      else Some (case err of
         MonitorNotFoundError \<Rightarrow> 404
       | MonitorLimitExceededError \<Rightarrow> 429
       | MonitorSSRFError \<Rightarrow> 400
       | MonitorValidationError \<Rightarrow> 422
       | _ \<Rightarrow> 409))"

definition post_target ::
  "monitor_world \<Rightarrow> bool \<Rightarrow> env \<Rightarrow> user \<Rightarrow> string option \<Rightarrow> string \<Rightarrow> int \<Rightarrow> store \<Rightarrow> target http \<times> store" where
  "post_target w ok e u ip url m s =
     (case MonitoringTargetCreate url m of
        None \<Rightarrow> (Refused 422, s)
      | Some (url, m) \<Rightarrow>
          answer 201 (monitor_status [MonitorLimitExceededError, MonitorSSRFError, MonitorValidationError]) id
            (register_target (mw_psl w) (mw_dns w) ok e url m u ip s))"

definition get_targets :: "user \<Rightarrow> int \<Rightarrow> int \<Rightarrow> bool \<Rightarrow> store \<Rightarrow> target_page http" where
  "get_targets u page psize inactive s =
     (if paged page psize then Reply 200 (list_targets u (nat page) (nat psize) inactive s) else Refused 422)"

definition get_target :: "user \<Rightarrow> string \<Rightarrow> store \<Rightarrow> target http" where
  "get_target u uuid s =
     (case get_target_by_uuid uuid u s of Some g \<Rightarrow> Reply 200 g | None \<Rightarrow> Refused 404)"

definition patch_target ::
  "bool \<Rightarrow> env \<Rightarrow> user \<Rightarrow> string option \<Rightarrow> string \<Rightarrow> int option \<Rightarrow> bool option \<Rightarrow> store \<Rightarrow> target http \<times> store" where
  "patch_target ok e u ip uuid m active s =
     (if (case m of None \<Rightarrow> True | Some i \<Rightarrow> valid_interval i) then
        answer 200 (monitor_status [MonitorNotFoundError, MonitorValidationError]) id
          (update_target ok e uuid m active u ip s)
      else (Refused 422, s))"

definition remove_target ::
  "bool \<Rightarrow> env \<Rightarrow> user \<Rightarrow> string option \<Rightarrow> string \<Rightarrow> store \<Rightarrow> unit http \<times> store" where
  "remove_target ok e u ip uuid s =
     answer 204 (monitor_status [MonitorNotFoundError]) (\<lambda>_. ()) (delete_target ok e uuid u ip s)"

definition post_pause ::
  "bool \<Rightarrow> env \<Rightarrow> user \<Rightarrow> string option \<Rightarrow> string \<Rightarrow> store \<Rightarrow> target http \<times> store" where
  "post_pause ok e u ip uuid s =
     answer 200 (monitor_status [MonitorTargetSuspendedError, MonitorNotFoundError]) id (pause_target ok e uuid u ip s)"

definition post_resume ::
  "bool \<Rightarrow> env \<Rightarrow> user \<Rightarrow> string option \<Rightarrow> string \<Rightarrow> store \<Rightarrow> target http \<times> store" where
  "post_resume ok e u ip uuid s =
     answer 200 (monitor_status [MonitorTargetSuspendedError, MonitorNotFoundError]) id (resume_target ok e uuid u ip s)"

definition post_reactivate ::
  "bool \<Rightarrow> env \<Rightarrow> user \<Rightarrow> string option \<Rightarrow> string \<Rightarrow> store \<Rightarrow> target http \<times> store" where
  "post_reactivate ok e u ip uuid s =
     answer 200 (monitor_status [MonitorNotFoundError]) id (reactivate_target ok e uuid u ip s)"

definition post_check_now ::
  "monitor_world \<Rightarrow> bool \<Rightarrow> env \<Rightarrow> user \<Rightarrow> string option \<Rightarrow> string \<Rightarrow> store \<Rightarrow> ClaimedTarget http \<times> store" where
  "post_check_now w ok e u ip uuid s =
     answer 200 (monitor_status [MonitorLeaseConflictError, MonitorTargetSuspendedError, MonitorValidationError,
         MonitorNotFoundError]) id
       (trigger_check_now (mw_dialect w) (mw_config w) ok e uuid u ip s)"

definition get_diagnostics :: "user \<Rightarrow> string \<Rightarrow> store \<Rightarrow> diagnostics http" where
  "get_diagnostics u uuid s =
     fst (answer 200 (monitor_status [MonitorNotFoundError]) id (get_target_diagnostics uuid u s, s))"

subsection \<open>Alerts\<close>

definition alert_status :: "alert_error list \<Rightarrow> alert_error \<Rightarrow> nat option" where
  \<comment> \<open>the classes a handler names, then \<open>AlertServiceError\<close>; the two other errors are foreign exceptions\<close>
  "alert_status named err =
     (if err \<in> {AlertStatusValueError, AlertInsertError} then None
      else if err \<notin> set named then Some 500
      else Some (case err of
         AlertNotFoundError \<Rightarrow> 404
       | AlertInvalidTransitionError \<Rightarrow> 400
       | _ \<Rightarrow> 422))"

definition short_notes :: "string option \<Rightarrow> bool" where
  \<comment> \<open>\<open>Field(default=None, max_length=5000)\<close>\<close>
  "short_notes n = (case n of None \<Rightarrow> True | Some t \<Rightarrow> length t \<le> 5000)"

definition get_alerts ::
  "user \<Rightarrow> int \<Rightarrow> int \<Rightarrow> string option \<Rightarrow> string option \<Rightarrow> string option \<Rightarrow> string option \<Rightarrow> nat option \<Rightarrow> store
     \<Rightarrow> alert_page http" where
  "get_alerts u page psize sev status rule itype inc s =
     (if paged page psize then Reply 200 (list_alerts u page (nat psize) sev status rule itype inc s) else Refused 422)"

definition get_alert_detail :: "user \<Rightarrow> string \<Rightarrow> store \<Rightarrow> alert http" where
  "get_alert_detail u uuid s =
     fst (answer 200 (alert_status [AlertNotFoundError]) id (get_alert_by_uuid uuid u s, s))"

definition post_acknowledge ::
  "env \<Rightarrow> user \<Rightarrow> string option \<Rightarrow> string \<Rightarrow> string option \<Rightarrow> store \<Rightarrow> alert http \<times> store" where
  "post_acknowledge e u ip uuid notes s =
     (if short_notes notes then
        answer 200 (alert_status [AlertNotFoundError, AlertInvalidTransitionError]) id
          (acknowledge_alert e uuid u notes None ip s)
      else (Refused 422, s))"

definition post_resolve ::
  "env \<Rightarrow> user \<Rightarrow> string option \<Rightarrow> string \<Rightarrow> string option \<Rightarrow> store \<Rightarrow> alert http \<times> store" where
  "post_resolve e u ip uuid notes s =
     (if short_notes notes then
        answer 200 (alert_status [AlertNotFoundError, AlertInvalidTransitionError]) id
          (resolve_alert e uuid u notes None None ip s)
      else (Refused 422, s))"

definition post_dismiss ::
  "env \<Rightarrow> user \<Rightarrow> string option \<Rightarrow> string \<Rightarrow> string \<Rightarrow> string option \<Rightarrow> string option \<Rightarrow> store \<Rightarrow> alert http \<times> store" where
  "post_dismiss e u ip uuid reason triage_notes notes s =
     (if 1 \<le> length reason \<and> length reason \<le> 255 \<and> str_strip reason \<noteq> [] \<and> short_notes triage_notes \<and> short_notes notes
      then answer 200 (alert_status [AlertNotFoundError, AlertInvalidTransitionError, AlertValidationError]) id
             (dismiss_alert e uuid u None (Some (str_strip reason)) None (str_or triage_notes notes) ip s)
      else (Refused 422, s))"

definition post_reopen ::
  "env \<Rightarrow> user \<Rightarrow> string option \<Rightarrow> string \<Rightarrow> string option \<Rightarrow> store \<Rightarrow> alert http \<times> store" where
  "post_reopen e u ip uuid notes s =
     (if short_notes notes then
        answer 200 (alert_status [AlertNotFoundError, AlertInvalidTransitionError]) id
          (reopen_alert e uuid u None notes None ip s)
      else (Refused 422, s))"

subsection \<open>Incidents\<close>

definition incident_status :: "incident_error list \<Rightarrow> incident_error \<Rightarrow> nat option" where
  \<comment> \<open>only the classes a handler names are caught\<close>
  "incident_status named err =
     (if err \<notin> set named then None
      else Some (case err of
         IncidentNotFoundError \<Rightarrow> 404
       | IncidentAccessDeniedError \<Rightarrow> 403
       | IncidentValidationError \<Rightarrow> 400
       | IncidentConflictError \<Rightarrow> 409
       | IncidentServiceError \<Rightarrow> 500))"

record incident_response =
  ir_incident :: incident
  ir_alerts :: "alert list"
  ir_summary :: IncidentAggregateSummary

definition format_incident_response ::
  "(string \<Rightarrow> string \<times> string) \<Rightarrow> store \<Rightarrow> incident \<Rightarrow> incident_response" where
  "format_incident_response psl s i =
     \<lparr>ir_incident = i, ir_alerts = incident_alerts (in_id i) s, ir_summary = build_summary psl i s\<rparr>"

definition incident_answer ::
  "nat \<Rightarrow> incident_error list \<Rightarrow> (string \<Rightarrow> string \<times> string) \<Rightarrow> (incident_error + incident) \<times> store
     \<Rightarrow> incident_response http \<times> store" where
  "incident_answer success named psl r = answer success (incident_status named) (format_incident_response psl (snd r)) r"

definition valid_title :: "string \<Rightarrow> bool" where
  "valid_title t = (1 \<le> length t \<and> length t \<le> 255 \<and> validate_title t \<noteq> None)"

definition post_incident ::
  "(nat \<Rightarrow> bool) \<Rightarrow> (string \<Rightarrow> string \<times> string) \<Rightarrow> env \<Rightarrow> user \<Rightarrow> string option \<Rightarrow> IncidentCreate \<Rightarrow> store
     \<Rightarrow> incident_response http \<times> store" where
  "post_incident ok psl e u ip d s =
     (if valid_title (ic_title d) \<and> short_notes (ic_description d) then
        incident_answer 201 [IncidentNotFoundError, IncidentAccessDeniedError, IncidentValidationError,
            IncidentConflictError, IncidentServiceError] psl
          (create_incident ok e (d\<lparr>ic_title := str_strip (ic_title d)\<rparr>) (Some u) ip s)
      else (Refused 422, s))"

definition get_incidents ::
  "(string \<Rightarrow> string \<times> string) \<Rightarrow> user \<Rightarrow> IncidentStatus option \<Rightarrow> EventSeverity option \<Rightarrow> int \<Rightarrow> int \<Rightarrow> store
     \<Rightarrow> incident_response list http" where
  "get_incidents psl u st sev page psize s =
     (if paged page psize then
        Reply 200 (map (format_incident_response psl s)
          (fst (list_incidents (Some u) (map_option IncidentStatus_value st) (map_option EventSeverity_value sev)
             psize ((page - 1) * psize) s)))
      else Refused 422)"

definition get_incident_detail ::
  "(string \<Rightarrow> string \<times> string) \<Rightarrow> user \<Rightarrow> string \<Rightarrow> store \<Rightarrow> incident_response http" where
  "get_incident_detail psl u r s =
     fst (incident_answer 200 [IncidentNotFoundError, IncidentAccessDeniedError, IncidentValidationError] psl
       (get_incident (ByText r) (Some u) s, s))"

definition valid_incident_update :: "IncidentUpdate \<Rightarrow> bool" where
  "valid_incident_update d =
     ((case iu_title d of None \<Rightarrow> True | Some t \<Rightarrow> valid_title t)
      \<and> short_notes (iu_description d) \<and> short_notes (iu_resolution_notes d))"

definition patch_incident ::
  "(nat \<Rightarrow> bool) \<Rightarrow> (string \<Rightarrow> string \<times> string) \<Rightarrow> env \<Rightarrow> user \<Rightarrow> string option \<Rightarrow> string \<Rightarrow> IncidentUpdate \<Rightarrow> store
     \<Rightarrow> incident_response http \<times> store" where
  "patch_incident ok psl e u ip r d s =
     (if valid_incident_update d then
        incident_answer 200 [IncidentNotFoundError, IncidentAccessDeniedError, IncidentValidationError,
            IncidentConflictError] psl
          (update_incident ok e (ByText r) (d\<lparr>iu_title := map_option str_strip (iu_title d)\<rparr>) (Some u) ip s)
      else (Refused 422, s))"

definition post_incident_alerts ::
  "(nat \<Rightarrow> bool) \<Rightarrow> (string \<Rightarrow> string \<times> string) \<Rightarrow> env \<Rightarrow> user \<Rightarrow> string option \<Rightarrow> string \<Rightarrow> nat list \<Rightarrow> store
     \<Rightarrow> incident_response http \<times> store" where
  "post_incident_alerts ok psl e u ip r ids s =
     (if 1 \<le> length ids \<and> length ids \<le> 100 then
        incident_answer 200 [IncidentNotFoundError, IncidentAccessDeniedError, IncidentValidationError,
            IncidentConflictError] psl
          (attach_alerts ok e (ByText r) ids (Some u) ip s)
      else (Refused 422, s))"

definition delete_incident_alert ::
  "(nat \<Rightarrow> bool) \<Rightarrow> (string \<Rightarrow> string \<times> string) \<Rightarrow> env \<Rightarrow> user \<Rightarrow> string option \<Rightarrow> string \<Rightarrow> nat \<Rightarrow> store
     \<Rightarrow> incident_response http \<times> store" where
  "delete_incident_alert ok psl e u ip r k s =
     incident_answer 200 [IncidentNotFoundError, IncidentAccessDeniedError] psl
       (detach_alert ok e (ByText r) k (Some u) ip s)"

definition get_incident_alerts :: "user \<Rightarrow> string \<Rightarrow> store \<Rightarrow> alert list http" where
  "get_incident_alerts u r s =
     fst (answer 200 (incident_status [IncidentNotFoundError, IncidentAccessDeniedError])
       (\<lambda>i. incident_alerts (in_id i) s) (get_incident (ByText r) (Some u) s, s))"


subsection \<open>Requests that change something\<close>

datatype target_request =
    PostTarget string int
  | PatchTarget string "int option" "bool option"
  | DeleteTarget string
  | PostPause string
  | PostResume string
  | PostReactivate string
  | PostCheckNow string

datatype target_body = TargetBody target | ClaimBody ClaimedTarget | NoBody

type_synonym target_call = "env \<times> bool \<times> user \<times> string option \<times> target_request"

definition serve_target :: "monitor_world \<Rightarrow> target_call \<Rightarrow> store \<Rightarrow> target_body http \<times> store" where
  "serve_target w tc s =
     (case tc of (e, ok, u, ip, q) \<Rightarrow>
        case q of
          PostTarget url m \<Rightarrow> apfst (map_http TargetBody) (post_target w ok e u ip url m s)
        | PatchTarget i m a \<Rightarrow> apfst (map_http TargetBody) (patch_target ok e u ip i m a s)
        | DeleteTarget i \<Rightarrow> apfst (map_http (\<lambda>_. NoBody)) (remove_target ok e u ip i s)
        | PostPause i \<Rightarrow> apfst (map_http TargetBody) (post_pause ok e u ip i s)
        | PostResume i \<Rightarrow> apfst (map_http TargetBody) (post_resume ok e u ip i s)
        | PostReactivate i \<Rightarrow> apfst (map_http TargetBody) (post_reactivate ok e u ip i s)
        | PostCheckNow i \<Rightarrow> apfst (map_http ClaimBody) (post_check_now w ok e u ip i s))"

datatype alert_request =
    PostAcknowledge string "string option"
  | PostResolve string "string option"
  | PostDismiss string string "string option" "string option"
  | PostReopen string "string option"

type_synonym alert_call = "env \<times> user \<times> string option \<times> alert_request"

definition serve_alert :: "alert_call \<Rightarrow> store \<Rightarrow> alert http \<times> store" where
  "serve_alert ac s =
     (case ac of (e, u, ip, q) \<Rightarrow>
        case q of
          PostAcknowledge i n \<Rightarrow> post_acknowledge e u ip i n s
        | PostResolve i n \<Rightarrow> post_resolve e u ip i n s
        | PostDismiss i r tn n \<Rightarrow> post_dismiss e u ip i r tn n s
        | PostReopen i n \<Rightarrow> post_reopen e u ip i n s)"

datatype incident_request =
    PostIncident IncidentCreate
  | PatchIncident string IncidentUpdate
  | PostIncidentAlerts string "nat list"
  | DeleteIncidentAlert string nat

type_synonym incident_request_call = "(nat \<Rightarrow> bool) \<times> env \<times> user \<times> string option \<times> incident_request"

definition serve_incident ::
  "(string \<Rightarrow> string \<times> string) \<Rightarrow> incident_request_call \<Rightarrow> store \<Rightarrow> incident_response http \<times> store" where
  "serve_incident psl ic s =
     (case ic of (ok, e, u, ip, q) \<Rightarrow>
        case q of
          PostIncident d \<Rightarrow> post_incident ok psl e u ip d s
        | PatchIncident r d \<Rightarrow> patch_incident ok psl e u ip r d s
        | PostIncidentAlerts r ids \<Rightarrow> post_incident_alerts ok psl e u ip r ids s
        | DeleteIncidentAlert r k \<Rightarrow> delete_incident_alert ok psl e u ip r k s)"

subsection \<open>Refused requests change nothing\<close>

text \<open>
  The contract of an endpoint: when it answers a plain request with an error, the store is as before.
  Then the refused requests of a run of plain ones can be left out.
\<close>

fun accepted :: "('q \<Rightarrow> 's \<Rightarrow> 'a http \<times> 's) \<Rightarrow> 'q list \<Rightarrow> 's \<Rightarrow> 'q list" where
  "accepted serve [] s = []"
| "accepted serve (q # qs) s =
     (if http_status (fst (serve q s)) < 400 then q # accepted serve qs (snd (serve q s)) else accepted serve qs s)"

locale atomic_endpoint =
  fixes serve :: "'q \<Rightarrow> 's \<Rightarrow> 'a http \<times> 's" and plain :: "'q \<Rightarrow> bool"
  assumes refused_keeps: "plain q \<Longrightarrow> 400 \<le> http_status (fst (serve q s)) \<Longrightarrow> snd (serve q s) = s"
begin

lemma run_accepted:
  "list_all plain qs \<Longrightarrow> fold (\<lambda>q s. snd (serve q s)) (accepted serve qs s) s = fold (\<lambda>q s. snd (serve q s)) qs s"
proof (induction qs arbitrary: s)
  case (Cons q qs)
  then show ?case
    using refused_keeps [of q s] by (cases "http_status (fst (serve q s)) < 400") simp_all
qed simp

end

lemma http_status_map [simp]: "http_status (map_http f x) = http_status x"
  by (cases x) simp_all

lemma answer_error:
  "400 \<le> http_status (fst (answer success caught view r)) \<Longrightarrow> success < 400 \<Longrightarrow> \<exists>err. fst r = Inl err"
  by (cases "fst r") (simp_all add: answer_def)

lemma snd_answer [simp]: "snd (answer success caught view r) = snd r"
  by (simp add: answer_def split: sum.splits)

lemma commit_target_refused: "fst (commit_target ok e a u g f d ip s) = Inl err \<Longrightarrow> snd (commit_target ok e a u g f d ip s) = s"
  by (simp add: commit_target_def split: if_splits)

lemma target_ops_refused:
  "fst (register_target psl dns ok e url m u ip s) = Inl err \<Longrightarrow> snd (register_target psl dns ok e url m u ip s) = s"
  "fst (update_target ok e i m2 b u ip s) = Inl err \<Longrightarrow> snd (update_target ok e i m2 b u ip s) = s"
  "fst (delete_target ok e i u ip s) = Inl err \<Longrightarrow> snd (delete_target ok e i u ip s) = s"
  "fst (pause_target ok e i u ip s) = Inl err \<Longrightarrow> snd (pause_target ok e i u ip s) = s"
  "fst (resume_target ok e i u ip s) = Inl err \<Longrightarrow> snd (resume_target ok e i u ip s) = s"
  "fst (reactivate_target ok e i u ip s) = Inl err \<Longrightarrow> snd (reactivate_target ok e i u ip s) = s"
  "fst (trigger_check_now dl c ok e i u ip s) = Inl err \<Longrightarrow> snd (trigger_check_now dl c ok e i u ip s) = s"
  by (simp_all add: register_target_def update_target_def delete_target_def pause_target_def resume_target_def
      reactivate_target_def trigger_check_now_def commit_target_def Let_def split: option.splits if_splits)

lemma serve_target_refused:
  "400 \<le> http_status (fst (serve_target w tc s)) \<Longrightarrow> snd (serve_target w tc s) = s"
proof -
  obtain e ok u ip q where tc: "tc = (e, ok, u, ip, q)"
    by (cases tc) auto
  note handlers = post_target_def patch_target_def remove_target_def post_pause_def post_resume_def
    post_reactivate_def post_check_now_def
  show "400 \<le> http_status (fst (serve_target w tc s)) \<Longrightarrow> snd (serve_target w tc s) = s"
    unfolding tc serve_target_def
    by (cases q) (auto simp: handlers split: option.splits if_splits dest!: answer_error dest: target_ops_refused)
qed

interpretation target_api: atomic_endpoint "serve_target w" "\<lambda>_. True" for w
  by unfold_locales (rule serve_target_refused)


lemma alert_ops_refused:
  "fst (acknowledge_alert e i u n tn ip s) = Inl err \<Longrightarrow> snd (acknowledge_alert e i u n tn ip s) = s"
  "fst (resolve_alert e i u n rn tn ip s) = Inl err \<Longrightarrow> snd (resolve_alert e i u n rn tn ip s) = s"
  "fst (dismiss_alert e i u dr rs tn n ip s) = Inl err \<Longrightarrow> snd (dismiss_alert e i u dr rs tn n ip s) = s"
  "fst (reopen_alert e i u rn n tn ip s) = Inl err \<Longrightarrow> snd (reopen_alert e i u rn n tn ip s) = s"
  by (auto simp: acknowledge_alert_def resolve_alert_def dismiss_alert_def reopen_alert_def Let_def
      split: sum.splits prod.splits bool.splits if_splits)

lemma serve_alert_refused: "400 \<le> http_status (fst (serve_alert ac s)) \<Longrightarrow> snd (serve_alert ac s) = s"
proof -
  obtain e u ip q where ac: "ac = (e, u, ip, q)"
    by (cases ac) auto
  note handlers = post_acknowledge_def post_resolve_def post_dismiss_def post_reopen_def
  show "400 \<le> http_status (fst (serve_alert ac s)) \<Longrightarrow> snd (serve_alert ac s) = s"
    unfolding ac serve_alert_def
    by (cases q) (auto simp: handlers split: if_splits dest!: answer_error dest: alert_ops_refused)
qed

interpretation alert_api: atomic_endpoint serve_alert "\<lambda>_. True"
  by unfold_locales (rule serve_alert_refused)

lemma incident_ops_refused:
  "fst (update_incident ok e r d u ip s) = Inl err \<Longrightarrow> snd (update_incident ok e r d u ip s) = s"
  "fst (attach_alerts ok e r ids u ip s) = Inl err \<Longrightarrow> snd (attach_alerts ok e r ids u ip s) = s"
  "fst (detach_alert ok e r k u ip s) = Inl err \<Longrightarrow> snd (detach_alert ok e r k u ip s) = s"
  by (auto simp: update_incident_def attach_alerts_def detach_alert_def Let_def first_row_def
      split: sum.splits prod.splits option.splits if_splits list.splits)

definition without_initial_alerts :: "incident_request_call \<Rightarrow> bool" where
  "without_initial_alerts = (\<lambda>(ok, e, u, ip, q). case q of PostIncident d \<Rightarrow> ic_alert_ids d = [] | _ \<Rightarrow> True)"

lemma create_refused:
  assumes "fst (create_incident ok e d u ip s) = Inl err"
  shows "snd (create_incident ok e d u ip s) = s \<or>
    ic_alert_ids d \<noteq> [] \<and> (\<exists>row. snd (create_incident ok e d u ip s) = add_incident row s)"
proof (cases "ok 0 \<and> ic_alert_ids d \<noteq> []")
  case False
  then show ?thesis using assms by (auto simp: create_incident_def attach_initial_def Let_def)
next
  case True
  define row where "row = new_incident e (ic_title d) (ic_description d) (EventSeverity_value (ic_severity d))
      (ic_assigned_to_user_id d) (map_option usr_id u)"
  obtain r s2 where at: "attach_alerts (\<lambda>n. ok (Suc n)) (env_shift 1 e) (ByInt (int (sq_incident s))) (ic_alert_ids d) u ip
      (add_incident row s) = (r, s2)" by fastforce
  have init: "attach_initial (\<lambda>n. ok (Suc n)) (env_shift 1 e) (row\<lparr>in_id := sq_incident s\<rparr>) (ic_alert_ids d) u ip
      (add_incident row s) = (r, s2)"
    using True at by (simp add: attach_initial_def)
  have run: "create_incident ok e d u ip s =
      (case (r, s2) of (Inl err, s2) \<Rightarrow> (Inl err, s2)
       | (Inr i, s2) \<Rightarrow> (Inr i, incident_audit e 3 ''INCIDENT_CREATED'' (map_option usr_id u) (show_nat (in_id i))
            [(''incident_uuid'', JStr (in_uuid i)), (''title'', JStr (in_title i)),
             (''severity'', JStr (in_severity i)), (''status'', JStr (in_status i)),
             (''alert_ids'', JList (map (\<lambda>k. JInt (int k)) (ic_alert_ids d)))] ip s2))"
    using True unfolding create_incident_def Let_def row_def [symmetric] init by simp
  then obtain err2 where r: "r = Inl err2" using assms by (cases r) simp_all
  have "s2 = add_incident row s"
    using incident_ops_refused(2) [of "\<lambda>n. ok (Suc n)" "env_shift 1 e" "ByInt (int (sq_incident s))" "ic_alert_ids d" u ip
        "add_incident row s" err2] unfolding at r by simp
  then show ?thesis using True by (auto simp: run r)
qed

lemma post_incident_refused:
  "400 \<le> http_status (fst (post_incident ok psl e u ip d s)) \<Longrightarrow>
     snd (post_incident ok psl e u ip d s) = s \<or>
     ic_alert_ids d \<noteq> [] \<and> (\<exists>row. snd (post_incident ok psl e u ip d s) = add_incident row s)"
  using create_refused [of ok e "d\<lparr>ic_title := str_strip (ic_title d)\<rparr>" "Some u" ip s]
  by (auto simp: post_incident_def incident_answer_def split: if_splits dest!: answer_error)

lemma serve_incident_refused:
  "without_initial_alerts ic \<Longrightarrow> 400 \<le> http_status (fst (serve_incident psl ic s)) \<Longrightarrow> snd (serve_incident psl ic s) = s"
proof -
  obtain ok e u ip q where ic: "ic = (ok, e, u, ip, q)"
    by (cases ic) auto
  note handlers = patch_incident_def post_incident_alerts_def delete_incident_alert_def incident_answer_def
  show "without_initial_alerts ic \<Longrightarrow> 400 \<le> http_status (fst (serve_incident psl ic s)) \<Longrightarrow> snd (serve_incident psl ic s) = s"
    unfolding ic serve_incident_def
    by (cases q) (auto simp: handlers without_initial_alerts_def split: if_splits dest!: answer_error
        dest: incident_ops_refused post_incident_refused)
qed

interpretation incident_api: atomic_endpoint "serve_incident psl" without_initial_alerts for psl
  by unfold_locales (rule serve_incident_refused)


definition sample_incident_calls :: "incident_request_call list" where
  \<comment> \<open>an incident is created, a second one is patched in vain\<close>
  "sample_incident_calls =
     [(\<lambda>_. True, sample_env 0, alice, None, PostIncident
        \<lparr>ic_title = ''Phishing'', ic_description = None, ic_severity = HIGH, ic_assigned_to_user_id = None,
         ic_alert_ids = []\<rparr>),
      (\<lambda>_. True, sample_env 5, alice, None, DeleteIncidentAlert ''7'' 3)]"


theorem failed_creation_leaves_incident:
  \<comment> \<open>an initial alert that does not exist: the answer is 404, the incident is there\<close>
  assumes "ok 0" "valid_title (ic_title d)" "short_notes (ic_description d)" "k \<in> set (ic_alert_ids d)"
    "k \<notin> al_id ` set (st_alerts s)" "sq_incident s \<notin> in_id ` set (st_incidents s)"
  shows "fst (post_incident ok psl e u ip d s) = Refused 404
    \<and> length (st_incidents (snd (post_incident ok psl e u ip d s))) = Suc (length (st_incidents s))"
proof -
  define row where "row = new_incident e (str_strip (ic_title d)) (ic_description d) (EventSeverity_value (ic_severity d))
      (ic_assigned_to_user_id d) (Some (usr_id u))"
  let ?new = "row\<lparr>in_id := sq_incident s\<rparr>" and ?s = "add_incident row s"
  have rows: "st_incidents ?s = st_incidents s @ [?new]" "st_alerts ?s = st_alerts s"
    by (simp_all add: add_defs)
  have "filter (\<lambda>i. in_id i = sq_incident s) (st_incidents s) = []"
    using assms(6) by (auto simp: filter_empty_conv image_iff)
  then have get: "get_incident (ByInt (int (sq_incident s))) (Some u) ?s = Inr ?new"
    by (simp add: get_incident_def parse_ref_def rows first_row_def owns_incident_def row_def)
  have ids: "ic_alert_ids d \<noteq> []"
    using assms(4) by auto
  have missing: "\<exists>k\<in>set (ic_alert_ids d). k \<notin> al_id ` set (filter (\<lambda>a. al_id a \<in> set (ic_alert_ids d)) (st_alerts s))"
    using assms(4, 5) by auto
  have "attach_alerts (\<lambda>n. ok (Suc n)) (env_shift 1 e) (ByInt (int (sq_incident s))) (ic_alert_ids d) (Some u) ip ?s
      = (Inl IncidentNotFoundError, ?s)"
    using ids missing by (simp only: attach_alerts_def get sum.case rows Let_def if_False if_True)
  then have "create_incident ok e (d\<lparr>ic_title := str_strip (ic_title d)\<rparr>) (Some u) ip s = (Inl IncidentNotFoundError, ?s)"
    using assms(1) ids by (simp add: create_incident_def attach_initial_def row_def [symmetric])
  then show ?thesis
    using assms(2, 3) rows
    by (simp add: post_incident_def incident_answer_def answer_def incident_status_def)
qed

theorem failed_creation_leaves_incident_witness:
  "fst (post_incident (\<lambda>_. True) sample_psl (sample_env 0) alice None
     \<lparr>ic_title = ''Phishing'', ic_description = None, ic_severity = HIGH, ic_assigned_to_user_id = None,
      ic_alert_ids = [7]\<rparr> empty_store) = Refused 404"
proof -
  let ?d = "\<lparr>ic_title = ''Phishing'', ic_description = None, ic_severity = HIGH, ic_assigned_to_user_id = None,
      ic_alert_ids = [7]\<rparr>"
  have t: "valid_title (ic_title ?d)" "short_notes (ic_description ?d)"
    by code_simp+
  have "(7::nat) \<in> set (ic_alert_ids ?d)"
    by simp
  from failed_creation_leaves_incident [OF TrueI t this] show ?thesis
    by simp
qed

lemma malformed_reference_unhandled:
  \<comment> \<open>the handlers for the alerts of an incident do not catch \<open>IncidentValidationError\<close>\<close>
  "fst (delete_incident_alert ok psl e u ip ''latest'' k s) = Unhandled"
  "get_incident_alerts u ''latest'' s = Unhandled"
  "get_incident_detail psl u ''latest'' s = Refused 400"
proof -
  have "py_int digit_value 10 ''latest'' = None" "\<not> is_uuid (str_strip ''latest'')"
    by code_simp+
  then have bad: "get_incident (ByText ''latest'') v t = Inl IncidentValidationError" for v t
    by (simp add: get_incident_def parse_ref_def)
  show "fst (delete_incident_alert ok psl e u ip ''latest'' k s) = Unhandled"
    by (simp add: delete_incident_alert_def incident_answer_def answer_def incident_status_def detach_alert_def bad)
  show "get_incident_alerts u ''latest'' s = Unhandled"
    by (simp add: get_incident_alerts_def answer_def incident_status_def bad)
  show "get_incident_detail psl u ''latest'' s = Refused 400"
    by (simp add: get_incident_detail_def incident_answer_def answer_def incident_status_def bad)
qed

subsection \<open>What a tenant can learn\<close>

definition same_view :: "user \<Rightarrow> store \<Rightarrow> store \<Rightarrow> bool" where
  \<comment> \<open>the alerts and targets the user may see, and the scheduler's row, whose epoch an answer shows\<close>
  "same_view u s t \<longleftrightarrow>
     visible_alerts u s = visible_alerts u t \<and> visible_targets u s = visible_targets u t \<and> st_sched s = st_sched t"

lemma triage_same_view:
  assumes "same_view u s t"
  shows "triage_guard tgt i u s = triage_guard tgt i u t"
  using assms by (simp add: triage_guard_def lock_and_get_alert_def find_alert_def same_view_def)

lemma fst_triage_commit: "fst (triage_commit e u ip action details payload a f nt s) = f a"
  by (simp add: triage_commit_def Let_def)

lemma answer_cong: "fst r = fst r' \<Longrightarrow> fst (answer success caught view r) = fst (answer success caught view r')"
  by (simp add: answer_def split: sum.splits)

lemma alert_ops_same_view:
  assumes "same_view u s t"
  shows "fst (acknowledge_alert e i u n tn ip s) = fst (acknowledge_alert e i u n tn ip t)"
    "fst (resolve_alert e i u n rn tn ip s) = fst (resolve_alert e i u n rn tn ip t)"
    "fst (dismiss_alert e i u dr rs tn n ip s) = fst (dismiss_alert e i u dr rs tn n ip t)"
    "fst (reopen_alert e i u rn n tn ip s) = fst (reopen_alert e i u rn n tn ip t)"
  unfolding acknowledge_alert_def resolve_alert_def dismiss_alert_def reopen_alert_def triage_same_view [OF assms] Let_def
  by (auto simp: case_prod_beta fst_triage_commit split: sum.splits bool.splits)

lemma target_ops_same_view:
  assumes "same_view u s t"
  shows "fst (update_target ok e i m2 b u ip s) = fst (update_target ok e i m2 b u ip t)"
    "fst (delete_target ok e i u ip s) = fst (delete_target ok e i u ip t)"
    "fst (pause_target ok e i u ip s) = fst (pause_target ok e i u ip t)"
    "fst (resume_target ok e i u ip s) = fst (resume_target ok e i u ip t)"
    "fst (reactivate_target ok e i u ip s) = fst (reactivate_target ok e i u ip t)"
    "fst (trigger_check_now dl c ok e i u ip s) = fst (trigger_check_now dl c ok e i u ip t)"
proof -
  have get: "get_target_by_uuid i u s = get_target_by_uuid i u t" for i
    using assms by (simp add: get_target_by_uuid_def same_view_def)
  have epoch: "current_epoch_or_one s = current_epoch_or_one t"
    using assms by (simp add: same_view_def current_epoch_or_one_def)
  show "fst (update_target ok e i m2 b u ip s) = fst (update_target ok e i m2 b u ip t)"
    "fst (delete_target ok e i u ip s) = fst (delete_target ok e i u ip t)"
    "fst (pause_target ok e i u ip s) = fst (pause_target ok e i u ip t)"
    "fst (resume_target ok e i u ip s) = fst (resume_target ok e i u ip t)"
    "fst (reactivate_target ok e i u ip s) = fst (reactivate_target ok e i u ip t)"
    "fst (trigger_check_now dl c ok e i u ip s) = fst (trigger_check_now dl c ok e i u ip t)"
    by (simp_all add: update_target_def delete_target_def pause_target_def resume_target_def reactivate_target_def
        trigger_check_now_def commit_target_def get epoch Let_def split: option.splits)
qed

text \<open>A new row's number is drawn from a sequence all tenants share; it is left out of the comparison.\<close>

fun hide_row_id :: "target_body \<Rightarrow> target_body" where
  "hide_row_id (TargetBody g) = TargetBody (g\<lparr>tg_id := 0\<rparr>)"
| "hide_row_id b = b"

lemma register_same_view:
  assumes "same_view u s t"
  shows "map_sum id (tg_id_update (\<lambda>_. 0)) (fst (register_target psl dns ok e url m u ip s))
    = map_sum id (tg_id_update (\<lambda>_. 0)) (fst (register_target psl dns ok e url m u ip t))"
proof -
  have own: "active_targets_of (usr_id u) x = filter (\<lambda>g. tg_user_id g = usr_id u \<and> tg_is_active g) (visible_targets u x)" for x
    by (auto simp: active_targets_of_def visible_targets_def intro!: filter_cong)
  have n: "length (active_targets_of (usr_id u) s) = length (active_targets_of (usr_id u) t)"
    using assms by (simp add: own same_view_def)
  show ?thesis
    by (simp add: register_target_def n Let_def)
qed

lemma map_answer: "map_http f (fst (answer success caught view r)) = fst (answer success caught (\<lambda>x. f (view x)) r)"
  by (simp add: answer_def split: sum.splits option.splits)

lemma answer_map_sum: "fst (answer success caught (\<lambda>x. view (h x)) r) = fst (answer success caught view (map_sum id h (fst r), snd r))"
  by (simp add: answer_def split: sum.splits)

text \<open>Requests of other tenants, in any order.\<close>

datatype api_call = TargetCall target_call | AlertCall alert_call

fun caller :: "api_call \<Rightarrow> user" where
  "caller (TargetCall (e, ok, u, ip, q)) = u"
| "caller (AlertCall (e, u, ip, q)) = u"

fun serve_call :: "monitor_world \<Rightarrow> api_call \<Rightarrow> store \<Rightarrow> store" where
  "serve_call w (TargetCall c) s = snd (serve_target w c s)"
| "serve_call w (AlertCall c) s = snd (serve_alert c s)"

lemma serve_target_monitor:
  "snd (serve_target w (e, ok, u, ip, q) s) = s \<or>
   (\<exists>cmd. snd (serve_target w (e, ok, u, ip, q) s) = run_monitor w (e, ok, u, ip, cmd) s)"
proof (cases q)
  case (PostTarget url m)
  show ?thesis
  proof (cases "MonitoringTargetCreate url m")
    case (Some p)
    then have "snd (serve_target w (e, ok, u, ip, q) s) = run_monitor w (e, ok, u, ip, Register (fst p) (snd p)) s"
      by (simp add: PostTarget serve_target_def post_target_def run_monitor_def case_prod_beta)
    then show ?thesis by blast
  qed (simp add: PostTarget serve_target_def post_target_def)
next
  case (PatchTarget i m a)
  have "snd (serve_target w (e, ok, u, ip, q) s) \<in> {s, run_monitor w (e, ok, u, ip, monitor_command.Update i m a) s}"
    by (simp add: PatchTarget serve_target_def patch_target_def run_monitor_def)
  then show ?thesis by blast
next
  case (DeleteTarget i)
  have "snd (serve_target w (e, ok, u, ip, q) s) = run_monitor w (e, ok, u, ip, Delete i) s"
    by (simp add: DeleteTarget serve_target_def remove_target_def run_monitor_def)
  then show ?thesis by blast
next
  case (PostPause i)
  have "snd (serve_target w (e, ok, u, ip, q) s) = run_monitor w (e, ok, u, ip, Pause i) s"
    by (simp add: PostPause serve_target_def post_pause_def run_monitor_def)
  then show ?thesis by blast
next
  case (PostResume i)
  have "snd (serve_target w (e, ok, u, ip, q) s) = run_monitor w (e, ok, u, ip, Resume i) s"
    by (simp add: PostResume serve_target_def post_resume_def run_monitor_def)
  then show ?thesis by blast
next
  case (PostReactivate i)
  have "snd (serve_target w (e, ok, u, ip, q) s) = run_monitor w (e, ok, u, ip, Reactivate i) s"
    by (simp add: PostReactivate serve_target_def post_reactivate_def run_monitor_def)
  then show ?thesis by blast
next
  case (PostCheckNow i)
  have "snd (serve_target w (e, ok, u, ip, q) s) = run_monitor w (e, ok, u, ip, CheckNow i) s"
    by (simp add: PostCheckNow serve_target_def post_check_now_def run_monitor_def)
  then show ?thesis by blast
qed

lemma serve_alert_triage:
  "snd (serve_alert (e, u, ip, q) s) = s \<or> (\<exists>cmd. snd (serve_alert (e, u, ip, q) s) = triage_exec (e, u, cmd) s)"
proof (cases q)
  case (PostAcknowledge i n)
  have "snd (serve_alert (e, u, ip, q) s) \<in> {s, triage_exec (e, u, Acknowledge i n None ip) s}"
    by (simp add: PostAcknowledge serve_alert_def post_acknowledge_def triage_exec_def)
  then show ?thesis by blast
next
  case (PostResolve i n)
  have "snd (serve_alert (e, u, ip, q) s) \<in> {s, triage_exec (e, u, Resolve i n None None ip) s}"
    by (simp add: PostResolve serve_alert_def post_resolve_def triage_exec_def)
  then show ?thesis by blast
next
  case (PostDismiss i r tn n)
  have "snd (serve_alert (e, u, ip, q) s)
      \<in> {s, triage_exec (e, u, Dismiss i None (Some (str_strip r)) None (str_or tn n) ip) s}"
    by (simp add: PostDismiss serve_alert_def post_dismiss_def triage_exec_def)
  then show ?thesis by blast
next
  case (PostReopen i n)
  have "snd (serve_alert (e, u, ip, q) s) \<in> {s, triage_exec (e, u, Reopen i None n None ip) s}"
    by (simp add: PostReopen serve_alert_def post_reopen_def triage_exec_def)
  then show ?thesis by blast
qed

lemma triage_exec_targets: "st_targets (triage_exec (e, u, cmd) s) = st_targets s \<and> st_sched (triage_exec (e, u, cmd) s) = st_sched s"
proof -
  have "snd (run_triage e u cmd s) = s \<or> (\<exists>f a. triage_effect (triage_target cmd) f (triage_uuid cmd) u s (snd (run_triage e u cmd s)) a)"
    using run_triage_effect [OF surjective_pairing, of e u cmd s] by blast
  then show ?thesis
    by (auto simp: triage_exec_def triage_effect_def triage_commit_def Let_def emit_soc_def add_defs set_defs split: option.splits)
qed

lemma run_monitor_alerts:
  "st_alerts (run_monitor w (e, ok, u, ip, cmd) s) = st_alerts s \<and> st_sched (run_monitor w (e, ok, u, ip, cmd) s) = st_sched s"
  by (cases cmd) (simp_all add: run_monitor_def register_target_def update_target_def delete_target_def pause_target_def
      resume_target_def reactivate_target_def trigger_check_now_def commit_target_def target_audit_def Let_def add_defs set_defs
      split: option.splits)

lemma visible_to_tenant:
  assumes "\<not> is_admin u"
  shows "visible_alerts u s = filter (\<lambda>a. al_user_id a = Some (usr_id u)) (st_alerts s)"
    "visible_targets u s = filter (\<lambda>g. Some (tg_user_id g) = Some (usr_id u)) (st_targets s)"
  using assms by (simp_all add: visible_alerts_def visible_targets_def)

lemma foreign_call:
  assumes "store_ids s" "\<not> is_admin u" "\<not> is_admin (caller c)" "usr_id (caller c) \<noteq> usr_id u"
  shows "store_ids (serve_call w c s) \<and> same_view u (serve_call w c s) s"
proof (cases c)
  case (TargetCall tc)
  obtain e ok v ip q where tc: "tc = (e, ok, v, ip, q)"
    by (cases tc) auto
  have act: "monitor_actor (e, ok, v, ip, cmd) = Some (usr_id v)" "usr_id v \<noteq> usr_id u" for cmd
    using assms(3, 4) by (simp_all add: TargetCall tc monitor_actor_def)
  have "store_ids (run_monitor w (e, ok, v, ip, cmd) s) \<and> same_view u (run_monitor w (e, ok, v, ip, cmd) s) s" for cmd
    using run_monitor_ids [OF assms(1)] run_monitor_alerts
      target_tenants.exec_foreign [OF assms(1) act(1), of "Some (usr_id u)"] act(2)
    by (simp add: same_view_def visible_to_tenant [OF assms(2)])
  then show ?thesis
    using serve_target_monitor [of w e ok v ip q s] assms(1) by (auto simp: TargetCall tc same_view_def)
next
  case (AlertCall ac)
  obtain e v ip q where ac: "ac = (e, v, ip, q)"
    by (cases ac) auto
  have act: "triage_actor (e, v, cmd) = Some (usr_id v)" "usr_id v \<noteq> usr_id u" for cmd
    using assms(3, 4) by (simp_all add: AlertCall ac triage_actor_def)
  have "store_ids (triage_exec (e, v, cmd) s) \<and> same_view u (triage_exec (e, v, cmd) s) s" for cmd
    using alert_tenants.exec_inv [OF assms(1)] triage_exec_targets
      alert_tenants.exec_foreign [OF assms(1) act(1), of "Some (usr_id u)"] act(2)
    by (simp add: same_view_def visible_to_tenant [OF assms(2)])
  then show ?thesis
    using serve_alert_triage [of e v ip q s] assms(1) by (auto simp: AlertCall ac same_view_def)
qed

lemma foreign_calls:
  assumes "store_ids s" "\<not> is_admin u" "\<And>c. c \<in> set cs \<Longrightarrow> \<not> is_admin (caller c) \<and> usr_id (caller c) \<noteq> usr_id u"
  shows "same_view u (fold (serve_call w) cs s) s"
  using assms(1, 3)
proof (induction cs arbitrary: s)
  case (Cons c cs)
  have "store_ids (serve_call w c s) \<and> same_view u (serve_call w c s) s"
    using foreign_call [OF Cons.prems(1) assms(2)] Cons.prems(2) by simp
  then show ?case
    using Cons.IH [of "serve_call w c s"] Cons.prems(2) by (simp add: same_view_def)
qed (simp add: same_view_def)

lemma serve_target_same_view:
  assumes "same_view u s t"
  shows "map_http hide_row_id (fst (serve_target w (e, ok, u, ip, q) s)) = map_http hide_row_id (fst (serve_target w (e, ok, u, ip, q) t))"
proof (cases q)
  case (PostTarget url m)
  have "map_http (\<lambda>x. hide_row_id (TargetBody x)) (fst (answer c h id (register_target psl dns ok e url m u ip x)))
      = fst (answer c h TargetBody (map_sum id (tg_id_update (\<lambda>_. 0)) (fst (register_target psl dns ok e url m u ip x)), x))"
    for c h psl dns url m x
    by (simp add: answer_def split: sum.splits option.splits)
  then have "map_http (\<lambda>x. hide_row_id (TargetBody x)) (fst (answer c h id (register_target psl dns ok e url m u ip s)))
      = map_http (\<lambda>x. hide_row_id (TargetBody x)) (fst (answer c h id (register_target psl dns ok e url m u ip t)))"
    for c h psl dns url m
    using register_same_view [OF assms] by (simp only: answer_cong [of "(r, s)" "(r, t)" for r] fst_conv)
  then show ?thesis
    by (simp add: PostTarget serve_target_def post_target_def http.map_comp comp_def case_prod_beta split: option.splits)
qed (auto simp: serve_target_def patch_target_def remove_target_def post_pause_def post_resume_def post_reactivate_def
      post_check_now_def intro!: arg_cong [where f = "map_http hide_row_id"] arg_cong [where f = "map_http TargetBody"]
      arg_cong [where f = "map_http ClaimBody"] arg_cong [where f = "map_http (\<lambda>_. NoBody)"]
      answer_cong target_ops_same_view [OF assms])

lemma serve_alert_same_view:
  assumes "same_view u s t"
  shows "fst (serve_alert (e, u, ip, q) s) = fst (serve_alert (e, u, ip, q) t)"
  by (cases q) (auto simp: serve_alert_def post_acknowledge_def post_resolve_def post_dismiss_def post_reopen_def
      intro!: answer_cong alert_ops_same_view [OF assms])


text \<open>
  C32: What other tenants do through the alert and target API, in any order, has no effect on
  any answer a tenant gets from it: not on the pages and rows it reads, not on the result of its own
  requests (quotas, guards, error codes), except for the row number of a newly registered target,
  which comes from a sequence all tenants share.
\<close>
theorem tenants_do_not_interfere:
  assumes "store_ids s" "\<not> is_admin u"
    and "\<And>c. c \<in> set cs \<Longrightarrow> \<not> is_admin (caller c) \<and> usr_id (caller c) \<noteq> usr_id u"
    and "s' = fold (serve_call w) cs s"
  shows "get_targets u page psize inactive s' = get_targets u page psize inactive s
    \<and> get_target u uuid s' = get_target u uuid s
    \<and> get_alerts u page psize sev status rule itype inc s' = get_alerts u page psize sev status rule itype inc s
    \<and> get_alert_detail u uuid s' = get_alert_detail u uuid s
    \<and> fst (serve_alert (e, u, ip, aq) s') = fst (serve_alert (e, u, ip, aq) s)
    \<and> map_http hide_row_id (fst (serve_target w' (e, ok, u, ip, tq) s')) = map_http hide_row_id (fst (serve_target w' (e, ok, u, ip, tq) s))"
proof -
  have v: "same_view u s' s"
    using foreign_calls [OF assms(1-3)] assms(4) by simp
  then have rows: "visible_alerts u s' = visible_alerts u s" "visible_targets u s' = visible_targets u s"
    by (simp_all add: same_view_def)
  have detail: "fst (answer c h id (get_alert_by_uuid uuid u s', s')) = fst (answer c h id (get_alert_by_uuid uuid u s, s))" for c h
    by (rule answer_cong) (simp add: get_alert_by_uuid_def find_alert_def rows)
  show ?thesis
    using serve_alert_same_view [OF v] serve_target_same_view [OF v]
    by (simp add: get_targets_def list_targets_def get_target_def get_target_by_uuid_def get_alerts_def list_alerts_def
        get_alert_detail_def detail rows)
qed

theorem tenants_do_not_interfere_witness:
  "fst (serve_alert (sample_env 9, bob, None, PostResolve ''uuid-xxx'' None) (fold (serve_call sample_world)
      [AlertCall (sample_env 5, alice, None, PostDismiss ''uuid-xxx'' ''noise'' None None),
       TargetCall (sample_env 6, True, alice, None, PostTarget ''http://evil.com'' 60)] sample_store))
   = fst (serve_alert (sample_env 9, bob, None, PostResolve ''uuid-xxx'' None) sample_store)"
  using tenants_do_not_interfere [where s = sample_store and u = bob and cs =
      "[AlertCall (sample_env 5, alice, None, PostDismiss ''uuid-xxx'' ''noise'' None None),
       TargetCall (sample_env 6, True, alice, None, PostTarget ''http://evil.com'' 60)]"
      and e = "sample_env 9" and ip = None and aq = "PostResolve ''uuid-xxx'' None",
      OF sample_store_ids _ _ refl]
  by force

subsection \<open>The targets that come in through the API\<close>

definition target_ok :: "target \<Rightarrow> bool" where
  "target_ok g \<longleftrightarrow>
     valid_interval (tg_check_interval_minutes g) \<and> require_http_scheme (tg_url g) = Some (tg_url g) \<and> length (tg_url g) \<le> 2048"

lemma created_ok:
  assumes "MonitoringTargetCreate url m = Some (url', m')"
  shows "valid_interval m' \<and> require_http_scheme url' = Some url' \<and> length url' \<le> 2048"
proof -
  have c: "valid_interval m" "length url \<le> 2048" "require_http_scheme url = Some url'" "m' = m"
    using assms by (auto simp: MonitoringTargetCreate_def split: if_splits)
  then have "url' = str_strip url"
    by (simp add: require_http_scheme_def split: option.splits if_splits)
  moreover from this c(3) have "require_http_scheme url' = Some url'"
    by (auto simp: require_http_scheme_def split: option.splits if_splits)
  ultimately show ?thesis
    using c length_str_strip [of url] by simp
qed

theorem api_targets_ok:
  assumes "\<forall>g\<in>set (st_targets s). target_ok g"
  shows "\<forall>g\<in>set (st_targets (snd (serve_target w tc s))). target_ok g"
proof -
  obtain e ok u ip q where tc: "tc = (e, ok, u, ip, q)"
    by (cases tc) auto
  have new: "target_ok ((new_target e url d m u)\<lparr>tg_id := k\<rparr>)" if "MonitoringTargetCreate x y = Some (url, m)" for x y url m d k
    using created_ok [OF that] by (simp add: target_ok_def new_target_def)
  note ops = patch_target_def remove_target_def post_pause_def post_resume_def post_reactivate_def post_check_now_def
    update_target_def delete_target_def pause_target_def resume_target_def reactivate_target_def trigger_check_now_def
    commit_target_def Let_def
  show ?thesis
  proof (cases q)
    case (PostTarget url m)
    then show ?thesis
      using assms new by (auto simp: tc serve_target_def post_target_def register_target_def Let_def split: option.splits)
  qed (use assms in \<open>auto simp: tc serve_target_def ops target_ok_def upd_rows_def lease_target_def update_attrs_def
      split: option.splits if_splits\<close>)
qed

lemma attach_reveals_alert_ids:
  \<comment> \<open>the answer tells another tenant's alert from a number no alert has\<close>
  assumes "get_incident (ByText r) (Some u) s = Inr i" "\<not> is_admin u"
    "\<And>a. a \<in> set (st_alerts s) \<Longrightarrow> al_id a = k \<Longrightarrow> al_user_id a \<noteq> Some (usr_id u)"
  shows "fst (post_incident_alerts ok psl e u ip r [k] s) = Refused (if k \<in> al_id ` set (st_alerts s) then 403 else 404)"
proof (cases "k \<in> al_id ` set (st_alerts s)")
  case True
  let ?as = "filter (\<lambda>a. al_id a \<in> set [k]) (st_alerts s)"
  obtain a where a: "a \<in> set (st_alerts s)" "al_id a = k"
    using True by auto
  then obtain b bs where bs: "?as = b # bs"
    by (cases ?as) (auto simp: filter_empty_conv)
  then have "b \<in> set ?as" by simp
  then have b: "b \<in> set (st_alerts s)" "al_id b = k" by simp_all
  then have "attach_check (Some u) (in_id i) ?as = Some IncidentAccessDeniedError"
    using assms(2) assms(3) [OF b] unfolding bs attach_check_def by (simp add: attach_check_Some owns_alert_def)
  then have "attach_alerts ok e (ByText r) [k] (Some u) ip s = (Inl IncidentAccessDeniedError, s)"
    using True by (auto simp: attach_alerts_def assms(1))
  then show ?thesis
    using True by (simp add: post_incident_alerts_def incident_answer_def answer_def incident_status_def)
next
  case False
  then have "k \<notin> al_id ` set (filter (\<lambda>a. al_id a \<in> set [k]) (st_alerts s))"
    by auto
  then have "attach_alerts ok e (ByText r) [k] (Some u) ip s = (Inl IncidentNotFoundError, s)"
    by (simp add: attach_alerts_def assms(1) Let_def)
  then show ?thesis
    using False by (simp add: post_incident_alerts_def incident_answer_def answer_def incident_status_def)
qed

end
