(* ===== verification/RoutersSoc.thy ===== *)
theory RoutersSoc
  imports Routers ContainmentSafety Preferences
begin

text \<open>
  The HTTP handlers of \<open>api/routers/containment.py\<close> and \<open>api/routers/notifications.py\<close>: the validation of
  a request, the tenant scope of the lists, the call of the service, the errors as status codes.  The
  commit that \<open>contain_action\<close> ends with is taken to succeed.
\<close>

subsection \<open>Containment\<close>

definition containment_status :: "containment_error \<Rightarrow> nat" where
  "containment_status err =
     (case err of HTTP_404_NOT_FOUND \<Rightarrow> 404 | HTTP_400_BAD_REQUEST \<Rightarrow> 400 | HTTP_409_CONFLICT \<Rightarrow> 409
      | HTTP_429_TOO_MANY \<Rightarrow> 429)"

record ContainmentRequest =
  cr_action_type :: action_type
  cr_target_identifier :: string
  cr_alert_id :: "nat option"
  cr_reason :: string

definition valid_containment :: "ContainmentRequest \<Rightarrow> bool" where
  "valid_containment b =
     (1 \<le> length (cr_target_identifier b) \<and> length (cr_target_identifier b) \<le> 512 \<and> length (cr_reason b) \<le> 255)"

definition contain_action ::
  "services \<Rightarrow> env \<Rightarrow> user \<Rightarrow> ContainmentRequest \<Rightarrow> soar \<Rightarrow> action http \<times> soar" where
  "contain_action w e u b s =
     (if valid_containment b then
        apfst (Reply 201) (execute_action w e
          \<lparr>aq_action_type = cr_action_type b, aq_target_identifier = cr_target_identifier b,
           aq_tenant_id = usr_id u, aq_trigger_source = ''manual_analyst'', aq_alert_id = cr_alert_id b,
           aq_run_id = None, aq_actor_user_id = Some (usr_id u), aq_reason = cr_reason b\<rparr> s)
      else (Refused 422, s))"

record 'r soc_page =
  sp_items :: "'r list"
  sp_total :: nat
  sp_page :: int
  sp_page_size :: int

definition equals_filter :: "string option \<Rightarrow> string \<Rightarrow> bool" where
  \<comment> \<open>\<open>if f: query = query.where(column == f)\<close>\<close>
  "equals_filter f v = (\<not> truthy_str f \<or> f = Some v)"

definition soc_page_of :: "('r \<Rightarrow> time) \<Rightarrow> int \<Rightarrow> int \<Rightarrow> 'r list \<Rightarrow> 'r soc_page" where
  "soc_page_of key page psize q =
     \<lparr>sp_items = page_rows (nat ((page - 1) * psize)) (nat psize) (sort_key (\<lambda>r. - key r) q),
      sp_total = length q, sp_page = page, sp_page_size = psize\<rparr>"

definition list_actions ::
  "user \<Rightarrow> int \<Rightarrow> int \<Rightarrow> string option \<Rightarrow> string option \<Rightarrow> soar \<Rightarrow> action soc_page http" where
  "list_actions u page psize ty st s =
     (if paged page psize then
        Reply 200 (soc_page_of ca_created_at page psize
          (filter (\<lambda>a. ca_tenant_id a = usr_id u \<and> equals_filter ty (action_type_value (ca_action_type a))
               \<and> equals_filter st (action_status_value (ca_status a))) (so_actions s)))
      else Refused 422)"

definition get_action :: "user \<Rightarrow> string \<Rightarrow> soar \<Rightarrow> action http" where
  "get_action u uuid s =
     (case action_of_uuid uuid s of
        None \<Rightarrow> Refused 404
      | Some a \<Rightarrow> if ca_tenant_id a \<noteq> usr_id u \<and> \<not> is_admin u then Refused 404 else Reply 200 a)"

definition post_revert :: "env \<Rightarrow> user \<Rightarrow> string \<Rightarrow> soar \<Rightarrow> action http \<times> soar" where
  "post_revert e u uuid s = answer 200 (\<lambda>err. Some (containment_status err)) id (revert_action e uuid u s)"

definition list_playbook_runs ::
  "(playbook_run \<Rightarrow> action list option) \<Rightarrow> user \<Rightarrow> int \<Rightarrow> int \<Rightarrow> string option \<Rightarrow> soar
     \<Rightarrow> (playbook_run \<times> action list) soc_page http" where
  \<comment> \<open>\<open>acts\<close>: what the session answers when the response reads the relationship \<open>actions\<close>, which the query
      does not load; \<open>None\<close> is an exception, as the lazy load of an \<open>AsyncSession\<close> raises\<close>
  "list_playbook_runs acts u page psize st s =
     (if paged page psize then
        (let p = soc_page_of pr_started_at page psize
               (filter (\<lambda>r. pr_tenant_id r = usr_id u \<and> equals_filter st (run_status_value (pr_status r))) (so_runs s))
         in if \<exists>r\<in>set (sp_items p). acts r = None then Refused 500
            else Reply 200 \<lparr>sp_items = map (\<lambda>r. (r, the (acts r))) (sp_items p), sp_total = sp_total p,
                            sp_page = sp_page p, sp_page_size = sp_page_size p\<rparr>)
      else Refused 422)"

definition get_policy :: "services \<Rightarrow> env \<Rightarrow> user \<Rightarrow> soar \<Rightarrow> policy http \<times> soar" where
  \<comment> \<open>a default row is shown but not committed\<close>
  "get_policy w e u s = (Reply 200 (fst (get_or_create_policy w e (usr_id u) s)), others_committed w (usr_id u) s)"

definition valid_policy_update :: "ContainmentPolicyUpdate \<Rightarrow> bool" where
  "valid_policy_update d = (60 \<le> pu_blacklist_ttl_seconds d \<and> pu_blacklist_ttl_seconds d \<le> 2592000)"

definition put_policy ::
  "services \<Rightarrow> env \<Rightarrow> user \<Rightarrow> ContainmentPolicyUpdate \<Rightarrow> soar \<Rightarrow> policy http \<times> soar" where
  "put_policy w e u d s =
     (if valid_policy_update d then
        answer 200 (\<lambda>err. Some (containment_status err)) id (update_policy w e (usr_id u) d (usr_id u) s)
      else (Refused 422, s))"

subsection \<open>Notifications\<close>

definition get_notifications ::
  "user \<Rightarrow> int \<Rightarrow> int \<Rightarrow> bool option \<Rightarrow> string option \<Rightarrow> store \<Rightarrow> notif_page http" where
  "get_notifications u page psize is_read sev s =
     (if paged page psize then Reply 200 (list_notifications u page psize is_read sev s) else Refused 422)"

definition get_unread :: "user \<Rightarrow> store \<Rightarrow> nat http" where
  "get_unread u s = Reply 200 (get_unread_count u s)"

definition notif_status :: "notif_error \<Rightarrow> nat option" where
  "notif_status err = Some (if err = NotificationNotFoundError then 404 else 500)"

definition mark_notification_read :: "env \<Rightarrow> user \<Rightarrow> string \<Rightarrow> store \<Rightarrow> notification http \<times> store" where
  "mark_notification_read e u uuid s = answer 200 notif_status id (mark_as_read e uuid u s)"

definition mark_all_notifications_read :: "env \<Rightarrow> user \<Rightarrow> store \<Rightarrow> nat http \<times> store" where
  "mark_all_notifications_read e u s = apfst (Reply 200) (mark_all_as_read e u s)"

definition show_preferences :: "vault \<Rightarrow> env \<Rightarrow> user \<Rightarrow> store \<Rightarrow> preference_response http \<times> store" where
  "show_preferences v e u s = apfst (Reply 200) (get_preferences v e u s)"

definition put_preferences ::
  "vault \<Rightarrow> (string \<Rightarrow> string list option) \<Rightarrow> env \<Rightarrow> entropy \<Rightarrow> user \<Rightarrow> NotificationPreferenceUpdate \<Rightarrow>
   string option \<Rightarrow> store \<Rightarrow> preference_response http \<times> store" where
  \<comment> \<open>every error of the service is a \<open>ValueError\<close>\<close>
  "put_preferences v dns e en u d ip s =
     (case validate_update d of
        None \<Rightarrow> (Refused 422, s)
      | Some d' \<Rightarrow> answer 200 (\<lambda>err. Some 422) id (update_preferences v dns e en u d' ip s))"

subsection \<open>Requests\<close>

datatype soc_request =
    PostContain ContainmentRequest
  | PostRevert string
  | PutPolicy ContainmentPolicyUpdate

datatype soc_body = ActionBody action | PolicyBody policy

definition serve_soc :: "services \<Rightarrow> env \<times> user \<times> soc_request \<Rightarrow> soar \<Rightarrow> soc_body http \<times> soar" where
  "serve_soc w c s =
     (case c of (e, u, q) \<Rightarrow>
        case q of
          PostContain b \<Rightarrow> apfst (map_http ActionBody) (contain_action w e u b s)
        | PostRevert i \<Rightarrow> apfst (map_http ActionBody) (post_revert e u i s)
        | PutPolicy d \<Rightarrow> apfst (map_http PolicyBody) (put_policy w e u d s))"

datatype inbox_request = MarkRead string | MarkAllRead

definition serve_inbox :: "env \<times> user \<times> inbox_request \<Rightarrow> store \<Rightarrow> (notification + nat) http \<times> store" where
  "serve_inbox c s =
     (case c of (e, u, q) \<Rightarrow>
        case q of
          MarkRead i \<Rightarrow> apfst (map_http Inl) (mark_notification_read e u i s)
        | MarkAllRead \<Rightarrow> apfst (map_http Inr) (mark_all_notifications_read e u s))"

subsection \<open>Refused requests change nothing\<close>

definition alone :: "services \<Rightarrow> services" where
  \<comment> \<open>no other session commits in between\<close>
  "alone w = w\<lparr>sw_race := (\<lambda>s. s), sw_overtake := (\<lambda>s. s)\<rparr>"

lemma race_alone [simp]: "sw_race (alone w) = (\<lambda>s. s)" "sw_overtake (alone w) = (\<lambda>s. s)"
  by (simp_all add: alone_def)

lemma others_alone [simp]: "others_committed (alone w) t s = s"
  by (simp add: others_committed_def)

lemma soc_ops_refused:
  "fst (revert_action e i u s) = Inl err \<Longrightarrow> snd (revert_action e i u s) = s"
  "fst (update_policy (alone w) e t d k s) = Inl err2 \<Longrightarrow> snd (update_policy (alone w) e t d k s) = s"
  by (auto simp: revert_action_def update_policy_def Let_def case_prod_beta split: option.splits if_splits)

lemma serve_soc_refused:
  "400 \<le> http_status (fst (serve_soc (alone w) c s)) \<Longrightarrow> snd (serve_soc (alone w) c s) = s"
proof -
  obtain e u q where c: "c = (e, u, q)"
    by (cases c) auto
  show "400 \<le> http_status (fst (serve_soc (alone w) c s)) \<Longrightarrow> snd (serve_soc (alone w) c s) = s"
    unfolding c serve_soc_def
    by (cases q) (auto simp: contain_action_def post_revert_def put_policy_def split: if_splits
        dest!: answer_error dest: soc_ops_refused)
qed

interpretation soc_api: atomic_endpoint "serve_soc (alone w)" "\<lambda>_. True" for w
  by unfold_locales (rule serve_soc_refused)

lemma mark_as_read_refused: "fst (mark_as_read e i u s) = Inl err \<Longrightarrow> snd (mark_as_read e i u s) = s"
  by (auto simp: mark_as_read_def Let_def first_row_def split: option.splits if_splits list.splits)

lemma serve_inbox_refused: "400 \<le> http_status (fst (serve_inbox c s)) \<Longrightarrow> snd (serve_inbox c s) = s"
proof -
  obtain e u q where c: "c = (e, u, q)"
    by (cases c) auto
  show "400 \<le> http_status (fst (serve_inbox c s)) \<Longrightarrow> snd (serve_inbox c s) = s"
    unfolding c serve_inbox_def
    by (cases q) (auto simp: mark_notification_read_def mark_all_notifications_read_def mark_all_as_read_def Let_def
        dest!: answer_error dest: mark_as_read_refused)
qed

interpretation inbox_api: atomic_endpoint serve_inbox "\<lambda>_. True"
  by unfold_locales (rule serve_inbox_refused)

theorem soc_refusals_change_nothing:
  "fold (\<lambda>q s. snd (serve_soc (alone w) q s)) (accepted (serve_soc (alone w)) qs s) s
     = fold (\<lambda>q s. snd (serve_soc (alone w) q s)) qs s
   \<and> fold (\<lambda>q s. snd (serve_inbox q s)) (accepted serve_inbox is t) t = fold (\<lambda>q s. snd (serve_inbox q s)) is t"
  by (intro conjI soc_api.run_accepted inbox_api.run_accepted) (simp_all add: list_all_iff)

subsection \<open>What other tenants see\<close>

lemma in_soc_page: "r \<in> set (sp_items (soc_page_of key page psize q)) \<Longrightarrow> r \<in> set q"
proof -
  assume "r \<in> set (sp_items (soc_page_of key page psize q))"
  then have "r \<in> set (sort_key (\<lambda>r. - key r) q)"
    by (auto simp: soc_page_of_def page_rows_def dest!: in_set_takeD in_set_dropD)
  then show ?thesis by simp
qed

text \<open>
  A containment action of another tenant cannot be told from one that does not exist: reading
  and reverting it are answered with 404 without any effect, and no list shows it.
\<close>
theorem foreign_actions_look_missing:
  assumes "\<not> is_admin u"
    and "\<And>a. a \<in> set (so_actions s) \<Longrightarrow> ca_uuid a = x \<Longrightarrow> ca_tenant_id a \<noteq> usr_id u"
  shows "get_action u x s = Refused 404 \<and> post_revert e u x s = (Refused 404, s)
    \<and> (list_actions u page psize ty st s = Reply c p \<longrightarrow> x \<notin> ca_uuid ` set (sp_items p))"
proof (intro conjI impI)
  have "ca_tenant_id a \<noteq> usr_id u" if "action_of_uuid x s = Some a" for a
    using that assms(2) by (auto simp: action_of_uuid_def dest!: first_row_Some)
  then have r: "revert_action e x u s = (Inl HTTP_404_NOT_FOUND, s)" and "get_action u x s = Refused 404"
    using assms(1) by (auto simp: revert_action_def get_action_def split: option.splits)
  then show "get_action u x s = Refused 404" by simp
  show "post_revert e u x s = (Refused 404, s)"
    by (simp add: post_revert_def r answer_def containment_status_def)
next
  assume "list_actions u page psize ty st s = Reply c p"
  then have p: "p = soc_page_of ca_created_at page psize
      (filter (\<lambda>a. ca_tenant_id a = usr_id u \<and> equals_filter ty (action_type_value (ca_action_type a))
               \<and> equals_filter st (action_status_value (ca_status a))) (so_actions s))"
    by (simp add: list_actions_def split: if_splits)
  show "x \<notin> ca_uuid ` set (sp_items p)"
    using assms(2) by (auto simp: p dest!: in_soc_page)
qed

subsection \<open>Editing a policy\<close>

text \<open>
  Reading a policy and sending it back changed is accepted as long as nobody else writes it, also for
  a tenant whose policy is still the default that reading does not store; of two such edits
  that start from the same read only the first is accepted, the second is a conflict without effect.
\<close>
theorem policy_edit_cycle:
  assumes "soar_ok s" "get_policy (alone w) e u s = (Reply 200 p, s1)"
    and "valid_policy_update d" "pu_policy_version d = cp_policy_version p"
    and "valid_policy_update d'" "pu_policy_version d' = cp_policy_version p"
    and "put_policy (alone w) e1 u d s1 = (r, s2)"
  shows "s1 = s \<and> (\<exists>q. r = Reply 200 q \<and> cp_tenant_id q = usr_id u \<and> cp_policy_version q = cp_policy_version p + 1
        \<and> cp_blacklist_ttl_seconds q = pu_blacklist_ttl_seconds d)
      \<and> put_policy (alone w) e2 u d' s2 = (Refused 409, s2)"
proof -
  have s1: "s1 = s" and p: "p = fst (get_or_create_policy (alone w) e (usr_id u) s)"
    using assms(2) by (auto simp: get_policy_def)
  obtain p1 s3 where g: "get_or_create_policy (alone w) e1 (usr_id u) s = (p1, s3)" by fastforce
  have v: "cp_policy_version p1 = cp_policy_version p" "cp_tenant_id p1 = usr_id u" "p1 \<in> set (so_policies s3)"
    using g by (auto simp: p get_or_create_policy_def policy_of_def default_policy_def Let_def split: option.splits dest!: first_row_Some)
  have "respectful (alone w)"
    by (simp add: respectful_def)
  then have s3: "soar_ok s3"
    using policy_ok(1) [OF assms(1) _ g] by blast
  let ?q = "write_policy e1 d (usr_id u) p1"
  let ?s = "s3\<lparr>so_policies := upd_rows (submitted_version (usr_id u) d) (write_policy e1 d (usr_id u)) (so_policies s3)\<rparr>"
  have sub: "submitted_version (usr_id u) d p1"
    using v assms(4) by (simp add: submitted_version_def)
  then have ne: "filter (submitted_version (usr_id u) d) (so_policies s3) \<noteq> []"
    using v(3) by (auto simp: filter_empty_conv)
  have upd: "update_policy (alone w) e1 (usr_id u) d (usr_id u) s
      = (Inr (the (policy_of (usr_id u) ?s)), in_store (add_audit (policy_audit e1 (usr_id u) d (usr_id u) p1)) ?s)"
    by (simp add: update_policy_def g ne Let_def)
  then have s2: "s2 = in_store (add_audit (policy_audit e1 (usr_id u) d (usr_id u) p1)) ?s"
    "r = Reply 200 (the (policy_of (usr_id u) ?s))"
    using assms(3, 7) s1 by (auto simp: put_policy_def answer_def)
  have ok2: "soar_ok s2"
    using update_policy_ok [OF upd assms(1) \<open>respectful (alone w)\<close>] s2(1) by simp
  have "?q \<in> set (so_policies ?s)"
    using sub v(3) by (auto simp: upd_rows_def image_iff)
  then have "?q \<in> set (so_policies s2)" "cp_tenant_id ?q = usr_id u"
    using v(2) by (simp_all add: s2(1)) (simp add: write_policy_def)
  then have q: "policy_of (usr_id u) s2 = Some ?q"
    using policy_of_unique [OF ok2] by metis
  then have "policy_of (usr_id u) ?s = Some ?q"
    by (simp add: s2 policy_of_def)
  then have r: "r = Reply 200 ?q"
    by (simp add: s2(2))
  have "\<not> submitted_version (usr_id u) d' y" if "y \<in> set (so_policies s2)" for y
    using policy_of_unique [OF ok2 that] q assms(6) v(1) by (auto simp: submitted_version_def write_policy_def)
  then have "filter (submitted_version (usr_id u) d') (so_policies s2) = []"
    by (simp add: filter_empty_conv)
  then have "update_policy (alone w) e2 (usr_id u) d' (usr_id u) s2 = (Inl HTTP_409_CONFLICT, s2)"
    by (simp add: update_policy_def get_or_create_policy_def q)
  then have "put_policy (alone w) e2 u d' s2 = (Refused 409, s2)"
    using assms(5) by (simp add: put_policy_def answer_def containment_status_def)
  then show ?thesis
    using s1 r v by (simp add: write_policy_def)
qed

subsection \<open>The inbox\<close>

lemma filter_upd_same:
  "(\<And>x. x \<in> set rs \<Longrightarrow> p x \<Longrightarrow> q (f x) = q x) \<Longrightarrow> length (filter q (upd_rows p f rs)) = length (filter q rs)"
  by (induction rs) (auto simp: upd_rows_def)

lemma filter_upd_drop:
  "unique_by k rs \<Longrightarrow> n \<in> set rs \<Longrightarrow> q n \<Longrightarrow> \<not> q (f n) \<Longrightarrow>
   Suc (length (filter q (upd_rows (\<lambda>m. k m = k n) f rs))) = length (filter q rs)"
proof (induction rs)
  case (Cons x rs)
  show ?case
  proof (cases "x = n")
    case True
    have "k y \<noteq> k n" if "y \<in> set rs" for y
      using Cons.prems(1) True that by (metis distinct.simps(2) imageI list.set_map list.simps(9) unique_by_def)
    then have "upd_rows (\<lambda>m. k m = k n) f rs = rs"
      unfolding upd_rows_def by (intro map_idI) simp
    then show ?thesis
      using Cons.prems(3, 4) True by (simp add: upd_rows_def)
  next
    case False
    then have n: "n \<in> set rs" and "k x \<noteq> k n"
      using Cons.prems(1, 2) by (auto simp: unique_by_def)
    then show ?thesis
      using Cons.IH [OF _ n Cons.prems(3, 4)] Cons.prems(1) by (simp add: upd_rows_def unique_by_def)
  qed
qed simp

lemma publish_unread_simps [simp]:
  "st_notifications (publish_unread c k a d s) = st_notifications s"
  "get_unread_count v (publish_unread c k a d s) = get_unread_count v s"
  "get_unread_count v (add_soc_event ev s) = get_unread_count v s"
  by (simp_all add: publish_unread_def get_unread_count_def unread_rows_def)

lemma bus_publish_unread:
  "st_bus (publish_unread c k a d s) = st_bus s @
     [\<lparr>pb_cursor_id = c, pb_event_id = None, pb_tenant_id = k, pb_channel = ''notifications'',
       pb_event_type = ''unread_count_updated'', pb_aggregate_id = Some a, pb_payload = d\<rparr>]"
  by (simp add: publish_unread_def publish_event_def)

lemma unread_after_read:
  assumes "store_ids s" "n \<in> set (st_notifications s)" "nf_user_id n = usr_id u" "\<not> nf_is_read n"
  defines "s1 \<equiv> set_notifications (\<lambda>m. nf_id m = nf_id n) (nf_is_read_update (\<lambda>_. True)) s"
  shows "Suc (get_unread_count u s1) = get_unread_count u s"
    "usr_id v \<noteq> usr_id u \<Longrightarrow> get_unread_count v s1 = get_unread_count v s"
proof -
  have uniq: "unique_by nf_id (st_notifications s)"
    using assms(1) by (auto simp: store_ids_def intro: cursor_ordered_unique)
  show "Suc (get_unread_count u s1) = get_unread_count u s"
    using filter_upd_drop [OF uniq assms(2), of "\<lambda>m. nf_user_id m = usr_id u \<and> \<not> nf_is_read m" "nf_is_read_update (\<lambda>_. True)"]
      assms(3, 4) by (simp add: get_unread_count_def unread_rows_def s1_def)
  assume v: "usr_id v \<noteq> usr_id u"
  have "nf_user_id x = usr_id u" if "x \<in> set (st_notifications s)" "nf_id x = nf_id n" for x
    using unique_by_eq [OF uniq that(1) assms(2) that(2)] assms(3) by simp
  with v show "get_unread_count v s1 = get_unread_count v s"
    unfolding get_unread_count_def unread_rows_def s1_def by (auto intro!: filter_upd_same)
qed

lemma unread_after_all:
  fixes u s
  defines "s1 \<equiv> set_notifications (\<lambda>n. nf_user_id n = usr_id u \<and> \<not> nf_is_read n) (nf_is_read_update (\<lambda>_. True)) s"
  shows "get_unread_count u s1 = 0" "usr_id v \<noteq> usr_id u \<Longrightarrow> get_unread_count v s1 = get_unread_count v s"
proof -
  show "get_unread_count u s1 = 0"
    by (auto simp: get_unread_count_def unread_rows_def s1_def upd_rows_def filter_empty_conv)
  show "usr_id v \<noteq> usr_id u \<Longrightarrow> get_unread_count v s1 = get_unread_count v s"
    unfolding get_unread_count_def unread_rows_def s1_def by (auto intro!: filter_upd_same)
qed

text \<open>
  The number of unread notifications that a request publishes is the one that a later
  request for it answers, although it is computed before the row is written; other users' numbers do
  not change.
\<close>
theorem unread_badge_exact:
  assumes "store_ids s" "serve_inbox (e, u, q) s = (r, s')"
  shows "(s' = s \<or> (\<exists>b n. st_bus s' = st_bus s @ [b] \<and> pb_tenant_id b = usr_id u
        \<and> dict_get (pb_payload b) ''unread_count'' = Some (JInt (int n)) \<and> get_unread u s' = Reply 200 n))
    \<and> (usr_id v \<noteq> usr_id u \<longrightarrow> get_unread v s' = get_unread v s)"
proof (cases q)
  case (MarkRead i)
  have "s' = snd (serve_inbox (e, u, q) s)"
    using assms(2) by simp
  then have s': "s' = snd (mark_as_read e i u s)"
    by (simp add: MarkRead serve_inbox_def mark_notification_read_def)
  show ?thesis
  proof (cases "first_row (filter (\<lambda>n. nf_uuid n = str_strip i \<and> nf_user_id n = usr_id u) (st_notifications s))")
    case None
    then have "s' = s"
      unfolding s' mark_as_read_def by (simp only: option.case snd_conv)
    then show ?thesis by simp
  next
    case (Some n)
    then have n: "n \<in> set (st_notifications s)" "nf_user_id n = usr_id u"
      by (auto dest: first_row_Some)
    show ?thesis
    proof (cases "nf_is_read n")
      case True
      with Some have "s' = s"
        unfolding s' mark_as_read_def by (simp only: option.case if_True snd_conv)
      then show ?thesis by simp
    next
      case False
      note after = unread_after_read [OF assms(1) n False]
      let ?s1 = "set_notifications (\<lambda>m. nf_id m = nf_id n) (nf_is_read_update (\<lambda>_. True)) s"
      let ?d = "[(''id'', JStr (nf_uuid n)), (''is_read'', JBool True), (''unread_count'', JInt (max 0 (int (get_unread_count u s) - 1)))]"
      have "s' = publish_unread (sq_stream ?s1) (usr_id u) (nf_uuid n) ?d (add_soc_event (unread_event e 0 (usr_id u) (nf_uuid n) ?d) ?s1)"
        using Some False unfolding s' mark_as_read_def by (simp only: option.case if_False snd_conv Let_def)
      moreover have "max 0 (int (get_unread_count u s) - 1) = int (get_unread_count u ?s1)"
        using after(1) by simp
      ultimately show ?thesis
        using after(2) [of v] by (simp add: get_unread_def bus_publish_unread dict_get_def)
    qed
  qed
next
  case MarkAllRead
  have "s' = snd (serve_inbox (e, u, q) s)"
    using assms(2) by simp
  then have s': "s' = snd (mark_all_as_read e u s)"
    by (simp add: MarkAllRead serve_inbox_def mark_all_notifications_read_def)
  then show ?thesis
    using unread_after_all [where u = u and s = s]
    by (simp add: mark_all_as_read_def Let_def get_unread_def bus_publish_unread dict_get_def)
qed

lemma runs_never_listed:
  \<comment> \<open>with a session that raises on lazy loads, the list of runs fails unless it is empty\<close>
  assumes "paged 1 psize" "r \<in> set (so_runs s)" "pr_tenant_id r = usr_id u"
  shows "list_playbook_runs (\<lambda>r. None) u 1 psize None s = Refused 500"
proof -
  let ?q = "filter (\<lambda>r. pr_tenant_id r = usr_id u \<and> equals_filter None (run_status_value (pr_status r))) (so_runs s)"
  have "r \<in> set ?q"
    using assms by (simp add: equals_filter_def)
  then have "sort_key (\<lambda>r. - pr_started_at r) ?q \<noteq> []"
    by (metis empty_iff list.set(1) set_sort)
  moreover have "0 < nat psize"
    using assms(1) by (simp add: paged_def)
  ultimately have "sp_items (soc_page_of pr_started_at 1 psize ?q) \<noteq> []"
    by (simp add: soc_page_of_def page_rows_def)
  then have "\<exists>r. r \<in> set (sp_items (soc_page_of pr_started_at 1 psize ?q))"
    using last_in_set by blast
  then show ?thesis
    using assms(1) by (simp add: list_playbook_runs_def Let_def)
qed

end
