(* ===== verification/Spec2Isabelle.thy ===== *)
theory Spec2Isabelle
  imports Alerts Correlation Domain Incidents Notifications Scheduler Probe Monitoring Worker Pool Broadcaster ContainmentSafety
    DispatcherSafety Suspension Retention ThreatIntel Enrichment Lifecycle LifecycleLock Learning Streams FeatureStore Datasets RoutersSoc
begin

text \<open>
  \<^bold>\<open>A verification development of the AI Cyber Security Suite\<close>

  The suite scans URLs, turns what it finds into security alerts, correlates alerts into incidents,
  watches targets around the clock, contains threats, streams and posts what happens to its users, and
  retrains its own classifier.  This development models the services of \<open>src/backend\<close> and the
  feature and data code of \<open>src/ml\<close> and \<open>src/src\<close> that carry that logic, and proves what makes them
  correct.

  \<^bold>\<open>How the parts interact.\<close>  A security event (\<open>event_engine.py\<close>) is processed by the alert service
  (\<open>alert_service.py\<close>): a detection rule is chosen, a recent active alert with the same fingerprint
  absorbs the event, otherwise an alert is created, its owner is notified and a stream row is
  written.  The incident service (\<open>incident_service.py\<close>) groups alerts.  The monitoring service
  (\<open>monitoring_service.py\<close>) keeps the targets of each user; the scheduler
  (\<open>scheduler_service.py\<close>) elects one leader pod and leases due targets to its workers; a worker
  (\<open>monitoring_worker.py\<close>) probes a target through the address policy
  (\<open>monitoring_probe.py\<close>, \<open>security_network.py\<close>), runs the alert and incident pipeline on the
  outcome and writes the result back under its lease.  The containment service
  (\<open>containment_service.py\<close>) evaluates alerts against a tenant's policy, blacklists indicators and
  quarantines targets, and takes both back.  The notification service writes outbox rows that the
  dispatcher (\<open>notification_dispatcher.py\<close>) posts to webhooks; the broadcaster
  (\<open>event_broadcaster.py\<close>) delivers committed stream rows to the open streams of the gateway
  (\<open>api/routers/streams.py\<close>); the retention worker prunes the logs.  A scan (\<open>api/routers/scan.py\<close>) asks
  the threat intelligence (\<open>threat_intel.py\<close>) and then the classifier on the features of the URL
  (\<open>ml/features\<close>); unknown URLs become samples that the learning service (\<open>learning.py\<close>) labels and hands
  to the retraining, whose outcome the model lifecycle (\<open>model_lifecycle.py\<close>) promotes, reloads and rolls
  back.  The routers validate requests, call these services and turn their exceptions into responses.

  \<^bold>\<open>Theories and what they model.\<close>
  \<^item> \<open>Prelude\<close>: the lemma collections, the locales that several components interpret, and the generic facts
    on association lists, tables, folds, strings and decimal text.  \<open>Base64\<close>: bytes and Python's Base64.
  \<^item> \<open>Schemas\<close>: enumerations, transition tables and validators of \<open>schemas/soc.py\<close>.
    \<open>Models\<close>: the rows of \<open>database/models.py\<close> as records, the database as one record
    \<open>store\<close> of tables, the caller's environment \<open>env\<close> (clock and fresh identifiers).
    \<open>Samples\<close>: concrete users, pods and targets for the witnesses.
  \<^item> \<open>PyNet\<close>: the parts of Python's \<open>ipaddress\<close> and \<open>urllib.parse\<close> the source uses; \<open>Domain\<close>:
    \<open>utils/domain.py\<close>; \<open>Correlation\<close>: \<open>correlation_engine.py\<close>.
  \<^item> \<open>Notifications\<close>, \<open>Preferences\<close>: \<open>notification_service.py\<close> with \<open>schemas/notification.py\<close> (notifications and
    outbox rows; secrets, signatures and preferences).  \<open>Dispatcher\<close>, \<open>DispatcherSafety\<close>:
    \<open>notification_dispatcher.py\<close> and what it guarantees.
  \<^item> \<open>Alerts\<close>: \<open>event_engine.py\<close> and \<open>alert_service.py\<close>.  \<open>Incidents\<close>: \<open>incident_service.py\<close>.
  \<^item> \<open>Scheduler\<close>: \<open>scheduler_service.py\<close> on SQLite and PostgreSQL, and one cycle of
    \<open>monitoring_engine.py\<close>.  \<open>Monitoring\<close>: \<open>monitoring_service.py\<close>.
  \<^item> \<open>SafeNet\<close>, \<open>IpText\<close>: \<open>core/security_network.py\<close>, the definitions and the facts on addresses
    written as text.  \<open>Probe\<close>: \<open>monitoring_probe.py\<close>.
  \<^item> \<open>Worker\<close>: one execution of a claimed target by \<open>monitoring_worker.py\<close>; \<open>Pool\<close>: its worker pool
    as a step relation.  \<open>Suspension\<close>: users, schedulers, workers and the containment engine acting on one
    state, and how long a suspension lasts there.
  \<^item> \<open>Broadcaster\<close>: \<open>event_broadcaster.py\<close> with the envelope of \<open>schemas/stream.py\<close>.  \<open>Streams\<close>: the gateway
    \<open>api/routers/streams.py\<close>.  \<open>Retention\<close>: \<open>retention_worker.py\<close>.
  \<^item> \<open>Containment\<close>, \<open>ContainmentSafety\<close>: \<open>containment_service.py\<close> with \<open>schemas/containment.py\<close>, and what it
    guarantees.
  \<^item> \<open>ThreatIntel\<close>: \<open>threat_intel.py\<close>.  \<open>Enrichment\<close>: \<open>intel_enrichment.py\<close>.
  \<^item> \<open>Lifecycle\<close>: \<open>model_lifecycle.py\<close>, the reloads of \<open>prediction.py\<close> and \<open>explainer.py\<close>, the promotion gate of
    \<open>ml/pipelines/retrain.py\<close> and the rollback handler; \<open>LifecycleLock\<close>: its lock file as interleaved system
    calls.  \<open>Learning\<close>: \<open>learning.py\<close>, the scan handler and the cascade of a prediction.
  \<^item> \<open>Features\<close>: \<open>ml/features\<close> and \<open>services/feature_eng.py\<close>; \<open>FeatureChecks\<close>: what every vector looks like;
    \<open>FeatureStore\<close>: the validator, the batch pipeline and the feature selector.  \<open>Datasets\<close>: the CSV
    files of \<open>src/data\<close>, the splits and the thresholds.
  \<^item> \<open>Routers\<close>: the handlers of \<open>api/routers/monitor.py\<close>, \<open>alerts.py\<close> and \<open>incidents.py\<close>;
    \<open>RoutersSoc\<close>: those of \<open>containment.py\<close> and \<open>notifications.py\<close>.

  \<^bold>\<open>How code is written as definitions.\<close>  A service method is a function
  \<open>op :: env \<Rightarrow> arguments \<Rightarrow> store \<Rightarrow> (error + result) \<times> store\<close>.  The returned store is what is
  committed: on a raised error it is the store as the code leaves it, which is the old store where
  the code rolls back.  A boolean argument decides whether a commit that may fail does.  One call
  sees one instant of the clock; nested calls take their fresh identifiers from disjoint slots of
  \<open>env\<close> (\<open>env_shift\<close>).  Tables are lists in insertion order, which is also the order in which rows
  that compare equal are returned.  Floating-point scores are exact rationals with the same
  decimal constants; strings are ASCII.  What other pods and users do in between is an explicit
  list of operations (\<open>exec_op\<close>, \<open>exec_bc\<close>, \<open>exec_outbox\<close>, \<open>exec_soar\<close>, \<open>exec_system\<close>) or a step relation
  (\<open>pool_step\<close>, \<open>lock_step\<close>).  Where the code reads and writes in two transactions or two requests, what
  happens in between is an argument: \<open>sw_race\<close> and \<open>sw_overtake\<close> (\<open>Containment\<close>), \<open>ww_race\<close>, \<open>during\<close> and
  \<open>between\<close> (\<open>Worker\<close>), \<open>rc_between\<close> (the \<open>GET\<close> and \<open>DELETE\<close> of a ticket).  Calls of Redis are answered, not run,
  or run with their answer lost (\<open>reply\<close>).

  \<^bold>\<open>What the lemmas show.\<close>
  \<^item> Alerts and incidents: an event creates or refreshes exactly one alert, the alert and incident
    tables stay well formed in every run, statuses only move along the transition tables, operations
    of one tenant never touch the rows of another, a storm of equal events yields one alert.
  \<^item> Scheduler: election is exclusive and epochs strictly increase; a claim is exclusive for the time
    of the lease; of all writes under a claim at most one is accepted.  On PostgreSQL no leader can
    be elected from the row that the migration inserts (\<open>bootstrap_never_elects\<close>).
  \<^item> Worker: it acts only under a valid lease; the fifth failure in a row suspends a target and a probe
    that the SSRF guard refuses does so at once; a critical finding whose result is accepted ends in
    an incident; a suspension lasts, whatever users, schedulers, workers and containment actions do,
    until the target is reactivated, updated to active or its quarantine is rolled back.  Interaction
    of the pool's semaphores: all tasks finish, but one tenant can keep another waiting.
  \<^item> Network: no connection is ever made to a blocked address, for any resolver and any sequence of
    redirects, by a probe, an enrichment or a webhook; resolution fails closed.
  \<^item> Broadcaster and gateway: streams are isolated and bounded; a full queue gives up its oldest
    non-critical event or, for a critical one, its newest item to an overflow frame; a replay has no
    gaps while an event is left to notice one by; a revoked user's stream stops 45 seconds later at
    most, plus the time of one round.  A ticket opens one stream when its presentations do not overlap
    and the \<open>SET\<close> was answered; otherwise it can open two (\<open>ticket_fallback_used_twice\<close>, \<open>lost_reply_two_uses\<close>).
  \<^item> Notifications: a secret decrypts to itself and only authenticated ciphertext is accepted; an outbox
    job refines a four-stage machine as long as leases are respected, with at most three tries written
    back (a try whose pod dies is not counted: \<open>lost_try_not_counted\<close>); the circuit breaks exactly at the
    fifth failure in a row.
  \<^item> Containment: the allowlist is never blacklisted, an action is executed once, a rollback undoes what
    its action did and nothing else.  Active blacklist rows are not unique: two sessions can both insert
    one (\<open>concurrent_blacklisting_duplicates\<close>).  Retention: a pass equals four unbounded deletes.
  \<^item> Learning: the model in production is never a demoted one, a promotion needs every gate, rollbacks end;
    labels come from authorities only, and without a change of the intelligence they are all
    \<open>legitimate\<close>.
  \<^item> Features and data: every vector has the registered features with values of their kinds, the batch
    pipeline equals extraction row by row although it mutates cached dicts, selection partitions the
    columns, cleaning is idempotent, splits are stable, thresholds are optimal among the candidates.
  \<^item> Routers: a refused request changes nothing (but for the creation of an incident with initial alerts), responses do not
    depend on other tenants' alerts and targets, targets that come in through the API are well
    formed, other tenants' containment actions look missing, a policy is edited without lost updates,
    and the published number of unread notifications is exact.

  \<^bold>\<open>Contracts.\<close>  Interfaces that several components share are locales, interpreted on the model's own
  definitions in the theory that provides them: \<open>cursor_log\<close> (append-only tables with a cursor; the
  eight tables of \<open>Models\<close>), \<open>tenant_isolated\<close> (operations that leave other tenants' rows alone; alerts,
  incidents, targets, containment), \<open>fenced_lease\<close> (\<open>Scheduler\<close>), \<open>severity_merge\<close> and \<open>status_machine\<close>
  (\<open>Schemas\<close>), \<open>simulation\<close> (the outbox in \<open>DispatcherSafety\<close>), \<open>atomic_endpoint\<close> (\<open>Routers\<close>, \<open>RoutersSoc\<close>; it
  covers the requests that the interface calls plain) and \<open>store_guard\<close> (\<open>Suspension\<close>; a property of the store that the
  containment operations keep).

  \<^bold>\<open>Bounds and fuel.\<close>  \<open>probe_loop\<close> recurses on the number of hops left; the code runs its loop at most
  \<open>MAX_REDIRECTS + 1\<close> times, which is the number the model starts with, so no run is cut short; likewise
  \<open>redirect_loop\<close> for the three hops of an enrichment.  The pruning loops recurse on the length of the
  table, and each round but the last removes a row.  \<open>run_chunks\<close> recurses on the rows left.  Every other
  loop is structural recursion or a fold.  Numbers are Python's unbounded integers; addresses are
  naturals below \<open>2 ^ 32\<close> and \<open>2 ^ 128\<close>; bytes are words of eight bits.

  \<^bold>\<open>Abstractions.\<close>  PostgreSQL's advisory lock is kept as its holding pod, without the count of a session's
  acquisitions; no theorem on leaders rests on it.  A feature selector is fitted once.  The rows that the
  dispatcher claims can still be read after the commit (\<open>expire_on_commit=False\<close>).  One round of a stream is a
  \<open>tick\<close> with the time of its checks and the time at which its item arrived.  The shutdown of the
  pool marks tasks; their permits come back one by one.

  \<^bold>\<open>Parameters.\<close>  Code outside the repository is an argument: the Public Suffix List lookup of
  \<open>tldextract\<close>, \<open>getaddrinfo\<close>, \<open>urljoin\<close> and the HTTP client, the SHA-256 digest, PBKDF2, AES-GCM and HMAC
  (\<open>vault\<close>), the text and the size of JSON, the answers of Redis, VirusTotal, PhishTank, WHOIS, TLS and
  ipinfo, unpickling, the decoding of a JWT, the classifier and the outcome of a training run, \<open>math.log2\<close>,
  variances, correlations and F1 scores, and what pandas reads from a file.  No law is assumed of
  them unless a theorem names it.

  \<^bold>\<open>Not modelled.\<close>  Password hashing and the issue of tokens (calls of bcrypt and a JWT library), the
  routers for history, statistics, downloads, analytics, health and investigation (queries and
  formatting), middleware and rate limits, SHAP explanations, fitting, tuning, calibration,
  evaluation and tracking of models (calls of scikit-learn, xgboost, optuna, mlflow), reports on the
  console, the Redis cache (a hint the code never trusts), the containment hook that \<open>process_new\<close>
  starts in a session of its own, the expiry of Redis counters, sockets, and the asyncio start and
  stop code of the background loops.
\<close>

end
